(* ===== verification/Prelude.thy ===== *)
theory Prelude
  imports Main "HOL-Library.AList" "HOL-Library.Char_ord" "HOL-Library.List_Lexorder"
    "HOL-Library.Sublist"
begin

text \<open>
  Shared vocabulary of the development: Go strings as byte lists, the functions of the Go
  packages \<open>strings\<close>, \<open>strconv\<close> and \<open>slices\<close> that the sources use, Go maps as association
  lists, and the interfaces (locales) that several components implement.

  A Go \<open>string\<close> is a sequence of bytes, which is what the HOL type \<^typ>\<open>string\<close> is
  (a list of 8-bit characters), so \<open>len\<close> is \<^const>\<open>length\<close> and comparison is the
  lexicographic order of HOL-Library.List_Lexorder. A Go \<open>error\<close> result is an option:
  \<open>None\<close> is Go's \<open>nil\<close>. A result with an error is a sum, \<open>Inl\<close> the error.
\<close>

named_theorems gostr \<open>facts about the modelled functions of package strings\<close>
named_theorems checks \<open>unfoldings of character classes and validity checks\<close>

section \<open>Results\<close>

type_synonym ('e, 'a) result = "'e + 'a"

definition bindr :: "('e, 'a) result \<Rightarrow> ('a \<Rightarrow> ('e, 'b) result) \<Rightarrow> ('e, 'b) result" where
  "bindr r f = (case r of Inl e \<Rightarrow> Inl e | Inr a \<Rightarrow> f a)"

lemma bindr_simps [simp]:
  "bindr (Inl e) f = Inl e"
  "bindr (Inr a) f = f a"
  by (simp_all add: bindr_def)

lemma bindr_Inr_iff: "bindr r f = Inr b \<longleftrightarrow> (\<exists>a. r = Inr a \<and> f a = Inr b)"
  by (auto simp: bindr_def split: sum.splits)

text \<open>The first error of a list of checks, in order: the shape of every \<open>Validate\<close>.\<close>

fun first_error :: "'e option list \<Rightarrow> 'e option" where
  "first_error [] = None"
| "first_error (None # cs) = first_error cs"
| "first_error (Some e # cs) = Some e"

definition refuse_if :: "bool \<Rightarrow> 'e \<Rightarrow> 'e option" where
  "refuse_if b e = (if b then Some e else None)"

lemma refuse_if_None [simp]: "refuse_if b e = None \<longleftrightarrow> \<not> b"
  by (simp add: refuse_if_def)

lemma refuse_if_Some [simp]: "refuse_if b e = Some x \<longleftrightarrow> b \<and> x = e"
  by (auto simp: refuse_if_def)

lemma first_error_None_iff: "first_error cs = None \<longleftrightarrow> (\<forall>c \<in> set cs. c = None)"
  by (induction cs rule: first_error.induct) auto

lemma first_error_Some_in: "first_error cs = Some e \<Longrightarrow> Some e \<in> set cs"
  by (induction cs rule: first_error.induct) auto

lemma find_snoc: "List.find P (xs @ [x]) = (case List.find P xs of None \<Rightarrow> if P x then Some x else None | Some y \<Rightarrow> Some y)"
  by (induction xs) auto

lemma first_error_append:
  "first_error (xs @ ys) = (case first_error xs of None \<Rightarrow> first_error ys | Some e \<Rightarrow> Some e)"
  by (induction xs rule: first_error.induct) auto

text \<open>Folding a fallible step over a list: Go's loop with an early error return.\<close>

fun fold_result :: "('a \<Rightarrow> 's \<Rightarrow> ('e, 's) result) \<Rightarrow> 'a list \<Rightarrow> 's \<Rightarrow> ('e, 's) result" where
  "fold_result f [] s = Inr s"
| "fold_result f (x # xs) s = bindr (f x s) (fold_result f xs)"

lemma fold_result_append:
  "fold_result f (xs @ ys) s = bindr (fold_result f xs s) (fold_result f ys)"
  by (induction xs arbitrary: s) (auto simp: bindr_def split: sum.splits)

lemma fold_result_invariant:
  assumes "fold_result f xs s = Inr t" and "I s"
    and "\<And>x s s'. x \<in> set xs \<Longrightarrow> I s \<Longrightarrow> f x s = Inr s' \<Longrightarrow> I s'"
  shows "I t"
  using assms
proof (induction xs arbitrary: s)
  case Nil
  then show ?case by simp
next
  case (Cons x xs)
  then obtain s' where s': "f x s = Inr s'" "fold_result f xs s' = Inr t"
    by (auto simp: bindr_Inr_iff)
  have "I s'" by (rule Cons.prems(3) [OF _ Cons.prems(2) s'(1)]) simp
  then show ?case
    by (rule Cons.IH [OF s'(2)]) (rule Cons.prems(3), simp_all)
qed

text \<open>
  A loop over a list that keeps what it has seen so far: \<open>f seen x\<close> are the checks made at
  \<open>x\<close> when the loop has passed \<open>seen\<close>.
\<close>

fun scan :: "('a list \<Rightarrow> 'a \<Rightarrow> 'e option list) \<Rightarrow> 'a list \<Rightarrow> 'a list \<Rightarrow> 'e option list" where
  "scan f seen [] = []"
| "scan f seen (x # xs) = f seen x @ scan f (seen @ [x]) xs"

lemma scan_all_iff:
  "list_all P (scan f seen xs) \<longleftrightarrow>
     (\<forall>i < length xs. list_all P (f (seen @ take i xs) (xs ! i)))"
proof (induction xs arbitrary: seen)
  case Nil
  then show ?case by simp
next
  case (Cons x xs)
  show ?case
    by (simp add: Cons.IH All_less_Suc2)
qed

lemma fresh_iff_distinct:
  "(\<forall>i < length xs. xs ! i \<notin> set (seen @ take i xs)) \<longleftrightarrow> distinct xs \<and> set seen \<inter> set xs = {}"
proof (induction xs arbitrary: seen)
  case Nil
  then show ?case by simp
next
  case (Cons x xs)
  have "(\<forall>i < length (x # xs). (x # xs) ! i \<notin> set (seen @ take i (x # xs))) \<longleftrightarrow>
     x \<notin> set seen \<and> (\<forall>i < length xs. xs ! i \<notin> set ((seen @ [x]) @ take i xs))"
    by (auto simp: All_less_Suc2)
  also have "\<dots> \<longleftrightarrow> x \<notin> set seen \<and> distinct xs \<and> set (seen @ [x]) \<inter> set xs = {}"
    by (simp only: Cons.IH)
  finally show ?case by auto
qed

lemma scan_fresh_from:
  assumes "\<And>seen x. list_all P (f seen x) \<longleftrightarrow> g x \<notin> set (map g seen) \<and> Q x"
  shows "list_all P (scan f seen xs) \<longleftrightarrow>
     distinct (map g xs) \<and> set (map g seen) \<inter> set (map g xs) = {} \<and> (\<forall>x \<in> set xs. Q x)"
proof -
  have "list_all P (scan f seen xs) \<longleftrightarrow>
      (\<forall>i < length (map g xs). map g xs ! i \<notin> set (map g seen @ take i (map g xs))) \<and>
      (\<forall>i < length xs. Q (xs ! i))"
    unfolding scan_all_iff assms by (auto simp: take_map)
  then show ?thesis unfolding fresh_iff_distinct by (simp add: all_set_conv_all_nth)
qed

lemma scan_fresh_key:
  assumes "\<And>seen x. list_all P (f seen x) \<longleftrightarrow> g x \<notin> set (map g seen) \<and> Q x"
  shows "list_all P (scan f [] xs) \<longleftrightarrow> distinct (map g xs) \<and> (\<forall>x \<in> set xs. Q x)"
  unfolding scan_fresh_from [OF assms] by simp

lemma scan_fresh:
  assumes "\<And>seen x. list_all P (f seen x) \<longleftrightarrow> x \<notin> set seen \<and> Q x"
  shows "list_all P (scan f [] xs) \<longleftrightarrow> distinct xs \<and> (\<forall>x \<in> set xs. Q x)"
  using scan_fresh_key [where g = "\<lambda>x. x" and P = P and f = f and Q = Q] assms by simp

lemma find_unique_perm:
  assumes "set xs = set ys" and "\<And>x y. x \<in> set xs \<Longrightarrow> y \<in> set xs \<Longrightarrow> P x \<Longrightarrow> P y \<Longrightarrow> x = y"
  shows "List.find P xs = List.find P ys"
proof (cases "List.find P xs")
  case None
  then show ?thesis using assms(1) by (metis find_None_iff)
next
  case (Some x)
  then have x: "x \<in> set xs" "P x" by (auto simp: find_Some_iff)
  then have "List.find P ys \<noteq> None" using assms(1) by (metis find_None_iff)
  then obtain y where y: "List.find P ys = Some y" by auto
  then have "y \<in> set ys" "P y" by (auto simp: find_Some_iff)
  with assms x have "x = y" by metis
  with Some y show ?thesis by simp
qed

definition guard :: "'e option list \<Rightarrow> 's \<Rightarrow> ('e, 's) result" where
  "guard cs s = (case first_error cs of Some e \<Rightarrow> Inl e | None \<Rightarrow> Inr s)"

definition no_error :: "'e option \<Rightarrow> bool" where
  "no_error c \<longleftrightarrow> c = None"

lemma no_error_simps [simp]: "no_error None" "\<not> no_error (Some e)"
  "no_error (refuse_if b e) \<longleftrightarrow> \<not> b"
  by (simp_all add: no_error_def)

lemma first_error_None_all: "first_error cs = None \<longleftrightarrow> list_all no_error cs"
  by (simp add: first_error_None_iff list_all_iff no_error_def)

lemma guard_Inr_iff: "guard cs s = Inr t \<longleftrightarrow> list_all no_error cs \<and> t = s"
  unfolding guard_def first_error_None_all [symmetric] by (auto split: option.splits)

section \<open>Byte classes\<close>

definition is_lower :: "char \<Rightarrow> bool" where
  "is_lower c \<longleftrightarrow> CHR ''a'' \<le> c \<and> c \<le> CHR ''z''"

definition is_upper :: "char \<Rightarrow> bool" where
  "is_upper c \<longleftrightarrow> CHR ''A'' \<le> c \<and> c \<le> CHR ''Z''"

definition is_digit :: "char \<Rightarrow> bool" where
  "is_digit c \<longleftrightarrow> CHR ''0'' \<le> c \<and> c \<le> CHR ''9''"

definition is_hex :: "char \<Rightarrow> bool" where
  "is_hex c \<longleftrightarrow> is_digit c \<or> CHR ''a'' \<le> c \<and> c \<le> CHR ''f''"

definition is_ascii :: "char \<Rightarrow> bool" where
  "is_ascii c \<longleftrightarrow> of_char c < (128 :: nat)"

lemmas byte_classes = is_lower_def is_upper_def is_digit_def is_hex_def

lemma char_le_iff: "c \<le> d \<longleftrightarrow> (of_char c :: nat) \<le> of_char d" for c d :: char
  by (rule less_eq_char_def)

lemma of_char_inj_iff: "c = d \<longleftrightarrow> (of_char c :: nat) = of_char d" for c d :: char
  by simp

section \<open>Package strings\<close>

definition has_prefix :: "string \<Rightarrow> string \<Rightarrow> bool" where
  "has_prefix p s \<longleftrightarrow> take (length p) s = p"

definition has_suffix :: "string \<Rightarrow> string \<Rightarrow> bool" where
  "has_suffix p s \<longleftrightarrow> length p \<le> length s \<and> drop (length s - length p) s = p"

definition cut_prefix :: "string \<Rightarrow> string \<Rightarrow> string option" where
  "cut_prefix p s = (if has_prefix p s then Some (drop (length p) s) else None)"

definition trim_suffix :: "string \<Rightarrow> string \<Rightarrow> string" where
  "trim_suffix p s = (if has_suffix p s then take (length s - length p) s else s)"

text \<open>\<open>strings.Cut\<close> at a one-byte separator: the text before it and, if it occurs, after it.\<close>

definition str_cut :: "char \<Rightarrow> string \<Rightarrow> string \<times> string option" where
  "str_cut c s = (case dropWhile (\<lambda>x. x \<noteq> c) s of
     [] \<Rightarrow> (s, None) | _ # rest \<Rightarrow> (takeWhile (\<lambda>x. x \<noteq> c) s, Some rest))"

text \<open>\<open>strings.Split\<close> at a one-byte separator, and \<open>strings.Join\<close>.\<close>

fun split_on :: "char \<Rightarrow> string \<Rightarrow> string list" where
  "split_on c [] = [[]]"
| "split_on c (x # xs) =
     (if x = c then [] # split_on c xs
      else (case split_on c xs of [] \<Rightarrow> [[x]] | p # ps \<Rightarrow> (x # p) # ps))"

fun join :: "string \<Rightarrow> string list \<Rightarrow> string" where
  "join sep [] = []"
| "join sep [x] = x"
| "join sep (x # y # ys) = x @ sep @ join sep (y # ys)"

lemma has_prefix_iff [gostr]: "has_prefix p s \<longleftrightarrow> (\<exists>r. s = p @ r)"
  by (metis append_eq_conv_conj append_take_drop_id has_prefix_def)

lemma has_prefix_append [simp, gostr]: "has_prefix p (p @ r)"
  by (simp add: has_prefix_def)

lemma has_suffix_iff [gostr]: "has_suffix p s \<longleftrightarrow> (\<exists>r. s = r @ p)"
proof
  assume "has_suffix p s"
  then have "s = take (length s - length p) s @ p"
    unfolding has_suffix_def by (metis append_take_drop_id)
  then show "\<exists>r. s = r @ p" by blast
qed (auto simp: has_suffix_def)

lemma cut_prefix_Some [gostr]: "cut_prefix p s = Some r \<longleftrightarrow> s = p @ r"
  by (auto simp: cut_prefix_def has_prefix_iff)

lemma trim_suffix_append [simp]: "trim_suffix p (r @ p) = r"
  by (simp add: trim_suffix_def has_suffix_def)

lemma str_cut_notin [simp]: "c \<notin> set s \<Longrightarrow> str_cut c s = (s, None)"
proof -
  assume "c \<notin> set s"
  then have "dropWhile (\<lambda>x. x \<noteq> c) s = []" by (auto simp: dropWhile_eq_Nil_conv)
  then show ?thesis by (simp only: str_cut_def list.case)
qed

lemma str_cut_append [simp]: "c \<notin> set a \<Longrightarrow> str_cut c (a @ c # b) = (a, Some b)"
proof -
  assume a: "c \<notin> set a"
  then have "dropWhile (\<lambda>x. x \<noteq> c) (a @ c # b) = c # b"
    by (subst dropWhile_append2) auto
  moreover from a have "takeWhile (\<lambda>x. x \<noteq> c) (a @ c # b) = a"
    by (subst takeWhile_append2) auto
  ultimately show ?thesis by (simp add: str_cut_def)
qed

lemma str_cut_None_iff: "str_cut c s = (a, None) \<longleftrightarrow> a = s \<and> c \<notin> set s"
proof (cases "c \<in> set s")
  case True
  then obtain x y where "s = x @ c # y" "c \<notin> set x"
    by (meson split_list_first)
  then show ?thesis using True by auto
qed auto

lemma str_cut_Some_iff: "str_cut c s = (a, Some b) \<longleftrightarrow> s = a @ c # b \<and> c \<notin> set a"
proof (cases "c \<in> set s")
  case True
  then obtain x y where s: "s = x @ c # y" "c \<notin> set x"
    by (meson split_list_first)
  then have cut_s: "str_cut c s = (x, Some y)" by simp
  show ?thesis
  proof
    assume "str_cut c s = (a, Some b)"
    with cut_s s show "s = a @ c # b \<and> c \<notin> set a" by simp
  next
    assume "s = a @ c # b \<and> c \<notin> set a"
    then show "str_cut c s = (a, Some b)" by simp
  qed
qed auto

lemma split_on_nonempty [simp]: "split_on c s \<noteq> []"
  by (induction c s rule: split_on.induct) (auto split: list.splits)

lemma split_on_notin [simp]: "c \<notin> set s \<Longrightarrow> split_on c s = [s]"
  by (induction c s rule: split_on.induct) auto

lemma split_on_append [simp]: "c \<notin> set a \<Longrightarrow> split_on c (a @ c # b) = a # split_on c b"
  by (induction a) auto

lemma split_on_parts: "p \<in> set (split_on c s) \<Longrightarrow> c \<notin> set p"
  by (induction c s arbitrary: p rule: split_on.induct) (auto split: list.splits if_splits)

lemma join_Cons: "ys \<noteq> [] \<Longrightarrow> join sep (x # ys) = x @ sep @ join sep ys"
  by (cases ys) auto

lemma join_split_on [simp]: "join [c] (split_on c s) = s"
proof (induction c s rule: split_on.induct)
  case (1 c)
  then show ?case by simp
next
  case (2 c x xs)
  show ?case
  proof (cases "x = c")
    case True
    with 2 show ?thesis by (simp add: join_Cons)
  next
    case False
    obtain p ps where ps: "split_on c xs = p # ps"
      by (meson neq_Nil_conv split_on_nonempty)
    with False 2 show ?thesis by (cases ps) auto
  qed
qed

lemma split_on_join:
  assumes "xs \<noteq> []" and "\<And>x. x \<in> set xs \<Longrightarrow> c \<notin> set x"
  shows "split_on c (join [c] xs) = xs"
  using assms
proof (induction xs)
  case Nil
  then show ?case by simp
next
  case (Cons x xs)
  show ?case
  proof (cases "xs = []")
    case True
    with Cons.prems show ?thesis by simp
  next
    case False
    then have "split_on c (join [c] xs) = xs" using Cons by simp
    moreover have "join [c] (x # xs) = x @ c # join [c] xs"
      using False by (simp add: join_Cons)
    moreover have "c \<notin> set x" using Cons.prems by simp
    ultimately show ?thesis by simp
  qed
qed

text \<open>
  \<open>strings.TrimSpace\<close>: the encodings of the Unicode white space runes are removed from
  both ends. A white space rune is recognised by its UTF-8 bytes.
\<close>

definition space_runes :: "string list" where
  "space_runes = map (map char_of)
     ([[9], [10], [11], [12], [13], [32], [0xC2, 0x85], [0xC2, 0xA0], [0xE1, 0x9A, 0x80],
       [0xE2, 0x80, 0xA8], [0xE2, 0x80, 0xA9], [0xE2, 0x80, 0xAF], [0xE2, 0x81, 0x9F],
       [0xE3, 0x80, 0x80]] @ map (\<lambda>b. [0xE2, 0x80, b]) [0x80 ..< (0x8B :: nat)])"

definition leading_space :: "string list \<Rightarrow> string \<Rightarrow> string option" where
  "leading_space ws s = List.find (\<lambda>w. has_prefix w s) ws"

function trim_left :: "string list \<Rightarrow> string \<Rightarrow> string" where
  "trim_left ws s = (case leading_space ws s of
     None \<Rightarrow> s | Some w \<Rightarrow> if w = [] then s else trim_left ws (drop (length w) s))"
  by pat_completeness auto
termination
  by (relation "measure (\<lambda>(ws, s). length s)")
     (auto simp: leading_space_def find_Some_iff has_prefix_iff)

declare trim_left.simps [simp del]

definition trim_space :: "string \<Rightarrow> string" where
  "trim_space s =
     rev (trim_left (map rev space_runes) (rev (trim_left space_runes s)))"

lemma trim_left_suffix: "\<exists>w. s = w @ trim_left ws s"
proof (induction ws s rule: trim_left.induct)
  case (1 ws s)
  show ?case
  proof (cases "leading_space ws s")
    case None
    then show ?thesis by (simp add: trim_left.simps [of ws s])
  next
    case (Some w)
    show ?thesis
    proof (cases "w = []")
      case True
      with Some show ?thesis by (simp add: trim_left.simps [of ws s])
    next
      case False
      from Some obtain r where "s = w @ r"
        by (auto simp: leading_space_def find_Some_iff has_prefix_iff)
      moreover have "trim_left ws s = trim_left ws (drop (length w) s)"
        using Some False by (subst trim_left.simps) simp
      ultimately show ?thesis
        using "1.IH" [OF Some False] by (metis append_assoc append_eq_conv_conj)
    qed
  qed
qed

text \<open>A text without a white space byte at either end is left alone.\<close>

lemma trim_left_id: "(\<And>w. w \<in> set ws \<Longrightarrow> \<not> has_prefix w s) \<Longrightarrow> trim_left ws s = s"
  by (subst trim_left.simps)
     (auto simp: leading_space_def find_Some_iff split: option.splits)

definition space_first :: "char list" where
  "space_first = map hd space_runes @ map last space_runes"

lemma space_runes_ends:
  "w \<in> set space_runes \<Longrightarrow> w \<noteq> [] \<and> hd w \<in> set space_first \<and> last w \<in> set space_first"
  by (auto simp: space_first_def space_runes_def)

lemma trim_space_id:
  assumes "s \<noteq> []" and "hd s \<notin> set space_first" and "last s \<notin> set space_first"
  shows "trim_space s = s"
proof -
  have left: "trim_left space_runes s = s"
  proof (rule trim_left_id)
    fix w assume w: "w \<in> set space_runes"
    then have "w \<noteq> []" "hd w \<in> set space_first" by (simp_all add: space_runes_ends)
    with assms(2) show "\<not> has_prefix w s" by (auto simp: has_prefix_iff)
  qed
  have right: "trim_left (map rev space_runes) (rev s) = rev s"
  proof (rule trim_left_id)
    fix w assume "w \<in> set (map rev space_runes)"
    then obtain v where v: "v \<in> set space_runes" "w = rev v" by auto
    then have ne: "v \<noteq> []" and l: "last v \<in> set space_first" by (simp_all add: space_runes_ends)
    show "\<not> has_prefix w (rev s)"
    proof
      assume "has_prefix w (rev s)"
      then obtain r where "rev s = rev v @ r" using v by (auto simp: has_prefix_iff)
      then have "s = rev r @ v" by (metis rev_append rev_rev_ident)
      with ne have "last s = last v" by simp
      with l assms(3) show False by simp
    qed
  qed
  show ?thesis by (simp add: trim_space_def left right)
qed

lemma not_space_first:
  assumes "33 \<le> (of_char c :: nat)" and "(of_char c :: nat) < 128"
  shows "c \<notin> set space_first"
proof -
  have "\<forall>d \<in> set space_first. (of_char d :: nat) < 33 \<or> 128 \<le> (of_char d :: nat)"
    by (simp add: space_first_def space_runes_def upt_rec_numeral)
  with assms show ?thesis by (meson leD not_le)
qed

lemma trim_space_printable:
  "s \<noteq> [] \<Longrightarrow> 33 \<le> (of_char (hd s) :: nat) \<Longrightarrow> (of_char (hd s) :: nat) < 128 \<Longrightarrow>
   33 \<le> (of_char (last s) :: nat) \<Longrightarrow> (of_char (last s) :: nat) < 128 \<Longrightarrow> trim_space s = s"
  by (rule trim_space_id) (simp_all add: not_space_first)

text \<open>
  \<open>strings.ToLower\<close>: ASCII text byte by byte. Other text goes through the Unicode tables of
  the Go distribution, which are the parameter \<open>uni\<close>.
\<close>

definition lower_byte :: "char \<Rightarrow> char" where
  "lower_byte c = (if is_upper c then char_of (of_char c + 32 :: nat) else c)"

definition to_lower :: "(string \<Rightarrow> string) \<Rightarrow> string \<Rightarrow> string" where
  "to_lower uni s = (if list_all is_ascii s then map lower_byte s else uni s)"

text \<open>\<open>strings.Trim\<close> with a set of one-byte characters.\<close>

definition trim_set :: "char set \<Rightarrow> string \<Rightarrow> string" where
  "trim_set cs s = rev (dropWhile (\<lambda>c. c \<in> cs) (rev (dropWhile (\<lambda>c. c \<in> cs) s)))"

text \<open>
  \<open>net.SplitHostPort\<close>: the host of \<open>host:port\<close>, where a host with colons is in brackets;
  \<open>None\<close> is its error.
\<close>

definition last_colon :: "string \<Rightarrow> (string \<times> string) option" where
  "last_colon s = (case str_cut (CHR '':'') (rev s) of
     (_, None) \<Rightarrow> None | (port, Some host) \<Rightarrow> Some (rev host, rev port))"

definition split_host_port :: "string \<Rightarrow> string option" where
  "split_host_port s =
     (case last_colon s of
        None \<Rightarrow> None
      | Some (host, port) \<Rightarrow>
          (if hd s = CHR ''['' then
             (case str_cut (CHR '']'') s of
                (_, None) \<Rightarrow> None
              | (before, Some after) \<Rightarrow>
                  if before @ '']'' \<noteq> host then None
                  else if CHR ''['' \<in> set (tl s) \<or> CHR '']'' \<in> set after then None
                  else Some (tl before))
           else if CHR '':'' \<in> set host then None
           else if CHR ''['' \<in> set s \<or> CHR '']'' \<in> set s then None
           else Some host))"

text \<open>Decimal rendering of integers (\<open>%d\<close>, \<open>strconv.FormatInt\<close>).\<close>

definition digit_char :: "nat \<Rightarrow> char" where
  "digit_char d = char_of (d + 48)"

fun dec_nat :: "nat \<Rightarrow> string" where
  "dec_nat n = (if n < 10 then [digit_char n] else dec_nat (n div 10) @ [digit_char (n mod 10)])"

declare dec_nat.simps [simp del]

definition dec_int :: "int \<Rightarrow> string" where
  "dec_int i = (if i < 0 then CHR ''-'' # dec_nat (nat (- i)) else dec_nat (nat i))"

text \<open>\<open>slices.Sorted(maps.Keys(m))\<close> of a map given by its keys.\<close>

definition sorted_keys :: "string list \<Rightarrow> string list" where
  "sorted_keys ks = sort (remdups ks)"

lemma set_sorted_keys [simp]: "set (sorted_keys ks) = set ks"
  by (simp add: sorted_keys_def)

lemma sorted_keys_distinct [simp]: "distinct (sorted_keys ks)"
  by (simp add: sorted_keys_def)

lemma sorted_sorted_keys [simp]: "sorted (sorted_keys ks)"
  by (simp add: sorted_keys_def)

lemma sorted_keys_Nil_iff [simp]: "sorted_keys ks = [] \<longleftrightarrow> ks = []"
  by (metis set_sorted_keys set_empty)

section \<open>Interfaces\<close>

text \<open>
  A textual format: values of a type are rendered to text and parsed back. Every key,
  path and token of the program has this interface; the parser refuses what the renderer
  does not produce when \<open>canonical\<close> holds.
\<close>

locale text_format =
  fixes render :: "'a \<Rightarrow> string" and parse :: "string \<Rightarrow> 'a option" and valid :: "'a \<Rightarrow> bool"
  assumes parse_render: "valid x \<Longrightarrow> parse (render x) = Some x"
    and parse_valid: "parse s = Some x \<Longrightarrow> valid x"
begin

lemma render_inj: "valid x \<Longrightarrow> valid y \<Longrightarrow> render x = render y \<longleftrightarrow> x = y"
  by (metis option.inject parse_render)

lemma render_inj_on: "inj_on render (Collect valid)"
  by (simp add: inj_on_def render_inj)

lemma parse_stable: "parse s = Some x \<Longrightarrow> parse (render x) = Some x"
  by (rule parse_render) (rule parse_valid)

end

locale canonical_format = text_format +
  assumes render_parse: "parse s = Some x \<Longrightarrow> render x = s"
begin

lemma parse_eq_iff: "parse s = Some x \<longleftrightarrow> valid x \<and> render x = s"
  using parse_render parse_valid render_parse by blast

lemma parse_inj: "parse s = Some x \<Longrightarrow> parse t = Some x \<Longrightarrow> s = t"
  using render_parse by blast

end

text \<open>
  A cache in front of a read: what the request memo, the permission memo and the stored
  answers of a billing read have in common. A cache is coherent with a source when every
  entry is the source's own answer; a coherent cache never changes an answer.
\<close>

locale cache =
  fixes find :: "'m \<Rightarrow> 'k \<Rightarrow> 'v option" and put :: "'k \<Rightarrow> 'v \<Rightarrow> 'm \<Rightarrow> 'm"
  assumes find_put: "find (put k v m) j = (if j = k then Some v else find m j)"
begin

definition coherent :: "('k \<Rightarrow> 'v) \<Rightarrow> 'm \<Rightarrow> bool" where
  "coherent src m \<longleftrightarrow> (\<forall>k v. find m k = Some v \<longrightarrow> v = src k)"

lemma coherentD: "coherent src m \<Longrightarrow> find m k = Some v \<Longrightarrow> v = src k"
  by (simp add: coherent_def)

lemma coherent_put: "coherent src m \<Longrightarrow> coherent src (put k (src k) m)"
  by (simp add: coherent_def find_put)

text \<open>Of a source that may fail only its answers are kept.\<close>

definition faithful :: "('k \<Rightarrow> 'v option) \<Rightarrow> 'm \<Rightarrow> bool" where
  "faithful src m \<longleftrightarrow> (\<forall>k v. find m k = Some v \<longrightarrow> src k = Some v)"

lemma faithfulD: "faithful src m \<Longrightarrow> find m k = Some v \<Longrightarrow> src k = Some v"
  by (simp add: faithful_def)

lemma faithful_put: "faithful src m \<Longrightarrow> src k = Some v \<Longrightarrow> faithful src (put k v m)"
  by (simp add: faithful_def find_put)

end

end
