(* ===== verification/Content_Ref.thy ===== *)
theory Content_Ref
  imports Prelude "HOL-Library.Word"
begin

unbundle bit_operations_syntax

text \<open>
  Package \<open>contentref\<close>: references to host-owned content, the check that a content id is a
  canonical UUIDv7, and the construction of such ids from a time and ten further bytes.

  A \<open>time.Time\<close> is the number of nanoseconds since the Unix epoch; the zero time of Go
  (January 1 of year 1) is \<open>zero_time\<close>. \<open>sha256\<close> is a parameter where an id is derived
  from a digest.
\<close>

section \<open>References\<close>

record content_ref =
  tenant_id :: string
  content_kind :: string
  content_id :: string
  content_version_id :: "string option"

record content_key =
  ck_tenant_id :: string
  ck_content_kind :: string
  ck_content_id :: string
  ck_content_version_id :: string

datatype ref_error = RefRequired | RefInvalidID string | RefEmptyVersion

definition new_ref :: "string \<Rightarrow> string \<Rightarrow> string \<Rightarrow> content_ref" where
  "new_ref tenant knd cid =
     \<lparr>tenant_id = tenant, content_kind = knd, content_id = cid, content_version_id = None\<rparr>"

definition with_version :: "content_ref \<Rightarrow> string \<Rightarrow> content_ref" where
  "with_version r v =
     (if v = [] then r\<lparr>content_version_id := None\<rparr> else r\<lparr>content_version_id := Some v\<rparr>)"

definition new_version :: "string \<Rightarrow> string \<Rightarrow> string \<Rightarrow> string \<Rightarrow> content_ref" where
  "new_version tenant knd cid v = with_version (new_ref tenant knd cid) v"

definition ref_content :: "content_ref \<Rightarrow> content_ref" where
  "ref_content r = r\<lparr>content_version_id := None\<rparr>"

definition ref_version :: "content_ref \<Rightarrow> string" where
  "ref_version r = (case content_version_id r of None \<Rightarrow> [] | Some v \<Rightarrow> v)"

definition ref_key :: "content_ref \<Rightarrow> content_key" where
  "ref_key r = \<lparr>ck_tenant_id = tenant_id r, ck_content_kind = content_kind r,
     ck_content_id = content_id r, ck_content_version_id = ref_version r\<rparr>"

definition ref_equal :: "content_ref \<Rightarrow> content_ref \<Rightarrow> bool" where
  "ref_equal r s \<longleftrightarrow> ref_key r = ref_key s"

definition key_ref :: "content_key \<Rightarrow> content_ref" where
  "key_ref k = with_version
     (new_ref (ck_tenant_id k) (ck_content_kind k) (ck_content_id k)) (ck_content_version_id k)"

definition ref_string :: "content_ref \<Rightarrow> string" where
  "ref_string r = tenant_id r @ ''/'' @ content_kind r @ ''/'' @ content_id r
     @ (if ref_version r \<noteq> [] then ''@'' @ ref_version r else [])"

section \<open>Content ids\<close>

definition id_byte_ok :: "string \<Rightarrow> nat \<Rightarrow> bool" where
  "id_byte_ok s i = (if i \<in> {8, 13, 18, 23} then s ! i = CHR ''-'' else is_hex (s ! i))"

definition validate_id :: "string \<Rightarrow> ref_error option" where
  "validate_id s =
     (if length s \<noteq> 36 then Some (RefInvalidID s)
      else if \<not> list_all (id_byte_ok s) [0..<36] then Some (RefInvalidID s)
      else if s ! 14 \<noteq> CHR ''7'' \<or>
             (s ! 19 \<noteq> CHR ''8'' \<and> s ! 19 \<noteq> CHR ''9'' \<and> s ! 19 \<noteq> CHR ''a'' \<and> s ! 19 \<noteq> CHR ''b'')
        then Some (RefInvalidID s)
      else None)"

definition validate_ref :: "content_ref \<Rightarrow> ref_error option" where
  "validate_ref r =
     (if trim_space (tenant_id r) = [] \<or> trim_space (content_kind r) = [] then Some RefRequired
      else case validate_id (content_id r) of
        Some e \<Rightarrow> Some e
      | None \<Rightarrow>
          (case content_version_id r of
             None \<Rightarrow> None
           | Some v \<Rightarrow> if trim_space v = [] then Some RefEmptyVersion else None))"

definition parse_ref :: "string \<Rightarrow> string \<Rightarrow> string \<Rightarrow> content_ref \<times> ref_error option" where
  "parse_ref tenant knd cid = (let r = new_ref tenant knd cid in (r, validate_ref r))"

type_synonym time = int

definition zero_time :: time where
  "zero_time = -62135596800 * 1000000000"

text \<open>\<open>Time.UnixMilli\<close>: whole milliseconds, rounded down, as a 64-bit integer.\<close>

definition unix_milli :: "time \<Rightarrow> 64 word" where
  "unix_milli t = word_of_int (t div 1000000)"

definition hex_digit :: "nat \<Rightarrow> char" where
  "hex_digit d = ''0123456789abcdef'' ! d"

definition hex_byte :: "8 word \<Rightarrow> string" where
  "hex_byte b = [hex_digit (unat (drop_bit 4 b)), hex_digit (unat (b AND 15))]"

definition hex_encode :: "8 word list \<Rightarrow> string" where
  "hex_encode bs = concat (map hex_byte bs)"

text \<open>\<open>binary.BigEndian.PutUint64\<close>.\<close>

definition put_uint64 :: "64 word \<Rightarrow> 8 word list" where
  "put_uint64 w = map (\<lambda>i. ucast (drop_bit (8 * (7 - i)) w)) [0..<8]"

definition v7 :: "time \<Rightarrow> 8 word list \<Rightarrow> string" where
  "v7 t u =
     (let ts = put_uint64 (push_bit 16 (unix_milli t));
          u1 = take 6 ts @ drop 6 u;
          u2 = u1[6 := 0x70 OR (u1 ! 6 AND 0x0f)];
          u3 = u2[8 := 0x80 OR (u2 ! 8 AND 0x3f)];
          h = hex_encode u3
      in take 8 h @ ''-'' @ take 4 (drop 8 h) @ ''-'' @ take 4 (drop 12 h) @ ''-''
         @ take 4 (drop 16 h) @ ''-'' @ drop 20 h)"

text \<open>\<open>IDAt\<close>, with the ten random bytes it reads as an argument.\<close>

definition id_at :: "8 word list \<Rightarrow> time \<Rightarrow> string" where
  "id_at rand t = v7 t (replicate 6 0 @ rand)"

definition legacy_epoch :: time where
  "legacy_epoch = 1262304000 * 1000000000"

definition valid_namespace :: "string \<Rightarrow> bool" where
  "valid_namespace ns \<longleftrightarrow> ns \<noteq> [] \<and> length ns \<le> 64 \<and>
     list_all (\<lambda>c. is_lower c \<or> is_digit c \<or> c = CHR ''_'' \<or> c = CHR ''-'') ns"

text \<open>\<open>time.Duration(legacyID) * time.Millisecond\<close>, a wrapping 64-bit product.\<close>

definition legacy_offset :: "64 word \<Rightarrow> int" where
  "legacy_offset n = sint (n * 1000000)"

text \<open>\<open>None\<close> is the panic on an invalid namespace.\<close>

definition legacy_id ::
    "(string \<Rightarrow> 8 word list) \<Rightarrow> string \<Rightarrow> string \<Rightarrow> 64 word \<Rightarrow> time \<Rightarrow> string option" where
  "legacy_id sha256 ns knd n created =
     (if \<not> valid_namespace ns then None
      else
        let t = (if created = zero_time then legacy_epoch + legacy_offset n else created);
            h = sha256 (ns @ ''/'' @ knd @ ''/'' @ dec_int (sint n))
        in Some (v7 t (replicate 6 0 @ take 10 h)))"

section \<open>Ids are what the check accepts\<close>

lemma hex_digit_hex: "d < 16 \<Longrightarrow> is_hex (hex_digit d)"
proof -
  assume "d < 16"
  then have "hex_digit d \<in> set ''0123456789abcdef''"
    unfolding hex_digit_def by (intro nth_mem) simp
  moreover have "list_all is_hex ''0123456789abcdef''"
    by (simp add: byte_classes char_le_iff)
  ultimately show ?thesis by (auto simp: list_all_iff)
qed

lemma unat_low_nibble: "unat (b AND 15 :: 8 word) < 16"
proof -
  have "unat (b AND 15) \<le> unat (15 :: 8 word)"
    by (rule word_and_le1 [THEN word_le_nat_alt [THEN iffD1]])
  then show ?thesis by simp
qed

lemma unat_high_nibble: "unat (drop_bit 4 b :: 8 word) < 16"
proof -
  have "unat b < 256" using unsigned_less [of b] by simp
  then show ?thesis by (simp add: drop_bit_eq_div unat_div)
qed

lemma version_nibble: "hex_digit (unat (drop_bit 4 (0x70 OR (b AND 0x0f) :: 8 word))) = CHR ''7''"
  by (simp add: drop_bit_or drop_bit_and hex_digit_def)

lemma word_and_3: "(x AND 3 :: 8 word) \<in> {0, 1, 2, 3}"
proof -
  have "unat (x AND 3) \<le> unat (3 :: 8 word)"
    by (rule word_and_le1 [THEN word_le_nat_alt [THEN iffD1]])
  then show ?thesis by (auto simp: word_unat_eq_iff)
qed

lemma variant_nibble:
  "hex_digit (unat (drop_bit 4 (0x80 OR (b AND 0x3f) :: 8 word))) \<in> set ''89ab''"
proof -
  have "drop_bit 4 (0x80 OR (b AND 0x3f)) = (8 OR (drop_bit 4 b AND 3) :: 8 word)"
    by (simp add: drop_bit_or drop_bit_and)
  moreover have "drop_bit 4 b AND 3 \<in> {0, 1, 2, 3 :: 8 word}" by (rule word_and_3)
  ultimately show ?thesis by (auto simp: hex_digit_def)
qed

lemma length_hex_byte [simp]: "length (hex_byte b) = 2"
  by (simp add: hex_byte_def)

lemma length_put_uint64 [simp]: "length (put_uint64 w) = 8"
  by (simp add: put_uint64_def)

lemma list16_cases:
  assumes "length u = 16"
  obtains a b c d e f g h i j k l m n p q where
    "u = [a, b, c, d, e, f, g, h, i, j, k, l, m, n, p, q]"
  using assms by (auto simp: length_Suc_conv eval_nat_numeral)

lemma validate_id_ok_iff:
  "validate_id s = None \<longleftrightarrow> length s = 36 \<and> (\<forall>i < 36. id_byte_ok s i) \<and>
     s ! 14 = CHR ''7'' \<and> s ! 19 \<in> set ''89ab''"
proof -
  have "list_all (id_byte_ok s) [0..<36] \<longleftrightarrow> (\<forall>i < 36. id_byte_ok s i)"
    by (simp only: list_all_iff set_upt) auto
  then show ?thesis unfolding validate_id_def by auto
qed

lemma validate_id_err: "validate_id s = None \<or> validate_id s = Some (RefInvalidID s)"
  unfolding validate_id_def by presburger

text \<open>The bytes of an accepted id: hexadecimal digits and hyphens.\<close>

lemma validate_id_chars:
  assumes "validate_id s = None"
  shows "\<forall>c \<in> set s. is_hex c \<or> c = CHR ''-''"
proof
  fix c assume "c \<in> set s"
  with assms obtain i where "i < 36" "s ! i = c" "id_byte_ok s i"
    by (auto simp: validate_id_ok_iff in_set_conv_nth)
  then show "is_hex c \<or> c = CHR ''-''" by (auto simp: id_byte_ok_def split: if_splits)
qed

lemma length_eq_explicit:
  "length a = 8 \<longleftrightarrow> (\<exists>a0 a1 a2 a3 a4 a5 a6 a7. a = [a0, a1, a2, a3, a4, a5, a6, a7])"
  by (auto simp: length_Suc_conv eval_nat_numeral)

text \<open>A list of 36 characters with the layout of a UUIDv7 passes the check.\<close>

lemma upt_36: "[0..<36] = [0, 1, 2, 3, 4, 5, 6, 7, 8, 9, 10, 11, 12, 13, 14, 15, 16, 17, 18, 19,
    20, 21, 22, 23, 24, 25, 26, 27, 28, 29, 30, 31, 32, 33, 34, 35 :: nat]"
  by code_simp

lemma is_hex_literals [simp]:
  "is_hex (CHR ''0'')"
  "is_hex (CHR ''1'')"
  "is_hex (CHR ''2'')"
  "is_hex (CHR ''3'')"
  "is_hex (CHR ''4'')"
  "is_hex (CHR ''5'')"
  "is_hex (CHR ''6'')"
  "is_hex (CHR ''7'')"
  "is_hex (CHR ''8'')"
  "is_hex (CHR ''9'')"
  "is_hex (CHR ''a'')"
  "is_hex (CHR ''b'')"
  "is_hex (CHR ''c'')"
  "is_hex (CHR ''d'')"
  "is_hex (CHR ''e'')"
  "is_hex (CHR ''f'')"
  by (simp_all add: byte_classes char_le_iff)

lemma is_hex_variant: "v \<in> set ''89ab'' \<Longrightarrow> is_hex v"
  by (auto simp: byte_classes char_le_iff)

lemma validate_id_layout:
  assumes hexes: "list_all is_hex [a0, a1, a2, a3, a4, a5, a6, a7, b0, b1, b2, b3, c0, c1, c2,
      d0, d1, d2, e0, e1, e2, e3, e4, e5, e6, e7, e8, e9, e10, e11]"
    and v: "v \<in> set ''89ab''"
  shows "validate_id [a0, a1, a2, a3, a4, a5, a6, a7, CHR ''-'', b0, b1, b2, b3, CHR ''-'',
      CHR ''7'', c0, c1, c2, CHR ''-'', v, d0, d1, d2, CHR ''-'',
      e0, e1, e2, e3, e4, e5, e6, e7, e8, e9, e10, e11] = None" (is "validate_id ?s = None")
proof -
  have "list_all (id_byte_ok ?s) [0..<36]"
    unfolding upt_36 list.pred_inject id_byte_ok_def
    using hexes is_hex_variant [OF v] by simp
  then show ?thesis using v unfolding validate_id_def by auto
qed

lemma v7_valid:
  assumes "length u = 16"
  shows "validate_id (v7 t u) = None"
proof -
  from assms obtain a0 a1 a2 a3 a4 a5 u6 u7 u8 u9 u10 u11 u12 u13 u14 u15 where
    u: "u = [a0, a1, a2, a3, a4, a5, u6, u7, u8, u9, u10, u11, u12, u13, u14, u15]"
    by (rule list16_cases)
  let ?ts = "put_uint64 (push_bit 16 (unix_milli t))"
  obtain t0 t1 t2 t3 t4 t5 t6 t7 where ts: "?ts = [t0, t1, t2, t3, t4, t5, t6, t7]"
    using length_put_uint64 [of "push_bit 16 (unix_milli t)"] unfolding length_eq_explicit by blast
  let ?x = "0x70 OR (u6 AND 0x0f) :: 8 word" and ?y = "0x80 OR (u8 AND 0x3f) :: 8 word"
  let ?hi = "\<lambda>b :: 8 word. hex_digit (unat (drop_bit 4 b))"
  let ?lo = "\<lambda>b :: 8 word. hex_digit (unat (b AND 15))"
  have eq: "v7 t u = [?hi t0, ?lo t0, ?hi t1, ?lo t1, ?hi t2, ?lo t2, ?hi t3, ?lo t3, CHR ''-'',
      ?hi t4, ?lo t4, ?hi t5, ?lo t5, CHR ''-'', CHR ''7'', ?lo ?x, ?hi u7, ?lo u7, CHR ''-'',
      ?hi ?y, ?lo ?y, ?hi u9, ?lo u9, CHR ''-'', ?hi u10, ?lo u10, ?hi u11, ?lo u11,
      ?hi u12, ?lo u12, ?hi u13, ?lo u13, ?hi u14, ?lo u14, ?hi u15, ?lo u15]"
    using version_nibble [of u6] unfolding v7_def Let_def ts u
    by (simp add: hex_encode_def hex_byte_def)
  show ?thesis
    unfolding eq
    by (rule validate_id_layout)
       (simp_all only: list.pred_inject hex_digit_hex unat_low_nibble unat_high_nibble
          variant_nibble simp_thms)
qed

section \<open>Properties\<close>

text \<open>
  every id \<open>v7\<close> builds passes \<open>ValidateID\<close>, whatever the time and the sixteen bytes
  are: the version and variant bits are forced and the hyphens are where the check expects
  them.
\<close>

theorem v7_accepted:
  assumes "length u = 16"
  shows "validate_id (v7 t u) = None"
  using assms by (rule v7_valid)

theorem v7_accepted_witness:
  "length (replicate 16 (255 :: 8 word)) = 16 \<and> validate_id (v7 0 (replicate 16 255)) = None"
  using v7_accepted [of "replicate 16 255" 0] by simp

lemma length_take_pad: "length h = 32 \<Longrightarrow> length (replicate 6 (0 :: 8 word) @ take 10 h) = 16"
  by simp

text \<open>
  \<open>LegacyID\<close> panics exactly on an invalid namespace; otherwise it returns an id that
  \<open>ValidateID\<close> accepts, and only the namespace, kind, legacy id and creation time determine
  it. (SHA-256 digests have 32 bytes.)
\<close>

theorem legacy_id_total:
  assumes "\<And>m. length (sha256 m) = 32"
  shows "(legacy_id sha256 ns knd n created = None) = (\<not> valid_namespace ns) \<and>
    (\<forall>cid. legacy_id sha256 ns knd n created = Some cid \<longrightarrow> validate_id cid = None)"
  using v7_valid [OF length_take_pad [OF assms]] by (auto simp: legacy_id_def Let_def)

theorem legacy_id_total_witness:
  "\<exists>cid. legacy_id (\<lambda>_. replicate 32 7) ''doujins'' ''gallery'' 42 zero_time = Some cid \<and>
     validate_id cid = None"
proof -
  have "valid_namespace ''doujins''" by code_simp
  then show ?thesis
    using legacy_id_total [of "\<lambda>_. replicate 32 7" "''doujins''" "''gallery''" 42 zero_time] by auto
qed

lemma ref_key_roundtrip_aux:
  "(key_ref (ref_key r) = r) = (content_version_id r \<noteq> Some [])"
  by (cases r; cases "content_version_id r")
     (auto simp: key_ref_def ref_key_def with_version_def new_ref_def ref_version_def)

text \<open>
  The comparable key of a reference loses nothing but the difference between no
  version and an empty one: converting back gives the reference itself unless its version
  is set and empty, which \<open>Validate\<close> refuses.
\<close>

theorem ref_key_roundtrip:
  "(key_ref (ref_key r) = r) = (content_version_id r \<noteq> Some [])
   \<and> ref_key (key_ref k) = k"
  by (cases k) (simp add: ref_key_roundtrip_aux,
    simp add: key_ref_def ref_key_def with_version_def new_ref_def ref_version_def)

lemma validated_ref_version: "validate_ref r = None \<Longrightarrow> content_version_id r \<noteq> Some []"
proof
  assume "validate_ref r = None" and v: "content_version_id r = Some []"
  moreover have "trim_space [] = []" by code_simp
  ultimately show False by (auto simp: validate_ref_def split: option.splits if_splits)
qed

text \<open>
  on validated references \<open>Equal\<close> is identity: the version, the kind and the tenant
  are all part of the comparison.
\<close>

theorem ref_equal_validated:
  assumes "validate_ref r = None" and "validate_ref s = None"
  shows "ref_equal r s = (r = s)"
proof -
  have "key_ref (ref_key r) = r" "key_ref (ref_key s) = s"
    using assms by (auto simp: ref_key_roundtrip_aux dest: validated_ref_version)
  then show ?thesis unfolding ref_equal_def by metis
qed

definition sample_id :: string where
  "sample_id = ''01890a5d-ac96-774b-bcce-b302099a8057''"

lemma validate_sample_id: "validate_id sample_id = None"
  unfolding sample_id_def
  by (rule validate_id_layout) (simp only: list.pred_inject is_hex_literals simp_thms, simp)

theorem ref_equal_validated_witness:
  "validate_ref (new_version ''site'' ''gallery'' sample_id ''v1'') = None \<and>
   ref_equal (new_version ''site'' ''gallery'' sample_id ''v1'') (new_ref ''site'' ''gallery'' sample_id)
     = (new_version ''site'' ''gallery'' sample_id ''v1'' = new_ref ''site'' ''gallery'' sample_id)"
proof -
  have trims: "trim_space ''site'' \<noteq> []" "trim_space ''gallery'' \<noteq> []" "trim_space ''v1'' \<noteq> []"
    by (simp_all add: trim_space_printable)
  have 1: "validate_ref (new_version ''site'' ''gallery'' sample_id ''v1'') = None"
    by (simp add: validate_ref_def new_version_def with_version_def new_ref_def trims
        validate_sample_id)
  have 2: "validate_ref (new_ref ''site'' ''gallery'' sample_id) = None"
    by (simp add: validate_ref_def new_ref_def trims validate_sample_id)
  show ?thesis using 1 ref_equal_validated [OF 1 2] by simp
qed

end
