(* ===== verification/Kinds.thy ===== *)
theory Kinds
  imports Content_Ref Complex_Main
begin

text \<open>
  Package \<open>kinds\<close>: the content model of a site as configuration. This theory holds its
  types and the small decisions taken from them: which access levels, comment modes and
  membership scopes a kind allows, what its locked view shows, what its download serves,
  and the values an attribute takes.

  A Go map that the code iterates is a list of pairs in the order of one iteration; a
  lookup is \<^const>\<open>map_of\<close>. Optional pointers are options.
\<close>

section \<open>Values and attributes\<close>

text \<open>A \<open>float64\<close> is a finite rational or one of NaN and the infinities.\<close>

datatype go_float = Finite rat | NaN | PosInf | NegInf

datatype any_value =
    VNil
  | VString string
  | VBool bool
  | VInt int
  | VInt64 int
  | VFloat go_float
  | VTime time
  | VOther

record attribute =
  a_type :: string
  a_values :: "string list"
  a_filterable :: bool
  a_sortable :: bool
  a_required :: bool

section \<open>Content filters and domains\<close>

record entity_ref =
  er_kind :: string
  er_slug :: string

record content_filter =
  cf_entity :: entity_ref
  cf_visible :: bool
  cf_user_toggle :: "bool option"

record domain =
  d_name :: string
  d_hosts :: "string list"
  d_require_entities :: "(string \<times> entity_ref list) list"
  d_filters :: "content_filter list"

record content_filters =
  applies_to :: "string list"
  domains :: "domain list"

definition domain_requires :: "domain \<Rightarrow> entity_ref \<Rightarrow> bool" where
  "domain_requires d r \<longleftrightarrow> list_ex (\<lambda>(_, refs). r \<in> set refs) (d_require_entities d)"

definition toggleable :: "content_filter \<Rightarrow> bool" where
  "toggleable f \<longleftrightarrow> (case cf_user_toggle f of None \<Rightarrow> True | Some b \<Rightarrow> b)"

section \<open>Content kinds\<close>

record preview =
  pv_pages :: int
  pv_segments :: int

record locked =
  lk_show :: "string list"
  lk_preview :: "preview option"

record download =
  dl_off :: bool
  dl_serve :: string

record version_rules =
  vr_languages :: string
  vr_traits :: "string list"
  vr_hidden :: bool

record popularity_scope =
  ps_domain :: string
  ps_language :: string

record popularity_bucket =
  pb_id :: string
  pb_label :: string
  pb_days :: int
  pb_from :: string
  pb_until :: string
  pb_all :: bool
  pb_scopes :: "popularity_scope list"
  pb_refresh_every :: int

record channel_policy =
  cp_fixed :: string
  cp_required :: bool

record kind =
  title_policy :: string
  access_levels :: "string list"
  access_scope :: string
  comment_modes :: "string list"
  kind_route :: string
  path_entity :: string
  presentation :: string
  versions :: version_rules
  kind_segments :: bool
  kind_entities :: "string list"
  kind_attributes :: "(string \<times> attribute) list"
  kind_channel :: "channel_policy option"
  kind_sort :: string
  popularity :: "popularity_bucket list"
  kind_locked :: "locked option"
  kind_download :: "download option"

section \<open>Entity kinds and channels\<close>

text \<open>Membership scopes are the strings \<open>content\<close> and \<open>version\<close>.\<close>

definition content_scope :: string where "content_scope = ''content''"
definition version_scope :: string where "version_scope = ''version''"

record upload_limits =
  files_per_hour :: int
  bytes_per_day :: int
  quota_bytes :: int

definition no_uploads :: upload_limits where
  "no_uploads = \<lparr>files_per_hour = 0, bytes_per_day = 0, quota_bytes = 0\<rparr>"

record entity_kind =
  ek_route :: string
  ek_ordered :: bool
  ek_parent :: string
  ek_scoped_by :: string
  ek_owner :: string
  ek_max_per_owner :: int
  ek_avatar :: bool
  ek_uploads :: upload_limits
  ek_entitled :: bool
  ek_auth_scope :: bool
  ek_membership_scopes :: "string list"
  ek_version_level :: bool
  ek_creatable :: bool
  ek_roles :: "string list"
  ek_attributes :: "(string \<times> attribute) list"

record channels =
  ch_creation :: string
  ch_route :: string
  ch_entities :: "string list"
  ch_entitled :: bool
  ch_max_per_owner :: int
  ch_uploads :: upload_limits

record config =
  languages :: "string list"
  tiers :: "string list"
  token_claims :: "string list"
  restrictions :: "string list"
  filters :: content_filters
  kinds :: "(string \<times> kind) list"
  entity_kinds :: "(string \<times> entity_kind) list"
  channels_of :: "channels option"
  channel_storage :: bool

section \<open>Decisions on kinds\<close>

definition allows_access :: "kind \<Rightarrow> string \<Rightarrow> bool" where
  "allows_access k level \<longleftrightarrow> access_levels k = [] \<or> level \<in> set (access_levels k)"

definition allows_comments :: "kind \<Rightarrow> string \<Rightarrow> bool" where
  "allows_comments k mode \<longleftrightarrow> comment_modes k = [] \<or> mode \<in> set (comment_modes k)"

definition download_pages :: string where "download_pages = ''pages''"
definition download_original :: string where "download_original = ''original''"

definition serves :: "kind \<Rightarrow> string" where
  "serves k = (case kind_download k of
     Some d \<Rightarrow>
       (if dl_off d then []
        else if dl_serve d \<noteq> [] then dl_serve d
        else if presentation k = ''reader'' then download_pages
        else if presentation k = ''player'' then download_original
        else [])
   | None \<Rightarrow>
       (if presentation k = ''reader'' then download_pages
        else if presentation k = ''player'' then download_original
        else []))"

definition shown :: "string list" where
  "shown = [''description'', ''cover'', ''entities'', ''attributes'', ''length'',
    ''reactions'', ''favorites'', ''comments'']"

definition default_locked :: locked where
  "default_locked = \<lparr>lk_show = [''description'', ''cover'', ''entities'', ''attributes'', ''length''],
     lk_preview = None\<rparr>"

definition locked_view :: "kind \<Rightarrow> locked" where
  "locked_view k = (case kind_locked k of Some l \<Rightarrow> l | None \<Rightarrow> default_locked)"

definition shows_property :: "locked \<Rightarrow> string \<Rightarrow> bool" where
  "shows_property l p \<longleftrightarrow> p \<in> set (lk_show l)"

definition has_avatar :: "entity_kind \<Rightarrow> bool" where
  "has_avatar k \<longleftrightarrow> ek_owner k = ''user'' \<or> ek_avatar k"

definition allows_membership :: "entity_kind \<Rightarrow> string \<Rightarrow> bool" where
  "allows_membership k scope =
     (if ek_membership_scopes k \<noteq> [] then scope \<in> set (ek_membership_scopes k)
      else if ek_version_level k then scope = version_scope
      else scope = content_scope)"

definition activity_scopes :: "popularity_bucket \<Rightarrow> popularity_scope list" where
  "activity_scopes b =
     (if pb_scopes b = [] then [\<lparr>ps_domain = [], ps_language = []\<rparr>] else pb_scopes b)"

definition bucket_every :: "popularity_bucket \<Rightarrow> int" where
  "bucket_every b = (if pb_refresh_every b = 0 then 3600 * 1000000000 else pb_refresh_every b)"

text \<open>
  \<open>Window\<close>: midnight UTC is the start of a day of \<open>day_ns\<close> nanoseconds, and \<open>AddDate\<close> by
  days moves by whole days. \<open>parse_date\<close> is \<open>time.Parse(time.DateOnly, _)\<close>, whose error
  leaves the zero time.
\<close>

definition day_ns :: int where "day_ns = 86400 * 1000000000"

definition bucket_window ::
    "(string \<Rightarrow> time option) \<Rightarrow> popularity_bucket \<Rightarrow> time \<Rightarrow> time \<times> time" where
  "bucket_window parse_date b now =
     (if pb_days b > 0 then
        (let today = (now div day_ns) * day_ns
         in (today + (1 - pb_days b) * day_ns, today + day_ns))
      else if pb_from b \<noteq> [] then
        (case parse_date (pb_from b) of None \<Rightarrow> zero_time | Some t \<Rightarrow> t,
         case parse_date (pb_until b) of None \<Rightarrow> zero_time | Some t \<Rightarrow> t)
      else (zero_time, zero_time))"

text \<open>The loop of \<open>Scope\<close>: the first most specific scope that matches the reader.\<close>

definition scope_matches :: "string \<Rightarrow> string \<Rightarrow> popularity_scope \<Rightarrow> bool" where
  "scope_matches dm lang s \<longleftrightarrow>
     \<not> (ps_domain s \<noteq> [] \<and> ps_domain s \<noteq> dm \<or> ps_language s \<noteq> [] \<and> ps_language s \<noteq> lang)"

definition specificity :: "popularity_scope \<Rightarrow> int" where
  "specificity s = (if ps_domain s \<noteq> [] then 1 else 0) + (if ps_language s \<noteq> [] then 1 else 0)"

fun best_scope ::
    "string \<Rightarrow> string \<Rightarrow> popularity_scope list \<Rightarrow> popularity_scope \<times> int \<Rightarrow> popularity_scope \<times> int" where
  "best_scope dm lang [] acc = acc"
| "best_scope dm lang (s # ss) (sel, best) =
     (if \<not> scope_matches dm lang s then best_scope dm lang ss (sel, best)
      else if specificity s > best then best_scope dm lang ss (s, specificity s)
      else best_scope dm lang ss (sel, best))"

definition bucket_scope ::
    "popularity_bucket \<Rightarrow> string \<Rightarrow> string \<Rightarrow> popularity_scope \<times> bool" where
  "bucket_scope b dm lang =
     (let (sel, best) = best_scope dm lang (activity_scopes b)
            (\<lparr>ps_domain = [], ps_language = []\<rparr>, -1)
      in (sel, best \<ge> 0))"

section \<open>Storage model and routes\<close>

definition storage_channel :: "channels \<Rightarrow> entity_kind" where
  "storage_channel ch =
     \<lparr>ek_route = ch_route ch, ek_ordered = False, ek_parent = [], ek_scoped_by = [],
      ek_owner = (if ch_creation ch = ''users'' then ''user'' else ''site''),
      ek_max_per_owner = ch_max_per_owner ch, ek_avatar = True, ek_uploads = ch_uploads ch,
      ek_entitled = ch_entitled ch, ek_auth_scope = True, ek_membership_scopes = [],
      ek_version_level = False, ek_creatable = False, ek_roles = [], ek_attributes = []\<rparr>"

definition storage_model :: "config \<Rightarrow> config" where
  "storage_model c = (case channels_of c of
     None \<Rightarrow> c
   | Some ch \<Rightarrow>
       if channel_storage c then c
       else c\<lparr>entity_kinds := AList.update ''channel'' (storage_channel ch) (entity_kinds c),
              channel_storage := True\<rparr>)"

text \<open>\<open>Routes\<close>: later writes of a key replace earlier ones.\<close>

definition config_routes :: "config \<Rightarrow> (string \<times> string) list" where
  "config_routes c =
     (let base = (case channels_of c of
            Some ch \<Rightarrow> if ch_route ch \<noteq> [] then [(''channel'', ch_route ch)] else []
          | None \<Rightarrow> []);
          with_kinds = fold (\<lambda>(name, k). AList.update name (kind_route k)) (kinds c) base
      in fold (\<lambda>(name, gk) out. if ek_route gk \<noteq> [] then AList.update name (ek_route gk) out else out)
           (entity_kinds c) with_kinds)"

section \<open>Attribute values\<close>

datatype attr_error = NotDeclared string | BadValue string | AttrRequired string

text \<open>
  \<open>time.Parse\<close> and the UTC rendering of RFC 3339 are the parameters \<open>parse_time\<close> and
  \<open>format_time\<close>. \<open>None\<close> is the error of an invalid value.
\<close>

definition normalize_value ::
    "(string \<Rightarrow> time option) \<Rightarrow> (time \<Rightarrow> string) \<Rightarrow> attribute \<Rightarrow> any_value \<Rightarrow> any_value option" where
  "normalize_value parse_time format_time a v =
     (if a_type a = ''string'' then (case v of VString s \<Rightarrow> Some (VString s) | _ \<Rightarrow> None)
      else if a_type a = ''bool'' then (case v of VBool b \<Rightarrow> Some (VBool b) | _ \<Rightarrow> None)
      else if a_type a = ''int'' then
        (case v of
           VInt n \<Rightarrow> Some (VInt64 n)
         | VInt64 n \<Rightarrow> Some (VInt64 n)
         | VFloat (Finite q) \<Rightarrow>
             if q = of_int \<lfloor>q\<rfloor> \<and> \<bar>q\<bar> \<le> 2 ^ 53 then Some (VInt64 \<lfloor>q\<rfloor>) else None
         | _ \<Rightarrow> None)
      else if a_type a = ''enum'' then
        (case v of VString s \<Rightarrow> if s \<in> set (a_values a) then Some (VString s) else None | _ \<Rightarrow> None)
      else if a_type a = ''time'' then
        (case v of
           VTime t \<Rightarrow> Some (VString (format_time t))
         | VString s \<Rightarrow>
             (case parse_time s of Some t \<Rightarrow> Some (VString (format_time t)) | None \<Rightarrow> None)
         | _ \<Rightarrow> None)
      else None)"

definition validate_one ::
    "(string \<Rightarrow> time option) \<Rightarrow> (time \<Rightarrow> string) \<Rightarrow> (string \<times> attribute) list \<Rightarrow>
     string \<times> any_value \<Rightarrow> (string \<times> any_value) list \<Rightarrow> (attr_error, (string \<times> any_value) list) result" where
  "validate_one parse_time format_time declared nv out =
     (case map_of declared (fst nv) of
        None \<Rightarrow> Inl (NotDeclared (fst nv))
      | Some a \<Rightarrow>
          if snd nv = VNil then Inr out
          else (case normalize_value parse_time format_time a (snd nv) of
            None \<Rightarrow> Inl (BadValue (fst nv))
          | Some n \<Rightarrow> Inr (AList.update (fst nv) n out)))"

definition validate_attribute_values ::
    "(string \<Rightarrow> time option) \<Rightarrow> (time \<Rightarrow> string) \<Rightarrow> (string \<times> attribute) list \<Rightarrow>
     (string \<times> any_value) list \<Rightarrow> (attr_error, (string \<times> any_value) list) result" where
  "validate_attribute_values parse_time format_time declared values =
     fold_result (validate_one parse_time format_time declared) values []"

definition required_missing :: "(string \<times> any_value) list \<Rightarrow> string \<times> attribute \<Rightarrow> attr_error option" where
  "required_missing values na =
     (if \<not> a_required (snd na) then None
      else case map_of values (fst na) of
        None \<Rightarrow> Some (AttrRequired (fst na))
      | Some VNil \<Rightarrow> Some (AttrRequired (fst na))
      | Some (VString t) \<Rightarrow> refuse_if (trim_space t = []) (AttrRequired (fst na))
      | Some _ \<Rightarrow> None)"

definition validate_required_attributes ::
    "(string \<times> attribute) list \<Rightarrow> (string \<times> any_value) list \<Rightarrow> attr_error option" where
  "validate_required_attributes declared values = first_error (map (required_missing values) declared)"

end
