(* ===== verification/Access_Keys.thy ===== *)
theory Access_Keys
  imports Content_Ref
begin

text \<open>
  Package \<open>access\<close>, file \<open>keys.go\<close>: the grammar of entitlement keys. A key names a
  content item, a version, a channel or a tier; OpenRails stores its text opaquely, so the
  text must determine the key and the parser must accept nothing else.
\<close>

section \<open>Keys\<close>

text \<open>\<open>KeyZero\<close> is the kind of the zero Key, which grants nothing.\<close>

datatype key_kind = KeyZero | KeyContent | KeyVersion | KeyChannel | KeyTier

record key =
  k_kind :: key_kind
  k_tenant :: string
  k_id :: string
  k_version :: string

definition zero_key :: key where
  "zero_key = \<lparr>k_kind = KeyZero, k_tenant = [], k_id = [], k_version = []\<rparr>"

text \<open>The errors, all of which wrap \<open>ErrNotContentKey\<close>.\<close>

datatype key_error =
    BadTier string
  | KeyTooLong
  | NoNamespace string
  | BadNamespace string
  | BadTenant string
  | BadKeyID ref_error
  | BadKeyVersion ref_error
  | ZeroKeyText

definition content_namespace :: string where "content_namespace = ''content''"
definition channel_namespace :: string where "channel_namespace = ''group''"

definition max_tenant :: nat where "max_tenant = 64"

definition max_key_bytes :: nat where
  "max_key_bytes = max_tenant + length '':content:'' + 36 + 1 + 36"

definition valid_tenant :: "string \<Rightarrow> bool" where
  "valid_tenant s \<longleftrightarrow> \<not> (s = [] \<or> length s > max_tenant) \<and>
     list_all (\<lambda>c. is_lower c \<or> is_digit c \<or> c = CHR ''_'' \<or> c = CHR ''-'') s"

definition valid_tier :: "string \<Rightarrow> bool" where
  "valid_tier s \<longleftrightarrow> length s \<le> 63 \<and> s \<noteq> [] \<and> is_lower (hd s) \<and> valid_tenant s"

definition make_key :: "key_kind \<Rightarrow> string \<Rightarrow> string \<Rightarrow> string \<Rightarrow> (key_error, key) result" where
  "make_key kind tenant cid version =
     (if \<not> valid_tenant tenant then Inl (BadTenant tenant)
      else case validate_id cid of
        Some e \<Rightarrow> Inl (BadKeyID e)
      | None \<Rightarrow>
          (case (if kind = KeyVersion then validate_id version else None) of
             Some e \<Rightarrow> Inl (BadKeyVersion e)
           | None \<Rightarrow> Inr \<lparr>k_kind = kind, k_tenant = tenant, k_id = cid, k_version = version\<rparr>))"

definition content_key :: "string \<Rightarrow> string \<Rightarrow> (key_error, key) result" where
  "content_key tenant cid = make_key KeyContent tenant cid []"

definition version_key :: "string \<Rightarrow> string \<Rightarrow> string \<Rightarrow> (key_error, key) result" where
  "version_key tenant content version = make_key KeyVersion tenant content version"

definition channel_key :: "string \<Rightarrow> string \<Rightarrow> (key_error, key) result" where
  "channel_key tenant cid = make_key KeyChannel tenant cid []"

definition tier_key :: "string \<Rightarrow> (key_error, key) result" where
  "tier_key name =
     (if \<not> valid_tier name then Inl (BadTier name)
      else Inr (zero_key\<lparr>k_kind := KeyTier, k_id := name\<rparr>))"

definition content_prefix :: "string \<Rightarrow> string" where
  "content_prefix tenant = tenant @ '':'' @ content_namespace @ '':''"

definition channel_prefix :: "string \<Rightarrow> string" where
  "channel_prefix tenant = tenant @ '':'' @ channel_namespace @ '':''"

definition parse_key :: "string \<Rightarrow> (key_error, key) result" where
  "parse_key s =
     (if length s > max_key_bytes then Inl KeyTooLong
      else case str_cut (CHR '':'') s of
        (_, None) \<Rightarrow> tier_key s
      | (tenant, Some rest) \<Rightarrow>
          (case str_cut (CHR '':'') rest of
             (_, None) \<Rightarrow> Inl (NoNamespace s)
           | (ns, Some cid) \<Rightarrow>
               if ns = channel_namespace then channel_key tenant cid
               else if ns \<noteq> content_namespace then Inl (BadNamespace ns)
               else (case str_cut (CHR ''/'') cid of
                 (content, Some version) \<Rightarrow> version_key tenant content version
               | (_, None) \<Rightarrow> content_key tenant cid)))"

text \<open>The accessors.\<close>

definition key_content :: "key \<Rightarrow> string" where
  "key_content k = (if k_kind k = KeyContent \<or> k_kind k = KeyVersion then k_id k else [])"

definition key_channel :: "key \<Rightarrow> string" where
  "key_channel k = (if k_kind k = KeyChannel then k_id k else [])"

definition key_tier :: "key \<Rightarrow> string" where
  "key_tier k = (if k_kind k = KeyTier then k_id k else [])"

definition key_string :: "key \<Rightarrow> string" where
  "key_string k = (case k_kind k of
     KeyContent \<Rightarrow> content_prefix (k_tenant k) @ k_id k
   | KeyVersion \<Rightarrow> content_prefix (k_tenant k) @ k_id k @ ''/'' @ k_version k
   | KeyChannel \<Rightarrow> channel_prefix (k_tenant k) @ k_id k
   | KeyTier \<Rightarrow> k_id k
   | KeyZero \<Rightarrow> [])"

definition marshal_key :: "key \<Rightarrow> (key_error, string) result" where
  "marshal_key k = (if k_kind k = KeyZero then Inl ZeroKeyText else Inr (key_string k))"

text \<open>\<open>UnmarshalText\<close>: the receiver keeps its value on an error.\<close>

definition unmarshal_key :: "key \<Rightarrow> string \<Rightarrow> key \<times> key_error option" where
  "unmarshal_key k b = (case parse_key b of Inl e \<Rightarrow> (k, Some e) | Inr p \<Rightarrow> (p, None))"

section \<open>Well-formed keys\<close>

text \<open>What the constructors build: a kind other than zero with exactly its own fields.\<close>

definition valid_key :: "key \<Rightarrow> bool" where
  "valid_key k = (case k_kind k of
     KeyContent \<Rightarrow> valid_tenant (k_tenant k) \<and> validate_id (k_id k) = None \<and> k_version k = []
   | KeyVersion \<Rightarrow> valid_tenant (k_tenant k) \<and> validate_id (k_id k) = None
       \<and> validate_id (k_version k) = None
   | KeyChannel \<Rightarrow> valid_tenant (k_tenant k) \<and> validate_id (k_id k) = None \<and> k_version k = []
   | KeyTier \<Rightarrow> k_tenant k = [] \<and> valid_tier (k_id k) \<and> k_version k = []
   | KeyZero \<Rightarrow> False)"

lemma make_key_Inr:
  "make_key kind tenant cid version = Inr k \<longleftrightarrow>
     valid_tenant tenant \<and> validate_id cid = None \<and>
     (kind = KeyVersion \<longrightarrow> validate_id version = None) \<and>
     k = \<lparr>k_kind = kind, k_tenant = tenant, k_id = cid, k_version = version\<rparr>"
  by (auto simp: make_key_def split: option.splits if_splits)

lemma valid_tenant_no_sep: "valid_tenant t \<Longrightarrow> CHR '':'' \<notin> set t \<and> CHR ''/'' \<notin> set t"
  by (auto simp: valid_tenant_def list_all_iff byte_classes char_le_iff)

lemma validate_id_no_sep: "validate_id s = None \<Longrightarrow> CHR '':'' \<notin> set s \<and> CHR ''/'' \<notin> set s"
  by (auto dest!: validate_id_chars simp: byte_classes char_le_iff)

lemma validate_id_length: "validate_id s = None \<Longrightarrow> length s = 36"
  by (simp add: validate_id_ok_iff)

lemma valid_tenant_length: "valid_tenant t \<Longrightarrow> length t \<le> 64 \<and> t \<noteq> []"
  by (auto simp: valid_tenant_def max_tenant_def)

lemma valid_tier_tenant: "valid_tier s \<Longrightarrow> valid_tenant s"
  by (simp add: valid_tier_def)

lemma namespaces_no_colon: "CHR '':'' \<notin> set content_namespace" "CHR '':'' \<notin> set channel_namespace"
  by (simp_all add: content_namespace_def channel_namespace_def)

lemma namespaces_differ [simp]: "content_namespace \<noteq> channel_namespace"
  by (simp add: content_namespace_def channel_namespace_def)

lemmas key_grammar = valid_tenant_no_sep validate_id_no_sep validate_id_length
  valid_tenant_length valid_tier_tenant namespaces_no_colon

lemma key_string_length: "valid_key k \<Longrightarrow> length (key_string k) \<le> max_key_bytes"
  by (cases "k_kind k")
     (auto simp: valid_key_def key_string_def max_key_bytes_def content_prefix_def
       channel_prefix_def content_namespace_def channel_namespace_def max_tenant_def
       valid_tier_def dest!: validate_id_length valid_tenant_length)

lemma parse_namespaced:
  assumes "CHR '':'' \<notin> set tenant" "CHR '':'' \<notin> set ns"
    and "length (tenant @ CHR '':'' # ns @ CHR '':'' # r) \<le> max_key_bytes"
  shows "parse_key (tenant @ CHR '':'' # ns @ CHR '':'' # r) =
    (if ns = channel_namespace then channel_key tenant r
     else if ns \<noteq> content_namespace then Inl (BadNamespace ns)
     else (case str_cut (CHR ''/'') r of
       (content, Some version) \<Rightarrow> version_key tenant content version
     | (_, None) \<Rightarrow> content_key tenant r))"
  using assms by (simp add: parse_key_def)

lemma parse_key_string:
  assumes "valid_key k"
  shows "parse_key (key_string k) = Inr k"
proof (cases "k_kind k")
  case KeyZero
  with assms show ?thesis by (simp add: valid_key_def)
next
  case KeyTier
  then have "valid_tier (k_id k)" "k_tenant k = []" "k_version k = []"
    using assms by (simp_all add: valid_key_def)
  moreover then have "CHR '':'' \<notin> set (k_id k)" by (simp add: key_grammar)
  ultimately show ?thesis
    using KeyTier key_string_length [OF assms]
    by (cases k) (auto simp: parse_key_def key_string_def tier_key_def zero_key_def)
next
  case KeyChannel
  then have "valid_tenant (k_tenant k)" "validate_id (k_id k) = None" "k_version k = []"
    using assms by (simp_all add: valid_key_def)
  then show ?thesis
    using KeyChannel key_string_length [OF assms]
    by (cases k) (simp add: key_string_def channel_prefix_def parse_namespaced key_grammar
        channel_key_def make_key_Inr)
next
  case KeyContent
  then have "valid_tenant (k_tenant k)" "validate_id (k_id k) = None" "k_version k = []"
    using assms by (simp_all add: valid_key_def)
  then show ?thesis
    using KeyContent key_string_length [OF assms]
    by (cases k) (simp add: key_string_def content_prefix_def parse_namespaced key_grammar
        content_key_def make_key_Inr)
next
  case KeyVersion
  then have "valid_tenant (k_tenant k)" "validate_id (k_id k) = None"
    "validate_id (k_version k) = None"
    using assms by (simp_all add: valid_key_def)
  then show ?thesis
    using KeyVersion key_string_length [OF assms]
    by (cases k) (simp add: key_string_def content_prefix_def parse_namespaced key_grammar
        version_key_def make_key_Inr)
qed

lemma parse_key_canonical:
  assumes "parse_key s = Inr k"
  shows "valid_key k \<and> key_string k = s"
proof (cases "str_cut (CHR '':'') s")
  case (Pair tenant r)
  show ?thesis
  proof (cases r)
    case None
    with Pair assms have "tier_key s = Inr k" by (auto simp: parse_key_def split: if_splits)
    then show ?thesis
      by (auto simp: tier_key_def valid_key_def key_string_def zero_key_def split: if_splits)
  next
    case (Some rest)
    with Pair have s: "s = tenant @ '':'' @ rest" by (simp add: str_cut_Some_iff)
    obtain ns cid where ns: "str_cut (CHR '':'') rest = (ns, Some cid)"
      using assms Pair Some
      by (cases "str_cut (CHR '':'') rest"; cases "snd (str_cut (CHR '':'') rest)")
         (auto simp: parse_key_def split: if_splits)
    then have rest: "rest = ns @ '':'' @ cid" by (simp add: str_cut_Some_iff)
    from assms Pair Some ns show ?thesis
      by (auto simp: parse_key_def s rest channel_key_def version_key_def content_key_def
          make_key_Inr valid_key_def key_string_def channel_prefix_def content_prefix_def
          str_cut_Some_iff split: if_splits prod.splits option.splits)
  qed
qed

definition parse_key_opt :: "string \<Rightarrow> key option" where
  "parse_key_opt s = (case parse_key s of Inl _ \<Rightarrow> None | Inr k \<Rightarrow> Some k)"

interpretation ekey: canonical_format key_string parse_key_opt valid_key
  by unfold_locales
     (auto simp: parse_key_opt_def parse_key_string split: sum.splits dest: parse_key_canonical)

text \<open>A key lies in the keyspace of its own tenant and kind, and in no other.\<close>

lemma key_string_prefix:
  assumes "valid_key k" and "k_kind k = KeyContent \<or> k_kind k = KeyVersion"
  shows "has_prefix (content_prefix (k_tenant k)) (key_string k)"
  using assms by (auto simp: key_string_def)

lemma key_string_channel_prefix:
  assumes "valid_key k" and "k_kind k = KeyChannel"
  shows "has_prefix (channel_prefix (k_tenant k)) (key_string k)"
  using assms by (auto simp: key_string_def)

lemma prefix_determines:
  assumes "CHR '':'' \<notin> set a" "CHR '':'' \<notin> set b" "CHR '':'' \<notin> set ns" "CHR '':'' \<notin> set ms"
    and "a @ '':'' @ ns @ '':'' @ x = b @ '':'' @ ms @ '':'' @ y"
  shows "a = b \<and> ns = ms \<and> x = y"
proof -
  have "str_cut (CHR '':'') (a @ '':'' @ ns @ '':'' @ x) = (a, Some (ns @ '':'' @ x))"
    "str_cut (CHR '':'') (b @ '':'' @ ms @ '':'' @ y) = (b, Some (ms @ '':'' @ y))"
    using assms(1,2) by simp_all
  with assms(5) have ab: "a = b" and r: "ns @ '':'' @ x = ms @ '':'' @ y" by auto
  have "str_cut (CHR '':'') (ns @ '':'' @ x) = (ns, Some x)"
    "str_cut (CHR '':'') (ms @ '':'' @ y) = (ms, Some y)"
    using assms(3,4) by simp_all
  with r ab show ?thesis by auto
qed

section \<open>Properties\<close>

text \<open>
  printing and parsing entitlement keys are inverse. A key built by a constructor parses
  back to itself, and a text that parses is the text of the key it parses to, so no two
  texts name one key and no two keys share a text.
\<close>

theorem key_text_roundtrip:
  "(parse_key s = Inr k) = (valid_key k \<and> key_string k = s)"
  using parse_key_string parse_key_canonical by blast

text \<open>
  What the constructors return is a well-formed key, and every well-formed key is the
  result of its constructor: tenant, ids and tier name are exactly the accepted ones.
\<close>

lemma constructors_valid:
  "(version_key t c v = Inr k \<longrightarrow> valid_key k \<and> key_content k = c \<and> k_version k = v \<and> k_tenant k = t)
   \<and> (channel_key t c = Inr k \<longrightarrow> valid_key k \<and> key_channel k = c \<and> k_tenant k = t)
   \<and> (content_key t c = Inr k \<longrightarrow> valid_key k \<and> key_content k = c \<and> k_tenant k = t)
   \<and> (tier_key t = Inr k \<longrightarrow> valid_key k \<and> key_tier k = t)
   \<and> (valid_key k \<longrightarrow> k \<in> {k. (\<exists>t c v. version_key t c v = Inr k) \<or> (\<exists>t c. channel_key t c = Inr k)
        \<or> (\<exists>t c. content_key t c = Inr k) \<or> (\<exists>t. tier_key t = Inr k)})"
  by (cases k; cases "k_kind k")
     (auto simp: version_key_def channel_key_def content_key_def tier_key_def make_key_Inr
       valid_key_def key_content_def key_channel_def key_tier_def zero_key_def split: if_splits)

end
