(* ===== verification/Kinds_Validate.thy ===== *)
theory Kinds_Validate
  imports Kinds
begin

text \<open>
  \<open>Config.Validate\<close> of package \<open>kinds\<close> and the domain selection that relies on it. Every
  refusal wraps \<open>ErrInvalid\<close>; an error is identified by the constant part of its message.
  The checks are in the order of the source, so the error returned is the source's for the
  iteration order the lists stand for.
\<close>

section \<open>Names\<close>

datatype kinds_error = ErrInvalid string

abbreviation inval :: "bool \<Rightarrow> string \<Rightarrow> kinds_error option" where
  "inval b m \<equiv> refuse_if b (ErrInvalid m)"

text \<open>The regular expressions \<open>identRE\<close>, \<open>routeRE\<close> and \<open>languageRE\<close>.\<close>

definition ident_re :: "string \<Rightarrow> bool" where
  "ident_re s \<longleftrightarrow> s \<noteq> [] \<and> is_lower (hd s) \<and>
     list_all (\<lambda>c. is_lower c \<or> is_digit c \<or> c = CHR ''_'') (tl s)"

definition route_re :: "string \<Rightarrow> bool" where
  "route_re s \<longleftrightarrow> s \<noteq> [] \<and> (is_lower (hd s) \<or> is_digit (hd s)) \<and>
     list_all (\<lambda>c. is_lower c \<or> is_digit c \<or> c = CHR ''-'') (tl s)"

definition language_re :: "string \<Rightarrow> bool" where
  "language_re s = (case split_on (CHR ''-'') s of
     [] \<Rightarrow> False
   | p # ps \<Rightarrow> 2 \<le> length p \<and> length p \<le> 3 \<and> list_all is_lower p \<and>
       list_all (\<lambda>q. 2 \<le> length q \<and> length q \<le> 8 \<and>
         list_all (\<lambda>c. is_lower c \<or> is_upper c \<or> is_digit c) q) ps)"

section \<open>Parts\<close>

definition validate_download :: "download \<Rightarrow> string option" where
  "validate_download d =
     (if dl_off d \<and> dl_serve d \<noteq> [] then Some ''download is off: it serves nothing''
      else if dl_serve d \<noteq> [] \<and> dl_serve d \<noteq> download_pages \<and> dl_serve d \<noteq> download_original
              \<and> \<not> route_re (dl_serve d) then Some ''download serves''
      else None)"

definition validate_preview :: "preview \<Rightarrow> string option" where
  "validate_preview p =
     (if pv_segments p \<noteq> 0 then Some ''preview segments are unsupported''
      else if pv_pages p \<le> 0 then Some ''preview needs positive pages''
      else None)"

definition locked_check :: "string list \<Rightarrow> string \<Rightarrow> string option list" where
  "locked_check before p =
     [refuse_if (p \<notin> set shown \<or> p \<in> set before) ''locked shows unknown or repeated'']"

definition validate_locked :: "locked \<Rightarrow> string option" where
  "validate_locked l = first_error
     (scan locked_check [] (lk_show l)
      @ [case lk_preview l of None \<Rightarrow> None | Some p \<Rightarrow> validate_preview p])"

definition presentations :: "string list" where
  "presentations = [''reader'', ''player'', ''post'']"

definition attr_types :: "string list" where
  "attr_types = [''string'', ''int'', ''bool'', ''enum'', ''time'']"

definition attribute_checks :: "string \<times> attribute \<Rightarrow> kinds_error option list" where
  "attribute_checks na =
     [inval (\<not> ident_re (fst na)) ''attribute name'',
      inval (a_type (snd na) \<notin> set attr_types) ''attribute type'',
      inval ((a_type (snd na) = ''enum'') \<noteq> (a_values (snd na) \<noteq> [])) ''values belong to enums only'']"

definition validate_attributes :: "(string \<times> attribute) list \<Rightarrow> kinds_error option" where
  "validate_attributes attrs = first_error (concat (map attribute_checks attrs))"

section \<open>Popularity buckets\<close>

definition scope_checks ::
    "config \<Rightarrow> popularity_scope list \<Rightarrow> popularity_scope \<Rightarrow> kinds_error option list" where
  "scope_checks c seen s =
     [inval (s \<in> set seen) ''scope is repeated'',
      inval (ps_language s \<noteq> [] \<and> ps_language s \<notin> set (languages c))
        ''scope language is not configured'',
      inval (ps_domain s \<noteq> [] \<and> \<not> list_ex (\<lambda>d. d_name d = ps_domain s) (domains (filters c)))
        ''scope domain is not configured'']"

definition bucket_dates_bad :: "(string \<Rightarrow> time option) \<Rightarrow> popularity_bucket \<Rightarrow> bool" where
  "bucket_dates_bad parse_date b =
     (case (parse_date (pb_from b), parse_date (pb_until b)) of
        (Some f, Some u) \<Rightarrow> \<not> f < u | _ \<Rightarrow> True)"

definition bucket_modes :: "popularity_bucket \<Rightarrow> nat" where
  "bucket_modes b = (if pb_days b \<noteq> 0 then 1 else 0)
     + (if pb_from b \<noteq> [] \<or> pb_until b \<noteq> [] then 1 else 0) + (if pb_all b then 1 else 0)"

definition bucket_checks ::
    "(string \<Rightarrow> time option) \<Rightarrow> config \<Rightarrow> popularity_bucket list \<Rightarrow> popularity_bucket \<Rightarrow>
     kinds_error option list" where
  "bucket_checks parse_date c seen b =
     [inval (\<not> route_re (pb_id b) \<or> pb_id b \<in> set (map pb_id seen)) ''id must be a unique route name'',
      inval (pb_days b \<noteq> 0 \<and> pb_days b < 1) ''days must be positive'',
      inval ((pb_from b \<noteq> [] \<or> pb_until b \<noteq> []) \<and> bucket_dates_bad parse_date b)
        ''from and until must be increasing UTC dates'',
      inval (bucket_modes b \<noteq> 1 \<or> pb_refresh_every b < 0)
        ''choose one window and a nonnegative refresh_every'']
     @ scan (scope_checks c) [] (activity_scopes b)"

definition validate_popularity ::
    "(string \<Rightarrow> time option) \<Rightarrow> config \<Rightarrow> popularity_bucket list \<Rightarrow> kinds_error option" where
  "validate_popularity parse_date c bs = first_error (scan (bucket_checks parse_date c) [] bs)"

section \<open>Routes\<close>

text \<open>
  The closure \<open>route\<close>: a map from the routes seen to their owners is threaded through the
  loops over entity kinds, channels and content kinds.
\<close>

type_synonym route_map = "(string \<times> string) list"

definition add_route :: "string \<Rightarrow> string \<Rightarrow> route_map \<Rightarrow> (kinds_error, route_map) result" where
  "add_route owner r routes =
     (if r = [] then Inr routes
      else if \<not> route_re r then Inl (ErrInvalid ''route'')
      else if map_of routes r \<noteq> None then Inl (ErrInvalid ''route is used by'')
      else Inr (AList.update r owner routes))"

section \<open>Entity kinds\<close>

definition membership_scope_checks :: "string list \<Rightarrow> string \<Rightarrow> kinds_error option list" where
  "membership_scope_checks seen s =
     [inval ((s \<noteq> content_scope \<and> s \<noteq> version_scope) \<or> s \<in> set seen)
        ''invalid or repeated membership scope'']"

definition entity_ref_checks :: "config \<Rightarrow> string \<Rightarrow> kinds_error option list" where
  "entity_ref_checks c r =
     [inval (r = ''channel'') ''metadata does not parent or scope channels'',
      inval (r \<noteq> [] \<and> map_of (entity_kinds c) r = None) ''names unknown group kind'']"

definition limits_negative :: "upload_limits \<Rightarrow> bool" where
  "limits_negative u \<longleftrightarrow> files_per_hour u < 0 \<or> bytes_per_day u < 0 \<or> quota_bytes u < 0"

definition entity_pre_checks :: "config \<Rightarrow> string \<times> entity_kind \<Rightarrow> kinds_error option list" where
  "entity_pre_checks c ngk = (let name = fst ngk; gk = snd ngk in
     [inval (name \<noteq> ''channel'' \<and> (ek_owner gk = ''user'' \<or> ek_auth_scope gk \<or> ek_entitled gk
        \<or> ek_max_per_owner gk \<noteq> 0 \<or> ek_uploads gk \<noteq> no_uploads))
        ''authoring ownership, scopes and paid membership belong to channels'',
      inval (name = ''channel'' \<and> \<not> channel_storage c)
        ''channel is configured through channels, not entity_kinds'',
      inval (\<not> ident_re name) ''group kind'',
      inval (map_of (kinds c) name \<noteq> None) ''is both a kind and a group kind''])"

definition entity_post_checks :: "config \<Rightarrow> string \<times> entity_kind \<Rightarrow> kinds_error option list" where
  "entity_post_checks c ngk = (let name = fst ngk; gk = snd ngk in
     [inval (ek_creatable gk \<and> (ek_owner gk = ''user'' \<or> ek_auth_scope gk))
        ''user-owned and auth_scope kinds are not creatable'',
      inval (ek_membership_scopes gk \<noteq> [] \<and> ek_version_level gk)
        ''combines membership_scopes with legacy version_level'']
     @ scan membership_scope_checks [] (ek_membership_scopes gk)
     @ concat (map (entity_ref_checks c) [ek_parent gk, ek_scoped_by gk])
     @ [inval (ek_owner gk \<noteq> [] \<and> ek_owner gk \<noteq> ''site'' \<and> ek_owner gk \<noteq> ''user'') ''owner'',
        inval (ek_max_per_owner gk < 0 \<or> ek_max_per_owner gk > 0 \<and> ek_owner gk \<noteq> ''user'')
          ''max_per_owner is a non-negative cap of user-owned groups'',
        inval (limits_negative (ek_uploads gk)
            \<or> ek_uploads gk \<noteq> no_uploads \<and> ek_owner gk \<noteq> ''user'' \<and> name \<noteq> ''channel'')
          ''uploads are non-negative limits of user-owned groups'']
     @ map (\<lambda>r. inval (\<not> ident_re r) ''role'') (ek_roles gk)
     @ [validate_attributes (ek_attributes gk)])"

definition check_entity_kind ::
    "config \<Rightarrow> string \<times> entity_kind \<Rightarrow> route_map \<Rightarrow> (kinds_error, route_map) result" where
  "check_entity_kind c ngk routes =
     bindr (guard (entity_pre_checks c ngk) routes)
     (\<lambda>rs. bindr (add_route (''group kind '' @ fst ngk) (ek_route (snd ngk)) rs)
     (guard (entity_post_checks c ngk)))"

section \<open>Channels\<close>

definition channels_pre_checks :: "channels \<Rightarrow> kinds_error option list" where
  "channels_pre_checks ch = [inval (ch_creation ch \<noteq> ''staff'' \<and> ch_creation ch \<noteq> ''users'')
     ''channels.creation must be staff or users'']"

definition channels_post_checks :: "config \<Rightarrow> channels \<Rightarrow> kinds_error option list" where
  "channels_post_checks c ch =
     [inval (ch_max_per_owner ch < 0 \<or> ch_max_per_owner ch > 0 \<and> ch_creation ch \<noteq> ''users'')
        ''channels.max_per_owner requires users creation'',
      inval (limits_negative (ch_uploads ch)) ''channel upload limits must be nonnegative'']
     @ map (\<lambda>name. inval (map_of (entity_kinds c) name = None \<or> name = ''channel'')
         ''unknown channel metadata kind'') (ch_entities ch)"

definition check_channels :: "config \<Rightarrow> route_map \<Rightarrow> (kinds_error, route_map) result" where
  "check_channels c routes = (case channels_of c of
     None \<Rightarrow> Inr routes
   | Some ch \<Rightarrow>
       bindr (guard (channels_pre_checks ch) routes)
       (\<lambda>rs. bindr (add_route ''channels'' (if channel_storage c then [] else ch_route ch) rs)
       (guard (channels_post_checks c ch))))"

section \<open>Content kinds\<close>

definition comment_mode_checks :: "string list \<Rightarrow> string \<Rightarrow> kinds_error option list" where
  "comment_mode_checks seen m =
     [inval (m \<notin> set [''open'', ''closed'', ''hidden''] \<or> m \<in> set seen)
        ''invalid or duplicate comment mode'']"

definition access_level_checks ::
    "config \<Rightarrow> string list \<Rightarrow> string \<Rightarrow> kinds_error option list" where
  "access_level_checks c seen l =
     [inval (l \<notin> set [''public'', ''tier'', ''ppv'', ''group'', ''group_ppv''] \<or> l \<in> set seen)
        ''invalid or duplicate access level'',
      inval (l = ''tier'' \<and> tiers c = []) ''allows tier access without any tiers'']"

definition channel_policy_checks :: "config \<Rightarrow> kind \<Rightarrow> kinds_error option list" where
  "channel_policy_checks c k = (case kind_channel k of
     None \<Rightarrow> []
   | Some policy \<Rightarrow>
       (case channels_of c of
          None \<Rightarrow> [Some (ErrInvalid ''uses channels without channels configuration'')]
        | Some ch \<Rightarrow>
            [inval (cp_fixed policy \<noteq> [] \<and> (trim_space (cp_fixed policy) \<noteq> cp_fixed policy
                \<or> \<not> route_re (cp_fixed policy))) ''has invalid fixed channel slug'',
             inval (cp_fixed policy \<noteq> [] \<and> ch_creation ch = ''users'')
               ''fixed channels require staff creation'',
             inval (access_scope k = ''version'') ''channel content uses parent-level access'']))"

text \<open>
  The zero \<open>EntityKind\<close> a missing map key reads as: its membership scope is the content.
\<close>

definition path_entity_ok :: "config \<Rightarrow> kind \<Rightarrow> bool" where
  "path_entity_ok c k \<longleftrightarrow> path_entity k \<in> set (kind_entities k) \<and>
     (case map_of (entity_kinds c) (path_entity k) of
        Some gk \<Rightarrow> allows_membership gk content_scope | None \<Rightarrow> True)"

definition wrap_error :: "string option \<Rightarrow> kinds_error option" where
  "wrap_error = map_option ErrInvalid"

definition kind_pre_checks ::
    "(string \<Rightarrow> time option) \<Rightarrow> config \<Rightarrow> string \<times> kind \<Rightarrow> kinds_error option list" where
  "kind_pre_checks parse_date c nk = (let name = fst nk; k = snd nk in
     [inval (name = ''channel'') ''channel is reserved for authoring channels'',
      validate_popularity parse_date c (popularity k),
      inval (access_scope k \<noteq> [] \<and> access_scope k \<noteq> ''content'' \<and> access_scope k \<noteq> ''version'')
        ''invalid access_scope'',
      inval (access_scope k = ''version'' \<and> vr_hidden (versions k))
        ''cannot edit access on a hidden version'',
      inval (title_policy k \<noteq> [] \<and> title_policy k \<noteq> ''localized''
        \<and> title_policy k \<noteq> ''original_and_version'') ''invalid title_policy'']
     @ scan comment_mode_checks [] (comment_modes k)
     @ scan (access_level_checks c) [] (access_levels k)
     @ [inval (\<not> ident_re name) ''kind'',
        inval (kind_route k = []) ''needs a route''])"

definition kind_post_checks :: "config \<Rightarrow> string \<times> kind \<Rightarrow> kinds_error option list" where
  "kind_post_checks c nk = (let k = snd nk in
     [inval (presentation k \<notin> set presentations) ''presentation'',
      inval (vr_languages (versions k) \<noteq> ''one'' \<and> vr_languages (versions k) \<noteq> ''many'')
        ''versions.languages must be one or many'']
     @ map (\<lambda>t. inval (\<not> ident_re t) ''trait'') (vr_traits (versions k))
     @ map (\<lambda>g. inval (map_of (entity_kinds c) g = None \<or> g = ''channel'')
         ''names unknown group kind'') (kind_entities k)
     @ channel_policy_checks c k
     @ [inval (path_entity k \<noteq> [] \<and> \<not> path_entity_ok c k)
          ''path_entity must be one of its content-level groups'',
        validate_attributes (kind_attributes k),
        wrap_error (case kind_locked k of None \<Rightarrow> None | Some l \<Rightarrow> validate_locked l),
        wrap_error (case kind_download k of None \<Rightarrow> None | Some d \<Rightarrow> validate_download d)])"

definition check_kind ::
    "(string \<Rightarrow> time option) \<Rightarrow> config \<Rightarrow> string \<times> kind \<Rightarrow> route_map \<Rightarrow>
     (kinds_error, route_map) result" where
  "check_kind parse_date c nk routes =
     bindr (guard (kind_pre_checks parse_date c nk) routes)
     (\<lambda>rs. bindr (add_route (''kind '' @ fst nk) (kind_route (snd nk)) rs)
     (guard (kind_post_checks c nk)))"

section \<open>Domains\<close>

text \<open>\<open>domainHost\<close>: a host name without port, brackets, case and trailing dot.\<close>

definition domain_host :: "(string \<Rightarrow> string) \<Rightarrow> string \<Rightarrow> string" where
  "domain_host uni host =
     (let h = trim_space host;
          h' = (case split_host_port h of Some x \<Rightarrow> x | None \<Rightarrow> h)
      in trim_suffix ''.'' (to_lower uni (trim_set {CHR ''['', CHR '']''} h')))"

definition host_checks ::
    "(string \<Rightarrow> string) \<Rightarrow> string list \<Rightarrow> string \<Rightarrow> kinds_error option list" where
  "host_checks uni seen alias =
     [inval (domain_host uni alias = [] \<or> domain_host uni alias \<in> set (map (domain_host uni) seen))
        ''domain host is empty or repeated'']"

definition domain_checks ::
    "(string \<Rightarrow> string) \<Rightarrow> domain list \<Rightarrow> domain \<Rightarrow> kinds_error option list" where
  "domain_checks uni seen d =
     inval (d_name d = [] \<or> d_name d \<in> set (map d_name seen) \<or> (d_name d \<noteq> ''main'' \<and> d_hosts d = []))
       ''domain needs a unique name and non-main domains need hosts''
     # scan (\<lambda>before. host_checks uni (concat (map d_hosts seen) @ before)) [] (d_hosts d)"

definition validate_domains :: "(string \<Rightarrow> string) \<Rightarrow> content_filters \<Rightarrow> kinds_error option" where
  "validate_domains uni fs =
     (if domains fs = [] then None
      else if length (filter (\<lambda>d. d_name d = ''main'') (domains fs)) \<noteq> 1
        then Some (ErrInvalid ''configured domains need exactly one domain named main'')
      else first_error (scan (domain_checks uni) [] (domains fs)))"

text \<open>\<open>DomainFor\<close>; \<open>None\<close> is its \<open>false\<close>.\<close>

definition domain_for :: "(string \<Rightarrow> string) \<Rightarrow> config \<Rightarrow> string \<Rightarrow> domain option" where
  "domain_for uni c host =
     (let h = domain_host uni host;
          matching = (if h \<noteq> [] then
            List.find (\<lambda>d. list_ex (\<lambda>alias. domain_host uni alias = h) (d_hosts d)) (domains (filters c))
            else None)
      in case matching of
           Some d \<Rightarrow> Some d
         | None \<Rightarrow> List.find (\<lambda>d. d_name d = ''main'') (domains (filters c)))"

definition entity_refs :: "config \<Rightarrow> entity_ref list" where
  "entity_refs c = concat (map (\<lambda>d. concat (map snd (d_require_entities d)) @ map cf_entity (d_filters d))
     (domains (filters c)))"

definition applies_checks :: "config \<Rightarrow> string list \<Rightarrow> string \<Rightarrow> kinds_error option list" where
  "applies_checks c seen k =
     [inval (map_of (kinds c) k = None \<or> k \<in> set seen)
        ''applies_to names an unknown or repeated content kind'']"

text \<open>\<open>c.Kinds[kind].Entities\<close>, empty for a missing kind.\<close>

definition entities_of :: "config \<Rightarrow> string \<Rightarrow> string list" where
  "entities_of c k = (case map_of (kinds c) k of Some m \<Rightarrow> kind_entities m | None \<Rightarrow> [])"

definition filter_checks ::
    "config \<Rightarrow> domain \<Rightarrow> content_filter list \<Rightarrow> content_filter \<Rightarrow> kinds_error option list" where
  "filter_checks c d seen f =
     [inval (cf_entity f \<in> set (map cf_entity seen)) ''repeats filter'',
      inval (domain_requires d (cf_entity f) \<and> \<not> cf_visible f) ''both requires and hides entity'']
     @ map (\<lambda>k. inval (er_kind (cf_entity f) \<notin> set (entities_of c k))
         ''filter entity kind cannot be associated'') (applies_to (filters c))"

definition required_checks :: "config \<Rightarrow> string \<times> entity_ref list \<Rightarrow> kinds_error option list" where
  "required_checks c kr = (case map_of (kinds c) (fst kr) of
     None \<Rightarrow> [Some (ErrInvalid ''names unknown required content kind'')]
   | Some model \<Rightarrow>
       scan (\<lambda>seen r. [inval (r \<in> set seen \<or> er_kind r \<notin> set (kind_entities model))
           ''repeated or unsupported required entity'']) [] (snd kr))"

definition domain_policy_checks :: "config \<Rightarrow> domain \<Rightarrow> kinds_error option list" where
  "domain_policy_checks c d =
     inval (d_filters d \<noteq> [] \<and> applies_to (filters c) = [])
       ''filters require explicit applies_to content kinds''
     # scan (filter_checks c d) [] (d_filters d)
     @ concat (map (required_checks c) (d_require_entities d))"

section \<open>The whole configuration\<close>

definition head_checks :: "config \<Rightarrow> kinds_error option list" where
  "head_checks c =
     [inval (languages c = []) ''languages is required'']
     @ map (\<lambda>l. inval (\<not> language_re l) ''language'') (languages c)
     @ map (\<lambda>n. inval (\<not> ident_re n) ''name'') (tiers c @ restrictions c)
     @ map (\<lambda>t. inval (t \<notin> set (tiers c)) ''token claim is not a tier'') (token_claims c)
     @ [inval (kinds c = []) ''kinds is required'']"

definition tail_checks :: "(string \<Rightarrow> string) \<Rightarrow> config \<Rightarrow> kinds_error option list" where
  "tail_checks uni c =
     map (\<lambda>r. inval (map_of (entity_kinds c) (er_kind r) = None \<or> er_slug r = [])
       ''names an unknown group kind or no slug'') (entity_refs c)
     @ [validate_domains uni (filters c)]
     @ scan (applies_checks c) [] (applies_to (filters c))
     @ concat (map (domain_policy_checks c) (domains (filters c)))"

definition validate_config ::
    "(string \<Rightarrow> string) \<Rightarrow> (string \<Rightarrow> time option) \<Rightarrow> config \<Rightarrow> kinds_error option" where
  "validate_config uni parse_date c =
     (case bindr (guard (head_checks c) [])
        (\<lambda>rs. bindr (fold_result (check_entity_kind c) (entity_kinds c) rs)
        (\<lambda>rs. bindr (check_channels c rs)
        (\<lambda>rs. bindr (fold_result (check_kind parse_date c) (kinds c) rs)
        (guard (tail_checks uni c))))) of
        Inl e \<Rightarrow> Some e | Inr _ \<Rightarrow> None)"

end
