(* ===== verification/Access_Rules.thy ===== *)
theory Access_Rules
  imports Access_Keys Kinds_Validate
begin

text \<open>
  Package \<open>access\<close>, files \<open>rule.go\<close>, \<open>releases.go\<close> and \<open>access.go\<close>, and
  \<open>internal/entitlement/rule.go\<close>: access rules, their scheduled releases, their validation
  against the configured tiers, what is free at a time, and the actors and items that
  access is decided for.

  A level is the string the code stores. A nil slice and an empty slice are both the empty
  list. Where the code takes a whole \<open>kinds.Config\<close> only its tiers are read, which are
  the parameter \<open>cfg_tiers\<close>.
\<close>

section \<open>Rules\<close>

definition public_level :: string where "public_level = ''public''"
definition tier_level :: string where "tier_level = ''tier''"
definition channel_level :: string where "channel_level = ''group''"
definition ppv_level :: string where "ppv_level = ''ppv''"
definition channel_ppv :: string where "channel_ppv = ''group_ppv''"

lemmas level_defs = public_level_def tier_level_def channel_level_def ppv_level_def channel_ppv_def

lemma levels_distinct [simp]:
  "public_level \<noteq> tier_level" "public_level \<noteq> channel_level" "public_level \<noteq> ppv_level"
  "public_level \<noteq> channel_ppv" "tier_level \<noteq> public_level" "tier_level \<noteq> channel_level"
  "tier_level \<noteq> ppv_level" "tier_level \<noteq> channel_ppv" "channel_level \<noteq> public_level"
  "channel_level \<noteq> tier_level" "channel_level \<noteq> ppv_level" "channel_level \<noteq> channel_ppv"
  "ppv_level \<noteq> public_level" "ppv_level \<noteq> tier_level" "ppv_level \<noteq> channel_level"
  "ppv_level \<noteq> channel_ppv" "channel_ppv \<noteq> public_level" "channel_ppv \<noteq> tier_level"
  "channel_ppv \<noteq> channel_level" "channel_ppv \<noteq> ppv_level"
  by (simp_all add: level_defs)

record release =
  rel_at :: time
  rel_level :: string
  rel_tiers :: "string list"
  rel_channel :: string

record rule =
  r_level :: string
  r_tiers :: "string list"
  r_channel :: string
  r_preview :: "preview option"
  r_releases :: "release list"

text \<open>The errors, all of which wrap \<open>ErrRule\<close>.\<close>

datatype rule_error =
    TakesNoTiersOrGroup
  | TierNeedsTiers
  | TierNotConfigured string
  | TakesNoTiers
  | BadGroupID ref_error
  | UnknownLevel string
  | PublicTakesNothing
  | BadPreview string
  | TooManyReleases
  | ReleaseNeedsAt
  | ReleaseAudience
  | RepeatedRelease
  | BareErrRule

text \<open>The checks \<open>Validate\<close> makes before it turns to the releases.\<close>

definition tier_checks :: "string list \<Rightarrow> string list \<Rightarrow> string \<Rightarrow> rule_error option list" where
  "tier_checks cfg_tiers seen t = [refuse_if (t \<notin> set cfg_tiers \<or> t \<in> set seen) (TierNotConfigured t)]"

definition level_checks :: "string list \<Rightarrow> rule \<Rightarrow> rule_error option list" where
  "level_checks cfg_tiers r =
     (if r_level r = public_level \<or> r_level r = ppv_level then
        [refuse_if (r_tiers r \<noteq> [] \<or> r_channel r \<noteq> []) TakesNoTiersOrGroup]
      else if r_level r = tier_level then
        refuse_if (r_tiers r = [] \<or> r_channel r \<noteq> []) TierNeedsTiers
        # scan (tier_checks cfg_tiers) [] (r_tiers r)
      else if r_level r = channel_level \<or> r_level r = channel_ppv then
        [refuse_if (r_tiers r \<noteq> []) TakesNoTiers,
         map_option BadGroupID (validate_id (r_channel r))]
      else [Some (UnknownLevel (r_level r))])"

definition own_checks :: "string list \<Rightarrow> rule \<Rightarrow> rule_error option" where
  "own_checks cfg_tiers r = first_error
     (level_checks cfg_tiers r
      @ [refuse_if (r_level r = public_level \<and> (r_preview r \<noteq> None \<or> r_releases r \<noteq> []))
           PublicTakesNothing,
         case r_preview r of None \<Rightarrow> None | Some p \<Rightarrow> map_option BadPreview (validate_preview p)])"

text \<open>
  \<open>Release.key\<close>: the JSON of the release with its time in UTC and its tiers sorted. JSON
  refuses a year outside 0 to 9999; the ignored error leaves the empty text (\<open>None\<close>).
\<close>

definition json_time :: "time \<Rightarrow> bool" where
  "json_time t \<longleftrightarrow> -62167219200 * 1000000000 \<le> t \<and> t < 253402300800 * 1000000000"

definition release_key :: "release \<Rightarrow> (time \<times> string \<times> string list \<times> string) option" where
  "release_key r =
     (if json_time (rel_at r) then Some (rel_at r, rel_level r, sort (rel_tiers r), rel_channel r)
      else None)"

text \<open>The rule of a release, which the code validates with \<open>Rule.Validate\<close>.\<close>

definition release_rule :: "release \<Rightarrow> rule" where
  "release_rule x = \<lparr>r_level = rel_level x, r_tiers = rel_tiers x, r_channel = rel_channel x,
     r_preview = None, r_releases = []\<rparr>"

definition release_checks :: "string list \<Rightarrow> release list \<Rightarrow> release \<Rightarrow> rule_error option list" where
  "release_checks cfg_tiers seen x =
     [refuse_if (rel_at x = zero_time) ReleaseNeedsAt,
      refuse_if (rel_level x \<noteq> public_level \<and> rel_level x \<noteq> tier_level \<and> rel_level x \<noteq> channel_level)
        ReleaseAudience,
      own_checks cfg_tiers (release_rule x),
      refuse_if (release_key x \<in> set (map release_key seen)) RepeatedRelease]"

definition validate_releases :: "string list \<Rightarrow> rule \<Rightarrow> rule_error option" where
  "validate_releases cfg_tiers r =
     (if length (r_releases r) > 32 then Some TooManyReleases
      else first_error (scan (release_checks cfg_tiers) [] (r_releases r)))"

definition validate_rule :: "string list \<Rightarrow> rule \<Rightarrow> rule_error option" where
  "validate_rule cfg_tiers r =
     (case own_checks cfg_tiers r of
        Some e \<Rightarrow> Some e
      | None \<Rightarrow> validate_releases cfg_tiers r)"

text \<open>A release's rule has no releases, so the recursion of the code ends there.\<close>

lemma validate_release_rule: "validate_rule cfg_tiers (release_rule x) = own_checks cfg_tiers (release_rule x)"
  by (simp add: validate_rule_def validate_releases_def release_rule_def split: option.splits)

definition rule_free :: "rule \<Rightarrow> time \<Rightarrow> bool" where
  "rule_free r now \<longleftrightarrow> r_level r = public_level \<or>
     list_ex (\<lambda>x. rel_level x = public_level \<and> \<not> now < rel_at x) (r_releases r)"

definition previewed :: "rule \<Rightarrow> kind \<Rightarrow> rule" where
  "previewed r k = (case lk_preview (locked_view k) of
     Some p \<Rightarrow> if r_preview r = None \<and> r_level r \<noteq> public_level then r\<lparr>r_preview := Some p\<rparr> else r
   | None \<Rightarrow> r)"

record facet =
  f_level :: string
  f_tiers :: "string list"
  f_channel :: "string option"
  f_releases :: "release list"

definition rule_facet :: "rule \<Rightarrow> facet" where
  "rule_facet r = \<lparr>f_level = r_level r, f_tiers = r_tiers r,
     f_channel = (if r_channel r \<noteq> [] then Some (r_channel r) else None),
     f_releases = r_releases r\<rparr>"

text \<open>\<open>AudienceTiers\<close>: sorted, without repetition.\<close>

definition audience_tiers :: "rule \<Rightarrow> time \<Rightarrow> string list" where
  "audience_tiers r now =
     (let base = (if r_level r = tier_level then r_tiers r else []);
          released = concat (map (\<lambda>x. if \<not> now < rel_at x \<and> rel_level x = tier_level then rel_tiers x else [])
            (r_releases r))
      in remdups_adj (sort (base @ released)))"

definition effective :: "rule \<Rightarrow> rule option \<Rightarrow> rule" where
  "effective content override = (case override of Some r \<Rightarrow> r | None \<Rightarrow> content)"

section \<open>Actors and items\<close>

datatype subject_kind = SubjectUser | SubjectApplication | SubjectOther string

text \<open>
  The actor as the entitlement gate reads it. \<open>a_account\<close> is \<open>None\<close> for a nil membership;
  \<open>a_claims\<close> is \<open>None\<close> when the credential has no entitlement claims.
\<close>

record actor =
  a_id :: string
  a_account :: "string option"
  a_kind :: subject_kind
  a_ip :: string
  a_anonymous :: bool
  a_claims :: "string list option"

definition person :: "actor \<Rightarrow> bool" where
  "person a \<longleftrightarrow> \<not> a_anonymous a \<and> a_id a \<noteq> [] \<and> a_kind a \<noteq> SubjectApplication"

definition account_id :: "actor \<Rightarrow> string" where
  "account_id a =
     (if \<not> person a then []
      else case a_account a of Some i \<Rightarrow> i | None \<Rightarrow> a_id a)"

definition is_member :: "actor \<Rightarrow> bool" where
  "is_member a \<longleftrightarrow> account_id a \<noteq> []"

record item =
  it_content :: string
  it_version :: string
  it_rule :: rule

section \<open>Properties\<close>

text \<open>The releases of a validated rule: their checks pass and their keys are distinct.\<close>

lemma release_scan:
  "list_all no_error (scan (release_checks ts) [] xs) \<longleftrightarrow>
     distinct (map release_key xs) \<and>
     (\<forall>x \<in> set xs. rel_at x \<noteq> zero_time \<and> rel_level x \<in> {public_level, tier_level, channel_level} \<and>
        own_checks ts (release_rule x) = None)"
  by (rule scan_fresh_key) (auto simp: release_checks_def no_error_def)

lemma validate_releases_iff:
  "validate_releases ts r = None \<longleftrightarrow> length (r_releases r) \<le> 32 \<and>
     distinct (map release_key (r_releases r)) \<and>
     (\<forall>x \<in> set (r_releases r). rel_at x \<noteq> zero_time \<and>
        rel_level x \<in> {public_level, tier_level, channel_level} \<and>
        own_checks ts (release_rule x) = None)"
  unfolding release_scan [symmetric] validate_releases_def first_error_None_all [symmetric]
  by auto

lemma tier_scan:
  "list_all no_error (scan (tier_checks ts) [] xs) \<longleftrightarrow> distinct xs \<and> set xs \<subseteq> set ts"
proof -
  have "list_all no_error (scan (tier_checks ts) [] xs) \<longleftrightarrow> distinct xs \<and> (\<forall>x \<in> set xs. x \<in> set ts)"
    by (rule scan_fresh) (auto simp: tier_checks_def)
  then show ?thesis by auto
qed

lemma level_checks_ok:
  "list_all no_error (level_checks ts r) \<longleftrightarrow>
     (r_level r \<in> {public_level, ppv_level} \<and> r_tiers r = [] \<and> r_channel r = []) \<or>
     (r_level r = tier_level \<and> r_tiers r \<noteq> [] \<and> r_channel r = [] \<and> distinct (r_tiers r) \<and>
        set (r_tiers r) \<subseteq> set ts) \<or>
     (r_level r \<in> {channel_level, channel_ppv} \<and> r_tiers r = [] \<and> validate_id (r_channel r) = None)"
  by (auto simp: level_checks_def tier_scan no_error_def [of "map_option _ _"])

lemma own_checks_ok:
  "own_checks ts r = None \<longleftrightarrow> list_all no_error (level_checks ts r) \<and>
     (r_level r = public_level \<longrightarrow> r_preview r = None \<and> r_releases r = []) \<and>
     (\<forall>p. r_preview r = Some p \<longrightarrow> validate_preview p = None)"
  unfolding own_checks_def first_error_None_all
  by (auto simp: no_error_def split: option.splits)

text \<open>
  a rule that passes \<open>Validate\<close> has exactly the fields of its level: public and
  pay-per-view rules name nothing, a tier rule names distinct configured tiers, a channel
  rule names a valid channel id; its releases are at most 32, pairwise different, dated,
  and validated the same way.
\<close>

theorem validate_rule_iff:
  "(validate_rule ts r = None) =
     (((r_level r \<in> {public_level, ppv_level} \<and> r_tiers r = [] \<and> r_channel r = []) \<or>
       (r_level r = tier_level \<and> r_tiers r \<noteq> [] \<and> r_channel r = [] \<and> distinct (r_tiers r) \<and>
          set (r_tiers r) \<subseteq> set ts) \<or>
       (r_level r \<in> {channel_level, channel_ppv} \<and> r_tiers r = [] \<and> validate_id (r_channel r) = None)) \<and>
      (r_level r = public_level \<longrightarrow> r_preview r = None \<and> r_releases r = []) \<and>
      (\<forall>p. r_preview r = Some p \<longrightarrow> pv_segments p = 0 \<and> 0 < pv_pages p) \<and>
      length (r_releases r) \<le> 32 \<and> distinct (map release_key (r_releases r)) \<and>
      (\<forall>x \<in> set (r_releases r). rel_at x \<noteq> zero_time \<and>
        rel_level x \<in> {public_level, tier_level, channel_level} \<and>
        validate_rule ts (release_rule x) = None))"
proof -
  have "validate_preview p = None \<longleftrightarrow> pv_segments p = 0 \<and> 0 < pv_pages p" for p
    by (auto simp: validate_preview_def)
  moreover have "validate_rule ts r = None \<longleftrightarrow> own_checks ts r = None \<and> validate_releases ts r = None"
    by (auto simp: validate_rule_def split: option.splits)
  ultimately show ?thesis
    unfolding own_checks_ok validate_releases_iff level_checks_ok validate_release_rule by blast
qed

definition sample_rule :: rule where
  "sample_rule = \<lparr>r_level = tier_level, r_tiers = [''gold''], r_channel = [], r_preview = None,
     r_releases = [\<lparr>rel_at = 100, rel_level = public_level, rel_tiers = [], rel_channel = []\<rparr>]\<rparr>"

theorem validate_rule_iff_witness: "validate_rule [''gold''] sample_rule = None"
proof -
  have "validate_rule [''gold''] (release_rule x) = None" if "x \<in> set (r_releases sample_rule)" for x
    unfolding validate_release_rule own_checks_ok level_checks_ok
    using that by (auto simp: sample_rule_def release_rule_def)
  then show ?thesis
    by (subst validate_rule_iff) (auto simp: sample_rule_def zero_time_def)
qed

text \<open>
  releases only add audiences: what is free stays free, and a tier admitted at a time
  is admitted at every later time.
\<close>

theorem releases_monotone:
  assumes "now \<le> later"
  shows "(rule_free r now \<longrightarrow> rule_free r later) \<and>
    set (audience_tiers r now) \<subseteq> set (audience_tiers r later)"
  using assms by (auto simp: rule_free_def list_ex_iff audience_tiers_def Let_def split: if_splits)

theorem releases_monotone_witness:
  "(100 :: time) \<le> 200 \<and> rule_free sample_rule 100 \<and> rule_free sample_rule 200 \<and>
   set (audience_tiers sample_rule 100) \<subseteq> set (audience_tiers sample_rule 200)"
proof -
  have "rule_free sample_rule 100" by (simp add: rule_free_def sample_rule_def)
  then show ?thesis using releases_monotone [of 100 200 sample_rule] by simp
qed

end
