(* ===== verification/Domain_Policy.thy ===== *)
theory Domain_Policy
  imports Kinds Access_Rules
begin

text \<open>
  Packages \<open>internal/domainpolicy\<close> and \<open>internal/readerprefs\<close>, and the content filters of
  \<open>internal/discoverystore/filters.go\<close>: which entities a domain requires and excludes, which
  of its filters a reader may change, and the choices a reader made. The rows of the entity
  table a query returns are the answer of the parameter \<open>query\<close>.
\<close>

section \<open>Policies\<close>

record entity_row =
  ey_ref :: entity_ref
  ey_id :: string
  ey_internal :: bool
  ey_active :: bool

type_synonym entity_query = "entity_ref list \<Rightarrow> (string, entity_row list) result"

record policy =
  py_required :: "string list"
  py_blocked :: "string list"
  py_toggles :: "(string \<times> bool) list"
  py_toggle_refs :: "(entity_ref \<times> string) list"
  py_missing_required :: bool
  py_missing_hard :: bool

type_synonym policies = "(string \<times> policy) list"

definition policy_refs :: "domain \<Rightarrow> entity_ref list" where
  "policy_refs d = remdups (concat (map snd (d_require_entities d)) @ map cf_entity (d_filters d))"

definition policy_targets :: "domain \<Rightarrow> string list \<Rightarrow> string list" where
  "policy_targets d applies = remdups (applies @ map fst (d_require_entities d))"

record found_entities =
  fe_found :: "(entity_ref \<times> entity_row) list"
  fe_inactive_internal :: "entity_ref list"

definition scan_row :: "found_entities \<Rightarrow> entity_row \<Rightarrow> found_entities" where
  "scan_row s e =
     \<lparr>fe_found = (if (case map_of (fe_found s) (ey_ref e) of None \<Rightarrow> True | Some x \<Rightarrow> \<not> ey_active x \<and> ey_active e)
        then AList.update (ey_ref e) e (fe_found s) else fe_found s),
      fe_inactive_internal = (if \<not> ey_active e \<and> ey_internal e
        then ey_ref e # fe_inactive_internal s else fe_inactive_internal s)\<rparr>"

definition scan_rows :: "entity_row list \<Rightarrow> found_entities" where
  "scan_rows rows = foldl scan_row \<lparr>fe_found = [], fe_inactive_internal = []\<rparr> rows"

definition empty_policy :: policy where
  "empty_policy = \<lparr>py_required = [], py_blocked = [], py_toggles = [], py_toggle_refs = [],
     py_missing_required = False, py_missing_hard = False\<rparr>"

definition require_entity :: "found_entities \<Rightarrow> policy \<Rightarrow> entity_ref \<Rightarrow> policy" where
  "require_entity s p r =
     (case map_of (fe_found s) r of
        Some e \<Rightarrow> if ey_active e then p\<lparr>py_required := py_required p @ [ey_id e]\<rparr> else p\<lparr>py_missing_required := True\<rparr>
      | None \<Rightarrow> p\<lparr>py_missing_required := True\<rparr>)"

definition apply_filter :: "domain \<Rightarrow> found_entities \<Rightarrow> policy \<Rightarrow> content_filter \<Rightarrow> policy" where
  "apply_filter d s p f =
     (if \<not> cf_visible f \<and> cf_entity f \<in> set (fe_inactive_internal s) then p\<lparr>py_missing_hard := True\<rparr>
      else
        (case (case map_of (fe_found s) (cf_entity f) of Some e \<Rightarrow> if ey_active e then Some e else None | None \<Rightarrow> None) of
           None \<Rightarrow>
             if \<not> cf_visible f \<and> (\<not> toggleable f \<or>
                  (case map_of (fe_found s) (cf_entity f) of Some e \<Rightarrow> ey_internal e | None \<Rightarrow> False))
             then p\<lparr>py_missing_hard := True\<rparr> else p
         | Some e \<Rightarrow>
             if toggleable f \<and> \<not> ey_internal e \<and> \<not> domain_requires d (cf_entity f)
             then p\<lparr>py_toggles := AList.update (ey_id e) (cf_visible f) (py_toggles p),
                    py_toggle_refs := AList.update (cf_entity f) (ey_id e) (py_toggle_refs p)\<rparr>
             else if \<not> cf_visible f then p\<lparr>py_blocked := py_blocked p @ [ey_id e]\<rparr> else p))"

text \<open>The entities of a kind in \<open>RequireEntities\<close>, a map.\<close>

definition required_of :: "domain \<Rightarrow> string \<Rightarrow> entity_ref list" where
  "required_of d kind = (case map_of (d_require_entities d) kind of None \<Rightarrow> [] | Some rs \<Rightarrow> rs)"

definition kind_policy :: "domain \<Rightarrow> string list \<Rightarrow> found_entities \<Rightarrow> string \<Rightarrow> policy" where
  "kind_policy d applies s kind =
     foldl (apply_filter d s) (foldl (require_entity s) empty_policy (required_of d kind))
       (if kind \<in> set applies then d_filters d else [])"

definition resolve_policies :: "entity_query \<Rightarrow> domain \<Rightarrow> string list \<Rightarrow> (string, policies) result" where
  "resolve_policies query d applies =
     bindr (if policy_refs d \<noteq> [] then query (policy_refs d) else Inr [])
       (\<lambda>rows. Inr (map (\<lambda>kind. (kind, kind_policy d applies (scan_rows rows) kind)) (policy_targets d applies)))"

definition policies_allow :: "policies \<Rightarrow> string \<Rightarrow> string list \<Rightarrow> bool" where
  "policies_allow ps kind entities =
     (case map_of ps kind of
        None \<Rightarrow> True
      | Some p \<Rightarrow> \<not> py_missing_hard p \<and> \<not> py_missing_required p \<and>
          list_all (\<lambda>i. i \<in> set entities) (py_required p) \<and> list_all (\<lambda>i. i \<notin> set entities) (py_blocked p))"

section \<open>Predicates over rows\<close>

text \<open>
  The SQL a policy renders to: constantly true, or one clause per kind in the order of the
  names; the entities a clause needs and excludes are its arguments, and none is \<open>false\<close>.
\<close>

datatype policy_sql = PolicyTrue | PolicyRows "string list" "(string \<times> (string list \<times> string list) option) list"

definition policies_sql :: "policies \<Rightarrow> policy_sql" where
  "policies_sql ps =
     (if ps = [] then PolicyTrue
      else (let names = sort (map fst ps)
        in PolicyRows names (map (\<lambda>kind. (kind,
             (case map_of ps kind of
                Some p \<Rightarrow> if \<not> py_missing_hard p \<and> \<not> py_missing_required p
                  then Some (py_required p, py_blocked p) else None
              | None \<Rightarrow> None))) names)))"

text \<open>What PostgreSQL makes of it on a row of a kind with entities: \<open>@>\<close> and \<open>&&\<close> of arrays.\<close>

definition policy_admits :: "policy_sql \<Rightarrow> string \<Rightarrow> string list \<Rightarrow> bool" where
  "policy_admits q kind entities =
     (case q of
        PolicyTrue \<Rightarrow> True
      | PolicyRows names clauses \<Rightarrow> kind \<notin> set names \<or>
          list_ex (\<lambda>(k, c). kind = k \<and> (case c of None \<Rightarrow> False
            | Some (need, block) \<Rightarrow> set need \<subseteq> set entities \<and> set block \<inter> set entities = {})) clauses)"

type_synonym hidden_filters = "(string \<times> string list) list"

definition hidden_sql :: "hidden_filters \<Rightarrow> (string \<times> string list) list" where
  "hidden_sql hidden =
     (let names = sort (map fst (filter (\<lambda>h. snd h \<noteq> []) hidden))
      in map (\<lambda>kind. (kind, case map_of hidden kind of Some ids \<Rightarrow> ids | None \<Rightarrow> [])) names)"

definition hidden_admits :: "(string \<times> string list) list \<Rightarrow> string \<Rightarrow> string list \<Rightarrow> bool" where
  "hidden_admits clauses kind entities =
     list_all (\<lambda>(k, ids). kind \<noteq> k \<or> set ids \<inter> set entities = {}) clauses"

section \<open>Reader preferences\<close>

definition pref_show :: string where "pref_show = ''show''"
definition pref_hide :: string where "pref_hide = ''hide''"
definition pref_default :: string where "pref_default = ''default''"

definition pref_key :: "string \<Rightarrow> string" where
  "pref_key entity = ''entity:'' @ entity"

definition pref_rank :: "string \<Rightarrow> nat" where
  "pref_rank v = (if v = pref_default then 1 else if v = pref_show then 2 else if v = pref_hide then 3 else 0)"

text \<open>The loop over the legacy choices: the rank reached and its value.\<close>

definition legacy_choice :: "string \<Rightarrow> nat \<times> string \<Rightarrow> string \<times> string \<Rightarrow> nat \<times> string" where
  "legacy_choice entity st kv =
     (case str_cut (CHR ''/'') (fst kv) of
        (kind, Some i) \<Rightarrow> if kind = [] \<or> i \<noteq> entity then st
          else if pref_rank (snd kv) > fst st then (pref_rank (snd kv), snd kv) else st
      | (_, None) \<Rightarrow> st)"

definition stored_pref :: "(string \<times> string) list \<Rightarrow> string \<Rightarrow> bool \<times> bool" where
  "stored_pref values entity =
     (let value = (case map_of values (pref_key entity) of
            Some v \<Rightarrow> v
          | None \<Rightarrow>
              (let (rank, v) = foldl (legacy_choice entity) (0, []) values
               in if rank = 0 then (case map_of values entity of Some w \<Rightarrow> w | None \<Rightarrow> []) else v))
      in if value = pref_show then (True, True) else if value = pref_hide then (False, True) else (False, False))"

record guest_filter =
  gf_entity :: string
  gf_visible :: "bool option"
  gf_default :: "bool option"

datatype prefs_error = PrefsHeader | PrefsJson | PrefsTooMany | PrefsChoice | PrefsTwice | PrefsUnknown | PrefsReader |
  PrefsAccount | PrefsForbidden | PrefsStore string

definition guest_choice_ok :: "guest_filter \<Rightarrow> bool" where
  "guest_choice_ok f \<longleftrightarrow> gf_entity f \<noteq> [] \<and> (gf_visible f = None) \<noteq> (gf_default f = None) \<and> gf_default f \<noteq> Some False"

definition guest_value :: "guest_filter \<Rightarrow> string" where
  "guest_value f = (case gf_visible f of None \<Rightarrow> pref_default | Some b \<Rightarrow> if b then pref_show else pref_hide)"

text \<open>The loop of \<open>Overrides\<close>: the choices kept and the entities seen.\<close>

definition override_step ::
    "(string \<Rightarrow> bool) \<Rightarrow> guest_filter \<Rightarrow> (string \<times> string) list \<times> string list \<Rightarrow>
     (prefs_error, (string \<times> string) list \<times> string list) result" where
  "override_step allowed f st =
     (if \<not> guest_choice_ok f then Inl PrefsChoice
      else if gf_entity f \<in> set (snd st) then Inl PrefsTwice
      else Inr (if allowed (gf_entity f) then AList.update (pref_key (gf_entity f)) (guest_value f) (fst st) else fst st,
                gf_entity f # snd st))"

text \<open>
  \<open>decode\<close> is the JSON decoder: the filters of a document that is an object of the known
  fields and nothing more.
\<close>

definition guest_overrides ::
    "(string \<Rightarrow> guest_filter list option) \<Rightarrow> string list \<Rightarrow> (string \<Rightarrow> bool) \<Rightarrow>
     (prefs_error, (string \<times> string) list) result" where
  "guest_overrides decode headers allowed =
     (if headers = [] then Inr []
      else if length headers \<noteq> 1 \<or> length (hd headers) > 8192 then Inl PrefsHeader
      else if trim_space (hd headers) = [] then Inr []
      else (case decode (hd headers) of
              None \<Rightarrow> Inl PrefsJson
            | Some fs \<Rightarrow>
                if length fs > 128 then Inl PrefsTooMany
                else map_sum id fst (fold_result (override_step allowed) fs ([], []))))"

section \<open>The content filters of a reader\<close>

text \<open>\<open>filterEntitiesForDomains\<close>: the entity of every reference a reader may toggle.\<close>

definition inventory_of :: "policies \<Rightarrow> (entity_ref \<times> string) list \<Rightarrow> (entity_ref \<times> string) list" where
  "inventory_of ps out = foldl (\<lambda>o' (_, p). foldl (\<lambda>o'' (r, i). AList.update r i o'') o' (py_toggle_refs p)) out ps"

definition filter_inventory ::
    "entity_query \<Rightarrow> domain list \<Rightarrow> string list \<Rightarrow> (string, (entity_ref \<times> string) list) result" where
  "filter_inventory query ds applies =
     fold_result (\<lambda>d out. map_sum id (\<lambda>ps. inventory_of ps out) (resolve_policies query d applies)) ds []"

definition inventory_allowed :: "(entity_ref \<times> string) list \<Rightarrow> string \<Rightarrow> bool" where
  "inventory_allowed known i \<longleftrightarrow> i \<in> snd ` set known"

definition choice_step ::
    "(string \<Rightarrow> bool) \<Rightarrow> bool \<Rightarrow> guest_filter \<Rightarrow> (string \<times> string) list \<times> string list \<Rightarrow>
     (prefs_error, (string \<times> string) list \<times> string list) result" where
  "choice_step allowed init f st =
     (if \<not> guest_choice_ok f then Inl PrefsChoice
      else if gf_entity f \<in> set (snd st) then Inl PrefsTwice
      else if \<not> allowed (gf_entity f) then (if init then Inr (fst st, gf_entity f # snd st) else Inl PrefsUnknown)
      else Inr (AList.update (pref_key (gf_entity f)) (guest_value f) (fst st), gf_entity f # snd st))"

text \<open>The preferences table of a tenant, by account; an upsert merges or keeps a row.\<close>

type_synonym prefs_table = "string \<Rightarrow> (string \<times> string) list option"

definition save_prefs :: "bool \<Rightarrow> string \<Rightarrow> (string \<times> string) list \<Rightarrow> prefs_table \<Rightarrow> prefs_table" where
  "save_prefs init user patch t =
     (case t user of
        None \<Rightarrow> t(user \<mapsto> patch)
      | Some old \<Rightarrow> if init then t else t(user \<mapsto> foldl (\<lambda>m (k, v). AList.update k v m) old patch))"

definition save_content_filters ::
    "actor \<Rightarrow> (string, (entity_ref \<times> string) list) result \<Rightarrow> guest_filter list \<Rightarrow> bool \<Rightarrow> prefs_table \<Rightarrow>
     (prefs_error, prefs_table) result" where
  "save_content_filters a inventory choices init t =
     (if \<not> is_member a then Inl PrefsReader
      else (case inventory of
              Inl e \<Rightarrow> Inl (PrefsStore e)
            | Inr known \<Rightarrow>
                bindr (fold_result (choice_step (inventory_allowed known) init) choices ([], []))
                  (\<lambda>(patch, _). Inr (save_prefs init (account_id a) patch t))))"

definition set_content_filters ::
    "entity_query \<Rightarrow> domain \<Rightarrow> string list \<Rightarrow> actor \<Rightarrow> guest_filter list \<Rightarrow> prefs_table \<Rightarrow> (prefs_error, prefs_table) result" where
  "set_content_filters query d applies a choices t =
     save_content_filters a (filter_inventory query [d] applies) choices False t"

definition initialize_content_filters ::
    "entity_query \<Rightarrow> domain list \<Rightarrow> string list \<Rightarrow> actor \<Rightarrow> string \<Rightarrow> guest_filter list \<Rightarrow> prefs_table \<Rightarrow>
     (prefs_error, prefs_table) result" where
  "initialize_content_filters query ds applies a account choices t =
     (if account = [] then Inl PrefsAccount
      else if \<not> is_member a \<or> account_id a \<noteq> account then Inl PrefsForbidden
      else save_content_filters a (filter_inventory query ds applies) choices True t)"

text \<open>
  \<open>ContentFilters\<close>: the state of every filter of the domain whose entity has a card. The
  values are the account's, an anonymous reader's header, or none.
\<close>

record filter_state =
  fs_entity :: string
  fs_default_visible :: bool
  fs_visible :: bool
  fs_overridden :: bool

definition reader_values ::
    "actor \<Rightarrow> prefs_table \<Rightarrow> (prefs_error, (string \<times> string) list) result \<Rightarrow> (prefs_error, (string \<times> string) list) result" where
  "reader_values a t guest =
     (if is_member a then Inr (case t (account_id a) of None \<Rightarrow> [] | Some m \<Rightarrow> m)
      else if a_anonymous a then guest else Inr [])"

definition filter_states ::
    "domain \<Rightarrow> (entity_ref \<times> string) list \<Rightarrow> (string \<Rightarrow> bool) \<Rightarrow> (string \<times> string) list \<Rightarrow> filter_state list" where
  "filter_states d known has_card values =
     concat (map (\<lambda>f.
       (case map_of known (cf_entity f) of
          None \<Rightarrow> []
        | Some i \<Rightarrow>
            if \<not> has_card i then []
            else (let (visible, overridden) = stored_pref values i
              in [\<lparr>fs_entity = i, fs_default_visible = cf_visible f,
                   fs_visible = (if overridden then visible else cf_visible f), fs_overridden = overridden\<rparr>])))
       (d_filters d))"

definition content_filter_states ::
    "entity_query \<Rightarrow> (string \<Rightarrow> guest_filter list option) \<Rightarrow> string list \<Rightarrow> domain \<Rightarrow> string list \<Rightarrow> actor \<Rightarrow>
     (string \<Rightarrow> bool) \<Rightarrow> prefs_table \<Rightarrow> (prefs_error, filter_state list) result" where
  "content_filter_states query decode headers d applies a has_card t =
     (case filter_inventory query [d] applies of
        Inl e \<Rightarrow> Inl (PrefsStore e)
      | Inr known \<Rightarrow>
          bindr (reader_values a t (guest_overrides decode headers (inventory_allowed known)))
            (\<lambda>values. Inr (filter_states d known has_card values)))"

end
