(* ===== verification/Content_Codes.thy ===== *)
theory Content_Codes
  imports Content_Ref
begin

text \<open>
  Package \<open>internal/codes\<close> and the codes of \<open>contenturl\<close>: slugs, content codes, and the
  registry \<open>content_codes\<close> of one tenant, which the SQL of \<open>Put\<close>, \<open>Reserve\<close>, \<open>Merge\<close> and
  \<open>Resolve\<close> reads and writes.

  A rune is a natural number. The Unicode data (NFKD, the class Mn, lower case) and the
  database's random code generator are parameters. The registry is the list of the tenant's
  rows; an empty \<open>merged_into\<close> stands for NULL. Each operation runs in its transaction, so
  the statements of one operation see no other writer.
\<close>

section \<open>Slugs\<close>

definition max_slug :: nat where "max_slug = 80"

definition slug_byte :: "char \<Rightarrow> bool" where
  "slug_byte c \<longleftrightarrow> is_lower c \<or> is_digit c"

definition slug_re :: "string \<Rightarrow> bool" where
  "slug_re s \<longleftrightarrow> s = [] \<or> list_all (\<lambda>w. w \<noteq> [] \<and> list_all slug_byte w) (split_on (CHR ''-'') s)"

definition folds :: "nat \<Rightarrow> string" where
  "folds r =
     (if r = 0xDF \<or> r = 0x1E9E then ''ss''
      else if r = 0xE6 \<or> r = 0xC6 then ''ae''
      else if r = 0x153 \<or> r = 0x152 then ''oe''
      else if r = 0xF8 \<or> r = 0xD8 then ''o''
      else if r = 0x111 \<or> r = 0x110 \<or> r = 0xF0 \<or> r = 0xD0 then ''d''
      else if r = 0x142 \<or> r = 0x141 then ''l''
      else if r = 0xFE \<or> r = 0xDE then ''th''
      else if r = 0x131 then ''i'' else [])"

definition apostrophes :: "nat list" where
  "apostrophes = [39, 0x2018, 0x2019, 0x2BC]"

definition emit :: "char \<Rightarrow> string \<times> bool \<Rightarrow> string \<times> bool" where
  "emit c st = (fst st @ (if snd st \<and> fst st \<noteq> [] then ''-'' else []) @ [c], False)"

definition slug_rune :: "(nat \<Rightarrow> bool) \<Rightarrow> (nat \<Rightarrow> nat) \<Rightarrow> nat \<Rightarrow> string \<times> bool \<Rightarrow> string \<times> bool" where
  "slug_rune is_mn lower r st =
     (if is_mn r \<or> r \<in> set apostrophes then st
      else if folds r \<noteq> [] then fold emit (folds r) st
      else let r' = lower r
        in if 97 \<le> r' \<and> r' \<le> 122 \<or> 48 \<le> r' \<and> r' \<le> 57 then emit (char_of r') st
           else (fst st, True))"

text \<open>\<open>strings.LastIndexByte\<close>.\<close>

definition last_index :: "char \<Rightarrow> string \<Rightarrow> nat option" where
  "last_index c s = (case str_cut c (rev s) of
     (_, None) \<Rightarrow> None | (_, Some before) \<Rightarrow> Some (length before))"

definition cut_slug :: "string \<Rightarrow> string" where
  "cut_slug out =
     (if length out \<le> max_slug then out
      else case last_index (CHR ''-'') (take (max_slug + 1) out) of
        Some n \<Rightarrow> if 0 < n then take n out else take max_slug out
      | None \<Rightarrow> take max_slug out)"

definition trim_right :: "char \<Rightarrow> string \<Rightarrow> string" where
  "trim_right c s = rev (dropWhile (\<lambda>x. x = c) (rev s))"

definition slugify :: "(string \<Rightarrow> nat list) \<Rightarrow> (nat \<Rightarrow> bool) \<Rightarrow> (nat \<Rightarrow> nat) \<Rightarrow> string \<Rightarrow> string" where
  "slugify nfkd is_mn lower s =
     trim_right (CHR ''-'') (cut_slug (fst (fold (slug_rune is_mn lower) (nfkd s) ([], False))))"

definition valid_slug :: "string \<Rightarrow> bool" where
  "valid_slug s \<longleftrightarrow> length s \<le> max_slug \<and> slug_re s"

definition max_path_segments :: nat where "max_path_segments = 2"

definition valid_path :: "string \<Rightarrow> bool" where
  "valid_path s \<longleftrightarrow> s = [] \<or>
     (let segs = split_on (CHR ''/'') s
      in length segs \<le> max_path_segments \<and> list_all (\<lambda>w. w \<noteq> [] \<and> valid_slug w) segs)"

datatype code_error =
    InvalidContent string string
  | InvalidSlug string
  | InvalidLanguage string
  | InvalidCode string
  | InvalidAlias string string
  | InvalidAliasKey
  | RowRefused
  | Unassigned nat
  | MergeSelf
  | NoCode string string
  | AlreadyRedirects
  | CodeConflict
  | AliasConflict
  | TooManyRedirects

definition slug_language_re :: "string \<Rightarrow> bool" where
  "slug_language_re s \<longleftrightarrow> s \<noteq> [] \<and> length s \<le> 16 \<and> slug_byte (hd s) \<and>
     list_all (\<lambda>c. slug_byte c \<or> c = CHR ''_'' \<or> c = CHR ''-'') (tl s)"

definition slug_language :: "(string \<Rightarrow> string) \<Rightarrow> string \<Rightarrow> (code_error, string) result" where
  "slug_language uni l =
     (let l' = to_lower uni (trim_space l)
      in if slug_language_re l' then Inr l' else Inl (InvalidLanguage l'))"

section \<open>Content codes\<close>

definition code_length :: nat where "code_length = 9"
definition version_code_length :: nat where "version_code_length = 4"

definition alphabet :: string where
  "alphabet = ''0123456789ABCDEFGHJKMNPQRSTVWXYZ''"

definition crockford :: "char \<Rightarrow> char" where
  "crockford c =
     (let c' = (if is_lower c then char_of (of_char c - 32 :: nat) else c)
      in if c' = CHR ''O'' then CHR ''0''
         else if c' = CHR ''I'' \<or> c' = CHR ''L'' then CHR ''1'' else c')"

fun read_crockford :: "nat \<Rightarrow> string \<Rightarrow> string \<Rightarrow> string option" where
  "read_crockford n b [] = (if length b \<noteq> n \<or> \<not> list_ex is_upper b then None else Some b)"
| "read_crockford n b (c # s) =
     (if c = CHR ''-'' then read_crockford n b s
      else if crockford c \<notin> set alphabet \<or> length b = n then None
      else read_crockford n (b @ [crockford c]) s)"

definition parse_crockford :: "string \<Rightarrow> nat \<Rightarrow> string option" where
  "parse_crockford s n = read_crockford n [] s"

definition parse_code :: "string \<Rightarrow> string option" where
  "parse_code s = parse_crockford s code_length"

definition parse_version_code :: "string \<Rightarrow> string option" where
  "parse_version_code s = parse_crockford s version_code_length"

definition canonical_code :: "string \<Rightarrow> bool" where
  "canonical_code c \<longleftrightarrow> parse_code c = Some c"

text \<open>\<open>codes.ValidCode\<close>, the two regular expressions of the registry.\<close>

definition valid_code :: "string \<Rightarrow> bool" where
  "valid_code c \<longleftrightarrow> length c = 9 \<and> list_all (\<lambda>x. x \<in> set alphabet) c \<and> list_ex is_upper c"

section \<open>The registry\<close>

type_synonym content_id = "string \<times> string"

record code_row =
  cr_key :: content_id
  cr_code :: string
  cr_slug :: string
  cr_slugs :: "(string \<times> string) list"
  cr_merged :: string

type_synonym registry = "code_row list"

definition row_of_key :: "registry \<Rightarrow> content_id \<Rightarrow> code_row option" where
  "row_of_key reg k = List.find (\<lambda>r. cr_key r = k) reg"

definition row_of_code :: "registry \<Rightarrow> string \<Rightarrow> code_row option" where
  "row_of_code reg c = List.find (\<lambda>r. cr_code r = c) reg"

record code_entry =
  ce_key :: content_id
  ce_slug :: string
  ce_slugs :: "(string \<times> string) list option"

definition check_slug_entry ::
    "(string \<Rightarrow> string) \<Rightarrow> string \<times> string \<Rightarrow> (string \<times> string) list \<Rightarrow>
     (code_error, (string \<times> string) list) result" where
  "check_slug_entry uni ls acc =
     bindr (slug_language uni (fst ls))
       (\<lambda>l. if \<not> valid_path (snd ls) then Inl (InvalidSlug (snd ls))
            else Inr (if snd ls \<noteq> [] then AList.update l (snd ls) acc else acc))"

definition check_entry ::
    "(string \<Rightarrow> string) \<Rightarrow> code_entry \<Rightarrow> (content_id \<times> code_entry) list \<Rightarrow>
     (code_error, (content_id \<times> code_entry) list) result" where
  "check_entry uni e pending =
     (let (kind, cid) = ce_key e
      in if kind = [] \<or> cid = [] \<or> cid \<noteq> to_lower uni cid then Inl (InvalidContent kind cid)
         else if \<not> valid_path (ce_slug e) then Inl (InvalidSlug (ce_slug e))
         else bindr (case ce_slugs e of
             None \<Rightarrow> Inr None
           | Some ss \<Rightarrow> bindr (fold_result (check_slug_entry uni) ss []) (\<lambda>ss'. Inr (Some ss')))
           (\<lambda>ss. Inr (AList.update (ce_key e) (e\<lparr>ce_slugs := ss\<rparr>) pending)))"

text \<open>
  One execution of the statement of \<open>Put\<close>. Rows that exist when it starts are updated and
  answered; the others are inserted with a generated code unless that code is taken, by a
  row or by an insert before it. \<open>gen n\<close> is the \<open>n\<close>-th code the database generates.
\<close>

definition update_row :: "code_entry \<Rightarrow> code_row \<Rightarrow> code_row" where
  "update_row e r = r\<lparr>cr_slug := ce_slug e,
     cr_slugs := (case ce_slugs e of Some ss \<Rightarrow> ss | None \<Rightarrow> cr_slugs r)\<rparr>"

definition insert_row :: "code_entry \<Rightarrow> string \<Rightarrow> code_row" where
  "insert_row e c = \<lparr>cr_key = ce_key e, cr_code = c, cr_slug = ce_slug e,
     cr_slugs = (case ce_slugs e of Some ss \<Rightarrow> ss | None \<Rightarrow> []), cr_merged = []\<rparr>"

fun put_batch ::
    "(nat \<Rightarrow> string) \<Rightarrow> nat \<Rightarrow> code_entry list \<Rightarrow> registry \<Rightarrow> registry \<times> nat \<times> (content_id \<times> string) list" where
  "put_batch gen n [] reg = (reg, n, [])"
| "put_batch gen n (e # es) reg =
     (case row_of_key reg (ce_key e) of
        Some r \<Rightarrow>
          (let (reg', n', got) = put_batch gen n es
             (map (\<lambda>x. if cr_key x = ce_key e then update_row e x else x) reg)
           in (reg', n', (ce_key e, cr_code r) # got))
      | None \<Rightarrow>
          if row_of_code reg (gen n) \<noteq> None then put_batch gen (Suc n) es reg
          else (let (reg', n', got) = put_batch gen (Suc n) es (reg @ [insert_row e (gen n)])
                in (reg', n', (ce_key e, gen n) # got)))"

definition put_attempts :: nat where "put_attempts = 8"

fun put_loop ::
    "nat \<Rightarrow> (nat \<Rightarrow> string) \<Rightarrow> nat \<Rightarrow> (content_id \<times> code_entry) list \<Rightarrow> registry \<Rightarrow>
     (content_id \<times> string) list \<Rightarrow> (code_error, registry \<times> (content_id \<times> string) list) result" where
  "put_loop 0 gen n pending reg out =
     (if pending = [] then Inr (reg, out) else Inl (Unassigned (length pending)))"
| "put_loop (Suc fuel) gen n pending reg out =
     (if pending = [] then Inr (reg, out)
      else let (reg', n', got) = put_batch gen n (map snd pending) reg
        in put_loop fuel gen n' (filter (\<lambda>ke. fst ke \<notin> set (map fst got)) pending) reg' (got @ out))"

definition put_codes ::
    "(string \<Rightarrow> string) \<Rightarrow> (nat \<Rightarrow> string) \<Rightarrow> code_entry list \<Rightarrow> registry \<Rightarrow>
     (code_error, registry \<times> (content_id \<times> string) list) result" where
  "put_codes uni gen entries reg =
     bindr (fold_result (check_entry uni) entries [])
       (\<lambda>pending. put_loop put_attempts gen 0 pending reg [])"

text \<open>\<open>Reserve\<close>: insert what does not conflict, then look for a key whose code is another.
  The table refuses rows without a kind or with an id that is empty or not lower case.\<close>

definition reserve_one :: "content_id \<times> string \<Rightarrow> registry \<Rightarrow> registry" where
  "reserve_one kc reg =
     (if row_of_key reg (fst kc) \<noteq> None \<or> row_of_code reg (snd kc) \<noteq> None then reg
      else reg @ [\<lparr>cr_key = fst kc, cr_code = snd kc, cr_slug = [], cr_slugs = [], cr_merged = []\<rparr>])"

definition reserve_codes ::
    "(string \<Rightarrow> string) \<Rightarrow> (content_id \<times> string) list \<Rightarrow> registry \<Rightarrow> (code_error, registry) result" where
  "reserve_codes uni keep reg =
     (case List.find (\<lambda>kc. \<not> valid_code (snd kc)) keep of
        Some kc \<Rightarrow> Inl (InvalidCode (snd kc))
      | None \<Rightarrow>
          if list_ex (\<lambda>kc. fst (fst kc) = [] \<or> snd (fst kc) = [] \<or> snd (fst kc) \<noteq> to_lower uni (snd (fst kc))) keep
          then Inl RowRefused
          else let reg' = fold reserve_one keep reg
            in if list_ex (\<lambda>kc. map_option cr_code (row_of_key reg' (fst kc)) \<noteq> Some (snd kc)) keep
               then Inl CodeConflict else Inr reg')"

definition merge_codes :: "content_id \<Rightarrow> content_id \<Rightarrow> registry \<Rightarrow> (code_error, registry) result" where
  "merge_codes src into reg =
     (if src = into then Inl MergeSelf
      else case row_of_key reg src of
        None \<Rightarrow> Inl (NoCode (fst src) (snd src))
      | Some s \<Rightarrow>
          (case row_of_key reg into of
             None \<Rightarrow> Inl (NoCode (fst into) (snd into))
           | Some d \<Rightarrow>
               (let target = (if cr_merged d \<noteq> [] then cr_merged d else cr_code d)
                in if target = cr_code s then Inl AlreadyRedirects
                   else Inr (map (\<lambda>r. if cr_code r = cr_code s \<or> cr_merged r = cr_code s
                     then r\<lparr>cr_merged := target\<rparr> else r) reg))))"

section \<open>Resolving codes\<close>

record link =
  ln_kind :: string
  ln_id :: string
  ln_code :: string
  ln_slug :: string
  ln_slugs :: "(string \<times> string) list"

definition link_of :: "code_row \<Rightarrow> link" where
  "link_of r = \<lparr>ln_kind = fst (cr_key r), ln_id = snd (cr_key r), ln_code = cr_code r,
     ln_slug = cr_slug r, ln_slugs = cr_slugs r\<rparr>"

text \<open>The join of \<open>Resolve\<close>: the row a code names, or the row it is merged into.\<close>

definition joined_row :: "registry \<Rightarrow> string \<Rightarrow> code_row option" where
  "joined_row reg c = (case row_of_code reg c of
     None \<Rightarrow> None
   | Some r \<Rightarrow> row_of_code reg (if cr_merged r \<noteq> [] then cr_merged r else cr_code r))"

definition max_hops :: nat where "max_hops = 4"

fun resolve_hops ::
    "nat \<Rightarrow> registry \<Rightarrow> (string \<times> string) list \<Rightarrow> (string \<times> link) list \<Rightarrow>
     (code_error, (string \<times> link) list) result" where
  "resolve_hops 0 reg at out = (if at = [] then Inr out else Inl TooManyRedirects)"
| "resolve_hops (Suc hops) reg at out =
     (if at = [] then Inr out else
      let step = map (\<lambda>(asked, c). (asked, joined_row reg c)) at;
          found = concat (map (\<lambda>(asked, t). case t of
            Some r \<Rightarrow> if cr_merged r = [] then [(asked, link_of r)] else [] | None \<Rightarrow> []) step);
          next = concat (map (\<lambda>(asked, t). case t of
            Some r \<Rightarrow> if cr_merged r = [] then [] else [(asked, cr_merged r)] | None \<Rightarrow> []) step)
      in resolve_hops hops reg next (found @ out))"

definition resolve_codes :: "registry \<Rightarrow> string list \<Rightarrow> (code_error, (string \<times> link) list) result" where
  "resolve_codes reg cs =
     (case List.find (\<lambda>c. \<not> canonical_code c) cs of
        Some c \<Rightarrow> Inl (InvalidCode c)
      | None \<Rightarrow> resolve_hops max_hops reg (map (\<lambda>c. (c, c)) (remdups cs)) [])"

section \<open>Aliases\<close>

definition alias_part_re :: "string \<Rightarrow> bool" where
  "alias_part_re s \<longleftrightarrow> s \<noteq> [] \<and> length s \<le> 64 \<and> slug_byte (hd s) \<and>
     list_all (\<lambda>c. slug_byte c \<or> c = CHR ''_'' \<or> c = CHR ''.'' \<or> c = CHR ''-'') (tl s)"

type_synonym alias_key = "string \<times> string \<times> string"

definition valid_alias :: "alias_key \<Rightarrow> code_error option" where
  "valid_alias k = (let (source, kind, key) = k in
     if \<not> alias_part_re source \<or> \<not> alias_part_re kind then Some (InvalidAlias source kind)
     else if key = [] \<or> length key > 512 then Some InvalidAliasKey
     else None)"

record code_alias =
  al_key :: alias_key
  al_locator :: string
  al_target :: content_id

text \<open>The table \<open>content_code_aliases\<close>: each alias with the code and locator it names.\<close>

type_synonym alias_table = "(alias_key \<times> string \<times> string) list"

definition alias_clash :: "(alias_key \<times> string \<times> string) list \<Rightarrow> alias_table \<Rightarrow> bool" where
  "alias_clash rows table \<longleftrightarrow>
     list_ex (\<lambda>(k, v). list_ex (\<lambda>(k', v'). k' = k \<and> v' \<noteq> v) (rows @ table)) rows"

definition put_aliases ::
    "registry \<Rightarrow> code_alias list \<Rightarrow> alias_table \<Rightarrow> (code_error, alias_table) result" where
  "put_aliases reg als table =
     (case first_error (map (\<lambda>a. valid_alias (al_key a)) als) of
        Some e \<Rightarrow> Inl e
      | None \<Rightarrow>
          (case List.find (\<lambda>a. row_of_key reg (al_target a) = None) als of
             Some a \<Rightarrow> Inl (NoCode (fst (al_target a)) (snd (al_target a)))
           | None \<Rightarrow>
               (let rows = map (\<lambda>a. (al_key a,
                    (case row_of_key reg (al_target a) of Some r \<Rightarrow> cr_code r | None \<Rightarrow> []), al_locator a)) als
                in if alias_clash rows table then Inl AliasConflict
                   else Inr (fold (\<lambda>(k, v) t. if map_of t k = None then t @ [(k, v)] else t) rows table))))"

end
