(* ===== verification/Slug_Props.thy ===== *)
theory Slug_Props
  imports Content_Codes
begin

text \<open>
  Slugs and content codes: what \<open>Slugify\<close> produces is what \<open>ValidSlug\<close> accepts, and
  Crockford's reading of a code against its one-line specification.
\<close>

section \<open>Slugs\<close>

text \<open>The slugs, grown at their end: a slug byte, or a hyphen and a slug byte.\<close>

inductive slug_text :: "string \<Rightarrow> bool" where
  slug_Nil: "slug_text []"
| slug_snoc: "slug_text s \<Longrightarrow> slug_byte c \<Longrightarrow> slug_text (s @ [c])"
| slug_hyphen: "slug_text s \<Longrightarrow> s \<noteq> [] \<Longrightarrow> slug_byte c \<Longrightarrow> slug_text (s @ [CHR ''-'', c])"

declare slug_text.intros [intro]

lemma slug_byte_not_hyphen [simp]: "\<not> slug_byte (CHR ''-'')"
  by (simp add: slug_byte_def byte_classes less_eq_char_def)

lemma split_on_append_any:
  "split_on c (a @ b) =
     butlast (split_on c a) @ (last (split_on c a) @ hd (split_on c b)) # tl (split_on c b)"
proof (induction c a rule: split_on.induct)
  case (1 c)
  then show ?case by (cases "split_on c b") auto
next
  case (2 c y s)
  then show ?case
    by (cases "split_on c s") (auto split: list.splits)
qed

lemma split_on_snoc:
  "split_on c (s @ [x]) =
     (if x = c then split_on c s @ [[]]
      else butlast (split_on c s) @ [last (split_on c s) @ [x]])"
  unfolding split_on_append_any by simp

lemma all_words_last:
  assumes "list_all (\<lambda>w. w \<noteq> [] \<and> list_all P w) (split_on c s)"
  shows "last (split_on c s) \<noteq> []" and "list_all P (last (split_on c s))"
    and "list_all (\<lambda>w. w \<noteq> [] \<and> list_all P w) (butlast (split_on c s))"
proof -
  have "last (split_on c s) \<in> set (split_on c s)" by simp
  then have "(\<lambda>w. w \<noteq> [] \<and> list_all P w) (last (split_on c s))"
    using assms unfolding list_all_iff by blast
  then show "last (split_on c s) \<noteq> []" "list_all P (last (split_on c s))" by simp_all
  show "list_all (\<lambda>w. w \<noteq> [] \<and> list_all P w) (butlast (split_on c s))"
    using assms by (auto simp: list_all_iff dest: in_set_butlastD)
qed

lemma slug_text_last: "slug_text s \<Longrightarrow> s \<noteq> [] \<Longrightarrow> slug_byte (last s)"
  by (induction rule: slug_text.induct) auto

lemma slug_text_words: "slug_text s \<Longrightarrow> s \<noteq> [] \<Longrightarrow>
   list_all (\<lambda>w. w \<noteq> [] \<and> list_all slug_byte w) (split_on (CHR ''-'') s)"
proof (induction rule: slug_text.induct)
  case slug_Nil
  then show ?case by simp
next
  case (slug_snoc s c)
  then have c: "c \<noteq> CHR ''-''" by auto
  show ?case
  proof (cases "s = []")
    case True
    with slug_snoc c show ?thesis by simp
  next
    case False
    with slug_snoc c show ?thesis
      by (auto simp: split_on_snoc list_all_iff dest: in_set_butlastD)
  qed
next
  case (slug_hyphen s c)
  then have c: "c \<noteq> CHR ''-''" by auto
  have "split_on (CHR ''-'') ((s @ [CHR ''-'']) @ [c]) = split_on (CHR ''-'') s @ [[c]]"
    using c by (simp only: split_on_snoc if_True if_False) simp
  with slug_hyphen show ?case by (simp add: list_all_iff)
qed

lemma words_slug_text:
  assumes "list_all (\<lambda>w. w \<noteq> [] \<and> list_all slug_byte w) (butlast (split_on (CHR ''-'') s))"
    and "list_all slug_byte (last (split_on (CHR ''-'') s))"
  shows "slug_text (trim_right (CHR ''-'') s) \<and>
    (last (split_on (CHR ''-'') s) \<noteq> [] \<longrightarrow> slug_text s) \<and>
    (last (split_on (CHR ''-'') s) = [] \<longrightarrow> s \<noteq> [] \<longrightarrow>
       (\<exists>t. s = t @ [CHR ''-''] \<and> t \<noteq> [] \<and> slug_text t))"
  using assms
proof (induction s rule: rev_induct)
  case Nil
  then show ?case by (auto simp: trim_right_def)
next
  case (snoc x s)
  show ?case
  proof (cases "x = CHR ''-''")
    case True
    then have ws: "list_all (\<lambda>w. w \<noteq> [] \<and> list_all slug_byte w) (split_on (CHR ''-'') s)"
      using snoc.prems by (simp add: split_on_snoc)
    note l = all_words_last [OF ws]
    have ih: "slug_text (trim_right (CHR ''-'') s)" "slug_text s"
      using snoc.IH l by blast+
    have ne: "s \<noteq> []" using l by auto
    show ?thesis using ih ne True by (simp add: trim_right_def split_on_snoc)
  next
    case False
    have b: "slug_byte x" and l: "list_all slug_byte (last (split_on (CHR ''-'') s))"
      and bl: "list_all (\<lambda>w. w \<noteq> [] \<and> list_all slug_byte w) (butlast (split_on (CHR ''-'') s))"
      using snoc.prems False by (auto simp: split_on_snoc)
    note ih = snoc.IH [OF bl l]
    have "slug_text (s @ [x])"
    proof (cases "last (split_on (CHR ''-'') s) = []")
      case True
      show ?thesis
      proof (cases "s = []")
        case True
        then show ?thesis using b slug_Nil slug_snoc by fastforce
      next
        case False
        with True ih obtain t where "s = t @ [CHR ''-'']" "t \<noteq> []" "slug_text t" by blast
        then show ?thesis using b slug_hyphen by simp
      qed
    next
      case False
      with ih b show ?thesis by blast
    qed
    then show ?thesis using False by (simp add: trim_right_def split_on_snoc)
  qed
qed

theorem slug_re_iff: "slug_re s \<longleftrightarrow> slug_text s"
proof
  assume s: "slug_re s"
  show "slug_text s"
  proof (cases "s = []")
    case False
    then have "list_all (\<lambda>w. w \<noteq> [] \<and> list_all slug_byte w) (split_on (CHR ''-'') s)"
      using s by (simp add: slug_re_def)
    note l = all_words_last [OF this]
    show ?thesis using words_slug_text [OF l(3,2)] l(1) by blast
  qed auto
qed (auto simp: slug_re_def dest: slug_text_words)

text \<open>A cut slug, its trailing hyphens trimmed, is a slug.\<close>

lemma slug_take:
  assumes "slug_text s"
  shows "slug_text (trim_right (CHR ''-'') (take n s))"
proof (cases "s = []")
  case False
  let ?h = "CHR ''-''"
  have "list_all (\<lambda>w. w \<noteq> [] \<and> list_all slug_byte w) (split_on ?h (take n s @ drop n s))"
    using assms False by (simp add: slug_text_words)
  then have "list_all (\<lambda>w. w \<noteq> [] \<and> list_all slug_byte w) (butlast (split_on ?h (take n s)))"
    "list_all slug_byte (last (split_on ?h (take n s)))"
    unfolding split_on_append_any by simp_all
  then show ?thesis using words_slug_text by blast
qed (auto simp: trim_right_def)

lemma trim_right_slug: "slug_text s \<Longrightarrow> trim_right (CHR ''-'') s = s"
  using slug_text_last [of s] by (cases s rule: rev_cases) (auto simp: trim_right_def)

lemma trim_right_length: "length (trim_right c s) \<le> length s"
  by (metis length_dropWhile_le length_rev trim_right_def)

lemma last_index_le: "last_index c s = Some n \<Longrightarrow> n < length s"
proof -
  assume "last_index c s = Some n"
  then obtain a b where "str_cut c (rev s) = (a, Some b)" "n = length b"
    by (auto simp: last_index_def split: prod.splits option.splits)
  then have "rev s = a @ c # b" by (simp add: str_cut_Some_iff)
  then have "length (rev s) = length a + 1 + length b" by simp
  then show "n < length s" using \<open>n = length b\<close> by simp
qed

lemma cut_slug_take: "\<exists>n. cut_slug s = take n s"
proof (cases "length s \<le> max_slug")
  case True
  then have "cut_slug s = take (length s) s" by (simp add: cut_slug_def)
  then show ?thesis by blast
next
  case False
  then show ?thesis by (auto simp: cut_slug_def split: option.splits)
qed

lemma cut_slug_length: "length (cut_slug s) \<le> max_slug"
proof (cases "last_index (CHR ''-'') (take (max_slug + 1) s)")
  case None
  then show ?thesis by (simp add: cut_slug_def)
next
  case (Some n)
  then have "n < length (take (max_slug + 1) s)" by (rule last_index_le)
  then have "n \<le> max_slug" by simp
  then show ?thesis using Some by (simp add: cut_slug_def)
qed

lemma emit_slug: "slug_text (fst st) \<Longrightarrow> slug_byte c \<Longrightarrow> slug_text (fst (emit c st))"
  unfolding emit_def by (cases "snd st \<and> fst st \<noteq> []") auto

lemma fold_emit_slug:
  "list_all slug_byte cs \<Longrightarrow> slug_text (fst st) \<Longrightarrow> slug_text (fst (fold emit cs st))"
  by (induction cs arbitrary: st) (auto simp: emit_slug)

lemma folds_slug: "list_all slug_byte (folds r)"
  by (simp add: folds_def slug_byte_def byte_classes less_eq_char_def)

lemma slug_byte_code:
  assumes "97 \<le> r \<and> r \<le> 122 \<or> 48 \<le> r \<and> r \<le> (57 :: nat)"
  shows "slug_byte (char_of r)"
  using assms by (auto simp: slug_byte_def byte_classes less_eq_char_def)

lemma slug_rune_slug: "slug_text (fst st) \<Longrightarrow> slug_text (fst (slug_rune is_mn lower r st))"
  by (auto simp: slug_rune_def Let_def fold_emit_slug folds_slug emit_slug slug_byte_code)

lemma slugify_raw_slug:
  "slug_text (fst st) \<Longrightarrow> slug_text (fst (fold (slug_rune is_mn lower) rs st))"
  by (induction rs arbitrary: st) (auto simp: slug_rune_slug)

text \<open>What the Unicode tables say of ASCII: NFKD leaves it alone, no byte is a mark, and only
  the letters A to Z have another lower case.\<close>

definition unicode_ascii :: "(string \<Rightarrow> nat list) \<Rightarrow> (nat \<Rightarrow> bool) \<Rightarrow> (nat \<Rightarrow> nat) \<Rightarrow> bool" where
  "unicode_ascii nfkd is_mn lower \<longleftrightarrow>
     (\<forall>s. list_all is_ascii s \<longrightarrow> nfkd s = map of_char s) \<and>
     (\<forall>r < 128. \<not> is_mn r \<and> lower r = (if 65 \<le> r \<and> r \<le> 90 then r + 32 else r))"

lemma slug_byte_range:
  "slug_byte c \<longleftrightarrow> 97 \<le> (of_char c :: nat) \<and> (of_char c :: nat) \<le> 122 \<or>
     48 \<le> (of_char c :: nat) \<and> (of_char c :: nat) \<le> 57"
  by (simp add: slug_byte_def byte_classes less_eq_char_def)

lemma slug_text_ascii: "slug_text s \<Longrightarrow> list_all is_ascii s"
  by (induction rule: slug_text.induct) (auto simp: is_ascii_def slug_byte_range)

lemma slug_rune_byte:
  assumes "unicode_ascii nfkd is_mn lower" and "slug_byte c"
  shows "slug_rune is_mn lower (of_char c) st = emit c st"
proof -
  have r: "(of_char c :: nat) < 128" using assms(2) by (auto simp: slug_byte_range)
  have "folds (of_char c) = []" "(of_char c :: nat) \<notin> set apostrophes"
    using assms(2) by (auto simp: folds_def apostrophes_def slug_byte_range)
  then show ?thesis
    using assms r by (auto simp: slug_rune_def unicode_ascii_def slug_byte_range)
qed

lemma slug_rune_hyphen:
  assumes "unicode_ascii nfkd is_mn lower"
  shows "slug_rune is_mn lower 45 st = (fst st, True)"
  using assms by (auto simp: slug_rune_def unicode_ascii_def folds_def apostrophes_def)

lemma slugify_raw_id:
  assumes u: "unicode_ascii nfkd is_mn lower" and "slug_text s"
  shows "fold (slug_rune is_mn lower) (map of_char s) ([], False) = (s, False)"
  using assms(2)
proof (induction rule: slug_text.induct)
  case (slug_snoc s c)
  then show ?case by (simp add: slug_rune_byte [OF u] emit_def)
next
  case (slug_hyphen s c)
  then show ?case by (simp add: slug_rune_byte [OF u] slug_rune_hyphen [OF u] emit_def)
qed simp

lemma slugify_valid: "valid_slug (slugify nfkd is_mn lower t)"
proof -
  let ?out = "fst (fold (slug_rune is_mn lower) (nfkd t) ([], False))"
  have "slug_text ?out" by (rule slugify_raw_slug) auto
  then have "slug_text (trim_right (CHR ''-'') (cut_slug ?out))"
    using cut_slug_take [of ?out] by (auto simp: slug_take)
  moreover have "length (trim_right (CHR ''-'') (cut_slug ?out)) \<le> max_slug"
    using trim_right_length [of "CHR ''-''" "cut_slug ?out"] cut_slug_length [of ?out] by simp
  ultimately show ?thesis by (simp add: valid_slug_def slugify_def slug_re_iff)
qed

lemma slugify_id:
  assumes "unicode_ascii nfkd is_mn lower" and "valid_slug s"
  shows "slugify nfkd is_mn lower s = s"
proof -
  have s: "slug_text s" "length s \<le> max_slug" using assms(2) by (simp_all add: valid_slug_def slug_re_iff)
  then have "nfkd s = map of_char s" using assms(1) by (simp add: unicode_ascii_def slug_text_ascii)
  then show ?thesis
    using s by (simp add: slugify_def slugify_raw_id [OF assms(1)] cut_slug_def trim_right_slug)
qed

text \<open>
  C12: \<open>ValidSlug\<close> accepts exactly the slugs \<open>Slugify\<close> produces, and making a slug of a slug
  changes nothing.
\<close>

theorem valid_slug_iff_slugify:
  assumes "unicode_ascii nfkd is_mn lower"
  shows "(valid_slug s \<longleftrightarrow> (\<exists>t. s = slugify nfkd is_mn lower t)) \<and>
    slugify nfkd is_mn lower (slugify nfkd is_mn lower t) = slugify nfkd is_mn lower t"
  using slugify_valid slugify_id [OF assms] by metis

definition ascii_lower :: "nat \<Rightarrow> nat" where
  "ascii_lower r = (if 65 \<le> r \<and> r \<le> 90 then r + 32 else r)"

theorem valid_slug_iff_slugify_witness:
  "slugify (map of_char) (\<lambda>_. False) ascii_lower ''Ab c'' = ''ab-c'' \<and>
   (\<exists>t. ''its-over-9000'' = slugify (map of_char) (\<lambda>_. False) ascii_lower t) \<and>
   (\<nexists>t. ''its--over'' = slugify (map of_char) (\<lambda>_. False) ascii_lower t)"
proof -
  have u: "unicode_ascii (map of_char) (\<lambda>_. False) ascii_lower"
    by (simp add: unicode_ascii_def ascii_lower_def)
  have "slugify (map of_char) (\<lambda>_. False) ascii_lower ''Ab c'' = ''ab-c''"
    by (simp add: slugify_def slug_rune_def apostrophes_def folds_def ascii_lower_def emit_def
        cut_slug_def max_slug_def trim_right_def char_of_def bit_0)
  moreover have "valid_slug ''its-over-9000''" "\<not> valid_slug ''its--over''" by code_simp+
  ultimately show ?thesis
    using valid_slug_iff_slugify [OF u] by blast
qed

section \<open>Codes\<close>

definition no_hyphens :: "string \<Rightarrow> string" where
  "no_hyphens s = filter (\<lambda>c. c \<noteq> CHR ''-'') s"

definition code_text :: "nat \<Rightarrow> string \<Rightarrow> bool" where
  "code_text n c \<longleftrightarrow> length c = n \<and> list_all (\<lambda>x. x \<in> set alphabet) c \<and> list_ex is_upper c"

lemma read_crockford_spec:
  assumes "length b \<le> n" and "list_all (\<lambda>x. x \<in> set alphabet) b"
  shows "read_crockford n b s =
    (let t = b @ map crockford (no_hyphens s) in if code_text n t then Some t else None)"
  using assms
proof (induction n b s rule: read_crockford.induct)
  case (1 n b)
  then show ?case by (simp add: code_text_def no_hyphens_def)
next
  case (2 n b c s)
  then show ?case
    by (auto simp: code_text_def no_hyphens_def Let_def not_less_eq_eq list_all_iff)
qed

lemma parse_crockford_spec:
  "parse_crockford s n =
     (if code_text n (map crockford (no_hyphens s)) then Some (map crockford (no_hyphens s)) else None)"
  by (simp add: parse_crockford_def read_crockford_spec Let_def)

lemma alphabet_fixed: "x \<in> set alphabet \<Longrightarrow> crockford x = x \<and> x \<noteq> CHR ''-''"
proof -
  have "list_all (\<lambda>x. crockford x = x \<and> x \<noteq> CHR ''-'') alphabet" by code_simp
  then show "x \<in> set alphabet \<Longrightarrow> crockford x = x \<and> x \<noteq> CHR ''-''"
    by (simp add: list_all_iff)
qed

lemma code_text_fixed: "code_text n c \<Longrightarrow> map crockford (no_hyphens c) = c"
proof -
  assume "code_text n c"
  then have c: "\<forall>x \<in> set c. x \<in> set alphabet" by (simp add: code_text_def list_all_iff)
  then have "no_hyphens c = c" using alphabet_fixed by (auto simp: no_hyphens_def filter_id_conv)
  then show ?thesis using c alphabet_fixed by (simp add: map_idI)
qed

lemma valid_code_text: "valid_code c \<longleftrightarrow> code_text code_length c"
  by (simp add: valid_code_def code_text_def code_length_def)

lemma parse_crockford_text: "code_text n c \<Longrightarrow> parse_crockford c n = Some c"
  by (simp add: parse_crockford_spec code_text_fixed)

lemma parse_crockford_valid: "parse_crockford s n = Some c \<Longrightarrow> code_text n c"
  by (auto simp: parse_crockford_spec split: if_splits)

text \<open>Codes and version codes are read as texts whose canonical form is the code itself.\<close>

interpretation code_format: text_format "\<lambda>c. c" parse_code valid_code
  by unfold_locales
     (simp_all add: parse_code_def valid_code_text parse_crockford_text parse_crockford_valid)

interpretation version_code_format: text_format "\<lambda>c. c" parse_version_code "code_text version_code_length"
  by unfold_locales
     (simp_all add: parse_version_code_def parse_crockford_text parse_crockford_valid)

lemma canonical_iff_valid: "canonical_code c \<longleftrightarrow> valid_code c"
  using code_format.parse_render code_format.parse_valid by (auto simp: canonical_code_def)

text \<open>Crockford's reading ignores the letter case.\<close>

lemma of_char_of_small: "n < 256 \<Longrightarrow> of_char (char_of n) = (n :: nat)"
  by simp

lemma crockford_lower_byte: "crockford (lower_byte x) = crockford x"
proof (cases "is_upper x")
  case True
  then have x: "65 \<le> (of_char x :: nat)" "(of_char x :: nat) \<le> 90"
    by (simp_all add: is_upper_def less_eq_char_def)
  then have l: "of_char (lower_byte x) = (of_char x + 32 :: nat)"
    using True by (simp add: lower_byte_def of_char_of_small del: of_char_of)
  then have low: "is_lower (lower_byte x)" "\<not> is_lower x"
    using x by (simp_all add: is_lower_def less_eq_char_def)
  have "char_of (of_char (lower_byte x) - 32 :: nat) = x" unfolding l by simp
  then show ?thesis using low by (simp add: crockford_def)
qed (simp add: lower_byte_def)

lemma lower_byte_hyphen: "lower_byte x = CHR ''-'' \<longleftrightarrow> x = CHR ''-''"
proof (cases "is_upper x")
  case True
  then have x: "65 \<le> (of_char x :: nat)" "(of_char x :: nat) \<le> 90"
    by (simp_all add: is_upper_def less_eq_char_def)
  then have "of_char (lower_byte x) = (of_char x + 32 :: nat)"
    using True by (simp add: lower_byte_def of_char_of_small del: of_char_of)
  then have "(of_char (lower_byte x) :: nat) \<noteq> of_char (CHR ''-'')" "x \<noteq> CHR ''-''"
    using x by auto
  then show ?thesis by metis
qed (simp add: lower_byte_def)

lemma read_form_lower:
  "map crockford (no_hyphens (map lower_byte s)) = map crockford (no_hyphens s)"
  by (induction s) (simp_all add: no_hyphens_def crockford_lower_byte lower_byte_hyphen)

text \<open>
  a text is read as a code exactly when its characters without hyphens, decoded one by
  one, are nine of the alphabet with a letter among them; the code read is canonical, and
  neither hyphens nor letter case change what is read.
\<close>

theorem parse_code_exact:
  "(parse_code s = Some c \<longleftrightarrow> c = map crockford (no_hyphens s) \<and> valid_code c) \<and>
   (parse_code c = Some c \<longleftrightarrow> valid_code c) \<and>
   parse_code (no_hyphens s) = parse_code s \<and> parse_code (map lower_byte s) = parse_code s"
proof -
  have "parse_code s = Some c \<longleftrightarrow> c = map crockford (no_hyphens s) \<and> valid_code c"
    by (auto simp: parse_code_def parse_crockford_spec valid_code_text)
  moreover have "parse_code (no_hyphens s) = parse_code s"
    by (simp add: parse_code_def parse_crockford_spec) (simp add: no_hyphens_def)
  moreover have "parse_code (map lower_byte s) = parse_code s"
    by (simp add: parse_code_def parse_crockford_spec read_form_lower)
  ultimately show ?thesis
    using code_format.parse_render code_format.parse_valid by blast
qed

end
