(* ===== verification/Registry_Props.thy ===== *)
theory Registry_Props
  imports Slug_Props
begin

text \<open>
  The registry of codes as a state machine: \<open>Put\<close>, \<open>Reserve\<close> and \<open>Merge\<close> keep it a
  one-hop redirect net with unique codes, no operation changes the code of content, and
  \<open>Resolve\<close> follows merges to the survivor.
\<close>

section \<open>Rows\<close>

lemma find_key_iff:
  assumes "distinct (map f xs)"
  shows "List.find (\<lambda>r. f r = k) xs = Some r \<longleftrightarrow> r \<in> set xs \<and> f r = k"
  using assms by (induction xs) auto

definition registry_ok :: "registry \<Rightarrow> bool" where
  "registry_ok reg \<longleftrightarrow> distinct (map cr_key reg) \<and> distinct (map cr_code reg) \<and>
     (\<forall>r \<in> set reg. valid_code (cr_code r) \<and>
        (cr_merged r \<noteq> [] \<longrightarrow> (\<exists>t \<in> set reg. cr_code t = cr_merged r \<and> cr_merged t = [])))"

lemma row_of_key_Some:
  "registry_ok reg \<Longrightarrow> row_of_key reg k = Some r \<longleftrightarrow> r \<in> set reg \<and> cr_key r = k"
  by (simp add: registry_ok_def row_of_key_def find_key_iff)

lemma row_of_code_Some:
  "registry_ok reg \<Longrightarrow> row_of_code reg c = Some r \<longleftrightarrow> r \<in> set reg \<and> cr_code r = c"
  by (simp add: registry_ok_def row_of_code_def find_key_iff)

lemma row_of_key_None: "row_of_key reg k = None \<longleftrightarrow> k \<notin> cr_key ` set reg"
  by (auto simp: row_of_key_def find_None_iff)

lemma row_of_code_None: "row_of_code reg c = None \<longleftrightarrow> c \<notin> cr_code ` set reg"
  by (auto simp: row_of_code_def find_None_iff)

lemma valid_code_ne: "valid_code c \<Longrightarrow> c \<noteq> []"
  by (auto simp: valid_code_def)

lemma row_of_key_in: "row_of_key reg k = Some r \<Longrightarrow> r \<in> set reg \<and> cr_key r = k"
  by (auto simp: row_of_key_def find_Some_iff)

lemma row_of_code_in: "row_of_code reg c = Some r \<Longrightarrow> r \<in> set reg \<and> cr_code r = c"
  by (auto simp: row_of_code_def find_Some_iff)

text \<open>What identifies a row: its content, its code and where it redirects.\<close>

definition row_core :: "code_row \<Rightarrow> content_id \<times> string \<times> string" where
  "row_core r = (cr_key r, cr_code r, cr_merged r)"

lemma registry_ok_core:
  assumes "registry_ok a" and c: "map row_core b = map row_core a"
  shows "registry_ok b"
proof -
  have k: "map cr_key b = map cr_key a" and d: "map cr_code b = map cr_code a"
    using arg_cong [OF c, of "map fst"] arg_cong [OF c, of "map (fst \<circ> snd)"]
    by (simp_all add: row_core_def comp_def)
  have s: "row_core ` set b = row_core ` set a" using arg_cong [OF c, of set] by simp
  have "valid_code (cr_code r) \<and>
      (cr_merged r \<noteq> [] \<longrightarrow> (\<exists>t \<in> set b. cr_code t = cr_merged r \<and> cr_merged t = []))"
    if "r \<in> set b" for r
  proof -
    have "row_core r \<in> row_core ` set a" using s that by blast
    then obtain x where x: "x \<in> set a" "row_core x = row_core r" by force
    then have e: "cr_code x = cr_code r" "cr_merged x = cr_merged r" by (simp_all add: row_core_def)
    have "\<exists>t \<in> set b. cr_code t = cr_merged r \<and> cr_merged t = []"
      if "t \<in> set a" "cr_code t = cr_merged r" "cr_merged t = []" for t
    proof -
      have "row_core t \<in> row_core ` set b" using s \<open>t \<in> set a\<close> by blast
      then obtain u where "u \<in> set b" "row_core u = row_core t" by force
      then show ?thesis using that by (auto simp: row_core_def)
    qed
    then show ?thesis using assms(1) x(1) e by (auto simp: registry_ok_def)
  qed
  then show ?thesis using assms(1) k d by (simp add: registry_ok_def)
qed

lemma registry_ok_append:
  assumes "registry_ok reg" and "cr_key r \<notin> cr_key ` set reg" and "cr_code r \<notin> cr_code ` set reg"
    and "valid_code (cr_code r)" and "cr_merged r = []"
  shows "registry_ok (reg @ [r])"
  using assms by (auto simp: registry_ok_def)

text \<open>Growth: every row keeps its content, code and redirect; new rows do not redirect.\<close>

definition grows :: "registry \<Rightarrow> registry \<Rightarrow> bool" where
  "grows reg reg' \<longleftrightarrow> (\<exists>ext. map row_core reg' = map row_core reg @ ext \<and>
     list_all (\<lambda>x. snd (snd x) = []) ext)"

lemma grows_refl [simp, intro]: "grows reg reg"
  by (simp add: grows_def)

lemma grows_trans: "grows a b \<Longrightarrow> grows b c \<Longrightarrow> grows a c"
  by (fastforce simp: grows_def)

lemma grows_same: "map row_core b = map row_core a \<Longrightarrow> grows a b"
  by (simp add: grows_def)

lemma grows_append: "cr_merged r = [] \<Longrightarrow> grows reg (reg @ [r])"
  by (simp add: grows_def row_core_def)

lemma grows_row:
  assumes "grows reg reg'" and "r \<in> set reg"
  shows "\<exists>r' \<in> set reg'. cr_key r' = cr_key r \<and> cr_code r' = cr_code r \<and> cr_merged r' = cr_merged r"
proof -
  obtain ext where "map row_core reg' = map row_core reg @ ext" using assms(1) by (auto simp: grows_def)
  from arg_cong [OF this, of set] have "row_core r \<in> row_core ` set reg'" using assms(2) by auto
  then show ?thesis by (auto simp: row_core_def)
qed

lemma grows_key:
  assumes "grows reg reg'" and "registry_ok reg" and "registry_ok reg'" and "row_of_key reg k = Some r"
  obtains r' where "row_of_key reg' k = Some r'" "cr_code r' = cr_code r" "cr_merged r' = cr_merged r"
  using grows_row [OF assms(1), of r] assms by (auto simp: row_of_key_Some)

section \<open>Put\<close>

definition stored :: "code_entry \<Rightarrow> code_row \<Rightarrow> bool" where
  "stored e r \<longleftrightarrow> cr_key r = ce_key e \<and> cr_slug r = ce_slug e \<and>
     (case ce_slugs e of None \<Rightarrow> True | Some ss \<Rightarrow> cr_slugs r = ss)"

lemma update_row_core [simp]:
  "cr_key (update_row e r) = cr_key r" "cr_code (update_row e r) = cr_code r"
  "cr_merged (update_row e r) = cr_merged r"
  by (simp_all add: update_row_def)

lemma insert_row_core [simp]:
  "cr_key (insert_row e c) = ce_key e" "cr_code (insert_row e c) = c" "cr_merged (insert_row e c) = []"
  by (simp_all add: insert_row_def)

lemma stored_rows:
  "cr_key r = ce_key e \<Longrightarrow> stored e (update_row e r)" "stored e (insert_row e c)"
  by (simp_all add: stored_def update_row_def insert_row_def split: option.splits)

abbreviation update_rows :: "code_entry \<Rightarrow> registry \<Rightarrow> registry" where
  "update_rows e reg \<equiv> map (\<lambda>x. if cr_key x = ce_key e then update_row e x else x) reg"

lemma update_rows_core [simp]: "map row_core (update_rows e reg) = map row_core reg"
  by (simp add: row_core_def)

lemma find_map: "List.find P (map f xs) = map_option f (List.find (P \<circ> f) xs)"
  by (induction xs) auto

lemma update_rows_key:
  "row_of_key (update_rows e reg) k =
     map_option (\<lambda>x. if cr_key x = ce_key e then update_row e x else x) (row_of_key reg k)"
proof -
  have "((\<lambda>r. cr_key r = k) \<circ> (\<lambda>x. if cr_key x = ce_key e then update_row e x else x)) =
      (\<lambda>r. cr_key r = k)" by (simp add: fun_eq_iff)
  then show ?thesis unfolding row_of_key_def find_map by simp
qed

lemma find_append: "List.find P (xs @ ys) =
    (case List.find P xs of None \<Rightarrow> List.find P ys | Some x \<Rightarrow> Some x)"
  by (induction xs) auto

lemma insert_row_key:
  "row_of_key (reg @ [r]) k =
     (case row_of_key reg k of Some x \<Rightarrow> Some x | None \<Rightarrow> if cr_key r = k then Some r else None)"
  by (simp add: row_of_key_def find_append split: option.splits)

lemma update_rows_other:
  "k \<noteq> ce_key e \<Longrightarrow> row_of_key (update_rows e reg) k = row_of_key reg k"
  unfolding update_rows_key by (cases "row_of_key reg k") (auto dest: row_of_key_in)

lemma insert_row_other: "k \<noteq> cr_key r \<Longrightarrow> row_of_key (reg @ [r]) k = row_of_key reg k"
  by (simp add: insert_row_key split: option.splits)

text \<open>The three ways one entry of a batch goes.\<close>

lemma put_batch_Cons:
  assumes "put_batch gen n (e # es) reg = (reg', n', got)"
  obtains (update) r got' where "row_of_key reg (ce_key e) = Some r" "got = (ce_key e, cr_code r) # got'"
      "put_batch gen n es (update_rows e reg) = (reg', n', got')"
  | (clash) "row_of_key reg (ce_key e) = None" "row_of_code reg (gen n) \<noteq> None"
      "put_batch gen (Suc n) es reg = (reg', n', got)"
  | (insert) got' where "row_of_key reg (ce_key e) = None" "row_of_code reg (gen n) = None"
      "got = (ce_key e, gen n) # got'"
      "put_batch gen (Suc n) es (reg @ [insert_row e (gen n)]) = (reg', n', got')"
  using assms by (auto split: option.splits prod.splits if_splits)

lemma put_batch_other:
  "put_batch gen n es reg = (reg', n', got) \<Longrightarrow> k \<notin> ce_key ` set es \<Longrightarrow>
   row_of_key reg' k = row_of_key reg k \<and> k \<notin> fst ` set got"
proof (induction es arbitrary: n reg reg' n' got)
  case (Cons e es)
  from Cons.prems(1) show ?case
  proof (cases rule: put_batch_Cons)
    case (update r got')
    then show ?thesis using Cons.IH [OF update(3)] Cons.prems(2) by (simp add: update_rows_other)
  next
    case clash
    then show ?thesis using Cons.IH [OF clash(3)] Cons.prems(2) by simp
  next
    case (insert got')
    then show ?thesis using Cons.IH [OF insert(4)] Cons.prems(2) by (simp add: insert_row_other)
  qed
qed simp

lemma put_batch_ok:
  assumes "\<And>n. valid_code (gen n)"
  shows "put_batch gen n es reg = (reg', n', got) \<Longrightarrow> registry_ok reg \<Longrightarrow>
    registry_ok reg' \<and> grows reg reg'"
proof (induction es arbitrary: n reg reg' n' got)
  case (Cons e es)
  from Cons.prems(1) show ?case
  proof (cases rule: put_batch_Cons)
    case (update r got')
    have "registry_ok (update_rows e reg)"
      by (rule registry_ok_core [OF Cons.prems(2) update_rows_core])
    moreover have "grows reg (update_rows e reg)" by (rule grows_same [OF update_rows_core])
    ultimately show ?thesis using Cons.IH [OF update(3)] by (blast intro: grows_trans)
  next
    case clash
    then show ?thesis using Cons.IH Cons.prems(2) by blast
  next
    case (insert got')
    have "registry_ok (reg @ [insert_row e (gen n)])"
      by (rule registry_ok_append)
         (use insert Cons.prems(2) assms in \<open>simp_all add: row_of_key_None row_of_code_None\<close>)
    moreover have "grows reg (reg @ [insert_row e (gen n)])" by (rule grows_append) simp
    ultimately show ?thesis using Cons.IH [OF insert(4)] by (blast intro: grows_trans)
  qed
qed simp

text \<open>What a batch answers is stored; what it does not answer has no row.\<close>

lemma put_batch_stored:
  "put_batch gen n es reg = (reg', n', got) \<Longrightarrow> distinct (map ce_key es) \<Longrightarrow> e \<in> set es \<Longrightarrow>
   (case map_of got (ce_key e) of
      Some c \<Rightarrow> \<exists>r. row_of_key reg' (ce_key e) = Some r \<and> stored e r \<and> cr_code r = c
    | None \<Rightarrow> row_of_key reg' (ce_key e) = None)"
proof (induction es arbitrary: n reg reg' n' got)
  case (Cons e1 es)
  have other: "e \<noteq> e1 \<Longrightarrow> e \<in> set es \<and> ce_key e1 \<noteq> ce_key e \<and> ce_key e \<noteq> ce_key e1"
    using Cons.prems(2,3) by (auto simp: image_iff)
  have out: "ce_key e1 \<notin> ce_key ` set es" and d: "distinct (map ce_key es)"
    using Cons.prems(2) by auto
  from Cons.prems(1) show ?case
  proof (cases rule: put_batch_Cons)
    case (update r got')
    show ?thesis
    proof (cases "e = e1")
      case True
      have "row_of_key reg' (ce_key e) = Some (update_row e r)"
        using put_batch_other [OF update(3) out] update(1) True
        by (auto simp: update_rows_key dest: row_of_key_in)
      then show ?thesis using update True by (auto dest: row_of_key_in simp: stored_rows)
    next
      case False
      then show ?thesis using Cons.IH [OF update(3) d] other update(2) by simp
    qed
  next
    case clash
    show ?thesis
    proof (cases "e = e1")
      case True
      have "ce_key e \<notin> fst ` set got" "row_of_key reg' (ce_key e) = None"
        using put_batch_other [OF clash(3) out] clash(1) True by simp_all
      then show ?thesis by (simp add: map_of_eq_None_iff [THEN iffD2])
    next
      case False
      then show ?thesis using Cons.IH [OF clash(3) d] other by simp
    qed
  next
    case (insert got')
    show ?thesis
    proof (cases "e = e1")
      case True
      have "row_of_key reg' (ce_key e) = Some (insert_row e (gen n))"
        using put_batch_other [OF insert(4) out] insert(1) True by (simp add: insert_row_key)
      then show ?thesis using insert True by (simp add: stored_rows)
    next
      case False
      then show ?thesis using Cons.IH [OF insert(4) d] other insert(3) by simp
    qed
  qed
qed simp

text \<open>Pending entries are named by their own keys, once each.\<close>

definition pending_ok :: "(content_id \<times> code_entry) list \<Rightarrow> bool" where
  "pending_ok p \<longleftrightarrow> distinct (map fst p) \<and> (\<forall>ke \<in> set p. fst ke = ce_key (snd ke))"

lemma pending_keys: "pending_ok p \<Longrightarrow> map ce_key (map snd p) = map fst p"
  by (auto simp: pending_ok_def)

lemma pending_Nil: "pending_ok []"
  by (simp add: pending_ok_def)

lemma pending_filter: "pending_ok p \<Longrightarrow> pending_ok (filter Q p)"
  by (auto simp: pending_ok_def distinct_map_filter)

lemma put_loop_ok:
  assumes "\<And>n. valid_code (gen n)"
  shows "put_loop fuel gen n p reg out = Inr (reg', out') \<Longrightarrow> pending_ok p \<Longrightarrow> registry_ok reg \<Longrightarrow>
    registry_ok reg' \<and> grows reg reg' \<and>
    (\<forall>k. k \<notin> fst ` set p \<longrightarrow> row_of_key reg' k = row_of_key reg k \<and> map_of out' k = map_of out k) \<and>
    (\<forall>ke \<in> set p. \<exists>r. row_of_key reg' (fst ke) = Some r \<and> stored (snd ke) r \<and>
       map_of out' (fst ke) = Some (cr_code r))"
proof (induction fuel arbitrary: n p reg out)
  case 0
  then show ?case by (auto split: if_splits)
next
  case (Suc fuel)
  show ?case
  proof (cases "p = []")
    case True
    with Suc.prems show ?thesis by simp
  next
    case False
    obtain reg1 n1 got where b: "put_batch gen n (map snd p) reg = (reg1, n1, got)"
      by (metis prod_cases3)
    let ?q = "filter (\<lambda>ke. fst ke \<notin> set (map fst got)) p"
    have run: "put_loop fuel gen n1 ?q reg1 (got @ out) = Inr (reg', out')"
      using Suc.prems(1) False b by simp
    have q: "pending_ok ?q" by (rule pending_filter [OF Suc.prems(2)])
    have ok1: "registry_ok reg1" and g1: "grows reg reg1"
      using put_batch_ok [OF assms b Suc.prems(3)] by simp_all
    note ih = Suc.IH [OF run q ok1]
    have keys: "ce_key ` set (map snd p) = fst ` set p"
      using arg_cong [OF pending_keys [OF Suc.prems(2)], of set] by (simp add: image_image)
    have d: "distinct (map ce_key (map snd p))"
      using Suc.prems(2) by (simp only: pending_keys) (simp add: pending_ok_def)
    have other: "row_of_key reg' k = row_of_key reg k \<and> map_of out' k = map_of out k"
      if "k \<notin> fst ` set p" for k
    proof -
      have "k \<notin> fst ` set ?q" using that by auto
      then have "row_of_key reg' k = row_of_key reg1 k \<and> map_of out' k = map_of (got @ out) k"
        using ih by blast
      moreover have "row_of_key reg1 k = row_of_key reg k \<and> k \<notin> fst ` set got"
        using put_batch_other [OF b] that keys by simp
      ultimately show ?thesis by (simp add: map_add_def map_of_eq_None_iff [THEN iffD2])
    qed
    have all: "\<exists>r. row_of_key reg' (fst ke) = Some r \<and> stored (snd ke) r \<and>
        map_of out' (fst ke) = Some (cr_code r)" if ke: "ke \<in> set p" for ke
    proof (cases "fst ke \<in> set (map fst got)")
      case False
      then have "ke \<in> set ?q" using ke by simp
      then show ?thesis using ih by blast
    next
      case True
      have k: "fst ke = ce_key (snd ke)" using Suc.prems(2) ke by (simp add: pending_ok_def)
      have nq: "fst ke \<notin> fst ` set ?q" using True by force
      then have o: "row_of_key reg' (fst ke) = row_of_key reg1 (fst ke)"
        "map_of out' (fst ke) = map_of (got @ out) (fst ke)" using ih by blast+
      obtain c where c: "map_of got (fst ke) = Some c"
        using True by (metis map_of_eq_None_iff not_None_eq set_map)
      have "snd ke \<in> set (map snd p)" using ke by simp
      from put_batch_stored [OF b d this] c k
      obtain r where "row_of_key reg1 (fst ke) = Some r" "stored (snd ke) r" "cr_code r = c" by auto
      then show ?thesis using o c by (simp add: map_add_def)
    qed
    have "grows reg reg'" using ih g1 grows_trans by blast
    then show ?thesis using ih other all by blast
  qed
qed

text \<open>The checks of \<open>Put\<close> leave one pending entry per content.\<close>

lemma check_entry_pending:
  assumes "check_entry uni e p = Inr p'" and "pending_ok p"
  shows "pending_ok p' \<and> fst ` set p' = insert (ce_key e) (fst ` set p) \<and>
    (\<exists>ss. map_of p' (ce_key e) = Some (e\<lparr>ce_slugs := ss\<rparr>)) \<and>
    (\<forall>k. k \<noteq> ce_key e \<longrightarrow> map_of p' k = map_of p k)"
proof -
  obtain ss where p': "p' = AList.update (ce_key e) (e\<lparr>ce_slugs := ss\<rparr>) p"
    using assms(1)
    by (auto simp: check_entry_def bindr_Inr_iff split: prod.splits if_splits option.splits)
  have d: "distinct (map fst p')" using assms(2) p' by (simp add: pending_ok_def distinct_update)
  moreover have "\<forall>ke \<in> set p'. fst ke = ce_key (snd ke)"
  proof
    fix ke assume "ke \<in> set p'"
    then have m: "map_of p' (fst ke) = Some (snd ke)" using d by simp
    show "fst ke = ce_key (snd ke)"
    proof (cases "fst ke = ce_key e")
      case True
      then have "snd ke = e\<lparr>ce_slugs := ss\<rparr>" using m by (simp add: p' update_conv')
      then show ?thesis using True by simp
    next
      case False
      then have "map_of p (fst ke) = Some (snd ke)" using m by (simp add: p' update_conv')
      then have "ke \<in> set p" by (metis map_of_SomeD prod.collapse)
      then show ?thesis using assms(2) by (simp add: pending_ok_def)
    qed
  qed
  moreover have "fst ` set p' = insert (ce_key e) (fst ` set p)"
    by (simp add: p' dom_update [unfolded dom_map_of_conv_image_fst] flip: dom_map_of_conv_image_fst)
       (simp add: update_conv' dom_map_of_conv_image_fst)
  ultimately show ?thesis by (auto simp: pending_ok_def p' update_conv')
qed

lemma check_entries_pending:
  "fold_result (check_entry uni) es p = Inr p' \<Longrightarrow> pending_ok p \<Longrightarrow>
   pending_ok p' \<and> fst ` set p' = ce_key ` set es \<union> fst ` set p \<and>
   (\<forall>k. k \<notin> ce_key ` set es \<longrightarrow> map_of p' k = map_of p k) \<and>
   (distinct (map ce_key es) \<longrightarrow>
      (\<forall>e \<in> set es. \<exists>ss. map_of p' (ce_key e) = Some (e\<lparr>ce_slugs := ss\<rparr>)))"
proof (induction es arbitrary: p)
  case (Cons e es)
  obtain p1 where p1: "check_entry uni e p = Inr p1" "fold_result (check_entry uni) es p1 = Inr p'"
    using Cons.prems(1) by (auto simp: bindr_Inr_iff)
  note c = check_entry_pending [OF p1(1) Cons.prems(2)]
  then have "pending_ok p1" by blast
  note ih = Cons.IH [OF p1(2) this]
  have "\<exists>ss. map_of p' (ce_key x) = Some (x\<lparr>ce_slugs := ss\<rparr>)"
    if d: "distinct (map ce_key (e # es))" and x: "x \<in> set (e # es)" for x
  proof (cases "x = e")
    case True
    then have "ce_key x \<notin> ce_key ` set es" using d by simp
    then have "map_of p' (ce_key x) = map_of p1 (ce_key x)" using ih by blast
    then show ?thesis using c True by simp
  next
    case False
    then show ?thesis using ih d x by simp
  qed
  moreover have "map_of p' k = map_of p k" if "k \<notin> ce_key ` set (e # es)" for k
  proof -
    have k: "k \<noteq> ce_key e" "k \<notin> ce_key ` set es" using that by simp_all
    have "map_of p' k = map_of p1 k" using ih k(2) by blast
    also have "\<dots> = map_of p k" using c k(1) by blast
    finally show ?thesis .
  qed
  moreover have "fst ` set p' = ce_key ` set (e # es) \<union> fst ` set p" using ih c by auto
  ultimately show ?case using ih by blast
qed auto

text \<open>
  C13: when \<open>Put\<close> returns, every entry has a row, its code is the one answered, the rows
  that were there keep their content, code and redirect, the content that is not an entry is
  untouched, and with one entry per content each row has its entry's slug.
\<close>

theorem put_codes_registers:
  assumes "put_codes uni gen entries reg = Inr (reg', out)"
    and "registry_ok reg" and gen: "\<And>n. valid_code (gen n)"
  shows "registry_ok reg' \<and> grows reg reg' \<and>
    (\<forall>e \<in> set entries. \<exists>r. row_of_key reg' (ce_key e) = Some r \<and> map_of out (ce_key e) = Some (cr_code r) \<and>
       (distinct (map ce_key entries) \<longrightarrow> cr_slug r = ce_slug e)) \<and>
    (\<forall>k. k \<notin> ce_key ` set entries \<longrightarrow> row_of_key reg' k = row_of_key reg k \<and> map_of out k = None)"
proof -
  obtain p where p: "fold_result (check_entry uni) entries [] = Inr p"
      "put_loop put_attempts gen 0 p reg [] = Inr (reg', out)"
    using assms(1) by (auto simp: put_codes_def bindr_Inr_iff)
  have c: "pending_ok p" "fst ` set p = ce_key ` set entries"
    "distinct (map ce_key entries) \<longrightarrow>
      (\<forall>e \<in> set entries. \<exists>ss. map_of p (ce_key e) = Some (e\<lparr>ce_slugs := ss\<rparr>))"
    using check_entries_pending [OF p(1) pending_Nil] by simp_all
  note l = put_loop_ok [OF gen p(2) c(1) assms(2)]
  have "\<exists>r. row_of_key reg' (ce_key e) = Some r \<and> map_of out (ce_key e) = Some (cr_code r) \<and>
      (distinct (map ce_key entries) \<longrightarrow> cr_slug r = ce_slug e)" if e: "e \<in> set entries" for e
  proof -
    have "ce_key e \<in> fst ` set p" using e c(2) by blast
    then obtain ke where ke: "ke \<in> set p" "fst ke = ce_key e" by auto
    then obtain r where r: "row_of_key reg' (ce_key e) = Some r" "stored (snd ke) r"
        "map_of out (ce_key e) = Some (cr_code r)" using l by metis
    moreover have "cr_slug r = ce_slug e" if d: "distinct (map ce_key entries)"
    proof -
      obtain ss where "map_of p (ce_key e) = Some (e\<lparr>ce_slugs := ss\<rparr>)" using c(3) d e by blast
      moreover have "map_of p (fst ke) = Some (snd ke)"
        using c(1) ke(1) unfolding pending_ok_def by (metis map_of_is_SomeI prod.collapse)
      ultimately have "snd ke = e\<lparr>ce_slugs := ss\<rparr>" using ke(2) by simp
      then show ?thesis using r(2) by (simp add: stored_def)
    qed
    ultimately show ?thesis by blast
  qed
  then show ?thesis using l c(2) by simp
qed

text \<open>Every attempt that leaves an entry without a code draws one that is taken.\<close>

lemma put_batch_draws:
  assumes inj: "inj_on gen {..<N}"
  shows "put_batch gen n es reg = (reg', n', got) \<Longrightarrow> n + length es \<le> N \<Longrightarrow>
    n \<le> n' \<and> n' \<le> n + length es \<and>
    cr_code ` set reg' \<subseteq> cr_code ` set reg \<union> gen ` {n..<n'} \<and>
    ((\<exists>e \<in> set es. ce_key e \<notin> fst ` set got) \<longrightarrow> (\<exists>m \<in> {n..<n'}. gen m \<in> cr_code ` set reg))"
proof (induction es arbitrary: n reg reg' n' got)
  case (Cons e es)
  from Cons.prems(1) show ?case
  proof (cases rule: put_batch_Cons)
    case (update r got')
    have "map cr_code (update_rows e reg) = map cr_code reg" by simp
    from arg_cong [OF this, of set] have "cr_code ` set (update_rows e reg) = cr_code ` set reg"
      by (simp only: set_map)
    with Cons.IH [OF update(3)] Cons.prems(2) have
      1: "n \<le> n'" "n' \<le> n + length (e # es)" "cr_code ` set reg' \<subseteq> cr_code ` set reg \<union> gen ` {n..<n'}" and
      2: "(\<exists>x \<in> set es. ce_key x \<notin> fst ` set got') \<Longrightarrow> \<exists>m \<in> {n..<n'}. gen m \<in> cr_code ` set reg"
      by simp_all
    have "\<exists>x \<in> set es. ce_key x \<notin> fst ` set got'" if "\<exists>x \<in> set (e # es). ce_key x \<notin> fst ` set got"
      using that unfolding update(2) by (metis fst_conv image_insert insert_iff list.simps(15))
    then show ?thesis using 1 2 by (intro conjI impI) blast+
  next
    case clash
    have gn: "gen n \<in> cr_code ` set reg" 
      by (rule ccontr) (use clash(2) in \<open>simp add: row_of_code_None [THEN iffD2]\<close>)
    have le: "Suc n \<le> n'" "n' \<le> n + length (e # es)" and c: "cr_code ` set reg' \<subseteq> cr_code ` set reg \<union> gen ` {Suc n..<n'}"
      using Cons.IH [OF clash(3)] Cons.prems(2) by simp_all
    have "gen ` {Suc n..<n'} \<subseteq> gen ` {n..<n'}" by (rule image_mono) auto
    with c have 1: "cr_code ` set reg' \<subseteq> cr_code ` set reg \<union> gen ` {n..<n'}" by blast
    have 2: "\<exists>m \<in> {n..<n'}. gen m \<in> cr_code ` set reg"
      by (rule bexI [where x = n and P = "\<lambda>m. gen m \<in> cr_code ` set reg", OF gn]) (use le in simp)
    have 3: "n \<le> n'" using le by simp
    show ?thesis by (intro conjI impI 1 2 3 le(2))
  next
    case (insert got')
    have "Suc n + length es \<le> N" using Cons.prems(2) by simp
    note ih = Cons.IH [OF insert(4) this]
    have le: "Suc n \<le> n'" "n' \<le> n + length (e # es)" using ih by simp_all
    have sub: "{Suc n..<n'} \<subseteq> {n..<n'}" by auto
    have n: "gen n \<in> gen ` {n..<n'}" using le by (intro imageI) simp
    have codes: "cr_code ` set (reg @ [insert_row e (gen n)]) = insert (gen n) (cr_code ` set reg)"
      by simp
    have 1: "cr_code ` set reg' \<subseteq> cr_code ` set reg \<union> gen ` {n..<n'}"
    proof -
      have "cr_code ` set reg' \<subseteq> insert (gen n) (cr_code ` set reg) \<union> gen ` {Suc n..<n'}"
        using ih codes by simp
      then show ?thesis using n image_mono [OF sub, of gen] by auto
    qed
    have 2: "\<exists>m \<in> {n..<n'}. gen m \<in> cr_code ` set reg"
      if ex: "\<exists>x \<in> set (e # es). ce_key x \<notin> fst ` set got"
    proof -
      have "\<exists>x \<in> set es. ce_key x \<notin> fst ` set got'" using ex insert(3) by auto
      then obtain m where m: "m \<in> {Suc n..<n'}" "gen m \<in> insert (gen n) (cr_code ` set reg)"
        using ih [THEN conjunct2, THEN conjunct2, THEN conjunct2] unfolding codes by blast
      have "gen m \<noteq> gen n"
        using inj_onD [OF inj, of m n] m(1) le(2) Cons.prems(2) by auto
      then show ?thesis using m sub by blast
    qed
    have 3: "n \<le> n'" using le by simp
    show ?thesis by (intro conjI impI 1 2 3 le(2))
  qed
qed simp

lemma put_loop_live:
  assumes inj: "inj_on gen {..<N}"
  shows "card {m. n \<le> m \<and> m < N \<and> gen m \<in> cr_code ` set reg} < fuel \<Longrightarrow> pending_ok p \<Longrightarrow>
    n + fuel * length p \<le> N \<Longrightarrow>
    \<exists>reg' out'. put_loop fuel gen n p reg out = Inr (reg', out')"
proof (induction fuel arbitrary: n p reg out)
  case (Suc fuel)
  let ?B = "\<lambda>n reg. {m. n \<le> m \<and> m < N \<and> gen m \<in> cr_code ` set reg}"
  show ?case
  proof (cases "p = []")
    case False
    obtain reg1 n1 got where b: "put_batch gen n (map snd p) reg = (reg1, n1, got)"
      by (metis prod_cases3)
    let ?q = "filter (\<lambda>ke. fst ke \<notin> set (map fst got)) p"
    have run: "put_loop (Suc fuel) gen n p reg out = put_loop fuel gen n1 ?q reg1 (got @ out)"
      using False b by simp
    have le: "n + length (map snd p) \<le> N" using Suc.prems(3) by simp
    note draws = put_batch_draws [OF inj b le]
    show ?thesis
    proof (cases "?q = []")
      case True
      then show ?thesis unfolding run by (cases fuel) simp_all
    next
      case False
      then obtain ke where ke: "ke \<in> set p" "fst ke \<notin> fst ` set got" by (auto simp: filter_empty_conv)
      then have "snd ke \<in> set (map snd p)" "ce_key (snd ke) \<notin> fst ` set got"
        using Suc.prems(2) by (auto simp: pending_ok_def)
      then have "\<exists>m \<in> {n..<n1}. gen m \<in> cr_code ` set reg"
        using draws by blast
      then obtain m where m: "n \<le> m" "m < n1" "gen m \<in> cr_code ` set reg" by auto
      have n1: "n1 \<le> N" using draws le by simp
      have fin: "finite (?B n reg)" by simp
      have "?B n1 reg1 \<subseteq> ?B n1 reg"
      proof
        fix m assume m: "m \<in> ?B n1 reg1"
        have "gen m \<notin> gen ` {n..<n1}" using m n1 inj by (auto dest: inj_onD)
        then show "m \<in> ?B n1 reg" using m draws by blast
      qed
      also have "?B n1 reg \<subset> ?B n reg"
      proof
        show "?B n1 reg \<subseteq> ?B n reg" using m(1,2) by auto
        have "m \<in> ?B n reg" "m \<notin> ?B n1 reg" using m n1 by auto
        then show "?B n1 reg \<noteq> ?B n reg" by blast
      qed
      finally have "card (?B n1 reg1) < card (?B n reg)" by (rule psubset_card_mono [OF fin])
      then have "card (?B n1 reg1) < fuel" using Suc.prems(1) by simp
      moreover have "n1 + fuel * length ?q \<le> N"
      proof -
        have "n1 \<le> n + length p" using draws by simp
        moreover have "fuel * length ?q \<le> fuel * length p" by simp
        ultimately have "n1 + fuel * length ?q \<le> n + length p + fuel * length p" by (rule add_mono)
        also have "\<dots> \<le> N" using Suc.prems(3) by simp
        finally show ?thesis .
      qed
      ultimately show ?thesis unfolding run using Suc.IH pending_filter [OF Suc.prems(2)] by blast
    qed
  qed simp
qed simp

lemma pending_length:
  assumes "fold_result (check_entry uni) es [] = Inr p"
  shows "length p \<le> length es"
proof -
  have c: "pending_ok p" "fst ` set p = ce_key ` set es"
    using check_entries_pending [OF assms pending_Nil] by auto
  then have "length p = card (ce_key ` set es)"
    by (metis distinct_card length_map pending_ok_def set_map)
  also have "\<dots> \<le> length es" by (metis card_length length_map set_map)
  finally show ?thesis .
qed

text \<open>
  \<open>Put\<close> gives up only when the generator repeats itself or draws taken codes eight
  times: valid entries are registered whenever fewer of its draws, at most eight for each
  entry, are taken.
\<close>

theorem put_codes_live:
  assumes "fold_result (check_entry uni) entries [] = Inr p"
    and "inj_on gen {..<put_attempts * length entries}"
    and "card {m. m < put_attempts * length entries \<and> gen m \<in> cr_code ` set reg} < put_attempts"
  shows "\<exists>reg' out. put_codes uni gen entries reg = Inr (reg', out)"
proof -
  have "pending_ok p" using check_entries_pending [OF assms(1) pending_Nil] by blast
  moreover have "put_attempts * length p \<le> put_attempts * length entries"
    using pending_length [OF assms(1)] by simp
  ultimately show ?thesis
    using put_loop_live [OF assms(2), where n = 0 and fuel = put_attempts] assms(1,3)
    by (simp add: put_codes_def)
qed

definition sample_entries :: "code_entry list" where
  "sample_entries = [\<lparr>ce_key = (''v'', ''1''), ce_slug = ''a'', ce_slugs = None\<rparr>,
     \<lparr>ce_key = (''v'', ''2''), ce_slug = ''b'', ce_slugs = None\<rparr>]"

definition sample_row :: code_row where
  "sample_row = \<lparr>cr_key = (''v'', ''1''), cr_code = ''00000000A'', cr_slug = [], cr_slugs = [], cr_merged = []\<rparr>"

text \<open>A generator that draws the taken code first.\<close>

definition sample_gen :: "nat \<Rightarrow> string" where
  "sample_gen n = ''00000000'' @ [(''ABCDEFGHJKMNPQRSTVWXYZ'') ! (n mod 22)]"

lemma sample_gen_valid: "valid_code (sample_gen n)"
proof -
  have "list_all (\<lambda>k. valid_code (''00000000'' @ [(''ABCDEFGHJKMNPQRSTVWXYZ'') ! k])) [0..<22]"
    by code_simp
  moreover have "n mod 22 < 22" by simp
  ultimately show ?thesis unfolding sample_gen_def list_all_iff by simp
qed

lemma sample_put:
  "put_codes (\<lambda>s. s) sample_gen sample_entries [sample_row] =
     Inr ([sample_row\<lparr>cr_slug := ''a''\<rparr>,
         \<lparr>cr_key = (''v'', ''2''), cr_code = ''00000000B'', cr_slug = ''b'', cr_slugs = [], cr_merged = []\<rparr>],
       [((''v'', ''2''), ''00000000B''), ((''v'', ''1''), ''00000000A'')])"
  by code_simp

lemma sample_registry_ok: "registry_ok [sample_row]"
  by code_simp

theorem put_codes_registers_witness:
  "\<exists>reg' out. put_codes (\<lambda>s. s) sample_gen sample_entries [sample_row] = Inr (reg', out) \<and>
     registry_ok reg' \<and> grows [sample_row] reg' \<and> map_of out (''v'', ''2'') = Some ''00000000B''"
  using put_codes_registers [OF sample_put sample_registry_ok sample_gen_valid] sample_put by simp

theorem put_codes_live_witness:
  "sample_gen 0 = cr_code sample_row \<and>
   (\<exists>reg' out. put_codes (\<lambda>s. s) sample_gen sample_entries [sample_row] = Inr (reg', out))"
proof -
  let ?p = "map (\<lambda>e. (ce_key e, e)) sample_entries"
  have 1: "fold_result (check_entry (\<lambda>s. s)) sample_entries [] = Inr ?p" by code_simp
  have n: "put_attempts * length sample_entries = 16" by code_simp
  have "distinct (map sample_gen [0..<16])" by code_simp
  then have 2: "inj_on sample_gen {..<put_attempts * length sample_entries}"
    unfolding n by (simp only: distinct_map set_upt atLeast0LessThan)
  have "filter (\<lambda>m. sample_gen m \<in> cr_code ` set [sample_row]) [0..<16] = [0]" by code_simp
  moreover have "{m. m < (16 :: nat) \<and> sample_gen m \<in> cr_code ` set [sample_row]} =
      set (filter (\<lambda>m. sample_gen m \<in> cr_code ` set [sample_row]) [0..<16])" by auto
  ultimately have "{m. m < (16 :: nat) \<and> sample_gen m \<in> cr_code ` set [sample_row]} = {0}" by simp
  then have 3: "card {m. m < put_attempts * length sample_entries \<and>
      sample_gen m \<in> cr_code ` set [sample_row]} < put_attempts"
    unfolding n by (simp add: put_attempts_def)
  have "sample_gen 0 = cr_code sample_row" by code_simp
  then show ?thesis using put_codes_live [OF 1 2 3] by blast
qed

section \<open>Reserve and Merge\<close>

lemma reserve_one_ok:
  assumes "registry_ok reg" and "valid_code (snd kc)"
  shows "registry_ok (reserve_one kc reg) \<and> grows reg (reserve_one kc reg)"
proof (cases "row_of_key reg (fst kc) = None \<and> row_of_code reg (snd kc) = None")
  case True
  let ?r = "\<lparr>cr_key = fst kc, cr_code = snd kc, cr_slug = [], cr_slugs = [], cr_merged = []\<rparr>"
  have "registry_ok (reg @ [?r])"
    by (rule registry_ok_append)
       (use True assms in \<open>simp_all add: row_of_key_None row_of_code_None\<close>)
  moreover have "grows reg (reg @ [?r])" by (rule grows_append) simp
  ultimately show ?thesis using True by (simp add: reserve_one_def)
next
  case False
  then show ?thesis using assms(1) by (auto simp: reserve_one_def)
qed

lemma reserve_codes_ok:
  assumes "reserve_codes uni keep reg = Inr reg'" and "registry_ok reg"
  shows "registry_ok reg' \<and> grows reg reg' \<and>
    (\<forall>kc \<in> set keep. map_option cr_code (row_of_key reg' (fst kc)) = Some (snd kc))"
proof -
  have v: "\<forall>kc \<in> set keep. valid_code (snd kc)" and r: "reg' = fold reserve_one keep reg"
    and k: "\<forall>kc \<in> set keep. map_option cr_code (row_of_key reg' (fst kc)) = Some (snd kc)"
    using assms(1)
    by (auto simp: reserve_codes_def Let_def find_None_iff list_ex_iff split: option.splits if_splits)
  have "\<forall>kc \<in> set keep. valid_code (snd kc) \<Longrightarrow> registry_ok reg \<Longrightarrow>
      registry_ok (fold reserve_one keep reg) \<and> grows reg (fold reserve_one keep reg)"
  proof (induction keep arbitrary: reg)
    case (Cons kc keep)
    then have "registry_ok (reserve_one kc reg)" "grows reg (reserve_one kc reg)"
      using reserve_one_ok by simp_all
    then show ?case using Cons grows_trans by fastforce
  qed simp
  then show ?thesis using v r k assms(2) by blast
qed

text \<open>Where a code leads: its row, or the row it redirects to.\<close>

definition survivor :: "registry \<Rightarrow> string \<Rightarrow> string option" where
  "survivor reg c = map_option cr_code (joined_row reg c)"

lemma joined_row_ok:
  assumes "registry_ok reg" and "r \<in> set reg" and "cr_code r = c"
  obtains t where "joined_row reg c = Some t" "t \<in> set reg" "cr_merged t = []"
    "cr_code t = (if cr_merged r = [] then c else cr_merged r)"
proof (cases "cr_merged r = []")
  case True
  have "row_of_code reg c = Some r" using assms by (simp add: row_of_code_Some)
  then show ?thesis using that [of r] True assms by (simp add: joined_row_def)
next
  case False
  then obtain t where t: "t \<in> set reg" "cr_code t = cr_merged r" "cr_merged t = []"
    using assms by (auto simp: registry_ok_def)
  have "row_of_code reg c = Some r" using assms by (simp add: row_of_code_Some)
  moreover have "row_of_code reg (cr_merged r) = Some t" using assms(1) t by (simp add: row_of_code_Some)
  ultimately show ?thesis using that [of t] t False by (simp add: joined_row_def)
qed

lemma joined_row_None: "joined_row reg c = None" if "c \<notin> cr_code ` set reg"
  using that by (simp add: joined_row_def row_of_code_None [THEN iffD2])

lemma joined_row_unmerged:
  assumes ok: "registry_ok reg" and j: "joined_row reg c = Some t"
  shows "cr_merged t = []"
proof (cases "c \<in> cr_code ` set reg")
  case True
  then obtain r where "r \<in> set reg" "cr_code r = c" by auto
  from joined_row_ok [OF ok this] obtain t' where "joined_row reg c = Some t'" "cr_merged t' = []"
    by blast
  then show ?thesis using j by simp
next
  case False
  then show ?thesis using j joined_row_None by simp
qed

lemma survivor_row:
  assumes "registry_ok reg" and "r \<in> set reg"
  shows "survivor reg (cr_code r) = Some (if cr_merged r = [] then cr_code r else cr_merged r)"
  by (rule joined_row_ok [OF assms refl]) (simp add: survivor_def)

lemma survivor_None: "c \<notin> cr_code ` set reg \<Longrightarrow> survivor reg c = None"
  by (simp add: survivor_def joined_row_None)

text \<open>The rows a merge writes.\<close>

definition redirected :: "string \<Rightarrow> string \<Rightarrow> code_row \<Rightarrow> code_row" where
  "redirected s target r =
     (if cr_code r = s \<or> cr_merged r = s then r\<lparr>cr_merged := target\<rparr> else r)"

lemma redirected_fields [simp]:
  "cr_key (redirected s t r) = cr_key r" "cr_code (redirected s t r) = cr_code r"
  "cr_merged (redirected s t r) = (if cr_code r = s \<or> cr_merged r = s then t else cr_merged r)"
  by (simp_all add: redirected_def)

lemma merge_codes_elim:
  assumes "merge_codes src into reg = Inr reg'"
  obtains s d where "row_of_key reg src = Some s" "row_of_key reg into = Some d"
    "(if cr_merged d = [] then cr_code d else cr_merged d) \<noteq> cr_code s"
    "reg' = map (redirected (cr_code s) (if cr_merged d = [] then cr_code d else cr_merged d)) reg"
  using assms
  by (auto simp: merge_codes_def Let_def redirected_def fun_eq_iff split: option.splits if_splits)

lemma redirect_ok:
  assumes ok: "registry_ok reg" and s: "s \<in> set reg" and t: "t \<in> set reg" "cr_merged t = []"
    and ne: "cr_code t \<noteq> cr_code s"
  shows "registry_ok (map (redirected (cr_code s) (cr_code t)) reg)"
proof -
  let ?f = "redirected (cr_code s) (cr_code t)"
  have vs: "cr_code s \<noteq> []" using ok s valid_code_ne by (auto simp: registry_ok_def)
  have keep: "?f u = u" if "cr_merged u = []" "cr_code u \<noteq> cr_code s" for u
    using that vs by (simp add: redirected_def)
  have "\<exists>u \<in> ?f ` set reg. cr_code u = cr_merged (?f r) \<and> cr_merged u = []"
    if r: "r \<in> set reg" "cr_merged (?f r) \<noteq> []" for r
  proof (cases "cr_code r = cr_code s \<or> cr_merged r = cr_code s")
    case True
    then have "cr_code (?f t) = cr_merged (?f r)" "cr_merged (?f t) = []" using keep [OF t(2) ne] t(2) by simp_all
    then show ?thesis using t(1) by blast
  next
    case False
    then have "cr_merged r \<noteq> []" using r(2) by simp
    then obtain u where u: "u \<in> set reg" "cr_code u = cr_merged r" "cr_merged u = []"
      using ok r(1) by (auto simp: registry_ok_def)
    then have "?f u = u" using False keep by simp
    then have "cr_code (?f u) = cr_merged (?f r) \<and> cr_merged (?f u) = []"
      using u False by simp
    then show ?thesis using u(1) by blast
  qed
  then show ?thesis using ok by (auto simp: registry_ok_def comp_def)
qed

lemma survivor_redirect:
  assumes ok: "registry_ok reg" and s: "s \<in> set reg" and t: "t \<in> set reg" "cr_merged t = []"
    and ne: "cr_code t \<noteq> cr_code s"
  shows "survivor (map (redirected (cr_code s) (cr_code t)) reg) c =
    (if c = cr_code s \<or> survivor reg c = Some (cr_code s) then Some (cr_code t) else survivor reg c)"
proof (cases "c \<in> cr_code ` set reg")
  case False
  then have "c \<notin> cr_code ` set (map (redirected (cr_code s) (cr_code t)) reg)"
    by (auto simp: image_image)
  then show ?thesis using False s by (auto simp: survivor_None)
next
  case True
  then obtain r where r: "r \<in> set reg" "cr_code r = c" by auto
  let ?f = "redirected (cr_code s) (cr_code t)"
  have vs: "cr_code s \<noteq> []" and vt: "cr_code t \<noteq> []"
    using ok s t valid_code_ne by (auto simp: registry_ok_def)
  have "?f r \<in> set (map ?f reg)" using r(1) by simp
  from survivor_row [OF redirect_ok [OF assms] this]
  have "survivor (map ?f reg) c =
      Some (if cr_merged (?f r) = [] then c else cr_merged (?f r))" using r(2) by simp
  moreover have "survivor reg c = Some (if cr_merged r = [] then c else cr_merged r)"
    using survivor_row [OF ok r(1)] r(2) by simp
  ultimately show ?thesis using r(2) vs vt by auto
qed

text \<open>
  C14: a merge redirects the code of \<open>from\<close>, and every code that led to it, to where the
  code of \<open>into\<close> leads, and changes where no other code leads. It fails only for content
  without a code, for content merged into itself, or when \<open>into\<close> leads back to \<open>from\<close>.
\<close>

theorem merge_redirects:
  assumes ok: "registry_ok reg"
    and f: "row_of_key reg src = Some s" and i: "row_of_key reg into = Some d"
  shows "(case merge_codes src into reg of
      Inr reg' \<Rightarrow> registry_ok reg' \<and> (\<forall>c. survivor reg' c =
        (if c = cr_code s \<or> survivor reg c = Some (cr_code s) then survivor reg (cr_code d)
         else survivor reg c))
    | Inl _ \<Rightarrow> src = into \<or> survivor reg (cr_code d) = Some (cr_code s))"
proof -
  have d: "d \<in> set reg" and s: "s \<in> set reg" using f i ok by (simp_all add: row_of_key_Some)
  define target where "target = (if cr_merged d = [] then cr_code d else cr_merged d)"
  have sd: "survivor reg (cr_code d) = Some target"
    unfolding target_def by (rule survivor_row [OF ok d])
  obtain t where t: "t \<in> set reg" "cr_merged t = []" "cr_code t = target"
    using joined_row_ok [OF ok d refl] by (metis target_def)
  show ?thesis
  proof (cases "merge_codes src into reg")
    case (Inl e)
    then have "src = into \<or> target = cr_code s"
      using f i by (auto simp: merge_codes_def target_def Let_def split: if_splits)
    then show ?thesis using Inl sd by auto
  next
    case (Inr reg')
    then obtain ne: "target \<noteq> cr_code s" and r: "reg' = map (redirected (cr_code s) target) reg"
      using f i by (auto simp: target_def elim!: merge_codes_elim)
    have ne': "cr_code t \<noteq> cr_code s" using ne t(3) by simp
    show ?thesis
      using redirect_ok [OF ok s t(1,2) ne'] survivor_redirect [OF ok s t(1,2) ne'] Inr r t(3) sd
      by simp
  qed
qed

definition sample_registry :: registry where
  "sample_registry = [sample_row, sample_row\<lparr>cr_key := (''v'', ''2''), cr_code := ''00000000B''\<rparr>,
     sample_row\<lparr>cr_key := (''v'', ''3''), cr_code := ''00000000C'', cr_merged := ''00000000A''\<rparr>]"

theorem merge_redirects_witness:
  "\<exists>reg'. merge_codes (''v'', ''1'') (''v'', ''2'') sample_registry = Inr reg' \<and> registry_ok reg' \<and>
     survivor reg' ''00000000C'' = Some ''00000000B'' \<and> survivor reg' ''00000000A'' = Some ''00000000B''"
proof -
  have ok: "registry_ok sample_registry" by code_simp
  have f: "row_of_key sample_registry (''v'', ''1'') = Some sample_row"
    and i: "row_of_key sample_registry (''v'', ''2'') =
      Some (sample_row\<lparr>cr_key := (''v'', ''2''), cr_code := ''00000000B''\<rparr>)" by code_simp+
  have s: "survivor sample_registry ''00000000C'' = Some ''00000000A''"
    "survivor sample_registry ''00000000B'' = Some ''00000000B''" by code_simp+
  obtain reg' where r: "merge_codes (''v'', ''1'') (''v'', ''2'') sample_registry = Inr reg'"
    using merge_redirects [OF ok f i] s by (auto simp: sample_row_def split: sum.splits)
  then show ?thesis using merge_redirects [OF ok f i] s by (auto simp: sample_row_def)
qed

section \<open>Reachable registries\<close>

text \<open>The operations on the registry of a tenant. The database generates valid codes.\<close>

inductive registry_step :: "(string \<Rightarrow> string) \<Rightarrow> registry \<Rightarrow> registry \<Rightarrow> bool" for uni where
  step_put: "(\<And>n. valid_code (gen n)) \<Longrightarrow> put_codes uni gen entries reg = Inr (reg', out) \<Longrightarrow>
    registry_step uni reg reg'"
| step_reserve: "reserve_codes uni keep reg = Inr reg' \<Longrightarrow> registry_step uni reg reg'"
| step_merge: "merge_codes src into reg = Inr reg' \<Longrightarrow> registry_step uni reg reg'"

inductive_cases registry_stepE: "registry_step uni reg reg'"

inductive reachable :: "(string \<Rightarrow> string) \<Rightarrow> registry \<Rightarrow> registry \<Rightarrow> bool" for uni reg where
  reach_refl: "reachable uni reg reg"
| reach_step: "reachable uni reg reg' \<Longrightarrow> registry_step uni reg' reg'' \<Longrightarrow> reachable uni reg reg''"

text \<open>What every operation keeps: content keeps its code, and a code that leads somewhere
  goes on leading somewhere.\<close>

definition keeps :: "registry \<Rightarrow> registry \<Rightarrow> bool" where
  "keeps reg reg' \<longleftrightarrow> (\<forall>r \<in> set reg. \<exists>r' \<in> set reg'. cr_key r' = cr_key r \<and> cr_code r' = cr_code r)"

lemma keeps_trans: "keeps a b \<Longrightarrow> keeps b c \<Longrightarrow> keeps a c"
  by (fastforce simp: keeps_def)

lemma grows_keeps: "grows a b \<Longrightarrow> keeps a b"
  using grows_row by (fastforce simp: keeps_def)

lemma put_codes_ok:
  "(\<And>n. valid_code (gen n)) \<Longrightarrow> put_codes uni gen es reg = Inr (reg', out) \<Longrightarrow> registry_ok reg \<Longrightarrow>
   registry_ok reg' \<and> grows reg reg'"
proof -
  assume a: "\<And>n. valid_code (gen n)" "put_codes uni gen es reg = Inr (reg', out)" "registry_ok reg"
  then obtain p where p: "fold_result (check_entry uni) es [] = Inr p"
      "put_loop put_attempts gen 0 p reg [] = Inr (reg', out)"
    by (auto simp: put_codes_def bindr_Inr_iff)
  have "pending_ok p" using check_entries_pending [OF p(1) pending_Nil] by blast
  then show ?thesis using put_loop_ok [OF a(1) p(2) _ a(3)] by blast
qed

lemma merge_codes_ok:
  assumes "merge_codes src into reg = Inr reg'" and ok: "registry_ok reg"
  shows "registry_ok reg' \<and> keeps reg reg'"
  using assms(1)
proof (cases rule: merge_codes_elim)
  case (1 s d)
  have "d \<in> set reg" "s \<in> set reg" using 1 ok by (simp_all add: row_of_key_Some)
  moreover from joined_row_ok [OF ok this(1) refl]
  obtain t where "t \<in> set reg" "cr_merged t = []"
    "cr_code t = (if cr_merged d = [] then cr_code d else cr_merged d)" by metis
  moreover have "cr_code t \<noteq> cr_code s" "reg' = map (redirected (cr_code s) (cr_code t)) reg"
    using 1(3,4) \<open>cr_code t = _\<close> by simp_all
  ultimately have "registry_ok reg'" using redirect_ok [OF ok, of s t] by metis
  moreover have "keeps reg reg'" using 1(4) by (auto simp: keeps_def)
  ultimately show ?thesis by simp
qed

lemma registry_step_ok:
  "registry_step uni reg reg' \<Longrightarrow> registry_ok reg \<Longrightarrow> registry_ok reg' \<and> keeps reg reg'"
proof (induction rule: registry_step.induct)
  case (step_put gen entries reg reg' out)
  then show ?case using put_codes_ok grows_keeps by blast
next
  case (step_reserve keep reg reg')
  then show ?case using reserve_codes_ok grows_keeps by blast
next
  case (step_merge src into reg reg')
  then show ?case by (rule merge_codes_ok)
qed

lemma resolves_row: "registry_ok reg \<Longrightarrow> survivor reg c \<noteq> None \<longleftrightarrow> c \<in> cr_code ` set reg"
  using survivor_row survivor_None by fastforce

text \<open>
  C15: from a well-formed registry, such as the empty one, every sequence of operations
  leads to a registry with one row and one code per content, where every redirect is one
  hop. No content ever gets another code and a code that resolves never stops resolving.
\<close>

theorem reachable_registry:
  assumes "reachable uni reg reg'" and "registry_ok reg"
  shows "registry_ok reg' \<and>
    (\<forall>k. row_of_key reg k \<noteq> None \<longrightarrow>
       map_option cr_code (row_of_key reg' k) = map_option cr_code (row_of_key reg k)) \<and>
    (\<forall>c. survivor reg c \<noteq> None \<longrightarrow> survivor reg' c \<noteq> None)"
proof -
  have ok: "registry_ok reg'" and k: "keeps reg reg'" using assms
  proof (induction rule: reachable.induct)
    case reach_refl
    case 1 then show ?case .
    case 2 then show ?case by (auto simp: keeps_def)
  next
    case (reach_step reg' reg'')
    case 1 with reach_step registry_step_ok show ?case by blast
    case 2 with reach_step registry_step_ok keeps_trans show ?case by blast
  qed
  have "map_option cr_code (row_of_key reg' n) = map_option cr_code (row_of_key reg n)"
    if "row_of_key reg n \<noteq> None" for n
  proof -
    obtain r where r: "r \<in> set reg" "cr_key r = n" "row_of_key reg n = Some r"
      using \<open>row_of_key reg n \<noteq> None\<close> assms(2) by (auto simp: row_of_key_Some)
    then obtain r' where "r' \<in> set reg'" "cr_key r' = n" "cr_code r' = cr_code r"
      using k by (auto simp: keeps_def)
    then have "row_of_key reg' n = Some r'" using ok by (simp add: row_of_key_Some)
    then show ?thesis using r \<open>cr_code r' = cr_code r\<close> by simp
  qed
  moreover have "survivor reg' c \<noteq> None" if c: "survivor reg c \<noteq> None" for c
  proof -
    obtain r where "r \<in> set reg" "cr_code r = c" using c resolves_row [OF assms(2)] by auto
    then have "c \<in> cr_code ` set reg'" using k unfolding keeps_def by (metis imageI)
    then show ?thesis using resolves_row [OF ok] by blast
  qed
  ultimately show ?thesis using ok by blast
qed

section \<open>Resolve\<close>

lemma map_of_answers:
  "map_of (concat (map (\<lambda>c. case f c of Some y \<Rightarrow> [(c, y)] | None \<Rightarrow> []) cs)) c =
     (if c \<in> set cs then f c else None)"
  by (induction cs) (auto split: option.splits)

lemma concat_map_Nil: "concat (map (\<lambda>x. []) xs) = []"
  by (induction xs) auto

lemma resolve_one_hop:
  assumes "at \<noteq> []" and "\<And>c t. joined_row reg c = Some t \<Longrightarrow> cr_merged t = []"
  shows "resolve_hops (Suc hops) reg at out = resolve_hops hops reg []
     (concat (map (\<lambda>(asked, c). case map_option link_of (joined_row reg c) of
        Some y \<Rightarrow> [(asked, y)] | None \<Rightarrow> []) at) @ out)"
proof -
  have 1: "(\<lambda>x. case x of (asked, t) \<Rightarrow> (case t of
        Some r \<Rightarrow> if cr_merged r = [] then [] else [(asked, cr_merged r)] | None \<Rightarrow> []))
      (case x of (asked, c) \<Rightarrow> (asked, joined_row reg c)) = []" for x :: "string \<times> string"
    using assms(2) by (cases x) (auto split: option.splits)
  have 2: "(\<lambda>x. case x of (asked, t) \<Rightarrow> (case t of
        Some r \<Rightarrow> if cr_merged r = [] then [(asked, link_of r)] else [] | None \<Rightarrow> []))
      (case x of (asked, c) \<Rightarrow> (asked, joined_row reg c)) =
      (\<lambda>(asked, c). case map_option link_of (joined_row reg c) of
        Some y \<Rightarrow> [(asked, y)] | None \<Rightarrow> []) x" for x :: "string \<times> string"
    using assms(2) by (cases x) (auto split: option.splits)
  show ?thesis
    using assms(1) by (simp only: resolve_hops.simps if_False Let_def map_map comp_def 1 2)
      (simp add: concat_map_Nil)
qed

lemma resolve_hops_ok:
  assumes ok: "registry_ok reg"
  shows "\<exists>out. resolve_hops (Suc hops) reg (map (\<lambda>c. (c, c)) cs) [] = Inr out \<and>
    (\<forall>c. map_of out c = (if c \<in> set cs then map_option link_of (joined_row reg c) else None))"
proof (cases "cs = []")
  case False
  let ?out = "concat (map (\<lambda>c. case map_option link_of (joined_row reg c) of
       Some y \<Rightarrow> [(c, y)] | None \<Rightarrow> []) cs)"
  have "resolve_hops (Suc hops) reg (map (\<lambda>c. (c, c)) cs) [] =
      resolve_hops hops reg [] (concat (map (\<lambda>(asked, c). case map_option link_of (joined_row reg c) of
        Some y \<Rightarrow> [(asked, y)] | None \<Rightarrow> []) (map (\<lambda>c. (c, c)) cs)) @ [])"
    by (rule resolve_one_hop) (use False joined_row_unmerged [OF ok] in simp_all)
  also have "\<dots> = resolve_hops hops reg [] ?out"
    by (simp add: comp_def)
  also have "\<dots> = Inr ?out" by (cases hops) simp_all
  finally show ?thesis by (intro exI [of _ ?out] conjI allI map_of_answers)
qed simp

text \<open>
  C16: on a reachable registry \<open>Resolve\<close> of well-formed codes always returns, after one round
  and never for too many redirects, and answers each registered code with the link of the row
  it leads to, which does not redirect further.
\<close>

theorem resolve_terminates:
  assumes "reachable uni [] reg" and "list_all canonical_code cs"
  shows "\<exists>out. resolve_codes reg cs = Inr out \<and>
    (\<forall>c. map_of out c = (if c \<in> set cs then map_option link_of (joined_row reg c) else None)) \<and>
    (\<forall>c \<in> set cs. map_option ln_code (map_of out c) = survivor reg c)"
proof -
  have "registry_ok reg"
    using assms(1)
  proof (induction rule: reachable.induct)
    case reach_refl
    show ?case by (simp add: registry_ok_def)
  next
    case (reach_step reg' reg'')
    then show ?case using registry_step_ok by blast
  qed
  moreover have "List.find (\<lambda>c. \<not> canonical_code c) cs = None"
    using assms(2) by (simp add: find_None_iff list_all_iff)
  moreover have "max_hops = Suc 3" by (simp add: max_hops_def)
  ultimately obtain out where out: "resolve_codes reg cs = Inr out"
      "\<forall>c. map_of out c = (if c \<in> set (remdups cs) then map_option link_of (joined_row reg c) else None)"
    using resolve_hops_ok [of reg 3 "remdups cs"] by (auto simp: resolve_codes_def)
  have "map_option ln_code (map_of out c) = survivor reg c" if "c \<in> set cs" for c
    using out(2) that by (simp add: survivor_def option.map_comp comp_def link_of_def)
  then show ?thesis using out by auto
qed

lemma sample_step: "\<exists>reg. registry_step (\<lambda>s. s) [] reg \<and>
    map cr_code reg = [''00000000A'', ''00000000B'']"
proof -
  have "case put_codes (\<lambda>s. s) sample_gen sample_entries [] of
      Inr (reg, out) \<Rightarrow> map cr_code reg = [''00000000A'', ''00000000B''] | Inl _ \<Rightarrow> False" by code_simp
  then obtain reg out where "put_codes (\<lambda>s. s) sample_gen sample_entries [] = Inr (reg, out)"
      "map cr_code reg = [''00000000A'', ''00000000B'']" by (auto split: sum.splits)
  then show ?thesis using step_put [OF sample_gen_valid] by meson
qed

theorem reachable_registry_witness:
  "\<exists>reg. reachable (\<lambda>s. s) [] reg \<and> registry_ok reg \<and> map cr_code reg = [''00000000A'', ''00000000B'']"
proof -
  obtain reg where reg: "registry_step (\<lambda>s. s) [] reg" "map cr_code reg = [''00000000A'', ''00000000B'']"
    using sample_step by (elim exE conjE) (rule that)
  have r: "reachable (\<lambda>s. s) [] reg" by (rule reach_step [OF reach_refl reg(1)])
  have "registry_ok []" by (simp add: registry_ok_def)
  from reachable_registry [OF r this, THEN conjunct1] show ?thesis
    by (intro exI [of _ reg] conjI r reg(2))
qed

theorem resolve_terminates_witness:
  "\<exists>reg out. resolve_codes reg [''00000000A'', ''00000000Z''] = Inr out \<and>
     survivor reg ''00000000A'' \<noteq> None \<and> map_option ln_code (map_of out ''00000000A'') \<noteq> None \<and>
     map_of out ''00000000Z'' = None"
proof -
  obtain reg where reg: "registry_step (\<lambda>s. s) [] reg" "map cr_code reg = [''00000000A'', ''00000000B'']"
    using sample_step by (elim exE conjE) (rule that)
  have r: "reachable (\<lambda>s. s) [] reg" by (rule reach_step [OF reach_refl reg(1)])
  have ok: "registry_ok reg" using registry_step_ok [OF reg(1)] by (simp add: registry_ok_def)
  have codes: "cr_code ` set reg = {''00000000A'', ''00000000B''}"
    using arg_cong [OF reg(2), of set] by simp
  have a: "survivor reg ''00000000A'' \<noteq> None" unfolding resolves_row [OF ok] codes by simp
  have z: "joined_row reg ''00000000Z'' = None" by (rule joined_row_None) (simp add: codes)
  have "list_all canonical_code [''00000000A'', ''00000000Z'']" by code_simp
  from resolve_terminates [OF r this] obtain out where out:
    "resolve_codes reg [''00000000A'', ''00000000Z''] = Inr out"
    "\<And>c. map_of out c = (if c \<in> set [''00000000A'', ''00000000Z''] then
       map_option link_of (joined_row reg c) else None)"
    by (elim exE conjE) (rule that, assumption, simp only:)
  have "map_of out ''00000000Z'' = None" by (simp only: out z) simp
  moreover have "map_option ln_code (map_of out ''00000000A'') \<noteq> None"
    using a by (simp add: out survivor_def)
  ultimately show ?thesis using out(1) a by (intro exI conjI)
qed

end
