(* ===== verification/Domain_Props.thy ===== *)
theory Domain_Props
  imports Domain_Policy Registry_Props
begin

text \<open>
  What the policies of a domain admit, stated over the entity table, the SQL they render to,
  and what a reader's choices can change.
\<close>

section \<open>The rows of the entity table\<close>

definition active_entity :: "entity_row list \<Rightarrow> entity_ref \<Rightarrow> entity_row option" where
  "active_entity rows r = List.find (\<lambda>e. ey_ref e = r \<and> ey_active e) rows"

definition any_entity :: "entity_row list \<Rightarrow> entity_ref \<Rightarrow> entity_row option" where
  "any_entity rows r = List.find (\<lambda>e. ey_ref e = r) rows"

lemma scan_rows_found:
  "map_of (fe_found (scan_rows rows)) r = (case active_entity rows r of None \<Rightarrow> any_entity rows r | Some e \<Rightarrow> Some e)"
proof (induction rows rule: rev_induct)
  case (snoc e rows)
  let ?s = "scan_rows rows"
  have s: "scan_rows (rows @ [e]) = scan_row ?s e" by (simp add: scan_rows_def)
  have act: "active_entity (rows @ [e]) r = (case active_entity rows r of
      None \<Rightarrow> if ey_ref e = r \<and> ey_active e then Some e else None | Some x \<Rightarrow> Some x)"
    "any_entity (rows @ [e]) r = (case any_entity rows r of
      None \<Rightarrow> if ey_ref e = r then Some e else None | Some x \<Rightarrow> Some x)"
    by (simp_all add: active_entity_def any_entity_def find_snoc)
  show ?case
  proof (cases "ey_ref e = r")
    case False
    then have "map_of (fe_found (scan_row ?s e)) r = map_of (fe_found ?s) r"
      by (simp add: scan_row_def update_conv')
    then show ?thesis using snoc False by (simp add: s act split: option.split)
  next
    case True
    have step: "map_of (fe_found (scan_row ?s e)) r =
        (if (case map_of (fe_found ?s) r of None \<Rightarrow> True | Some x \<Rightarrow> \<not> ey_active x \<and> ey_active e)
         then Some e else map_of (fe_found ?s) r)"
      using True by (simp add: scan_row_def update_conv')
    show ?thesis
    proof (cases "active_entity rows r")
      case (Some x)
      then have "ey_active x" by (auto simp: active_entity_def find_Some_iff)
      then show ?thesis using Some snoc by (simp add: s act step)
    next
      case None
      note n = this
      show ?thesis
      proof (cases "any_entity rows r")
        case (Some x)
        then have "\<not> ey_active x" using n
          by (auto simp: active_entity_def any_entity_def find_None_iff find_Some_iff)
        then show ?thesis using Some n snoc True by (simp add: s act step)
      qed (use n snoc True in \<open>simp add: s act step\<close>)
    qed
  qed
qed (simp add: scan_rows_def active_entity_def any_entity_def)

lemma scan_rows_inactive:
  "set (fe_inactive_internal (scan_rows rows)) = ey_ref ` {e \<in> set rows. \<not> ey_active e \<and> ey_internal e}"
  by (induction rows rule: rev_induct) (auto simp: scan_rows_def scan_row_def)

section \<open>One kind's policy\<close>

definition found_active :: "found_entities \<Rightarrow> entity_ref \<Rightarrow> entity_row option" where
  "found_active s r = (case map_of (fe_found s) r of Some e \<Rightarrow> if ey_active e then Some e else None | None \<Rightarrow> None)"

lemma require_facts:
  "set (py_required (require_entity s p r)) = set (py_required p) \<union>
     (case found_active s r of None \<Rightarrow> {} | Some e \<Rightarrow> {ey_id e})"
  "py_missing_required (require_entity s p r) = (py_missing_required p \<or> found_active s r = None)"
  "py_blocked (require_entity s p r) = py_blocked p" "py_missing_hard (require_entity s p r) = py_missing_hard p"
  "py_toggles (require_entity s p r) = py_toggles p" "py_toggle_refs (require_entity s p r) = py_toggle_refs p"
  by (auto simp: require_entity_def found_active_def split: option.splits)

lemma require_all:
  "set (py_required (foldl (require_entity s) p rs)) = set (py_required p) \<union>
     (\<Union>r \<in> set rs. case found_active s r of None \<Rightarrow> {} | Some e \<Rightarrow> {ey_id e})"
  "py_missing_required (foldl (require_entity s) p rs) = (py_missing_required p \<or> (\<exists>r \<in> set rs. found_active s r = None))"
  "py_blocked (foldl (require_entity s) p rs) = py_blocked p"
  "py_missing_hard (foldl (require_entity s) p rs) = py_missing_hard p"
  "py_toggles (foldl (require_entity s) p rs) = py_toggles p"
  "py_toggle_refs (foldl (require_entity s) p rs) = py_toggle_refs p"
  by (induction rs arbitrary: p) (simp_all add: require_facts Un_assoc disj_assoc)

text \<open>What a hidden filter means: its entity is excluded, optional, or cannot be judged.\<close>

definition optional :: "domain \<Rightarrow> content_filter \<Rightarrow> entity_row \<Rightarrow> bool" where
  "optional d f e \<longleftrightarrow> toggleable f \<and> \<not> ey_internal e \<and> \<not> domain_requires d (cf_entity f)"

definition filter_hard :: "found_entities \<Rightarrow> content_filter \<Rightarrow> bool" where
  "filter_hard s f \<longleftrightarrow> \<not> cf_visible f \<and>
     (cf_entity f \<in> set (fe_inactive_internal s) \<or>
      found_active s (cf_entity f) = None \<and> (\<not> toggleable f \<or>
        (case map_of (fe_found s) (cf_entity f) of Some e \<Rightarrow> ey_internal e | None \<Rightarrow> False)))"

definition filter_blocks :: "domain \<Rightarrow> found_entities \<Rightarrow> content_filter \<Rightarrow> string set" where
  "filter_blocks d s f = (if cf_visible f \<or> cf_entity f \<in> set (fe_inactive_internal s) then {}
     else (case found_active s (cf_entity f) of None \<Rightarrow> {} | Some e \<Rightarrow> if optional d f e then {} else {ey_id e}))"

definition filter_toggles :: "domain \<Rightarrow> found_entities \<Rightarrow> content_filter \<Rightarrow> (string \<times> entity_ref) set" where
  "filter_toggles d s f = (if \<not> cf_visible f \<and> cf_entity f \<in> set (fe_inactive_internal s) then {}
     else (case found_active s (cf_entity f) of None \<Rightarrow> {} | Some e \<Rightarrow> if optional d f e then {(ey_id e, cf_entity f)} else {}))"

lemma apply_filter_facts:
  "py_required (apply_filter d s p f) = py_required p"
  "py_missing_required (apply_filter d s p f) = py_missing_required p"
  "py_missing_hard (apply_filter d s p f) = (py_missing_hard p \<or> filter_hard s f)"
  "set (py_blocked (apply_filter d s p f)) = set (py_blocked p) \<union> filter_blocks d s f"
  "fst ` set (py_toggles (apply_filter d s p f)) = fst ` set (py_toggles p) \<union> fst ` filter_toggles d s f"
  by (auto simp: apply_filter_def filter_hard_def filter_blocks_def filter_toggles_def found_active_def optional_def
      dom_map_of_conv_image_fst [symmetric] update_conv' split: option.splits if_splits)

lemma apply_filters:
  "py_required (foldl (apply_filter d s) p fs) = py_required p"
  "py_missing_required (foldl (apply_filter d s) p fs) = py_missing_required p"
  "py_missing_hard (foldl (apply_filter d s) p fs) = (py_missing_hard p \<or> (\<exists>f \<in> set fs. filter_hard s f))"
  "set (py_blocked (foldl (apply_filter d s) p fs)) = set (py_blocked p) \<union> (\<Union>f \<in> set fs. filter_blocks d s f)"
  "fst ` set (py_toggles (foldl (apply_filter d s) p fs)) = fst ` set (py_toggles p) \<union> (\<Union>f \<in> set fs. fst ` filter_toggles d s f)"
  by (induction fs arbitrary: p) (simp_all add: apply_filter_facts Un_assoc disj_assoc)

lemma kind_policy_facts:
  fixes d applies s kind
  defines "fs \<equiv> if kind \<in> set applies then d_filters d else []"
  shows "set (py_required (kind_policy d applies s kind)) =
      (\<Union>r \<in> set (required_of d kind). case found_active s r of None \<Rightarrow> {} | Some e \<Rightarrow> {ey_id e})"
    "py_missing_required (kind_policy d applies s kind) \<longleftrightarrow> (\<exists>r \<in> set (required_of d kind). found_active s r = None)"
    "py_missing_hard (kind_policy d applies s kind) \<longleftrightarrow> (\<exists>f \<in> set fs. filter_hard s f)"
    "set (py_blocked (kind_policy d applies s kind)) = (\<Union>f \<in> set fs. filter_blocks d s f)"
    "fst ` set (py_toggles (kind_policy d applies s kind)) = (\<Union>f \<in> set fs. fst ` filter_toggles d s f)"
  unfolding kind_policy_def fs_def apply_filters require_all by (simp_all add: empty_policy_def)

section \<open>The rule of a domain\<close>

text \<open>
  Over the entity table: at most one entity of a kind and slug is active. The answer of the
  query is the rows of the references asked for.
\<close>

definition table_ok :: "entity_row list \<Rightarrow> bool" where
  "table_ok table \<longleftrightarrow> distinct (map ey_ref (filter ey_active table))"

definition answers :: "entity_row list \<Rightarrow> entity_query \<Rightarrow> bool" where
  "answers table query \<longleftrightarrow> (\<forall>refs rows. query refs = Inr rows \<longrightarrow> set rows = {e \<in> set table. ey_ref e \<in> set refs})"

definition active_as :: "entity_row list \<Rightarrow> entity_ref \<Rightarrow> entity_row \<Rightarrow> bool" where
  "active_as table r e \<longleftrightarrow> e \<in> set table \<and> ey_ref e = r \<and> ey_active e"

definition hides_well :: "entity_row list \<Rightarrow> domain \<Rightarrow> string list \<Rightarrow> content_filter \<Rightarrow> bool" where
  "hides_well table d ids f \<longleftrightarrow>
     \<not> (\<exists>e \<in> set table. ey_ref e = cf_entity f \<and> ey_internal e \<and> \<not> ey_active e) \<and>
     (if \<exists>e. active_as table (cf_entity f) e
      then \<forall>e. active_as table (cf_entity f) e \<longrightarrow> optional d f e \<or> ey_id e \<notin> set ids
      else toggleable f)"

definition domain_rule :: "entity_row list \<Rightarrow> domain \<Rightarrow> string list \<Rightarrow> string \<Rightarrow> string list \<Rightarrow> bool" where
  "domain_rule table d applies kind ids \<longleftrightarrow>
     (\<forall>r \<in> set (required_of d kind). \<exists>e. active_as table r e \<and> ey_id e \<in> set ids) \<and>
     (kind \<in> set applies \<longrightarrow> (\<forall>f \<in> set (d_filters d). \<not> cf_visible f \<longrightarrow> hides_well table d ids f))"

lemma active_unique: "table_ok table \<Longrightarrow> active_as table r e \<Longrightarrow> active_as table r e' \<Longrightarrow> e = e'"
proof -
  assume t: "table_ok table" and "active_as table r e" "active_as table r e'"
  then have "e \<in> set (filter ey_active table)" "e' \<in> set (filter ey_active table)" "ey_ref e = ey_ref e'"
    by (simp_all add: active_as_def)
  then show "e = e'" using t unfolding table_ok_def distinct_map by (auto dest: inj_onD)
qed

lemma found_active_rows: "found_active (scan_rows rows) r = active_entity rows r"
proof (cases "active_entity rows r")
  case None
  then have "any_entity rows r = Some e \<Longrightarrow> \<not> ey_active e" for e
    by (auto simp: active_entity_def any_entity_def find_None_iff find_Some_iff)
  then show ?thesis using None by (simp add: found_active_def scan_rows_found split: option.split)
next
  case (Some e)
  then have "ey_active e" by (auto simp: active_entity_def find_Some_iff)
  then show ?thesis using Some by (simp add: found_active_def scan_rows_found)
qed

lemma active_entity_iff:
  assumes "table_ok table" "set rows = {e \<in> set table. ey_ref e \<in> R}" "r \<in> R"
  shows "active_entity rows r = Some e \<longleftrightarrow> active_as table r e"
proof
  assume "active_entity rows r = Some e"
  then have "e \<in> set rows" "ey_ref e = r" "ey_active e" by (auto simp: active_entity_def find_Some_iff)
  then show "active_as table r e" using assms(2) by (auto simp: active_as_def)
next
  assume e: "active_as table r e"
  then have "e \<in> set rows" using assms(2,3) by (auto simp: active_as_def)
  then obtain e' where e': "active_entity rows r = Some e'"
    using e by (cases "active_entity rows r") (auto simp: active_entity_def find_None_iff active_as_def)
  then have "active_as table r e'" using assms(2) by (auto simp: active_entity_def find_Some_iff active_as_def)
  then show "active_entity rows r = Some e" using e' active_unique [OF assms(1) e] by simp
qed

lemma required_target: "required_of d kind \<noteq> [] \<Longrightarrow> kind \<in> set (policy_targets d applies)"
  by (auto simp: required_of_def policy_targets_def split: option.splits dest!: map_of_SomeD intro: rev_image_eqI)

lemma required_refs: "r \<in> set (required_of d kind) \<Longrightarrow> r \<in> set (policy_refs d)"
proof -
  assume r: "r \<in> set (required_of d kind)"
  then obtain rs where "map_of (d_require_entities d) kind = Some rs" "r \<in> set rs"
    by (cases "map_of (d_require_entities d) kind") (simp_all add: required_of_def)
  then have "(kind, rs) \<in> set (d_require_entities d)" "r \<in> set rs" by (auto dest: map_of_SomeD)
  then show ?thesis by (force simp: policy_refs_def)
qed

lemma filter_refs: "f \<in> set (d_filters d) \<Longrightarrow> cf_entity f \<in> set (policy_refs d)"
  by (simp add: policy_refs_def)

lemma resolved_policy:
  assumes "resolve_policies query d applies = Inr ps" "answers table query"
  obtains rows where "set rows = {e \<in> set table. ey_ref e \<in> set (policy_refs d)}"
    "ps = map (\<lambda>kind. (kind, kind_policy d applies (scan_rows rows) kind)) (policy_targets d applies)"
proof (cases "policy_refs d = []")
  case True
  then have "ps = map (\<lambda>kind. (kind, kind_policy d applies (scan_rows []) kind)) (policy_targets d applies)"
    using assms(1) by (simp add: resolve_policies_def)
  then show ?thesis using True by (intro that [of "[]"]) simp_all
next
  case False
  then obtain rows where "query (policy_refs d) = Inr rows"
    "ps = map (\<lambda>kind. (kind, kind_policy d applies (scan_rows rows) kind)) (policy_targets d applies)"
    using assms(1) by (auto simp: resolve_policies_def bindr_Inr_iff)
  then show ?thesis using assms(2) by (intro that [of rows]) (auto simp: answers_def)
qed

lemma hides_well_found:
  assumes "table_ok table" "set rows = {e \<in> set table. ey_ref e \<in> set (policy_refs d)}" "f \<in> set (d_filters d)"
    "\<not> cf_visible f"
  shows "hides_well table d ids f \<longleftrightarrow> \<not> filter_hard (scan_rows rows) f \<and> filter_blocks d (scan_rows rows) f \<inter> set ids = {}"
proof -
  let ?r = "cf_entity f"
  have r: "?r \<in> set (policy_refs d)" by (rule filter_refs [OF assms(3)])
  have gone: "?r \<in> set (fe_inactive_internal (scan_rows rows)) \<longleftrightarrow>
      (\<exists>e \<in> set table. ey_ref e = ?r \<and> ey_internal e \<and> \<not> ey_active e)"
    unfolding scan_rows_inactive assms(2) using r by force
  have act: "active_entity rows ?r = Some e \<longleftrightarrow> active_as table ?r e" for e
    by (rule active_entity_iff [OF assms(1,2) r])
  have inner: "map_of (fe_found (scan_rows rows)) ?r = Some e \<Longrightarrow> active_entity rows ?r = None \<Longrightarrow> ey_internal e \<Longrightarrow>
      \<exists>e \<in> set table. ey_ref e = ?r \<and> ey_internal e \<and> \<not> ey_active e" for e
  proof -
    assume "map_of (fe_found (scan_rows rows)) ?r = Some e" and n: "active_entity rows ?r = None" and i: "ey_internal e"
    then have "any_entity rows ?r = Some e" by (simp add: scan_rows_found)
    then have "e \<in> set rows" "ey_ref e = ?r" by (auto simp: any_entity_def find_Some_iff)
    moreover have "\<not> ey_active e" using n calculation by (auto simp: active_entity_def find_None_iff)
    ultimately show ?thesis using assms(2) i by blast
  qed
  show ?thesis
  proof (cases "active_entity rows ?r")
    case None
    then have "\<not> (\<exists>e. active_as table ?r e)" using act by auto
    then show ?thesis
      using None inner assms(4)
      by (auto simp: hides_well_def filter_hard_def filter_blocks_def found_active_rows gone split: option.splits)
  next
    case (Some e)
    then have "active_as table ?r e" using act by simp
    then have "\<exists>e. active_as table ?r e" "active_as table ?r e' \<longleftrightarrow> e' = e" for e'
      using active_unique [OF assms(1)] by auto
    then show ?thesis
      using Some assms(4) by (auto simp: hides_well_def filter_hard_def filter_blocks_def found_active_rows gone)
  qed
qed

lemma policies_allow_set:
  "map_of ps kind = Some p \<Longrightarrow> policies_allow ps kind ids \<longleftrightarrow>
     \<not> py_missing_hard p \<and> \<not> py_missing_required p \<and> set (py_required p) \<subseteq> set ids \<and> set (py_blocked p) \<inter> set ids = {}"
  by (auto simp: policies_allow_def list_all_iff)

lemma reorder:
  "(\<not> Bex F h \<and> \<not> (\<exists>r \<in> R. n r) \<and> C \<and> D) = (((\<forall>f \<in> F. \<not> h f) \<and> D) \<and> (\<forall>r \<in> R. \<not> n r) \<and> C)"
  by blast

lemma ball_pair:
  "(\<And>r. r \<in> R \<Longrightarrow> A r \<and> B r \<longleftrightarrow> C r) \<Longrightarrow> (\<forall>r \<in> R. A r) \<and> (\<forall>r \<in> R. B r) \<longleftrightarrow> (\<forall>r \<in> R. C r)"
  by blast

lemma union_iffs: "(\<Union>r \<in> R. g r) \<subseteq> I \<longleftrightarrow> (\<forall>r \<in> R. g r \<subseteq> I)" "(\<Union>r \<in> R. g r) \<inter> I = {} \<longleftrightarrow> (\<forall>r \<in> R. g r \<inter> I = {})"
  by blast+

text \<open>
  C26: the resolved policies of a domain admit content of a kind exactly when every entity the
  domain requires of the kind is active and among the content's, and every hidden filter of
  the domain is judged: no internal entity of its name has been retired, and its active
  entity is optional for readers or not among the content's; a hidden filter without an
  active entity only passes when readers could have toggled it.
\<close>

theorem policies_exact:
  assumes "resolve_policies query d applies = Inr ps" "answers table query" "table_ok table"
  shows "policies_allow ps kind ids \<longleftrightarrow> domain_rule table d applies kind ids"
proof -
  obtain rows where rows: "set rows = {e \<in> set table. ey_ref e \<in> set (policy_refs d)}"
    and ps: "ps = map (\<lambda>kind. (kind, kind_policy d applies (scan_rows rows) kind)) (policy_targets d applies)"
    using resolved_policy [OF assms(1,2)] by blast
  have act: "found_active (scan_rows rows) r = Some e \<longleftrightarrow> active_as table r e" if "r \<in> set (required_of d kind)" for r e
    unfolding found_active_rows by (rule active_entity_iff [OF assms(3) rows required_refs [OF that]])
  show ?thesis
  proof (cases "kind \<in> set (policy_targets d applies)")
    case False
    then have "map_of ps kind = None" unfolding ps by (simp add: map_of_eq_None_iff image_image)
    moreover have "required_of d kind = []" using False required_target by blast
    moreover have "kind \<notin> set applies" using False by (simp add: policy_targets_def)
    ultimately show ?thesis by (simp add: policies_allow_def domain_rule_def)
  next
    case True
    let ?s = "scan_rows rows" and ?fs = "if kind \<in> set applies then d_filters d else []"
    have p: "map_of ps kind = Some (kind_policy d applies ?s kind)"
      using True unfolding ps by (simp add: map_of_map_restrict)
    have "policies_allow ps kind ids \<longleftrightarrow>
        ((\<forall>f \<in> set ?fs. \<not> filter_hard ?s f) \<and> (\<forall>f \<in> set ?fs. filter_blocks d ?s f \<inter> set ids = {})) \<and>
        (\<forall>r \<in> set (required_of d kind). found_active ?s r \<noteq> None) \<and>
        (\<forall>r \<in> set (required_of d kind). (case found_active ?s r of None \<Rightarrow> {} | Some e \<Rightarrow> {ey_id e}) \<subseteq> set ids)"
      unfolding policies_allow_set [OF p] kind_policy_facts union_iffs by (rule reorder)
    also have "\<dots> \<longleftrightarrow> (\<forall>f \<in> set ?fs. \<not> filter_hard ?s f \<and> filter_blocks d ?s f \<inter> set ids = {}) \<and>
        (\<forall>r \<in> set (required_of d kind). \<exists>e. active_as table r e \<and> ey_id e \<in> set ids)"
    proof (intro arg_cong2 [where f = "(\<and>)"] ball_pair refl)
      show "found_active ?s r \<noteq> None \<and> (case found_active ?s r of None \<Rightarrow> {} | Some e \<Rightarrow> {ey_id e}) \<subseteq> set ids \<longleftrightarrow>
          (\<exists>e. active_as table r e \<and> ey_id e \<in> set ids)" if "r \<in> set (required_of d kind)" for r
      proof (cases "found_active ?s r")
        case None
        then have "\<not> active_as table r e" for e using act [OF that, of e] by simp
        then show ?thesis using None by simp
      next
        case (Some e)
        then have "active_as table r e' \<longleftrightarrow> e' = e" for e' using act [OF that, of e'] by auto
        then show ?thesis using Some by simp
      qed
    qed
    also have "(\<forall>f \<in> set ?fs. \<not> filter_hard ?s f \<and> filter_blocks d ?s f \<inter> set ids = {}) \<longleftrightarrow>
        (kind \<in> set applies \<longrightarrow> (\<forall>f \<in> set (d_filters d). \<not> cf_visible f \<longrightarrow> hides_well table d ids f))"
      using hides_well_found [OF assms(3) rows] by (auto simp: filter_hard_def filter_blocks_def)
    finally show ?thesis by (simp add: domain_rule_def conj_commute)
  qed
qed

section \<open>The SQL of policies\<close>

lemma policy_sql_rows:
  assumes "distinct (map fst ps)"
  shows "policy_admits (policies_sql ps) kind ids \<longleftrightarrow> policies_allow ps kind ids"
proof (cases "map_of ps kind")
  case None
  then have "kind \<notin> fst ` set ps" by (simp add: map_of_eq_None_iff)
  then show ?thesis using None by (auto simp: policy_admits_def policies_sql_def policies_allow_def Let_def)
next
  case (Some p)
  then have "kind \<in> set (map fst ps)" "ps \<noteq> []" by (auto dest: map_of_SomeD intro: rev_image_eqI)
  then show ?thesis using Some
    by (auto simp: policy_admits_def policies_sql_def policies_allow_def Let_def list_ex_iff list_all_iff)
qed

text \<open>
  the SQL of policies admits exactly the rows \<open>Allows\<close> allows, kinds without a policy
  included.
\<close>

theorem policy_sql_agrees:
  assumes "distinct (map fst ps)"
  shows "policy_admits (policies_sql ps) kind ids \<longleftrightarrow> policies_allow ps kind ids"
  using assms by (rule policy_sql_rows)

section \<open>A reader's choices\<close>

lemma map_of_updates:
  "distinct (map k cs) \<Longrightarrow> map_of (foldl (\<lambda>m c. AList.update (k c) (v c) m) m0 cs) x =
     (case List.find (\<lambda>c. k c = x) cs of None \<Rightarrow> map_of m0 x | Some c \<Rightarrow> Some (v c))"
proof (induction cs arbitrary: m0)
  case (Cons c cs)
  then have "k c = x \<Longrightarrow> List.find (\<lambda>c. k c = x) cs = None"
    by (auto simp: find_None_iff) (metis imageI)
  then show ?case using Cons by (auto simp: update_conv' split: option.split)
qed simp

lemma choice_step_Inr:
  "choice_step allowed False c st = Inr st' \<longleftrightarrow> guest_choice_ok c \<and> gf_entity c \<notin> set (snd st) \<and> allowed (gf_entity c) \<and>
     st' = (AList.update (pref_key (gf_entity c)) (guest_value c) (fst st), gf_entity c # snd st)"
  by (auto simp: choice_step_def)

lemma choices_fold:
  "fold_result (choice_step allowed False) cs (patch, seen) = Inr (patch', seen') \<Longrightarrow>
   patch' = foldl (\<lambda>m c. AList.update (pref_key (gf_entity c)) (guest_value c) m) patch cs \<and>
   distinct (map gf_entity cs) \<and> set (map gf_entity cs) \<inter> set seen = {} \<and>
   list_all (\<lambda>c. allowed (gf_entity c) \<and> guest_choice_ok c) cs"
proof (induction cs arbitrary: patch seen)
  case (Cons c cs)
  from Cons.prems have ok: "guest_choice_ok c" "gf_entity c \<notin> set seen" "allowed (gf_entity c)"
    and r: "fold_result (choice_step allowed False) cs
      (AList.update (pref_key (gf_entity c)) (guest_value c) patch, gf_entity c # seen) = Inr (patch', seen')"
    by (auto simp: bindr_Inr_iff choice_step_Inr)
  show ?case using Cons.IH [OF r] ok by auto
qed simp

text \<open>The legacy choices do not see a key without a slash.\<close>

lemma legacy_skip: "CHR ''/'' \<notin> set k \<Longrightarrow> legacy_choice e st (k, v) = st"
  by (simp add: legacy_choice_def)

lemma legacy_update:
  "CHR ''/'' \<notin> set k \<Longrightarrow> foldl (legacy_choice e) st (AList.update k v m) = foldl (legacy_choice e) st m"
  by (induction m arbitrary: st) (auto simp: legacy_skip)

lemma legacy_updates:
  "\<forall>c \<in> set cs. CHR ''/'' \<notin> set (k c) \<Longrightarrow>
   foldl (legacy_choice e) st (foldl (\<lambda>m c. AList.update (k c) (v c) m) m cs) = foldl (legacy_choice e) st m"
  by (induction cs arbitrary: m) (simp_all add: legacy_update)

lemma pref_key_inj [simp]: "pref_key a = pref_key b \<longleftrightarrow> a = b"
  by (simp add: pref_key_def)

lemma stored_pref_cong:
  "map_of vs (pref_key e) = map_of ws (pref_key e) \<Longrightarrow>
   foldl (legacy_choice e) (0, []) vs = foldl (legacy_choice e) (0, []) ws \<Longrightarrow>
   map_of vs e = map_of ws e \<Longrightarrow> stored_pref vs e = stored_pref ws e"
  by (simp only: stored_pref_def)

definition choice_meaning :: "guest_filter \<Rightarrow> bool \<times> bool" where
  "choice_meaning c = (case gf_visible c of None \<Rightarrow> (False, False) | Some b \<Rightarrow> (b, True))"

lemma stored_canonical: "map_of vs (pref_key e) = Some (guest_value c) \<Longrightarrow> stored_pref vs e = choice_meaning c"
  by (auto simp: stored_pref_def guest_value_def choice_meaning_def pref_show_def pref_hide_def pref_default_def
      split: option.splits)

text \<open>Choices written over a document.\<close>

definition written :: "guest_filter list \<Rightarrow> (string \<times> string) list \<Rightarrow> (string \<times> string) list" where
  "written cs m = foldl (\<lambda>m c. AList.update (pref_key (gf_entity c)) (guest_value c) m) m cs"

lemma written_lookup:
  assumes "distinct (map gf_entity cs)"
  shows "map_of (written cs m) x = (case List.find (\<lambda>c. pref_key (gf_entity c) = x) cs of
     None \<Rightarrow> map_of m x | Some c \<Rightarrow> Some (guest_value c))"
proof -
  have "distinct (map (\<lambda>c. pref_key (gf_entity c)) cs)"
    using assms by (simp add: distinct_map inj_on_def)
  then show ?thesis unfolding written_def by (rule map_of_updates)
qed

lemma written_stored:
  assumes "distinct (map gf_entity cs)" "\<forall>c \<in> set cs. CHR ''/'' \<notin> set (gf_entity c)"
  shows "c \<in> set cs \<Longrightarrow> stored_pref (written cs m) (gf_entity c) = choice_meaning c"
    "e \<notin> gf_entity ` set cs \<Longrightarrow> CHR '':'' \<notin> set e \<Longrightarrow> stored_pref (written cs m) e = stored_pref m e"
proof -
  assume c: "c \<in> set cs"
  have "List.find (\<lambda>c'. pref_key (gf_entity c') = pref_key (gf_entity c)) cs = Some c"
    using find_key_iff [of gf_entity cs "gf_entity c" c] assms(1) c by simp
  then show "stored_pref (written cs m) (gf_entity c) = choice_meaning c"
    by (intro stored_canonical) (simp add: written_lookup [OF assms(1)])
next
  assume e: "e \<notin> gf_entity ` set cs" "CHR '':'' \<notin> set e"
  have "CHR '':'' \<in> set (pref_key i)" for i by (simp add: pref_key_def)
  then have "List.find (\<lambda>c. pref_key (gf_entity c) = e) cs = None" using e(2) by (auto simp: find_None_iff)
  moreover have "List.find (\<lambda>c. pref_key (gf_entity c) = pref_key e) cs = None" using e(1) by (auto simp: find_None_iff)
  moreover have "foldl (legacy_choice e) (0, []) (written cs m) = foldl (legacy_choice e) (0, []) m"
    unfolding written_def by (rule legacy_updates) (use assms(2) in \<open>simp add: pref_key_def\<close>)
  ultimately show "stored_pref (written cs m) e = stored_pref m e"
    by (intro stored_pref_cong) (simp_all add: written_lookup [OF assms(1)])
qed

lemma distinct_updates: "distinct (map fst m) \<Longrightarrow> distinct (map fst (foldl (\<lambda>m c. AList.update (k c) (v c) m) m cs))"
  by (induction cs arbitrary: m) (simp_all add: distinct_update)

lemma find_map_of:
  "distinct (map fst m) \<Longrightarrow> List.find (\<lambda>c. fst c = x) m = (case map_of m x of None \<Rightarrow> None | Some v \<Rightarrow> Some (x, v))"
  by (induction m) auto

text \<open>The entities a reader may toggle are public and active, and not required.\<close>

lemma update_values: "snd ` set (AList.update k v al) \<subseteq> insert v (snd ` set al)"
  by (induction al) auto

lemma apply_filter_refs:
  "snd ` set (py_toggle_refs (apply_filter d s p f)) \<subseteq> snd ` set (py_toggle_refs p) \<union> fst ` filter_toggles d s f"
proof -
  have "py_toggle_refs (apply_filter d s p f) =
      (if \<not> cf_visible f \<and> cf_entity f \<in> set (fe_inactive_internal s) then py_toggle_refs p
       else (case found_active s (cf_entity f) of
           None \<Rightarrow> py_toggle_refs p
         | Some e \<Rightarrow> if optional d f e then AList.update (cf_entity f) (ey_id e) (py_toggle_refs p) else py_toggle_refs p))"
    unfolding apply_filter_def found_active_def [symmetric] optional_def
    by (simp split: option.split)
  then show ?thesis
    using update_values [of "cf_entity f" _ "py_toggle_refs p"]
    by (auto simp: filter_toggles_def split: option.splits if_splits)
qed

lemma apply_filters_refs:
  "snd ` set (py_toggle_refs (foldl (apply_filter d s) p fs)) \<subseteq>
     snd ` set (py_toggle_refs p) \<union> (\<Union>f \<in> set fs. fst ` filter_toggles d s f)"
proof (induction fs arbitrary: p)
  case (Cons f fs)
  show ?case unfolding foldl_Cons
    using Cons [of "apply_filter d s p f"] apply_filter_refs [of d s p f] by auto
qed simp

lemma inventory_fold:
  "snd ` set (foldl (\<lambda>m (r, i). AList.update r i m) out rs) \<subseteq> snd ` set out \<union> snd ` set rs"
proof (induction rs arbitrary: out)
  case (Cons x rs)
  obtain r i where x: "x = (r, i)" by (cases x)
  show ?case using Cons [of "AList.update r i out"] update_values [of r i out] by (auto simp: x)
qed simp

lemma inventory_values:
  "snd ` set (inventory_of ps out) \<subseteq> snd ` set out \<union> (\<Union>kp \<in> set ps. snd ` set (py_toggle_refs (snd kp)))"
proof (induction ps arbitrary: out)
  case (Cons kp ps)
  obtain k p where kp: "kp = (k, p)" by (cases kp)
  let ?o = "foldl (\<lambda>m (r, i). AList.update r i m) out (py_toggle_refs p)"
  have "inventory_of (kp # ps) out = inventory_of ps ?o" by (simp add: inventory_of_def kp)
  then show ?case using Cons [of ?o] inventory_fold [of out "py_toggle_refs p"] by (auto simp: kp)
qed (simp add: inventory_of_def)

lemma allowed_public:
  assumes "filter_inventory query [d] applies = Inr known" "answers table query" "table_ok table"
    "inventory_allowed known i"
  shows "\<exists>f \<in> set (d_filters d). \<exists>e. active_as table (cf_entity f) e \<and> ey_id e = i \<and> optional d f e"
proof -
  obtain ps where ps: "resolve_policies query d applies = Inr ps" "known = inventory_of ps []"
    using assms(1) by (cases "resolve_policies query d applies") (auto simp: filter_inventory_def)
  obtain rows where rows: "set rows = {e \<in> set table. ey_ref e \<in> set (policy_refs d)}"
    and p: "ps = map (\<lambda>kind. (kind, kind_policy d applies (scan_rows rows) kind)) (policy_targets d applies)"
    using resolved_policy [OF ps(1) assms(2)] by blast
  have "i \<in> (\<Union>kp \<in> set ps. snd ` set (py_toggle_refs (snd kp)))"
  proof -
    have "i \<in> snd ` set (inventory_of ps [])" using assms(4) ps(2) by (simp add: inventory_allowed_def)
    moreover have "snd ` set (inventory_of ps []) \<subseteq> (\<Union>kp \<in> set ps. snd ` set (py_toggle_refs (snd kp)))"
      using inventory_values [of ps "[]"] by simp
    ultimately show ?thesis by (rule rev_subsetD)
  qed
  then obtain kind where "i \<in> snd ` set (py_toggle_refs (kind_policy d applies (scan_rows rows) kind))"
    by (auto simp: p)
  then obtain f where f: "f \<in> set (d_filters d)" "i \<in> fst ` filter_toggles d (scan_rows rows) f"
    using apply_filters_refs [of d "scan_rows rows" "foldl (require_entity (scan_rows rows)) empty_policy (required_of d kind)"
        "if kind \<in> set applies then d_filters d else []"]
    by (auto simp: kind_policy_def require_all(6) empty_policy_def split: if_splits)
  then obtain e where "active_entity rows (cf_entity f) = Some e" "optional d f e" "ey_id e = i"
    by (auto simp: filter_toggles_def found_active_rows split: if_splits option.splits)
  then show ?thesis
    using f(1) active_entity_iff [OF assms(3) rows filter_refs [OF f(1)]] by blast
qed

text \<open>
  a reader's choices are saved for that account alone: only a signed-in reader has any,
  every chosen entity is a filter of the domain that is public, active and optional, each
  choice then reads back as it was made, and every other entity as before.
\<close>

theorem choices_saved:
  assumes "set_content_filters query d applies a choices t = Inr t'" "answers table query" "table_ok table"
    "\<forall>e \<in> set table. CHR ''/'' \<notin> set (ey_id e)"
  shows "is_member a \<and> (\<forall>u. u \<noteq> account_id a \<longrightarrow> t' u = t u) \<and>
    (\<exists>saved. t' (account_id a) = Some saved \<and>
      (\<forall>c \<in> set choices. stored_pref saved (gf_entity c) = choice_meaning c \<and>
        (\<exists>f \<in> set (d_filters d). \<exists>e. active_as table (cf_entity f) e \<and> ey_id e = gf_entity c \<and> optional d f e)) \<and>
      (\<forall>i. i \<notin> gf_entity ` set choices \<longrightarrow> CHR '':'' \<notin> set i \<longrightarrow>
        stored_pref saved i = stored_pref (case t (account_id a) of None \<Rightarrow> [] | Some m \<Rightarrow> m) i))"
proof -
  let ?u = "account_id a" and ?old = "case t (account_id a) of None \<Rightarrow> [] | Some m \<Rightarrow> m"
  obtain known patch seen where k: "is_member a" "filter_inventory query [d] applies = Inr known"
    "fold_result (choice_step (inventory_allowed known) False) choices ([], []) = Inr (patch, seen)"
    "t' = save_prefs False ?u patch t"
    using assms(1) by (auto simp: set_content_filters_def save_content_filters_def bindr_Inr_iff split: if_splits sum.splits)
  note cs = choices_fold [OF k(3)]
  have d: "distinct (map gf_entity choices)" and patch: "patch = written choices []"
    using cs by (simp_all add: written_def)
  have pub: "\<exists>f \<in> set (d_filters d). \<exists>e. active_as table (cf_entity f) e \<and> ey_id e = gf_entity c \<and> optional d f e"
    if "c \<in> set choices" for c
    using allowed_public [OF k(2) assms(2,3)] cs that by (auto simp: list_all_iff)
  then have slash: "\<forall>c \<in> set choices. CHR ''/'' \<notin> set (gf_entity c)"
    using assms(4) by (fastforce simp: active_as_def)
  define saved where "saved = (case t ?u of None \<Rightarrow> patch | Some old \<Rightarrow> foldl (\<lambda>m (k, v). AList.update k v m) old patch)"
  have t': "t' = t(?u \<mapsto> saved)" by (simp add: k(4) save_prefs_def saved_def split: option.split)
  have same: "stored_pref saved i = stored_pref (written choices ?old) i" for i
  proof (cases "t ?u")
    case None
    then show ?thesis by (simp add: saved_def patch)
  next
    case (Some old)
    have dp: "distinct (map fst patch)"
      unfolding patch written_def by (rule distinct_updates) simp
    have s: "saved = foldl (\<lambda>m c. AList.update (fst c) (snd c) m) old patch"
      by (simp add: saved_def Some case_prod_unfold)
    have "map_of saved x = map_of (written choices old) x" for x
    proof -
      have "map_of patch x = (case List.find (\<lambda>c. pref_key (gf_entity c) = x) choices of
          None \<Rightarrow> None | Some c \<Rightarrow> Some (guest_value c))"
        unfolding patch by (simp add: written_lookup [OF d] split: option.split)
      moreover have "map_of saved x = (case map_of patch x of None \<Rightarrow> map_of old x | Some v \<Rightarrow> Some v)"
        unfolding s map_of_updates [of fst, OF dp] find_map_of [OF dp] by (simp split: option.split)
      ultimately show ?thesis by (simp add: written_lookup [OF d] split: option.split)
    qed
    moreover have "\<forall>c \<in> set patch. CHR ''/'' \<notin> set (fst c)"
    proof
      fix kv assume "kv \<in> set patch"
      then have "map_of patch (fst kv) \<noteq> None" by (auto simp: map_of_eq_None_iff)
      then have "List.find (\<lambda>c. pref_key (gf_entity c) = fst kv) choices \<noteq> None"
        unfolding patch written_lookup [OF d] by (auto split: option.splits)
      then obtain c where "c \<in> set choices" "pref_key (gf_entity c) = fst kv"
        by (auto simp: find_None_iff)
      then show "CHR ''/'' \<notin> set (fst kv)" using slash by (auto simp: pref_key_def dest: sym)
    qed
    then have "foldl (legacy_choice i) (0, []) saved = foldl (legacy_choice i) (0, []) old"
      unfolding s by (rule legacy_updates)
    moreover have "foldl (legacy_choice i) (0, []) (written choices old) = foldl (legacy_choice i) (0, []) old"
      unfolding written_def by (rule legacy_updates) (use slash in \<open>simp add: pref_key_def\<close>)
    ultimately show ?thesis by (intro stored_pref_cong) (simp_all add: Some)
  qed
  show ?thesis
    using k(1) pub written_stored [OF d slash] same by (auto simp: t')
qed

section \<open>A domain\<close>

definition sample_ref :: entity_ref where "sample_ref = \<lparr>er_kind = ''tag'', er_slug = ''gore''\<rparr>"

definition sample_need :: entity_ref where "sample_need = \<lparr>er_kind = ''tag'', er_slug = ''art''\<rparr>"

definition sample_filter_domain :: domain where
  "sample_filter_domain = \<lparr>d_name = ''main'', d_hosts = [''a''], d_require_entities = [(''post'', [sample_need])],
     d_filters = [\<lparr>cf_entity = sample_ref, cf_visible = False, cf_user_toggle = None\<rparr>]\<rparr>"

definition sample_table :: "entity_row list" where
  "sample_table = [\<lparr>ey_ref = sample_ref, ey_id = ''g1'', ey_internal = False, ey_active = True\<rparr>,
     \<lparr>ey_ref = sample_need, ey_id = ''a1'', ey_internal = False, ey_active = True\<rparr>]"

definition sample_query :: entity_query where
  "sample_query refs = Inr (filter (\<lambda>e. ey_ref e \<in> set refs) sample_table)"

definition sample_policies :: policies where
  "sample_policies = (case resolve_policies sample_query sample_filter_domain [''post''] of Inr ps \<Rightarrow> ps | Inl _ \<Rightarrow> [])"

lemma sample_answers: "answers sample_table sample_query" "table_ok sample_table"
  by (auto simp: answers_def sample_query_def table_ok_def sample_table_def sample_ref_def sample_need_def)

lemma sample_policies_resolved: "resolve_policies sample_query sample_filter_domain [''post''] = Inr sample_policies"
  by code_simp

theorem policies_exact_witness:
  "policies_allow sample_policies ''post'' [''a1'', ''g1''] \<and> \<not> domain_rule sample_table sample_filter_domain [''post''] ''post'' [''g1'']"
proof -
  note p = policies_exact [OF sample_policies_resolved sample_answers]
  have "policies_allow sample_policies ''post'' [''a1'', ''g1'']" "\<not> policies_allow sample_policies ''post'' [''g1'']"
    by code_simp+
  then show ?thesis using p by blast
qed

theorem policy_sql_agrees_witness:
  "policy_admits (policies_sql sample_policies) ''post'' [''a1''] \<longleftrightarrow> policies_allow sample_policies ''post'' [''a1'']"
  by (rule policy_sql_agrees) code_simp

definition sample_choice :: guest_filter where
  "sample_choice = \<lparr>gf_entity = ''g1'', gf_visible = Some True, gf_default = None\<rparr>"

definition sample_reader :: actor where
  "sample_reader = \<lparr>a_id = ''u1'', a_account = None, a_kind = SubjectUser, a_ip = [], a_anonymous = False, a_claims = None\<rparr>"

theorem choices_saved_witness:
  "\<exists>t' saved. set_content_filters sample_query sample_filter_domain [''post''] sample_reader [sample_choice] Map.empty = Inr t' \<and>
     t' (account_id sample_reader) = Some saved \<and> stored_pref saved ''g1'' = (True, True)"
proof -
  have "filter_inventory sample_query [sample_filter_domain] [''post''] = Inr [(sample_ref, ''g1'')]"
    by code_simp
  moreover have "is_member sample_reader" by code_simp
  ultimately obtain t' where t':
      "set_content_filters sample_query sample_filter_domain [''post''] sample_reader [sample_choice] Map.empty = Inr t'"
    by (auto simp: set_content_filters_def save_content_filters_def choice_step_def guest_choice_ok_def
        sample_choice_def inventory_allowed_def)
  have "\<forall>e \<in> set sample_table. CHR ''/'' \<notin> set (ey_id e)" by (simp add: sample_table_def)
  from choices_saved [OF t' sample_answers this] obtain saved where
    "t' (account_id sample_reader) = Some saved" "stored_pref saved (gf_entity sample_choice) = choice_meaning sample_choice"
    by auto
  then show ?thesis using t' by (auto simp: sample_choice_def choice_meaning_def)
qed

end
