(* ===== verification/Media_Layout.thy ===== *)
theory Media_Layout
  imports Content_Ref Slug_Props "HOL-Library.Product_Lexorder"
begin

text \<open>
  Package \<open>media/layout\<close>: the keys of media objects, which the gateway reads from URLs and
  every writer builds; scopes, blob references, and the default images of a deployment.
\<close>

section \<open>Names\<close>

definition seg_char :: "char \<Rightarrow> bool" where
  "seg_char c \<longleftrightarrow> is_lower c \<or> is_upper c \<or> is_digit c \<or> c = CHR ''.'' \<or> c = CHR ''_'' \<or> c = CHR ''-''"

definition valid_segment :: "string \<Rightarrow> bool" where
  "valid_segment s \<longleftrightarrow> s \<noteq> [] \<and> length s \<le> 128 \<and> hd s \<noteq> CHR ''.'' \<and> list_all seg_char s"

definition uuid_text :: "string \<Rightarrow> bool" where
  "uuid_text s \<longleftrightarrow> length s = 36 \<and>
     list_all (\<lambda>i. if i \<in> {8, 13, 18, 23} then s ! i = CHR ''-'' else is_hex (s ! i)) [0..<36]"

definition nil_uuid :: string where
  "nil_uuid = ''00000000-0000-0000-0000-000000000000''"

definition layout_uuid :: "string \<Rightarrow> bool" where
  "layout_uuid s \<longleftrightarrow> s \<noteq> nil_uuid \<and> uuid_text s"

definition valid_staged_name :: "string \<Rightarrow> bool" where
  "valid_staged_name name = (case cut_prefix ''u-'' name of None \<Rightarrow> False | Some i \<Rightarrow> uuid_text i)"

definition manifest_name :: string where "manifest_name = ''manifest.json''"
definition fence_name :: string where "fence_name = ''_contentkit_erased''"
definition default_id :: string where "default_id = ''_default''"

datatype area = AreaManifest | AreaPrivate | AreaPublic | AreaTemp | AreaTmp | AreaOriginals | AreaInternal

fun area_name :: "area \<Rightarrow> string" where
  "area_name AreaManifest = ''manifest''"
| "area_name AreaPrivate = ''private''"
| "area_name AreaPublic = ''public''"
| "area_name AreaTemp = ''temp''"
| "area_name AreaTmp = ''tmp''"
| "area_name AreaOriginals = ''originals''"
| "area_name AreaInternal = ''internal''"

definition folder_areas :: "area list" where
  "folder_areas = [AreaPrivate, AreaPublic, AreaTemp, AreaTmp, AreaOriginals, AreaInternal]"

definition valid_version :: "string \<Rightarrow> bool" where
  "valid_version s \<longleftrightarrow> s \<noteq> manifest_name \<and> s \<notin> set (map area_name folder_areas) \<and>
     valid_segment s \<and> hd s \<noteq> CHR ''_''"

text \<open>\<open>SplitGeneration\<close>: the extension follows the last dot.\<close>

definition split_ext :: "string \<Rightarrow> string \<times> string" where
  "split_ext name = (case last_index (CHR ''.'') name of
     None \<Rightarrow> (name, []) | Some i \<Rightarrow> (take i name, drop i name))"

definition split_generation :: "string \<Rightarrow> string option" where
  "split_generation name =
     (let (stem, ext) = split_ext name; n = length stem
      in if n < 38 \<or> stem ! (n - 37) \<noteq> CHR ''-'' \<or> \<not> uuid_text (drop (n - 36) stem) then None
         else Some (take (n - 37) stem @ ext))"

definition valid_public_name :: "string \<Rightarrow> bool" where
  "valid_public_name name \<longleftrightarrow> name \<noteq> fence_name \<and>
     (valid_segment name \<or> (case split_generation name of None \<Rightarrow> False | Some l \<Rightarrow> valid_segment l))"

definition sha256_prefix :: string where "sha256_prefix = ''sha256-''"

text \<open>\<open>ParseSHA256Name\<close>: the hex digest of a name, as it is written.\<close>

definition sha256_hex :: "string \<Rightarrow> string option" where
  "sha256_hex name = (case cut_prefix sha256_prefix name of
     None \<Rightarrow> None
   | Some h \<Rightarrow> if length h \<noteq> 64 \<or> \<not> list_all is_hex h then None else Some h)"

definition valid_hash_name :: "string \<Rightarrow> bool" where
  "valid_hash_name name \<longleftrightarrow> sha256_hex name \<noteq> None"

definition name_digest :: "string \<Rightarrow> string option" where
  "name_digest name =
     (let n = length sha256_prefix + 64
      in if length name = n then sha256_hex name
         else if length name \<noteq> n + 37 \<or> name ! n \<noteq> CHR ''-'' \<or> \<not> uuid_text (drop (n + 1) name) \<or>
           drop (n + 1) name = nil_uuid then None
         else sha256_hex (take n name))"

definition valid_blob_name :: "string \<Rightarrow> bool" where
  "valid_blob_name name \<longleftrightarrow> name_digest name \<noteq> None"

definition sha256_name :: "8 word list \<Rightarrow> string" where
  "sha256_name digest = sha256_prefix @ hex_encode digest"

definition blob_name :: "8 word list \<Rightarrow> string \<Rightarrow> string" where
  "blob_name digest allocation = sha256_name digest @ ''-'' @ allocation"

definition blob_ref :: "area \<Rightarrow> string \<Rightarrow> string" where
  "blob_ref a name = (if a \<noteq> AreaPrivate then area_name a @ ''/'' @ name else name)"

definition split_blob_ref :: "string \<Rightarrow> (area \<times> string) option" where
  "split_blob_ref ref =
     (case str_cut (CHR ''/'') ref of
        (_, None) \<Rightarrow> if valid_blob_name ref then Some (AreaPrivate, ref) else None
      | (p, Some name) \<Rightarrow>
          (case List.find (\<lambda>a. area_name a = p) [AreaOriginals, AreaInternal, AreaPublic] of
             None \<Rightarrow> None
           | Some a \<Rightarrow>
               if (if a = AreaOriginals then valid_blob_name name else valid_public_name name)
               then Some (a, name) else None))"

definition valid_blob_ref :: "string \<Rightarrow> bool" where
  "valid_blob_ref ref \<longleftrightarrow> split_blob_ref ref \<noteq> None"

definition blob_digest :: "string \<Rightarrow> string option" where
  "blob_digest ref = (case split_blob_ref ref of Some (_, name) \<Rightarrow> name_digest name | None \<Rightarrow> None)"

section \<open>Scopes\<close>

record scope =
  sc_tenant :: string
  sc_app :: string

definition no_scope :: scope where "no_scope = \<lparr>sc_tenant = [], sc_app = []\<rparr>"

definition valid_scope :: "scope \<Rightarrow> bool" where
  "valid_scope s \<longleftrightarrow> layout_uuid (sc_tenant s) \<and> (sc_app s = [] \<or> layout_uuid (sc_app s))"

definition partition_of :: "scope \<Rightarrow> string" where
  "partition_of s = (if sc_app s = [] then ''tenant_'' @ sc_tenant s
     else ''tenant_'' @ sc_tenant s @ ''_app_'' @ sc_app s)"

definition scope_segments :: "scope \<Rightarrow> string list" where
  "scope_segments s = (if sc_app s = [] then [''tenant'', sc_tenant s, ''account'']
     else [''tenant'', sc_tenant s, ''app'', sc_app s])"

definition scope_root :: "scope \<Rightarrow> string" where
  "scope_root s = join ''/'' (scope_segments s) @ ''/''"

text \<open>\<open>strings.Cut\<close> at a text.\<close>

fun cut_text :: "string \<Rightarrow> string \<Rightarrow> (string \<times> string) option" where
  "cut_text sep [] = (if sep = [] then Some ([], []) else None)"
| "cut_text sep (c # s) =
     (if has_prefix sep (c # s) then Some ([], drop (length sep) (c # s))
      else map_option (\<lambda>(a, b). (c # a, b)) (cut_text sep s))"

definition scope_from_partition :: "string \<Rightarrow> scope option" where
  "scope_from_partition p =
     (case cut_prefix ''tenant_'' p of
        None \<Rightarrow> None
      | Some r \<Rightarrow>
          (let (t, a) = (case cut_text ''_app_'' r of None \<Rightarrow> (r, []) | Some ta \<Rightarrow> ta);
               s = \<lparr>sc_tenant = t, sc_app = a\<rparr>
           in if valid_scope s \<and> partition_of s = p then Some s else None))"

section \<open>Object keys\<close>

record object_key =
  ok_namespace :: string
  ok_kind :: string
  ok_id :: string
  ok_scope :: scope
  ok_version :: string
  ok_area :: area
  ok_name :: string

text \<open>A folder, as its segments; the code joins them with slashes and a final slash.\<close>

definition item_segments :: "string \<Rightarrow> string \<Rightarrow> string \<Rightarrow> string list" where
  "item_segments kind i version = [kind, i] @ (if version \<noteq> [] then [version] else [])"

definition layout_prefix :: "string \<Rightarrow> string \<Rightarrow> string \<Rightarrow> string \<Rightarrow> string" where
  "layout_prefix namespace kind i version = join ''/'' (namespace # item_segments kind i version) @ ''/''"

definition scope_prefix :: "scope \<Rightarrow> string \<Rightarrow> string \<Rightarrow> string \<Rightarrow> string" where
  "scope_prefix s kind i version =
     scope_root s @
     (let p = layout_prefix [] kind i version in case cut_prefix ''/'' p of Some r \<Rightarrow> r | None \<Rightarrow> p)"

definition key_folder :: "object_key \<Rightarrow> string" where
  "key_folder k = (if ok_scope k \<noteq> no_scope then scope_prefix (ok_scope k) (ok_kind k) (ok_id k) (ok_version k)
     else layout_prefix (ok_namespace k) (ok_kind k) (ok_id k) (ok_version k))"

text \<open>The scope the first segments name, with the segments that follow it.\<close>

definition parse_scope :: "string list \<Rightarrow> (scope \<times> string list) option" where
  "parse_scope parts =
     (if length parts \<ge> 3 \<and> hd parts = ''tenant'' \<and> parts ! 2 \<in> {''app'', ''account''}
      then (if parts ! 2 = ''app'' \<and> length parts < 5 then None
        else (let s = \<lparr>sc_tenant = parts ! 1, sc_app = (if parts ! 2 = ''app'' then parts ! 3 else [])\<rparr>;
                  rest = drop (if parts ! 2 = ''app'' then 4 else 3) parts
              in if valid_scope s then Some (s, partition_of s # rest) else None))
      else Some (no_scope, parts))"

definition valid_name_in :: "area \<Rightarrow> string \<Rightarrow> bool" where
  "valid_name_in a name =
     (case a of
        AreaManifest \<Rightarrow> False
      | AreaPrivate \<Rightarrow> valid_blob_name name
      | AreaPublic \<Rightarrow> valid_public_name name
      | AreaTemp \<Rightarrow> valid_segment name
      | AreaTmp \<Rightarrow> valid_segment name
      | AreaOriginals \<Rightarrow> valid_blob_name name
      | AreaInternal \<Rightarrow> valid_public_name name)"

definition parse_rest :: "string list \<Rightarrow> (area \<times> string) option" where
  "parse_rest rest =
     (if rest = [manifest_name] then Some (AreaManifest, [])
      else if length rest = 2 then
        (case List.find (\<lambda>a. area_name a = hd rest) folder_areas of
           None \<Rightarrow> None
         | Some a \<Rightarrow> if valid_name_in a (rest ! 1) then Some (a, rest ! 1) else None)
      else None)"

definition parse_key_segments :: "string list \<Rightarrow> object_key option" where
  "parse_key_segments segs =
     (case parse_scope segs of
        None \<Rightarrow> None
      | Some (s, parts) \<Rightarrow>
          if length parts < 4 \<or> length parts > 6 \<or> \<not> valid_segment (parts ! 0) \<or>
             \<not> valid_segment (parts ! 1) \<or> \<not> valid_segment (parts ! 2) then None
          else (let rest = drop 3 parts;
                    (version, rest) = (if length rest > 1 \<and> valid_version (hd rest) then (hd rest, tl rest)
                      else ([], rest))
                in map_option (\<lambda>(a, name). \<lparr>ok_namespace = parts ! 0, ok_kind = parts ! 1, ok_id = parts ! 2,
                     ok_scope = s, ok_version = version, ok_area = a, ok_name = name\<rparr>) (parse_rest rest)))"

definition parse_object_key :: "string \<Rightarrow> object_key option" where
  "parse_object_key key = parse_key_segments (split_on (CHR ''/'') key)"

definition parse_folder :: "string \<Rightarrow> object_key option" where
  "parse_folder folder = (case parse_object_key (folder @ manifest_name) of
     None \<Rightarrow> None | Some k \<Rightarrow> if key_folder k = folder then Some k else None)"

section \<open>Default images\<close>

record layout_default =
  ld_namespace :: string
  ld_kind :: string
  ld_files :: "(string \<times> string) list"

definition layout_fields :: "char \<Rightarrow> string \<Rightarrow> string list" where
  "layout_fields sep s = filter (\<lambda>f. f \<noteq> []) (map trim_space (split_on sep s))"

definition default_key :: "layout_default \<Rightarrow> string" where
  "default_key d = ld_namespace d @ ''/'' @ ld_kind d"

definition valid_mapping :: "string \<times> string \<Rightarrow> bool" where
  "valid_mapping nt \<longleftrightarrow> valid_segment (fst nt) \<and> has_suffix ''.webp'' (snd nt) \<and>
     valid_hash_name (trim_suffix ''.webp'' (snd nt))"

definition compile_default ::
    "layout_default \<Rightarrow> (string \<times> (string \<times> string) list) list \<Rightarrow>
     (string, (string \<times> (string \<times> string) list) list) result" where
  "compile_default d out =
     (if map_of out (default_key d) \<noteq> None \<or> \<not> valid_segment (ld_namespace d) \<or>
         \<not> valid_segment (ld_kind d) \<or> ld_files d = [] then Inl (default_key d)
      else if \<not> list_all valid_mapping (ld_files d) then Inl (default_key d)
      else Inr (out @ [(default_key d, ld_files d)]))"

definition compile_defaults ::
    "layout_default list \<Rightarrow> (string, (string \<times> (string \<times> string) list) list) result" where
  "compile_defaults ds = fold_result compile_default ds []"

definition parse_mapping ::
    "string \<Rightarrow> (string \<times> string) list \<Rightarrow> (string, (string \<times> string) list) result" where
  "parse_mapping entry files =
     (case str_cut (CHR ''='') entry of
        (_, None) \<Rightarrow> Inl entry
      | (name, Some target) \<Rightarrow>
          if map_of files (trim_space name) \<noteq> None then Inl entry
          else Inr (files @ [(trim_space name, trim_space target)]))"

definition parse_default :: "string \<Rightarrow> layout_default list \<Rightarrow> (string, layout_default list) result" where
  "parse_default e out =
     (case str_cut (CHR '':'') e of
        (_, None) \<Rightarrow> Inl e
      | (head, Some names) \<Rightarrow>
          (case str_cut (CHR ''/'') (trim_space head) of
             (_, None) \<Rightarrow> Inl e
           | (ns, Some kind) \<Rightarrow>
               bindr (fold_result parse_mapping (layout_fields (CHR '','') names) [])
                 (\<lambda>files. Inr (out @ [\<lparr>ld_namespace = ns, ld_kind = kind, ld_files = files\<rparr>]))))"

definition parse_defaults :: "string \<Rightarrow> (string, layout_default list) result" where
  "parse_defaults s =
     bindr (fold_result parse_default (layout_fields (CHR '';'') s) [])
       (\<lambda>ds. bindr (compile_defaults ds) (\<lambda>_. Inr ds))"

definition format_default :: "layout_default \<Rightarrow> string" where
  "format_default d = default_key d @ '': '' @
     join '', '' (map (\<lambda>name. name @ ''='' @ (case map_of (ld_files d) name of Some t \<Rightarrow> t | None \<Rightarrow> []))
       (sorted_keys (map fst (ld_files d))))"

definition format_defaults :: "layout_default list \<Rightarrow> string" where
  "format_defaults ds = join ''; '' (map format_default
     (sort_key (\<lambda>d. (ld_namespace d, ld_kind d)) ds))"

end
