(* ===== verification/Media_Download.thy ===== *)
theory Media_Download
  imports Media_Layout
begin

text \<open>
  File \<open>media/layout/download.go\<close>: the \<open>Content-Disposition\<close> of a download, whose name a
  link may choose. Go reads a text as runes by decoding its UTF-8; bytes that are not UTF-8
  read as U+FFFD, one at a time. The media type of a header is the parameter \<open>media_type\<close>.
\<close>

section \<open>UTF-8\<close>

type_synonym rune = nat

definition rune_error :: rune where "rune_error = 65533"

text \<open>What a first byte announces: the number of bytes and the range of the second one.\<close>

definition utf8_lead :: "nat \<Rightarrow> (nat \<times> nat \<times> nat) option" where
  "utf8_lead b =
     (if b < 128 then Some (1, 128, 191)
      else if b < 194 then None
      else if b < 224 then Some (2, 128, 191)
      else if b = 224 then Some (3, 160, 191)
      else if b = 237 then Some (3, 128, 159)
      else if b < 240 then Some (3, 128, 191)
      else if b = 240 then Some (4, 144, 191)
      else if b < 244 then Some (4, 128, 191)
      else if b = 244 then Some (4, 128, 143)
      else None)"

definition utf8_tail :: "nat \<Rightarrow> bool" where
  "utf8_tail b \<longleftrightarrow> 128 \<le> b \<and> b \<le> 191"

text \<open>\<open>utf8.DecodeRuneInString\<close> of a text that is not empty: a rune and its width.\<close>

definition decode_rune :: "nat list \<Rightarrow> rune \<times> nat" where
  "decode_rune bs =
     (case utf8_lead (hd bs) of
        None \<Rightarrow> (rune_error, 1)
      | Some (n, lo, hi) \<Rightarrow>
          if n = 1 then (hd bs, 1)
          else if length bs < n \<or> bs ! 1 < lo \<or> bs ! 1 > hi \<or> \<not> list_all utf8_tail (drop 2 (take n bs))
          then (rune_error, 1)
          else (foldl (\<lambda>v b. v * 64 + b mod 64) (hd bs mod 2 ^ (7 - n)) (tl (take n bs)), n))"

lemma decode_rune_width: "snd (decode_rune bs) \<ge> 1"
  by (auto simp: decode_rune_def utf8_lead_def split: option.splits if_splits)

text \<open>A text as its runes, each with its bytes.\<close>

function chunks :: "nat list \<Rightarrow> (rune \<times> nat list) list" where
  "chunks bs = (if bs = [] then []
     else (let (c, n) = decode_rune bs in (c, take n bs) # chunks (drop n bs)))"
  by auto
termination
proof (relation "measure length")
  show "wf (measure length)" by simp
  fix bs :: "nat list" and cn c n
  assume "bs \<noteq> []" "cn = decode_rune bs" "(c, n) = cn"
  then have "n \<ge> 1" "bs \<noteq> []" using decode_rune_width [of bs] by (auto dest: sym)
  then show "(drop n bs, bs) \<in> measure length" by simp
qed

declare chunks.simps [simp del]

definition rune_chunks :: "string \<Rightarrow> (rune \<times> nat list) list" where
  "rune_chunks s = chunks (map of_char s)"

definition runes :: "string \<Rightarrow> rune list" where
  "runes s = map fst (rune_chunks s)"

definition chunk_text :: "(rune \<times> nat list) list \<Rightarrow> string" where
  "chunk_text cs = map char_of (concat (map snd cs))"

text \<open>\<open>unicode.IsSpace\<close>.\<close>

definition rune_space :: "rune \<Rightarrow> bool" where
  "rune_space c \<longleftrightarrow> 9 \<le> c \<and> c \<le> 13 \<or> 8192 \<le> c \<and> c \<le> 8202 \<or>
     c \<in> {32, 133, 160, 5760, 8232, 8233, 8239, 8287, 12288}"

section \<open>Download names\<close>

definition max_download_name :: nat where "max_download_name = 200"

definition download_exts :: "(string \<times> string list) list" where
  "download_exts = [
     (''application/zip'', [''.zip'']),
     (''application/pdf'', [''.pdf'']),
     (''video/mp4'', [''.mp4'']),
     (''video/webm'', [''.webm'']),
     (''video/x-matroska'', [''.mkv'']),
     (''video/quicktime'', [''.mov'']),
     (''video/x-msvideo'', [''.avi'']),
     (''video/x-ms-wmv'', [''.wmv'']),
     (''video/x-flv'', [''.flv'']),
     (''audio/mp4'', [''.m4a'', ''.mp4'']),
     (''audio/mpeg'', [''.mp3'']),
     (''image/webp'', [''.webp'']),
     (''image/png'', [''.png'']),
     (''image/jpeg'', [''.jpg'', ''.jpeg'']),
     (''image/gif'', [''.gif'']),
     (''image/avif'', [''.avif'']),
     (''text/vtt'', [''.vtt''])]"

definition exts_of :: "string \<Rightarrow> string list" where
  "exts_of typ = (case map_of download_exts typ of None \<Rightarrow> [] | Some es \<Rightarrow> es)"

definition download_ext :: "(string \<Rightarrow> string) \<Rightarrow> string \<Rightarrow> string" where
  "download_ext media_type content_type =
     (case exts_of (media_type content_type) of [] \<Rightarrow> [] | e # _ \<Rightarrow> e)"

definition refused :: "rune \<Rightarrow> bool" where
  "refused c \<longleftrightarrow> c < 32 \<or> c = 127 \<or> c = 47 \<or> c = 92 \<or> c = 65533 \<or> c = 8206 \<or> c = 8207 \<or>
     8234 \<le> c \<and> c \<le> 8238 \<or> 8294 \<le> c \<and> c \<le> 8297"

text \<open>\<open>path.Ext\<close>: from the last dot of the last element of a path.\<close>

definition path_ext :: "string \<Rightarrow> string" where
  "path_ext s = (let r = takeWhile (\<lambda>c. c \<noteq> CHR ''/'') (rev s)
     in if CHR ''.'' \<in> set r then rev (takeWhile (\<lambda>c. c \<noteq> CHR ''.'') r @ ''.'') else [])"

definition ascii_fallback :: "rune \<Rightarrow> char" where
  "ascii_fallback c = (if c < 32 \<or> c \<ge> 127 \<or> c = 34 \<or> c = 92 then CHR ''_'' else char_of c)"

definition attr_char :: "char \<Rightarrow> bool" where
  "attr_char b \<longleftrightarrow> is_lower b \<or> is_upper b \<or> is_digit b \<or> b \<in> set ''!#$&+-.^_`|~''"

definition upper_hex :: "nat \<Rightarrow> char" where
  "upper_hex d = ''0123456789ABCDEF'' ! d"

definition percent_byte :: "char \<Rightarrow> string" where
  "percent_byte b = (if attr_char b then [b]
     else [CHR ''%'', upper_hex (of_char b div 16), upper_hex (of_char b mod 16)])"

definition attachment :: "string \<Rightarrow> string" where
  "attachment name =
     ''attachment; filename='' @ [CHR 0x22] @ map ascii_fallback (runes name) @ [CHR 0x22] @
     ''; filename*=UTF-8'' @ [CHR 0x27, CHR 0x27] @ concat (map percent_byte name)"

definition plain_name :: "string \<Rightarrow> bool" where
  "plain_name name \<longleftrightarrow> name \<noteq> [] \<and> length name \<le> max_download_name \<and> \<not> has_prefix ''.'' name \<and>
     \<not> list_ex refused (runes name)"

definition disposition :: "(string \<Rightarrow> string) \<Rightarrow> (string \<Rightarrow> string) \<Rightarrow> string \<Rightarrow> string \<Rightarrow> string" where
  "disposition lower media_type name content_type =
     (if \<not> plain_name name \<or> to_lower lower (path_ext name) \<notin> set (exts_of (media_type content_type))
      then ''attachment'' else attachment name)"

text \<open>
  \<open>DownloadName\<close>. \<open>strings.ToValidUTF8\<close> drops the bytes that are not UTF-8; a text without
  them is its chunks, and removing its last rune removes the last chunk.
\<close>

function cut_name :: "nat \<Rightarrow> (rune \<times> nat list) list \<Rightarrow> (rune \<times> nat list) list" where
  "cut_name ext cs = (if cs \<noteq> [] \<and> length (concat (map snd cs)) + ext > max_download_name
     then cut_name ext (butlast cs) else cs)"
  by auto
termination
  by (relation "measure (\<lambda>(_, cs). length cs)") (auto simp: Suc_le_eq)

declare cut_name.simps [simp del]

definition download_name :: "string \<Rightarrow> string \<Rightarrow> string" where
  "download_name name ext =
     (let valid = filter (\<lambda>(c, bs). \<not> (c = rune_error \<and> length bs = 1)) (rune_chunks name);
          kept = filter (\<lambda>(c, _). \<not> refused c) valid;
          left = dropWhile (\<lambda>(c, _). c = 46 \<or> rune_space c) kept;
          cut = cut_name (length ext) left;
          right = rev (dropWhile (\<lambda>(c, _). rune_space c) (rev cut))
      in if right = [] then [] else chunk_text right @ ext)"

end
