(* ===== verification/Download_Props.thy ===== *)
theory Download_Props
  imports Media_Download
begin

text \<open>
  Downloads: a \<open>Content-Disposition\<close> holds no text a link can break out with, and a download
  name the server makes is one it keeps.
\<close>

section \<open>What a header can hold\<close>

definition quoted_char :: "char \<Rightarrow> bool" where
  "quoted_char c \<longleftrightarrow> 32 \<le> (of_char c :: nat) \<and> (of_char c :: nat) < 127 \<and> c \<noteq> CHR 0x22 \<and> c \<noteq> CHR 0x5C"

definition hex_value :: "char \<Rightarrow> nat option" where
  "hex_value c = (let i = length (takeWhile (\<lambda>d. d \<noteq> c) ''0123456789ABCDEF'') in if i < 16 then Some i else None)"

fun percent_decode :: "string \<Rightarrow> string option" where
  "percent_decode [] = Some []"
| "percent_decode (c # s) =
     (if c \<noteq> CHR ''%'' then map_option (Cons c) (percent_decode s)
      else (case s of
              h # l # r \<Rightarrow>
                (case (hex_value h, hex_value l) of
                   (Some x, Some y) \<Rightarrow> map_option (Cons (char_of (16 * x + y))) (percent_decode r)
                 | _ \<Rightarrow> None)
            | _ \<Rightarrow> None))"

lemma upper_hex_values: "list_all (\<lambda>d. hex_value (upper_hex d) = Some d) [0..<16]"
  by code_simp

lemma upper_hex_value: "d < 16 \<Longrightarrow> hex_value (upper_hex d) = Some d"
  using upper_hex_values unfolding list_all_iff by (auto simp del: upt.simps)

lemma attr_char_percent: "\<not> attr_char (CHR ''%'')"
  by (simp add: attr_char_def byte_classes less_eq_char_def)

lemma percent_decode_byte: "percent_decode (percent_byte b @ s) = map_option (Cons b) (percent_decode s)"
proof (cases "attr_char b")
  case True
  then have "b \<noteq> CHR ''%''" using attr_char_percent by blast
  then show ?thesis using True by (simp add: percent_byte_def)
next
  case False
  have "(of_char b :: nat) < 256" by simp
  then have "(of_char b :: nat) div 16 < 16" by (simp add: less_mult_imp_div_less)
  moreover have "16 * ((of_char b :: nat) div 16) + of_char b mod 16 = of_char b" by simp
  ultimately show ?thesis using False
    by (simp add: percent_byte_def upper_hex_value del: of_char_mod_256)
qed

lemma percent_roundtrip: "percent_decode (concat (map percent_byte s)) = Some s"
  by (induction s) (simp_all add: percent_decode_byte)

definition header_char :: "char \<Rightarrow> bool" where
  "header_char c \<longleftrightarrow> 32 \<le> (of_char c :: nat) \<and> (of_char c :: nat) < 127"

lemma fallback_quoted: "quoted_char (ascii_fallback c)"
  by (auto simp: quoted_char_def ascii_fallback_def dest: arg_cong [where f = "of_char :: char \<Rightarrow> nat"])

lemma upper_hex_chars: "list_all (\<lambda>d. header_char (upper_hex d)) [0..<16]"
  by code_simp

lemma percent_byte_chars: "list_all header_char (percent_byte b)"
proof (cases "attr_char b")
  case True
  then have "header_char b"
    by (auto simp: attr_char_def header_char_def byte_classes less_eq_char_def)
  then show ?thesis using True by (simp add: percent_byte_def)
next
  case False
  have "(of_char b :: nat) < 256" by simp
  then have "(of_char b :: nat) div 16 < 16" by (simp add: less_mult_imp_div_less)
  then have "of_char b div 16 \<in> set [0..<16 :: nat]" "of_char b mod 16 \<in> set [0..<16 :: nat]"
    by (simp_all only: set_upt) simp_all
  then have "header_char (upper_hex (of_char b div 16))" "header_char (upper_hex (of_char b mod 16))"
    using upper_hex_chars unfolding list_all_iff by blast+
  then show ?thesis using False by (simp add: percent_byte_def) (simp add: header_char_def)
qed

text \<open>
  whatever name a link asks for, the disposition is a plain attachment, or it is an
  attachment under that very name: its type's own extension, at most 200 bytes, printable
  ASCII throughout, a fallback that cannot close its quotes, and a percent-encoding that
  decodes to the name.
\<close>

theorem disposition_inert:
  "list_all header_char (disposition lower media_type name content_type) \<and>
   (disposition lower media_type name content_type = ''attachment'' \<or>
    plain_name name \<and> to_lower lower (path_ext name) \<in> set (exts_of (media_type content_type)) \<and>
    (\<exists>ascii encoded.
       disposition lower media_type name content_type =
         ''attachment; filename='' @ [CHR 0x22] @ ascii @ [CHR 0x22] @ ''; filename*=UTF-8'' @ [CHR 0x27, CHR 0x27] @ encoded \<and>
       length ascii = length (runes name) \<and> list_all quoted_char ascii \<and>
       percent_decode encoded = Some name))"
proof (cases "plain_name name \<and> to_lower lower (path_ext name) \<in> set (exts_of (media_type content_type))")
  case False
  then have "disposition lower media_type name content_type = ''attachment''" by (auto simp: disposition_def)
  moreover have "list_all header_char ''attachment''" by (simp add: header_char_def)
  ultimately show ?thesis by simp
next
  case True
  then have d: "disposition lower media_type name content_type = attachment name" by (simp add: disposition_def)
  let ?a = "map ascii_fallback (runes name)" and ?e = "concat (map percent_byte name)"
  have q: "list_all quoted_char ?a" by (simp add: list_all_iff fallback_quoted)
  then have "list_all header_char ?a" by (simp add: list_all_iff quoted_char_def header_char_def)
  moreover have "list_all header_char ?e" using percent_byte_chars by (auto simp: list_all_iff)
  moreover have "list_all header_char ''attachment; filename=''" "list_all header_char ''; filename*=UTF-8''"
    "header_char (CHR 0x22)" "header_char (CHR 0x27)"
    by (simp_all add: header_char_def)
  ultimately have "list_all header_char (attachment name)"
    by (simp only: attachment_def list_all_append list.pred_inject simp_thms)
  moreover have "\<exists>ascii encoded. attachment name =
         ''attachment; filename='' @ [CHR 0x22] @ ascii @ [CHR 0x22] @ ''; filename*=UTF-8'' @ [CHR 0x27, CHR 0x27] @ encoded \<and>
       length ascii = length (runes name) \<and> list_all quoted_char ascii \<and> percent_decode encoded = Some name"
    by (intro exI [of _ ?a] exI [of _ ?e]) (simp only: attachment_def length_map q percent_roundtrip simp_thms)
  ultimately show ?thesis using True d by simp
qed


section \<open>What the server offers\<close>

definition good_chunk :: "rune \<times> nat list \<Rightarrow> bool" where
  "good_chunk = (\<lambda>(c, bs). bs \<noteq> [] \<and> list_all (\<lambda>b. b < 256) bs \<and> (hd bs = 46 \<longrightarrow> c = 46) \<and>
     (\<forall>t. decode_rune (bs @ t) = (c, length bs)))"

lemma decode_prefix:
  assumes "decode_rune bs = (c, n)" "\<not> (c = rune_error \<and> n = 1)" "bs \<noteq> []"
  shows "n \<le> length bs \<and> decode_rune (take n bs @ t) = (c, n)"
proof -
  obtain m lo hi where l: "utf8_lead (hd bs) = Some (m, lo, hi)"
    using assms(1,2) by (auto simp: decode_rune_def split: option.splits)
  have m: "m = 1 \<or> 2 \<le> m" using l by (auto simp: utf8_lead_def split: if_splits)
  have n: "n = m" "m = 1 \<or> \<not> (length bs < m \<or> bs ! 1 < lo \<or> bs ! 1 > hi \<or> \<not> list_all utf8_tail (drop 2 (take m bs)))"
    using assms(1,2) l by (auto simp: decode_rune_def split: if_splits)
  have len: "m \<le> length bs" using m n(2) assms(3) by (cases bs) auto
  have "hd (take m bs @ t) = hd bs" using m assms(3) by (cases bs; cases m) auto
  moreover have "m = 1 \<or> (take m bs @ t) ! 1 = bs ! 1" using m len by (auto simp: nth_append)
  moreover have "take m (take m bs @ t) = take m bs" using len by simp
  ultimately show ?thesis
    using assms(1) l n len m by (auto simp: decode_rune_def split: if_splits)
qed

lemma decode_dot: "decode_rune bs = (c, n) \<Longrightarrow> \<not> (c = rune_error \<and> n = 1) \<Longrightarrow> hd bs = 46 \<Longrightarrow> c = 46"
  by (auto simp: decode_rune_def utf8_lead_def)

lemma chunks_good:
  "list_all (\<lambda>b. b < 256) bs \<Longrightarrow> list_all (\<lambda>x. fst x = rune_error \<and> length (snd x) = 1 \<or> good_chunk x) (chunks bs)"
proof (induction bs rule: chunks.induct)
  case (1 bs)
  show ?case
  proof (cases "bs = []")
    case True
    then show ?thesis by (simp add: chunks.simps)
  next
    case False
    obtain c n where d: "decode_rune bs = (c, n)" by (cases "decode_rune bs")
    have n: "n \<ge> 1" using decode_rune_width [of bs] d by simp
    have rest: "list_all (\<lambda>x. fst x = rune_error \<and> length (snd x) = 1 \<or> good_chunk x) (chunks (drop n bs))"
      by (rule 1(1) [OF False d [symmetric]]) (use 1(2) in \<open>auto simp: list_all_iff dest: in_set_dropD\<close>)
    have "c = rune_error \<and> length (take n bs) = 1 \<or> good_chunk (c, take n bs)"
    proof (cases "c = rune_error \<and> n = 1")
      case True
      then show ?thesis using False by (cases bs) auto
    next
      case bad: False
      have "n \<le> length bs" "decode_rune (take n bs @ t) = (c, n)" for t
        using decode_prefix [OF d bad False] by auto
      moreover have "hd (take n bs) = hd bs" using n False by (cases bs; cases n) auto
      moreover have "list_all (\<lambda>b. b < 256) (take n bs)" using 1(2) by (auto simp: list_all_iff dest: in_set_takeD)
      ultimately show ?thesis
        using n False decode_dot [OF d bad] by (simp add: good_chunk_def)
    qed
    then show ?thesis using False d rest by (subst chunks.simps) simp
  qed
qed

lemma chunks_append: "list_all good_chunk cs \<Longrightarrow> chunks (concat (map snd cs) @ t) = cs @ chunks t"
proof (induction cs)
  case (Cons x cs)
  obtain c bs where x: "x = (c, bs)" by (cases x)
  have g: "bs \<noteq> []" "decode_rune (bs @ concat (map snd cs) @ t) = (c, length bs)"
    using Cons.prems x by (simp_all add: good_chunk_def)
  then show ?case using Cons x by (subst chunks.simps) simp
qed simp

lemma chunk_text_bytes: "list_all good_chunk cs \<Longrightarrow> map of_char (chunk_text cs) = concat (map snd cs)"
  by (induction cs) (auto simp: chunk_text_def good_chunk_def list_all_iff intro!: map_idI)

lemma runes_chunk_text: "list_all good_chunk cs \<Longrightarrow> runes (chunk_text cs @ ext) = map fst cs @ runes ext"
  by (simp add: runes_def rune_chunks_def chunk_text_bytes chunks_append)

lemma cut_name_prefix: "\<exists>ys. cs = cut_name n cs @ ys"
proof (induction n cs rule: cut_name.induct)
  case (1 n cs)
  show ?case
  proof (cases "cs \<noteq> [] \<and> length (concat (map snd cs)) + n > max_download_name")
    case True
    then obtain ys where "butlast cs = cut_name n (butlast cs) @ ys" using 1 by auto
    then have "cs = cut_name n (butlast cs) @ ys @ [last cs]"
      using True append_butlast_last_id [of cs] by (metis append.assoc)
    then show ?thesis using True by (subst cut_name.simps) auto
  next
    case False
    then show ?thesis by (subst cut_name.simps) auto
  qed
qed

lemma cut_name_fits: "cut_name n cs = [] \<or> length (concat (map snd (cut_name n cs))) + n \<le> max_download_name"
proof (induction n cs rule: cut_name.induct)
  case (1 n cs)
  then show ?case by (subst (1 2) cut_name.simps) auto
qed

text \<open>The extensions are a dot and lower-case ASCII.\<close>

definition ext_ok :: "string \<Rightarrow> bool" where
  "ext_ok ext \<longleftrightarrow> (case ext of [] \<Rightarrow> False
     | c # t \<Rightarrow> c = CHR ''.'' \<and> list_all (\<lambda>c. is_lower c \<or> is_digit c) t)"

lemma exts_ok: "list_all (\<lambda>te. list_all ext_ok (snd te)) download_exts"
  by code_simp

lemma exts_of_ok: "ext \<in> set (exts_of typ) \<Longrightarrow> ext_ok ext"
proof (cases "map_of download_exts typ")
  case (Some es)
  assume e: "ext \<in> set (exts_of typ)"
  have "(typ, es) \<in> set download_exts" using Some by (rule map_of_SomeD)
  then have "list_all ext_ok es" using exts_ok unfolding list_all_iff by fastforce
  then show ?thesis using e Some by (simp add: exts_of_def list_all_iff)
qed (simp add: exts_of_def)

lemma ext_char: "is_lower c \<or> is_digit c \<Longrightarrow> c \<noteq> CHR ''.'' \<and> c \<noteq> CHR ''/'' \<and> lower_byte c = c \<and> is_ascii c \<and>
    (of_char c :: nat) < 128 \<and> \<not> refused (of_char c)"
  by (auto simp: byte_classes less_eq_char_def lower_byte_def refused_def is_ascii_def)

lemma chunks_ascii: "list_all (\<lambda>b. b < 128) bs \<Longrightarrow> chunks bs = map (\<lambda>b. (b, [b])) bs"
proof (induction bs)
  case (Cons b bs)
  then show ?case by (subst chunks.simps) (simp add: decode_rune_def utf8_lead_def)
qed (simp add: chunks.simps)

lemma ext_ok_runes: "ext_ok ext \<Longrightarrow> \<not> list_ex refused (runes ext) \<and> ext \<noteq> []"
proof -
  assume e: "ext_ok ext"
  have c: "(of_char c :: nat) < 128 \<and> \<not> refused (of_char c)" if "c \<in> set ext" for c
  proof (cases "c = CHR ''.''")
    case False
    then show ?thesis using e that ext_char [of c] by (cases ext) (auto simp: ext_ok_def list_all_iff)
  qed (simp add: refused_def)
  then have "runes ext = map of_char ext"
    unfolding runes_def rune_chunks_def by (subst chunks_ascii) (auto simp: list_all_iff comp_def)
  then show ?thesis using c e by (auto simp: list_ex_iff ext_ok_def)
qed

lemma ext_ok_lower: "ext_ok ext \<Longrightarrow> to_lower lower ext = ext"
proof -
  assume e: "ext_ok ext"
  have c: "is_ascii c \<and> lower_byte c = c" if "c \<in> set ext" for c
  proof (cases "c = CHR ''.''")
    case False
    then show ?thesis using e that ext_char [of c] by (cases ext) (auto simp: ext_ok_def list_all_iff)
  qed (simp add: byte_classes lower_byte_def less_eq_char_def is_ascii_def)
  then show ?thesis by (simp add: to_lower_def list_all_iff map_idI)
qed

lemma path_ext_append: "ext_ok ext \<Longrightarrow> path_ext (s @ ext) = ext"
proof -
  assume e: "ext_ok ext"
  then obtain t where t: "ext = CHR ''.'' # t" "CHR ''.'' \<notin> set t" "CHR ''/'' \<notin> set t"
    using ext_char by (cases ext) (fastforce simp: ext_ok_def list_all_iff)+
  have "takeWhile (\<lambda>c. c \<noteq> CHR ''/'') (rev t @ CHR ''.'' # rev s) =
      rev t @ CHR ''.'' # takeWhile (\<lambda>c. c \<noteq> CHR ''/'') (rev s)"
    using t(3) by (subst takeWhile_append2) auto
  moreover have "takeWhile (\<lambda>c. c \<noteq> CHR ''.'') (rev t @ CHR ''.'' # u) = rev t" for u
    using t(2) by (subst takeWhile_append2) auto
  ultimately show ?thesis by (simp add: path_ext_def t(1))
qed

lemma filter_good:
  assumes "list_all (\<lambda>b. b < 256) bs"
  shows "list_all good_chunk (filter (\<lambda>(c, bs). \<not> (c = rune_error \<and> length bs = 1)) (chunks bs))"
  using chunks_good [OF assms] by (auto simp: list_all_iff)

lemma rev_dropWhile_prefix: "\<exists>ys. xs = rev (dropWhile P (rev xs)) @ ys"
  by (metis rev_append rev_rev_ident takeWhile_dropWhile_id)

text \<open>
  the download name the server offers for an object of a type, with an extension of that
  type, is one it keeps: the download is an attachment under that name.
\<close>

theorem download_name_kept:
  assumes "ext \<in> set (exts_of (media_type content_type))" "download_name name ext \<noteq> []"
  shows "plain_name (download_name name ext) \<and>
    disposition lower media_type (download_name name ext) content_type = attachment (download_name name ext)"
proof -
  have ext: "ext_ok ext" by (rule exts_of_ok [OF assms(1)])
  define valid where "valid = filter (\<lambda>(c, bs). \<not> (c = rune_error \<and> length bs = 1)) (rune_chunks name)"
  define kept where "kept = filter (\<lambda>(c, _). \<not> refused c) valid"
  define left where "left = dropWhile (\<lambda>(c, _). c = 46 \<or> rune_space c) kept"
  define cut where "cut = cut_name (length ext) left"
  define right where "right = rev (dropWhile (\<lambda>(c, _). rune_space c) (rev cut))"
  have r: "right \<noteq> []" "download_name name ext = chunk_text right @ ext"
    using assms(2) by (auto simp: download_name_def Let_def right_def cut_def left_def kept_def valid_def split: if_splits)
  obtain ys where ys: "cut = right @ ys" using rev_dropWhile_prefix unfolding right_def by blast
  obtain zs where zs: "left = cut @ zs" using cut_name_prefix unfolding cut_def by blast
  have left: "left = right @ ys @ zs" using ys zs by simp
  have "set right \<subseteq> set left" unfolding left by simp
  then have sub: "set right \<subseteq> set kept" unfolding left_def by (auto dest: set_dropWhileD)
  have good: "list_all good_chunk right"
  proof -
    have "list_all good_chunk valid"
      unfolding valid_def rune_chunks_def by (rule filter_good) (simp add: list_all_iff)
    then show ?thesis using sub by (auto simp: list_all_iff kept_def)
  qed
  have "\<not> list_ex refused (map fst right)" using sub by (auto simp: list_ex_iff kept_def)
  then have "\<not> list_ex refused (runes (chunk_text right @ ext))"
    using ext_ok_runes [OF ext] by (simp add: runes_chunk_text [OF good])
  moreover have "length (chunk_text right @ ext) \<le> max_download_name"
  proof -
    have "cut \<noteq> []" using r(1) ys by auto
    then have "length (concat (map snd cut)) + length ext \<le> max_download_name"
      using cut_name_fits [of "length ext" left] by (simp add: cut_def)
    then show ?thesis using ys by (simp add: chunk_text_def)
  qed
  moreover have "\<not> has_prefix ''.'' (chunk_text right @ ext)"
  proof -
    obtain c bs rs where x: "right = (c, bs) # rs" using r(1) by (cases right) auto
    have g: "bs \<noteq> []" "list_all (\<lambda>b. b < 256) bs" "hd bs = 46 \<longrightarrow> c = 46"
      using good x by (simp_all add: good_chunk_def)
    have "left \<noteq> []" "hd left = (c, bs)" using left x by simp_all
    then have "c \<noteq> 46" using hd_dropWhile [of "\<lambda>(c, _). c = 46 \<or> rune_space c" kept] by (simp add: left_def)
    then obtain b ts where b: "bs = b # ts" "b \<noteq> 46" "b < 256" using g by (cases bs) auto
    then have "char_of b \<noteq> CHR ''.''" by (auto dest: arg_cong [where f = "of_char :: char \<Rightarrow> nat"])
    then show ?thesis using b(1) x by (simp add: has_prefix_def chunk_text_def)
  qed
  ultimately have p: "plain_name (chunk_text right @ ext)"
    using ext_ok_runes [OF ext] by (simp add: plain_name_def)
  moreover have "to_lower lower (path_ext (chunk_text right @ ext)) = ext"
    by (simp add: path_ext_append [OF ext] ext_ok_lower [OF ext])
  ultimately show ?thesis using r assms(1) by (simp add: disposition_def)
qed

theorem download_name_kept_witness:
  "disposition id id (download_name ''..a/b '' ''.mp4'') ''video/mp4'' = attachment ''ab.mp4''"
proof -
  have "chunks (map of_char ''..a/b '') = map (\<lambda>b. (b, [b])) (map of_char ''..a/b '')"
    by (rule chunks_ascii) simp
  then have d: "download_name ''..a/b '' ''.mp4'' = ''ab.mp4''"
    by (simp add: download_name_def rune_chunks_def Let_def refused_def rune_space_def rune_error_def
        cut_name.simps chunk_text_def max_download_name_def) (simp add: of_char_inj_iff)
  have "''.mp4'' \<in> set (exts_of (id ''video/mp4''))" by (simp add: exts_of_def download_exts_def)
  then have "disposition id id (download_name ''..a/b '' ''.mp4'') ''video/mp4'' =
      attachment (download_name ''..a/b '' ''.mp4'')"
    using download_name_kept [of "''.mp4''" id "''video/mp4''" "''..a/b ''" id] d by simp
  then show ?thesis by (simp only: d)
qed

end
