(* ===== verification/Decimals.thy ===== *)
theory Decimals
  imports Prelude "HOL-Library.Signed_Division"
begin

text \<open>
  The functions of package \<open>strconv\<close> and \<open>encoding/base64\<close> the sources use: decimal
  integers and the raw alphabets, with what they promise.
\<close>

section \<open>Decimal integers\<close>

definition digit_value :: "char \<Rightarrow> int" where
  "digit_value c = of_char c - 48"

definition parse_digits :: "string \<Rightarrow> int option" where
  "parse_digits s = (if s = [] \<or> \<not> list_all is_digit s then None
     else Some (foldl (\<lambda>v c. 10 * v + digit_value c) 0 s))"

text \<open>\<open>strconv.ParseInt(s, 10, 64)\<close>.\<close>

definition parse_int64 :: "string \<Rightarrow> int option" where
  "parse_int64 s =
     (case (case s of
              [] \<Rightarrow> None
            | c # r \<Rightarrow> if c = CHR ''-'' then map_option uminus (parse_digits r)
                else if c = CHR ''+'' then parse_digits r else parse_digits s) of
        None \<Rightarrow> None
      | Some i \<Rightarrow> if - (2 ^ 63) \<le> i \<and> i < 2 ^ 63 then Some i else None)"

definition int64_range :: "int \<Rightarrow> bool" where
  "int64_range i \<longleftrightarrow> - (2 ^ 63) \<le> i \<and> i < 2 ^ 63"

lemma digit_char_facts:
  "list_all (\<lambda>d. is_digit (digit_char d) \<and> digit_value (digit_char d) = int d) [0..<10]"
  by code_simp

lemma digit_char_digit: "d < 10 \<Longrightarrow> is_digit (digit_char d)"
  using digit_char_facts unfolding list_all_iff by (auto simp del: upt.simps)

lemma digit_char_value: "d < 10 \<Longrightarrow> digit_value (digit_char d) = int d"
  using digit_char_facts unfolding list_all_iff by (auto simp del: upt.simps)

lemma dec_nat_digits: "list_all is_digit (dec_nat n) \<and> dec_nat n \<noteq> []"
proof (induction n rule: dec_nat.induct)
  case (1 n)
  then show ?case
    by (subst dec_nat.simps) (simp add: digit_char_digit, subst dec_nat.simps, simp add: digit_char_digit)
qed

lemma dec_nat_value: "foldl (\<lambda>v c. 10 * v + digit_value c) 0 (dec_nat n) = int n"
proof (induction n rule: dec_nat.induct)
  case (1 n)
  show ?case
  proof (cases "n < 10")
    case True
    then show ?thesis by (subst dec_nat.simps) (simp add: digit_char_value)
  next
    case False
    then have "foldl (\<lambda>v c. 10 * v + digit_value c) 0 (dec_nat (n div 10)) = int (n div 10)" by (rule 1)
    then show ?thesis using False
      by (subst dec_nat.simps) (simp add: digit_char_value zdiv_int zmod_int)
  qed
qed

lemma parse_digits_dec_nat: "parse_digits (dec_nat n) = Some (int n)"
  using dec_nat_digits [of n] dec_nat_value [of n] by (simp add: parse_digits_def)

lemma digit_not_sign: "is_digit c \<Longrightarrow> c \<noteq> CHR ''-'' \<and> c \<noteq> CHR ''+'' \<and> c \<noteq> CHR ''.'' \<and> c \<noteq> CHR ''|''"
  by (auto simp: byte_classes less_eq_char_def)

lemma parse_dec_int: "int64_range i \<Longrightarrow> parse_int64 (dec_int i) = Some i"
proof -
  assume r: "int64_range i"
  show ?thesis
  proof (cases "i < 0")
    case True
    then show ?thesis using r
      by (simp add: dec_int_def parse_int64_def parse_digits_dec_nat int64_range_def)
  next
    case False
    obtain c cs where d: "dec_nat (nat i) = c # cs" using dec_nat_digits [of "nat i"] by (cases "dec_nat (nat i)") auto
    then have "is_digit c" using dec_nat_digits [of "nat i"] by simp
    then have "c \<noteq> CHR ''-''" "c \<noteq> CHR ''+''" using digit_not_sign by blast+
    then have "parse_int64 (dec_int i) = (case parse_digits (dec_nat (nat i)) of None \<Rightarrow> None
        | Some i \<Rightarrow> if - (2 ^ 63) \<le> i \<and> i < 2 ^ 63 then Some i else None)"
      using False d by (simp add: dec_int_def parse_int64_def)
    then show ?thesis using False r by (simp add: parse_digits_dec_nat int64_range_def)
  qed
qed

lemma dec_int_chars: "c \<in> set (dec_int i) \<Longrightarrow> c = CHR ''-'' \<or> is_digit c"
  using dec_nat_digits [of "nat i"] dec_nat_digits [of "nat (- i)"]
  by (auto simp: dec_int_def list_all_iff split: if_splits)

lemma dec_int_no_dot: "CHR ''.'' \<notin> set (dec_int i)" "CHR ''|'' \<notin> set (dec_int i)"
  using dec_int_chars [of "CHR ''.''" i] dec_int_chars [of "CHR ''|''" i] digit_not_sign by auto

lemma dec_int_nonempty [simp]: "dec_int i \<noteq> []"
  using dec_nat_digits by (simp add: dec_int_def)

section \<open>Base 64 without padding\<close>

definition b64_url :: string where
  "b64_url = ''ABCDEFGHIJKLMNOPQRSTUVWXYZabcdefghijklmnopqrstuvwxyz0123456789-_''"

definition b64_std :: string where
  "b64_std = ''ABCDEFGHIJKLMNOPQRSTUVWXYZabcdefghijklmnopqrstuvwxyz0123456789+/''"

text \<open>Three bytes are four values of six bits; a rest of one or two bytes is two or three.\<close>

fun sextets :: "nat list \<Rightarrow> nat list" where
  "sextets [] = []"
| "sextets [a] = [a div 4, (a mod 4) * 16]"
| "sextets [a, b] = [a div 4, (a mod 4) * 16 + b div 16, (b mod 16) * 4]"
| "sextets (a # b # c # r) =
     [a div 4, (a mod 4) * 16 + b div 16, (b mod 16) * 4 + c div 64, c mod 64] @ sextets r"

text \<open>The decoder does not look at the bits a short rest leaves over.\<close>

fun octets :: "nat list \<Rightarrow> nat list option" where
  "octets [] = Some []"
| "octets [w] = None"
| "octets [w, x] = Some [w * 4 + x div 16]"
| "octets [w, x, y] = Some [w * 4 + x div 16, (x mod 16) * 16 + y div 4]"
| "octets (w # x # y # z # r) =
     map_option (\<lambda>bs. [w * 4 + x div 16, (x mod 16) * 16 + y div 4, (y mod 4) * 64 + z] @ bs) (octets r)"

definition b64_index :: "string \<Rightarrow> char \<Rightarrow> nat option" where
  "b64_index alphabet c = (let i = length (takeWhile (\<lambda>d. d \<noteq> c) alphabet)
     in if i < length alphabet then Some i else None)"

fun all_some :: "'a option list \<Rightarrow> 'a list option" where
  "all_some [] = Some []"
| "all_some (None # xs) = None"
| "all_some (Some x # xs) = map_option (Cons x) (all_some xs)"

text \<open>\<open>EncodeToString\<close> and \<open>DecodeString\<close> of a raw encoding; line ends are skipped.\<close>

definition b64_encode :: "string \<Rightarrow> string \<Rightarrow> string" where
  "b64_encode alphabet s = map (\<lambda>n. alphabet ! n) (sextets (map of_char s))"

definition b64_decode :: "string \<Rightarrow> string \<Rightarrow> string option" where
  "b64_decode alphabet s =
     (case all_some (map (b64_index alphabet) (filter (\<lambda>c. c \<noteq> char_of (10 :: nat) \<and> c \<noteq> char_of (13 :: nat)) s)) of
        None \<Rightarrow> None
      | Some vs \<Rightarrow> map_option (map char_of) (octets vs))"

lemma sextets_bound: "list_all (\<lambda>b. b < 256) bs \<Longrightarrow> list_all (\<lambda>v. v < 64) (sextets bs)"
  by (induction bs rule: sextets.induct) auto

lemma octet_split:
  assumes "(b :: nat) < 256"
  shows "b div 16 div 16 = 0" "b div 16 mod 16 = b div 16"
    "b div 64 div 4 = 0" "b div 64 mod 4 = b div 64"
proof -
  have "b div 16 < 16" "b div 64 < 4" using assms by (simp_all add: less_mult_imp_div_less)
  then show "b div 16 div 16 = 0" "b div 16 mod 16 = b div 16"
    "b div 64 div 4 = 0" "b div 64 mod 4 = b div 64"
    by simp_all
qed

lemma octet_join: "(a :: nat) div k * k + a mod k = a"
  by (rule div_mult_mod_eq)

lemma octets_sextets: "list_all (\<lambda>b. b < 256) bs \<Longrightarrow> octets (sextets bs) = Some bs"
proof (induction bs rule: sextets.induct)
  case (4 a b c r)
  then show ?case by (simp add: octet_split octet_join del: mult.commute)
qed (simp_all add: octet_split octet_join)

lemma all_some_map: "(\<And>x. x \<in> set xs \<Longrightarrow> f (g x) = Some x) \<Longrightarrow> all_some (map f (map g xs)) = Some xs"
  by (induction xs) auto

definition b64_alphabet :: "string \<Rightarrow> bool" where
  "b64_alphabet a \<longleftrightarrow> list_all (\<lambda>n. b64_index a (a ! n) = Some n \<and> a ! n \<noteq> char_of (10 :: nat) \<and>
     a ! n \<noteq> char_of (13 :: nat) \<and> a ! n \<noteq> CHR ''.'') [0..<64]"

lemma b64_alphabets [simp]: "b64_alphabet b64_url" "b64_alphabet b64_std"
  by code_simp+

lemma b64_alphabetD:
  assumes "b64_alphabet a" "n < 64"
  shows "b64_index a (a ! n) = Some n" "a ! n \<noteq> char_of (10 :: nat)" "a ! n \<noteq> char_of (13 :: nat)" "a ! n \<noteq> CHR ''.''"
proof -
  have "n \<in> set [0..<64]" using assms(2) by (simp only: set_upt atLeastLessThan_iff le0 simp_thms)
  then show "b64_index a (a ! n) = Some n" "a ! n \<noteq> char_of (10 :: nat)" "a ! n \<noteq> char_of (13 :: nat)" "a ! n \<noteq> CHR ''.''"
    using assms(1) unfolding b64_alphabet_def list_all_iff by blast+
qed

lemma sextets_of: "n \<in> set (sextets (map of_char (s :: string))) \<Longrightarrow> n < 64"
proof -
  have "list_all (\<lambda>b. b < 256) (map of_char s :: nat list)" by (simp add: list_all_iff)
  then show "n \<in> set (sextets (map of_char s)) \<Longrightarrow> n < 64"
    using sextets_bound [of "map of_char s"] by (simp add: list_all_iff)
qed

lemma b64_roundtrip: "b64_alphabet a \<Longrightarrow> b64_decode a (b64_encode a s) = Some s"
proof -
  assume a: "b64_alphabet a"
  let ?vs = "sextets (map of_char s)"
  have v: "n \<in> set ?vs \<Longrightarrow> n < 64" for n by (rule sextets_of)
  have f: "filter (\<lambda>c. c \<noteq> char_of (10 :: nat) \<and> c \<noteq> char_of (13 :: nat)) (b64_encode a s) = b64_encode a s"
    unfolding filter_id_conv b64_encode_def using b64_alphabetD(2,3) [OF a v] by auto
  have "all_some (map (b64_index a) (b64_encode a s)) = Some ?vs"
    unfolding b64_encode_def by (rule all_some_map) (rule b64_alphabetD(1) [OF a v])
  moreover have "octets ?vs = Some (map of_char s)"
    by (rule octets_sextets) (simp add: list_all_iff)
  ultimately show ?thesis unfolding b64_decode_def f by (simp add: comp_def)
qed

lemma b64_encode_nonempty: "s \<noteq> [] \<Longrightarrow> b64_encode a s \<noteq> []"
  by (cases "map of_char s :: nat list" rule: sextets.cases) (auto simp: b64_encode_def)

lemma b64_no_dot: "b64_alphabet a \<Longrightarrow> CHR ''.'' \<notin> set (b64_encode a s)"
proof
  assume a: "b64_alphabet a" and "CHR ''.'' \<in> set (b64_encode a s)"
  then obtain n where "n \<in> set (sextets (map of_char s))" "a ! n = CHR ''.''"
    by (auto simp: b64_encode_def)
  then show False using b64_alphabetD(4) [OF a sextets_of] by blast
qed

end
