(* ===== verification/Media_Edit.thy ===== *)
theory Media_Edit
  imports Decimals Content_Ref
begin

text \<open>
  Files \<open>media/edit.go\<close> and \<open>media/aspect.go\<close>: ratios, edits of images and the edit a preset
  applies. A Go \<open>int\<close> has 64 bits: sums and products are written with their wrap-around.
\<close>

section \<open>Machine integers\<close>

definition wrap64 :: "int \<Rightarrow> int" where
  "wrap64 i = (i + 2 ^ 63) mod 2 ^ 64 - 2 ^ 63"

lemma wrap64_id: "int64_range i \<Longrightarrow> wrap64 i = i"
  by (simp add: wrap64_def int64_range_def)

section \<open>Ratios\<close>

record aspect =
  as_w :: int
  as_h :: int

definition max_aspect_term :: int where "max_aspect_term = 10000"

definition aspect_native :: aspect where "aspect_native = \<lparr>as_w = 0, as_h = 0\<rparr>"
definition square :: aspect where "square = \<lparr>as_w = 1, as_h = 1\<rparr>"

function go_gcd :: "int \<Rightarrow> int \<Rightarrow> int" where
  "go_gcd a b = (if b = 0 then a else go_gcd b (a smod b))"
  by pat_completeness auto
termination
proof (relation "measure (\<lambda>(a, b). nat \<bar>b\<bar>)")
  show "((b, a smod b), (a, b)) \<in> measure (\<lambda>(a, b). nat \<bar>b\<bar>)" if "b \<noteq> 0" for a b :: int
    using smod_int_range [where a = a and b = b] that by auto
qed simp

declare go_gcd.simps [simp del]

definition parse_aspect :: "string \<Rightarrow> (string, aspect) result" where
  "parse_aspect s =
     (let s = trim_space s
      in if s = [] \<or> s = ''native'' then Inr aspect_native
         else (case str_cut (CHR '':'') s of
                 (_, None) \<Rightarrow> Inl s
               | (ws, Some hs) \<Rightarrow>
                   (case (parse_int64 ws, parse_int64 hs) of
                      (Some w, Some h) \<Rightarrow>
                        if w \<le> 0 \<or> h \<le> 0 \<or> w > max_aspect_term \<or> h > max_aspect_term then Inl s
                        else (let g = go_gcd w h in Inr \<lparr>as_w = w sdiv g, as_h = h sdiv g\<rparr>)
                    | _ \<Rightarrow> Inl s)))"

definition is_native :: "aspect \<Rightarrow> bool" where
  "is_native a \<longleftrightarrow> as_w a = 0 \<or> as_h a = 0"

definition aspect_valid :: "aspect \<Rightarrow> bool" where
  "aspect_valid a \<longleftrightarrow> a = aspect_native \<or>
     as_w a > 0 \<and> as_h a > 0 \<and> as_w a \<le> max_aspect_term \<and> as_h a \<le> max_aspect_term \<and> go_gcd (as_w a) (as_h a) = 1"

definition aspect_string :: "aspect \<Rightarrow> string" where
  "aspect_string a = (if is_native a then ''native'' else dec_int (as_w a) @ '':'' @ dec_int (as_h a))"

definition aspect_scale :: "aspect \<Rightarrow> int \<Rightarrow> int \<Rightarrow> int \<Rightarrow> int" where
  "aspect_scale a v num den =
     (if is_native a then 0 else max 1 (wrap64 (wrap64 (2 * v * num) + den) sdiv wrap64 (2 * den)))"

definition aspect_height :: "aspect \<Rightarrow> int \<Rightarrow> int" where
  "aspect_height a width = aspect_scale a width (as_h a) (as_w a)"

definition aspect_width :: "aspect \<Rightarrow> int \<Rightarrow> int" where
  "aspect_width a height = aspect_scale a height (as_w a) (as_h a)"

definition aspect_rotated :: "aspect \<Rightarrow> aspect" where
  "aspect_rotated a = \<lparr>as_w = as_h a, as_h = as_w a\<rparr>"

definition aspect_marshal :: "aspect \<Rightarrow> string" where
  "aspect_marshal a = (if is_native a then [] else aspect_string a)"

definition aspect_of :: "int \<Rightarrow> int \<Rightarrow> aspect" where
  "aspect_of w h =
     (if w \<le> 0 \<or> h \<le> 0 then aspect_native
      else (let g = go_gcd w h in \<lparr>as_w = w sdiv g, as_h = h sdiv g\<rparr>))"

section \<open>Edits\<close>

record crop =
  cp_x :: int
  cp_y :: int
  cp_w :: int
  cp_h :: int

record dims =
  dm_w :: int
  dm_h :: int

record edit =
  ed_crop :: "crop option"
  ed_rotate :: int

definition edit_normalize :: "edit option \<Rightarrow> edit option" where
  "edit_normalize e = (case e of
     None \<Rightarrow> None
   | Some x \<Rightarrow> if ed_crop x = None \<and> ed_rotate x = 0 then None else Some x)"

datatype edit_error = BadRotate int | EmptyCrop | OutsideCrop | ImageTooSmall int int

definition edit_check :: "edit option \<Rightarrow> int \<Rightarrow> int \<Rightarrow> edit_error option" where
  "edit_check e w h =
     (case e of
        None \<Rightarrow> None
      | Some x \<Rightarrow>
          if ed_rotate x \<notin> {0, 90, 180, 270} then Some (BadRotate (ed_rotate x))
          else (case ed_crop x of
              None \<Rightarrow> None
            | Some c \<Rightarrow>
                if cp_x c < 0 \<or> cp_y c < 0 \<or> cp_w c \<le> 0 \<or> cp_h c \<le> 0 then Some EmptyCrop
                else if w > 0 \<and> h > 0 \<and> (wrap64 (cp_x c + cp_w c) > w \<or> wrap64 (cp_y c + cp_h c) > h) then Some OutsideCrop
                else None))"

definition edit_size :: "edit option \<Rightarrow> int \<Rightarrow> int \<Rightarrow> int \<times> int" where
  "edit_size e w h =
     (case e of
        None \<Rightarrow> (w, h)
      | Some x \<Rightarrow>
          (let (w, h) = (case ed_crop x of Some c \<Rightarrow> (cp_w c, cp_h c) | None \<Rightarrow> (w, h))
           in if ed_rotate x = 90 \<or> ed_rotate x = 270 then (h, w) else (w, h)))"

text \<open>\<open>sha\<close> is SHA-256.\<close>

definition edit_hash :: "(string \<Rightarrow> 8 word list) \<Rightarrow> edit option \<Rightarrow> string" where
  "edit_hash sha e =
     (case edit_normalize e of
        None \<Rightarrow> []
      | Some x \<Rightarrow>
          (let s = ''r'' @ dec_int (ed_rotate x) @
             (case ed_crop x of None \<Rightarrow> []
              | Some c \<Rightarrow> ''|c'' @ dec_int (cp_x c) @ '','' @ dec_int (cp_y c) @ '','' @ dec_int (cp_w c) @ '','' @ dec_int (cp_h c))
           in hex_encode (take 4 (sha s))))"

section \<open>Images\<close>

record image_spec =
  im_format :: string
  im_width :: int
  im_height :: int
  im_fit :: string
  im_quality :: int
  im_aspect :: aspect
  im_min_width :: int
  im_animation :: string

definition no_image :: image_spec where
  "no_image = \<lparr>im_format = [], im_width = 0, im_height = 0, im_fit = [], im_quality = 0, im_aspect = aspect_native,
     im_min_width = 0, im_animation = []\<rparr>"

definition centred_crop :: "aspect \<Rightarrow> int \<Rightarrow> int \<Rightarrow> crop" where
  "centred_crop r w h =
     (let cw = (if aspect_height r w > h then min w (aspect_width r h) else w);
          ch = min h (aspect_height r cw)
      in \<lparr>cp_x = wrap64 (w - cw) sdiv 2, cp_y = wrap64 (h - ch) sdiv 2, cp_w = cw, cp_h = ch\<rparr>)"

definition edit_resolve :: "image_spec \<Rightarrow> edit option \<Rightarrow> int \<Rightarrow> int \<Rightarrow> (edit_error, edit option) result" where
  "edit_resolve im e w h =
     (let e = edit_normalize e;
          rotate = (case e of Some x \<Rightarrow> ed_rotate x | None \<Rightarrow> 0);
          r = (if rotate = 90 \<or> rotate = 270 then aspect_rotated (im_aspect im) else im_aspect im);
          e = (if is_native r then e
               else (case e of
                   Some x \<Rightarrow> (case ed_crop x of
                       Some c \<Rightarrow> Some (x\<lparr>ed_crop := Some (c\<lparr>cp_h := aspect_height r (cp_w c)\<rparr>)\<rparr>)
                     | None \<Rightarrow> if w > 0 \<and> h > 0 then Some \<lparr>ed_crop = Some (centred_crop r w h), ed_rotate = rotate\<rparr> else e)
                 | None \<Rightarrow> if w > 0 \<and> h > 0 then Some \<lparr>ed_crop = Some (centred_crop r w h), ed_rotate = rotate\<rparr> else e))
      in case edit_check e w h of
           Some err \<Rightarrow> Inl err
         | None \<Rightarrow>
             (let ew = fst (edit_size e w h)
              in if w > 0 \<and> ew < im_min_width im then Inl (ImageTooSmall ew (im_min_width im))
                 else Inr (edit_normalize e)))"

text \<open>\<open>fitEdit\<close> of a commit: an edit without a crop is kept as it is.\<close>

definition fit_edit :: "image_spec \<Rightarrow> edit option \<Rightarrow> int \<Rightarrow> int \<Rightarrow> (edit_error, edit option) result" where
  "fit_edit bounds e w h =
     (case edit_normalize e of
        None \<Rightarrow> Inr None
      | Some x \<Rightarrow> bindr (edit_resolve bounds (Some x) w h) (\<lambda>fitted.
          Inr (if ed_crop x \<noteq> None then fitted else Some x)))"

end
