(* ===== verification/Edit_Props.thy ===== *)
theory Edit_Props
  imports Media_Edit
begin

text \<open>
  Ratios are read as they are written, and the edit a preset resolves lies in its source.
\<close>

section \<open>Ratios\<close>

lemma go_gcd_gcd: "0 \<le> a \<Longrightarrow> 0 \<le> b \<Longrightarrow> go_gcd a b = gcd a b"
proof (induction a b rule: go_gcd.induct)
  case (1 a b)
  show ?case
  proof (cases "b = 0")
    case True
    then show ?thesis using 1 by (simp add: go_gcd.simps)
  next
    case False
    then have "a smod b = a mod b" using 1 by (simp add: smod_int_alt_def sgn_if)
    then show ?thesis using 1 False by (simp add: go_gcd.simps [of a b] gcd_red_int [of a b])
  qed
qed

lemma aspect_valid_iff: "aspect_valid a \<longleftrightarrow> a = aspect_native \<or>
    0 < as_w a \<and> 0 < as_h a \<and> as_w a \<le> 10000 \<and> as_h a \<le> 10000 \<and> coprime (as_w a) (as_h a)"
  unfolding aspect_valid_def max_aspect_term_def
  by (cases "0 < as_w a \<and> 0 < as_h a") (auto simp: go_gcd_gcd coprime_iff_gcd_eq_1)

lemma sdiv_pos: "0 < a \<Longrightarrow> 0 < b \<Longrightarrow> (a :: int) sdiv b = a div b"
  by (simp add: signed_divide_int_def sgn_if)

lemma reduced:
  assumes "0 < w" "0 < h" "w \<le> 10000" "h \<le> 10000"
  shows "aspect_valid \<lparr>as_w = w sdiv go_gcd w h, as_h = h sdiv go_gcd w h\<rparr>"
proof -
  have g: "0 < gcd w h" "go_gcd w h = gcd w h" using assms by (simp_all add: go_gcd_gcd)
  have "0 < w div gcd w h" "0 < h div gcd w h"
    using assms g by (simp_all add: pos_imp_zdiv_pos_iff zdvd_imp_le)
  moreover have "w div gcd w h \<le> 10000" "h div gcd w h \<le> 10000"
    using assms g(1) zdiv_mono2 [of w 1 "gcd w h"] zdiv_mono2 [of h 1 "gcd w h"] unfolding div_by_1 by linarith+
  moreover have "coprime (w div gcd w h) (h div gcd w h)" using assms by (intro div_gcd_coprime) auto
  ultimately show ?thesis using assms g by (simp add: aspect_valid_iff sdiv_pos)
qed

lemma digit_range: "is_digit c \<Longrightarrow> 48 \<le> (of_char c :: nat) \<and> (of_char c :: nat) \<le> 57"
  by (simp add: is_digit_def char_le_iff)

lemma dec_pos_digits: "0 < i \<Longrightarrow> list_all is_digit (dec_int i) \<and> dec_int i \<noteq> []"
  using dec_nat_digits by (simp add: dec_int_def)

text \<open>
  a ratio is read back from its text, and every text that is read is a ratio in lowest
  terms with terms up to ten thousand, or the native one.
\<close>

theorem aspect_text_roundtrip:
  "(aspect_valid a \<longrightarrow> parse_aspect (aspect_string a) = Inr a) \<and> (parse_aspect s = Inr a \<longrightarrow> aspect_valid a)"
proof (intro conjI impI)
  assume v: "aspect_valid a"
  show "parse_aspect (aspect_string a) = Inr a"
  proof (cases "a = aspect_native")
    case True
    have "trim_space ''native'' = ''native''" by (rule trim_space_printable) simp_all
    then show ?thesis using True by (simp add: aspect_string_def is_native_def aspect_native_def parse_aspect_def)
  next
    case False
    then have a: "0 < as_w a" "0 < as_h a" "as_w a \<le> 10000" "as_h a \<le> 10000" "coprime (as_w a) (as_h a)"
      using v by (auto simp: aspect_valid_iff)
    let ?w = "dec_int (as_w a)" and ?h = "dec_int (as_h a)"
    have d: "list_all is_digit ?w" "list_all is_digit ?h" "?w \<noteq> []" "?h \<noteq> []" using a dec_pos_digits by auto
    have s: "aspect_string a = ?w @ '':'' @ ?h" using a by (simp add: aspect_string_def is_native_def)
    have hd: "is_digit (hd ?w)" "is_digit (last ?h)" using d by (simp_all add: list_all_iff)
    have "trim_space (?w @ '':'' @ ?h) = ?w @ '':'' @ ?h"
      by (rule trim_space_printable) (use d digit_range [OF hd(1)] digit_range [OF hd(2)] in auto)
    moreover have "CHR '':'' \<notin> set ?w" using d(1) by (auto simp: list_all_iff is_digit_def char_le_iff)
    moreover have "?w @ '':'' @ ?h \<noteq> ''native''" using hd(1) d(3) by (cases ?w) (auto simp: is_digit_def char_le_iff)
    moreover have "parse_int64 ?w = Some (as_w a)" "parse_int64 ?h = Some (as_h a)"
      using a by (auto intro!: parse_dec_int simp: int64_range_def)
    moreover have "go_gcd (as_w a) (as_h a) = 1" using a by (simp add: go_gcd_gcd coprime_iff_gcd_eq_1)
    ultimately show ?thesis
      using a d(3) unfolding parse_aspect_def s Let_def by (simp add: str_cut_append max_aspect_term_def sdiv_pos)
  qed
next
  assume "parse_aspect s = Inr a"
  then show "aspect_valid a"
    using reduced by (auto simp: parse_aspect_def Let_def aspect_valid_def [of aspect_native] max_aspect_term_def
        split: if_splits prod.splits option.splits)
qed

theorem aspect_text_roundtrip_witness:
  "aspect_string \<lparr>as_w = 16, as_h = 9\<rparr> = ''16:9'' \<and> parse_aspect ''16:9'' = Inr \<lparr>as_w = 16, as_h = 9\<rparr>"
proof -
  have "aspect_string \<lparr>as_w = 16, as_h = 9\<rparr> = ''16:9''" by code_simp
  moreover have "aspect_valid \<lparr>as_w = 16, as_h = 9\<rparr>"
  proof -
    have "coprime (16 :: int) 9" by code_simp
    then show ?thesis by (simp add: aspect_valid_iff)
  qed
  ultimately show ?thesis using aspect_text_roundtrip [of "\<lparr>as_w = 16, as_h = 9\<rparr>"] by metis
qed

section \<open>Sizes at a ratio\<close>

lemma scale_exact:
  assumes "\<not> is_native a" "0 \<le> v" "v \<le> 2 ^ 40" "0 < num" "num \<le> 10000" "0 < den" "den \<le> 10000"
  shows "aspect_scale a v num den = max 1 ((2 * v * num + den) div (2 * den))"
proof -
  have "v * num \<le> 2 ^ 40 * 10000" "0 \<le> v * num" using assms by (intro mult_mono, auto)
  then have "v * num \<le> 10995116277760000" "0 \<le> v * num" by simp_all
  moreover have e: "2 * v * num = 2 * (v * num)" by simp
  ultimately have p: "0 \<le> 2 * v * num" "2 * v * num \<le> 21990232555520000" unfolding e by linarith+
  define q where "q = 2 * v * num"
  have "int64_range q" "int64_range (q + den)" "int64_range (2 * den)" "0 < q + den"
    using p assms(6,7) unfolding q_def [symmetric] int64_range_def by simp_all
  then show ?thesis using assms by (simp add: aspect_scale_def wrap64_id sdiv_pos flip: q_def)
qed

definition bounded_aspect :: "aspect \<Rightarrow> bool" where
  "bounded_aspect a \<longleftrightarrow> 0 < as_w a \<and> 0 < as_h a \<and> as_w a \<le> 10000 \<and> as_h a \<le> 10000"

definition height_at :: "aspect \<Rightarrow> int \<Rightarrow> int" where
  "height_at a width = max 1 ((2 * width * as_h a + as_w a) div (2 * as_w a))"

lemma aspect_height_at:
  "bounded_aspect a \<Longrightarrow> 0 \<le> v \<Longrightarrow> v \<le> 2 ^ 40 \<Longrightarrow> aspect_height a v = height_at a v"
  using scale_exact [of a v "as_h a" "as_w a"]
  by (simp add: aspect_height_def height_at_def bounded_aspect_def is_native_def)

lemma scale_positive: "\<not> is_native a \<Longrightarrow> 1 \<le> aspect_scale a v num den"
  by (simp add: aspect_scale_def)

section \<open>Edits\<close>

text \<open>A crop inside a source.\<close>

definition inside :: "crop \<Rightarrow> int \<Rightarrow> int \<Rightarrow> bool" where
  "inside c w h \<longleftrightarrow> 0 \<le> cp_x c \<and> 0 \<le> cp_y c \<and> 0 < cp_w c \<and> 0 < cp_h c \<and> cp_x c + cp_w c \<le> w \<and> cp_y c + cp_h c \<le> h"

text \<open>Coordinates whose sums do not wrap.\<close>

definition small_crop :: "crop \<Rightarrow> bool" where
  "small_crop c \<longleftrightarrow> cp_x c < 2 ^ 62 \<and> cp_y c < 2 ^ 62 \<and> cp_w c < 2 ^ 62 \<and> cp_h c < 2 ^ 62"

lemma edit_check_inside:
  assumes ok: "edit_check (Some x) w h = None" and c: "ed_crop x = Some c" and "small_crop c" "0 < w" "0 < h"
  shows "inside c w h"
proof -
  have "0 \<le> cp_x c" "0 \<le> cp_y c" "0 < cp_w c" "0 < cp_h c" and
    "wrap64 (cp_x c + cp_w c) \<le> w" "wrap64 (cp_y c + cp_h c) \<le> h"
    using ok c assms(4,5) by (auto simp: edit_check_def split: if_splits)
  moreover have "wrap64 (cp_x c + cp_w c) = cp_x c + cp_w c" "wrap64 (cp_y c + cp_h c) = cp_y c + cp_h c"
    by (rule wrap64_id; use calculation assms(3) in \<open>simp add: small_crop_def int64_range_def\<close>)+
  ultimately show ?thesis by (simp add: inside_def)
qed

text \<open>A crop near the end of the integers is taken for one inside the source: its sum wraps.\<close>

lemma edit_check_overflow:
  "edit_check (Some \<lparr>ed_crop = Some \<lparr>cp_x = 2 ^ 63 - 1, cp_y = 0, cp_w = 1, cp_h = 1\<rparr>, ed_rotate = 0\<rparr>) 10 10 = None"
  by (simp add: edit_check_def wrap64_def)


section \<open>What a preset resolves\<close>

definition preset_ratio :: "image_spec \<Rightarrow> edit option \<Rightarrow> aspect" where
  "preset_ratio im e = (case e of
     Some x \<Rightarrow> if ed_rotate x \<in> {90, 270} then aspect_rotated (im_aspect im) else im_aspect im
   | None \<Rightarrow> im_aspect im)"

lemma sdiv_half: "0 \<le> a \<Longrightarrow> (a :: int) sdiv 2 = a div 2"
  by (simp add: signed_divide_int_def sgn_if)

lemma centred_inside:
  assumes r: "bounded_aspect r" and s: "0 < w" "0 < h" "w \<le> 2 ^ 40" "h \<le> 2 ^ 40"
  shows "inside (centred_crop r w h) w h \<and> small_crop (centred_crop r w h)"
proof -
  have n: "\<not> is_native r" using r by (simp add: bounded_aspect_def is_native_def)
  define cw where "cw = (if aspect_height r w > h then min w (aspect_width r h) else w)"
  define ch where "ch = min h (aspect_height r cw)"
  have cw: "1 \<le> cw" "cw \<le> w" using s scale_positive [OF n] by (auto simp: cw_def aspect_width_def)
  have ch: "1 \<le> ch" "ch \<le> h" using s scale_positive [OF n] by (auto simp: ch_def aspect_height_def)
  have wr: "wrap64 (w - cw) = w - cw" "wrap64 (h - ch) = h - ch"
    by (rule wrap64_id; use cw ch s in \<open>simp add: int64_range_def\<close>)+
  have "centred_crop r w h = \<lparr>cp_x = (w - cw) div 2, cp_y = (h - ch) div 2, cp_w = cw, cp_h = ch\<rparr>"
    using cw ch by (simp add: centred_crop_def Let_def wr sdiv_half flip: cw_def ch_def)
  then show ?thesis using cw ch s by (auto simp: inside_def small_crop_def)
qed

lemma height_at_small:
  assumes "bounded_aspect r" "0 < v" "v \<le> 2 ^ 40"
  shows "height_at r v < 2 ^ 62"
proof -
  let ?x = "2 * v * as_h r + as_w r"
  have "v * as_h r \<le> 2 ^ 40 * 10000" "0 \<le> v * as_h r" using assms by (intro mult_mono, auto simp: bounded_aspect_def)
  then have "v * as_h r \<le> 10995116277760000" "0 \<le> v * as_h r" by simp_all
  moreover have e: "2 * v * as_h r = 2 * (v * as_h r)" by simp
  ultimately have "0 \<le> ?x" "?x < 22000000000000000" using assms(1) unfolding bounded_aspect_def e by linarith+
  then have x: "0 \<le> ?x" "?x < 2 ^ 62" by simp_all
  have "?x div (2 * as_w r) \<le> ?x div 1"
    using assms(1) x by (intro zdiv_mono2) (auto simp: bounded_aspect_def)
  then show ?thesis using x by (simp add: height_at_def)
qed

text \<open>Rounding to the nearest pixel, and to one at least, is within a pixel of the ratio.\<close>

lemma rounded_close:
  fixes v n d :: int
  assumes "0 < v" "0 < n" "0 < d"
  shows "\<bar>max 1 ((2 * v * n + d) div (2 * d)) * d - v * n\<bar> \<le> d"
proof -
  define k where "k = (2 * v * n + d) div (2 * d)"
  define p where "p = v * n"
  have p: "0 < p" using assms by (simp add: p_def)
  define m where "m = (2 * p + d) mod (2 * d)"
  have "2 * d * k + m = 2 * p + d" 
    using mult_div_mod_eq [of "2 * d" "2 * (v * n) + d"] unfolding k_def m_def p_def by (simp only: mult.assoc)
  moreover have "0 \<le> m" "m < 2 * d" using assms(3) by (simp_all add: m_def)
  ultimately have b: "2 * d * k \<le> 2 * p + d" "2 * p < 2 * d * k + d" by linarith+
  have k0: "0 \<le> k" using p assms(3) unfolding k_def p_def by (intro pos_imp_zdiv_nonneg_iff [THEN iffD2]) auto
  have "\<bar>max 1 k * d - p\<bar> \<le> d"
  proof (cases "k = 0")
    case True
    then have "max 1 k * d = d" "2 * p < d" using b(2) by simp_all
    then show ?thesis using p by linarith
  next
    case False
    then have "max 1 k = k" using k0 by linarith
    moreover have "2 * d * k = 2 * (k * d)" by simp
    ultimately show ?thesis using b assms(3) by linarith
  qed
  then show ?thesis by (simp only: k_def p_def)
qed

definition width_at :: "aspect \<Rightarrow> int \<Rightarrow> int" where
  "width_at a height = height_at (aspect_rotated a) height"

lemma aspect_width_at: "bounded_aspect a \<Longrightarrow> 0 \<le> v \<Longrightarrow> v \<le> 2 ^ 40 \<Longrightarrow> aspect_width a v = width_at a v"
  using scale_exact [of a v "as_w a" "as_h a"]
  by (simp add: aspect_width_def width_at_def height_at_def aspect_rotated_def bounded_aspect_def is_native_def)

lemma int_le_div:
  fixes a b k :: int
  assumes "0 < b"
  shows "k \<le> a div b \<longleftrightarrow> k * b \<le> a"
proof
  assume "k \<le> a div b"
  then have "k * b \<le> a div b * b" using assms by (simp add: mult_right_mono)
  also have "\<dots> \<le> a" using div_mult_mod_eq [of a b] pos_mod_sign [OF assms, of a] by linarith
  finally show "k * b \<le> a" .
next
  assume "k * b \<le> a"
  then have "k * b div b \<le> a div b" using assms by (rule zdiv_mono1)
  then show "k \<le> a div b" using assms by simp
qed

lemma width_fits:
  assumes r: "bounded_aspect r" and s: "0 < w" "0 < h" and tall: "h < height_at r w"
  shows "width_at r h \<le> w"
proof -
  define p q where "p = w * as_h r" and "q = h * as_w r"
  have pos: "0 < as_w r" "0 < as_h r" using r by (simp_all add: bounded_aspect_def)
  have "h + 1 \<le> (2 * w * as_h r + as_w r) div (2 * as_w r)" using tall s by (auto simp: height_at_def)
  then have "(h + 1) * (2 * as_w r) \<le> 2 * w * as_h r + as_w r"
    by (rule int_le_div [THEN iffD1, rotated]) (use pos(1) in simp)
  then have "2 * q + as_w r \<le> 2 * p" by (simp add: p_def q_def algebra_simps)
  then have "2 * h * as_w r + as_h r < (w + 1) * (2 * as_h r)" using pos by (simp add: p_def q_def algebra_simps)
  then have "(2 * h * as_w r + as_h r) div (2 * as_h r) < w + 1" using int_le_div [of "2 * as_h r" "w + 1" "2 * h * as_w r + as_h r"] pos(2) by linarith
  then show ?thesis using s by (simp add: width_at_def height_at_def aspect_rotated_def)
qed

text \<open>
  The largest centred crop at a ratio: as wide as the source when the height that gives fits it,
  else as wide as the source's height gives.
\<close>

definition centred_at :: "aspect \<Rightarrow> crop \<Rightarrow> int \<Rightarrow> int \<Rightarrow> bool" where
  "centred_at r c w h \<longleftrightarrow> cp_x c = (w - cp_w c) div 2 \<and> cp_y c = (h - cp_h c) div 2 \<and>
     (if height_at r w \<le> h then cp_w c = w \<and> cp_h c = height_at r w
      else cp_w c = width_at r h \<and> cp_h c = min h (height_at r (cp_w c)))"

definition close_to :: "aspect \<Rightarrow> crop \<Rightarrow> bool" where
  "close_to r c \<longleftrightarrow> \<bar>cp_h c * as_w r - cp_w c * as_h r\<bar> \<le> max (as_w r) (as_h r)"

lemma height_close: "bounded_aspect r \<Longrightarrow> 0 < cp_w c \<Longrightarrow> cp_h c = height_at r (cp_w c) \<Longrightarrow> close_to r c"
  using rounded_close [of "cp_w c" "as_h r" "as_w r"] by (simp add: close_to_def height_at_def bounded_aspect_def le_max_iff_disj)

lemma centred_close:
  assumes "centred_at r c w h" "bounded_aspect r" "0 < w" "0 < h"
  shows "close_to r c"
proof (cases "height_at r w \<le> h \<or> cp_h c = height_at r (cp_w c)")
  case True
  have "1 \<le> width_at r h" by (simp add: width_at_def height_at_def)
  then have "0 < cp_w c" using assms(1,3) unfolding centred_at_def by (cases "height_at r w \<le> h") simp_all
  moreover have "cp_h c = height_at r (cp_w c)" using True assms(1) unfolding centred_at_def by (cases "height_at r w \<le> h") simp_all
  ultimately show ?thesis by (rule height_close [OF assms(2)])
next
  case False
  then have c: "cp_w c = width_at r h" "cp_h c = min h (height_at r (cp_w c))" using assms(1) unfolding centred_at_def by simp_all
  then have c: "cp_w c = width_at r h" "cp_h c = h" using False by linarith+
  have "\<bar>cp_w c * as_h r - h * as_w r\<bar> \<le> as_h r"
    using rounded_close [of h "as_w r" "as_h r"] assms(2,4)
    by (simp add: c width_at_def height_at_def aspect_rotated_def bounded_aspect_def)
  then show ?thesis unfolding close_to_def c(2) by (simp add: abs_minus_commute le_max_iff_disj)
qed

lemma centred_exact:
  assumes r: "bounded_aspect r" and s: "0 < w" "0 < h" "w \<le> 2 ^ 40" "h \<le> 2 ^ 40"
  shows "centred_at r (centred_crop r w h) w h"
proof -
  have n: "\<not> is_native r" using r by (simp add: bounded_aspect_def is_native_def)
  define cw where "cw = (if aspect_height r w > h then min w (aspect_width r h) else w)"
  define ch where "ch = min h (aspect_height r cw)"
  have cw: "1 \<le> cw" "cw \<le> w" using s scale_positive [OF n] by (auto simp: cw_def aspect_width_def)
  have ch: "1 \<le> ch" "ch \<le> h" using s scale_positive [OF n] by (auto simp: ch_def aspect_height_def)
  have wr: "wrap64 (w - cw) = w - cw" "wrap64 (h - ch) = h - ch"
    by (rule wrap64_id; use cw ch s in \<open>simp add: int64_range_def\<close>)+
  have c: "centred_crop r w h = \<lparr>cp_x = (w - cw) div 2, cp_y = (h - ch) div 2, cp_w = cw, cp_h = ch\<rparr>"
    using cw ch by (simp add: centred_crop_def Let_def wr sdiv_half flip: cw_def ch_def)
  have cw': "cw = (if height_at r w \<le> h then w else width_at r h)"
  proof (cases "height_at r w \<le> h")
    case True
    then show ?thesis using s by (simp add: cw_def aspect_height_at [OF r])
  next
    case False
    then show ?thesis using s width_fits [OF r s(1,2)] by (simp add: cw_def aspect_height_at [OF r] aspect_width_at [OF r])
  qed
  have ch': "ch = min h (height_at r cw)" using cw s by (simp add: ch_def aspect_height_at [OF r])
  show ?thesis using cw' ch' unfolding centred_at_def c by (auto simp: min_def)
qed

text \<open>The edit with its crop at the ratio, before it is checked.\<close>

definition fitted_edit :: "image_spec \<Rightarrow> edit option \<Rightarrow> int \<Rightarrow> int \<Rightarrow> edit option" where
  "fitted_edit im e w h =
     (let r = preset_ratio im e
      in if is_native r then edit_normalize e
         else (case edit_normalize e of
             Some x \<Rightarrow> (case ed_crop x of
                 Some c \<Rightarrow> Some (x\<lparr>ed_crop := Some (c\<lparr>cp_h := aspect_height r (cp_w c)\<rparr>)\<rparr>)
               | None \<Rightarrow> Some \<lparr>ed_crop = Some (centred_crop r w h), ed_rotate = ed_rotate x\<rparr>)
           | None \<Rightarrow> Some \<lparr>ed_crop = Some (centred_crop r w h), ed_rotate = 0\<rparr>))"

lemma normalize_cases:
  "edit_normalize e = None \<and> (e = None \<or> (\<exists>x. e = Some x \<and> ed_crop x = None \<and> ed_rotate x = 0)) \<or>
   (\<exists>x. e = Some x \<and> edit_normalize e = Some x \<and> \<not> (ed_crop x = None \<and> ed_rotate x = 0))"
  by (auto simp: edit_normalize_def split: option.splits)

lemma ratio_native [simp]: "is_native (preset_ratio im e) \<longleftrightarrow> is_native (im_aspect im)"
  by (auto simp: preset_ratio_def is_native_def aspect_rotated_def split: option.splits)

lemma ratio_bounded: "aspect_valid (im_aspect im) \<Longrightarrow> \<not> is_native (im_aspect im) \<Longrightarrow> bounded_aspect (preset_ratio im e)"
  by (auto simp: aspect_valid_iff is_native_def aspect_native_def bounded_aspect_def preset_ratio_def
      aspect_rotated_def split: option.splits)

lemma resolve_run:
  assumes run: "edit_resolve im e w h = Inr e'" and s: "0 < w" "0 < h"
  shows "e' = fitted_edit im e w h" "edit_check e' w h = None" "im_min_width im \<le> fst (edit_size e' w h)"
proof -
  let ?e = "edit_normalize e"
  have ratio: "(if (case ?e of Some x \<Rightarrow> ed_rotate x | None \<Rightarrow> 0) = 90 \<or> (case ?e of Some x \<Rightarrow> ed_rotate x | None \<Rightarrow> 0) = 270
      then aspect_rotated (im_aspect im) else im_aspect im) = preset_ratio im e"
    using normalize_cases [of e] by (auto simp: preset_ratio_def)
  have "edit_resolve im e w h = (case edit_check (fitted_edit im e w h) w h of
           Some err \<Rightarrow> Inl err
         | None \<Rightarrow> if fst (edit_size (fitted_edit im e w h) w h) < im_min_width im
             then Inl (ImageTooSmall (fst (edit_size (fitted_edit im e w h) w h)) (im_min_width im))
             else Inr (edit_normalize (fitted_edit im e w h)))"
    using s unfolding edit_resolve_def Let_def ratio fitted_edit_def by (simp split: option.split)
  moreover have "edit_normalize (fitted_edit im e w h) = fitted_edit im e w h"
    using normalize_cases [of e] by (auto simp: fitted_edit_def edit_normalize_def Let_def split: option.splits)
  ultimately show "e' = fitted_edit im e w h" "edit_check e' w h = None" "im_min_width im \<le> fst (edit_size e' w h)"
    using run by (auto split: option.splits if_splits)
qed

lemma fitted_crop:
  assumes "edit_check (fitted_edit im e w h) w h = None" "aspect_valid (im_aspect im)"
    and e: "e = Some x" "ed_crop x = Some c" and c: "cp_w c \<le> 2 ^ 40"
  shows "fitted_edit im e w h = Some (x\<lparr>ed_crop := Some (if is_native (im_aspect im) then c
       else c\<lparr>cp_h := height_at (preset_ratio im e) (cp_w c)\<rparr>)\<rparr>) \<and> 0 < cp_w c"
proof -
  have n: "edit_normalize e = Some x" using e by (simp add: edit_normalize_def)
  show ?thesis
  proof (cases "is_native (im_aspect im)")
    case True
    then have "fitted_edit im e w h = Some x" using n by (simp add: fitted_edit_def Let_def)
    then show ?thesis using True e assms(1) by (cases x) (auto simp: edit_check_def split: if_splits)
  next
    case False
    then have f: "fitted_edit im e w h = Some (x\<lparr>ed_crop := Some (c\<lparr>cp_h := aspect_height (preset_ratio im e) (cp_w c)\<rparr>)\<rparr>)"
      using e n by (simp add: fitted_edit_def Let_def)
    then have "0 < cp_w c" using assms(1) by (auto simp: edit_check_def split: if_splits)
    then show ?thesis using f False aspect_height_at [OF ratio_bounded [OF assms(2) False], of "cp_w c" e] c by simp
  qed
qed

lemma fitted_automatic:
  assumes "aspect_valid (im_aspect im)" "0 < w" "0 < h" "w \<le> 2 ^ 40" "h \<le> 2 ^ 40" "\<not> is_native (im_aspect im)"
    and none: "\<forall>x. e = Some x \<longrightarrow> ed_crop x = None"
  shows "\<exists>c. fitted_edit im e w h = Some \<lparr>ed_crop = Some c, ed_rotate = (case e of Some x \<Rightarrow> ed_rotate x | None \<Rightarrow> 0)\<rparr> \<and>
    centred_at (preset_ratio im e) c w h \<and> close_to (preset_ratio im e) c \<and> inside c w h"
proof -
  let ?r = "preset_ratio im e"
  note r = ratio_bounded [OF assms(1,6), of e]
  have "fitted_edit im e w h = Some \<lparr>ed_crop = Some (centred_crop ?r w h), ed_rotate = (case e of Some x \<Rightarrow> ed_rotate x | None \<Rightarrow> 0)\<rparr>"
    using normalize_cases [of e] none assms(6) by (auto simp: fitted_edit_def Let_def)
  moreover note centred_exact [OF r assms(2-5)]
  ultimately show ?thesis using centred_close [OF _ r assms(2,3)] centred_inside [OF r assms(2-5)] by blast
qed

lemma fitted_inside:
  assumes ok: "edit_check (fitted_edit im e w h) w h = None" and a: "aspect_valid (im_aspect im)" and s: "0 < w" "0 < h"
    and e: "e = Some x" "ed_crop x = Some c"
    and small: "cp_x c < 2 ^ 62" "cp_y c < 2 ^ 62" "cp_w c \<le> 2 ^ 40" "cp_h c < 2 ^ 62"
  shows "\<exists>c'. fitted_edit im e w h = Some (x\<lparr>ed_crop := Some c'\<rparr>) \<and> inside c' w h"
proof -
  let ?c = "if is_native (im_aspect im) then c else c\<lparr>cp_h := height_at (preset_ratio im e) (cp_w c)\<rparr>"
  have f: "fitted_edit im e w h = Some (x\<lparr>ed_crop := Some ?c\<rparr>)" "0 < cp_w c"
    using fitted_crop [OF ok a e small(3)] by blast+
  have "small_crop ?c"
  proof (cases "is_native (im_aspect im)")
    case True
    then show ?thesis using small by (simp add: small_crop_def)
  next
    case False
    then show ?thesis
      using small height_at_small [OF ratio_bounded [OF a False] f(2) small(3)] by (simp add: small_crop_def)
  qed
  then have "inside ?c w h" using edit_check_inside [OF ok [unfolded f(1)] _ _ s] by simp
  then show ?thesis using f(1) by blast
qed

text \<open>
  C31: on a source of known size the edit a preset resolves applies to it: its rotation is a
  quarter turn, its crop lies inside the source and the edited image is at least as wide as the
  preset asks. A crop asked for keeps its place and width and has the height of its ratio, to the
  nearest pixel. With a ratio and no crop asked for the crop is the largest centred one at that
  ratio: as wide as the source when its height fits, else as wide as the source's height gives,
  and within a pixel of the ratio. The source is at most \<open>2 ^ 40\<close> wide and high, and the crop asked
  for at most \<open>2 ^ 40\<close> wide with its other numbers below \<open>2 ^ 62\<close>: beyond, the sums and products of
  64 bits wrap (see \<open>edit_check_overflow\<close>).
\<close>

theorem resolved_edit_fits:
  assumes run: "edit_resolve im e w h = Inr e'" and s: "0 < w" "0 < h" "w \<le> 2 ^ 40" "h \<le> 2 ^ 40"
    and a: "aspect_valid (im_aspect im)"
    and small: "\<forall>x c. e = Some x \<longrightarrow> ed_crop x = Some c \<longrightarrow> cp_x c < 2 ^ 62 \<and> cp_y c < 2 ^ 62 \<and> cp_w c \<le> 2 ^ 40 \<and> cp_h c < 2 ^ 62"
  shows "im_min_width im \<le> fst (edit_size e' w h) \<and>
    (case e' of
       None \<Rightarrow> is_native (im_aspect im)
     | Some x' \<Rightarrow> ed_rotate x' \<in> {0, 90, 180, 270} \<and>
         (case ed_crop x' of None \<Rightarrow> is_native (im_aspect im) | Some c \<Rightarrow> inside c w h)) \<and>
    (\<forall>x c. e = Some x \<and> ed_crop x = Some c \<longrightarrow> e' = Some (x\<lparr>ed_crop := Some (if is_native (im_aspect im) then c
       else c\<lparr>cp_h := height_at (preset_ratio im e) (cp_w c)\<rparr>)\<rparr>)) \<and>
    (\<not> is_native (im_aspect im) \<and> (\<forall>x. e = Some x \<longrightarrow> ed_crop x = None) \<longrightarrow>
       (\<exists>c. e' = Some \<lparr>ed_crop = Some c, ed_rotate = (case e of Some x \<Rightarrow> ed_rotate x | None \<Rightarrow> 0)\<rparr> \<and>
          centred_at (preset_ratio im e) c w h \<and> close_to (preset_ratio im e) c))"
proof -
  note r = resolve_run [OF run s(1,2)]
  note ok = r(2) [unfolded r(1)]
  have rotate: "e' = Some x' \<Longrightarrow> ed_rotate x' \<in> {0, 90, 180, 270}" for x'
    using r(2) by (auto simp: edit_check_def split: if_splits)
  have placed: "case e' of None \<Rightarrow> is_native (im_aspect im)
      | Some x' \<Rightarrow> (case ed_crop x' of None \<Rightarrow> is_native (im_aspect im) | Some c \<Rightarrow> inside c w h)"
  proof (cases "\<exists>x c. e = Some x \<and> ed_crop x = Some c")
    case True
    then obtain x c where e: "e = Some x" "ed_crop x = Some c" by blast
    then show ?thesis using fitted_inside [OF ok a s(1,2) e] small r(1) by fastforce
  next
    case False
    then have none: "\<forall>x. e = Some x \<longrightarrow> ed_crop x = None" by auto
    show ?thesis
    proof (cases "is_native (im_aspect im)")
      case True
      then have "e' = edit_normalize e" using r(1) by (simp add: fitted_edit_def Let_def)
      then show ?thesis using True none normalize_cases [of e] by auto
    next
      case False
      then show ?thesis using fitted_automatic [OF a s False none] r(1) by auto
    qed
  qed
  have automatic: "\<not> is_native (im_aspect im) \<and> (\<forall>x. e = Some x \<longrightarrow> ed_crop x = None) \<longrightarrow>
      (\<exists>c. e' = Some \<lparr>ed_crop = Some c, ed_rotate = (case e of Some x \<Rightarrow> ed_rotate x | None \<Rightarrow> 0)\<rparr> \<and>
          centred_at (preset_ratio im e) c w h \<and> close_to (preset_ratio im e) c)"
    using fitted_automatic [OF a s, of e] r(1) by blast
  have kept: "e' = Some (x\<lparr>ed_crop := Some (if is_native (im_aspect im) then c
       else c\<lparr>cp_h := height_at (preset_ratio im e) (cp_w c)\<rparr>)\<rparr>)" if "e = Some x" "ed_crop x = Some c" for x c
    using fitted_crop [OF ok a that] small that r(1) by blast
  have turned: "case e' of None \<Rightarrow> is_native (im_aspect im)
      | Some x' \<Rightarrow> ed_rotate x' \<in> {0, 90, 180, 270} \<and> (case ed_crop x' of None \<Rightarrow> is_native (im_aspect im) | Some c \<Rightarrow> inside c w h)"
    using rotate placed by (cases e') simp_all
  show ?thesis using r(3) turned kept automatic by blast
qed

text \<open>
  The edit a preset makes of no edit need not be one it accepts: at 9:16 a source of 1920 by
  1080 has the crop 608 by 1080, and asking for that crop is refused, its height rounded to 1081.
\<close>

definition portrait :: image_spec where
  "portrait = no_image\<lparr>im_aspect := \<lparr>as_w = 9, as_h = 16\<rparr>\<rparr>"

definition portrait_edit :: edit where
  "portrait_edit = \<lparr>ed_crop = Some \<lparr>cp_x = 656, cp_y = 0, cp_w = 608, cp_h = 1080\<rparr>, ed_rotate = 0\<rparr>"

lemma resolve_refuses_own_edit:
  "edit_resolve portrait None 1920 1080 = Inr (Some portrait_edit) \<and>
   edit_resolve portrait (Some portrait_edit) 1920 1080 = Inl OutsideCrop"
  by code_simp

theorem resolved_edit_fits_witness:
  "edit_resolve portrait None 1920 1080 = Inr (Some portrait_edit) \<and>
   inside \<lparr>cp_x = 656, cp_y = 0, cp_w = 608, cp_h = 1080\<rparr> 1920 1080 \<and>
   close_to \<lparr>as_w = 9, as_h = 16\<rparr> \<lparr>cp_x = 656, cp_y = 0, cp_w = 608, cp_h = 1080\<rparr>"
proof -
  have run: "edit_resolve portrait None 1920 1080 = Inr (Some portrait_edit)" by code_simp
  have "coprime (9 :: int) 16" by code_simp
  then have a: "aspect_valid (im_aspect portrait)" by (simp add: portrait_def no_image_def aspect_valid_iff)
  have r: "preset_ratio portrait None = \<lparr>as_w = 9, as_h = 16\<rparr>" "\<not> is_native (im_aspect portrait)"
    by (simp_all add: preset_ratio_def portrait_def is_native_def)
  from resolved_edit_fits [OF run _ _ _ _ a] show ?thesis using run r by (simp add: portrait_edit_def)
qed

end
