(* ===== verification/Entitlement.thy ===== *)
theory Entitlement
  imports Access_Rules
begin

text \<open>
  Package \<open>internal/entitlement\<close>: the access gate. It decides which versions a viewer opens
  from what billing says the viewer holds. This theory has its data: the billing port, the
  gate and its construction, the filter one billing read leaves, the request memo, and the
  plan of an item. \<open>Entitlement_Gate\<close> has the operations.

  The billing service is not part of the program: it is a function from a subject and a
  query to an answer or an error. The log is not modelled. Go maps that only ever hold
  \<open>true\<close> are lists of their keys.
\<close>

section \<open>The billing port\<close>

definition held_limit :: int where "held_limit = 1000"

record query =
  q_keys :: "string list"
  q_prefixes :: "string list"
  q_limit :: int

record held_keys =
  hk_keys :: "string list"
  hk_truncated :: bool

record answer =
  an_keys :: "string \<rightharpoonup> bool"
  an_held :: "string \<rightharpoonup> held_keys"

type_synonym billing = "string \<Rightarrow> query \<Rightarrow> (string, answer) result"

text \<open>\<open>ans.Keys[k]\<close>: a missing key reads as false.\<close>

definition answer_key :: "answer \<Rightarrow> string \<Rightarrow> bool" where
  "answer_key ans k = (case an_keys ans k of Some b \<Rightarrow> b | None \<Rightarrow> False)"

section \<open>The gate\<close>

text \<open>\<open>g_ref\<close> is the identity of the gate, which \<open>Settle\<close> compares; \<open>tierSet\<close> is the set of
  \<open>g_tiers\<close>.\<close>

record gate =
  g_ref :: nat
  g_tenant :: string
  g_tiers :: "string list"
  g_claimable :: "string list"
  g_prefixes :: "string list"
  g_billing :: "billing option"

record gate_config =
  gc_tenant :: string
  gc_tiers :: "string list"
  gc_token_claims :: "string list"
  gc_billing :: "billing option"

datatype gate_error = GateTenant string | GateTier string | GateClaim string

definition gate_tier_checks :: "string list \<Rightarrow> string \<Rightarrow> gate_error option list" where
  "gate_tier_checks seen t = [refuse_if (\<not> valid_tier t \<or> t \<in> set seen) (GateTier t)]"

definition new_gate :: "nat \<Rightarrow> gate_config \<Rightarrow> (gate_error, gate) result" where
  "new_gate ref c =
     (if \<not> valid_tenant (gc_tenant c) then Inl (GateTenant (gc_tenant c))
      else case first_error (scan gate_tier_checks [] (gc_tiers c)) of
        Some e \<Rightarrow> Inl e
      | None \<Rightarrow>
          (case first_error (map (\<lambda>t. refuse_if (t \<notin> set (gc_tiers c)) (GateClaim t))
             (gc_token_claims c)) of
             Some e \<Rightarrow> Inl e
           | None \<Rightarrow> Inr \<lparr>g_ref = ref, g_tenant = gc_tenant c, g_tiers = sort (gc_tiers c),
               g_claimable = gc_token_claims c,
               g_prefixes = [content_prefix (gc_tenant c), channel_prefix (gc_tenant c)],
               g_billing = gc_billing c\<rparr>))"

section \<open>Filters\<close>

record access_filter =
  fl_gate :: gate
  fl_anonymous :: bool
  fl_unknown :: bool
  fl_err :: "string option"
  fl_tiers :: "(string \<times> bool) list"
  fl_contents :: "string list"
  fl_versions :: "(string \<times> string) list"
  fl_entities :: "string list"
  fl_contents_complete :: bool
  fl_entities_complete :: bool

definition empty_filter :: "gate \<Rightarrow> access_filter" where
  "empty_filter g = \<lparr>fl_gate = g, fl_anonymous = False, fl_unknown = False, fl_err = None,
     fl_tiers = [], fl_contents = [], fl_versions = [], fl_entities = [],
     fl_contents_complete = True, fl_entities_complete = True\<rparr>"

text \<open>\<open>g.anon\<close>.\<close>

definition anon_filter :: "gate \<Rightarrow> access_filter" where
  "anon_filter g = (empty_filter g)\<lparr>fl_anonymous := True\<rparr>"

definition filter_tier :: "access_filter \<Rightarrow> string \<Rightarrow> bool" where
  "filter_tier f name \<longleftrightarrow> map_of (fl_tiers f) name = Some True"

definition filter_contents :: "access_filter \<Rightarrow> string list" where
  "filter_contents f = sorted_keys (fl_contents f)"

definition filter_channels :: "access_filter \<Rightarrow> string list" where
  "filter_channels f = sorted_keys (fl_entities f)"

definition filter_complete :: "access_filter \<Rightarrow> bool" where
  "filter_complete f \<longleftrightarrow> \<not> fl_unknown f \<and> fl_contents_complete f \<and> fl_entities_complete f"

text \<open>\<open>lookup\<close>: whether the key is held, and whether the filter knows.\<close>

definition filter_lookup :: "access_filter \<Rightarrow> key \<Rightarrow> bool \<times> bool" where
  "filter_lookup f k =
     (if fl_anonymous f \<or> k_kind k \<noteq> KeyTier \<and> k_tenant k \<noteq> g_tenant (fl_gate f) then (False, True)
      else case k_kind k of
        KeyTier \<Rightarrow>
          (case map_of (fl_tiers f) (key_tier k) of
             Some h \<Rightarrow> (h, True)
           | None \<Rightarrow> (False, key_tier k \<notin> set (g_tiers (fl_gate f))))
      | KeyContent \<Rightarrow>
          (let h = key_content k \<in> set (fl_contents f)
           in (h, h \<or> fl_contents_complete f \<and> \<not> fl_unknown f))
      | KeyVersion \<Rightarrow>
          (let h = map_of (fl_versions f) (k_version k) = Some (key_content k)
           in (h, h \<or> fl_contents_complete f \<and> \<not> fl_unknown f))
      | KeyChannel \<Rightarrow>
          (let h = key_channel k \<in> set (fl_entities f)
           in (h, h \<or> fl_entities_complete f \<and> \<not> fl_unknown f))
      | KeyZero \<Rightarrow> (False, True))"

text \<open>\<open>load\<close>, one held key at a time.\<close>

definition load_held :: "string \<Rightarrow> string \<Rightarrow> access_filter \<Rightarrow> (string, access_filter) result" where
  "load_held p s f =
     (case parse_key s of
        Inl _ \<Rightarrow> Inr f
      | Inr k \<Rightarrow>
          if \<not> has_prefix p s \<or> k_tenant k \<noteq> g_tenant (fl_gate f) then Inr f
          else (case k_kind k of
            KeyContent \<Rightarrow> Inr (f\<lparr>fl_contents := List.insert (key_content k) (fl_contents f)\<rparr>)
          | KeyVersion \<Rightarrow>
              (case map_of (fl_versions f) (k_version k) of
                 Some parent \<Rightarrow>
                   if parent \<noteq> key_content k then Inl ''conflicting parents for version''
                   else Inr (f\<lparr>fl_versions := AList.update (k_version k) (key_content k) (fl_versions f)\<rparr>)
               | None \<Rightarrow>
                   Inr (f\<lparr>fl_versions := AList.update (k_version k) (key_content k) (fl_versions f)\<rparr>))
          | KeyChannel \<Rightarrow> Inr (f\<lparr>fl_entities := List.insert (key_channel k) (fl_entities f)\<rparr>)
          | _ \<Rightarrow> Inr f))"

definition load_prefix :: "answer \<Rightarrow> string \<Rightarrow> access_filter \<Rightarrow> (string, access_filter) result" where
  "load_prefix ans p f =
     (case an_held ans p of
        None \<Rightarrow> Inl ''entitlements answer lacks prefix''
      | Some h \<Rightarrow>
          bindr (fold_result (load_held p) (hk_keys h) f)
          (\<lambda>f. Inr (if p = content_prefix (g_tenant (fl_gate f))
             then f\<lparr>fl_contents_complete := \<not> hk_truncated h\<rparr>
             else f\<lparr>fl_entities_complete := \<not> hk_truncated h\<rparr>)))"

definition load_filter :: "answer \<Rightarrow> query \<Rightarrow> access_filter \<Rightarrow> (string, access_filter) result" where
  "load_filter ans q f =
     fold_result (load_prefix ans) (q_prefixes q)
       (fold (\<lambda>k f. f\<lparr>fl_tiers := AList.update k (answer_key ans k) (fl_tiers f)\<rparr>) (q_keys q) f)"

section \<open>Viewers\<close>

definition anonymous_viewer :: "actor \<Rightarrow> bool" where
  "anonymous_viewer a \<longleftrightarrow> a_anonymous a \<or> a_id a = [] \<or> a_account a = Some []"

definition account_subject :: "actor \<Rightarrow> string" where
  "account_subject a = (case a_account a of Some i \<Rightarrow> i | None \<Rightarrow> a_id a)"

definition actor_claims :: "actor \<Rightarrow> string list" where
  "actor_claims a = (case a_claims a of
     Some cs \<Rightarrow> if a_anonymous a then [] else cs | None \<Rightarrow> [])"

definition claimed :: "gate \<Rightarrow> actor \<Rightarrow> string list" where
  "claimed g a = remdups (filter (\<lambda>c. c \<in> set (g_claimable g)) (actor_claims a))"

section \<open>The request memo\<close>

text \<open>
  A memo holds, per gate and subject, the filter and the exact keys one request has read.
  A request without a memo is \<open>None\<close>; a missing entry is created empty.
\<close>

record memo_entry =
  me_filter :: "access_filter option"
  me_keys :: "string \<rightharpoonup> bool"

type_synonym slot = "nat \<times> string"
type_synonym memo = "(slot \<rightharpoonup> memo_entry) option"

definition empty_entry :: memo_entry where
  "empty_entry = \<lparr>me_filter = None, me_keys = Map.empty\<rparr>"

definition memo_for :: "memo \<Rightarrow> slot \<Rightarrow> memo_entry option" where
  "memo_for m s = map_option (\<lambda>es. case es s of Some e \<Rightarrow> e | None \<Rightarrow> empty_entry) m"

definition memo_load_filter :: "memo_entry option \<Rightarrow> access_filter option" where
  "memo_load_filter e = Option.bind e me_filter"

definition entry_store_filter :: "access_filter \<Rightarrow> memo_entry \<Rightarrow> memo_entry" where
  "entry_store_filter f e = (if me_filter e = None then e\<lparr>me_filter := Some f\<rparr> else e)"

definition memo_key :: "memo_entry option \<Rightarrow> string \<Rightarrow> bool option" where
  "memo_key e k = Option.bind e (\<lambda>e. me_keys e k)"

definition entry_store_key :: "string \<Rightarrow> bool \<Rightarrow> memo_entry \<Rightarrow> memo_entry" where
  "entry_store_key k v e = e\<lparr>me_keys := (me_keys e)(k \<mapsto> v)\<rparr>"

definition entry_store_keys :: "(string \<times> bool) list \<Rightarrow> memo_entry \<Rightarrow> memo_entry" where
  "entry_store_keys kvs e = fold (\<lambda>(k, v). entry_store_key k v) kvs e"

text \<open>Write an entry of the memo back.\<close>

definition memo_update :: "slot \<Rightarrow> (memo_entry \<Rightarrow> memo_entry) \<Rightarrow> memo \<Rightarrow> memo" where
  "memo_update s upd m =
     map_option (\<lambda>es. es(s \<mapsto> upd (case es s of Some e \<Rightarrow> e | None \<Rightarrow> empty_entry))) m"

interpretation entry_keys: cache "\<lambda>e. me_keys e" "\<lambda>k v e. entry_store_key k v e"
  by unfold_locales (simp add: entry_store_key_def)

section \<open>Plans\<close>

record release_plan =
  rp_at :: time
  rp_keys :: "key list"

record item_plan =
  ip_invalid :: bool
  ip_rule :: rule
  ip_version :: key
  ip_channels :: "key list"
  ip_tiers :: "key list"
  ip_requires :: "key option"
  ip_releases :: "release_plan list"

datatype plan_error = PlanRule rule_error | PlanKey key_error

definition lift_key :: "(key_error, 'a) result \<Rightarrow> (plan_error, 'a) result" where
  "lift_key r = (case r of Inl e \<Rightarrow> Inl (PlanKey e) | Inr k \<Rightarrow> Inr k)"

definition add_tier :: "gate \<Rightarrow> string \<Rightarrow> key list \<Rightarrow> (plan_error, key list) result" where
  "add_tier g t ks =
     (if t \<in> set (g_tiers g) then bindr (lift_key (tier_key t)) (\<lambda>k. Inr (ks @ [k])) else Inr ks)"

definition add_release_tier :: "gate \<Rightarrow> string \<Rightarrow> key list \<Rightarrow> (plan_error, key list) result" where
  "add_release_tier g t ks =
     (if t \<notin> set (g_tiers g) then Inl (PlanRule BareErrRule)
      else bindr (lift_key (tier_key t)) (\<lambda>k. Inr (ks @ [k])))"

definition plan_release ::
    "gate \<Rightarrow> release \<Rightarrow> release_plan list \<Rightarrow> (plan_error, release_plan list) result" where
  "plan_release g x rps =
     bindr
       (if rel_level x = public_level then Inr []
        else if rel_level x = tier_level then fold_result (add_release_tier g) (rel_tiers x) []
        else if rel_level x = channel_level then
          bindr (lift_key (channel_key (g_tenant g) (rel_channel x))) (\<lambda>k. Inr [k])
        else Inl (PlanRule BareErrRule))
       (\<lambda>ks. Inr (rps @ [\<lparr>rp_at = rel_at x, rp_keys = ks\<rparr>]))"

definition blank_plan :: "rule \<Rightarrow> key \<Rightarrow> item_plan" where
  "blank_plan r v = \<lparr>ip_invalid = False, ip_rule = r, ip_version = v, ip_channels = [],
     ip_tiers = [], ip_requires = None, ip_releases = []\<rparr>"

definition plan_level :: "gate \<Rightarrow> rule \<Rightarrow> item_plan \<Rightarrow> (plan_error, item_plan) result" where
  "plan_level g r p =
     (if r_level r = public_level \<or> r_level r = ppv_level then Inr p
      else if r_level r = tier_level then
        bindr (fold_result (add_tier g) (r_tiers r) []) (\<lambda>ks. Inr (p\<lparr>ip_tiers := ks\<rparr>))
      else if r_level r = channel_level \<or> r_level r = channel_ppv then
        bindr (case channel_key (g_tenant g) (r_channel r) of
            Inl e \<Rightarrow> Inl (PlanKey e) | Inr k \<Rightarrow> Inr k)
          (\<lambda>k. Inr (if r_level r = channel_level then p\<lparr>ip_channels := [k]\<rparr>
             else p\<lparr>ip_requires := Some k\<rparr>))
      else Inl (PlanRule (UnknownLevel (r_level r))))"

definition plan_one :: "gate \<Rightarrow> item \<Rightarrow> (plan_error, item_plan) result" where
  "plan_one g it =
     (case validate_releases (g_tiers g) (it_rule it) of
        Some e \<Rightarrow> Inl (PlanRule e)
      | None \<Rightarrow>
          bindr (lift_key (version_key (g_tenant g) (it_content it) (it_version it)))
          (\<lambda>v. bindr (plan_level g (it_rule it) (blank_plan (it_rule it) v))
          (\<lambda>p. bindr (fold_result (plan_release g) (r_releases (it_rule it)) [])
          (\<lambda>rps. Inr (p\<lparr>ip_releases := rps\<rparr>)))))"

definition invalid_plan :: item_plan where
  "invalid_plan = \<lparr>ip_invalid = True,
     ip_rule = \<lparr>r_level = [], r_tiers = [], r_channel = [], r_preview = None, r_releases = []\<rparr>,
     ip_version = zero_key, ip_channels = [], ip_tiers = [], ip_requires = None, ip_releases = []\<rparr>"

definition plan_items :: "gate \<Rightarrow> item list \<Rightarrow> item_plan list" where
  "plan_items g its = map (\<lambda>it. case plan_one g it of Inl _ \<Rightarrow> invalid_plan | Inr p \<Rightarrow> p) its"

end
