(* ===== verification/Entitlement_Gate.thy ===== *)
theory Entitlement_Gate
  imports Entitlement
begin

text \<open>
  The operations of the access gate: reading a viewer's filter, deciding items, answering
  keys, and settling a page of a listing. Each operation takes the request memo and returns
  it updated, together with the billing queries it made, in order. The gate's clock is an
  argument; where the code reads it twice there are two arguments.
\<close>

section \<open>Knowledge and verdicts\<close>

record knowledge =
  kn_anonymous :: bool
  kn_claimed :: "string list"
  kn_filter :: "access_filter option"
  kn_memo :: "memo_entry option"
  kn_read :: "string \<rightharpoonup> bool"

definition kn_lookup :: "knowledge \<Rightarrow> key \<Rightarrow> bool \<times> bool" where
  "kn_lookup kn k =
     (if kn_anonymous kn then (False, True)
      else if k_kind k = KeyTier \<and> key_tier k \<in> set (kn_claimed kn) then (True, True)
      else case (case kn_filter kn of None \<Rightarrow> None
            | Some f \<Rightarrow> (let (h, ok) = filter_lookup f k in if ok then Some h else None)) of
        Some h \<Rightarrow> (h, True)
      | None \<Rightarrow>
          (case kn_read kn (key_string k) of
             Some h \<Rightarrow> (h, True)
           | None \<Rightarrow>
               (case memo_key (kn_memo kn) (key_string k) of
                  Some h \<Rightarrow> (h, True) | None \<Rightarrow> (False, False))))"

record decision =
  dc_allowed :: bool
  dc_unknown :: bool
  dc_sell :: "key list"
  dc_requires :: "key option"
  dc_preview :: "preview option"
  dc_releases :: "release list"

definition denied :: decision where
  "denied = \<lparr>dc_allowed = False, dc_unknown = False, dc_sell = [], dc_requires = None,
     dc_preview = None, dc_releases = []\<rparr>"

text \<open>The closure \<open>ask\<close> over a list of keys: stop at the first held one, else the keys that
  are not known.\<close>

fun ask_keys :: "knowledge \<Rightarrow> key list \<Rightarrow> key list \<Rightarrow> bool \<times> key list" where
  "ask_keys kn [] unknown = (False, unknown)"
| "ask_keys kn (k # ks) unknown =
     (let (h, ok) = kn_lookup kn k;
          unknown' = (if ok then unknown else unknown @ [k])
      in if h then (True, unknown') else ask_keys kn ks unknown')"

definition plan_opens :: "item_plan \<Rightarrow> time \<Rightarrow> key list" where
  "plan_opens p now = ip_tiers p @ ip_channels p @ [ip_version p]
     @ concat (map (\<lambda>x. if \<not> now < rp_at x then rp_keys x else []) (ip_releases p))"

text \<open>What a denied viewer is offered.\<close>

definition sell_keys :: "item_plan \<Rightarrow> key list" where
  "sell_keys p =
     (if r_level (ip_rule p) = tier_level then ip_tiers p
      else if r_level (ip_rule p) = channel_level then [last (ip_channels p)]
      else if r_level (ip_rule p) = ppv_level \<or> r_level (ip_rule p) = channel_ppv then [ip_version p]
      else [])"

definition offer :: "item_plan \<Rightarrow> bool \<Rightarrow> decision" where
  "offer p requires_held = denied\<lparr>
     dc_preview := r_preview (ip_rule p), dc_sell := sell_keys p,
     dc_requires := (if requires_held then None else ip_requires p),
     dc_releases := r_releases (ip_rule p)\<rparr>"

definition verdict :: "item_plan \<Rightarrow> knowledge \<Rightarrow> time \<Rightarrow> bool \<Rightarrow> decision \<times> key list" where
  "verdict p kn now paywall =
     (if ip_invalid p then (denied, [])
      else if rule_free (ip_rule p) now then (denied\<lparr>dc_allowed := True\<rparr>, [])
      else
        let (opened, unknown) = ask_keys kn (plan_opens p now) []
        in if opened then (denied\<lparr>dc_allowed := True\<rparr>, [])
           else if unknown \<noteq> [] then (denied\<lparr>dc_unknown := True\<rparr>, unknown)
           else (case ip_requires p of
             None \<Rightarrow> (offer p True, [])
           | Some k \<Rightarrow>
               if \<not> paywall then (offer p True, [])
               else let (h, ok) = kn_lookup kn k
                    in if ok then (offer p h, []) else (denied\<lparr>dc_unknown := True\<rparr>, [k])))"

section \<open>Reading a filter\<close>

definition read_query :: "gate \<Rightarrow> string list \<Rightarrow> query" where
  "read_query g cl = \<lparr>q_keys = filter (\<lambda>t. t \<notin> set cl) (g_tiers g),
     q_prefixes = g_prefixes g, q_limit = held_limit\<rparr>"

definition failed_filter :: "gate \<Rightarrow> string list \<Rightarrow> string \<Rightarrow> access_filter" where
  "failed_filter g cl e = (empty_filter g)\<lparr>fl_unknown := True, fl_err := Some e,
     fl_tiers := map (\<lambda>t. (t, True)) cl\<rparr>"

definition read_filter :: "gate \<Rightarrow> actor \<Rightarrow> access_filter \<times> query list" where
  "read_filter g a =
     (let cl = claimed g a;
          f = (empty_filter g)\<lparr>fl_tiers := map (\<lambda>t. (t, True)) (filter (\<lambda>t. t \<in> set cl) (g_tiers g))\<rparr>;
          q = read_query g cl
      in case g_billing g of
           None \<Rightarrow>
             (fold (\<lambda>t f. f\<lparr>fl_tiers := AList.update t False (fl_tiers f)\<rparr>) (q_keys q) f, [])
         | Some held \<Rightarrow>
             ((case bindr (held (account_subject a) q) (\<lambda>ans. load_filter ans q f) of
                 Inr f' \<Rightarrow> f'
               | Inl e \<Rightarrow> failed_filter g cl e), [q]))"

definition gate_filter ::
    "gate \<Rightarrow> actor \<Rightarrow> memo \<Rightarrow> access_filter \<times> string option \<times> query list \<times> memo" where
  "gate_filter g a m =
     (if anonymous_viewer a then (anon_filter g, None, [], m)
      else
        let s = (g_ref g, account_subject a)
        in case memo_load_filter (memo_for m s) of
             Some f \<Rightarrow> (f, fl_err f, [], m)
           | None \<Rightarrow>
               (let (f, qs) = read_filter g a
                in (f, fl_err f, qs, memo_update s (entry_store_filter f) m)))"

section \<open>Deciding\<close>

definition actor_knowledge :: "gate \<Rightarrow> actor \<Rightarrow> access_filter option \<Rightarrow> memo \<Rightarrow> knowledge" where
  "actor_knowledge g a f m =
     (if anonymous_viewer a
      then \<lparr>kn_anonymous = True, kn_claimed = [], kn_filter = None, kn_memo = None, kn_read = Map.empty\<rparr>
      else
        let e = memo_for m (g_ref g, account_subject a)
        in \<lparr>kn_anonymous = False, kn_claimed = claimed g a,
            kn_filter = (case f of Some _ \<Rightarrow> f | None \<Rightarrow> memo_load_filter e),
            kn_memo = e, kn_read = Map.empty\<rparr>)"

text \<open>One exact billing read of sorted keys; without billing nothing is held.\<close>

definition billing_keys :: "gate \<Rightarrow> string \<Rightarrow> string list \<Rightarrow> (string, answer) result \<times> query list" where
  "billing_keys g subject keys =
     (case g_billing g of
        None \<Rightarrow> (Inr \<lparr>an_keys = Map.empty, an_held = Map.empty\<rparr>, [])
      | Some held \<Rightarrow>
          (let q = \<lparr>q_keys = keys, q_prefixes = [], q_limit = 0\<rparr> in (held subject q, [q])))"

definition needed_keys :: "knowledge \<Rightarrow> time \<Rightarrow> item_plan list \<Rightarrow> string list" where
  "needed_keys kn now ps = sorted_keys (map key_string (concat (map (\<lambda>p. snd (verdict p kn now True)) ps)))"

definition decide_plans ::
    "gate \<Rightarrow> actor \<Rightarrow> access_filter option \<Rightarrow> item_plan list \<Rightarrow> time \<Rightarrow> memo \<Rightarrow>
     decision list \<times> string option \<times> query list \<times> memo" where
  "decide_plans g a f ps now m =
     (let kn = actor_knowledge g a f m;
          out = map (\<lambda>p. fst (verdict p kn now True)) ps;
          keys = needed_keys kn now ps
      in if keys = [] then (out, None, [], m)
         else (case billing_keys g (account_subject a) keys of
           (Inl e, qs) \<Rightarrow> (out, Some e, qs, m)
         | (Inr ans, qs) \<Rightarrow>
             (let read = map (\<lambda>k. (k, answer_key ans k)) keys;
                  s = (g_ref g, account_subject a);
                  m' = memo_update s (entry_store_keys read) m;
                  kn' = kn\<lparr>kn_read := map_of read, kn_memo := memo_for m' s\<rparr>
              in (map (\<lambda>p. fst (verdict p kn' now True)) ps, None, qs, m'))))"

definition gate_decide ::
    "gate \<Rightarrow> actor \<Rightarrow> item list \<Rightarrow> time \<Rightarrow> memo \<Rightarrow>
     decision list \<times> string option \<times> query list \<times> memo" where
  "gate_decide g a its now m = decide_plans g a None (plan_items g its) now m"

section \<open>Holding keys\<close>

definition in_gate :: "gate \<Rightarrow> key \<Rightarrow> bool" where
  "in_gate g k \<longleftrightarrow> k_kind k = KeyTier \<or> k_tenant k = g_tenant g"

definition gate_holds ::
    "gate \<Rightarrow> actor \<Rightarrow> key list \<Rightarrow> memo \<Rightarrow> bool list \<times> string option \<times> query list \<times> memo" where
  "gate_holds g a ks m =
     (if anonymous_viewer a then (map (\<lambda>_. False) ks, None, [], m)
      else
        let kn = actor_knowledge g a None m;
            out = map (\<lambda>k. in_gate g k \<and> fst (kn_lookup kn k)) ks;
            need = filter (\<lambda>k. in_gate g k \<and> \<not> snd (kn_lookup kn k)) ks
        in if need = [] then (out, None, [], m)
           else
             let ask = sorted_keys (map key_string need)
             in case billing_keys g (account_subject a) ask of
                  (Inl e, qs) \<Rightarrow> (out, Some e, qs, m)
                | (Inr ans, qs) \<Rightarrow>
                    (let read = map (\<lambda>k. (k, answer_key ans k)) ask;
                         s = (g_ref g, account_subject a)
                     in (map (\<lambda>(o', k). case map_of read (key_string k) of Some h \<Rightarrow> h | None \<Rightarrow> o')
                           (zip out ks),
                         None, qs, memo_update s (entry_store_keys read) m)))"

section \<open>Listings\<close>

text \<open>\<open>Allows\<close>: the filter's own answer, and whether it knows.\<close>

definition filter_knowledge :: "access_filter \<Rightarrow> knowledge" where
  "filter_knowledge f = \<lparr>kn_anonymous = False, kn_claimed = [], kn_filter = Some f,
     kn_memo = None, kn_read = Map.empty\<rparr>"

definition filter_allows :: "access_filter \<Rightarrow> item \<Rightarrow> time \<Rightarrow> bool \<times> bool" where
  "filter_allows f it now =
     (case plan_one (fl_gate f) it of
        Inl _ \<Rightarrow> (False, True)
      | Inr p \<Rightarrow>
          (let (d, unknown) = verdict p (filter_knowledge f) now False
           in (dc_allowed d, unknown = [])))"

datatype settle_error = SettleFilter | SettleUnavailable string

fun merge_keep :: "item_plan list \<Rightarrow> knowledge \<Rightarrow> time \<Rightarrow> bool list \<Rightarrow> bool list" where
  "merge_keep [] kn now later = []"
| "merge_keep (p # ps) kn now later =
     (let (d, unknown) = verdict p kn now False
      in if unknown = [] then dc_allowed d # merge_keep ps kn now later
         else (case later of
           [] \<Rightarrow> False # merge_keep ps kn now []
         | b # bs \<Rightarrow> b # merge_keep ps kn now bs))"

text \<open>\<open>f\<close> is \<open>None\<close> for a nil filter. The clock is read at \<open>now\<close> here and at \<open>now'\<close> by the
  exact read.\<close>

definition gate_settle ::
    "gate \<Rightarrow> actor \<Rightarrow> access_filter option \<Rightarrow> item list \<Rightarrow> time \<Rightarrow> time \<Rightarrow> memo \<Rightarrow>
     (settle_error, bool list \<times> bool \<times> string option) result \<times> query list \<times> memo" where
  "gate_settle g a fo its now now' m =
     (case fo of
        None \<Rightarrow> (Inl SettleFilter, [], m)
      | Some f \<Rightarrow>
          if g_ref (fl_gate f) \<noteq> g_ref g then (Inl SettleFilter, [], m)
          else
            let plans = plan_items g its;
                kn = filter_knowledge f;
                pending = filter (\<lambda>p. snd (verdict p kn now False) \<noteq> []) plans
            in if pending = [] then
                 (let keep = merge_keep plans kn now []
                  in (Inr (keep, False \<in> set keep, None), [], m))
               else
                 (let (ds, err, qs, m') = decide_plans g a (Some f) pending now' m;
                      keep = merge_keep plans kn now (map dc_allowed ds)
                  in (Inr (keep, False \<in> set keep, err), qs, m')))"

end
