(* ===== verification/Entitlement_Plans.thy ===== *)
theory Entitlement_Plans
  imports Entitlement_Gate
begin

text \<open>
  Gates and plans: what \<open>NewGate\<close> establishes, which items have a plan, and what the plan of
  an item is. The plan is compared with a closed form read off the rule.
\<close>

section \<open>Gates\<close>

text \<open>The invariant of a gate.\<close>

definition gate_ok :: "gate \<Rightarrow> bool" where
  "gate_ok g \<longleftrightarrow> valid_tenant (g_tenant g) \<and> list_all valid_tier (g_tiers g) \<and>
     distinct (g_tiers g) \<and> sorted (g_tiers g) \<and> set (g_claimable g) \<subseteq> set (g_tiers g) \<and>
     g_prefixes g = [content_prefix (g_tenant g), channel_prefix (g_tenant g)]"

lemma gate_tier_scan:
  "list_all no_error (scan gate_tier_checks [] ts) \<longleftrightarrow> distinct ts \<and> (\<forall>t \<in> set ts. valid_tier t)"
  by (rule scan_fresh) (auto simp: gate_tier_checks_def)

lemma new_gate_Inr:
  "new_gate r c = Inr g \<longleftrightarrow> valid_tenant (gc_tenant c) \<and> distinct (gc_tiers c) \<and>
     list_all valid_tier (gc_tiers c) \<and> set (gc_token_claims c) \<subseteq> set (gc_tiers c) \<and>
     g = \<lparr>g_ref = r, g_tenant = gc_tenant c, g_tiers = sort (gc_tiers c),
       g_claimable = gc_token_claims c,
       g_prefixes = [content_prefix (gc_tenant c), channel_prefix (gc_tenant c)],
       g_billing = gc_billing c\<rparr>"
proof -
  have tiers: "first_error (scan gate_tier_checks [] (gc_tiers c)) = None \<longleftrightarrow>
      distinct (gc_tiers c) \<and> list_all valid_tier (gc_tiers c)"
    unfolding first_error_None_all gate_tier_scan by (simp add: list_all_iff)
  have claims: "first_error (map (\<lambda>t. refuse_if (t \<notin> set (gc_tiers c)) (GateClaim t))
      (gc_token_claims c)) = None \<longleftrightarrow> set (gc_token_claims c) \<subseteq> set (gc_tiers c)"
    by (auto simp: first_error_None_iff)
  show ?thesis
    unfolding new_gate_def using tiers claims by (auto split: option.splits)
qed

lemma new_gate_ok: "new_gate r c = Inr g \<Longrightarrow> gate_ok g"
  by (auto simp: new_gate_Inr gate_ok_def list_all_iff)

lemma gate_okD:
  assumes "gate_ok g"
  shows "valid_tenant (g_tenant g)" and "t \<in> set (g_tiers g) \<Longrightarrow> valid_tier t"
    and "set (claimed g a) \<subseteq> set (g_tiers g)"
    and "g_prefixes g = [content_prefix (g_tenant g), channel_prefix (g_tenant g)]"
    and "distinct (g_tiers g)"
  using assms by (auto simp: gate_ok_def list_all_iff claimed_def)

section \<open>The keys of a rule\<close>

definition tier_of :: "string \<Rightarrow> key" where
  "tier_of t = zero_key\<lparr>k_kind := KeyTier, k_id := t\<rparr>"

definition channel_of :: "gate \<Rightarrow> string \<Rightarrow> key" where
  "channel_of g c = \<lparr>k_kind = KeyChannel, k_tenant = g_tenant g, k_id = c, k_version = []\<rparr>"

definition version_of :: "gate \<Rightarrow> item \<Rightarrow> key" where
  "version_of g it = \<lparr>k_kind = KeyVersion, k_tenant = g_tenant g, k_id = it_content it,
     k_version = it_version it\<rparr>"

lemmas key_of_defs = tier_of_def channel_of_def version_of_def

lemma key_of_simps [simp]:
  "k_kind (tier_of t) = KeyTier" "key_tier (tier_of t) = t" "k_id (tier_of t) = t"
  "k_kind (channel_of g c) = KeyChannel" "key_channel (channel_of g c) = c"
  "k_tenant (channel_of g c) = g_tenant g"
  "k_kind (version_of g it) = KeyVersion" "k_tenant (version_of g it) = g_tenant g"
  "k_version (version_of g it) = it_version it" "key_content (version_of g it) = it_content it"
  "key_string (tier_of t) = t"
  "key_string (channel_of g c) = channel_prefix (g_tenant g) @ c"
  "key_string (version_of g it) = content_prefix (g_tenant g) @ it_content it @ ''/'' @ it_version it"
  by (simp_all add: key_of_defs key_tier_def key_channel_def key_content_def key_string_def zero_key_def)

lemma key_of_constructors:
  "valid_tier t \<Longrightarrow> tier_key t = Inr (tier_of t)"
  "valid_tenant (g_tenant g) \<Longrightarrow> validate_id c = None \<Longrightarrow> channel_key (g_tenant g) c = Inr (channel_of g c)"
  "valid_tenant (g_tenant g) \<Longrightarrow> validate_id (it_content it) = None \<Longrightarrow> validate_id (it_version it) = None \<Longrightarrow>
   version_key (g_tenant g) (it_content it) (it_version it) = Inr (version_of g it)"
  by (simp_all add: tier_key_def channel_key_def version_key_def make_key_Inr key_of_defs)

text \<open>The keys that open a rule of the given level.\<close>

definition audience_keys :: "gate \<Rightarrow> string \<Rightarrow> string list \<Rightarrow> string \<Rightarrow> key list" where
  "audience_keys g level ts c =
     (if level = tier_level then map tier_of (filter (\<lambda>t. t \<in> set (g_tiers g)) ts)
      else if level = channel_level then [channel_of g c] else [])"

section \<open>Plans\<close>

definition valid_item :: "gate \<Rightarrow> item \<Rightarrow> bool" where
  "valid_item g it \<longleftrightarrow> validate_releases (g_tiers g) (it_rule it) = None \<and>
     validate_id (it_content it) = None \<and> validate_id (it_version it) = None \<and>
     r_level (it_rule it) \<in> {public_level, ppv_level, tier_level, channel_level, channel_ppv} \<and>
     (r_level (it_rule it) \<in> {channel_level, channel_ppv} \<longrightarrow> validate_id (r_channel (it_rule it)) = None)"

definition spec_plan :: "gate \<Rightarrow> item \<Rightarrow> item_plan" where
  "spec_plan g it = (let r = it_rule it in
     \<lparr>ip_invalid = False, ip_rule = r, ip_version = version_of g it,
      ip_channels = (if r_level r = channel_level then [channel_of g (r_channel r)] else []),
      ip_tiers = (if r_level r = tier_level then audience_keys g tier_level (r_tiers r) [] else []),
      ip_requires = (if r_level r = channel_ppv then Some (channel_of g (r_channel r)) else None),
      ip_releases = map (\<lambda>x. \<lparr>rp_at = rel_at x,
        rp_keys = audience_keys g (rel_level x) (rel_tiers x) (rel_channel x)\<rparr>) (r_releases r)\<rparr>)"

lemma fold_add_tier:
  assumes "gate_ok g"
  shows "fold_result (add_tier g) ts ks = Inr (ks @ map tier_of (filter (\<lambda>t. t \<in> set (g_tiers g)) ts))"
  by (induction ts arbitrary: ks)
     (simp_all add: add_tier_def lift_key_def key_of_constructors gate_okD [OF assms])

lemma fold_add_release_tier:
  assumes "gate_ok g" "set ts \<subseteq> set (g_tiers g)"
  shows "fold_result (add_release_tier g) ts ks = Inr (ks @ map tier_of ts)"
  using assms(2)
  by (induction ts arbitrary: ks)
     (simp_all add: add_release_tier_def lift_key_def key_of_constructors gate_okD [OF assms(1)])

lemma release_fields:
  assumes "validate_releases ts r = None" "x \<in> set (r_releases r)"
  shows "rel_level x \<in> {public_level, tier_level, channel_level}"
    and "rel_level x = tier_level \<Longrightarrow> set (rel_tiers x) \<subseteq> set ts"
    and "rel_level x = channel_level \<Longrightarrow> validate_id (rel_channel x) = None"
  using assms unfolding validate_releases_iff own_checks_ok level_checks_ok
  by (auto simp: release_rule_def)

lemma plan_release_valid:
  assumes "gate_ok g" "validate_releases (g_tiers g) r = None" "x \<in> set (r_releases r)"
  shows "plan_release g x rps = Inr (rps @ [\<lparr>rp_at = rel_at x,
     rp_keys = audience_keys g (rel_level x) (rel_tiers x) (rel_channel x)\<rparr>])"
proof -
  note f = release_fields [OF assms(2,3)]
  have "filter (\<lambda>t. t \<in> set (g_tiers g)) (rel_tiers x) = rel_tiers x" if "rel_level x = tier_level"
    using f(2) that by (simp add: filter_id_conv subset_iff)
  then show ?thesis
    using f(1) f(2) f(3)
    by (auto simp: plan_release_def audience_keys_def fold_add_release_tier [OF assms(1)]
        lift_key_def key_of_constructors gate_okD [OF assms(1)])
qed

lemma fold_plan_release:
  assumes "gate_ok g" "validate_releases (g_tiers g) r = None" "set xs \<subseteq> set (r_releases r)"
  shows "fold_result (plan_release g) xs rps = Inr (rps @ map (\<lambda>x. \<lparr>rp_at = rel_at x,
     rp_keys = audience_keys g (rel_level x) (rel_tiers x) (rel_channel x)\<rparr>) xs)"
  using assms(3)
  by (induction xs arbitrary: rps) (simp_all add: plan_release_valid [OF assms(1,2)])

lemma plan_one_valid:
  assumes g: "gate_ok g" and it: "valid_item g it"
  shows "plan_one g it = Inr (spec_plan g it)"
proof -
  have rel: "validate_releases (g_tiers g) (it_rule it) = None"
    and ids: "validate_id (it_content it) = None" "validate_id (it_version it) = None"
    and lvl: "r_level (it_rule it) \<in> {public_level, ppv_level, tier_level, channel_level, channel_ppv}"
    and ch: "r_level (it_rule it) \<in> {channel_level, channel_ppv} \<Longrightarrow>
      validate_id (r_channel (it_rule it)) = None"
    using it by (auto simp: valid_item_def)
  have v: "version_key (g_tenant g) (it_content it) (it_version it) = Inr (version_of g it)"
    by (simp add: key_of_constructors gate_okD [OF g] ids)
  show ?thesis
    using lvl ch rel
    by (auto simp: plan_one_def v plan_level_def blank_plan_def lift_key_def fold_add_tier [OF g]
        fold_plan_release [OF g rel] key_of_constructors gate_okD [OF g] spec_plan_def Let_def
        audience_keys_def)
qed

lemma plan_one_invalid:
  assumes "\<not> valid_item g it"
  shows "\<exists>e. plan_one g it = Inl e"
proof (rule ccontr)
  assume "\<not> ?thesis"
  then obtain p where "plan_one g it = Inr p" by (cases "plan_one g it") auto
  then have "valid_item g it"
    by (auto simp: plan_one_def plan_level_def valid_item_def lift_key_def version_key_def
        channel_key_def make_key_Inr bindr_Inr_iff split: option.splits if_splits sum.splits)
  with assms show False by simp
qed

lemma plan_items_spec:
  assumes "gate_ok g"
  shows "plan_items g its = map (\<lambda>it. if valid_item g it then spec_plan g it else invalid_plan) its"
proof -
  have "(case plan_one g it of Inl _ \<Rightarrow> invalid_plan | Inr p \<Rightarrow> p) =
      (if valid_item g it then spec_plan g it else invalid_plan)" for it
    using plan_one_valid [OF assms] plan_one_invalid [of g it] by (cases "valid_item g it") auto
  then show ?thesis by (simp add: plan_items_def)
qed

text \<open>A validated rule with valid ids always has a plan.\<close>

lemma validated_item:
  assumes "validate_rule (g_tiers g) (it_rule it) = None"
    and "validate_id (it_content it) = None" "validate_id (it_version it) = None"
  shows "valid_item g it"
proof -
  have "own_checks (g_tiers g) (it_rule it) = None" "validate_releases (g_tiers g) (it_rule it) = None"
    using assms(1) by (auto simp: validate_rule_def split: option.splits)
  then show ?thesis
    using assms(2,3) unfolding own_checks_ok level_checks_ok by (auto simp: valid_item_def)
qed

end
