(* ===== verification/Entitlement_Sound.thy ===== *)
theory Entitlement_Sound
  imports Entitlement_Plans
begin

text \<open>
  What the gate may rely on and what it knows. Billing is truthful for a set of owned key
  texts when every answer it gives agrees with the set; it may still fail, and it may
  truncate a keyspace and say so. From that, every filter the gate reads and every
  knowledge it decides from is true of what the viewer holds.
\<close>

section \<open>Truth\<close>

definition true_answer :: "string set \<Rightarrow> query \<Rightarrow> answer \<Rightarrow> bool" where
  "true_answer owned q ans \<longleftrightarrow>
     (\<forall>k \<in> set (q_keys q). answer_key ans k \<longleftrightarrow> k \<in> owned) \<and>
     (\<forall>p \<in> set (q_prefixes q). \<forall>h. an_held ans p = Some h \<longrightarrow>
        set (hk_keys h) \<subseteq> owned \<and>
        (\<not> hk_truncated h \<longrightarrow> {s \<in> owned. has_prefix p s} \<subseteq> set (hk_keys h)))"

definition truthful :: "gate \<Rightarrow> string \<Rightarrow> string set \<Rightarrow> bool" where
  "truthful g subject owned = (case g_billing g of
     None \<Rightarrow> owned = {}
   | Some held \<Rightarrow> \<forall>q ans. held subject q = Inr ans \<longrightarrow> true_answer owned q ans)"

text \<open>The keys a plan can ask for: of this gate's tenant, or of a configured tier.\<close>

definition gate_key :: "gate \<Rightarrow> key \<Rightarrow> bool" where
  "gate_key g k \<longleftrightarrow> valid_key k \<and>
     (if k_kind k = KeyTier then key_tier k \<in> set (g_tiers g) else k_tenant k = g_tenant g)"

text \<open>A viewer holds what billing says the subject owns, and the tiers its token claims.\<close>

definition holds_key :: "gate \<Rightarrow> actor \<Rightarrow> string set \<Rightarrow> key \<Rightarrow> bool" where
  "holds_key g a owned k \<longleftrightarrow> \<not> anonymous_viewer a \<and>
     (key_string k \<in> owned \<or> k_kind k = KeyTier \<and> key_tier k \<in> set (claimed g a))"

definition filter_true :: "gate \<Rightarrow> actor \<Rightarrow> string set \<Rightarrow> access_filter \<Rightarrow> bool" where
  "filter_true g a owned f \<longleftrightarrow>
     (\<forall>k. gate_key g k \<longrightarrow> snd (filter_lookup f k) \<longrightarrow>
        fst (filter_lookup f k) = holds_key g a owned k)"

definition knows_true :: "gate \<Rightarrow> actor \<Rightarrow> string set \<Rightarrow> knowledge \<Rightarrow> bool" where
  "knows_true g a owned kn \<longleftrightarrow>
     (\<forall>k. gate_key g k \<longrightarrow> snd (kn_lookup kn k) \<longrightarrow> fst (kn_lookup kn k) = holds_key g a owned k)"

definition memo_true :: "gate \<Rightarrow> actor \<Rightarrow> string set \<Rightarrow> memo \<Rightarrow> bool" where
  "memo_true g a owned m \<longleftrightarrow>
     (\<forall>e. memo_for m (g_ref g, account_subject a) = Some e \<longrightarrow>
        (\<forall>f. me_filter e = Some f \<longrightarrow> filter_true g a owned f) \<and>
        entry_keys.coherent (\<lambda>s. s \<in> owned) e)"

lemma no_memo_true [simp]: "memo_true g a owned None" "memo_true g a owned (Some Map.empty)"
  by (simp_all add: memo_true_def memo_for_def empty_entry_def entry_keys.coherent_def)

section \<open>Loading an answer\<close>

lemma filter_held_known: "fst (filter_lookup f k) \<Longrightarrow> snd (filter_lookup f k)"
  by (cases "k_kind k")
     (auto simp: filter_lookup_def Let_def split: if_splits option.splits)

lemma kn_held_known: "fst (kn_lookup kn k) \<Longrightarrow> snd (kn_lookup kn k)"
  by (auto simp: kn_lookup_def Let_def split: if_splits option.splits prod.splits)

text \<open>What loading leaves alone.\<close>

definition same_frame :: "access_filter \<Rightarrow> access_filter \<Rightarrow> bool" where
  "same_frame f f' \<longleftrightarrow> fl_gate f' = fl_gate f \<and> fl_anonymous f' = fl_anonymous f \<and>
     fl_unknown f' = fl_unknown f \<and> fl_tiers f' = fl_tiers f"

abbreviation space_key :: "gate \<Rightarrow> key \<Rightarrow> bool" where
  "space_key g k \<equiv> valid_key k \<and> k_kind k \<noteq> KeyTier \<and> k_tenant k = g_tenant g"

definition held_in :: "access_filter \<Rightarrow> key \<Rightarrow> bool" where
  "held_in f k = (case k_kind k of
     KeyContent \<Rightarrow> key_content k \<in> set (fl_contents f)
   | KeyVersion \<Rightarrow> map_of (fl_versions f) (k_version k) = Some (key_content k)
   | KeyChannel \<Rightarrow> key_channel k \<in> set (fl_entities f)
   | _ \<Rightarrow> False)"

lemma load_held_step:
  assumes "load_held p s f = Inr f'"
  shows "same_frame f f' \<and> fl_contents_complete f' = fl_contents_complete f \<and>
    fl_entities_complete f' = fl_entities_complete f"
  using assms
  by (auto simp: load_held_def same_frame_def split: sum.splits if_splits key_kind.splits option.splits)

lemma valid_key_cases:
  assumes "valid_key k" "valid_key k'" "k_kind k = k_kind k'" "k_tenant k = k_tenant k'"
    "key_content k = key_content k'" "key_channel k = key_channel k'" "k_version k = k_version k'"
    "k_kind k \<noteq> KeyTier"
  shows "k = k'"
  using assms
  by (cases k; cases k'; cases "k_kind k")
     (auto simp: valid_key_def key_content_def key_channel_def)

lemma load_held_held:
  assumes load: "load_held p s f = Inr f'" and k: "space_key (fl_gate f) k"
  shows "held_in f' k \<longleftrightarrow> held_in f k \<or> key_string k = s \<and> has_prefix p s"
proof (cases "parse_key s")
  case (Inl e)
  moreover have "key_string k \<noteq> s" using Inl k by (metis parse_key_string sum.distinct(1))
  ultimately show ?thesis using load by (simp add: load_held_def)
next
  case (Inr j)
  then have j: "valid_key j" "key_string j = s" by (auto dest: parse_key_canonical)
  have eq: "key_string k = s \<longleftrightarrow> k = j"
    using Inr k by (metis j(2) parse_key_string sum.inject(2))
  show ?thesis
  proof (cases "has_prefix p s \<and> k_tenant j = g_tenant (fl_gate f)")
    case False
    then have "f' = f" using load Inr by (auto simp: load_held_def)
    then show ?thesis using False eq k by auto
  next
    case True
    then have same: "k = j \<longleftrightarrow> k_kind k = k_kind j \<and> key_content k = key_content j \<and>
        key_channel k = key_channel j \<and> k_version k = k_version j"
      using valid_key_cases [of k j] k j(1) by metis
    have acc: "k_kind k = KeyContent \<Longrightarrow> key_channel k = [] \<and> k_version k = []"
      "k_kind k = KeyVersion \<Longrightarrow> key_channel k = []"
      "k_kind k = KeyChannel \<Longrightarrow> key_content k = [] \<and> k_version k = []"
      "k_kind j = KeyContent \<Longrightarrow> key_channel j = [] \<and> k_version j = []"
      "k_kind j = KeyVersion \<Longrightarrow> key_channel j = []"
      "k_kind j = KeyChannel \<Longrightarrow> key_content j = [] \<and> k_version j = []"
      using k j(1) by (auto simp: key_channel_def key_content_def valid_key_def)
    have nt: "k_kind k \<noteq> KeyTier" "k_kind k \<noteq> KeyZero" using k by (auto simp: valid_key_def)
    show ?thesis
      unfolding eq same using load Inr True nt acc
      by (cases "k_kind j"; cases "k_kind k")
         (auto simp: load_held_def held_in_def update_conv' split: option.splits if_splits)
  qed
qed

lemma load_held_fold:
  assumes "fold_result (load_held p) ss f = Inr f'"
  shows "same_frame f f' \<and> fl_contents_complete f' = fl_contents_complete f \<and>
    fl_entities_complete f' = fl_entities_complete f \<and>
    (\<forall>k. space_key (fl_gate f) k \<longrightarrow>
      (held_in f' k \<longleftrightarrow> held_in f k \<or> key_string k \<in> set ss \<and> has_prefix p (key_string k)))"
  using assms
proof (induction ss arbitrary: f)
  case Nil
  then show ?case by (simp add: same_frame_def)
next
  case (Cons s ss)
  then obtain f1 where f1: "load_held p s f = Inr f1" "fold_result (load_held p) ss f1 = Inr f'"
    by (auto simp: bindr_Inr_iff)
  note step = load_held_step [OF f1(1)]
  note IH = Cons.IH [OF f1(2)]
  have gate: "fl_gate f1 = fl_gate f" using step by (simp add: same_frame_def)
  show ?case
    using step IH load_held_held [OF f1(1)]
    by (auto simp: same_frame_def gate)
qed

lemma space_key_prefix:
  assumes "space_key g k"
  shows "has_prefix (content_prefix (g_tenant g)) (key_string k) \<longleftrightarrow> k_kind k = KeyContent \<or> k_kind k = KeyVersion"
    and "has_prefix (channel_prefix (g_tenant g)) (key_string k) \<longleftrightarrow> k_kind k = KeyChannel"
proof -
  have t: "valid_tenant (k_tenant k)" "k_kind k \<noteq> KeyZero" "k_kind k \<noteq> KeyTier"
    using assms by (auto simp: valid_key_def split: key_kind.splits)
  have no: "\<not> has_prefix (channel_prefix t) (content_prefix t @ x)"
    "\<not> has_prefix (content_prefix t) (channel_prefix t @ x)" for t x
    by (auto simp: has_prefix_iff channel_prefix_def content_prefix_def content_namespace_def
        channel_namespace_def)
  show "has_prefix (content_prefix (g_tenant g)) (key_string k) \<longleftrightarrow> k_kind k = KeyContent \<or> k_kind k = KeyVersion"
    using assms t no(2) by (cases "k_kind k") (auto simp: key_string_def)
  show "has_prefix (channel_prefix (g_tenant g)) (key_string k) \<longleftrightarrow> k_kind k = KeyChannel"
    using assms t no(1) by (cases "k_kind k") (auto simp: key_string_def)
qed

lemma prefixes_differ [simp]: "channel_prefix t \<noteq> content_prefix t"
  by (simp add: channel_prefix_def content_prefix_def content_namespace_def channel_namespace_def)

lemma tiers_fold:
  "fold (\<lambda>k f. f\<lparr>fl_tiers := AList.update k (v k) (fl_tiers f)\<rparr>) ks f =
     f\<lparr>fl_tiers := fold (\<lambda>k. AList.update k (v k)) ks (fl_tiers f)\<rparr>"
  by (induction ks arbitrary: f) simp_all

lemma tiers_fold_map:
  "map_of (fold (\<lambda>k. AList.update k (v k)) ks al) t = (if t \<in> set ks then Some (v t) else map_of al t)"
  by (induction ks arbitrary: al) (auto simp: update_conv')

text \<open>
  After loading the two keyspaces a filter holds exactly the answered keys, and what it
  does not hold in a complete keyspace is not owned.
\<close>

lemma load_filter_true:
  assumes g: "gate_ok g" and na: "\<not> anonymous_viewer a"
    and ans: "true_answer owned (read_query g (claimed g a)) ans"
    and load: "load_filter ans (read_query g (claimed g a))
      ((empty_filter g)\<lparr>fl_tiers := map (\<lambda>t. (t, True)) (filter (\<lambda>t. t \<in> set (claimed g a)) (g_tiers g))\<rparr>) = Inr f"
  shows "filter_true g a owned f"
proof -
  let ?q = "read_query g (claimed g a)"
  let ?cp = "content_prefix (g_tenant g)" and ?hp = "channel_prefix (g_tenant g)"
  let ?ts = "fold (\<lambda>k. AList.update k (answer_key ans k)) (q_keys ?q)
     (map (\<lambda>t. (t, True)) (filter (\<lambda>t. t \<in> set (claimed g a)) (g_tiers g)))"
  let ?f0 = "(empty_filter g)\<lparr>fl_tiers := ?ts\<rparr>"
  have "fold_result (load_prefix ans) [?cp, ?hp] ?f0 = Inr f"
    using load by (simp add: load_filter_def tiers_fold read_query_def gate_okD [OF g])
  then obtain f1 where f1: "load_prefix ans ?cp ?f0 = Inr f1" and f2: "load_prefix ans ?hp f1 = Inr f"
    by (auto simp: bindr_Inr_iff)
  from f1 obtain h1 f1' where h1: "an_held ans ?cp = Some h1"
    and l1: "fold_result (load_held ?cp) (hk_keys h1) ?f0 = Inr f1'"
    and e1: "f1 = (if ?cp = content_prefix (g_tenant (fl_gate f1')) then f1'\<lparr>fl_contents_complete := \<not> hk_truncated h1\<rparr>
       else f1'\<lparr>fl_entities_complete := \<not> hk_truncated h1\<rparr>)"
    by (auto simp: load_prefix_def bindr_Inr_iff split: option.splits)
  from f2 obtain h2 f2' where h2: "an_held ans ?hp = Some h2"
    and l2: "fold_result (load_held ?hp) (hk_keys h2) f1 = Inr f2'"
    and e2: "f = (if ?hp = content_prefix (g_tenant (fl_gate f2')) then f2'\<lparr>fl_contents_complete := \<not> hk_truncated h2\<rparr>
       else f2'\<lparr>fl_entities_complete := \<not> hk_truncated h2\<rparr>)"
    by (auto simp: load_prefix_def bindr_Inr_iff split: option.splits)
  note L1 = load_held_fold [OF l1] and L2 = load_held_fold [OF l2]
  have gate1: "fl_gate f1' = g" using L1 by (simp add: same_frame_def empty_filter_def)
  then have e1': "f1 = f1'\<lparr>fl_contents_complete := \<not> hk_truncated h1\<rparr>" using e1 by simp
  have gate2: "fl_gate f2' = g" using L2 e1' gate1 by (simp add: same_frame_def)
  then have e2': "f = f2'\<lparr>fl_entities_complete := \<not> hk_truncated h2\<rparr>" using e2 by simp
  have frame: "fl_gate f = g" "\<not> fl_anonymous f" "\<not> fl_unknown f" "fl_tiers f = ?ts"
    "fl_contents_complete f = (\<not> hk_truncated h1)" "fl_entities_complete f = (\<not> hk_truncated h2)"
    using L1 L2 by (simp_all add: e1' e2' same_frame_def empty_filter_def)
  have held: "held_in f k \<longleftrightarrow>
      (key_string k \<in> set (hk_keys h1) \<and> has_prefix ?cp (key_string k)) \<or>
      (key_string k \<in> set (hk_keys h2) \<and> has_prefix ?hp (key_string k))" if "space_key g k" for k
  proof -
    have cong: "held_in f1 k = held_in f1' k" "held_in f k = held_in f2' k" "\<not> held_in ?f0 k"
      by (auto simp: e1' e2' held_in_def empty_filter_def split: key_kind.splits)
    have "held_in f1' k \<longleftrightarrow> key_string k \<in> set (hk_keys h1) \<and> has_prefix ?cp (key_string k)"
      using L1 that cong(3) by (auto simp: empty_filter_def)
    moreover have "held_in f2' k \<longleftrightarrow> held_in f1 k \<or> key_string k \<in> set (hk_keys h2) \<and> has_prefix ?hp (key_string k)"
      using L2 that gate1 by (simp add: e1')
    ultimately show ?thesis using cong by simp
  qed
  have q: "q_keys ?q = filter (\<lambda>t. t \<notin> set (claimed g a)) (g_tiers g)" "q_prefixes ?q = [?cp, ?hp]"
    by (simp_all add: read_query_def gate_okD [OF g])
  have owned_keys: "t \<in> set (g_tiers g) \<Longrightarrow> t \<notin> set (claimed g a) \<Longrightarrow> answer_key ans t \<longleftrightarrow> t \<in> owned" for t
    using ans by (auto simp: true_answer_def q)
  have sub: "set (hk_keys h1) \<subseteq> owned" "set (hk_keys h2) \<subseteq> owned"
    and compl: "\<not> hk_truncated h1 \<Longrightarrow> s \<in> owned \<Longrightarrow> has_prefix ?cp s \<Longrightarrow> s \<in> set (hk_keys h1)"
      "\<not> hk_truncated h2 \<Longrightarrow> s \<in> owned \<Longrightarrow> has_prefix ?hp s \<Longrightarrow> s \<in> set (hk_keys h2)" for s
    using ans h1 h2 by (auto simp: true_answer_def q)
  show ?thesis
    unfolding filter_true_def
  proof (intro allI impI)
    fix k assume k: "gate_key g k" and known: "snd (filter_lookup f k)"
    show "fst (filter_lookup f k) = holds_key g a owned k"
    proof (cases "k_kind k = KeyTier")
      case True
      then have t: "key_tier k \<in> set (g_tiers g)" "key_string k = key_tier k"
        using k by (auto simp: gate_key_def key_string_def key_tier_def)
      have "map_of ?ts (key_tier k) = Some (key_tier k \<in> set (claimed g a) \<or> key_tier k \<in> owned)"
        unfolding tiers_fold_map using t owned_keys
        by (auto simp: q map_of_eq_Some_iff comp_def gate_okD [OF g])
      then show ?thesis
        using True t na by (auto simp: filter_lookup_def frame holds_key_def)
    next
      case False
      then have sk: "space_key g k" using k by (auto simp: gate_key_def)
      have lk: "fst (filter_lookup f k) = held_in f k"
        using False sk by (auto simp: filter_lookup_def frame held_in_def Let_def split: key_kind.splits)
      have "held_in f k \<or> (k_kind k = KeyContent \<or> k_kind k = KeyVersion) \<and> \<not> hk_truncated h1
          \<or> k_kind k = KeyChannel \<and> \<not> hk_truncated h2"
        using known sk
        by (auto simp: filter_lookup_def frame held_in_def Let_def valid_key_def split: key_kind.splits)
      then have "held_in f k = (key_string k \<in> owned)"
        using sub compl unfolding held [OF sk] space_key_prefix [OF sk, symmetric] by blast
      then show ?thesis using False na lk by (simp add: holds_key_def)
    qed
  qed
qed

end
