(* ===== verification/Entitlement_Props.thy ===== *)
theory Entitlement_Props
  imports Entitlement_Sound
begin

text \<open>
  The properties of the access gate: what \<open>Decide\<close>, \<open>Holds\<close>, \<open>Filter\<close> and \<open>Settle\<close> answer
  for truthful billing, what they answer when billing fails, and how many reads they cost.
\<close>

section \<open>Filters are true\<close>

lemma read_filter_true:
  assumes g: "gate_ok g" and na: "\<not> anonymous_viewer a" and b: "truthful g (account_subject a) owned"
  shows "filter_true g a owned (fst (read_filter g a))"
proof (cases "g_billing g")
  case None
  let ?cl = "claimed g a" and ?ts = "g_tiers g"
  let ?al = "fold (\<lambda>k. AList.update k False) (filter (\<lambda>t. t \<notin> set ?cl) ?ts)
     (map (\<lambda>t. (t, True)) (filter (\<lambda>t. t \<in> set ?cl) ?ts))"
  have f: "fst (read_filter g a) = (empty_filter g)\<lparr>fl_tiers := ?al\<rparr>"
    using None by (simp add: read_filter_def Let_def tiers_fold read_query_def)
  have t: "map_of ?al t = Some (t \<in> set ?cl)" if "t \<in> set ?ts" for t
    unfolding tiers_fold_map using that by (auto simp: map_of_eq_Some_iff comp_def gate_okD [OF g])
  have "owned = {}" using b None by (simp add: truthful_def)
  then show ?thesis
    using na t unfolding f filter_true_def
    by (auto simp: filter_lookup_def empty_filter_def holds_key_def gate_key_def valid_key_def Let_def
        split: key_kind.splits)
next
  case (Some held)
  let ?q = "read_query g (claimed g a)"
  let ?f0 = "(empty_filter g)\<lparr>fl_tiers := map (\<lambda>t. (t, True)) (filter (\<lambda>t. t \<in> set (claimed g a)) (g_tiers g))\<rparr>"
  show ?thesis
  proof (cases "bindr (held (account_subject a) ?q) (\<lambda>ans. load_filter ans ?q ?f0)")
    case (Inl e)
    then have f: "fst (read_filter g a) = failed_filter g (claimed g a) e"
      using Some by (simp add: read_filter_def Let_def)
    show ?thesis
      using na unfolding f filter_true_def
      by (auto simp: filter_lookup_def failed_filter_def empty_filter_def holds_key_def gate_key_def
          valid_key_def Let_def map_of_eq_Some_iff comp_def claimed_def map_of_eq_None_iff
          split: key_kind.splits option.splits dest: map_of_SomeD)
  next
    case (Inr f)
    then obtain ans where "held (account_subject a) ?q = Inr ans" "load_filter ans ?q ?f0 = Inr f"
      by (auto simp: bindr_Inr_iff)
    moreover then have "true_answer owned ?q ans" using b Some by (simp add: truthful_def)
    ultimately show ?thesis
      using load_filter_true [OF g na] Inr Some by (simp add: read_filter_def Let_def)
  qed
qed

lemma memo_update_None [simp]: "memo_update s upd None = None"
  by (simp add: memo_update_def)

lemma memo_for_update:
  "memo_for (memo_update s upd m) s' =
     (if s' = s then map_option upd (memo_for m s) else memo_for m s')"
  by (cases m) (auto simp: memo_update_def memo_for_def)

lemma gate_filter_true:
  assumes g: "gate_ok g" and b: "truthful g (account_subject a) owned"
    and m: "memo_true g a owned m" and r: "gate_filter g a m = (f, err, qs, m')"
  shows "filter_true g a owned f \<and> memo_true g a owned m'"
proof (cases "anonymous_viewer a")
  case True
  then have "f = anon_filter g" "m' = m" using r by (simp_all add: gate_filter_def)
  then show ?thesis
    using True m by (auto simp: filter_true_def filter_lookup_def anon_filter_def holds_key_def)
next
  case False
  let ?s = "(g_ref g, account_subject a)"
  show ?thesis
  proof (cases "memo_load_filter (memo_for m ?s)")
    case (Some f0)
    then have "f0 = f" "m' = m" using False r by (simp_all add: gate_filter_def Let_def)
    then show ?thesis using Some m by (auto simp: memo_load_filter_def bind_eq_Some_conv memo_true_def)
  next
    case None
    then have f: "f = fst (read_filter g a)" "m' = memo_update ?s (entry_store_filter f) m"
      using False r by (auto simp: gate_filter_def Let_def split: prod.splits)
    have ft: "filter_true g a owned f"
      unfolding f by (rule read_filter_true [OF g False b])
    moreover have "memo_true g a owned m'"
      using m ft unfolding f(2) memo_true_def
      by (auto simp: memo_for_update entry_store_filter_def entry_keys.coherent_def)
    ultimately show ?thesis by simp
  qed
qed

section \<open>Knowledge is true\<close>

text \<open>Knowledge is grounded when each of its sources is true.\<close>

definition grounded :: "gate \<Rightarrow> actor \<Rightarrow> string set \<Rightarrow> knowledge \<Rightarrow> bool" where
  "grounded g a owned kn \<longleftrightarrow> (kn_anonymous kn \<longleftrightarrow> anonymous_viewer a) \<and>
     (\<not> kn_anonymous kn \<longrightarrow> kn_claimed kn = claimed g a \<and>
       (\<forall>f. kn_filter kn = Some f \<longrightarrow> filter_true g a owned f) \<and>
       (\<forall>s v. kn_read kn s = Some v \<longrightarrow> v = (s \<in> owned)) \<and>
       (\<forall>s v. memo_key (kn_memo kn) s = Some v \<longrightarrow> v = (s \<in> owned)))"

lemma grounded_true:
  assumes "grounded g a owned kn"
  shows "knows_true g a owned kn"
  unfolding knows_true_def
proof (intro allI impI)
  fix k assume k: "gate_key g k" "snd (kn_lookup kn k)"
  show "fst (kn_lookup kn k) = holds_key g a owned k"
  proof (cases "kn_anonymous kn")
    case True
    then show ?thesis using assms by (simp add: kn_lookup_def holds_key_def grounded_def)
  next
    case na: False
    then have src: "kn_claimed kn = claimed g a" "\<not> anonymous_viewer a"
      "\<And>f. kn_filter kn = Some f \<Longrightarrow> filter_true g a owned f"
      "\<And>s v. kn_read kn s = Some v \<Longrightarrow> v = (s \<in> owned)"
      "\<And>s v. memo_key (kn_memo kn) s = Some v \<Longrightarrow> v = (s \<in> owned)"
      using assms by (simp_all add: grounded_def)
    show ?thesis
    proof (cases "k_kind k = KeyTier \<and> key_tier k \<in> set (claimed g a)")
      case True
      then show ?thesis using na src by (simp add: kn_lookup_def holds_key_def)
    next
      case nc: False
      then have hold: "holds_key g a owned k \<longleftrightarrow> key_string k \<in> owned"
        using src by (auto simp: holds_key_def)
      show ?thesis
      proof (cases "kn_filter kn")
        case None
        then show ?thesis using na nc k(2) src(1,4,5)
          by (auto simp: kn_lookup_def hold split: option.splits)
      next
        case (Some f)
        then show ?thesis using na nc k src(1,4,5) src(3) [OF Some]
          by (auto simp: kn_lookup_def hold filter_true_def Let_def
              split: option.splits if_splits prod.splits)
      qed
    qed
  qed
qed

lemma actor_knowledge_grounded:
  assumes m: "memo_true g a owned m"
    and f: "\<And>f0. f = Some f0 \<Longrightarrow> filter_true g a owned f0"
  shows "grounded g a owned (actor_knowledge g a f m)"
proof -
  let ?e = "memo_for m (g_ref g, account_subject a)"
  have mk: "v = (s \<in> owned)" if "memo_key ?e s = Some v" for s v
    using m that by (auto simp: memo_key_def bind_eq_Some_conv memo_true_def dest: entry_keys.coherentD)
  have ft: "filter_true g a owned f0" if "(case f of Some _ \<Rightarrow> f | None \<Rightarrow> memo_load_filter ?e) = Some f0" for f0
    using that f m by (cases f) (auto simp: memo_load_filter_def bind_eq_Some_conv memo_true_def)
  show ?thesis
    using mk ft by (simp add: grounded_def actor_knowledge_def Let_def)
qed

lemma filter_knowledge_true:
  "filter_true g a owned f \<Longrightarrow> knows_true g a owned (filter_knowledge f)"
  by (auto simp: knows_true_def filter_knowledge_def kn_lookup_def filter_true_def memo_key_def
      split: option.splits if_splits prod.splits)

lemma filter_knowledge_lookup: "kn_lookup (filter_knowledge f) k =
   (if snd (filter_lookup f k) then filter_lookup f k else (False, False))"
  by (auto simp: filter_knowledge_def kn_lookup_def memo_key_def split: prod.splits)

section \<open>Exact reads\<close>

lemma billing_keys_true:
  assumes "truthful g subject owned" "billing_keys g subject ks = (Inr ans, qs)" "k \<in> set ks"
  shows "answer_key ans k \<longleftrightarrow> k \<in> owned"
proof (cases "g_billing g")
  case None
  then show ?thesis using assms by (auto simp: billing_keys_def truthful_def answer_key_def)
next
  case (Some held)
  then have "held subject \<lparr>q_keys = ks, q_prefixes = [], q_limit = 0\<rparr> = Inr ans"
    using assms(2) by (simp add: billing_keys_def Let_def)
  then have "true_answer owned \<lparr>q_keys = ks, q_prefixes = [], q_limit = 0\<rparr> ans"
    using assms(1) Some by (simp add: truthful_def)
  then show ?thesis using assms(3) by (simp add: true_answer_def)
qed

lemma billing_keys_cost: "billing_keys g subject ks = (r, qs) \<Longrightarrow> length qs \<le> 1"
  by (auto simp: billing_keys_def Let_def split: option.splits)

lemma entry_store_keys_simps [simp]:
  "me_filter (entry_store_keys kvs e) = me_filter e"
  "me_keys (entry_store_keys (map (\<lambda>k. (k, v k)) ks) e) s = (if s \<in> set ks then Some (v s) else me_keys e s)"
proof -
  show "me_filter (entry_store_keys kvs e) = me_filter e"
    by (induction kvs arbitrary: e) (auto simp: entry_store_keys_def entry_store_key_def)
  show "me_keys (entry_store_keys (map (\<lambda>k. (k, v k)) ks) e) s = (if s \<in> set ks then Some (v s) else me_keys e s)"
    by (induction ks arbitrary: e) (auto simp: entry_store_keys_def entry_store_key_def)
qed

lemma map_of_keyed: "map_of (map (\<lambda>k. (k, v k)) ks) s = (if s \<in> set ks then Some (v s) else None)"
  by (induction ks) auto

lemma memo_true_store:
  assumes "memo_true g a owned m" "\<And>k. k \<in> set ks \<Longrightarrow> v k \<longleftrightarrow> k \<in> owned"
  shows "memo_true g a owned (memo_update (g_ref g, account_subject a) (entry_store_keys (map (\<lambda>k. (k, v k)) ks)) m)"
  using assms by (auto simp: memo_true_def memo_for_update entry_keys.coherent_def split: if_splits)

text \<open>The knowledge after an exact read.\<close>

definition read_more :: "knowledge \<Rightarrow> memo_entry option \<Rightarrow> (string \<times> bool) list \<Rightarrow> knowledge" where
  "read_more kn e read = kn\<lparr>kn_read := map_of read, kn_memo := map_option (entry_store_keys read) e\<rparr>"

lemma read_more_grounded:
  assumes "grounded g a owned kn" "kn_memo kn = e" "\<And>k. k \<in> set ks \<Longrightarrow> v k \<longleftrightarrow> k \<in> owned"
  shows "grounded g a owned (read_more kn e (map (\<lambda>k. (k, v k)) ks))"
  using assms
  by (cases e) (auto simp: grounded_def read_more_def map_of_keyed memo_key_def split: if_splits)

lemma read_more_known:
  assumes "kn_memo kn = e" "kn_read kn = Map.empty"
    and "snd (kn_lookup kn k) \<or> key_string k \<in> set ks"
  shows "snd (kn_lookup (read_more kn e (map (\<lambda>k. (k, v k)) ks)) k)"
  using assms
  by (cases e; cases "kn_filter kn")
     (auto simp: kn_lookup_def read_more_def map_of_keyed memo_key_def split: option.splits if_splits prod.splits)

section \<open>Verdicts\<close>

lemma ask_keys_opened: "fst (ask_keys kn ks u) \<longleftrightarrow> (\<exists>k \<in> set ks. fst (kn_lookup kn k))"
  by (induction ks arbitrary: u) (auto simp: Let_def split: prod.splits)

lemma ask_keys_unknown:
  "\<not> fst (ask_keys kn ks u) \<Longrightarrow> snd (ask_keys kn ks u) = u @ filter (\<lambda>k. \<not> snd (kn_lookup kn k)) ks"
  by (induction ks arbitrary: u) (auto simp: Let_def split: prod.splits if_splits)

text \<open>An item opens, as far as \<open>kn\<close> knows.\<close>

definition opens_by :: "knowledge \<Rightarrow> item_plan \<Rightarrow> time \<Rightarrow> bool" where
  "opens_by kn p now \<longleftrightarrow> \<not> ip_invalid p \<and>
     (rule_free (ip_rule p) now \<or> (\<exists>k \<in> set (plan_opens p now). fst (kn_lookup kn k)))"

lemma offer_simps [simp]: "\<not> dc_allowed (offer p h)" "\<not> dc_unknown (offer p h)"
  "\<not> dc_allowed denied" "\<not> dc_unknown denied"
  by (simp_all add: offer_def denied_def)

lemma verdict_allowed: "dc_allowed (fst (verdict p kn now pw)) \<longleftrightarrow> opens_by kn p now"
  using ask_keys_opened [of kn "plan_opens p now" "[]"]
  by (auto simp: verdict_def opens_by_def Let_def split: prod.splits option.splits)

lemma verdict_unknown: "dc_unknown (fst (verdict p kn now pw)) \<longleftrightarrow> snd (verdict p kn now pw) \<noteq> []"
  by (auto simp: verdict_def Let_def denied_def offer_def split: prod.splits option.splits)

text \<open>The keys a verdict waits for.\<close>

lemma verdict_waits:
  "snd (verdict p kn now pw) =
     (if ip_invalid p \<or> opens_by kn p now then []
      else let u = filter (\<lambda>k. \<not> snd (kn_lookup kn k)) (plan_opens p now) in
        if u \<noteq> [] then u
        else case ip_requires p of
          Some k \<Rightarrow> if pw \<and> \<not> snd (kn_lookup kn k) then [k] else []
        | None \<Rightarrow> [])"
proof -
  obtain o' u where a: "ask_keys kn (plan_opens p now) [] = (o', u)" by fastforce
  then have o': "o' \<longleftrightarrow> (\<exists>k \<in> set (plan_opens p now). fst (kn_lookup kn k))"
    using ask_keys_opened [of kn "plan_opens p now" "[]"] by simp
  have u: "\<not> o' \<Longrightarrow> u = filter (\<lambda>k. \<not> snd (kn_lookup kn k)) (plan_opens p now)"
    using ask_keys_unknown [of kn "plan_opens p now" "[]"] a by simp
  show ?thesis
    using o' u
    by (cases o') (auto simp: verdict_def a Let_def opens_by_def split: option.splits prod.splits)
qed

section \<open>The specification\<close>

text \<open>
  What the rule of an item promises a viewer who holds the key texts \<open>owned\<close> and the tiers
  its token claims.
\<close>

definition admitted :: "gate \<Rightarrow> actor \<Rightarrow> string set \<Rightarrow> string \<Rightarrow> string list \<Rightarrow> string \<Rightarrow> bool" where
  "admitted g a owned level ts c \<longleftrightarrow>
     level = tier_level \<and> (\<exists>t \<in> set ts \<inter> set (g_tiers g). t \<in> owned \<or> t \<in> set (claimed g a)) \<or>
     level = channel_level \<and> channel_prefix (g_tenant g) @ c \<in> owned"

definition may_open :: "gate \<Rightarrow> actor \<Rightarrow> string set \<Rightarrow> item \<Rightarrow> time \<Rightarrow> bool" where
  "may_open g a owned it now \<longleftrightarrow> valid_item g it \<and> (let r = it_rule it in
     rule_free r now \<or>
     \<not> anonymous_viewer a \<and>
       (content_prefix (g_tenant g) @ it_content it @ ''/'' @ it_version it \<in> owned \<or>
        admitted g a owned (r_level r) (r_tiers r) (r_channel r) \<or>
        (\<exists>x \<in> set (r_releases r). rel_at x \<le> now \<and>
           admitted g a owned (rel_level x) (rel_tiers x) (rel_channel x))))"

lemma audience_admitted:
  "\<not> anonymous_viewer a \<Longrightarrow>
   (\<exists>k \<in> set (audience_keys g level ts c). holds_key g a owned k) \<longleftrightarrow> admitted g a owned level ts c"
  by (auto simp: audience_keys_def admitted_def holds_key_def)

lemma spec_plan_opens:
  "set (plan_opens (spec_plan g it) now) =
     insert (version_of g it)
       (set (audience_keys g (r_level (it_rule it)) (r_tiers (it_rule it)) (r_channel (it_rule it))) \<union>
        (\<Union>x \<in> {x \<in> set (r_releases (it_rule it)). rel_at x \<le> now}.
           set (audience_keys g (rel_level x) (rel_tiers x) (rel_channel x))))"
proof -
  let ?r = "it_rule it" and ?p = "spec_plan g it"
  have base: "set (ip_tiers ?p @ ip_channels ?p) = set (audience_keys g (r_level ?r) (r_tiers ?r) (r_channel ?r))"
    by (simp add: spec_plan_def Let_def audience_keys_def)
  have rel: "set (concat (map (\<lambda>x. if \<not> now < rp_at x then rp_keys x else []) (ip_releases ?p))) =
      (\<Union>x \<in> {x \<in> set (r_releases ?r). rel_at x \<le> now}.
         set (audience_keys g (rel_level x) (rel_tiers x) (rel_channel x)))"
    by (auto simp: spec_plan_def Let_def not_less split: if_splits)
  have "ip_version ?p = version_of g it" by (simp add: spec_plan_def Let_def)
  then have "set (plan_opens ?p now) = insert (version_of g it) (set (ip_tiers ?p @ ip_channels ?p) \<union>
      set (concat (map (\<lambda>x. if \<not> now < rp_at x then rp_keys x else []) (ip_releases ?p))))"
    by (auto simp: plan_opens_def)
  then show ?thesis unfolding base rel .
qed

lemma may_open_keys:
  assumes "valid_item g it"
  shows "may_open g a owned it now \<longleftrightarrow> rule_free (it_rule it) now \<or>
    (\<exists>k \<in> set (plan_opens (spec_plan g it) now). holds_key g a owned k)"
proof (cases "anonymous_viewer a")
  case True
  then show ?thesis using assms by (auto simp: may_open_def Let_def holds_key_def)
next
  case False
  have v: "holds_key g a owned (version_of g it) \<longleftrightarrow>
      content_prefix (g_tenant g) @ it_content it @ ''/'' @ it_version it \<in> owned"
    using False by (simp add: holds_key_def)
  show ?thesis
    unfolding spec_plan_opens may_open_def Let_def
    using assms False by (simp add: v bex_Un audience_admitted [OF False, symmetric]) blast
qed

lemma audience_gate_keys:
  assumes "gate_ok g" "level = channel_level \<Longrightarrow> validate_id c = None" "k \<in> set (audience_keys g level ts c)"
  shows "gate_key g k"
  using assms gate_okD [OF assms(1)]
  by (auto simp: audience_keys_def gate_key_def valid_key_def key_of_defs zero_key_def key_tier_def
      split: if_splits)

lemma spec_plan_gate_keys:
  assumes g: "gate_ok g" and it: "valid_item g it" and k: "k \<in> set (plan_opens (spec_plan g it) now)"
  shows "gate_key g k"
proof -
  have rel: "validate_releases (g_tiers g) (it_rule it) = None" and
    ch: "r_level (it_rule it) = channel_level \<Longrightarrow> validate_id (r_channel (it_rule it)) = None"
    using it by (auto simp: valid_item_def)
  have "gate_key g (version_of g it)"
    using it gate_okD [OF g] by (simp add: valid_item_def gate_key_def valid_key_def version_of_def)
  moreover have "gate_key g k" if "k \<in> set (audience_keys g (rel_level x) (rel_tiers x) (rel_channel x))"
    "x \<in> set (r_releases (it_rule it))" for x
    by (rule audience_gate_keys [OF g release_fields(3) [OF rel that(2)] that(1)])
  ultimately show ?thesis
    using k audience_gate_keys [OF g ch] unfolding spec_plan_opens by blast
qed

text \<open>True knowledge opens nothing it should not, and everything it knows of.\<close>

lemma opens_by_sound:
  assumes g: "gate_ok g" and it: "valid_item g it" and kn: "knows_true g a owned kn"
    and o': "opens_by kn (spec_plan g it) now"
  shows "may_open g a owned it now"
proof -
  have "holds_key g a owned k"
    if "k \<in> set (plan_opens (spec_plan g it) now)" "fst (kn_lookup kn k)" for k
    using kn spec_plan_gate_keys [OF g it that(1)] kn_held_known [OF that(2)] that(2)
    by (simp add: knows_true_def)
  moreover have "ip_rule (spec_plan g it) = it_rule it" by (simp add: spec_plan_def Let_def)
  ultimately show ?thesis
    using o' unfolding may_open_keys [OF it] opens_by_def by auto
qed

lemma opens_by_complete:
  assumes g: "gate_ok g" and it: "valid_item g it" and kn: "knows_true g a owned kn"
    and known: "\<forall>k \<in> set (plan_opens (spec_plan g it) now). snd (kn_lookup kn k)"
    and m: "may_open g a owned it now"
  shows "opens_by kn (spec_plan g it) now"
proof -
  have "\<not> ip_invalid (spec_plan g it)" "ip_rule (spec_plan g it) = it_rule it"
    by (simp_all add: spec_plan_def Let_def)
  then show ?thesis
    using m known kn spec_plan_gate_keys [OF g it]
    unfolding may_open_keys [OF it] opens_by_def knows_true_def by auto
qed

lemma invalid_plan_closed [simp]: "\<not> opens_by kn invalid_plan now"
  by (simp add: opens_by_def invalid_plan_def)

section \<open>Runs of \<open>decide\<close>\<close>

lemma verdict_waits_unknown:
  "k \<in> set (snd (verdict p kn now pw)) \<Longrightarrow> \<not> snd (kn_lookup kn k)"
  unfolding verdict_waits by (auto simp: Let_def split: if_splits option.splits)

lemma read_more_held:
  assumes "kn_memo kn = e" "kn_read kn = Map.empty" "\<And>s. s \<in> set ks \<Longrightarrow> memo_key e s = None"
    and "fst (kn_lookup kn k)"
  shows "fst (kn_lookup (read_more kn e (map (\<lambda>k. (k, v k)) ks)) k)"
  using assms
  by (cases e; cases "kn_filter kn")
     (auto simp: kn_lookup_def read_more_def map_of_keyed memo_key_def split: option.splits if_splits prod.splits)

lemma unknown_not_in_memo: "\<not> snd (kn_lookup kn k) \<Longrightarrow> memo_key (kn_memo kn) (key_string k) = None"
  by (auto simp: kn_lookup_def split: if_splits option.splits prod.splits)

lemma needed_keys_iff:
  "s \<in> set (needed_keys kn now ps) \<longleftrightarrow>
     (\<exists>p \<in> set ps. \<exists>k \<in> set (snd (verdict p kn now True)). s = key_string k)"
  by (auto simp: needed_keys_def)

lemma anonymous_needs_nothing:
  assumes "anonymous_viewer a"
  shows "needed_keys (actor_knowledge g a f m) now ps = []"
proof -
  have "snd (kn_lookup (actor_knowledge g a f m) k)" for k
    using assms by (simp add: actor_knowledge_def kn_lookup_def)
  then have "snd (verdict p (actor_knowledge g a f m) now True) = []" for p
    using verdict_waits_unknown by (metis list.set_intros(1) neq_Nil_conv)
  then show ?thesis by (simp add: needed_keys_def)
qed

lemma all_known_or_open:
  assumes "snd (verdict p kn now True) = []"
  shows "ip_invalid p \<or> opens_by kn p now \<or> (\<forall>k \<in> set (plan_opens p now). snd (kn_lookup kn k))"
  using assms unfolding verdict_waits
  by (auto simp: Let_def filter_empty_conv split: if_splits)

lemma unknown_keys_wait:
  assumes "\<not> ip_invalid p" "\<not> opens_by kn p now" "k \<in> set (plan_opens p now)" "\<not> snd (kn_lookup kn k)"
  shows "k \<in> set (snd (verdict p kn now True))"
proof -
  let ?u = "filter (\<lambda>k. \<not> snd (kn_lookup kn k)) (plan_opens p now)"
  have u: "k \<in> set ?u" using assms(3,4) by simp
  then have "?u \<noteq> []" by (rule length_pos_if_in_set [THEN length_greater_0_conv [THEN iffD1]])
  then have "snd (verdict p kn now True) = ?u" using assms(1,2) unfolding verdict_waits Let_def by simp
  with u show ?thesis by simp
qed

lemma decide_plans_run:
  assumes run: "decide_plans g a f ps now m = (ds, err, qs, m')"
    and m: "memo_true g a owned m" and f: "\<And>f0. f = Some f0 \<Longrightarrow> filter_true g a owned f0"
    and b: "truthful g (account_subject a) owned"
  obtains kn where "ds = map (\<lambda>p. fst (verdict p kn now True)) ps" "knows_true g a owned kn"
    "err = None \<Longrightarrow> \<forall>p \<in> set ps. ip_invalid p \<or> opens_by kn p now \<or>
       (\<forall>k \<in> set (plan_opens p now). snd (kn_lookup kn k))"
    "memo_true g a owned m'" "length qs \<le> 1" "anonymous_viewer a \<Longrightarrow> err = None \<and> qs = [] \<and> m' = m"
proof -
  let ?kn = "actor_knowledge g a f m" and ?s = "(g_ref g, account_subject a)"
  let ?keys = "needed_keys ?kn now ps"
  have gr: "grounded g a owned ?kn" by (rule actor_knowledge_grounded [OF m f])
  show thesis
  proof (cases "?keys = []")
    case True
    then have out: "ds = map (\<lambda>p. fst (verdict p ?kn now True)) ps" "err = None" "qs = []" "m' = m"
      using run by (auto simp: decide_plans_def Let_def)
    have "snd (verdict p ?kn now True) = []" if "p \<in> set ps" for p
      using True that by (auto simp: needed_keys_def)
    then show thesis
      using that [OF out(1) grounded_true [OF gr]] all_known_or_open out m by simp
  next
    case False
    then have na: "\<not> anonymous_viewer a" using anonymous_needs_nothing by blast
    obtain r qs' where r: "billing_keys g (account_subject a) ?keys = (r, qs')" by fastforce
    show thesis
    proof (cases r)
      case (Inl e)
      then have out: "ds = map (\<lambda>p. fst (verdict p ?kn now True)) ps" "err = Some e" "qs = qs'" "m' = m"
        using run r False by (auto simp: decide_plans_def Let_def)
      show thesis
        using that [OF out(1) grounded_true [OF gr]] out(2-4) m billing_keys_cost [OF r] na by simp
    next
      case (Inr ans)
      let ?v = "answer_key ans" and ?e = "memo_for m ?s"
      let ?read = "map (\<lambda>k. (k, ?v k)) ?keys"
      let ?kn2 = "read_more ?kn ?e ?read"
      have memo: "kn_memo ?kn = ?e" "kn_read ?kn = Map.empty"
        using na by (simp_all add: actor_knowledge_def Let_def)
      have out: "ds = map (\<lambda>p. fst (verdict p ?kn2 now True)) ps" "err = None" "qs = qs'"
        "m' = memo_update ?s (entry_store_keys ?read) m"
        using run r Inr False
        by (auto simp: decide_plans_def Let_def read_more_def memo_for_update)
      have v: "?v k \<longleftrightarrow> k \<in> owned" if "k \<in> set ?keys" for k
        using billing_keys_true [OF b r [unfolded Inr] that] .
      have new: "memo_key ?e s = None" if "s \<in> set ?keys" for s
        using that verdict_waits_unknown unknown_not_in_memo memo(1)
        unfolding needed_keys_iff by metis
      have known: "ip_invalid p \<or> opens_by ?kn2 p now \<or> (\<forall>k \<in> set (plan_opens p now). snd (kn_lookup ?kn2 k))"
        if p: "p \<in> set ps" for p
      proof (cases "ip_invalid p \<or> opens_by ?kn p now")
        case True
        then show ?thesis using read_more_held [OF memo new] by (auto simp: opens_by_def)
      next
        case False
        have "snd (kn_lookup ?kn2 k)" if k: "k \<in> set (plan_opens p now)" for k
        proof (rule read_more_known [OF memo])
          show "snd (kn_lookup ?kn k) \<or> key_string k \<in> set ?keys"
            using unknown_keys_wait [of p ?kn now k] False k p unfolding needed_keys_iff by blast
        qed
        then show ?thesis by blast
      qed
      show thesis
        using that [OF out(1) grounded_true [OF read_more_grounded [OF gr memo(1) v]]] known na
          memo_true_store [OF m v] billing_keys_cost [OF r] out(3,4) by simp
    qed
  qed
qed

section \<open>Properties of \<open>Decide\<close>\<close>

text \<open>The item a plan stands for.\<close>

definition plan_for :: "gate \<Rightarrow> item \<Rightarrow> item_plan" where
  "plan_for g it = (if valid_item g it then spec_plan g it else invalid_plan)"

lemma plan_items_for: "gate_ok g \<Longrightarrow> plan_items g its = map (plan_for g) its"
  by (simp add: plan_items_spec plan_for_def)

lemma plan_for_sound:
  assumes "gate_ok g" "knows_true g a owned kn" "opens_by kn (plan_for g it) now"
  shows "may_open g a owned it now"
  using assms opens_by_sound [of g it a owned kn now] by (cases "valid_item g it") (auto simp: plan_for_def)

lemma plan_for_exact:
  assumes g: "gate_ok g" and kn: "knows_true g a owned kn"
    and known: "ip_invalid (plan_for g it) \<or> opens_by kn (plan_for g it) now \<or>
      (\<forall>k \<in> set (plan_opens (plan_for g it) now). snd (kn_lookup kn k))"
  shows "opens_by kn (plan_for g it) now \<longleftrightarrow> may_open g a owned it now"
proof
  show "opens_by kn (plan_for g it) now \<Longrightarrow> may_open g a owned it now"
    by (rule plan_for_sound [OF g kn])
next
  assume m: "may_open g a owned it now"
  then have it: "valid_item g it" by (simp add: may_open_def)
  then have "plan_for g it = spec_plan g it" "\<not> ip_invalid (spec_plan g it)"
    by (simp_all add: plan_for_def spec_plan_def Let_def)
  then show "opens_by kn (plan_for g it) now"
    using known opens_by_complete [OF g it kn _ m] by auto
qed

lemma gate_decide_plans: "gate_decide g a its now m = decide_plans g a None (plan_items g its) now m"
  by (simp add: gate_decide_def)

text \<open>
  C1: when \<open>Decide\<close> returns no error, it allows exactly the items whose rule opens to the
  viewer: a free rule, a held version key, a held tier or channel of the rule, or one of a
  release that is due. An item with an invalid id or rule is denied. This holds whatever
  true answers the request memo already has.
\<close>

theorem decide_exact:
  assumes g: "gate_ok g" and b: "truthful g (account_subject a) owned" and m: "memo_true g a owned m"
    and run: "gate_decide g a its now m = (ds, None, qs, m')"
  shows "map dc_allowed ds = map (\<lambda>it. may_open g a owned it now) its"
proof -
  obtain kn where "ds = map (\<lambda>p. fst (verdict p kn now True)) (plan_items g its)"
    and kn: "knows_true g a owned kn"
    and known: "\<forall>p \<in> set (plan_items g its). ip_invalid p \<or> opens_by kn p now \<or>
       (\<forall>k \<in> set (plan_opens p now). snd (kn_lookup kn k))"
    by (rule decide_plans_run [OF run [unfolded gate_decide_plans] m _ b]) auto
  then show ?thesis
    using plan_for_exact [OF g kn] by (simp add: plan_items_for [OF g] verdict_allowed)
qed

text \<open>The verdicts of \<open>Decide\<close>, whether the billing read failed or not.\<close>

lemma gate_decide_verdicts:
  assumes g: "gate_ok g" and b: "truthful g (account_subject a) owned" and m: "memo_true g a owned m"
    and run: "gate_decide g a its now m = (ds, e, qs, m')"
  shows "list_all2 (\<lambda>it d.
      (if dc_unknown d then d = denied\<lparr>dc_unknown := True\<rparr>
       else dc_allowed d = may_open g a owned it now)) its ds"
proof -
  obtain kn where ds: "ds = map (\<lambda>p. fst (verdict p kn now True)) (map (plan_for g) its)"
    and kn: "knows_true g a owned kn"
    by (rule decide_plans_run [OF run [unfolded gate_decide_plans plan_items_for [OF g]] m _ b]) auto
  have unk: "fst (verdict p kn now True) = denied\<lparr>dc_unknown := True\<rparr>"
    if "dc_unknown (fst (verdict p kn now True))" for p
    using that by (auto simp: verdict_def Let_def split: prod.splits option.splits if_splits)
  have "dc_allowed (fst (verdict (plan_for g it) kn now True)) = may_open g a owned it now"
    if "\<not> dc_unknown (fst (verdict (plan_for g it) kn now True))" for it
    unfolding verdict_allowed
    by (rule plan_for_exact [OF g kn all_known_or_open])
       (use that in \<open>simp add: verdict_unknown\<close>)
  then show ?thesis using unk by (auto simp: ds list_all2_conv_all_nth)
qed

text \<open>
  C2: a failed billing read fails closed: an item is allowed only if its rule opens to the
  viewer, an item that is not reported unknown is decided exactly, and an unknown item is
  denied with nothing offered for sale.
\<close>

theorem decide_fail_closed:
  assumes g: "gate_ok g" and b: "truthful g (account_subject a) owned" and m: "memo_true g a owned m"
    and run: "gate_decide g a its now m = (ds, Some e, qs, m')"
  shows "list_all2 (\<lambda>it d.
      (if dc_unknown d then d = denied\<lparr>dc_unknown := True\<rparr>
       else dc_allowed d = may_open g a owned it now)) its ds"
  by (rule gate_decide_verdicts [OF g b m run])

lemma decide_plans_cost:
  assumes "decide_plans g a f ps now m = (ds, err, qs, m')"
  shows "length qs \<le> 1 \<and> length ds = length ps"
    and "anonymous_viewer a \<Longrightarrow> ds = map (\<lambda>p. fst (verdict p (actor_knowledge g a f m) now True)) ps \<and>
      err = None \<and> qs = [] \<and> m' = m"
proof -
  show "length qs \<le> 1 \<and> length ds = length ps"
    using assms billing_keys_cost [of g "account_subject a"]
    by (fastforce simp: decide_plans_def Let_def split: if_splits prod.splits sum.splits)
  show "anonymous_viewer a \<Longrightarrow> ds = map (\<lambda>p. fst (verdict p (actor_knowledge g a f m) now True)) ps \<and>
      err = None \<and> qs = [] \<and> m' = m"
    using assms by (auto simp: decide_plans_def Let_def anonymous_needs_nothing)
qed

text \<open>
  \<open>Decide\<close> answers every item with at most one billing read. An anonymous viewer costs
  no read, never fails, and opens exactly the valid items whose rule is free.
\<close>

theorem decide_reads_once:
  assumes g: "gate_ok g" and run: "gate_decide g a its now m = (ds, err, qs, m')"
  shows "length ds = length its \<and> length qs \<le> 1 \<and>
    (anonymous_viewer a \<longrightarrow> qs = [] \<and> err = None \<and> m' = m \<and>
      map dc_allowed ds = map (\<lambda>it. valid_item g it \<and> rule_free (it_rule it) now) its)"
proof -
  note cost = decide_plans_cost [OF run [unfolded gate_decide_plans plan_items_for [OF g]]]
  have "opens_by (actor_knowledge g a f m) (plan_for g it) now \<longleftrightarrow>
      valid_item g it \<and> rule_free (it_rule it) now" if "anonymous_viewer a" for f it
    using that by (simp add: opens_by_def plan_for_def spec_plan_def invalid_plan_def Let_def
        actor_knowledge_def kn_lookup_def)
  then show ?thesis using cost by (auto simp: verdict_allowed comp_def)
qed

text \<open>What a denied viewer of an item is offered.\<close>

definition sells :: "gate \<Rightarrow> item \<Rightarrow> key list" where
  "sells g it = (let r = it_rule it in
     if r_level r = tier_level then map tier_of (filter (\<lambda>t. t \<in> set (g_tiers g)) (r_tiers r))
     else if r_level r = channel_level then [channel_of g (r_channel r)]
     else if r_level r \<in> {ppv_level, channel_ppv} then [version_of g it] else [])"

lemma offer_spec_plan:
  "offer (spec_plan g it) h = \<lparr>dc_allowed = False, dc_unknown = False, dc_sell = sells g it,
     dc_requires = (if h \<or> r_level (it_rule it) \<noteq> channel_ppv then None
       else Some (channel_of g (r_channel (it_rule it)))),
     dc_preview = r_preview (it_rule it), dc_releases = r_releases (it_rule it)\<rparr>"
  by (simp add: offer_def denied_def sells_def sell_keys_def spec_plan_def Let_def audience_keys_def)

text \<open>
  a viewer \<open>Decide\<close> denies a valid item without saying the answer is unknown is offered
  what the rule sells (its configured tiers, its channel, or the version itself), the rule's
  preview and its releases, and is asked for the channel membership of a channel
  pay-per-view rule exactly when it does not hold it.
\<close>

theorem decide_offers:
  assumes g: "gate_ok g" and b: "truthful g (account_subject a) owned" and m: "memo_true g a owned m"
    and run: "gate_decide g a its now m = (ds, err, qs, m')"
  shows "list_all2 (\<lambda>it d. valid_item g it \<and> \<not> dc_allowed d \<and> \<not> dc_unknown d \<longrightarrow>
      dc_sell d = sells g it \<and> dc_preview d = r_preview (it_rule it) \<and>
      dc_releases d = r_releases (it_rule it) \<and>
      dc_requires d =
        (if r_level (it_rule it) = channel_ppv \<and>
            \<not> holds_key g a owned (channel_of g (r_channel (it_rule it)))
         then Some (channel_of g (r_channel (it_rule it))) else None)) its ds"
proof -
  obtain kn where ds: "ds = map (\<lambda>p. fst (verdict p kn now True)) (map (plan_for g) its)"
    and kn: "knows_true g a owned kn"
    by (rule decide_plans_run [OF run [unfolded gate_decide_plans plan_items_for [OF g]] m _ b]) auto
  have main: "fst (verdict p kn now True) =
      offer p (\<not> (r_level (it_rule it) = channel_ppv \<and>
        \<not> holds_key g a owned (channel_of g (r_channel (it_rule it)))))"
    if it: "valid_item g it" and p: "p = spec_plan g it"
      and no: "\<not> opens_by kn p now" "snd (verdict p kn now True) = []" for it p
  proof -
    obtain o' u where ask: "ask_keys kn (plan_opens p now) [] = (o', u)" by fastforce
    have gk: "r_level (it_rule it) = channel_ppv \<Longrightarrow> gate_key g (channel_of g (r_channel (it_rule it)))"
      using it gate_okD [OF g] by (auto simp: valid_item_def gate_key_def valid_key_def channel_of_def)
    have req: "ip_requires p = (if r_level (it_rule it) = channel_ppv
        then Some (channel_of g (r_channel (it_rule it))) else None)" "\<not> ip_invalid p"
      by (simp_all add: p spec_plan_def Let_def)
    have cl: "\<not> rule_free (ip_rule p) now" "\<not> o'"
      using no(1) req ask_keys_opened [of kn "plan_opens p now" "[]"] ask by (auto simp: opens_by_def)
    have u: "u = []" using no(2) cl req ask by (auto simp: verdict_def Let_def split: if_splits)
    show ?thesis
    proof (cases "r_level (it_rule it) = channel_ppv")
      case False
      then show ?thesis using cl req ask u by (simp add: verdict_def Let_def)
    next
      case True
      obtain h ok where l: "kn_lookup kn (channel_of g (r_channel (it_rule it))) = (h, ok)" by fastforce
      have ok: "ok" using no(2) cl req ask u True l by (auto simp: verdict_def Let_def split: if_splits)
      then have "h = holds_key g a owned (channel_of g (r_channel (it_rule it)))"
        using kn gk [OF True] l by (auto simp: knows_true_def)
      then show ?thesis using cl req ask u True l ok by (simp add: verdict_def Let_def)
    qed
  qed
  show ?thesis
    unfolding ds
    by (auto simp: list_all2_conv_all_nth verdict_allowed verdict_unknown plan_for_def main offer_spec_plan)
qed

section \<open>A sample site\<close>

text \<open>A billing service that answers from a list of owned keys, and one that is down.\<close>

definition sample_billing :: "string list \<Rightarrow> billing" where
  "sample_billing owned subject q = Inr \<lparr>an_keys = (\<lambda>k. Some (k \<in> set owned)),
     an_held = (\<lambda>p. Some \<lparr>hk_keys = filter (has_prefix p) owned, hk_truncated = False\<rparr>)\<rparr>"

definition down_billing :: billing where
  "down_billing subject q = Inl ''unavailable''"

definition sample_gate :: "billing \<Rightarrow> gate" where
  "sample_gate b = \<lparr>g_ref = 0, g_tenant = ''acme'', g_tiers = [''gold'', ''silver''],
     g_claimable = [''gold''], g_prefixes = [''acme:content:'', ''acme:group:''], g_billing = Some b\<rparr>"

definition sample_viewer :: actor where
  "sample_viewer = \<lparr>a_id = ''u1'', a_account = None, a_kind = SubjectUser, a_ip = [],
     a_anonymous = False, a_claims = None\<rparr>"

definition sample_item :: "string \<Rightarrow> item" where
  "sample_item level = \<lparr>it_content = sample_id, it_version = sample_id, it_rule =
     \<lparr>r_level = level, r_tiers = (if level = tier_level then [''gold'', ''silver''] else []),
      r_channel = (if level = channel_ppv then sample_id else []), r_preview = None, r_releases = []\<rparr>\<rparr>"

lemma sample_gate_ok: "gate_ok (sample_gate b)"
proof -
  have "valid_tenant ''acme''" "valid_tier ''gold''" "valid_tier ''silver''"
    "sorted [''gold'', ''silver'']" "content_prefix ''acme'' = ''acme:content:''"
    "channel_prefix ''acme'' = ''acme:group:''"
    by code_simp+
  then show ?thesis by (simp add: gate_ok_def sample_gate_def)
qed

lemma sample_truthful: "truthful (sample_gate (sample_billing owned)) s (set owned)"
  by (auto simp: truthful_def sample_gate_def true_answer_def sample_billing_def answer_key_def)

lemma down_truthful: "truthful (sample_gate down_billing) s owned"
  by (auto simp: truthful_def sample_gate_def down_billing_def)

abbreviation silver_gate :: gate where "silver_gate \<equiv> sample_gate (sample_billing [''silver''])"

lemma run_of: "fst (snd x) = e \<Longrightarrow> x = (fst x, e, fst (snd (snd x)), snd (snd (snd x)))"
  by (simp add: prod_eq_iff)

theorem decide_exact_witness:
  "fst (snd (gate_decide silver_gate sample_viewer [sample_item tier_level, sample_item ppv_level] 100 None)) = None \<and>
   map (\<lambda>it. may_open silver_gate sample_viewer (set [''silver'']) it 100)
     [sample_item tier_level, sample_item ppv_level] = [True, False]"
proof -
  let ?r = "gate_decide silver_gate sample_viewer [sample_item tier_level, sample_item ppv_level] 100 None"
  have 1: "fst (snd ?r) = None" by code_simp
  have 2: "map dc_allowed (fst ?r) = [True, False]" by code_simp
  show ?thesis
    using decide_exact [OF sample_gate_ok sample_truthful no_memo_true(1) run_of [OF 1]] 1 2 by simp
qed

theorem decide_fail_closed_witness:
  "map dc_unknown (fst (gate_decide (sample_gate down_billing) sample_viewer
     [sample_item tier_level, sample_item public_level] 100 None)) = [True, False] \<and>
   may_open (sample_gate down_billing) sample_viewer {} (sample_item public_level) 100"
proof -
  let ?r = "gate_decide (sample_gate down_billing) sample_viewer
     [sample_item tier_level, sample_item public_level] 100 None"
  have 1: "fst (snd ?r) = Some ''unavailable''" by code_simp
  have 2: "map dc_unknown (fst ?r) = [True, False]" "map dc_allowed (fst ?r) = [False, True]"
    by code_simp+
  have "list_all2 (\<lambda>it d. if dc_unknown d then d = denied\<lparr>dc_unknown := True\<rparr>
       else dc_allowed d = may_open (sample_gate down_billing) sample_viewer {} it 100)
     [sample_item tier_level, sample_item public_level] (fst ?r)"
    by (rule decide_fail_closed [OF sample_gate_ok down_truthful no_memo_true(1) run_of [OF 1]])
  then show ?thesis using 2 by (auto simp: list_all2_Cons1)
qed

theorem decide_reads_once_witness:
  "length (fst (snd (snd (gate_decide silver_gate sample_viewer [sample_item tier_level] 100 None)))) \<le> 1 \<and>
   gate_ok silver_gate"
proof -
  let ?r = "gate_decide silver_gate sample_viewer [sample_item tier_level] 100 None"
  show ?thesis
    using decide_reads_once [OF sample_gate_ok run_of [of ?r, OF refl]] sample_gate_ok by blast
qed

theorem decide_offers_witness:
  "map dc_sell (fst (gate_decide silver_gate sample_viewer [sample_item ppv_level] 100 None)) =
     [sells silver_gate (sample_item ppv_level)]"
proof -
  let ?r = "gate_decide silver_gate sample_viewer [sample_item ppv_level] 100 None"
  have 1: "fst (snd ?r) = None" by code_simp
  have 2: "map dc_unknown (fst ?r) = [False]" "map dc_allowed (fst ?r) = [False]" by code_simp+
  have "valid_item silver_gate (sample_item ppv_level)" by code_simp
  then show ?thesis
    using decide_offers [OF sample_gate_ok sample_truthful no_memo_true(1) run_of [OF 1]] 2
    by (auto simp: list_all2_Cons1)
qed

end
