(* ===== verification/Entitlement_Listing.thy ===== *)
theory Entitlement_Listing
  imports Entitlement_Props
begin

text \<open>
  Properties of the other operations of the access gate: holding keys, the filter of a
  request, the verdicts taken from a filter, and settling a page of a listing. The last
  section has two situations in which an answer depends on what the request read before.
\<close>

section \<open>Holding keys\<close>

definition askable :: "gate \<Rightarrow> key \<Rightarrow> bool" where
  "askable g k \<longleftrightarrow> valid_key k \<and> (k_kind k = KeyTier \<longrightarrow> key_tier k \<in> set (g_tiers g))"

lemma askable_gate_key: "askable g k \<Longrightarrow> in_gate g k \<longleftrightarrow> gate_key g k"
  by (auto simp: askable_def in_gate_def gate_key_def)

lemma askable_string: "askable g k \<Longrightarrow> askable g j \<Longrightarrow> key_string k = key_string j \<Longrightarrow> k = j"
  by (metis askable_def parse_key_string sum.inject(2))

lemma holds_run:
  assumes g: "gate_ok g" and b: "truthful g (account_subject a) owned" and m: "memo_true g a owned m"
    and ks: "list_all (askable g) ks"
    and run: "gate_holds g a ks m = (bs, None, qs, m')"
  shows "bs = map (\<lambda>k. in_gate g k \<and> holds_key g a owned k) ks \<and> length qs \<le> 1 \<and>
    memo_true g a owned m'"
proof (cases "anonymous_viewer a")
  case True
  then show ?thesis using run m by (auto simp: gate_holds_def holds_key_def)
next
  case na: False
  let ?kn = "actor_knowledge g a None m" and ?s = "(g_ref g, account_subject a)"
  let ?out = "map (\<lambda>k. in_gate g k \<and> fst (kn_lookup ?kn k)) ks"
  let ?need = "filter (\<lambda>k. in_gate g k \<and> \<not> snd (kn_lookup ?kn k)) ks"
  let ?ask = "sorted_keys (map key_string ?need)"
  have gr: "knows_true g a owned ?kn"
    by (rule grounded_true [OF actor_knowledge_grounded [OF m]]) simp
  have known: "fst (kn_lookup ?kn k) = holds_key g a owned k"
    if "k \<in> set ks" "in_gate g k" "snd (kn_lookup ?kn k)" for k
    using gr ks that askable_gate_key by (auto simp: knows_true_def list_all_iff)
  show ?thesis
  proof (cases "?need = []")
    case True
    then have "bs = ?out" "qs = []" "m' = m" using run na by (auto simp: gate_holds_def Let_def)
    then show ?thesis using known m True by (auto simp: filter_empty_conv)
  next
    case False
    obtain r qs' where r: "billing_keys g (account_subject a) ?ask = (r, qs')" by fastforce
    then obtain ans where ans: "r = Inr ans" using run na False by (cases r) (auto simp: gate_holds_def Let_def)
    let ?v = "answer_key ans"
    let ?read = "map (\<lambda>k. (k, ?v k)) ?ask"
    have out: "bs = map (\<lambda>(o', k). case map_of ?read (key_string k) of Some h \<Rightarrow> h | None \<Rightarrow> o') (zip ?out ks)"
      "qs = qs'" "m' = memo_update ?s (entry_store_keys ?read) m"
      using run na False r ans by (auto simp: gate_holds_def Let_def)
    have v: "?v s \<longleftrightarrow> s \<in> owned" if "s \<in> set ?ask" for s
      using billing_keys_true [OF b r [unfolded ans] that] .
    have "(case map_of ?read (key_string k) of Some h \<Rightarrow> h | None \<Rightarrow> in_gate g k \<and> fst (kn_lookup ?kn k))
        = (in_gate g k \<and> holds_key g a owned k)" if k: "k \<in> set ks" for k
    proof (cases "key_string k \<in> set ?ask")
      case True
      then obtain j where j: "j \<in> set ?need" "key_string k = key_string j" by auto
      then have "k = j" using askable_string ks k by (auto simp: list_all_iff)
      then have need: "in_gate g k" "\<not> snd (kn_lookup ?kn k)" using j by auto
      then have "\<not> (k_kind k = KeyTier \<and> key_tier k \<in> set (claimed g a))"
        using na by (auto simp: kn_lookup_def actor_knowledge_def Let_def)
      then show ?thesis using True need v na by (auto simp: map_of_keyed holds_key_def)
    next
      case False
      then have "in_gate g k \<Longrightarrow> snd (kn_lookup ?kn k)" using k by auto
      then show ?thesis using known k False by (simp add: map_of_keyed) blast
    qed
    then have "bs = map (\<lambda>k. in_gate g k \<and> holds_key g a owned k) ks"
      unfolding out(1) by (simp add: zip_map1 zip_same_conv_map)
    moreover have "memo_true g a owned m'" unfolding out(3) by (rule memo_true_store [OF m v])
    ultimately show ?thesis using billing_keys_cost [OF r] out(2) by simp
  qed
qed

text \<open>
  \<open>Holds\<close> answers each key of the gate exactly, in order, in at most one billing read; a
  key of another tenant is never held. The request memo stays true.
\<close>

theorem holds_exact:
  assumes "gate_ok g" "truthful g (account_subject a) owned" "memo_true g a owned m"
    and "list_all (askable g) ks" and "gate_holds g a ks m = (bs, None, qs, m')"
  shows "bs = map (\<lambda>k. (k_kind k = KeyTier \<or> k_tenant k = g_tenant g) \<and> holds_key g a owned k) ks \<and>
    length qs \<le> 1 \<and> memo_true g a owned m'"
  using holds_run [OF assms] by (simp add: in_gate_def)

theorem holds_exact_witness:
  "fst (gate_holds silver_gate sample_viewer [tier_of ''gold'', tier_of ''silver''] None) = [False, True] \<and>
   holds_key silver_gate sample_viewer (set [''silver'']) (tier_of ''silver'')"
proof -
  let ?r = "gate_holds silver_gate sample_viewer [tier_of ''gold'', tier_of ''silver''] None"
  have 1: "fst (snd ?r) = None" by code_simp
  have 2: "fst ?r = [False, True]" by code_simp
  have 3: "list_all (askable silver_gate) [tier_of ''gold'', tier_of ''silver'']" by code_simp
  show ?thesis
    using holds_exact [OF sample_gate_ok sample_truthful no_memo_true(1) 3 run_of [OF 1]] 2 by auto
qed

section \<open>Filters\<close>

text \<open>
  within a request with a memo the filter of a viewer is read once: asking again costs no
  billing read, returns the same filter and the same error, and changes nothing.
\<close>

theorem filter_read_once:
  assumes "gate_filter g a (Some es) = (f, err, qs, m')"
  shows "gate_filter g a m' = (f, err, [], m') \<and> length qs \<le> 1"
proof -
  have "length (snd (read_filter g a)) \<le> 1"
    by (auto simp: read_filter_def Let_def split: option.splits)
  then show ?thesis
    using assms
    by (auto simp: gate_filter_def Let_def memo_for_update memo_load_filter_def memo_for_def
        entry_store_filter_def empty_entry_def memo_update_def split: if_splits option.splits prod.splits)
qed

theorem filter_read_once_witness:
  "let (f, err, qs, m') = gate_filter silver_gate sample_viewer (Some Map.empty)
   in length qs = 1 \<and> gate_filter silver_gate sample_viewer m' = (f, err, [], m')"
proof -
  let ?r = "gate_filter silver_gate sample_viewer (Some Map.empty)"
  have "length (fst (snd (snd ?r))) = 1" by code_simp
  then show ?thesis
    using filter_read_once [OF run_of [of ?r, OF refl]] by (simp add: case_prod_beta Let_def)
qed

text \<open>The tiers of a filter that was read.\<close>

lemma load_filter_frame:
  assumes "load_filter ans q f = Inr f'"
  shows "fl_unknown f' = fl_unknown f \<and> fl_gate f' = fl_gate f \<and> fl_err f' = fl_err f \<and>
    fl_anonymous f' = fl_anonymous f \<and>
    fl_tiers f' = fold (\<lambda>k. AList.update k (answer_key ans k)) (q_keys q) (fl_tiers f)"
proof -
  let ?I = "\<lambda>x. fl_unknown x = fl_unknown f \<and> fl_gate x = fl_gate f \<and> fl_err x = fl_err f \<and>
    fl_anonymous x = fl_anonymous f \<and>
    fl_tiers x = fold (\<lambda>k. AList.update k (answer_key ans k)) (q_keys q) (fl_tiers f)"
  have step: "?I x'" if "load_held p s x = Inr x'" "?I x" for p s x x'
    using that by (auto simp: load_held_def split: sum.splits if_splits key_kind.splits option.splits)
  have pre: "?I x'" if px: "load_prefix ans p x = Inr x'" "?I x" for p x x'
  proof -
    obtain h where a: "an_held ans p = Some h"
      using px(1) by (cases "an_held ans p") (simp_all add: load_prefix_def)
    then obtain y where h: "fold_result (load_held p) (hk_keys h) x = Inr y"
      and x': "x' = (if p = content_prefix (g_tenant (fl_gate y))
        then y\<lparr>fl_contents_complete := \<not> hk_truncated h\<rparr> else y\<lparr>fl_entities_complete := \<not> hk_truncated h\<rparr>)"
      using px(1) by (auto simp: load_prefix_def bindr_Inr_iff)
    have "?I y" by (rule fold_result_invariant [where I = ?I, OF h px(2) step])
    then show ?thesis using x' by auto
  qed
  have "fold_result (load_prefix ans) (q_prefixes q)
      (f\<lparr>fl_tiers := fold (\<lambda>k. AList.update k (answer_key ans k)) (q_keys q) (fl_tiers f)\<rparr>) = Inr f'"
    using assms by (simp add: load_filter_def tiers_fold)
  then show ?thesis by (rule fold_result_invariant [where I = ?I, OF _ _ pre]) auto
qed

lemma read_filter_frame:
  assumes "gate_ok g"
  shows "fl_gate (fst (read_filter g a)) = g" "\<not> fl_anonymous (fst (read_filter g a))"
    "fl_err (fst (read_filter g a)) = None \<longleftrightarrow> \<not> fl_unknown (fst (read_filter g a))"
    "\<not> fl_unknown (fst (read_filter g a)) \<Longrightarrow> t \<in> set (g_tiers g) \<Longrightarrow>
       map_of (fl_tiers (fst (read_filter g a))) t \<noteq> None"
    "fl_unknown (fst (read_filter g a)) \<Longrightarrow> \<exists>e. fst (read_filter g a) = failed_filter g (claimed g a) e"
proof -
  let ?f = "fst (read_filter g a)" and ?q = "read_query g (claimed g a)"
  let ?claims = "map (\<lambda>t. (t, True)) (filter (\<lambda>t. t \<in> set (claimed g a)) (g_tiers g))"
  let ?base = "(empty_filter g)\<lparr>fl_tiers := ?claims\<rparr>"
  have cases: "(\<exists>v. ?f = (empty_filter g)\<lparr>fl_tiers := fold (\<lambda>k. AList.update k (v k)) (q_keys ?q) ?claims\<rparr>) \<or>
      (\<exists>ans. load_filter ans ?q ?base = Inr ?f) \<or> (\<exists>e. ?f = failed_filter g (claimed g a) e)"
  proof (cases "g_billing g")
    case None
    have "?f = (empty_filter g)\<lparr>fl_tiers := fold (\<lambda>k. AList.update k False) (q_keys ?q) ?claims\<rparr>"
      using None by (simp add: read_filter_def Let_def tiers_fold)
    then show ?thesis by (intro disjI1 exI [of _ "\<lambda>_. False"])
  next
    case (Some held)
    show ?thesis
    proof (cases "bindr (held (account_subject a) ?q) (\<lambda>ans. load_filter ans ?q ?base)")
      case (Inl e)
      then show ?thesis using Some by (auto simp: read_filter_def Let_def)
    next
      case (Inr f)
      then have "?f = f" using Some by (simp add: read_filter_def Let_def)
      then show ?thesis using Inr by (auto simp: bindr_Inr_iff)
    qed
  qed
  have tiers: "map_of (fold (\<lambda>k. AList.update k (v k)) (q_keys ?q) ?claims) t \<noteq> None"
    if "t \<in> set (g_tiers g)" for v t
    using that unfolding tiers_fold_map
    by (auto simp: read_query_def map_of_eq_None_iff image_image simp del: not_None_eq)
  have good: "fl_gate ?f = g \<and> \<not> fl_anonymous ?f \<and> fl_err ?f = None \<and> \<not> fl_unknown ?f \<and>
      (\<forall>t \<in> set (g_tiers g). map_of (fl_tiers ?f) t \<noteq> None)" if "\<not> (\<exists>e. ?f = failed_filter g (claimed g a) e)"
  proof -
    from that cases consider (v) v where "?f = (empty_filter g)\<lparr>fl_tiers := fold (\<lambda>k. AList.update k (v k)) (q_keys ?q) ?claims\<rparr>"
      | (ans) ans where "load_filter ans ?q ?base = Inr ?f" by blast
    then show ?thesis
    proof cases
      case v
      then show ?thesis using tiers by (simp add: empty_filter_def)
    next
      case ans
      then show ?thesis using load_filter_frame [OF ans] tiers by (simp add: empty_filter_def)
    qed
  qed
  have bad: "fl_gate ?f = g \<and> \<not> fl_anonymous ?f \<and> fl_err ?f = Some e \<and> fl_unknown ?f"
    if "?f = failed_filter g (claimed g a) e" for e
    using that by (simp add: failed_filter_def empty_filter_def)
  have all: "fl_gate ?f = g \<and> \<not> fl_anonymous ?f \<and> (fl_err ?f = None \<longleftrightarrow> \<not> fl_unknown ?f) \<and>
      (\<not> fl_unknown ?f \<longrightarrow> (\<forall>t \<in> set (g_tiers g). map_of (fl_tiers ?f) t \<noteq> None)) \<and>
      (fl_unknown ?f \<longrightarrow> (\<exists>e. ?f = failed_filter g (claimed g a) e))"
  proof (cases "\<exists>e. ?f = failed_filter g (claimed g a) e")
    case True
    then obtain e where "?f = failed_filter g (claimed g a) e" ..
    from bad [OF this] True show ?thesis by auto
  next
    case False
    from good [OF False] show ?thesis by auto
  qed
  show "fl_gate ?f = g" "\<not> fl_anonymous ?f" "fl_err ?f = None \<longleftrightarrow> \<not> fl_unknown ?f"
    using all by blast+
  show "\<not> fl_unknown ?f \<Longrightarrow> t \<in> set (g_tiers g) \<Longrightarrow> map_of (fl_tiers ?f) t \<noteq> None"
    using all by blast
  show "fl_unknown ?f \<Longrightarrow> \<exists>e. ?f = failed_filter g (claimed g a) e"
    using all by blast
qed

text \<open>
  \<open>Filter\<close> returns an error exactly when the filter it returns is the fail-closed one.
  That filter is not complete, holds the claimed tiers and nothing else, and has read
  nothing.
\<close>

theorem filter_fail_closed:
  assumes g: "gate_ok g" and run: "gate_filter g a None = (f, err, qs, m')"
  shows "(err = None \<longleftrightarrow> \<not> fl_unknown f) \<and>
    (fl_unknown f \<longrightarrow> \<not> filter_complete f \<and> filter_contents f = [] \<and> filter_channels f = [] \<and>
       {t. filter_tier f t} = set (claimed g a))"
proof (cases "anonymous_viewer a")
  case True
  then show ?thesis using run by (auto simp: gate_filter_def anon_filter_def empty_filter_def)
next
  case False
  then have f: "f = fst (read_filter g a)" "err = fl_err f"
    using run by (auto simp: gate_filter_def Let_def memo_for_def memo_load_filter_def split: prod.splits)
  have failed: "\<not> filter_complete x \<and> filter_contents x = [] \<and> filter_channels x = [] \<and>
      {t. filter_tier x t} = set (claimed g a)" if "x = failed_filter g (claimed g a) e" for x e
    unfolding that
    by (auto simp: filter_complete_def filter_contents_def filter_channels_def filter_tier_def
        failed_filter_def empty_filter_def map_of_eq_Some_iff comp_def claimed_def sorted_keys_def)
  show ?thesis
    using read_filter_frame(3,5) [OF g, of a] failed unfolding f by blast
qed

theorem filter_fail_closed_witness:
  "fl_unknown (fst (gate_filter (sample_gate down_billing) sample_viewer None)) \<and>
   \<not> filter_complete (fst (gate_filter (sample_gate down_billing) sample_viewer None))"
proof -
  let ?r = "gate_filter (sample_gate down_billing) sample_viewer None"
  have "fst (snd ?r) = Some ''unavailable''" by code_simp
  then show ?thesis using filter_fail_closed [OF sample_gate_ok run_of [of ?r, OF refl]] by auto
qed

section \<open>Verdicts from a filter\<close>

text \<open>A complete filter of this gate knows every key a plan asks for.\<close>

lemma complete_filter_knows:
  assumes f: "fl_gate f = g" and c: "filter_complete f" and k: "gate_key g k"
    and t: "fl_anonymous f \<or> (\<forall>t \<in> set (g_tiers g). map_of (fl_tiers f) t \<noteq> None)"
  shows "snd (filter_lookup f k)"
proof -
  have "k_kind k = KeyTier \<Longrightarrow> fl_anonymous f \<or> (\<exists>h. map_of (fl_tiers f) (key_tier k) = Some h)"
    using t k by (auto simp: gate_key_def)
  then show ?thesis
    using f c k
    by (auto simp: filter_lookup_def filter_complete_def gate_key_def Let_def
        split: key_kind.splits option.splits)
qed

lemma gate_filter_frame:
  assumes g: "gate_ok g" and run: "gate_filter g a None = (f, err, qs, m')"
  shows "fl_gate f = g"
    and "filter_complete f \<Longrightarrow> fl_anonymous f \<or> (\<forall>t \<in> set (g_tiers g). map_of (fl_tiers f) t \<noteq> None)"
proof -
  consider "f = anon_filter g" | "f = fst (read_filter g a)"
    using run by (auto simp: gate_filter_def Let_def memo_for_def memo_load_filter_def split: if_splits prod.splits)
  then have "fl_gate f = g \<and>
      (filter_complete f \<longrightarrow> fl_anonymous f \<or> (\<forall>t \<in> set (g_tiers g). map_of (fl_tiers f) t \<noteq> None))"
  proof cases
    case 1
    then show ?thesis by (simp add: anon_filter_def empty_filter_def)
  next
    case 2
    then show ?thesis
      using read_filter_frame(1,4) [OF g, of a] by (simp add: filter_complete_def)
  qed
  then show "fl_gate f = g"
    "filter_complete f \<Longrightarrow> fl_anonymous f \<or> (\<forall>t \<in> set (g_tiers g). map_of (fl_tiers f) t \<noteq> None)"
    by blast+
qed

lemma filter_allows_opens:
  assumes "gate_ok g" "fl_gate f = g"
  shows "filter_allows f it now =
    (opens_by (filter_knowledge f) (plan_for g it) now,
     snd (verdict (plan_for g it) (filter_knowledge f) now False) = [])"
proof (cases "valid_item g it")
  case True
  then show ?thesis
    using assms by (simp add: filter_allows_def plan_one_valid plan_for_def Let_def case_prod_beta verdict_allowed)
next
  case False
  with plan_one_invalid obtain e where "plan_one g it = Inl e" by blast
  then show ?thesis
    using assms False by (simp add: filter_allows_def plan_for_def opens_by_def invalid_plan_def verdict_def)
qed

lemma filter_waits_known:
  assumes "snd (verdict p kn now False) = []"
  shows "ip_invalid p \<or> opens_by kn p now \<or> (\<forall>k \<in> set (plan_opens p now). snd (kn_lookup kn k))"
  using assms unfolding verdict_waits
  by (auto simp: Let_def filter_empty_conv split: if_splits option.splits)

text \<open>
  C4: \<open>Allows\<close> never opens an item its rule does not open, is exact when it says it knows,
  and knows whenever the filter is complete.
\<close>

theorem filter_allows_exact:
  assumes g: "gate_ok g" and b: "truthful g (account_subject a) owned"
    and run: "gate_filter g a None = (f, err, qs, m')"
  shows "(fst (filter_allows f it now) \<longrightarrow> may_open g a owned it now) \<and>
    (snd (filter_allows f it now) \<longrightarrow> fst (filter_allows f it now) = may_open g a owned it now) \<and>
    (filter_complete f \<longrightarrow> snd (filter_allows f it now))"
proof -
  note fr = gate_filter_frame [OF g run]
  have ft: "filter_true g a owned f"
    using gate_filter_true [OF g b no_memo_true(1) run] by simp
  note kn = filter_knowledge_true [OF ft]
  have "snd (verdict (plan_for g it) (filter_knowledge f) now False) = []" if c: "filter_complete f"
  proof -
    have "filter (\<lambda>k. \<not> snd (kn_lookup (filter_knowledge f) k)) (plan_opens (spec_plan g it) now) = []"
      if "valid_item g it"
      using complete_filter_knows [OF fr(1) c spec_plan_gate_keys [OF g that] fr(2) [OF c]]
      by (auto simp: filter_empty_conv filter_knowledge_lookup)
    then show ?thesis
      unfolding verdict_waits by (auto simp: plan_for_def invalid_plan_def Let_def split: option.splits)
  qed
  then show ?thesis
    using plan_for_sound [OF g kn] plan_for_exact [OF g kn filter_waits_known]
    unfolding filter_allows_opens [OF g fr(1)] by auto
qed

theorem filter_allows_exact_witness:
  "filter_allows (fst (gate_filter silver_gate sample_viewer None)) (sample_item tier_level) 100 = (True, True) \<and>
   may_open silver_gate sample_viewer (set [''silver'']) (sample_item tier_level) 100"
proof -
  let ?r = "gate_filter silver_gate sample_viewer None"
  have "filter_allows (fst ?r) (sample_item tier_level) 100 = (True, True)" by code_simp
  then show ?thesis
    using filter_allows_exact [OF sample_gate_ok sample_truthful run_of [of ?r, OF refl],
        of "sample_item tier_level" 100] by simp
qed

section \<open>Settling a page\<close>

lemma merge_keep_map:
  "merge_keep ps kn now (map h (filter (\<lambda>p. snd (verdict p kn now False) \<noteq> []) ps)) =
     map (\<lambda>p. if snd (verdict p kn now False) = [] then opens_by kn p now else h p) ps"
  by (induction ps) (simp_all add: case_prod_beta Let_def verdict_allowed)

lemma may_open_mono: "now \<le> now' \<Longrightarrow> may_open g a owned it now \<Longrightarrow> may_open g a owned it now'"
  by (auto simp: may_open_def Let_def rule_free_def list_ex_iff)

text \<open>
  C3: \<open>Settle\<close> keeps exactly the items that open to the viewer. The exact read looks at the
  clock again: what opens at the first time is kept, and what is kept opens at the second.
  It costs at most one read, and \<open>short\<close> reports a dropped item.
\<close>

theorem settle_exact:
  assumes g: "gate_ok g" and b: "truthful g (account_subject a) owned" and m: "memo_true g a owned m"
    and f: "filter_true g a owned f" "fl_gate f = g" and le: "now \<le> now'"
    and run: "gate_settle g a (Some f) its now now' m = (Inr (keep, short, None), qs, m')"
  shows "list_all2 (\<lambda>it k. (may_open g a owned it now \<longrightarrow> k) \<and> (k \<longrightarrow> may_open g a owned it now')) its keep \<and>
    short = (False \<in> set keep) \<and> length qs \<le> 1 \<and> memo_true g a owned m'"
proof -
  let ?kn = "filter_knowledge f" and ?ps = "map (plan_for g) its"
  let ?pending = "filter (\<lambda>p. snd (verdict p ?kn now False) \<noteq> []) ?ps"
  note kn = filter_knowledge_true [OF f(1)]
  have exact: "opens_by ?kn (plan_for g it) now \<longleftrightarrow> may_open g a owned it now"
    if "snd (verdict (plan_for g it) ?kn now False) = []" for it
    by (rule plan_for_exact [OF g kn filter_waits_known [OF that]])
  show ?thesis
  proof (cases "?pending = []")
    case True
    then have out: "keep = merge_keep ?ps ?kn now []" "short = (False \<in> set keep)" "qs = []" "m' = m"
      using run f(2) by (auto simp: gate_settle_def Let_def plan_items_for [OF g])
    have waits: "\<forall>it \<in> set its. snd (verdict (plan_for g it) ?kn now False) = []"
      using True by (simp add: filter_empty_conv)
    have keep: "keep = map (\<lambda>p. opens_by ?kn p now) ?ps"
      using merge_keep_map [of ?ps ?kn now "\<lambda>_. False"] waits unfolding out(1) True by simp
    have "list_all2 (\<lambda>it k. (may_open g a owned it now \<longrightarrow> k) \<and> (k \<longrightarrow> may_open g a owned it now')) its keep"
      unfolding keep using exact waits may_open_mono [OF le]
      by (auto simp: list_all2_conv_all_nth)
    then show ?thesis using out m by simp
  next
    case False
    obtain ds err' qs' m'' where d: "decide_plans g a (Some f) ?pending now' m = (ds, err', qs', m'')"
      by (metis prod_cases4)
    then have out: "keep = merge_keep ?ps ?kn now (map dc_allowed ds)" "short = (False \<in> set keep)"
      "err' = None" "qs = qs'" "m' = m''"
      using run f(2) False by (auto simp: gate_settle_def Let_def plan_items_for [OF g])
    obtain kn2 where ds: "ds = map (\<lambda>p. fst (verdict p kn2 now' True)) ?pending"
      and kn2: "knows_true g a owned kn2"
      and known: "\<forall>p \<in> set ?pending. ip_invalid p \<or> opens_by kn2 p now' \<or>
         (\<forall>k \<in> set (plan_opens p now'). snd (kn_lookup kn2 k))"
      and rest: "memo_true g a owned m''" "length qs' \<le> 1"
      by (rule decide_plans_run [OF d m _ b]) (use f out in auto)
    have keep: "keep = map (\<lambda>p. if snd (verdict p ?kn now False) = [] then opens_by ?kn p now
        else opens_by kn2 p now') ?ps"
      unfolding out(1) ds using merge_keep_map [of ?ps ?kn now "\<lambda>p. opens_by kn2 p now'"]
      by (simp add: verdict_allowed comp_def)
    have later: "opens_by kn2 (plan_for g it) now' \<longleftrightarrow> may_open g a owned it now'"
      if "it \<in> set its" "snd (verdict (plan_for g it) ?kn now False) \<noteq> []" for it
      by (rule plan_for_exact [OF g kn2]) (use known that in auto)
    have "list_all2 (\<lambda>it k. (may_open g a owned it now \<longrightarrow> k) \<and> (k \<longrightarrow> may_open g a owned it now')) its keep"
      unfolding keep using exact later may_open_mono [OF le]
      by (auto simp: list_all2_conv_all_nth)
    then show ?thesis using rest out by simp
  qed
qed

theorem settle_exact_witness:
  "fst (gate_settle silver_gate sample_viewer (Some (fst (gate_filter silver_gate sample_viewer None)))
      [sample_item tier_level, sample_item ppv_level] 100 200 None) = Inr ([True, False], True, None) \<and>
   may_open silver_gate sample_viewer (set [''silver'']) (sample_item tier_level) 200"
proof -
  let ?r = "gate_filter silver_gate sample_viewer None"
  let ?s = "gate_settle silver_gate sample_viewer (Some (fst ?r))
      [sample_item tier_level, sample_item ppv_level] 100 200 None"
  have s: "fst ?s = Inr ([True, False], True, None)" by code_simp
  then have run: "?s = (Inr ([True, False], True, None), fst (snd ?s), snd (snd ?s))"
    by (simp add: prod_eq_iff)
  have f: "filter_true silver_gate sample_viewer (set [''silver'']) (fst ?r)"
    using gate_filter_true [OF sample_gate_ok sample_truthful no_memo_true(1) run_of [of ?r, OF refl]] by simp
  have fg: "fl_gate (fst ?r) = silver_gate"
    by (rule gate_filter_frame(1) [OF sample_gate_ok run_of [of ?r, OF refl]])
  have le: "(100 :: time) \<le> 200" by simp
  show ?thesis
    using settle_exact [OF sample_gate_ok sample_truthful no_memo_true(1) f fg le run] s
    by (auto simp: list_all2_Cons1)
qed

section \<open>Answers that depend on what the request read\<close>

text \<open>
  the paywall of a channel pay-per-view item is reported unknown although billing
  answered: without a filter in the memo the first pass asks for the version key only, and
  the one read does not cover the channel key the second pass then waits for. With the
  filter of the same request in the memo the same decision names the membership to buy.
\<close>

theorem channel_ppv_unknown:
  "(let (ds, err, qs, m') = gate_decide silver_gate sample_viewer [sample_item channel_ppv] 100 None
    in map dc_unknown ds = [True] \<and> err = None \<and> map q_keys qs = [[key_string (version_of silver_gate (sample_item channel_ppv))]]) \<and>
   (let (f, e, qs, m) = gate_filter silver_gate sample_viewer (Some Map.empty);
        (ds, err, qs', m') = gate_decide silver_gate sample_viewer [sample_item channel_ppv] 100 m
    in map dc_unknown ds = [False] \<and> err = None \<and> qs' = [] \<and>
       map dc_requires ds = [Some (channel_of silver_gate sample_id)])"
  by code_simp

text \<open>
  \<open>Holds\<close> of a tier the site does not configure asks billing when the request has no
  filter, and is false without asking when it has one, so the answer for a tier billing
  still grants depends on whether the filter was read before.
\<close>

theorem holds_unconfigured_tier:
  "(let g = sample_gate (sample_billing [''bronze''])
    in fst (gate_holds g sample_viewer [tier_of ''bronze''] None) = [True] \<and>
       fst (gate_holds g sample_viewer [tier_of ''bronze'']
         (snd (snd (snd (gate_filter g sample_viewer (Some Map.empty)))))) = [False])"
  by code_simp

end
