(* ===== verification/Entitlement_SQL.thy ===== *)
theory Entitlement_SQL
  imports Entitlement_Listing
begin

text \<open>
  Files \<open>sql.go\<close>, \<open>releases.go\<close> and \<open>audiences.go\<close> of \<open>internal/entitlement\<close>: the SQL a
  listing runs in place of asking the gate for every row. The text of a predicate depends
  only on the alias and the mode; what it depends on besides are its arguments. The model
  has the arguments as the code computes them, and the predicate as a function of them and
  of a \<open>content_facets\<close> row, read off the SQL clause by clause.

  \<open>pg\<close> is what the database reads a JSON timestamp as (it keeps microseconds), \<open>now\<close> is the
  \<open>now()\<close> of the statement, and \<open>collate\<close> is the database's \<open>ORDER BY\<close> on text. A comparison
  with NULL admits nothing, which is what the clauses, all of them positive, make of it.
\<close>

section \<open>Rows and arguments\<close>

record facet_row =
  fr_content :: string
  fr_version :: string
  fr_level :: string
  fr_tiers :: "string list"
  fr_entity :: "string option"
  fr_releases :: "release list"

text \<open>The row that stores an item: its ids and the facet of its rule.\<close>

definition row_of :: "item \<Rightarrow> facet_row" where
  "row_of it = (let fc = rule_facet (it_rule it) in
     \<lparr>fr_content = it_content it, fr_version = it_version it, fr_level = f_level fc,
      fr_tiers = f_tiers fc, fr_entity = f_channel fc, fr_releases = f_releases fc\<rparr>)"

record sql_args =
  sa_tiers :: "string list"
  sa_groups :: "string list"
  sa_versions :: "string list"
  sa_version_contents :: "string list"
  sa_contents_complete :: bool
  sa_groups_complete :: bool

datatype sql_predicate = SqlTrue | SqlHide sql_args

datatype sql_error = BadAlias string | UnknownMode string | BadTierArg string

definition hide_mode :: string where "hide_mode = ''hide''"
definition lock_mode :: string where "lock_mode = ''lock''"

definition alias_re :: "string \<Rightarrow> bool" where
  "alias_re s \<longleftrightarrow> s \<noteq> [] \<and> length s \<le> 63 \<and> (is_lower (hd s) \<or> hd s = CHR ''_'') \<and>
     list_all (\<lambda>c. is_lower c \<or> is_digit c \<or> c = CHR ''_'') (tl s)"

definition filter_args :: "access_filter \<Rightarrow> sql_args" where
  "filter_args f = (let versions = sorted_keys (map fst (fl_versions f)) in
     \<lparr>sa_tiers = filter (filter_tier f) (g_tiers (fl_gate f)),
      sa_groups = filter_channels f,
      sa_versions = versions,
      sa_version_contents = map (\<lambda>v. case map_of (fl_versions f) v of Some c \<Rightarrow> c | None \<Rightarrow> []) versions,
      sa_contents_complete = (fl_anonymous f \<or> fl_contents_complete f),
      sa_groups_complete = (fl_anonymous f \<or> fl_entities_complete f)\<rparr>)"

definition filter_sql :: "access_filter \<Rightarrow> string \<Rightarrow> string \<Rightarrow> (sql_error, sql_predicate) result" where
  "filter_sql f alias mode =
     (if \<not> alias_re alias then Inl (BadAlias alias)
      else if mode = lock_mode then Inr SqlTrue
      else if mode = hide_mode then Inr (SqlHide (filter_args f))
      else Inl (UnknownMode mode))"

section \<open>What the predicates admit\<close>

definition release_due :: "(time \<Rightarrow> time) \<Rightarrow> time \<Rightarrow> release \<Rightarrow> bool" where
  "release_due pg now x \<longleftrightarrow> pg (rel_at x) \<le> now"

definition overlap :: "string list \<Rightarrow> string list \<Rightarrow> bool" where
  "overlap xs ys \<longleftrightarrow> list_ex (\<lambda>x. x \<in> set ys) xs"

definition hide_admits :: "(time \<Rightarrow> time) \<Rightarrow> time \<Rightarrow> sql_args \<Rightarrow> facet_row \<Rightarrow> bool" where
  "hide_admits pg now s row \<longleftrightarrow>
     fr_level row = public_level
     \<or> list_ex (\<lambda>x. release_due pg now x \<and>
          (rel_level x = public_level
           \<or> rel_level x = tier_level \<and> overlap (rel_tiers x) (sa_tiers s)
           \<or> rel_level x = channel_level \<and> rel_channel x \<noteq> [] \<and> rel_channel x \<in> set (sa_groups s)))
         (fr_releases row)
     \<or> fr_level row = tier_level \<and> overlap (fr_tiers row) (sa_tiers s)
     \<or> fr_level row = channel_level \<and>
         (case fr_entity row of Some c \<Rightarrow> c \<in> set (sa_groups s) | None \<Rightarrow> False)
     \<or> (fr_version row, fr_content row) \<in> set (zip (sa_versions s) (sa_version_contents s))
     \<or> \<not> sa_contents_complete s
     \<or> \<not> sa_groups_complete s \<and>
         (fr_level row = channel_level
          \<or> list_ex (\<lambda>x. rel_level x = channel_level \<and> release_due pg now x) (fr_releases row))"

definition sql_admits :: "(time \<Rightarrow> time) \<Rightarrow> time \<Rightarrow> sql_predicate \<Rightarrow> facet_row \<Rightarrow> bool" where
  "sql_admits pg now p row = (case p of SqlTrue \<Rightarrow> True | SqlHide s \<Rightarrow> hide_admits pg now s row)"

definition public_sql :: "(time \<Rightarrow> time) \<Rightarrow> time \<Rightarrow> facet_row \<Rightarrow> bool" where
  "public_sql pg now row \<longleftrightarrow> fr_level row = public_level
     \<or> list_ex (\<lambda>x. rel_level x = public_level \<and> release_due pg now x) (fr_releases row)"

definition released_tiers_sql :: "(time \<Rightarrow> time) \<Rightarrow> time \<Rightarrow> facet_row \<Rightarrow> string list" where
  "released_tiers_sql pg now row = remdups (concat (map rel_tiers
     (filter (\<lambda>x. rel_level x = tier_level \<and> release_due pg now x) (fr_releases row))))"

definition anyone :: string where "anyone = []"

record audience_args =
  aa_all :: "string list"
  aa_tiers :: "string list"

definition audience_tier_checks :: "string list \<Rightarrow> string \<Rightarrow> sql_error option list" where
  "audience_tier_checks before t = [refuse_if (\<not> valid_tier t \<or> t \<in> set before) (BadTierArg t)]"

definition audiences_args :: "string \<Rightarrow> string list \<Rightarrow> (sql_error, audience_args) result" where
  "audiences_args alias ts =
     (if \<not> alias_re alias then Inl (BadAlias alias)
      else guard (scan audience_tier_checks [] ts) \<lparr>aa_all = anyone # ts, aa_tiers = ts\<rparr>)"

definition audiences_sql ::
    "(string list \<Rightarrow> string list) \<Rightarrow> (time \<Rightarrow> time) \<Rightarrow> time \<Rightarrow> audience_args \<Rightarrow> facet_row \<Rightarrow> string list" where
  "audiences_sql collate pg now s row =
     (if public_sql pg now row then aa_all s
      else collate (remdups (filter (\<lambda>t. t \<in> set (aa_tiers s))
        ((if fr_level row = tier_level then fr_tiers row else []) @ released_tiers_sql pg now row))))"

section \<open>Agreement with the gate\<close>

lemma version_rows:
  "(v, c) \<in> set (zip (sa_versions (filter_args f)) (sa_version_contents (filter_args f))) \<longleftrightarrow>
     map_of (fl_versions f) v = Some c"
proof -
  have "v \<in> set (map fst (fl_versions f)) \<longleftrightarrow> map_of (fl_versions f) v \<noteq> None"
    by (simp add: map_of_eq_None_iff)
  moreover have "zip xs (map h xs) = map (\<lambda>x. (x, h x)) xs" for xs and h :: "string \<Rightarrow> string"
    by (induction xs) auto
  ultimately show ?thesis
    by (auto simp: filter_args_def Let_def image_iff split: option.splits)
qed

lemma filter_knowledge_fst: "fst (kn_lookup (filter_knowledge f) k) = fst (filter_lookup f k)"
  using filter_held_known [of f k] by (auto simp: filter_knowledge_lookup)

lemma filter_knowledge_snd: "snd (kn_lookup (filter_knowledge f) k) = snd (filter_lookup f k)"
  by (simp add: filter_knowledge_lookup)

text \<open>What \<open>Filter\<close> returns, as far as its SQL depends on it.\<close>

definition filter_shape :: "gate \<Rightarrow> access_filter \<Rightarrow> bool" where
  "filter_shape g f \<longleftrightarrow> fl_gate f = g \<and>
     (fl_anonymous f \<longrightarrow> fl_tiers f = [] \<and> fl_versions f = [] \<and> fl_entities f = [] \<and> \<not> fl_unknown f) \<and>
     (fl_unknown f \<longrightarrow> fl_contents_complete f \<and> fl_entities_complete f) \<and>
     (\<not> fl_unknown f \<longrightarrow> fl_anonymous f \<or> (\<forall>t \<in> set (g_tiers g). map_of (fl_tiers f) t \<noteq> None))"

lemma gate_filter_shape:
  assumes g: "gate_ok g" and run: "gate_filter g a None = (f, err, qs, m')"
  shows "filter_shape g f"
proof -
  consider "f = anon_filter g" | "f = fst (read_filter g a)"
    using run by (auto simp: gate_filter_def Let_def memo_for_def memo_load_filter_def split: if_splits prod.splits)
  then show ?thesis
  proof cases
    case 1
    then show ?thesis by (simp add: filter_shape_def anon_filter_def empty_filter_def)
  next
    case 2
    note fr = read_filter_frame [OF g, of a]
    have "fl_unknown f \<Longrightarrow> fl_contents_complete f \<and> fl_entities_complete f"
      using fr(5) unfolding 2 by (auto simp: failed_filter_def empty_filter_def)
    then show ?thesis using fr(1,2,4) unfolding 2 filter_shape_def by blast
  qed
qed

lemma lookup_held:
  assumes "filter_shape g f"
  shows "fst (filter_lookup f (version_of g it)) \<longleftrightarrow> map_of (fl_versions f) (it_version it) = Some (it_content it)"
    and "fst (filter_lookup f (channel_of g c)) \<longleftrightarrow> c \<in> set (fl_entities f)"
    and "fst (filter_lookup f (tier_of t)) \<longleftrightarrow> filter_tier f t"
  using assms
  by (auto simp: filter_lookup_def filter_shape_def filter_tier_def Let_def split: option.splits)

lemma lookup_unknown:
  assumes "filter_shape g f" "\<not> fl_unknown f"
  shows "\<not> snd (filter_lookup f (version_of g it)) \<longleftrightarrow>
      \<not> fst (filter_lookup f (version_of g it)) \<and> \<not> sa_contents_complete (filter_args f)"
    and "\<not> snd (filter_lookup f (channel_of g c)) \<longleftrightarrow>
      \<not> fst (filter_lookup f (channel_of g c)) \<and> \<not> sa_groups_complete (filter_args f)"
    and "t \<in> set (g_tiers g) \<Longrightarrow> snd (filter_lookup f (tier_of t))"
  using assms
  by (auto simp: filter_lookup_def filter_shape_def filter_args_def Let_def split: option.splits)

lemma overlap_keys:
  assumes "filter_shape g f"
  shows "overlap ts (sa_tiers (filter_args f)) \<longleftrightarrow>
     (\<exists>t \<in> set ts \<inter> set (g_tiers g). fst (filter_lookup f (tier_of t)))"
  using assms lookup_held(3) [OF assms]
  by (auto simp: overlap_def list_ex_iff filter_args_def Let_def filter_shape_def)

lemma audience_lookup:
  assumes "filter_shape g f"
  shows "(\<exists>k \<in> set (audience_keys g level ts c). fst (filter_lookup f k)) \<longleftrightarrow>
     level = tier_level \<and> overlap ts (sa_tiers (filter_args f)) \<or>
     level = channel_level \<and> c \<in> set (sa_groups (filter_args f))"
  unfolding overlap_keys [OF assms]
  by (auto simp: audience_keys_def lookup_held(2) [OF assms] filter_args_def Let_def filter_channels_def)

lemma audience_unknown:
  assumes "filter_shape g f" "\<not> fl_unknown f"
  shows "(\<exists>k \<in> set (audience_keys g level ts c). \<not> snd (filter_lookup f k)) \<longleftrightarrow>
     level = channel_level \<and> c \<notin> set (sa_groups (filter_args f)) \<and> \<not> sa_groups_complete (filter_args f)"
proof -
  have "c \<in> set (sa_groups (filter_args f)) \<longleftrightarrow> fst (filter_lookup f (channel_of g c))"
    by (simp add: lookup_held(2) [OF assms(1)] filter_args_def Let_def filter_channels_def)
  then show ?thesis
    using lookup_unknown(2,3) [OF assms] by (auto simp: audience_keys_def)
qed

text \<open>The keys that open an item, clause by clause.\<close>

lemma opens_some_key:
  "(\<exists>k \<in> set (plan_opens (spec_plan g it) now). P k) \<longleftrightarrow> P (version_of g it) \<or>
     (\<exists>k \<in> set (audience_keys g (r_level (it_rule it)) (r_tiers (it_rule it)) (r_channel (it_rule it))). P k) \<or>
     (\<exists>x \<in> set (r_releases (it_rule it)). rel_at x \<le> now \<and>
        (\<exists>k \<in> set (audience_keys g (rel_level x) (rel_tiers x) (rel_channel x)). P k))"
  unfolding spec_plan_opens by blast

lemma validate_id_nonempty: "validate_id s = None \<Longrightarrow> s \<noteq> []"
  by (auto dest: validate_id_length)

lemma hide_admits_keys:
  assumes f: "filter_shape g f" and it: "valid_item g it"
    and pg: "\<forall>x \<in> set (r_releases (it_rule it)). pg (rel_at x) = rel_at x"
  shows "hide_admits pg now (filter_args f) (row_of it) \<longleftrightarrow>
     rule_free (it_rule it) now \<or>
     (\<exists>k \<in> set (plan_opens (spec_plan g it) now). fst (filter_lookup f k)) \<or>
     \<not> sa_contents_complete (filter_args f) \<or>
     \<not> sa_groups_complete (filter_args f) \<and>
       (r_level (it_rule it) = channel_level \<or>
        (\<exists>x \<in> set (r_releases (it_rule it)). rel_level x = channel_level \<and> rel_at x \<le> now))"
proof -
  let ?r = "it_rule it" and ?s = "filter_args f"
  have rel: "validate_releases (g_tiers g) ?r = None" and
    ch: "r_level ?r = channel_level \<Longrightarrow> validate_id (r_channel ?r) = None"
    using it by (auto simp: valid_item_def)
  have due: "release_due pg now x \<longleftrightarrow> rel_at x \<le> now" if "x \<in> set (r_releases ?r)" for x
    using pg that by (simp add: release_due_def)
  have ent: "r_level ?r = channel_level \<Longrightarrow> (if r_channel ?r \<noteq> [] then Some (r_channel ?r) else None) = Some (r_channel ?r)"
    using ch validate_id_nonempty by auto
  have chan: "rel_level x = channel_level \<Longrightarrow> rel_channel x \<noteq> []" if "x \<in> set (r_releases ?r)" for x
    using release_fields(3) [OF rel that] validate_id_nonempty by blast
  have ver: "fst (filter_lookup f (version_of g it)) \<longleftrightarrow>
      (it_version it, it_content it) \<in> set (zip (sa_versions ?s) (sa_version_contents ?s))"
    unfolding version_rows lookup_held(1) [OF f] ..
  show ?thesis
    unfolding opens_some_key ver audience_lookup [OF f] hide_admits_def row_of_def Let_def rule_facet_def
      facet_row.simps facet.simps list_ex_iff rule_free_def
    using due ent chan by (auto simp: not_less)
qed

text \<open>
  the SQL of a filter in hide mode admits exactly the rows \<open>Allows\<close> allows or does not
  know, and for a filter of a failed read only the rows it allows. Release times are ones
  the database keeps, and the statement runs at the time of the question.
\<close>

theorem sql_hide_agrees:
  assumes g: "gate_ok g" and run: "gate_filter g a None = (f, err, qs, m')"
    and it: "valid_item g it"
    and pg: "\<forall>x \<in> set (r_releases (it_rule it)). pg (rel_at x) = rel_at x"
    and sql: "filter_sql f alias hide_mode = Inr p"
  shows "sql_admits pg now p (row_of it) =
    (fst (filter_allows f it now) \<or> \<not> snd (filter_allows f it now) \<and> \<not> fl_unknown f)"
proof -
  have f: "filter_shape g f" by (rule gate_filter_shape [OF g run])
  then have fg: "fl_gate f = g" by (simp add: filter_shape_def)
  let ?kn = "filter_knowledge f" and ?p = "spec_plan g it"
  have p: "p = SqlHide (filter_args f)"
    using sql by (auto simp: filter_sql_def hide_mode_def lock_mode_def split: if_splits)
  have plan: "plan_for g it = ?p" "\<not> ip_invalid ?p" "ip_rule ?p = it_rule it"
    using it by (simp_all add: plan_for_def spec_plan_def Let_def)
  have allowed: "fst (filter_allows f it now) \<longleftrightarrow> rule_free (it_rule it) now \<or>
      (\<exists>k \<in> set (plan_opens ?p now). fst (filter_lookup f k))"
    unfolding filter_allows_opens [OF g fg] plan(1) opens_by_def filter_knowledge_fst
    using plan(2,3) by simp
  have known: "\<not> snd (filter_allows f it now) \<longleftrightarrow> \<not> fst (filter_allows f it now) \<and>
      (\<exists>k \<in> set (plan_opens ?p now). \<not> snd (filter_lookup f k))"
    unfolding filter_allows_opens [OF g fg] plan(1) verdict_waits filter_knowledge_snd
    using plan(2) by (auto simp: Let_def filter_empty_conv split: option.splits)
  show ?thesis
  proof (cases "fl_unknown f")
    case True
    then have "sa_contents_complete (filter_args f)" "sa_groups_complete (filter_args f)"
      using f by (auto simp: filter_shape_def filter_args_def Let_def)
    then show ?thesis
      using True allowed by (simp add: p sql_admits_def hide_admits_keys [OF f it pg])
  next
    case False
    have "(\<exists>k \<in> set (plan_opens ?p now). \<not> snd (filter_lookup f k)) \<or> fst (filter_allows f it now) \<longleftrightarrow>
        hide_admits pg now (filter_args f) (row_of it)"
      unfolding hide_admits_keys [OF f it pg] allowed opens_some_key lookup_unknown(1) [OF f False]
        audience_unknown [OF f False] audience_lookup [OF f]
      by blast
    then show ?thesis using False known by (auto simp: p sql_admits_def)
  qed
qed

text \<open>
  the audiences SQL counts a row for are the ones the rule admits without a purchase:
  everybody when the rule is free, else the asked tiers among its audience tiers.
\<close>

theorem audiences_agree:
  assumes ts: "audiences_args alias ts = Inr s" and coll: "\<And>xs. set (collate xs) = set xs"
    and pg: "\<forall>x \<in> set (r_releases (it_rule it)). pg (rel_at x) = rel_at x"
  shows "set (audiences_sql collate pg now s (row_of it)) =
    (if rule_free (it_rule it) now then insert anyone (set ts)
     else set ts \<inter> set (audience_tiers (it_rule it) now))"
proof -
  have s: "aa_all s = anyone # ts" "aa_tiers s = ts"
    using ts by (auto simp: audiences_args_def guard_Inr_iff split: if_splits)
  have due: "release_due pg now x \<longleftrightarrow> rel_at x \<le> now" if "x \<in> set (r_releases (it_rule it))" for x
    using pg that by (simp add: release_due_def)
  have free: "public_sql pg now (row_of it) \<longleftrightarrow> rule_free (it_rule it) now"
    using due by (auto simp: public_sql_def row_of_def Let_def rule_facet_def rule_free_def list_ex_iff not_less)
  have rel: "set (released_tiers_sql pg now (row_of it)) =
      (\<Union>x \<in> {x \<in> set (r_releases (it_rule it)). rel_level x = tier_level \<and> rel_at x \<le> now}. set (rel_tiers x))"
    using due by (auto simp: released_tiers_sql_def row_of_def Let_def rule_facet_def)
  have row: "fr_level (row_of it) = r_level (it_rule it)" "fr_tiers (row_of it) = r_tiers (it_rule it)"
    by (simp_all add: row_of_def Let_def rule_facet_def)
  show ?thesis
    unfolding audiences_sql_def free s
    by (auto simp: coll rel row audience_tiers_def Let_def not_less split: if_splits)
qed

theorem sql_hide_agrees_witness:
  "(\<exists>p. filter_sql (fst (gate_filter silver_gate sample_viewer None)) ''f'' hide_mode = Inr p \<and>
     sql_admits (\<lambda>t. t) 100 p (row_of (sample_item tier_level))) \<and>
   fst (filter_allows (fst (gate_filter silver_gate sample_viewer None)) (sample_item tier_level) 100)"
proof -
  let ?r = "gate_filter silver_gate sample_viewer None"
  have "alias_re ''f''" by code_simp
  then have sql: "filter_sql (fst ?r) ''f'' hide_mode = Inr (SqlHide (filter_args (fst ?r)))"
    by (simp add: filter_sql_def hide_mode_def lock_mode_def)
  have it: "valid_item silver_gate (sample_item tier_level)" by code_simp
  have pg: "\<forall>x \<in> set (r_releases (it_rule (sample_item tier_level))). (\<lambda>t. t) (rel_at x) = rel_at x" by simp
  have allowed: "fst (filter_allows (fst ?r) (sample_item tier_level) 100)" by code_simp
  show ?thesis
    using sql_hide_agrees [OF sample_gate_ok run_of [of ?r, OF refl] it pg sql] allowed sql by auto
qed

theorem audiences_agree_witness:
  "(\<exists>s. audiences_args ''f'' [''silver''] = Inr s \<and>
     set (audiences_sql (\<lambda>xs. xs) (\<lambda>t. t) 100 s (row_of (sample_item tier_level))) = {''silver''})"
proof -
  have args: "audiences_args ''f'' [''silver''] = Inr \<lparr>aa_all = [anyone, ''silver''], aa_tiers = [''silver'']\<rparr>"
    by code_simp
  have pg: "\<forall>x \<in> set (r_releases (it_rule (sample_item tier_level))). (\<lambda>t. t) (rel_at x) = rel_at x" by simp
  have "\<not> rule_free (it_rule (sample_item tier_level)) 100"
    "set (audience_tiers (it_rule (sample_item tier_level)) 100) = {''gold'', ''silver''}"
    by code_simp+
  then show ?thesis
    using audiences_agree [where collate = "\<lambda>xs. xs" and now = 100, OF args _ pg] args by auto
qed

end
