(* ===== verification/Content_Urls.thy ===== *)
theory Content_Urls
  imports Registry_Props
begin

text \<open>
  Packages \<open>contenturl\<close> and \<open>internal/urlstore\<close>: a link's slug, routes, content paths, the
  canonical path of a link, and the router that decides on a request, answers the lookup of
  a code and of aliases. The tenant of a link is its store's. The database is the store's
  rows, with a flag for a query that fails; the host's visibility is a parameter.
\<close>

section \<open>Paths\<close>

definition slug_for :: "link \<Rightarrow> string \<Rightarrow> string" where
  "slug_for l language =
     (case map_of (ln_slugs l) language of
        Some s \<Rightarrow> if s \<noteq> [] then s else ln_slug l
      | None \<Rightarrow> ln_slug l)"

definition segment_re :: "string \<Rightarrow> bool" where
  "segment_re s \<longleftrightarrow> s \<noteq> [] \<and> slug_byte (hd s) \<and>
     list_all (\<lambda>c. slug_byte c \<or> c = CHR ''_'' \<or> c = CHR ''-'') (tl s)"

type_synonym routes = "(string \<times> string) list"

datatype url_error =
    RoutesEmpty
  | BadRoute string string
  | BadLanguage string
  | LanguageIsRoute string
  | StoreRequired
  | LanguagesRequired
  | BadBaseURL string
  | OtherTenant string
  | BadRef ref_error
  | NamesVersion
  | CodesError code_error
  | QueryFailed
  | HostFailed
  | VerdictCount nat nat

definition validate_routes :: "routes \<Rightarrow> string list \<Rightarrow> url_error option" where
  "validate_routes rs languages = first_error
     (refuse_if (rs = []) RoutesEmpty #
      map (\<lambda>(kind, route). refuse_if (trim_space kind = [] \<or> \<not> segment_re route) (BadRoute route kind)) rs @
      concat (map (\<lambda>l. [refuse_if (\<not> segment_re l) (BadLanguage l),
        refuse_if (l \<in> set (map snd rs)) (LanguageIsRoute l)]) languages))"

definition has_route :: "routes \<Rightarrow> string \<Rightarrow> bool" where
  "has_route rs route \<longleftrightarrow> list_ex (\<lambda>kv. snd kv = route) rs"

definition accept_tag :: "(string \<Rightarrow> string) \<Rightarrow> string \<Rightarrow> string" where
  "accept_tag uni part = to_lower uni (fst (str_cut (CHR '';'') (trim_space part)))"

definition accept_language :: "(string \<Rightarrow> string) \<Rightarrow> string list \<Rightarrow> string \<Rightarrow> string" where
  "accept_language uni languages header =
     (case concat (map (\<lambda>part. filter
          (\<lambda>l. accept_tag uni part = l \<or> has_prefix (l @ ''-'') (accept_tag uni part)) languages)
        (split_on (CHR '','') header)) of
        l # _ \<Rightarrow> l | [] \<Rightarrow> [])"

record parsed =
  pd_language :: string
  pd_route :: string
  pd_code :: string
  pd_raw :: string
  pd_slug :: string

definition parse_segments :: "string list \<Rightarrow> routes \<Rightarrow> string list \<Rightarrow> parsed option" where
  "parse_segments segs rs languages =
     (let (lang, segs) =
        (if length segs > 2 \<and> hd segs \<in> set languages then (hd segs, tl segs) else ([], segs));
        segs = (if lang = [] \<and> length segs > 2 \<and> \<not> has_route rs (hd segs) \<and> has_route rs (segs ! 1)
          then tl segs else segs)
      in if length segs < 2 \<or> \<not> has_route rs (hd segs) then None
         else case parse_code (segs ! 1) of
           None \<Rightarrow> None
         | Some code \<Rightarrow> Some \<lparr>pd_language = lang, pd_route = hd segs, pd_code = code,
             pd_raw = segs ! 1, pd_slug = join ''/'' (drop 2 segs)\<rparr>)"

definition parse_path :: "string \<Rightarrow> routes \<Rightarrow> string list \<Rightarrow> parsed option" where
  "parse_path path rs languages =
     (case cut_prefix ''/'' path of
        None \<Rightarrow> None
      | Some rest \<Rightarrow>
          (let segs = split_on (CHR ''/'') (trim_suffix ''/'' rest)
           in if [] \<in> set segs then None else parse_segments segs rs languages))"

definition url_prefix :: "string list \<Rightarrow> string \<Rightarrow> string" where
  "url_prefix languages language =
     (if language = [] \<and> languages \<noteq> [] then hd languages else language)"

definition url_path :: "string list \<Rightarrow> string \<Rightarrow> string \<Rightarrow> string \<Rightarrow> string \<Rightarrow> string" where
  "url_path languages language route code slug =
     (let l = url_prefix languages language
      in (if l \<noteq> [] then ''/'' @ l else []) @ ''/'' @ route @ ''/'' @ code @
         (if slug \<noteq> [] then ''/'' @ slug else []))"

definition canonical_path :: "routes \<Rightarrow> string list \<Rightarrow> string \<Rightarrow> link \<Rightarrow> string option" where
  "canonical_path rs languages language l =
     (case map_of rs (ln_kind l) of
        None \<Rightarrow> None
      | Some route \<Rightarrow>
          (let language = url_prefix languages language
           in Some (url_path languages language route (ln_code l) (slug_for l language))))"

definition versioned :: "string \<Rightarrow> string \<Rightarrow> string" where
  "versioned path code =
     (if code = [] then path
      else path @ (if CHR ''?'' \<in> set path then ''&'' else ''?'') @ ''v='' @ code)"

section \<open>The store\<close>

record url_store =
  us_tenant :: string
  us_registry :: registry
  us_aliases :: alias_table
  us_versions :: "string \<times> string \<Rightarrow> string option"
  us_down :: bool
  us_versions_down :: bool

definition store_ref :: "url_store \<Rightarrow> content_ref \<Rightarrow> (url_error, content_id) result" where
  "store_ref st r =
     (if tenant_id r \<noteq> us_tenant st then Inl (OtherTenant (tenant_id r))
      else case validate_ref r of
        Some e \<Rightarrow> Inl (BadRef e)
      | None \<Rightarrow> if content_version_id r \<noteq> None then Inl NamesVersion
          else Inr (content_kind r, content_id r))"

definition store_resolve :: "url_store \<Rightarrow> string list \<Rightarrow> (url_error, (string \<times> link) list) result" where
  "store_resolve st cs =
     (if list_all canonical_code cs \<and> cs \<noteq> [] \<and> us_down st then Inl QueryFailed
      else case resolve_codes (us_registry st) cs of Inl e \<Rightarrow> Inl (CodesError e) | Inr out \<Rightarrow> Inr out)"

text \<open>The joined rows of registered content, which the links follow further when they redirect.\<close>

definition link_rows :: "registry \<Rightarrow> content_id list \<Rightarrow> (content_id \<times> code_row) list" where
  "link_rows reg ks = concat (map (\<lambda>k. case row_of_key reg k of
       None \<Rightarrow> []
     | Some c \<Rightarrow> (case row_of_code reg (if cr_merged c \<noteq> [] then cr_merged c else cr_code c) of
         None \<Rightarrow> [] | Some t \<Rightarrow> [(k, t)])) ks)"

definition store_links ::
    "url_store \<Rightarrow> content_id list \<Rightarrow> (url_error, (content_id \<times> link) list) result" where
  "store_links st ks =
     (if ks = [] then Inr []
      else if us_down st then Inl QueryFailed
      else let rows = link_rows (us_registry st) ks;
          chained = filter (\<lambda>kt. cr_merged (snd kt) \<noteq> []) rows
        in if chained = [] then Inr (map (\<lambda>(k, t). (k, link_of t)) rows)
           else bindr (store_resolve st (map (\<lambda>(k, t). cr_merged t) chained))
             (\<lambda>survivors. Inr (map (\<lambda>(k, t). (k,
                case (if cr_merged t = [] then None else map_of survivors (cr_merged t)) of
                  Some l \<Rightarrow> l | None \<Rightarrow> link_of t)) rows)))"

definition links_of_refs ::
    "url_store \<Rightarrow> content_ref list \<Rightarrow> (url_error, (content_key \<times> link) list) result" where
  "links_of_refs st refs =
     bindr (fold_result (\<lambda>r ks. bindr (store_ref st (ref_content r)) (\<lambda>k. Inr (ks @ [k]))) refs [])
       (\<lambda>ks. bindr (store_links st ks)
         (\<lambda>got. Inr (concat (map (\<lambda>r. case map_of got (content_kind r, content_id r) of
            Some l \<Rightarrow> [(ref_key r, l)] | None \<Rightarrow> []) refs))))"

definition store_versions ::
    "url_store \<Rightarrow> (string \<times> string) list \<Rightarrow> (url_error, ((string \<times> string) \<times> string) list) result" where
  "store_versions st ks =
     (if ks = [] then Inr []
      else if us_versions_down st then Inl QueryFailed
      else Inr (concat (map (\<lambda>k. case us_versions st k of Some v \<Rightarrow> [(k, v)] | None \<Rightarrow> []) ks)))"

text \<open>Each alias with the link and the locator it names; \<open>None\<close> when it is not registered.\<close>

definition store_resolve_aliases ::
    "url_store \<Rightarrow> alias_key list \<Rightarrow> (url_error, (link \<times> string) option list) result" where
  "store_resolve_aliases st ks =
     (if ks = [] then Inr []
      else case first_error (map valid_alias ks) of
        Some e \<Rightarrow> Inl (CodesError e)
      | None \<Rightarrow>
          if us_down st then Inl QueryFailed
          else let hits = map (\<lambda>k. map_of (us_aliases st) k) ks;
              found = concat (map (\<lambda>h. case h of Some (c, _) \<Rightarrow> [c] | None \<Rightarrow> []) hits)
            in if found = [] then Inr (map (\<lambda>_. None) ks)
               else bindr (store_resolve st found)
                 (\<lambda>links. Inr (map (\<lambda>h. case h of
                    None \<Rightarrow> None
                  | Some (c, locator) \<Rightarrow> map_option (\<lambda>l. (l, locator)) (map_of links c)) hits)))"

section \<open>The router\<close>

datatype visibility = Hidden | Visible | Gone | Preview

text \<open>What the router reads of a request, and its options.\<close>

record url_request =
  ur_method :: string
  ur_path :: string
  ur_query :: string
  ur_accept :: string

record router_options =
  ro_routes :: routes
  ro_languages :: "string list"
  ro_base :: string
  ro_visibility :: "(url_request \<Rightarrow> link list \<Rightarrow> visibility list option) option"

record router =
  rt_store :: url_store
  rt_opts :: router_options

definition new_router :: "url_store option \<Rightarrow> router_options \<Rightarrow> (url_error, router) result" where
  "new_router store opts =
     (case store of
        None \<Rightarrow> Inl StoreRequired
      | Some st \<Rightarrow>
          if ro_languages opts = [] then Inl LanguagesRequired
          else case validate_routes (ro_routes opts) (ro_languages opts) of
            Some e \<Rightarrow> Inl e
          | None \<Rightarrow>
              (let base = trim_suffix ''/'' (ro_base opts)
               in if base \<noteq> [] \<and> \<not> has_prefix ''https://'' base \<and> \<not> has_prefix ''http://'' base
                  then Inl (BadBaseURL base)
                  else Inr \<lparr>rt_store = st, rt_opts = opts\<lparr>ro_base := base\<rparr>\<rparr>))"

definition router_path :: "router \<Rightarrow> link \<Rightarrow> string \<Rightarrow> string option" where
  "router_path rt l language = canonical_path (ro_routes (rt_opts rt)) (ro_languages (rt_opts rt)) language l"

definition verdicts ::
    "router \<Rightarrow> url_request \<Rightarrow> link list \<Rightarrow> (url_error, visibility list) result" where
  "verdicts rt req links =
     (case ro_visibility (rt_opts rt) of
        None \<Rightarrow> Inr (map (\<lambda>_. Visible) links)
      | Some host \<Rightarrow>
          if links = [] then Inr []
          else case host req links of
            None \<Rightarrow> Inl HostFailed
          | Some v \<Rightarrow> if length v \<noteq> length links then Inl (VerdictCount (length v) (length links)) else Inr v)"

record decision_url =
  de_matched :: bool
  de_gone :: bool
  de_redirect :: bool
  de_private :: bool
  de_link :: "link option"
  de_language :: string
  de_path :: string
  de_location :: string

definition no_decision :: decision_url where
  "no_decision = \<lparr>de_matched = False, de_gone = False, de_redirect = False, de_private = False,
     de_link = None, de_language = [], de_path = [], de_location = []\<rparr>"

definition decide_link ::
    "router \<Rightarrow> url_request \<Rightarrow> link \<Rightarrow> string \<Rightarrow> (url_error, decision_url) result" where
  "decide_link rt req l language =
     (case router_path rt l language of
        None \<Rightarrow> Inr no_decision
      | Some path \<Rightarrow> bindr (verdicts rt req [l])
          (\<lambda>v. Inr (case hd v of
             Gone \<Rightarrow> no_decision\<lparr>de_gone := True\<rparr>
           | Hidden \<Rightarrow> no_decision
           | _ \<Rightarrow> no_decision\<lparr>de_matched := True, de_private := (hd v = Preview), de_link := Some l,
               de_language := language, de_path := path, de_location := path\<rparr>)))"

definition router_decide ::
    "(string \<Rightarrow> string) \<Rightarrow> router \<Rightarrow> url_request \<Rightarrow> (url_error, decision_url) result" where
  "router_decide uni rt req =
     (let opts = rt_opts rt
      in case parse_path (ur_path req) (ro_routes opts) (ro_languages opts) of
        None \<Rightarrow> Inr no_decision
      | Some p \<Rightarrow> bindr (store_resolve (rt_store rt) [pd_code p])
          (\<lambda>links. case map_of links (pd_code p) of
             None \<Rightarrow> Inr no_decision
           | Some l \<Rightarrow>
               (let language = (if pd_language p = []
                   then url_prefix (ro_languages opts) (accept_language uni (ro_languages opts) (ur_accept req))
                   else pd_language p)
                in bindr (decide_link rt req l language)
                  (\<lambda>d. Inr (if \<not> de_matched d then d
                     else d\<lparr>de_location := de_location d @ (if ur_query req \<noteq> [] then ''?'' @ ur_query req else []),
                       de_redirect := (ur_path req \<noteq> de_path d)\<rparr>)))))"

text \<open>What \<open>Middleware\<close> does with a request. A private response is never cached or indexed.\<close>

datatype routed =
    PassThrough
  | InternalError
  | AnswerGone
  | Redirected string bool
  | Serve decision_url bool "string option"

definition middleware :: "(string \<Rightarrow> string) \<Rightarrow> router \<Rightarrow> url_request \<Rightarrow> routed" where
  "middleware uni rt req =
     (if ur_method req \<noteq> ''GET'' \<and> ur_method req \<noteq> ''HEAD'' then PassThrough
      else case router_decide uni rt req of
        Inl _ \<Rightarrow> InternalError
      | Inr d \<Rightarrow>
          if de_gone d then AnswerGone
          else if \<not> de_matched d then PassThrough
          else if de_redirect d then Redirected (de_location d) (de_private d)
          else Serve d (de_private d)
            (let base = ro_base (rt_opts rt) in if base \<noteq> []
             then Some (''<'' @ base @ de_path d @ ''>; rel='' @ [CHR 0x22] @ ''canonical'' @ [CHR 0x22]) else None))"

section \<open>Lookups of codes and aliases\<close>

record url_resolved =
  re_link :: link
  re_path :: string
  re_version :: string

datatype 'a lookup = BadRequest string | NotFound | GoneAway | Failure | Found 'a bool

definition opt_path :: "string option \<Rightarrow> string" where
  "opt_path p = (case p of None \<Rightarrow> [] | Some s \<Rightarrow> s)"

text \<open>The codes route: the code of the path, the parameters \<open>lang\<close> and \<open>v\<close>.\<close>

definition resolve_version ::
    "router \<Rightarrow> link \<Rightarrow> string \<Rightarrow> (url_error, string) result" where
  "resolve_version rt l v =
     (case parse_version_code v of
        None \<Rightarrow> Inr []
      | Some vc \<Rightarrow> bindr (store_versions (rt_store rt) [(ln_id l, vc)])
          (\<lambda>ids. Inr (opt_path (map_of ids (ln_id l, vc)))))"

definition lookup_code ::
    "router \<Rightarrow> url_request \<Rightarrow> string \<Rightarrow> string \<Rightarrow> string \<Rightarrow> url_resolved lookup" where
  "lookup_code rt req raw lang v =
     (case parse_code raw of
        None \<Rightarrow> BadRequest ''not a content code''
      | Some code \<Rightarrow>
          if lang \<noteq> [] \<and> lang \<notin> set (ro_languages (rt_opts rt)) then BadRequest ''unknown language''
          else case store_resolve (rt_store rt) [code] of
            Inl _ \<Rightarrow> Failure
          | Inr links \<Rightarrow>
              (case map_of links code of
                 None \<Rightarrow> NotFound
               | Some l \<Rightarrow>
                   (case verdicts rt req [l] of
                      Inl _ \<Rightarrow> Failure
                    | Inr vs \<Rightarrow>
                        if hd vs = Hidden then NotFound
                        else if hd vs = Gone then GoneAway
                        else case resolve_version rt l v of
                          Inl _ \<Rightarrow> Failure
                        | Inr version \<Rightarrow> Found \<lparr>re_link = l, re_path = opt_path (router_path rt l lang),
                            re_version = version\<rparr> (hd vs = Preview))))"

datatype alias_status = AliasFound | AliasNotFound | AliasGone

record alias_result =
  ar_key :: alias_key
  ar_status :: alias_status
  ar_resolved :: "url_resolved option"
  ar_locator :: string

text \<open>The verdicts are consumed in the order of the aliases that matched.\<close>

fun alias_results ::
    "router \<Rightarrow> string \<Rightarrow> alias_key list \<Rightarrow> (link \<times> string) option list \<Rightarrow> visibility list \<Rightarrow> alias_result list" where
  "alias_results rt language (k # ks) (None # ms) vs =
     \<lparr>ar_key = k, ar_status = AliasNotFound, ar_resolved = None, ar_locator = []\<rparr> #
     alias_results rt language ks ms vs"
| "alias_results rt language (k # ks) (Some (l, locator) # ms) vs =
     (if hd vs = Visible
      then \<lparr>ar_key = k, ar_status = AliasFound, ar_resolved =
          Some \<lparr>re_link = l, re_path = opt_path (router_path rt l language), re_version = []\<rparr>,
          ar_locator = locator\<rparr>
      else \<lparr>ar_key = k, ar_status = (if hd vs = Gone then AliasGone else AliasNotFound),
          ar_resolved = None, ar_locator = []\<rparr>) #
     alias_results rt language ks ms (tl vs)"
| "alias_results rt language _ _ vs = []"

definition resolve_aliases ::
    "router \<Rightarrow> url_request \<Rightarrow> alias_key list \<Rightarrow> string \<Rightarrow> (url_error, alias_result list) result" where
  "resolve_aliases rt req ks language =
     bindr (store_resolve_aliases (rt_store rt) ks)
       (\<lambda>ms. bindr (verdicts rt req (map fst (concat (map (\<lambda>m. case m of Some x \<Rightarrow> [x] | None \<Rightarrow> []) ms))))
         (\<lambda>vs. Inr (alias_results rt language ks ms vs)))"

definition max_aliases :: nat where "max_aliases = 100"

text \<open>The aliases route; \<open>body\<close> is what the JSON decoder makes of the request's body.\<close>

definition lookup_aliases ::
    "router \<Rightarrow> url_request \<Rightarrow> string \<Rightarrow> (string, alias_key list) result \<Rightarrow> alias_result list lookup" where
  "lookup_aliases rt req lang body =
     (if lang \<noteq> [] \<and> lang \<notin> set (ro_languages (rt_opts rt)) then BadRequest ''unknown language''
      else case body of
        Inl e \<Rightarrow> BadRequest e
      | Inr ks \<Rightarrow>
          if length ks > max_aliases then BadRequest ''at most 100 aliases''
          else case resolve_aliases rt req ks lang of
            Inr out \<Rightarrow> Found out False
          | Inl (CodesError TooManyRedirects) \<Rightarrow> Failure
          | Inl (CodesError _) \<Rightarrow> BadRequest ''invalid alias''
          | Inl _ \<Rightarrow> Failure)"

end
