(* ===== verification/Url_Props.thy ===== *)
theory Url_Props
  imports Content_Urls
begin

text \<open>
  What the router guarantees: a canonical path is read back, redirects end after one step and
  stay on the site, and content that is hidden cannot be told from content that does not
  exist.
\<close>

declare resolve_hops.simps [simp del]

section \<open>Slugs of the registry\<close>

definition slugs_ok :: "registry \<Rightarrow> bool" where
  "slugs_ok reg \<longleftrightarrow> (\<forall>r \<in> set reg. valid_path (cr_slug r) \<and> list_all (\<lambda>ls. valid_path (snd ls)) (cr_slugs r))"

definition entry_ok :: "code_entry \<Rightarrow> bool" where
  "entry_ok e \<longleftrightarrow> valid_path (ce_slug e) \<and>
     (case ce_slugs e of None \<Rightarrow> True | Some ss \<Rightarrow> list_all (\<lambda>ls. valid_path (snd ls)) ss)"

lemma valid_path_Nil [simp]: "valid_path []"
  by (simp add: valid_path_def)

lemma set_update_subset: "set (AList.update k v al) \<subseteq> insert (k, v) (set al)"
  by (induction al) auto

lemma list_all_update: "list_all P al \<Longrightarrow> P (k, v) \<Longrightarrow> list_all P (AList.update k v al)"
  by (induction al) auto

lemma check_slugs_valid:
  "fold_result (check_slug_entry uni) ss acc = Inr acc' \<Longrightarrow> list_all (\<lambda>ls. valid_path (snd ls)) acc \<Longrightarrow>
   list_all (\<lambda>ls. valid_path (snd ls)) acc'"
proof (induction ss arbitrary: acc)
  case (Cons s ss)
  obtain acc1 where a: "check_slug_entry uni s acc = Inr acc1"
      "fold_result (check_slug_entry uni) ss acc1 = Inr acc'"
    using Cons.prems(1) by (auto simp: bindr_Inr_iff)
  have "list_all (\<lambda>ls. valid_path (snd ls)) acc1"
    using a(1) Cons.prems(2)
    by (auto simp: check_slug_entry_def bindr_Inr_iff list_all_update split: if_splits)
  then show ?case using Cons.IH [OF a(2)] by blast
qed simp

lemma check_entry_slugs:
  assumes "check_entry uni e p = Inr p'" and "\<forall>ke \<in> set p. entry_ok (snd ke)"
  shows "\<forall>ke \<in> set p'. entry_ok (snd ke)"
proof -
  obtain ss where p': "p' = AList.update (ce_key e) (e\<lparr>ce_slugs := ss\<rparr>) p"
    and e: "valid_path (ce_slug e)" and ss: "case ss of None \<Rightarrow> True | Some s \<Rightarrow> list_all (\<lambda>ls. valid_path (snd ls)) s"
    using assms(1)
    by (auto simp: check_entry_def bindr_Inr_iff check_slugs_valid split: prod.splits if_splits option.splits)
  have "entry_ok (e\<lparr>ce_slugs := ss\<rparr>)" using e ss by (simp add: entry_ok_def)
  then show ?thesis using assms(2) set_update_subset [of "ce_key e" "e\<lparr>ce_slugs := ss\<rparr>" p] p' by auto
qed

lemma put_batch_slugs:
  "put_batch gen n es reg = (reg', n', got) \<Longrightarrow> \<forall>e \<in> set es. entry_ok e \<Longrightarrow> slugs_ok reg \<Longrightarrow> slugs_ok reg'"
proof (induction es arbitrary: n reg reg' n' got)
  case (Cons e es)
  have e: "entry_ok e" and es: "\<forall>x \<in> set es. entry_ok x" using Cons.prems(2) by simp_all
  from Cons.prems(1) show ?case
  proof (cases rule: put_batch_Cons)
    case (update r got')
    have "slugs_ok (update_rows e reg)"
      using e Cons.prems(3) by (auto simp: slugs_ok_def entry_ok_def update_row_def split: option.splits)
    then show ?thesis using Cons.IH [OF update(3) es] by blast
  next
    case clash
    then show ?thesis using Cons.IH [OF clash(3) es] Cons.prems(3) by blast
  next
    case (insert got')
    have "slugs_ok (reg @ [insert_row e (gen n)])"
      using e Cons.prems(3) by (auto simp: slugs_ok_def entry_ok_def insert_row_def split: option.splits)
    then show ?thesis using Cons.IH [OF insert(4) es] by blast
  qed
qed simp

lemma put_loop_slugs:
  "put_loop fuel gen n p reg out = Inr (reg', out') \<Longrightarrow> \<forall>ke \<in> set p. entry_ok (snd ke) \<Longrightarrow>
   slugs_ok reg \<Longrightarrow> slugs_ok reg'"
proof (induction fuel arbitrary: n p reg out)
  case 0
  then show ?case by (auto split: if_splits)
next
  case (Suc fuel)
  show ?case
  proof (cases "p = []")
    case False
    obtain reg1 n1 got where b: "put_batch gen n (map snd p) reg = (reg1, n1, got)"
      by (metis prod_cases3)
    have "\<forall>e \<in> set (map snd p). entry_ok e" using Suc.prems(2) by auto
    then have ok: "slugs_ok reg1" using put_batch_slugs [OF b] Suc.prems(3) by blast
    have run: "put_loop fuel gen n1 (filter (\<lambda>ke. fst ke \<notin> set (map fst got)) p) reg1 (got @ out) =
        Inr (reg', out')" using Suc.prems(1) b False by simp
    have es: "\<forall>ke \<in> set (filter (\<lambda>ke. fst ke \<notin> set (map fst got)) p). entry_ok (snd ke)"
      using Suc.prems(2) by simp
    show ?thesis by (rule Suc.IH [OF run es ok])
  qed (use Suc.prems in simp)
qed

lemma reserve_one_slugs: "slugs_ok reg \<Longrightarrow> slugs_ok (reserve_one kc reg)"
  by (simp add: slugs_ok_def reserve_one_def ball_Un)

lemma fold_reserve_slugs: "slugs_ok reg \<Longrightarrow> slugs_ok (fold reserve_one keep reg)"
  by (induction keep arbitrary: reg) (simp_all add: reserve_one_slugs)

lemma registry_step_slugs: "registry_step uni reg reg' \<Longrightarrow> slugs_ok reg \<Longrightarrow> slugs_ok reg'"
proof (induction rule: registry_step.induct)
  case (step_put gen entries reg reg' out)
  obtain p where p: "fold_result (check_entry uni) entries [] = Inr p"
      "put_loop put_attempts gen 0 p reg [] = Inr (reg', out)"
    using step_put(2) by (auto simp: put_codes_def bindr_Inr_iff)
  have "\<forall>ke \<in> set p. entry_ok (snd ke)"
  proof (rule fold_result_invariant [OF p(1), where I = "\<lambda>p. \<forall>ke \<in> set p. entry_ok (snd ke)"])
    show "\<forall>ke \<in> set s'. entry_ok (snd ke)"
      if "\<forall>ke \<in> set s. entry_ok (snd ke)" "check_entry uni e s = Inr s'" for e s s'
      by (rule check_entry_slugs [OF that(2,1)])
  qed simp
  then show ?case using put_loop_slugs [OF p(2)] step_put(3) by blast
next
  case (step_reserve keep reg reg')
  then show ?case
    by (auto simp: reserve_codes_def Let_def fold_reserve_slugs split: option.splits if_splits)
next
  case (step_merge src into reg reg')
  from step_merge(1) show ?case
  proof (cases rule: merge_codes_elim)
    case (1 s d)
    then show ?thesis using step_merge(2) by (auto simp: slugs_ok_def redirected_def)
  qed
qed

lemma reachable_ok:
  "reachable uni [] reg \<Longrightarrow> registry_ok reg \<and> slugs_ok reg"
proof (induction rule: reachable.induct)
  case reach_refl
  show ?case by (simp add: registry_ok_def slugs_ok_def)
next
  case (reach_step reg' reg'')
  then show ?case using registry_step_ok registry_step_slugs by blast
qed

section \<open>Canonical paths\<close>

definition segment :: "string \<Rightarrow> bool" where
  "segment s \<longleftrightarrow> s \<noteq> [] \<and> CHR ''/'' \<notin> set s"

lemma slug_byte_slash [simp]: "\<not> slug_byte (CHR ''/'')"
  by (simp add: slug_byte_range)

lemma segment_re_segment: "segment_re s \<Longrightarrow> segment s"
  by (cases s) (auto simp: segment_re_def segment_def list_all_iff)

lemma valid_code_segment: "valid_code c \<Longrightarrow> segment c"
proof -
  assume c: "valid_code c"
  have "CHR ''/'' \<notin> set alphabet" by code_simp
  then show ?thesis using c valid_code_ne [OF c] by (auto simp: segment_def valid_code_def list_all_iff)
qed

lemma valid_path_segments:
  assumes "valid_path s" and "s \<noteq> []"
  shows "\<forall>w \<in> set (split_on (CHR ''/'') s). segment w"
proof
  fix w assume w: "w \<in> set (split_on (CHR ''/'') s)"
  then have "w \<noteq> []" using assms by (auto simp: valid_path_def list_all_iff Let_def)
  then show "segment w" using split_on_parts [OF w] by (simp add: segment_def)
qed

lemma last_join: "xs \<noteq> [] \<Longrightarrow> last xs \<noteq> [] \<Longrightarrow> last (join sep xs) = last (last xs)"
proof (induction sep xs rule: join.induct)
  case (3 sep x y ys)
  then have "last (join sep (y # ys)) = last (last (y # ys))" by simp
  moreover have "join sep (y # ys) \<noteq> []"
    using 3(3) by (induction ys arbitrary: y) (auto split: if_splits)
  ultimately show ?case by simp
qed auto

lemma trim_suffix_last: "s \<noteq> [] \<Longrightarrow> last s \<noteq> c \<Longrightarrow> trim_suffix [c] s = s"
  by (cases s rule: rev_cases) (auto simp: trim_suffix_def has_suffix_def)

lemma read_segments:
  assumes "xs \<noteq> []" and "\<forall>x \<in> set xs. segment x"
  shows "parse_path (''/'' @ join ''/'' xs) rs languages = parse_segments xs rs languages"
proof -
  have l: "last xs \<noteq> []" "last (last xs) \<noteq> CHR ''/''"
    using assms(2) last_in_set [OF assms(1)] by (metis last_in_set segment_def)+
  then have j: "last (join ''/'' xs) \<noteq> CHR ''/''" using assms(1) by (simp add: last_join)
  have "join ''/'' xs \<noteq> []"
    using assms by (cases "(''/'', xs)" rule: join.cases) (auto simp: segment_def)
  then have "trim_suffix ''/'' (join ''/'' xs) = join ''/'' xs" using j by (rule trim_suffix_last)
  moreover have "split_on (CHR ''/'') (join ''/'' xs) = xs"
    by (rule split_on_join) (use assms in \<open>auto simp: segment_def\<close>)
  moreover have "[] \<notin> set xs" using assms(2) by (auto simp: segment_def)
  moreover have "cut_prefix ''/'' (''/'' @ join ''/'' xs) = Some (join ''/'' xs)"
    by (simp only: cut_prefix_Some)
  ultimately show ?thesis by (simp add: parse_path_def)
qed

text \<open>The segments of a canonical path.\<close>

definition path_segments :: "string \<Rightarrow> string \<Rightarrow> string \<Rightarrow> string \<Rightarrow> string list" where
  "path_segments l route code slug = l # route # code # (if slug = [] then [] else split_on (CHR ''/'') slug)"

lemma url_path_segments:
  assumes "url_prefix languages language = l" and "l \<noteq> []"
  shows "url_path languages language route code slug = ''/'' @ join ''/'' (path_segments l route code slug)"
proof (cases "slug = []")
  case True
  then show ?thesis using assms by (simp add: url_path_def path_segments_def)
next
  case False
  have "join ''/'' (path_segments l route code slug) =
      l @ ''/'' @ route @ ''/'' @ code @ ''/'' @ join ''/'' (split_on (CHR ''/'') slug)"
    using False by (simp add: path_segments_def join_Cons)
  then show ?thesis using assms False by (simp add: url_path_def)
qed

lemma parse_canonical_segments:
  assumes l: "l \<in> set languages" "l \<noteq> []" and r: "has_route rs route" and c: "valid_code code"
  shows "parse_segments (path_segments l route code slug) rs languages =
    Some \<lparr>pd_language = l, pd_route = route, pd_code = code, pd_raw = code, pd_slug = slug\<rparr>"
proof -
  have "parse_code code = Some code" by (rule code_format.parse_render [OF c])
  then show ?thesis
    using l r by (simp add: parse_segments_def path_segments_def)
qed

text \<open>What validation gives.\<close>

lemma validate_routes_ok:
  assumes "validate_routes rs languages = None"
  shows "\<forall>l \<in> set languages. segment_re l \<and> \<not> has_route rs l" and "\<forall>kv \<in> set rs. segment_re (snd kv)"
proof -
  note n = assms [unfolded validate_routes_def first_error_None_all]
  show "\<forall>kv \<in> set rs. segment_re (snd kv)"
    using n by (simp add: list.pred_map comp_def split_beta) (simp add: list_all_iff)
  show "\<forall>l \<in> set languages. segment_re l \<and> \<not> has_route rs l"
  proof
    fix l assume "l \<in> set languages"
    then have "list_all no_error [refuse_if (\<not> segment_re l) (BadLanguage l),
        refuse_if (l \<in> set (map snd rs)) (LanguageIsRoute l)]"
      using n by (simp add: list_all_iff ball_Un)
    then show "segment_re l \<and> \<not> has_route rs l" by (auto simp: has_route_def list_ex_iff)
  qed
qed

lemma route_known: "map_of rs k = Some route \<Longrightarrow> has_route rs route"
  unfolding has_route_def list_ex_iff by (metis map_of_SomeD snd_conv)

definition link_ok :: "link \<Rightarrow> bool" where
  "link_ok l \<longleftrightarrow> valid_code (ln_code l) \<and> valid_path (ln_slug l) \<and> list_all (\<lambda>ls. valid_path (snd ls)) (ln_slugs l)"

lemma slug_for_valid: "link_ok l \<Longrightarrow> valid_path (slug_for l language)"
  by (auto simp: link_ok_def slug_for_def list_all_iff split: option.splits dest!: map_of_SomeD)

lemma url_prefix_in:
  "languages \<noteq> [] \<Longrightarrow> language \<in> insert [] (set languages) \<Longrightarrow> url_prefix languages language \<in> set languages"
  by (auto simp: url_prefix_def)

lemma url_prefix_idem: "url_prefix languages (url_prefix languages language) = url_prefix languages language"
  by (simp add: url_prefix_def)

lemma canonical_segments:
  assumes v: "validate_routes rs languages = None" "languages \<noteq> []"
    and lang: "language \<in> insert [] (set languages)" and l: "link_ok l"
    and k: "map_of rs (ln_kind l) = Some route"
  defines "p \<equiv> url_prefix languages language"
  defines "segs \<equiv> path_segments p route (ln_code l) (slug_for l p)"
  shows "canonical_path rs languages language l = Some (''/'' @ join ''/'' segs)"
    and "\<forall>s \<in> set segs. segment s" and "segs \<noteq> []" and "p \<in> set languages" and "segment p"
proof -
  have p: "p \<in> set languages" unfolding p_def by (rule url_prefix_in [OF v(2) lang])
  then have sp: "segment p" using validate_routes_ok(1) [OF v(1)] segment_re_segment by blast
  then show "segment p" "p \<in> set languages" using p by simp_all
  have "p \<noteq> []" using sp by (simp add: segment_def)
  moreover have "url_prefix languages p = p" by (simp add: p_def url_prefix_idem)
  ultimately show "canonical_path rs languages language l = Some (''/'' @ join ''/'' segs)"
    using url_path_segments [of languages p p] k
    by (simp add: canonical_path_def segs_def flip: p_def)
  have "segment route"
    using validate_routes_ok(2) [OF v(1)] map_of_SomeD [OF k] segment_re_segment by fastforce
  moreover have "segment (ln_code l)" using l by (simp add: link_ok_def valid_code_segment)
  moreover have "slug_for l p \<noteq> [] \<Longrightarrow> \<forall>w \<in> set (split_on (CHR ''/'') (slug_for l p)). segment w"
    by (rule valid_path_segments [OF slug_for_valid [OF l]])
  ultimately show "\<forall>s \<in> set segs. segment s" using sp by (auto simp: segs_def path_segments_def)
  show "segs \<noteq> []" by (simp add: segs_def path_segments_def)
qed

text \<open>
  C17: a canonical path is read back to its parts: under validated routes, the path of a link
  in one of the site's languages (the first when none is given) parses to that language, the
  route of the link's kind, the link's code as written, and its slug in that language.
\<close>

theorem canonical_path_roundtrip:
  assumes v: "validate_routes rs languages = None" "languages \<noteq> []"
    and lang: "language \<in> insert [] (set languages)" and l: "link_ok l"
    and path: "canonical_path rs languages language l = Some path"
  shows "\<exists>route. map_of rs (ln_kind l) = Some route \<and>
    parse_path path rs languages = Some \<lparr>pd_language = url_prefix languages language, pd_route = route,
      pd_code = ln_code l, pd_raw = ln_code l, pd_slug = slug_for l (url_prefix languages language)\<rparr>"
proof -
  obtain route where k: "map_of rs (ln_kind l) = Some route"
    using path by (auto simp: canonical_path_def split: option.splits)
  note c = canonical_segments [OF v lang l k]
  have "path = ''/'' @ join ''/'' (path_segments (url_prefix languages language) route (ln_code l)
      (slug_for l (url_prefix languages language)))" using c(1) path by simp
  then have "parse_path path rs languages = parse_segments (path_segments (url_prefix languages language)
      route (ln_code l) (slug_for l (url_prefix languages language))) rs languages"
    using read_segments [OF c(3,2)] by simp
  also have "\<dots> = Some \<lparr>pd_language = url_prefix languages language, pd_route = route,
      pd_code = ln_code l, pd_raw = ln_code l, pd_slug = slug_for l (url_prefix languages language)\<rparr>"
    by (rule parse_canonical_segments [OF c(4)])
       (use c(5) route_known [OF k] l in \<open>auto simp: segment_def link_ok_def\<close>)
  finally show ?thesis using k by blast
qed

definition sample_link :: link where
  "sample_link = \<lparr>ln_kind = ''video'', ln_id = ''1'', ln_code = ''G4VRQ3ZQ5'',
     ln_slug = ''night-before'', ln_slugs = [(''es'', ''la-serie/noche'')]\<rparr>"

definition sample_routes :: routes where
  "sample_routes = [(''video'', ''watch''), (''gallery'', ''g'')]"

lemma sample_routes_ok: "validate_routes sample_routes [''en'', ''es''] = None"
proof -
  have t: "trim_space ''video'' = ''video''" "trim_space ''gallery'' = ''gallery''"
    by (rule trim_space_printable; simp)+
  have "segment_re ''watch''" "segment_re ''g''" "segment_re ''en''" "segment_re ''es''"
    by code_simp+
  then show ?thesis by (simp add: validate_routes_def first_error_None_iff sample_routes_def t)
qed

theorem canonical_path_roundtrip_witness:
  "canonical_path sample_routes [''en'', ''es''] ''es'' sample_link = Some ''/es/watch/G4VRQ3ZQ5/la-serie/noche'' \<and>
   map_option pd_slug (parse_path ''/es/watch/G4VRQ3ZQ5/la-serie/noche'' sample_routes [''en'', ''es'']) =
     Some ''la-serie/noche''"
proof -
  have p: "canonical_path sample_routes [''en'', ''es''] ''es'' sample_link = Some ''/es/watch/G4VRQ3ZQ5/la-serie/noche''"
    by code_simp
  have l: "link_ok sample_link" by code_simp
  have s: "slug_for sample_link (url_prefix [''en'', ''es''] ''es'') = ''la-serie/noche''" by code_simp
  have "map_option pd_slug (parse_path ''/es/watch/G4VRQ3ZQ5/la-serie/noche'' sample_routes [''en'', ''es'']) =
      Some (slug_for sample_link (url_prefix [''en'', ''es''] ''es''))"
    using canonical_path_roundtrip [OF sample_routes_ok _ _ l p] by auto
  then show ?thesis using p s by simp
qed

section \<open>Redirects\<close>

lemma link_of_ok: "registry_ok reg \<Longrightarrow> slugs_ok reg \<Longrightarrow> t \<in> set reg \<Longrightarrow> link_ok (link_of t)"
  by (simp add: link_ok_def link_of_def registry_ok_def slugs_ok_def)

text \<open>A link that resolves is that of a row that does not redirect, and resolves to itself.\<close>

lemma joined_row_self:
  assumes "registry_ok reg" and "joined_row reg c = Some t"
  shows "t \<in> set reg \<and> joined_row reg (cr_code t) = Some t"
proof -
  have t: "cr_merged t = []" by (rule joined_row_unmerged [OF assms])
  have "t \<in> set reg"
    using assms(2) by (auto simp: joined_row_def dest!: row_of_code_in split: option.splits if_splits)
  moreover from this have "row_of_code reg (cr_code t) = Some t"
    by (simp add: row_of_code_Some [OF assms(1)])
  ultimately show ?thesis using t by (simp add: joined_row_def)
qed

lemma store_resolve_one:
  assumes "registry_ok (us_registry st)" and "valid_code c" and "\<not> us_down st"
  shows "\<exists>out. store_resolve st [c] = Inr out \<and>
    map_of out c = map_option link_of (joined_row (us_registry st) c)"
proof -
  obtain out where "resolve_hops (Suc 3) (us_registry st) (map (\<lambda>c. (c, c)) [c]) [] = Inr out"
      "map_of out c = map_option link_of (joined_row (us_registry st) c)"
    using resolve_hops_ok [OF assms(1), of 3 "[c]"] by auto
  moreover have "max_hops = Suc 3" by (simp add: max_hops_def)
  moreover have "canonical_code c" using assms(2) by (simp add: canonical_iff_valid)
  ultimately show ?thesis using assms(3) by (simp add: store_resolve_def resolve_codes_def)
qed

lemma new_router_ok:
  assumes "new_router (Some st) opts = Inr rt"
  shows "rt_store rt = st" and "ro_languages (rt_opts rt) \<noteq> []"
    and "validate_routes (ro_routes (rt_opts rt)) (ro_languages (rt_opts rt)) = None"
  using assms by (auto simp: new_router_def Let_def split: if_splits option.splits)

lemma accept_language_in: "accept_language uni languages header \<in> insert [] (set languages)"
proof -
  define hits where "hits = concat (map (\<lambda>part. filter
      (\<lambda>l. accept_tag uni part = l \<or> has_prefix (l @ ''-'') (accept_tag uni part)) languages)
    (split_on (CHR '','') header))"
  have "set hits \<subseteq> set languages" by (auto simp: hits_def)
  then show ?thesis unfolding accept_language_def by (fold hits_def) (cases hits; auto)
qed

lemma parse_segments_facts:
  "parse_segments segs rs languages = Some p \<Longrightarrow>
   pd_language p \<in> insert [] (set languages) \<and> valid_code (pd_code p)"
  by (auto simp: parse_segments_def Let_def code_format.parse_valid split: if_splits option.splits)

lemma parse_path_facts:
  "parse_path path rs languages = Some p \<Longrightarrow>
   pd_language p \<in> insert [] (set languages) \<and> valid_code (pd_code p)"
  by (auto simp: parse_path_def Let_def dest: parse_segments_facts split: if_splits option.splits)

text \<open>What a match says: the link the path's code leads to, in a language of the site, with a
  verdict that shows it.\<close>

lemma router_match:
  assumes rt: "new_router (Some st) opts = Inr rt" and ok: "registry_ok (us_registry st)"
    and d: "router_decide uni rt req = Inr d" "de_matched d"
  obtains t language path v where "t \<in> set (us_registry st)"
    "joined_row (us_registry st) (cr_code t) = Some t" "\<not> us_down st"
    "language \<in> set (ro_languages (rt_opts rt))"
    "router_path rt (link_of t) language = Some path" "verdicts rt req [link_of t] = Inr v"
    "hd v \<in> {Visible, Preview}"
    "d = \<lparr>de_matched = True, de_gone = False, de_redirect = (ur_path req \<noteq> path),
       de_private = (hd v = Preview), de_link = Some (link_of t), de_language = language, de_path = path,
       de_location = path @ (if ur_query req \<noteq> [] then ''?'' @ ur_query req else [])\<rparr>"
proof -
  note r = new_router_ok [OF rt]
  obtain p links l where p: "parse_path (ur_path req) (ro_routes (rt_opts rt)) (ro_languages (rt_opts rt)) = Some p"
    and links: "store_resolve (rt_store rt) [pd_code p] = Inr links" "map_of links (pd_code p) = Some l"
    using d by (auto simp: router_decide_def Let_def bindr_Inr_iff no_decision_def split: option.splits)
  define language where "language = (if pd_language p = []
    then url_prefix (ro_languages (rt_opts rt)) (accept_language uni (ro_languages (rt_opts rt)) (ur_accept req))
    else pd_language p)"
  note pf = parse_path_facts [OF p]
  have lang: "language \<in> set (ro_languages (rt_opts rt))"
    using pf url_prefix_in [OF r(2) accept_language_in] by (auto simp: language_def)
  have up: "\<not> us_down st"
    using links(1) r(1) pf by (auto simp: store_resolve_def canonical_iff_valid)
  have "map_of links (pd_code p) = map_option link_of (joined_row (us_registry st) (pd_code p))"
    using store_resolve_one [OF ok _ up, of "pd_code p"] pf links(1) r(1) by auto
  then obtain t where t: "joined_row (us_registry st) (pd_code p) = Some t" "l = link_of t"
    using links(2) by (cases "joined_row (us_registry st) (pd_code p)") auto
  obtain d0 where d0: "decide_link rt req l language = Inr d0" "de_matched d0"
      "d = d0\<lparr>de_location := de_location d0 @ (if ur_query req \<noteq> [] then ''?'' @ ur_query req else []),
         de_redirect := (ur_path req \<noteq> de_path d0)\<rparr>"
    using d p links
    by (auto simp: router_decide_def Let_def bindr_Inr_iff no_decision_def language_def split: if_splits)
  obtain path v where pv: "router_path rt l language = Some path" "verdicts rt req [l] = Inr v"
      "hd v \<in> {Visible, Preview}"
      "d0 = no_decision\<lparr>de_matched := True, de_private := (hd v = Preview), de_link := Some l,
               de_language := language, de_path := path, de_location := path\<rparr>"
  proof -
    obtain path v where pv: "router_path rt l language = Some path" "verdicts rt req [l] = Inr v"
      using d0(1,2) by (auto simp: decide_link_def bindr_Inr_iff no_decision_def split: option.splits)
    then show thesis
      using d0(1,2) that [of path v]
      by (cases "hd v") (auto simp: decide_link_def no_decision_def)
  qed
  show ?thesis
    by (rule that [of t language path v])
       (use joined_row_self [OF ok t(1)] t(2) up lang pv d0(3) in \<open>simp_all add: no_decision_def\<close>)
qed

lemma head_of_path: "segs \<noteq> [] \<Longrightarrow> segment (hd segs) \<Longrightarrow>
   \<exists>c rest. ''/'' @ join ''/'' segs = CHR ''/'' # c # rest \<and> c \<noteq> CHR ''/''"
proof -
  assume s: "segs \<noteq> []" "segment (hd segs)"
  then obtain x xs where x: "segs = x # xs" "x \<noteq> []" "CHR ''/'' \<notin> set x"
    by (cases segs) (auto simp: segment_def)
  then obtain c w where c: "x = c # w" "c \<noteq> CHR ''/''" by (cases x) auto
  have "\<exists>r. join ''/'' segs = c # r" using x(1) c(1) by (cases xs) auto
  then show ?thesis using c(2) by auto
qed

text \<open>
  C18: a redirect ends: the request for the path of a matched decision is matched by the same
  decision without a redirect, as long as the host's verdict on the link is the same. And it
  stays on the site: the location begins with one slash, never with two.
\<close>

theorem redirects_end:
  assumes rt: "new_router (Some st) opts = Inr rt" and reach: "reachable uni [] (us_registry st)"
    and d: "router_decide uni rt req = Inr d" "de_matched d"
    and host: "\<forall>l. verdicts rt (req\<lparr>ur_path := de_path d\<rparr>) [l] = verdicts rt req [l]"
  shows "router_decide uni rt (req\<lparr>ur_path := de_path d\<rparr>) = Inr (d\<lparr>de_redirect := False\<rparr>) \<and>
    (\<exists>c rest. de_location d = CHR ''/'' # c # rest \<and> c \<noteq> CHR ''/'')"
proof -
  note r = new_router_ok [OF rt]
  have ok: "registry_ok (us_registry st)" "slugs_ok (us_registry st)"
    using reachable_ok [OF reach] by simp_all
  from rt ok(1) d show ?thesis
  proof (rule router_match)
    fix t language path v
    assume t: "t \<in> set (us_registry st)" "joined_row (us_registry st) (cr_code t) = Some t"
      and up: "\<not> us_down st" and lang: "language \<in> set (ro_languages (rt_opts rt))"
      and path: "router_path rt (link_of t) language = Some path"
      and v: "verdicts rt req [link_of t] = Inr v" "hd v \<in> {Visible, Preview}"
      and dd: "d = \<lparr>de_matched = True, de_gone = False, de_redirect = (ur_path req \<noteq> path),
       de_private = (hd v = Preview), de_link = Some (link_of t), de_language = language, de_path = path,
       de_location = path @ (if ur_query req \<noteq> [] then ''?'' @ ur_query req else [])\<rparr>"
    have l: "link_ok (link_of t)" by (rule link_of_ok [OF ok t(1)])
    have lang': "language \<in> insert [] (set (ro_languages (rt_opts rt)))" using lang by simp
    have ne: "language \<noteq> []"
      using validate_routes_ok(1) [OF r(3)] lang by (auto simp: segment_re_def)
    then have px: "url_prefix (ro_languages (rt_opts rt)) language = language" by (simp add: url_prefix_def)
    have cp: "canonical_path (ro_routes (rt_opts rt)) (ro_languages (rt_opts rt)) language (link_of t) = Some path"
      using path by (simp add: router_path_def)
    obtain route where route: "map_of (ro_routes (rt_opts rt)) (ln_kind (link_of t)) = Some route"
      using cp by (auto simp: canonical_path_def split: option.splits)
    note seg = canonical_segments [OF r(3,2) lang' l route]
    let ?req = "req\<lparr>ur_path := path\<rparr>"
    obtain p where p: "parse_path path (ro_routes (rt_opts rt)) (ro_languages (rt_opts rt)) = Some p"
        "pd_language p = language" "pd_code p = ln_code (link_of t)"
    proof -
      from seg(1) cp have pe: "path = ''/'' @ join ''/'' (path_segments language route
          (ln_code (link_of t)) (slug_for (link_of t) language))" by (simp add: px)
      have "parse_path path (ro_routes (rt_opts rt)) (ro_languages (rt_opts rt)) =
          parse_segments (path_segments language route (ln_code (link_of t)) (slug_for (link_of t) language))
            (ro_routes (rt_opts rt)) (ro_languages (rt_opts rt))"
        unfolding pe by (rule read_segments) (use seg(2,3) px in simp_all)
      also have "\<dots> = Some \<lparr>pd_language = language, pd_route = route, pd_code = ln_code (link_of t),
          pd_raw = ln_code (link_of t), pd_slug = slug_for (link_of t) language\<rparr>"
        by (rule parse_canonical_segments [OF lang ne route_known [OF route]])
           (use l in \<open>simp add: link_ok_def\<close>)
      finally show ?thesis using that by simp
    qed
    have code: "ln_code (link_of t) = cr_code t" by (simp add: link_of_def)
    have "valid_code (cr_code t)" using l by (simp add: link_ok_def code)
    then obtain links where links: "store_resolve st [cr_code t] = Inr links"
        "map_of links (cr_code t) = Some (link_of t)"
      using store_resolve_one [OF ok(1) _ up] t(2) by fastforce
    have host': "verdicts rt ?req [link_of t] = Inr v" using host v(1) dd by simp
    have "decide_link rt ?req (link_of t) language = Inr (no_decision\<lparr>de_matched := True,
        de_private := (hd v = Preview), de_link := Some (link_of t), de_language := language,
        de_path := path, de_location := path\<rparr>)"
      using path host' v(2) by (auto simp: decide_link_def)
    then have "router_decide uni rt ?req = Inr (d\<lparr>de_redirect := False\<rparr>)"
      using p links r(1) ne by (simp add: router_decide_def code dd no_decision_def)
    moreover have "\<exists>c rest. de_location d = CHR ''/'' # c # rest \<and> c \<noteq> CHR ''/''"
    proof -
      have h: "segment (hd (path_segments language route (ln_code (link_of t)) (slug_for (link_of t) language)))"
        using seg(5) px by (simp add: path_segments_def)
      have "path_segments language route (ln_code (link_of t)) (slug_for (link_of t) language) \<noteq> []"
        by (simp add: path_segments_def)
      from head_of_path [OF this h] seg(1) cp px show ?thesis by (auto simp: dd)
    qed
    moreover have "de_path d = path" by (simp add: dd)
    ultimately show ?thesis by simp
  qed
qed

definition sample_rows :: registry where
  "sample_rows = [sample_row\<lparr>cr_slug := ''a''\<rparr>,
     \<lparr>cr_key = (''v'', ''2''), cr_code = ''00000000B'', cr_slug = ''b'', cr_slugs = [], cr_merged = []\<rparr>]"

lemma sample_rows_reachable: "reachable (\<lambda>s. s) [] sample_rows"
proof -
  have "put_codes (\<lambda>s. s) sample_gen sample_entries [] =
      Inr (sample_rows, [((''v'', ''1''), ''00000000A''), ((''v'', ''2''), ''00000000B'')])"
    by code_simp
  then show ?thesis by (intro reach_step [OF reach_refl] step_put [OF sample_gen_valid])
qed

definition sample_store :: url_store where
  "sample_store = \<lparr>us_tenant = ''t'', us_registry = sample_rows, us_aliases = [],
     us_versions = (\<lambda>_. None), us_down = False, us_versions_down = False\<rparr>"

definition sample_options :: router_options where
  "sample_options = \<lparr>ro_routes = [(''v'', ''watch'')], ro_languages = [''en'', ''es''], ro_base = [],
     ro_visibility = None\<rparr>"

definition sample_router :: router where
  "sample_router = \<lparr>rt_store = sample_store, rt_opts = sample_options\<rparr>"

lemma sample_router_new: "new_router (Some sample_store) sample_options = Inr sample_router"
proof -
  have t: "trim_space ''v'' = ''v''" by (rule trim_space_printable; simp)
  have "segment_re ''watch''" "segment_re ''en''" "segment_re ''es''" by code_simp+
  then have "validate_routes [(''v'', ''watch'')] [''en'', ''es''] = None"
    by (simp add: validate_routes_def first_error_None_iff t)
  then show ?thesis
    by (simp add: new_router_def sample_options_def sample_router_def trim_suffix_def has_suffix_def)
qed

definition sample_visit :: url_request where
  "sample_visit = \<lparr>ur_method = ''GET'', ur_path = ''/watch/00000000a/old-title/'', ur_query = ''v=1'',
     ur_accept = []\<rparr>"

definition sample_match :: decision_url where
  "sample_match = \<lparr>de_matched = True, de_gone = False, de_redirect = True, de_private = False,
     de_link = Some (link_of (sample_row\<lparr>cr_slug := ''a''\<rparr>)), de_language = ''en'',
     de_path = ''/en/watch/00000000A/a'', de_location = ''/en/watch/00000000A/a?v=1''\<rparr>"

theorem redirects_end_witness:
  "router_decide (\<lambda>s. s) sample_router sample_visit = Inr sample_match \<and>
   router_decide (\<lambda>s. s) sample_router (sample_visit\<lparr>ur_path := ''/en/watch/00000000A/a''\<rparr>) =
     Inr (sample_match\<lparr>de_redirect := False\<rparr>)"
proof -
  have acc: "accept_language (\<lambda>s. s) [''en'', ''es''] [] = []"
  proof -
    have "accept_tag (\<lambda>s. s) [] = []"
      by (simp add: accept_tag_def trim_space_def trim_left.simps leading_space_def space_runes_def
          to_lower_def find_None_iff has_prefix_def upt_rec_numeral)
    then show ?thesis by (simp add: accept_language_def has_prefix_def)
  qed
  have "parse_path ''/watch/00000000a/old-title/'' [(''v'', ''watch'')] [''en'', ''es''] =
      Some \<lparr>pd_language = [], pd_route = ''watch'', pd_code = ''00000000A'', pd_raw = ''00000000a'',
        pd_slug = ''old-title''\<rparr>" by code_simp
  moreover have "store_resolve sample_store [''00000000A''] =
      Inr [(''00000000A'', link_of (sample_row\<lparr>cr_slug := ''a''\<rparr>))]" by code_simp
  moreover have "decide_link sample_router sample_visit (link_of (sample_row\<lparr>cr_slug := ''a''\<rparr>)) ''en'' =
      Inr (sample_match\<lparr>de_redirect := False, de_location := ''/en/watch/00000000A/a''\<rparr>)" by code_simp
  ultimately have d: "router_decide (\<lambda>s. s) sample_router sample_visit = Inr sample_match"
    by (simp add: router_decide_def sample_router_def sample_options_def sample_visit_def acc
        url_prefix_def sample_match_def)
  have "reachable (\<lambda>s. s) [] (us_registry sample_store)"
    using sample_rows_reachable by (simp add: sample_store_def)
  moreover have "de_matched sample_match" "de_path sample_match = ''/en/watch/00000000A/a''"
    by (simp_all add: sample_match_def)
  moreover have "verdicts sample_router (sample_visit\<lparr>ur_path := p\<rparr>) [l] = verdicts sample_router sample_visit [l]" for p l
    by (simp add: verdicts_def sample_router_def sample_options_def)
  ultimately show ?thesis
    using redirects_end [OF sample_router_new _ d] d by metis
qed

section \<open>Hidden content\<close>

text \<open>The router over the same aliases and versions with no registered content at all.\<close>

definition emptied :: "router \<Rightarrow> router" where
  "emptied rt = rt\<lparr>rt_store := (rt_store rt)\<lparr>us_registry := []\<rparr>\<rparr>"

definition hides_all :: "router \<Rightarrow> url_request \<Rightarrow> bool" where
  "hides_all rt req \<longleftrightarrow> (\<forall>ls. verdicts rt req ls = Inr (map (\<lambda>_. Hidden) ls))"

lemma emptied_simps [simp]:
  "rt_opts (emptied rt) = rt_opts rt" "us_aliases (rt_store (emptied rt)) = us_aliases (rt_store rt)"
  "us_down (rt_store (emptied rt)) = us_down (rt_store rt)" "us_registry (rt_store (emptied rt)) = []"
  by (simp_all add: emptied_def)

lemma verdicts_emptied [simp]: "verdicts (emptied rt) = verdicts rt"
  by (simp add: verdicts_def fun_eq_iff)

lemma joined_row_empty [simp]: "joined_row [] c = None"
  by (simp add: joined_row_def row_of_code_def)

lemma resolve_hops_empty: "\<exists>out. resolve_hops (Suc hops) [] (map (\<lambda>c. (c, c)) cs) [] = Inr out \<and> (\<forall>c. map_of out c = None)"
  using resolve_hops_ok [of "[]" hops cs] by (simp add: registry_ok_def cong: if_cong)

text \<open>Resolving fails or not for the same reasons over both stores.\<close>

lemma resolve_emptied:
  assumes "registry_ok (us_registry st)"
  shows "case store_resolve st cs of
      Inl e \<Rightarrow> store_resolve (st\<lparr>us_registry := []\<rparr>) cs = Inl e
    | Inr out \<Rightarrow> \<exists>out0. store_resolve (st\<lparr>us_registry := []\<rparr>) cs = Inr out0 \<and> (\<forall>c. map_of out0 c = None)"
proof -
  have m: "max_hops = Suc 3" by (simp add: max_hops_def)
  show ?thesis
    using resolve_hops_ok [OF assms, of 3 "remdups cs"] resolve_hops_empty [of 3 "remdups cs"]
    by (auto simp: store_resolve_def resolve_codes_def m split: option.splits)
qed

lemma decide_link_hidden: "hides_all rt req \<Longrightarrow> decide_link rt req l language = Inr no_decision"
  by (simp add: decide_link_def hides_all_def split: option.splits)

lemma decide_hidden:
  assumes ok: "registry_ok (us_registry (rt_store rt))" and h: "hides_all rt req"
  shows "router_decide uni rt req = router_decide uni (emptied rt) req"
proof (cases "parse_path (ur_path req) (ro_routes (rt_opts rt)) (ro_languages (rt_opts rt))")
  case None
  then show ?thesis by (simp add: router_decide_def)
next
  case (Some p)
  have "\<not> de_matched no_decision" by (simp add: no_decision_def)
  then show ?thesis
    using Some resolve_emptied [OF ok, of "[pd_code p]"]
    by (auto simp: router_decide_def Let_def decide_link_hidden [OF h] emptied_def bindr_def
        split: sum.splits option.splits)
qed

lemma lookup_hidden:
  assumes ok: "registry_ok (us_registry (rt_store rt))" and h: "hides_all rt req"
  shows "lookup_code rt req raw lang v = lookup_code (emptied rt) req raw lang v"
proof (cases "parse_code raw")
  case None
  then show ?thesis by (simp add: lookup_code_def)
next
  case (Some code)
  have e: "rt_store (emptied rt) = (rt_store rt)\<lparr>us_registry := []\<rparr>" by (simp add: emptied_def)
  have v: "verdicts rt req [l] = Inr [Hidden]" for l using h by (simp add: hides_all_def)
  show ?thesis
  proof (cases "store_resolve (rt_store rt) [code]")
    case (Inl x)
    then have "store_resolve (rt_store (emptied rt)) [code] = Inl x"
      using resolve_emptied [OF ok, of "[code]"] by (simp add: e)
    then show ?thesis using Some Inl by (simp add: lookup_code_def)
  next
    case (Inr links)
    then obtain out0 where "store_resolve (rt_store (emptied rt)) [code] = Inr out0" "map_of out0 code = None"
      using resolve_emptied [OF ok, of "[code]"] by (auto simp: e)
    then show ?thesis using Some Inr v by (auto simp: lookup_code_def split: option.splits)
  qed
qed

text \<open>Hidden aliases and unknown ones get the same results.\<close>

definition not_found :: "alias_key list \<Rightarrow> alias_result list" where
  "not_found ks = map (\<lambda>k. \<lparr>ar_key = k, ar_status = AliasNotFound, ar_resolved = None, ar_locator = []\<rparr>) ks"

lemma alias_results_hidden:
  "length ms = length ks \<Longrightarrow>
   alias_results rt language ks ms
     (map (\<lambda>_. Hidden) (map fst (concat (map (\<lambda>m. case m of Some x \<Rightarrow> [x] | None \<Rightarrow> []) ms)))) = not_found ks"
proof (induction ks arbitrary: ms)
  case (Cons k ks)
  then obtain m ms' where ms: "ms = m # ms'" "length ms' = length ks" by (cases ms) auto
  show ?case
  proof (cases m)
    case (Some x)
    then show ?thesis using Cons.IH [OF ms(2)] ms by (cases x) (simp add: not_found_def)
  qed (use Cons.IH [OF ms(2)] ms in \<open>simp add: not_found_def\<close>)
qed (simp add: not_found_def)

lemma store_aliases_length:
  "store_resolve_aliases st ks = Inr ms \<Longrightarrow> length ms = length ks"
  by (auto simp: store_resolve_aliases_def Let_def bindr_Inr_iff split: if_splits option.splits)

lemma aliases_hidden:
  assumes ok: "registry_ok (us_registry (rt_store rt))" and h: "hides_all rt req"
  shows "resolve_aliases rt req ks language = resolve_aliases (emptied rt) req ks language"
proof -
  have e: "rt_store (emptied rt) = (rt_store rt)\<lparr>us_registry := []\<rparr>" by (simp add: emptied_def)
  have v: "verdicts rt req ls = Inr (map (\<lambda>_. Hidden) ls)" for ls using h by (simp add: hides_all_def)
  have r: "resolve_aliases r req ks language = bindr (store_resolve_aliases (rt_store r) ks) (\<lambda>_. Inr (not_found ks))"
    if "verdicts r = verdicts rt" for r
  proof (cases "store_resolve_aliases (rt_store r) ks")
    case (Inr ms)
    then show ?thesis
      using alias_results_hidden [OF store_aliases_length [OF Inr]]
      by (simp add: resolve_aliases_def that v)
  qed (simp add: resolve_aliases_def)
  have same: "(case store_resolve_aliases (rt_store rt) ks of
      Inl x \<Rightarrow> store_resolve_aliases (rt_store (emptied rt)) ks = Inl x
    | Inr ms \<Rightarrow> \<exists>ms0. store_resolve_aliases (rt_store (emptied rt)) ks = Inr ms0)"
    using resolve_emptied [OF ok, of "concat (map (\<lambda>h. case h of Some (c, _) \<Rightarrow> [c] | None \<Rightarrow> [])
      (map (\<lambda>k. map_of (us_aliases (rt_store rt)) k) ks))"]
    unfolding store_resolve_aliases_def e Let_def
    by (simp split: option.splits sum.splits) auto
  then show ?thesis
    by (cases "store_resolve_aliases (rt_store rt) ks") (auto simp: r)
qed

text \<open>
  C19: what is hidden cannot be told from what does not exist: a request whose host hides
  every link from it gets from the middleware, the code lookup and the alias lookup what it
  would get if nothing were registered.
\<close>

theorem hidden_unobservable:
  assumes "reachable uni [] (us_registry (rt_store rt))" and "hides_all rt req"
  shows "middleware uni rt req = middleware uni (emptied rt) req \<and>
    lookup_code rt req raw lang v = lookup_code (emptied rt) req raw lang v \<and>
    lookup_aliases rt req lang body = lookup_aliases (emptied rt) req lang body"
proof -
  have ok: "registry_ok (us_registry (rt_store rt))" using reachable_ok [OF assms(1)] by simp
  have "middleware uni rt req = middleware uni (emptied rt) req"
    by (simp only: middleware_def decide_hidden [OF ok assms(2)] emptied_simps)
  moreover have "lookup_aliases rt req lang body = lookup_aliases (emptied rt) req lang body"
    by (simp only: lookup_aliases_def aliases_hidden [OF ok assms(2)] emptied_simps)
  ultimately show ?thesis using lookup_hidden [OF ok assms(2)] by simp
qed

definition sample_hiding :: router where
  "sample_hiding = sample_router\<lparr>rt_opts := sample_options
     \<lparr>ro_visibility := Some (\<lambda>_ ls. Some (map (\<lambda>_. Hidden) ls))\<rparr>\<rparr>"

theorem hidden_unobservable_witness:
  "survivor (us_registry (rt_store sample_hiding)) ''00000000A'' = Some ''00000000A'' \<and>
   middleware (\<lambda>s. s) sample_hiding (sample_visit\<lparr>ur_path := ''/en/watch/00000000A/a''\<rparr>) =
     middleware (\<lambda>s. s) (emptied sample_hiding) (sample_visit\<lparr>ur_path := ''/en/watch/00000000A/a''\<rparr>) \<and>
   lookup_code (emptied sample_hiding) sample_visit ''00000000a'' ''es'' [] = NotFound \<and>
   lookup_code sample_hiding sample_visit ''00000000a'' ''es'' [] = NotFound"
proof -
  have reach: "reachable (\<lambda>s. s) [] (us_registry (rt_store sample_hiding))"
    using sample_rows_reachable by (simp add: sample_hiding_def sample_router_def sample_store_def)
  have h: "hides_all sample_hiding req" for req
    by (auto simp: hides_all_def verdicts_def sample_hiding_def)
  have "survivor (us_registry (rt_store sample_hiding)) ''00000000A'' = Some ''00000000A''"
    "lookup_code (emptied sample_hiding) sample_visit ''00000000a'' ''es'' [] = NotFound" by code_simp+
  then show ?thesis using hidden_unobservable [OF reach h] by simp
qed

end
