(* ===== verification/Layout_Props.thy ===== *)
theory Layout_Props
  imports Media_Layout Url_Props
begin

text \<open>
  Object keys and their texts: what a writer builds from valid parts is read back to the same
  parts, and what is read is what would be built, with one exception.
\<close>

declare area_name.simps [simp del]

definition key_string :: "object_key \<Rightarrow> string" where
  "key_string k = key_folder k @
     (if ok_area k = AreaManifest then manifest_name else area_name (ok_area k) @ ''/'' @ ok_name k)"

text \<open>The parts a key may have. A key without a scope does not look like one with a scope.\<close>

definition valid_object_key :: "object_key \<Rightarrow> bool" where
  "valid_object_key k \<longleftrightarrow>
     valid_segment (ok_namespace k) \<and> valid_segment (ok_kind k) \<and> valid_segment (ok_id k) \<and>
     (ok_version k = [] \<or> valid_version (ok_version k)) \<and>
     (if ok_area k = AreaManifest then ok_name k = [] else valid_name_in (ok_area k) (ok_name k)) \<and>
     (if ok_scope k = no_scope then ok_namespace k \<noteq> ''tenant'' \<or> ok_id k \<notin> {''app'', ''account''}
      else valid_scope (ok_scope k) \<and> ok_namespace k = partition_of (ok_scope k))"

section \<open>Segments\<close>

lemma seg_char_slash [simp]: "\<not> seg_char (CHR ''/'')" "\<not> seg_char (CHR ''|'')"
  by (simp_all add: seg_char_def byte_classes less_eq_char_def)

lemma valid_segment_segment: "valid_segment s \<Longrightarrow> segment s"
  by (auto simp: valid_segment_def segment_def list_all_iff)

lemma hex_not_sep: "is_hex c \<Longrightarrow> c \<noteq> CHR ''/'' \<and> c \<noteq> CHR ''|''"
  by (auto simp: byte_classes less_eq_char_def)

lemma uuid_text_chars: "uuid_text s \<Longrightarrow> c \<in> set s \<Longrightarrow> c = CHR ''-'' \<or> is_hex c"
proof -
  assume u: "uuid_text s" and "c \<in> set s"
  then obtain i where i: "i < length s" "s ! i = c" by (meson in_set_conv_nth)
  have "i \<in> set [0..<36]" using i(1) u unfolding uuid_text_def by (simp only: set_upt) simp
  then have "if i \<in> {8, 13, 18, 23} then s ! i = CHR ''-'' else is_hex (s ! i)"
    using u unfolding uuid_text_def list_all_iff by blast
  then show ?thesis using i(2) by (cases "i \<in> {8, 13, 18, 23}") (simp_all only: if_True if_False simp_thms)
qed

lemma uuid_text_segment: "uuid_text s \<Longrightarrow> segment s"
proof -
  assume u: "uuid_text s"
  then have "length s = 36" unfolding uuid_text_def by (rule conjunct1)
  then have "s \<noteq> []" by auto
  moreover have "CHR ''/'' \<notin> set s" using uuid_text_chars [OF u] hex_not_sep by fastforce
  ultimately show ?thesis by (simp add: segment_def)
qed

lemma scope_words: "segment ''tenant''" "segment ''app''" "segment ''account''" "segment manifest_name"
  by (simp_all add: segment_def manifest_name_def)

lemma scope_segments_ok:
  assumes "valid_scope s"
  shows "\<forall>x \<in> set (scope_segments s). segment x"
proof -
  have t: "segment (sc_tenant s)"
    using assms by (simp add: valid_scope_def layout_uuid_def uuid_text_segment)
  show ?thesis
  proof (cases "sc_app s = []")
    case True
    then show ?thesis by (simp only: scope_segments_def if_True) (simp add: t scope_words)
  next
    case False
    then have "segment (sc_app s)"
      using assms by (simp add: valid_scope_def layout_uuid_def uuid_text_segment)
    then show ?thesis using False by (simp only: scope_segments_def if_False) (simp add: t scope_words)
  qed
qed

lemma last_dot_split: "split_ext name = (stem, ext) \<Longrightarrow> stem @ ext = name"
  by (auto simp: split_ext_def split: option.splits)

lemma public_name_chars:
  assumes "valid_public_name name"
  shows "segment name"
proof (cases "valid_segment name")
  case True
  then show ?thesis by (rule valid_segment_segment)
next
  case False
  then obtain l where l: "split_generation name = Some l" "valid_segment l"
    using assms by (auto simp: valid_public_name_def split: option.splits)
  obtain stem ext where se: "split_ext name = (stem, ext)" by (metis surj_pair)
  let ?n = "length stem"
  have c: "38 \<le> ?n" "stem ! (?n - 37) = CHR ''-''" "uuid_text (drop (?n - 36) stem)"
    "l = take (?n - 37) stem @ ext"
    using l(1) se by (auto simp: split_generation_def Let_def split: if_splits)
  have "stem = take (?n - 37) stem @ stem ! (?n - 37) # drop (Suc (?n - 37)) stem"
    by (rule id_take_nth_drop) (use c(1) in simp)
  moreover have "Suc (?n - 37) = ?n - 36" using c(1) by simp
  ultimately have "set stem = set (take (?n - 37) stem) \<union> {CHR ''-''} \<union> set (drop (?n - 36) stem)"
    using c(2) arg_cong [of stem _ set] by (metis Un_insert_right list.simps(15) set_append sup_bot_right
        Un_insert_left)
  moreover have "CHR ''/'' \<notin> set (drop (?n - 36) stem)"
    using uuid_text_segment [OF c(3)] by (simp add: segment_def)
  moreover have "CHR ''/'' \<notin> set (take (?n - 37) stem)" "CHR ''/'' \<notin> set ext"
    using valid_segment_segment [OF l(2)] c(4) by (simp_all add: segment_def)
  ultimately have "CHR ''/'' \<notin> set (stem @ ext)" by simp
  then have "CHR ''/'' \<notin> set name" using last_dot_split [OF se] by simp
  moreover have "name \<noteq> []" using c(1) last_dot_split [OF se] by auto
  ultimately show ?thesis by (simp add: segment_def)
qed

lemma sha256_hex_segment: "sha256_hex name = Some h \<Longrightarrow> segment name"
proof -
  assume "sha256_hex name = Some h"
  then have n: "name = sha256_prefix @ h" "list_all is_hex h"
    by (auto simp: sha256_hex_def cut_prefix_Some split: option.splits if_splits)
  have "CHR ''/'' \<notin> set h" using n(2) hex_not_sep by (auto simp: list_all_iff)
  then show ?thesis by (simp add: n(1) segment_def sha256_prefix_def)
qed

lemma blob_name_segment:
  assumes "valid_blob_name name"
  shows "segment name"
proof (cases "length name = length sha256_prefix + 64")
  case True
  then show ?thesis using assms sha256_hex_segment
    by (auto simp: valid_blob_name_def name_digest_def Let_def)
next
  case False
  let ?n = "length sha256_prefix + 64"
  obtain h where n: "length name = ?n + 37" "name ! ?n = CHR ''-''" "uuid_text (drop (?n + 1) name)"
      "sha256_hex (take ?n name) = Some h"
    using assms False by (auto simp: valid_blob_name_def name_digest_def Let_def split: if_splits)
  have "name = take ?n name @ name ! ?n # drop (Suc ?n) name"
    by (rule id_take_nth_drop) (use n(1) in simp)
  from arg_cong [OF this, of set] have "set name = set (take ?n name) \<union> {CHR ''-''} \<union> set (drop (?n + 1) name)"
    using n(2) by simp
  moreover have "CHR ''/'' \<notin> set (drop (?n + 1) name)" "CHR ''/'' \<notin> set (take ?n name)"
    using uuid_text_segment [OF n(3)] sha256_hex_segment [OF n(4)] by (simp_all add: segment_def)
  ultimately have "CHR ''/'' \<notin> set name" by simp
  moreover have "name \<noteq> []" using n(1) by auto
  ultimately show ?thesis by (simp add: segment_def)
qed

lemma name_in_segment: "valid_name_in a name \<Longrightarrow> segment name"
  by (cases a) (auto simp: valid_name_in_def blob_name_segment public_name_chars valid_segment_segment)

lemma area_name_segment: "segment (area_name a)"
  by (cases a) (simp_all add: area_name.simps segment_def)

lemma area_name_inj: "area_name a = area_name b \<longleftrightarrow> a = b"
  by (cases a; cases b) (simp_all add: area_name.simps)

lemma area_not_version: "a \<in> set folder_areas \<Longrightarrow> \<not> valid_version (area_name a)"
  by (auto simp: valid_version_def)

lemma find_area:
  "List.find (\<lambda>a. area_name a = s) folder_areas = Some a \<longleftrightarrow> a \<in> set folder_areas \<and> area_name a = s"
proof -
  have "distinct (map area_name folder_areas)" by code_simp
  then show ?thesis by (rule find_key_iff)
qed

definition key_segments :: "object_key \<Rightarrow> string list" where
  "key_segments k = (if ok_scope k \<noteq> no_scope then scope_segments (ok_scope k) else [ok_namespace k]) @
     item_segments (ok_kind k) (ok_id k) (ok_version k) @
     (if ok_area k = AreaManifest then [manifest_name] else [area_name (ok_area k), ok_name k])"

lemma valid_version_segment: "valid_version v \<Longrightarrow> segment v"
  by (simp add: valid_version_def valid_segment_segment)

lemma key_segments_ok: "valid_object_key k \<Longrightarrow> \<forall>s \<in> set (key_segments k). segment s"
  by (auto simp: key_segments_def valid_object_key_def item_segments_def scope_words name_in_segment
      area_name_segment valid_segment_segment valid_version_segment scope_segments_ok split: if_splits)

lemma join_append: "xs \<noteq> [] \<Longrightarrow> ys \<noteq> [] \<Longrightarrow> join sep (xs @ ys) = join sep xs @ sep @ join sep ys"
proof (induction xs)
  case (Cons x xs)
  then show ?case by (cases "xs = []") (simp_all add: join_Cons)
qed simp

lemma key_string_segments: "key_string k = join ''/'' (key_segments k)"
proof -
  let ?items = "item_segments (ok_kind k) (ok_id k) (ok_version k)"
  let ?fin = "if ok_area k = AreaManifest then [manifest_name] else [area_name (ok_area k), ok_name k]"
  have i: "?items \<noteq> []" by (simp add: item_segments_def)
  have e: "(if ok_area k = AreaManifest then manifest_name else area_name (ok_area k) @ ''/'' @ ok_name k) =
      join ''/'' ?fin" by simp
  have "join ''/'' ([] # ?items) = ''/'' @ join ''/'' ?items" using i by (simp add: join_Cons)
  then have "cut_prefix ''/'' (layout_prefix [] (ok_kind k) (ok_id k) (ok_version k)) =
      Some (join ''/'' ?items @ ''/'')" by (simp add: layout_prefix_def cut_prefix_Some)
  moreover have "scope_segments (ok_scope k) \<noteq> []" by (simp add: scope_segments_def)
  ultimately show ?thesis
    unfolding key_string_def e
    using i by (simp add: key_folder_def key_segments_def scope_prefix_def scope_root_def layout_prefix_def
        join_append join_Cons del: join.simps(3))
qed

lemma parse_object_string:
  assumes "valid_object_key k"
  shows "parse_object_key (key_string k) = parse_key_segments (key_segments k)"
proof -
  have "split_on (CHR ''/'') (join ''/'' (key_segments k)) = key_segments k"
  proof (rule split_on_join)
    show "key_segments k \<noteq> []" by (simp add: key_segments_def item_segments_def)
    show "CHR ''/'' \<notin> set x" if "x \<in> set (key_segments k)" for x
      using key_segments_ok [OF assms] that by (simp add: segment_def)
  qed
  then show ?thesis by (simp add: parse_object_key_def key_string_segments)
qed

text \<open>The end of a key: its version, area and name.\<close>

definition end_segments :: "object_key \<Rightarrow> string list" where
  "end_segments k = (if ok_version k \<noteq> [] then [ok_version k] else []) @
     (if ok_area k = AreaManifest then [manifest_name] else [area_name (ok_area k), ok_name k])"

lemma folder_area: "a \<noteq> AreaManifest \<Longrightarrow> a \<in> set folder_areas"
  by (cases a) (simp_all add: folder_areas_def)

lemma parse_rest_iff:
  "parse_rest rest = Some (a, name) \<longleftrightarrow>
     (if a = AreaManifest then name = [] \<and> rest = [manifest_name]
      else valid_name_in a name \<and> rest = [area_name a, name])"
proof -
  have 2: "length rest = 2 \<longleftrightarrow> (\<exists>x y. rest = [x, y])" by (auto simp: length_Suc_conv numeral_2_eq_2)
  show ?thesis
  proof (cases "\<exists>x y. rest = [x, y]")
    case True
    then obtain x y where r: "rest = [x, y]" by blast
    have m: "AreaManifest \<notin> set folder_areas" by (simp add: folder_areas_def)
    show ?thesis
    proof (cases "List.find (\<lambda>a. area_name a = x) folder_areas")
      case None
      then have "x \<noteq> area_name a" if "a \<noteq> AreaManifest"
        using folder_area [OF that] find_area [of x a] by auto
      then show ?thesis using None by (auto simp: parse_rest_def r)
    next
      case (Some b)
      then have b: "b \<in> set folder_areas" "area_name b = x" by (simp_all add: find_area)
      then have "b \<noteq> AreaManifest" using m by auto
      then show ?thesis using Some b(2) by (auto simp: parse_rest_def r area_name_inj)
    qed
  next
    case False
    then show ?thesis using 2 by (auto simp: parse_rest_def)
  qed
qed

lemma end_parse:
  assumes "valid_object_key k"
  shows "(let rest = end_segments k; (version, rest) = (if length rest > 1 \<and> valid_version (hd rest)
       then (hd rest, tl rest) else ([], rest)) in (version, parse_rest rest)) =
    (ok_version k, Some (ok_area k, ok_name k))"
proof -
  have r: "parse_rest (if ok_area k = AreaManifest then [manifest_name] else [area_name (ok_area k), ok_name k]) =
      Some (ok_area k, ok_name k)"
    using assms by (simp add: parse_rest_iff valid_object_key_def split: if_splits)
  show ?thesis
  proof (cases "ok_version k = []")
    case True
    have "\<not> valid_version (area_name (ok_area k))" if "ok_area k \<noteq> AreaManifest"
      by (rule area_not_version [OF folder_area [OF that]])
    then show ?thesis using r True by (auto simp: end_segments_def)
  next
    case False
    then have "valid_version (ok_version k)" using assms by (simp add: valid_object_key_def)
    then show ?thesis using r False by (auto simp: end_segments_def)
  qed
qed

lemma end_segments_length: "1 \<le> length (end_segments k) \<and> length (end_segments k) \<le> 3"
  by (simp add: end_segments_def)

text \<open>Scopes.\<close>

lemma parse_scope_known:
  assumes "valid_scope s"
  shows "parse_scope (scope_segments s @ kind # i # rest) = Some (s, partition_of s # kind # i # rest)"
  using assms by (cases s) (auto simp: parse_scope_def scope_segments_def Let_def)

lemma no_scope_invalid: "\<not> valid_scope no_scope"
  by (simp add: valid_scope_def layout_uuid_def uuid_text_def no_scope_def)

lemma key_segments_end:
  "key_segments k = (if ok_scope k \<noteq> no_scope then scope_segments (ok_scope k) else [ok_namespace k]) @
     ok_kind k # ok_id k # end_segments k"
  by (simp add: key_segments_def end_segments_def item_segments_def)

lemma parse_scope_key:
  assumes "valid_object_key k"
  shows "parse_scope (key_segments k) = Some (ok_scope k, ok_namespace k # ok_kind k # ok_id k # end_segments k)"
proof (cases "ok_scope k = no_scope")
  case True
  then have "ok_namespace k \<noteq> ''tenant'' \<or> ok_id k \<notin> {''app'', ''account''}"
    using assms by (simp only: valid_object_key_def if_True)
  then show ?thesis unfolding key_segments_end using True by (auto simp: parse_scope_def)
next
  case False
  then have "valid_scope (ok_scope k)" "ok_namespace k = partition_of (ok_scope k)"
    using assms by (simp_all only: valid_object_key_def if_False)
  then show ?thesis unfolding key_segments_end using False by (simp add: parse_scope_known)
qed

lemma parse_valid_key:
  assumes "valid_object_key k"
  shows "parse_object_key (key_string k) = Some k"
proof -
  have v: "valid_segment (ok_namespace k)" "valid_segment (ok_kind k)" "valid_segment (ok_id k)"
    using assms by (simp_all add: valid_object_key_def)
  have l: "end_segments k \<noteq> []" "\<not> length (end_segments k) > 3"
    using end_segments_length [of k] by auto
  obtain version rest where e: "(if length (end_segments k) > 1 \<and> valid_version (hd (end_segments k))
      then (hd (end_segments k), tl (end_segments k)) else ([], end_segments k)) = (version, rest)"
      "version = ok_version k" "parse_rest rest = Some (ok_area k, ok_name k)"
    using end_parse [OF assms] by (auto simp: Let_def split: if_splits prod.splits)
  have "length (end_segments k) \<noteq> 0" using l(1) by simp
  then have "parse_key_segments (key_segments k) = Some k"
    using v l e(2,3) by (simp add: parse_key_segments_def parse_scope_key [OF assms] Let_def
        e(1) [unfolded One_nat_def])
  then show ?thesis by (simp add: parse_object_string [OF assms])
qed

text \<open>What is read.\<close>

lemma parse_scope_cases:
  assumes "parse_scope segs = Some (s, parts)"
  obtains (none) "s = no_scope" "parts = segs"
      "\<not> (length segs \<ge> 3 \<and> hd segs = ''tenant'' \<and> segs ! 2 \<in> {''app'', ''account''})"
  | (scoped) rest where "valid_scope s" "parts = partition_of s # rest" "segs = scope_segments s @ rest"
  | (no_app) rest where "valid_scope s" "parts = partition_of s # rest" "sc_app s = []"
      "segs = [''tenant'', sc_tenant s, ''app'', []] @ rest"
proof (cases "length segs \<ge> 3 \<and> hd segs = ''tenant'' \<and> segs ! 2 \<in> {''app'', ''account''}")
  case False
  then have "s = no_scope \<and> parts = segs" using assms by (simp only: parse_scope_def if_False) simp
  then show ?thesis using none False by blast
next
  case True
  then obtain t w r where segs: "segs = ''tenant'' # t # w # r" and w: "w = ''app'' \<or> w = ''account''"
    by (cases segs; cases "tl segs"; cases "tl (tl segs)") auto
  show ?thesis
  proof (cases "w = ''app''")
    case True
    obtain a r' where r: "r = a # r'"
      using assms True segs by (cases r) (auto simp: parse_scope_def)
    have s: "s = \<lparr>sc_tenant = t, sc_app = a\<rparr>" "valid_scope s" "parts = partition_of s # r'"
      using assms True segs r by (auto simp: parse_scope_def Let_def split: if_splits)
    show ?thesis
    proof (cases "a = []")
      case True
      then show ?thesis using no_app [of r'] s segs r \<open>w = ''app''\<close> by simp
    next
      case False
      then show ?thesis using scoped [of r'] s segs r \<open>w = ''app''\<close> by (simp add: scope_segments_def)
    qed
  next
    case False
    then have w: "w = ''account''" using w by simp
    have s: "s = \<lparr>sc_tenant = t, sc_app = []\<rparr>" "valid_scope s" "parts = partition_of s # r"
      using assms w segs by (auto simp: parse_scope_def Let_def split: if_splits)
    then show ?thesis using scoped [of r] segs w by (simp add: scope_segments_def)
  qed
qed

text \<open>The segments after the scope give the rest of the key.\<close>

lemma parse_end:
  assumes "(let (version, rest) = (if length rest > 1 \<and> valid_version (hd rest) then (hd rest, tl rest) else ([], rest))
      in map_option (\<lambda>(a, name). \<lparr>ok_namespace = n, ok_kind = kind, ok_id = i, ok_scope = s,
        ok_version = version, ok_area = a, ok_name = name\<rparr>) (parse_rest rest)) = Some k"
  shows "ok_namespace k = n \<and> ok_kind k = kind \<and> ok_id k = i \<and> ok_scope k = s \<and> rest = end_segments k \<and>
    (ok_version k = [] \<or> valid_version (ok_version k)) \<and>
    (if ok_area k = AreaManifest then ok_name k = [] else valid_name_in (ok_area k) (ok_name k))"
proof (cases "length rest > 1 \<and> valid_version (hd rest)")
  case True
  then obtain v r where r: "rest = v # r" "valid_version v" by (cases rest) auto
  then have v: "v \<noteq> []" by (auto simp: valid_version_def valid_segment_def)
  obtain a name where p: "parse_rest r = Some (a, name)" and k: "k = \<lparr>ok_namespace = n, ok_kind = kind, ok_id = i,
      ok_scope = s, ok_version = v, ok_area = a, ok_name = name\<rparr>"
    using assms True r by auto
  show ?thesis using p v r by (auto simp: k parse_rest_iff end_segments_def split: if_splits)
next
  case False
  then obtain a name where p: "parse_rest rest = Some (a, name)" and k: "k = \<lparr>ok_namespace = n, ok_kind = kind,
      ok_id = i, ok_scope = s, ok_version = [], ok_area = a, ok_name = name\<rparr>"
    using assms by (auto simp: Let_def)
  show ?thesis using p by (auto simp: k parse_rest_iff end_segments_def split: if_splits)
qed

text \<open>A path whose app id is empty, which is read as the account's.\<close>

definition empty_app :: "string list \<Rightarrow> object_key \<Rightarrow> bool" where
  "empty_app segs k \<longleftrightarrow> ok_scope k \<noteq> no_scope \<and> sc_app (ok_scope k) = [] \<and>
     segs = [''tenant'', sc_tenant (ok_scope k), ''app'', []] @ ok_kind k # ok_id k # end_segments k"

lemma parsed_key_valid:
  assumes "parse_key_segments segs = Some k"
  shows "valid_object_key k \<and> (key_segments k = segs \<or> empty_app segs k)"
proof -
  obtain s parts where sp: "parse_scope segs = Some (s, parts)"
    using assms by (auto simp: parse_key_segments_def split: option.splits)
  have p: "\<not> (length parts < 4 \<or> length parts > 6 \<or> \<not> valid_segment (parts ! 0) \<or>
             \<not> valid_segment (parts ! 1) \<or> \<not> valid_segment (parts ! 2))"
    using assms sp by (auto simp: parse_key_segments_def split: if_splits)
  then obtain n kind i rest where parts: "parts = n # kind # i # rest"
    by (cases parts; cases "tl parts"; cases "tl (tl parts)") auto
  have e: "(let (version, rest) = (if length rest > 1 \<and> valid_version (hd rest) then (hd rest, tl rest) else ([], rest))
      in map_option (\<lambda>(a, name). \<lparr>ok_namespace = n, ok_kind = kind, ok_id = i, ok_scope = s,
        ok_version = version, ok_area = a, ok_name = name\<rparr>) (parse_rest rest)) = Some k"
    using assms sp p by (simp add: parse_key_segments_def parts Let_def)
  note k = parse_end [OF e]
  have v: "valid_segment n" "valid_segment kind" "valid_segment i" using p by (simp_all add: parts)
  from sp show ?thesis
  proof (cases rule: parse_scope_cases)
    case none
    then have "n \<noteq> ''tenant'' \<or> i \<notin> {''app'', ''account''}" by (auto simp: parts)
    then have "valid_object_key k" using k v none(1) by (simp add: valid_object_key_def)
    moreover have "key_segments k = segs" using k none parts by (simp add: key_segments_end)
    ultimately show ?thesis by blast
  next
    case (scoped rest')
    then have r: "n = partition_of s" "rest' = kind # i # rest" by (simp_all add: parts)
    have s: "s \<noteq> no_scope" using scoped(1) no_scope_invalid by auto
    have "valid_object_key k" using k v scoped(1) s r(1) by (simp add: valid_object_key_def)
    moreover have "key_segments k = segs" using k s scoped(3) r by (simp add: key_segments_end)
    ultimately show ?thesis by blast
  next
    case (no_app rest')
    then have r: "n = partition_of s" "rest' = kind # i # rest" by (simp_all add: parts)
    have s: "s \<noteq> no_scope" using no_app(1) no_scope_invalid by auto
    have "valid_object_key k" using k v no_app(1) s r(1) by (simp add: valid_object_key_def)
    moreover have "empty_app segs k" using k s no_app(3,4) r by (simp add: empty_app_def)
    ultimately show ?thesis by blast
  qed
qed

interpretation layout_key: text_format key_string parse_object_key valid_object_key
proof unfold_locales
  show "valid_object_key k \<Longrightarrow> parse_object_key (key_string k) = Some k" for k by (rule parse_valid_key)
  show "parse_object_key s = Some k \<Longrightarrow> valid_object_key k" for s k
    using parsed_key_valid by (simp add: parse_object_key_def)
qed

text \<open>
  C22: object keys are read as they are written: the text of a valid key is read back to the
  key, what is read is valid, and the text read is the key's own, but for one form: a path
  with an empty app id is read as the key of the tenant's account root.
\<close>

theorem object_key_roundtrip:
  "(valid_object_key k \<longrightarrow> parse_object_key (key_string k) = Some k) \<and>
   (parse_object_key s = Some k \<longrightarrow> valid_object_key k \<and>
      (key_string k = s \<or>
       (\<exists>t rest. s = ''tenant/'' @ t @ ''/app//'' @ rest \<and> key_string k = ''tenant/'' @ t @ ''/account/'' @ rest)))"
proof -
  have "valid_object_key k \<and>
      (key_string k = s \<or>
       (\<exists>t rest. s = ''tenant/'' @ t @ ''/app//'' @ rest \<and> key_string k = ''tenant/'' @ t @ ''/account/'' @ rest))"
    if "parse_object_key s = Some k"
  proof -
    have p: "parse_key_segments (split_on (CHR ''/'') s) = Some k" using that by (simp add: parse_object_key_def)
    have s: "join ''/'' (split_on (CHR ''/'') s) = s" by (rule join_split_on)
    show ?thesis
    proof (cases "key_segments k = split_on (CHR ''/'') s")
      case True
      then have "key_string k = s" using s by (simp add: key_string_segments)
      then show ?thesis using parsed_key_valid [OF p] by blast
    next
      case False
      then have e: "empty_app (split_on (CHR ''/'') s) k" using parsed_key_valid [OF p] by blast
      let ?rest = "join ''/'' (ok_kind k # ok_id k # end_segments k)"
      have "s = join ''/'' ([''tenant'', sc_tenant (ok_scope k), ''app'', []] @ ok_kind k # ok_id k # end_segments k)"
        using s e by (simp only: empty_app_def)
      then have "s = ''tenant/'' @ sc_tenant (ok_scope k) @ ''/app//'' @ ?rest"
        using join_append [of "[''tenant'', sc_tenant (ok_scope k), ''app'', []]" "ok_kind k # ok_id k # end_segments k" "''/''"]
        by simp
      moreover have "key_string k = ''tenant/'' @ sc_tenant (ok_scope k) @ ''/account/'' @ ?rest"
      proof -
        have "key_segments k = [''tenant'', sc_tenant (ok_scope k), ''account''] @ ok_kind k # ok_id k # end_segments k"
          using e by (simp add: key_segments_end empty_app_def scope_segments_def)
        then show ?thesis by (simp add: key_string_segments)
      qed
      ultimately show ?thesis using parsed_key_valid [OF p] by blast
    qed
  qed
  then show ?thesis using parse_valid_key by blast
qed

definition sample_tenant :: string where
  "sample_tenant = ''0190f3a0-0000-7000-8000-000000000001''"

text \<open>A scoped private key, and the path with an empty app id that is read as an account key.\<close>

definition sample_key :: object_key where
  "sample_key = \<lparr>ok_namespace = ''tenant_'' @ sample_tenant, ok_kind = ''post'', ok_id = ''i1'',
     ok_scope = \<lparr>sc_tenant = sample_tenant, sc_app = []\<rparr>, ok_version = ''v1'', ok_area = AreaTemp, ok_name = ''a.webp''\<rparr>"

definition sample_path :: string where
  "sample_path = ''tenant/'' @ sample_tenant @ ''/app//post/i1/v1/temp/a.webp''"

lemma sample_path_read: "parse_object_key sample_path = Some sample_key"
  by code_simp

lemma sample_path_differs: "key_string sample_key \<noteq> sample_path"
  by code_simp

theorem object_key_roundtrip_witness:
  "valid_object_key sample_key \<and> parse_object_key (key_string sample_key) = Some sample_key \<and>
   (\<exists>t rest. sample_path = ''tenant/'' @ t @ ''/app//'' @ rest \<and>
      key_string sample_key = ''tenant/'' @ t @ ''/account/'' @ rest)"
proof -
  have "valid_object_key sample_key"
    using object_key_roundtrip [of sample_key sample_path] sample_path_read by blast
  then show ?thesis
    using object_key_roundtrip [of sample_key sample_path] sample_path_read sample_path_differs by blast
qed

end
