(* ===== verification/Media_Token.thy ===== *)
theory Media_Token
  imports Decimals Layout_Props
begin

text \<open>
  Package \<open>media/token\<close>: signed bearer tokens for media, and what they open. HMAC-SHA256 is
  the parameter \<open>hmac\<close>, a function of the secret and the message. A duration and a time
  are nanoseconds.
\<close>

section \<open>Keys and rings\<close>

record token_key =
  tk_id :: string
  tk_secret :: string

record ring =
  rg_current :: token_key
  rg_previous :: "token_key option"

datatype ring_error = BadKey string | ReusedKeyId string | KeyForm | SecretForm string

datatype token_error = TokenMalformed | TokenExpired | TokenUnknownKey | TokenInvalid

definition ring_key_ok :: "token_key \<Rightarrow> bool" where
  "ring_key_ok k \<longleftrightarrow> tk_id k \<noteq> [] \<and> CHR ''.'' \<notin> set (tk_id k) \<and> CHR ''|'' \<notin> set (tk_id k) \<and>
     length (tk_secret k) \<ge> 32"

definition new_ring :: "token_key \<Rightarrow> token_key option \<Rightarrow> (ring_error, ring) result" where
  "new_ring current previous =
     bindr (fold_result (\<lambda>k _. if ring_key_ok k then Inr () else Inl (BadKey (tk_id k)))
              (current # (case previous of None \<Rightarrow> [] | Some p \<Rightarrow> [p])) ())
       (\<lambda>_. if (case previous of None \<Rightarrow> False | Some p \<Rightarrow> tk_id p = tk_id current)
         then Inl (ReusedKeyId (tk_id current))
         else Inr \<lparr>rg_current = current, rg_previous = previous\<rparr>)"

definition parse_token_key :: "string \<Rightarrow> (ring_error, token_key) result" where
  "parse_token_key s =
     (case str_cut (CHR '':'') (trim_space s) of
        (_, None) \<Rightarrow> Inl KeyForm
      | (i, Some e) \<Rightarrow>
          (let e = trim_right (CHR ''='') e
           in case b64_decode b64_std e of
                Some secret \<Rightarrow> Inr \<lparr>tk_id = i, tk_secret = secret\<rparr>
              | None \<Rightarrow>
                  (case b64_decode b64_url e of
                     Some secret \<Rightarrow> Inr \<lparr>tk_id = i, tk_secret = secret\<rparr>
                   | None \<Rightarrow> Inl (SecretForm i))))"

definition parse_ring :: "string \<Rightarrow> string \<Rightarrow> (ring_error, ring) result" where
  "parse_ring current previous =
     bindr (parse_token_key current) (\<lambda>cur.
       if trim_space previous \<noteq> [] then bindr (parse_token_key previous) (\<lambda>p. new_ring cur (Some p))
       else new_ring cur None)"

section \<open>Signing\<close>

definition second_ns :: int where "second_ns = 1000000000"

text \<open>\<open>Time.Unix\<close> rounds down.\<close>

definition unix :: "time \<Rightarrow> int" where
  "unix t = t div second_ns"

definition default_window :: int where "default_window = 4 * 3600 * second_ns"

definition token_expiry :: "time \<Rightarrow> int \<Rightarrow> int \<Rightarrow> time" where
  "token_expiry now ttl window =
     (let window = (if window \<le> 0 then default_window else window);
          w = window sdiv second_ns + (if window smod second_ns \<noteq> 0 then 1 else 0);
          target = now + ttl;
          seconds = unix target + (if target mod second_ns \<noteq> 0 then 1 else 0);
          intervals = seconds sdiv w + (if seconds smod w > 0 then 1 else 0)
      in intervals * w * second_ns)"

type_synonym hmac = "string \<Rightarrow> string \<Rightarrow> string"

definition mac_message :: "string \<Rightarrow> string \<Rightarrow> string" where
  "mac_message scope e = scope @ ''|'' @ e"

definition mac :: "hmac \<Rightarrow> string \<Rightarrow> string \<Rightarrow> string \<Rightarrow> string" where
  "mac hmac secret scope e = b64_encode b64_url (hmac secret (mac_message scope e))"

definition sign :: "hmac \<Rightarrow> ring \<Rightarrow> string \<Rightarrow> time \<Rightarrow> string" where
  "sign hmac r scope expires =
     (let e = dec_int (unix expires)
      in tk_id (rg_current r) @ ''.'' @ e @ ''.'' @ mac hmac (tk_secret (rg_current r)) scope e)"

section \<open>Verification\<close>

definition ring_secret :: "ring \<Rightarrow> string \<Rightarrow> string option" where
  "ring_secret r kid =
     (if kid = tk_id (rg_current r) then Some (tk_secret (rg_current r))
      else (case rg_previous r of
              None \<Rightarrow> None
            | Some p \<Rightarrow> if kid = tk_id p then Some (tk_secret p) else None))"

text \<open>A token as its key id, expiry text and signature; the expiry is a canonical decimal.\<close>

definition split_token :: "string \<Rightarrow> (string \<times> string \<times> int \<times> string) option" where
  "split_token tok =
     (case str_cut (CHR ''.'') tok of
        (_, None) \<Rightarrow> None
      | (kid, Some rest) \<Rightarrow>
          if kid = [] then None
          else (case str_cut (CHR ''.'') rest of
                  (_, None) \<Rightarrow> None
                | (e, Some sig) \<Rightarrow>
                    if e = [] \<or> sig = [] then None
                    else (case parse_int64 e of
                            None \<Rightarrow> None
                          | Some i \<Rightarrow> if dec_int i \<noteq> e then None else Some (kid, e, i, sig))))"

definition verify_scope :: "hmac \<Rightarrow> ring \<Rightarrow> string \<Rightarrow> string \<Rightarrow> time \<Rightarrow> token_error option" where
  "verify_scope hmac r tok scope now =
     (case split_token tok of
        None \<Rightarrow> Some TokenMalformed
      | Some (kid, e, expires, sig) \<Rightarrow>
          (case ring_secret r kid of
             None \<Rightarrow> Some TokenUnknownKey
           | Some secret \<Rightarrow>
               if unix now \<ge> expires then Some TokenExpired
               else (case b64_decode b64_url sig of
                       None \<Rightarrow> Some TokenMalformed
                     | Some got \<Rightarrow>
                         if b64_decode b64_url (mac hmac secret scope e) = Some got then None
                         else Some TokenInvalid)))"

definition private_file_scope :: "string \<Rightarrow> string" where
  "private_file_scope key = ''private-file|'' @ key"

text \<open>The folder of a key, and its area: the last two segments are cut off.\<close>

definition folder_of_key :: "string \<Rightarrow> (object_key \<times> string) option" where
  "folder_of_key key =
     (let parts = split_on (CHR ''/'') key; n = length parts
      in if n < 3 \<or> parts ! (n - 1) = [] then None
         else map_option (\<lambda>k. (k, parts ! (n - 2))) (parse_folder (join ''/'' (take (n - 2) parts) @ ''/'')))"

definition item_scope :: "object_key \<Rightarrow> string" where
  "item_scope k = trim_suffix ''/'' (key_folder k)"

definition verify_private :: "hmac \<Rightarrow> ring \<Rightarrow> string \<Rightarrow> string \<Rightarrow> time \<Rightarrow> token_error option" where
  "verify_private hmac r tok key now =
     (case folder_of_key key of
        None \<Rightarrow> Some TokenInvalid
      | Some (k, area) \<Rightarrow>
          if area \<noteq> area_name AreaPrivate then Some TokenInvalid
          else (let e = verify_scope hmac r tok (private_file_scope key) now
                in if e \<noteq> Some TokenInvalid then e else verify_scope hmac r tok (item_scope k) now))"

end
