(* ===== verification/Token_Props.thy ===== *)
theory Token_Props
  imports Media_Token
begin

text \<open>
  Media tokens: expiries are the next window boundary, what is signed verifies for exactly its
  scope until it expires, and which private files a token opens.
\<close>

section \<open>Expiry\<close>

lemma sdiv_ceil:
  fixes s w :: int
  assumes "w > 0"
  shows "s sdiv w + (if s smod w > 0 then 1 else 0) = - ((- s) div w)"
proof (cases "s \<ge> 0")
  case True
  have "s sdiv w = s div w" "s smod w = s mod w"
    using True assms by (simp_all add: signed_divide_int_def signed_modulo_int_def sgn_if)
  moreover have "s mod w > 0 \<longleftrightarrow> s mod w \<noteq> 0" using pos_mod_sign [OF assms, of s] by linarith
  ultimately show ?thesis using zdiv_zminus1_eq_if [of w s] assms by simp
next
  case False
  have "s sdiv w = - ((- s) div w)" "s smod w = - ((- s) mod w)"
    using False assms by (simp_all add: signed_divide_int_def signed_modulo_int_def)
  moreover have "(- s) mod w \<ge> 0" using assms by simp
  ultimately show ?thesis by simp
qed

lemma ceil_least:
  fixes s w :: int
  assumes "w > 0"
  shows "s \<le> - ((- s) div w) * w" "- ((- s) div w) * w < s + w"
proof -
  have "- s = (- s) div w * w + (- s) mod w" by (rule div_mult_mod_eq [symmetric])
  moreover have "0 \<le> (- s) mod w" "(- s) mod w < w" using assms by simp_all
  ultimately show "s \<le> - ((- s) div w) * w" "- ((- s) div w) * w < s + w"
    by linarith+
qed

lemma seconds_up: "(t div k) + (if t mod k \<noteq> 0 then 1 else 0) = - ((- t) div k)" if "k > 0" for k t :: int
  using zdiv_zminus1_eq_if [of k t] that by auto

definition whole_seconds :: "int \<Rightarrow> int" where
  "whole_seconds window = - ((- (if window \<le> 0 then default_window else window)) div second_ns)"

lemma whole_seconds_pos: "whole_seconds window > 0"
proof -
  let ?w = "if window \<le> 0 then default_window else window"
  have "?w > 0" by (simp add: default_window_def second_ns_def)
  moreover have "?w \<le> whole_seconds window * second_ns"
    using ceil_least(1) [of second_ns ?w] by (simp add: whole_seconds_def second_ns_def)
  ultimately have "0 < whole_seconds window * second_ns" by linarith
  then show ?thesis by (simp add: second_ns_def)
qed

lemma token_expiry_ceil:
  "token_expiry now ttl window =
     - ((- (- ((- (now + ttl)) div second_ns))) div whole_seconds window) * whole_seconds window * second_ns"
proof -
  let ?v = "if window \<le> 0 then default_window else window"
  have v: "?v > 0" by (simp add: default_window_def second_ns_def)
  have "?v sdiv second_ns + (if ?v smod second_ns \<noteq> 0 then 1 else 0) = whole_seconds window"
  proof -
    have "?v smod second_ns \<ge> 0" using v by (simp add: signed_modulo_int_def second_ns_def)
    then have "(if ?v smod second_ns \<noteq> 0 then 1 else 0 :: int) = (if ?v smod second_ns > 0 then 1 else 0)" by auto
    then show ?thesis using sdiv_ceil [of second_ns ?v] by (simp add: whole_seconds_def second_ns_def)
  qed
  moreover have "unix (now + ttl) + (if (now + ttl) mod second_ns \<noteq> 0 then 1 else 0) = - ((- (now + ttl)) div second_ns)"
    unfolding unix_def by (rule seconds_up) (simp add: second_ns_def)
  ultimately show ?thesis
    by (simp only: token_expiry_def Let_def sdiv_ceil [OF whole_seconds_pos])
qed

text \<open>
  a token expires at the first boundary of a window that is not before the time asked for:
  a whole number of windows, the window rounded up to whole seconds, less than a window late.
\<close>

theorem expiry_least:
  "token_expiry now ttl window mod (whole_seconds window * second_ns) = 0 \<and>
   now + ttl \<le> token_expiry now ttl window \<and>
   token_expiry now ttl window < now + ttl + whole_seconds window * second_ns"
proof -
  let ?w = "whole_seconds window" and ?t = "now + ttl"
  define S where "S = - ((- ?t) div second_ns)"
  define C where "C = - ((- S) div ?w)"
  have e: "token_expiry now ttl window = C * ?w * second_ns"
    unfolding token_expiry_ceil C_def S_def by simp
  have s: "?t \<le> S * second_ns" "S * second_ns < ?t + second_ns"
    using ceil_least [of second_ns ?t] by (simp_all add: S_def second_ns_def)
  have c: "S \<le> C * ?w" "C * ?w < S + ?w"
    using ceil_least [OF whole_seconds_pos [of window], of S] by (simp_all add: C_def)
  have "S * second_ns \<le> C * ?w * second_ns" "C * ?w * second_ns \<le> (S + ?w - 1) * second_ns"
    using c by (simp_all add: mult_right_mono second_ns_def del: mult_le_cancel_right)
  moreover have "(S + ?w - 1) * second_ns = S * second_ns + ?w * second_ns - second_ns" by (simp add: algebra_simps)
  ultimately have "?t \<le> C * ?w * second_ns" "C * ?w * second_ns < ?t + ?w * second_ns"
    using s by linarith+
  moreover have "C * ?w * second_ns mod (?w * second_ns) = 0" by (simp add: mult.assoc)
  ultimately show ?thesis unfolding e by blast
qed

section \<open>What is signed verifies\<close>

definition token_text :: "string \<Rightarrow> int \<Rightarrow> string \<Rightarrow> string" where
  "token_text kid e sig = kid @ ''.'' @ dec_int e @ ''.'' @ sig"

lemma split_token_text:
  assumes "kid \<noteq> []" "CHR ''.'' \<notin> set kid" "int64_range e" "sig \<noteq> []"
  shows "split_token (token_text kid e sig) = Some (kid, dec_int e, e, sig)"
  using assms dec_int_no_dot(1) [of e]
  by (simp add: split_token_def token_text_def parse_dec_int)

lemma int64_range_iff: "parse_int64 s = Some i \<Longrightarrow> int64_range i"
  by (auto simp: parse_int64_def int64_range_def split: option.splits if_splits)

lemma split_token_exact:
  "split_token tok = Some (kid, e, i, sig) \<longleftrightarrow>
     tok = token_text kid i sig \<and> e = dec_int i \<and> kid \<noteq> [] \<and> CHR ''.'' \<notin> set kid \<and> int64_range i \<and> sig \<noteq> []"
proof
  assume "split_token tok = Some (kid, e, i, sig)"
  then show "tok = token_text kid i sig \<and> e = dec_int i \<and> kid \<noteq> [] \<and> CHR ''.'' \<notin> set kid \<and> int64_range i \<and> sig \<noteq> []"
    by (auto simp: split_token_def token_text_def str_cut_Some_iff int64_range_iff
        split: prod.splits option.splits if_splits)
next
  assume "tok = token_text kid i sig \<and> e = dec_int i \<and> kid \<noteq> [] \<and> CHR ''.'' \<notin> set kid \<and> int64_range i \<and> sig \<noteq> []"
  then show "split_token tok = Some (kid, e, i, sig)" by (simp add: split_token_text)
qed

definition ring_ok :: "ring \<Rightarrow> bool" where
  "ring_ok r \<longleftrightarrow> ring_key_ok (rg_current r) \<and>
     (case rg_previous r of None \<Rightarrow> True | Some p \<Rightarrow> ring_key_ok p \<and> tk_id p \<noteq> tk_id (rg_current r))"

lemma new_ring_ok: "new_ring c p = Inr r \<Longrightarrow> ring_ok r \<and> rg_current r = c \<and> rg_previous r = p"
  by (auto simp: new_ring_def bindr_def ring_ok_def split: sum.splits option.splits if_splits)

lemma ring_secret_key:
  assumes "ring_ok r" "k = rg_current r \<or> rg_previous r = Some k"
  shows "ring_secret r (tk_id k) = Some (tk_secret k)" "ring_key_ok k"
  using assms by (auto simp: ring_ok_def ring_secret_def split: option.splits)

lemma verify_signed:
  assumes "ring_ok r" "ring_ok r0" "rg_current r0 = rg_current r \<or> rg_previous r = Some (rg_current r0)"
    "int64_range (unix expires)" "\<And>m. hmac (tk_secret (rg_current r0)) m \<noteq> []"
  shows "verify_scope hmac r (sign hmac r0 scope expires) scope' now =
    (if unix now \<ge> unix expires then Some TokenExpired
     else if hmac (tk_secret (rg_current r0)) (mac_message scope' (dec_int (unix expires))) =
       hmac (tk_secret (rg_current r0)) (mac_message scope (dec_int (unix expires))) then None
     else Some TokenInvalid)"
proof -
  let ?k = "rg_current r0" and ?e = "dec_int (unix expires)"
  have k: "ring_secret r (tk_id ?k) = Some (tk_secret ?k)" "ring_key_ok ?k"
    using ring_secret_key [OF assms(1), of ?k] assms(3) by auto
  have "sign hmac r0 scope expires = token_text (tk_id ?k) (unix expires) (mac hmac (tk_secret ?k) scope ?e)"
    by (simp add: sign_def token_text_def Let_def)
  moreover have "mac hmac (tk_secret ?k) scope ?e \<noteq> []"
    using b64_encode_nonempty [OF assms(5)] by (simp add: mac_def)
  ultimately have s: "split_token (sign hmac r0 scope expires) = Some (tk_id ?k, ?e, unix expires, mac hmac (tk_secret ?k) scope ?e)"
    using k(2) assms(4) by (simp add: split_token_text ring_key_ok_def)
  show ?thesis unfolding verify_scope_def s by (simp add: k b64_roundtrip mac_def)
qed

text \<open>Two scopes share a MAC only when they are the same: no collision between their messages.\<close>

definition no_collision :: "hmac \<Rightarrow> string \<Rightarrow> string \<Rightarrow> string \<Rightarrow> string \<Rightarrow> bool" where
  "no_collision hmac secret e s s' \<longleftrightarrow>
     hmac secret (mac_message s e) = hmac secret (mac_message s' e) \<longrightarrow> mac_message s e = mac_message s' e"

lemma mac_message_inj: "mac_message s e = mac_message s' e \<longleftrightarrow> s = s'"
  by (simp add: mac_message_def)

lemma private_token_opens:
  assumes "new_ring c p = Inr r" "new_ring c0 p0 = Inr r0" "c0 = c \<or> p = Some c0"
    "int64_range (unix expires)" "\<forall>m. hmac (tk_secret c0) m \<noteq> []"
    "\<forall>s' \<in> {private_file_scope key} \<union> item_scope ` set (case folder_of_key key of None \<Rightarrow> [] | Some (k, _) \<Rightarrow> [k]).
       no_collision hmac (tk_secret c0) (dec_int (unix expires)) s' scope"
  shows "verify_private hmac r (sign hmac r0 scope expires) key now = None \<longleftrightarrow>
    unix now < unix expires \<and>
    (\<exists>k. folder_of_key key = Some (k, ''private'') \<and> (scope = private_file_scope key \<or> scope = item_scope k))"
proof -
  have ok: "ring_ok r" "ring_ok r0" "rg_current r0 = c0"
    "rg_current r0 = rg_current r \<or> rg_previous r = Some (rg_current r0)"
    using new_ring_ok [OF assms(1)] new_ring_ok [OF assms(2)] assms(3) by auto
  have v: "verify_scope hmac r (sign hmac r0 scope expires) s' now =
      (if unix now \<ge> unix expires then Some TokenExpired else if s' = scope then None else Some TokenInvalid)"
    if "no_collision hmac (tk_secret c0) (dec_int (unix expires)) s' scope" for s'
  proof -
    have "hmac (tk_secret c0) (mac_message s' (dec_int (unix expires))) =
        hmac (tk_secret c0) (mac_message scope (dec_int (unix expires))) \<longleftrightarrow> s' = scope"
      using that by (auto simp: no_collision_def mac_message_inj)
    then show ?thesis
      using verify_signed [OF ok(1) ok(2) ok(4) assms(4), of hmac scope s' now] assms(5) ok(3) by simp
  qed
  have a: "area_name AreaPrivate = ''private''" by (simp add: area_name.simps)
  show ?thesis
  proof (cases "folder_of_key key")
    case None
    then show ?thesis by (simp add: verify_private_def)
  next
    case (Some ka)
    obtain k area where ka: "ka = (k, area)" by (cases ka)
    have "verify_private hmac r (sign hmac r0 scope expires) key now = None \<longleftrightarrow>
        area = ''private'' \<and> unix now < unix expires \<and> (scope = private_file_scope key \<or> scope = item_scope k)"
      using v [of "private_file_scope key"] v [of "item_scope k"] assms(6) Some ka
      by (auto simp: verify_private_def a Let_def)
    then show ?thesis using Some ka by auto
  qed
qed

section \<open>Any token\<close>

text \<open>
  A token is genuine for a scope at a time when it is the text of a key of the ring, an expiry
  that is not over and the key's MAC of the two, in base64.
\<close>

definition genuine_token :: "hmac \<Rightarrow> ring \<Rightarrow> string \<Rightarrow> string \<Rightarrow> time \<Rightarrow> bool" where
  "genuine_token hmac r tok scope now \<longleftrightarrow> (\<exists>k e sig. (k = rg_current r \<or> rg_previous r = Some k) \<and>
     tok = token_text (tk_id k) e sig \<and> int64_range e \<and> sig \<noteq> [] \<and> unix now < e \<and>
     b64_decode b64_url sig = Some (hmac (tk_secret k) (mac_message scope (dec_int e))))"

lemma verify_scope_split:
  "verify_scope hmac r tok scope now = None \<longleftrightarrow> (\<exists>kid e sig secret. split_token tok = Some (kid, dec_int e, e, sig) \<and>
     ring_secret r kid = Some secret \<and> unix now < e \<and>
     b64_decode b64_url sig = Some (hmac secret (mac_message scope (dec_int e))))"
proof (cases "split_token tok")
  case (Some t)
  obtain kid e i sig where t: "t = (kid, e, i, sig)" by (cases t)
  have "e = dec_int i" using Some [unfolded t split_token_exact] by blast
  then show ?thesis using Some t by (auto simp: verify_scope_def mac_def b64_roundtrip split: option.split)
qed (simp add: verify_scope_def)

lemma verify_scope_exact:
  assumes "ring_ok r"
  shows "verify_scope hmac r tok scope now = None \<longleftrightarrow> genuine_token hmac r tok scope now"
proof
  assume "verify_scope hmac r tok scope now = None"
  then obtain kid e sig secret where t: "split_token tok = Some (kid, dec_int e, e, sig)" "ring_secret r kid = Some secret"
      "unix now < e" "b64_decode b64_url sig = Some (hmac secret (mac_message scope (dec_int e)))"
    unfolding verify_scope_split by blast
  have "\<exists>k. (k = rg_current r \<or> rg_previous r = Some k) \<and> kid = tk_id k \<and> secret = tk_secret k"
    using t(2) by (auto simp: ring_secret_def split: if_splits option.splits)
  then show "genuine_token hmac r tok scope now"
    using t unfolding split_token_exact genuine_token_def by blast
next
  assume "genuine_token hmac r tok scope now"
  then obtain k e sig where k: "k = rg_current r \<or> rg_previous r = Some k" and t: "tok = token_text (tk_id k) e sig"
      "int64_range e" "sig \<noteq> []" "unix now < e" "b64_decode b64_url sig = Some (hmac (tk_secret k) (mac_message scope (dec_int e)))"
    unfolding genuine_token_def by blast
  note key = ring_secret_key [OF assms k]
  have "split_token tok = Some (tk_id k, dec_int e, e, sig)"
    using key(2) t by (simp add: split_token_text ring_key_ok_def)
  then show "verify_scope hmac r tok scope now = None"
    unfolding verify_scope_split using key(1) t by blast
qed

text \<open>Only the last check depends on the scope.\<close>

lemma verify_scope_other:
  "verify_scope hmac r tok scope now = None \<Longrightarrow> verify_scope hmac r tok scope' now \<in> {None, Some TokenInvalid}"
  unfolding verify_scope_split by (auto simp: verify_scope_def split: if_splits)

lemma verify_private_genuine:
  assumes "ring_ok r" "folder_of_key key = Some (k, ''private'')"
  shows "verify_private hmac r tok key now = None \<longleftrightarrow>
    genuine_token hmac r tok (private_file_scope key) now \<or> genuine_token hmac r tok (item_scope k) now"
  using verify_scope_other [of hmac r tok "item_scope k" now "private_file_scope key"]
  unfolding verify_scope_exact [OF assms(1), symmetric]
  by (auto simp: verify_private_def assms(2) area_name.simps Let_def)

text \<open>What a key of the ring signs is genuine for its own scope until it expires.\<close>

lemma signed_genuine:
  assumes "new_ring c p = Inr r" "new_ring c0 p0 = Inr r0" "c0 = c \<or> p = Some c0"
    "int64_range (unix expires)" "\<forall>m. hmac (tk_secret c0) m \<noteq> []"
  shows "genuine_token hmac r (sign hmac r0 scope expires) scope now \<longleftrightarrow> unix now < unix expires"
proof -
  have ok: "ring_ok r" "ring_ok r0" "rg_current r0 = rg_current r \<or> rg_previous r = Some (rg_current r0)" "rg_current r0 = c0"
    using new_ring_ok [OF assms(1)] new_ring_ok [OF assms(2)] assms(3) by auto
  show ?thesis
    unfolding verify_scope_exact [OF ok(1), symmetric]
    using verify_signed [OF ok(1-3) assms(4), of hmac scope scope now] assms(5) ok(4) by simp
qed

text \<open>
  C23: whoever holds a token signed by a key of the ring (the current one, or the previous one
  after a rotation) opens a private object key exactly when the token has not expired and its
  scope is that file's or that item's folder; a key outside the private area opens to no
  token. HMAC outputs are not empty and the messages compared do not collide.
\<close>

theorem private_token_exact:
  assumes "new_ring c p = Inr r" "new_ring c0 p0 = Inr r0" "c0 = c \<or> p = Some c0"
    "int64_range (unix expires)" "\<forall>m. hmac (tk_secret c0) m \<noteq> []"
    "\<forall>s' \<in> {private_file_scope key} \<union> item_scope ` set (case folder_of_key key of None \<Rightarrow> [] | Some (k, _) \<Rightarrow> [k]).
       no_collision hmac (tk_secret c0) (dec_int (unix expires)) s' scope"
  shows "verify_private hmac r (sign hmac r0 scope expires) key now = None \<longleftrightarrow>
    unix now < unix expires \<and>
    (\<exists>k. folder_of_key key = Some (k, ''private'') \<and> (scope = private_file_scope key \<or> scope = item_scope k))"
  using assms by (rule private_token_opens)

section \<open>The tokens of an object key\<close>

definition front_segments :: "object_key \<Rightarrow> string list" where
  "front_segments k = (if ok_scope k \<noteq> no_scope then scope_segments (ok_scope k) else [ok_namespace k]) @
     item_segments (ok_kind k) (ok_id k) (ok_version k)"

definition manifest_key :: "object_key \<Rightarrow> object_key" where
  "manifest_key k = k\<lparr>ok_area := AreaManifest, ok_name := []\<rparr>"

lemma front_not_empty [simp]: "front_segments k \<noteq> []" "length (front_segments k) \<noteq> 0"
  by (simp_all add: front_segments_def item_segments_def)

lemma key_folder_manifest [simp]: "key_folder (manifest_key k) = key_folder k"
  by (simp add: key_folder_def manifest_key_def)

lemma key_folder_front: "key_folder k = join ''/'' (front_segments k) @ ''/''"
proof -
  have "key_folder (manifest_key k) @ manifest_name = key_string (manifest_key k)"
    by (simp add: key_string_def manifest_key_def)
  also have "\<dots> = join ''/'' (front_segments k @ [manifest_name])"
    by (simp add: key_string_segments key_segments_def front_segments_def manifest_key_def)
  also have "\<dots> = (join ''/'' (front_segments k) @ ''/'') @ manifest_name"
    by (simp add: join_append)
  finally have "key_folder (manifest_key k) = join ''/'' (front_segments k) @ ''/''"
    by (simp only: append_same_eq)
  then show ?thesis by simp
qed

lemma item_scope_front: "item_scope k = join ''/'' (front_segments k)"
  by (simp add: item_scope_def key_folder_front trim_suffix_def has_suffix_def)

lemma manifest_key_valid: "valid_object_key k \<Longrightarrow> valid_object_key (manifest_key k)"
  by (auto simp: valid_object_key_def manifest_key_def split: if_splits)

lemma item_scope_manifest: "item_scope (manifest_key k) = item_scope k"
  by (simp add: item_scope_def)

lemma parse_folder_key: "valid_object_key k \<Longrightarrow> parse_folder (key_folder k) = Some (manifest_key k)"
proof -
  assume v: "valid_object_key k"
  have "key_string (manifest_key k) = key_folder k @ manifest_name"
    by (simp add: key_string_def) (simp add: manifest_key_def)
  then have "parse_object_key (key_folder k @ manifest_name) = Some (manifest_key k)"
    using parse_valid_key [OF manifest_key_valid [OF v]] by simp
  then show ?thesis by (simp add: parse_folder_def)
qed

lemma folder_of_object_key:
  assumes "valid_object_key k" "ok_area k \<noteq> AreaManifest"
  shows "folder_of_key (key_string k) = Some (manifest_key k, area_name (ok_area k))"
proof -
  have seg: "key_segments k = front_segments k @ [area_name (ok_area k), ok_name k]"
    using assms(2) by (simp add: key_segments_def front_segments_def)
  have ok: "\<forall>x \<in> set (key_segments k). segment x" by (rule key_segments_ok [OF assms(1)])
  have split: "split_on (CHR ''/'') (key_string k) = front_segments k @ [area_name (ok_area k), ok_name k]"
    unfolding key_string_segments seg
    by (rule split_on_join) (use ok seg in \<open>auto simp: segment_def\<close>)
  have "ok_name k \<noteq> []" using ok seg by (simp add: segment_def)
  moreover have "join ''/'' (front_segments k) @ ''/'' = key_folder k" by (simp add: key_folder_front)
  moreover have "length (front_segments k) \<ge> 1" by (cases "front_segments k") auto
  ultimately show ?thesis
    unfolding folder_of_key_def Let_def split
    by (simp add: nth_append parse_folder_key [OF assms(1)])
qed

definition sample_private :: object_key where
  "sample_private = \<lparr>ok_namespace = ''tenant_'' @ sample_tenant, ok_kind = ''post'', ok_id = ''i1'',
     ok_scope = \<lparr>sc_tenant = sample_tenant, sc_app = []\<rparr>, ok_version = [], ok_area = AreaPrivate,
     ok_name = ''sha256-'' @ replicate 64 (CHR ''0'')\<rparr>"

definition sample_token_key :: "char \<Rightarrow> token_key" where
  "sample_token_key c = \<lparr>tk_id = [c], tk_secret = replicate 32 c\<rparr>"

definition sample_ring :: ring where
  "sample_ring = \<lparr>rg_current = sample_token_key (CHR ''b''), rg_previous = Some (sample_token_key (CHR ''a''))\<rparr>"

definition sample_old_ring :: ring where
  "sample_old_ring = \<lparr>rg_current = sample_token_key (CHR ''a''), rg_previous = None\<rparr>"

definition sample_hmac :: hmac where
  "sample_hmac secret m = CHR ''h'' # m"

lemma sample_private_valid: "valid_object_key sample_private"
  by code_simp

lemma sample_rings:
  "new_ring (sample_token_key (CHR ''b'')) (Some (sample_token_key (CHR ''a''))) = Inr sample_ring"
  "new_ring (sample_token_key (CHR ''a'')) None = Inr sample_old_ring"
  by code_simp+

lemma sample_folder: "folder_of_key (key_string sample_private) = Some (manifest_key sample_private, ''private'')"
  using folder_of_object_key [OF sample_private_valid]
  by (simp add: sample_private_def area_name.simps)

theorem private_token_exact_witness:
  "verify_private sample_hmac sample_ring (sign sample_hmac sample_old_ring (item_scope sample_private) (3600 * second_ns))
     (key_string sample_private) 0 = None"
proof -
  have "verify_private sample_hmac sample_ring (sign sample_hmac sample_old_ring (item_scope sample_private) (3600 * second_ns))
     (key_string sample_private) 0 = None \<longleftrightarrow>
    unix 0 < unix (3600 * second_ns) \<and>
    (\<exists>k. folder_of_key (key_string sample_private) = Some (k, ''private'') \<and>
      (item_scope sample_private = private_file_scope (key_string sample_private) \<or> item_scope sample_private = item_scope k))"
    by (rule private_token_exact [OF sample_rings])
      (simp_all add: int64_range_def unix_def second_ns_def no_collision_def sample_hmac_def)
  then show ?thesis
    by (simp add: sample_folder item_scope_manifest unix_def second_ns_def)
qed

end
