(* ===== verification/Media_Gateway.thy ===== *)
theory Media_Gateway
  imports Token_Props Media_Download
begin

text \<open>
  Package \<open>media/gateway\<close>: the handler that serves media objects from a bucket. The bucket is
  the parameter \<open>upstream\<close>: what it answers to a request after the requests made before it
  (\<open>None\<close>: no answer). A request handled is its response and the requests it made, in order.
  The query and the cookies of a request are given parsed, in order; a header is a canonical
  name and its values.
\<close>

section \<open>Requests and responses\<close>

type_synonym headers = "(string \<times> string list) list"

record media_request =
  mq_method :: string
  mq_host :: string
  mq_path :: string
  mq_raw_path :: string
  mq_query :: "(string \<times> string) list"
  mq_cookies :: "(string \<times> string) list"
  mq_headers :: headers

record media_response =
  mp_status :: nat
  mp_headers :: headers
  mp_body :: string

record bucket_request =
  bq_method :: string
  bq_path :: string
  bq_headers :: headers

type_synonym upstream = "bucket_request list \<Rightarrow> bucket_request \<Rightarrow> media_response option"

definition header_values :: "headers \<Rightarrow> string \<Rightarrow> string list" where
  "header_values h name = (case map_of h name of None \<Rightarrow> [] | Some vs \<Rightarrow> vs)"

definition header_get :: "headers \<Rightarrow> string \<Rightarrow> string" where
  "header_get h name = (case header_values h name of [] \<Rightarrow> [] | v # _ \<Rightarrow> v)"

definition header_set :: "string \<Rightarrow> string \<Rightarrow> headers \<Rightarrow> headers" where
  "header_set name v h = AList.update name [v] h"

definition header_add :: "string \<Rightarrow> string \<Rightarrow> headers \<Rightarrow> headers" where
  "header_add name v h = AList.update name (header_values h name @ [v]) h"

definition query_get :: "(string \<times> string) list \<Rightarrow> string \<Rightarrow> string" where
  "query_get q name = (case map_of q name of None \<Rightarrow> [] | Some v \<Rightarrow> v)"

section \<open>Configuration\<close>

record media_route =
  mt_host :: string
  mt_scope :: scope
  mt_bucket :: string
  mt_origins :: "string list"

text \<open>\<open>net/url\<close>'s reading of a URL is the parameter \<open>parse_url\<close>.\<close>

record url_parts =
  up_scheme :: string
  up_host :: string
  up_path :: string
  up_user :: bool
  up_query :: string
  up_fragment :: string

record gateway_config =
  gc_routes :: "media_route list"
  gc_endpoint :: string
  gc_region :: string
  gc_access_key :: string
  gc_secret :: string
  gc_ring :: ring
  gc_defaults :: "layout_default list"

record gateway =
  gw_routes :: "media_route list"
  gw_base :: url_parts
  gw_region :: string
  gw_ring :: ring
  gw_defaults :: "(string \<times> (string \<times> string) list) list"

datatype gateway_error =
  MissingCredentials | BadEndpoint | NoRoutes | BadRoute | BadOrigin string | BadDefault string

definition valid_origin :: "(string \<Rightarrow> url_parts option) \<Rightarrow> string \<Rightarrow> gateway_error option" where
  "valid_origin parse_url s =
     (case parse_url s of
        None \<Rightarrow> Some (BadOrigin s)
      | Some u \<Rightarrow>
          if up_scheme u \<noteq> ''http'' \<and> up_scheme u \<noteq> ''https'' \<or> up_host u = [] \<or>
             CHR ''*'' \<in> set (up_host u) \<or> up_user u \<or> up_path u \<noteq> [] \<or> up_query u \<noteq> [] \<or>
             up_fragment u \<noteq> [] \<or> s \<noteq> up_scheme u @ ''://'' @ up_host u
          then Some (BadOrigin s) else None)"

definition host_char :: "char \<Rightarrow> bool" where
  "host_char c \<longleftrightarrow> is_lower c \<or> is_digit c \<or> c = CHR ''.'' \<or> c = CHR ''-''"

definition route_name :: "media_route \<Rightarrow> string" where
  "route_name r = mt_host r @ ''/'' @ partition_of (mt_scope r)"

definition check_media_route ::
    "(string \<Rightarrow> url_parts option) \<Rightarrow> media_route \<Rightarrow> string list \<Rightarrow> (gateway_error, string list) result" where
  "check_media_route parse_url r seen =
     (if \<not> valid_scope (mt_scope r) \<or> mt_host r = [] \<or> trim_set (Collect host_char) (mt_host r) \<noteq> [] \<or>
         \<not> valid_segment (mt_bucket r) \<or> route_name r \<in> set seen
      then Inl BadRoute
      else (case first_error (map (valid_origin parse_url) (mt_origins r)) of
              Some e \<Rightarrow> Inl e
            | None \<Rightarrow> Inr (route_name r # seen)))"

definition new_gateway :: "(string \<Rightarrow> url_parts option) \<Rightarrow> gateway_config \<Rightarrow> (gateway_error, gateway) result" where
  "new_gateway parse_url c =
     (if gc_endpoint c = [] \<or> gc_access_key c = [] \<or> gc_secret c = [] then Inl MissingCredentials
      else (case parse_url (trim_right (CHR ''/'') (gc_endpoint c)) of
         None \<Rightarrow> Inl BadEndpoint
       | Some base \<Rightarrow>
           if up_scheme base \<noteq> ''http'' \<and> up_scheme base \<noteq> ''https'' \<or> up_host base = [] then Inl BadEndpoint
           else if gc_routes c = [] then Inl NoRoutes
           else (case fold_result (check_media_route parse_url) (gc_routes c) [] of
               Inl e \<Rightarrow> Inl e
             | Inr _ \<Rightarrow>
                 (case compile_defaults (gc_defaults c) of
                    Inl d \<Rightarrow> Inl (BadDefault d)
                  | Inr ds \<Rightarrow> Inr \<lparr>gw_routes = gc_routes c, gw_base = base,
                        gw_region = (if gc_region c = [] then ''us-east-1'' else gc_region c),
                        gw_ring = gc_ring c, gw_defaults = ds\<rparr>))))"

section \<open>Objects\<close>

record media_object =
  mo_ns :: string
  mo_kind :: string
  mo_id :: string
  mo_version :: string
  mo_area :: area
  mo_name :: string
  mo_scope :: scope
  mo_bucket :: string

definition object_path :: "media_object \<Rightarrow> string" where
  "object_path x = scope_prefix (mo_scope x) (mo_kind x) (mo_id x) (mo_version x) @ area_name (mo_area x) @ ''/'' @ mo_name x"

definition url_prefix_v1 :: string where "url_prefix_v1 = ''/v1/''"

definition request_host :: "(string \<Rightarrow> string) \<Rightarrow> media_request \<Rightarrow> string" where
  "request_host lower r = to_lower lower
     (case split_host_port (mq_host r) of Some h \<Rightarrow> h | None \<Rightarrow> mq_host r)"

definition route_bucket :: "media_route list \<Rightarrow> string \<Rightarrow> scope \<Rightarrow> string" where
  "route_bucket routes host s =
     (case List.find (\<lambda>r. mt_host r = host \<and> mt_scope r = s) routes of
        None \<Rightarrow> [] | Some r \<Rightarrow> mt_bucket r)"

definition parse_request :: "(string \<Rightarrow> string) \<Rightarrow> gateway \<Rightarrow> media_request \<Rightarrow> media_object option" where
  "parse_request lower g r =
     (case cut_prefix url_prefix_v1 (mq_path r) of
        None \<Rightarrow> None
      | Some rest \<Rightarrow>
          if mq_raw_path r \<noteq> [] then None
          else (case parse_object_key rest of
             None \<Rightarrow> None
           | Some k \<Rightarrow>
               if has_prefix ''_'' (ok_id k) \<or> ok_version k \<noteq> [] then None
               else if ok_area k \<noteq> AreaPublic \<and> ok_area k \<noteq> AreaPrivate then None
               else if ok_scope k = no_scope then None
               else (let b = route_bucket (gw_routes g) (request_host lower r) (ok_scope k)
                  in if b = [] then None
                     else Some \<lparr>mo_ns = ok_namespace k, mo_kind = ok_kind k, mo_id = ok_id k,
                       mo_version = ok_version k, mo_area = ok_area k, mo_name = ok_name k,
                       mo_scope = ok_scope k, mo_bucket = b\<rparr>)))"

section \<open>Authorization\<close>

datatype denial = NoToken | BadToken token_error

text \<open>The token of the URL, then every cookie of the name.\<close>

definition request_tokens :: "media_request \<Rightarrow> string list" where
  "request_tokens r = (let t = query_get (mq_query r) ''t'' in if t \<noteq> [] then [t] else []) @
     map snd (filter (\<lambda>c. fst c = ''mt'') (mq_cookies r))"

fun first_opening :: "(string \<Rightarrow> token_error option) \<Rightarrow> string list \<Rightarrow> denial option \<Rightarrow> denial option" where
  "first_opening verify [] err = (case err of None \<Rightarrow> Some NoToken | Some e \<Rightarrow> Some e)"
| "first_opening verify (t # ts) err =
     (case verify t of
        None \<Rightarrow> None
      | Some e \<Rightarrow> first_opening verify ts (case err of None \<Rightarrow> Some (BadToken e) | Some d \<Rightarrow> Some d))"

definition authorize_media :: "hmac \<Rightarrow> gateway \<Rightarrow> media_request \<Rightarrow> string \<Rightarrow> time \<Rightarrow> denial option" where
  "authorize_media hmac g r key now =
     first_opening (\<lambda>t. verify_private hmac (gw_ring g) t key now) (request_tokens r) None"

definition default_name :: "gateway \<Rightarrow> media_object \<Rightarrow> string" where
  "default_name g x =
     (let files = (case map_of (gw_defaults g) (mo_ns x @ ''/'' @ mo_kind x) of None \<Rightarrow> [] | Some fs \<Rightarrow> fs);
          file = (\<lambda>n. case map_of files n of None \<Rightarrow> [] | Some t \<Rightarrow> t)
      in if file (mo_name x) \<noteq> [] then file (mo_name x)
         else (case split_generation (mo_name x) of None \<Rightarrow> [] | Some l \<Rightarrow> file l))"

section \<open>The bucket\<close>

definition missing_status :: "nat \<Rightarrow> bool" where
  "missing_status s \<longleftrightarrow> s = 404 \<or> s = 403"

definition forward_request :: "string list" where
  "forward_request = [''Range'', ''If-Range'', ''If-None-Match'', ''If-Modified-Since'']"

definition forward_response :: "string list" where
  "forward_response =
     [''Content-Type'', ''Content-Length'', ''Content-Range'', ''Accept-Ranges'', ''ETag'', ''Last-Modified'']"

text \<open>
  The request made of the bucket, but for its signature: it holds no other header of the
  request served.
\<close>

definition bucket_fetch :: "gateway \<Rightarrow> string \<Rightarrow> headers \<Rightarrow> string \<Rightarrow> string \<Rightarrow> bucket_request" where
  "bucket_fetch g method h bucket key =
     \<lparr>bq_method = method, bq_path = up_path (gw_base g) @ ''/'' @ bucket @ ''/'' @ key,
      bq_headers = filter (\<lambda>nv. snd nv \<noteq> []) (map (\<lambda>n. (n, header_values h n)) forward_request)\<rparr>"

section \<open>Responses\<close>

definition security_headers :: "headers \<Rightarrow> headers" where
  "security_headers h =
     header_set ''Content-Security-Policy'' ''default-src 'none'; sandbox''
       (header_set ''X-Content-Type-Options'' ''nosniff''
         (header_set ''Cross-Origin-Resource-Policy'' ''same-site'' h))"

definition status_text :: "nat \<Rightarrow> string" where
  "status_text s = (if s = 404 then ''Not Found'' else if s = 405 then ''Method Not Allowed'' else ''Bad Gateway'')"

text \<open>\<open>http.Error\<close> after the headers of every failure.\<close>

definition media_fail :: "headers \<Rightarrow> nat \<Rightarrow> media_response" where
  "media_fail h status =
     \<lparr>mp_status = status,
      mp_headers = header_set ''X-Content-Type-Options'' ''nosniff''
        (header_set ''Content-Type'' ''text/plain; charset=utf-8''
          (security_headers (header_set ''Cache-Control'' ''no-store'' h))),
      mp_body = status_text status @ [char_of (10 :: nat)]\<rparr>"

definition cors_origins :: "(string \<Rightarrow> string) \<Rightarrow> gateway \<Rightarrow> media_request \<Rightarrow> string list" where
  "cors_origins lower g r =
     (case parse_request lower g r of
        None \<Rightarrow> []
      | Some x \<Rightarrow> concat (map mt_origins (filter (\<lambda>rt. mt_host rt = request_host lower r \<and>
          mt_scope rt = mo_scope x \<and> mt_bucket rt = mo_bucket x) (gw_routes g))))"

definition cors :: "(string \<Rightarrow> string) \<Rightarrow> gateway \<Rightarrow> media_request \<Rightarrow> headers" where
  "cors lower g r =
     (let h = header_add ''Vary'' ''Origin'' [];
          x = header_get (mq_headers r) ''Origin''
      in if x = [] \<or> x \<notin> set (cors_origins lower g r) then h
         else (let h = header_set ''Access-Control-Allow-Credentials'' ''true''
                     (header_set ''Access-Control-Allow-Origin'' x h)
           in if mq_method r = ''OPTIONS'' then
                header_set ''Access-Control-Max-Age'' ''86400''
                  (header_set ''Access-Control-Allow-Headers'' ''Range, If-None-Match, If-Modified-Since, If-Range''
                    (header_set ''Access-Control-Allow-Methods'' ''GET, HEAD'' h))
              else header_set ''Access-Control-Expose-Headers''
                ''Content-Length, Content-Range, Accept-Ranges, ETag, Content-Disposition'' h))"

definition relayed_status :: "nat \<Rightarrow> bool" where
  "relayed_status s \<longleftrightarrow> s \<in> {200, 206, 304, 412, 416}"

definition body_status :: "nat \<Rightarrow> bool" where
  "body_status s \<longleftrightarrow> s = 200 \<or> s = 206"

definition relay_headers :: "media_response \<Rightarrow> headers \<Rightarrow> headers" where
  "relay_headers resp h = foldl (\<lambda>h n.
     if header_values (mp_headers resp) n \<noteq> [] \<and>
        (body_status (mp_status resp) \<or> n \<noteq> ''Content-Length'' \<and> n \<noteq> ''Content-Type'')
     then AList.update n (header_values (mp_headers resp) n) h else h) h forward_response"

definition media_relay ::
    "(string \<Rightarrow> string) \<Rightarrow> (string \<Rightarrow> string) \<Rightarrow> string \<Rightarrow> media_response \<Rightarrow> string \<Rightarrow> string option \<Rightarrow> bool \<Rightarrow>
     headers \<Rightarrow> media_response" where
  "media_relay lower media_type method resp cache_control dl public h =
     (if missing_status (mp_status resp) then media_fail h 404
      else if \<not> relayed_status (mp_status resp) then media_fail h 502
      else
        (let body = body_status (mp_status resp);
             h = relay_headers resp h;
             cc = (if \<not> body \<and> mp_status resp \<noteq> 304 then ''no-store'' else cache_control);
             h = header_set ''Cache-Control'' cc h;
             h = (case dl of None \<Rightarrow> h | Some name \<Rightarrow> header_set ''Content-Disposition''
                    (disposition lower media_type name (header_get (mp_headers resp) ''Content-Type'')) h);
             h = security_headers h;
             h = (if public \<and> (body \<or> mp_status resp = 304)
               then header_set ''Cross-Origin-Resource-Policy'' ''cross-origin'' h else h)
         in \<lparr>mp_status = mp_status resp, mp_headers = h,
             mp_body = (if method = ''HEAD'' \<or> \<not> body then [] else mp_body resp)\<rparr>))"

section \<open>The handler\<close>

definition immutable_public_cache :: string where
  "immutable_public_cache = ''public, max-age=31536000, immutable''"
definition private_cache :: string where
  "private_cache = ''private, max-age=31536000, immutable''"
definition public_cache :: string where
  "public_cache = ''public, max-age=300, stale-while-revalidate=86400''"

text \<open>The object's fence, which is read first, and the default image of a missing object.\<close>

definition fence_of :: "media_object \<Rightarrow> media_object" where
  "fence_of x = x\<lparr>mo_area := AreaPublic, mo_name := fence_name\<rparr>"

definition default_of :: "string \<Rightarrow> media_object \<Rightarrow> media_object" where
  "default_of name x = x\<lparr>mo_name := name, mo_id := default_id, mo_version := []\<rparr>"

record media_env =
  me_lower :: "string \<Rightarrow> string"
  me_media_type :: "string \<Rightarrow> string"
  me_hmac :: hmac
  me_up :: upstream
  me_now :: time

text \<open>What is served of an object once its fence allows it.\<close>

definition serve_object ::
    "media_env \<Rightarrow> gateway \<Rightarrow> media_request \<Rightarrow> media_object \<Rightarrow> string \<Rightarrow> headers \<Rightarrow> bucket_request list \<Rightarrow>
     media_response \<times> bucket_request list" where
  "serve_object env g r x cache_control h reads =
     (let dl = (if map_of (mq_query r) ''dl'' \<noteq> None then Some (query_get (mq_query r) ''dl'') else None);
          q = bucket_fetch g (mq_method r) (mq_headers r) (mo_bucket x) (object_path x);
          resp = me_up env reads q;
          reads = reads @ [q];
          name = (case resp of
              Some p \<Rightarrow> if missing_status (mp_status p) \<and> mo_area x = AreaPublic then default_name g x else []
            | None \<Rightarrow> []);
          (resp, cc, reads) = (if name = [] then (resp, cache_control, reads)
            else (let q = bucket_fetch g (mq_method r) (mq_headers r) (mo_bucket x) (object_path (default_of name x))
              in (me_up env reads q, public_cache, reads @ [q])))
      in case resp of
           None \<Rightarrow> (media_fail h 502, reads)
         | Some p \<Rightarrow> (media_relay (me_lower env) (me_media_type env) (mq_method r) p cc dl (mo_area x = AreaPublic) h, reads))"

definition cache_control_of :: "media_object \<Rightarrow> string" where
  "cache_control_of x = (if mo_area x \<noteq> AreaPublic then private_cache
     else if split_generation (mo_name x) \<noteq> None then immutable_public_cache else public_cache)"

definition media_serve :: "media_env \<Rightarrow> gateway \<Rightarrow> media_request \<Rightarrow> media_response \<times> bucket_request list" where
  "media_serve env g r =
     (if mq_path r = ''/healthz'' \<and> mq_raw_path r = [] then
        (\<lparr>mp_status = 200, mp_headers = [(''Cache-Control'', [''no-store''])],
          mp_body = ''ok'' @ [char_of (10 :: nat)]\<rparr>, [])
      else
        (let h = cors (me_lower env) g r
         in if mq_method r = ''OPTIONS'' then
              (\<lparr>mp_status = 204, mp_headers = header_set ''Cache-Control'' ''no-store'' h, mp_body = []\<rparr>, [])
            else if mq_method r \<noteq> ''GET'' \<and> mq_method r \<noteq> ''HEAD'' then
              (media_fail (header_set ''Allow'' ''GET, HEAD, OPTIONS'' h) 405, [])
            else (case parse_request (me_lower env) g r of
              None \<Rightarrow> (media_fail h 404, [])
            | Some x \<Rightarrow>
                if mo_area x \<noteq> AreaPublic \<and>
                   authorize_media (me_hmac env) g r (object_path x) (me_now env) \<noteq> None
                then (media_fail h 404, [])
                else
                  (let q = bucket_fetch g ''HEAD'' [] (mo_bucket x) (object_path (fence_of x))
                   in case me_up env [] q of
                        None \<Rightarrow> (media_fail h 502, [q])
                      | Some p \<Rightarrow>
                          if mp_status p = 404 then serve_object env g r x (cache_control_of x) h [q]
                          else if mp_status p = 200 then (media_fail h 404, [q])
                          else (media_fail h 502, [q])))))"

end
