(* ===== verification/Gateway_Props.thy ===== *)
theory Gateway_Props
  imports Media_Gateway
begin

text \<open>
  The gateway: what it asks of the bucket and when, and which requests get a private object.
\<close>

section \<open>Reads\<close>

lemma parse_request_facts:
  assumes "parse_request lower g r = Some x"
  shows "mo_area x = AreaPublic \<or> mo_area x = AreaPrivate"
    "\<exists>rt \<in> set (gw_routes g). mt_host rt = request_host lower r \<and> mt_scope rt = mo_scope x \<and> mt_bucket rt = mo_bucket x"
proof -
  have p: "(mo_area x = AreaPublic \<or> mo_area x = AreaPrivate) \<and>
      route_bucket (gw_routes g) (request_host lower r) (mo_scope x) = mo_bucket x \<and> mo_bucket x \<noteq> []"
    using assms by (auto simp: parse_request_def Let_def split: option.splits if_splits)
  then show "mo_area x = AreaPublic \<or> mo_area x = AreaPrivate" by blast
  obtain rt where "List.find (\<lambda>r'. mt_host r' = request_host lower r \<and> mt_scope r' = mo_scope x) (gw_routes g) = Some rt"
    "mt_bucket rt = mo_bucket x"
    using p by (auto simp: route_bucket_def split: option.splits)
  then show "\<exists>rt \<in> set (gw_routes g). mt_host rt = request_host lower r \<and> mt_scope rt = mo_scope x \<and> mt_bucket rt = mo_bucket x"
    by (auto simp: find_Some_iff)
qed

definition fence_read :: "gateway \<Rightarrow> media_object \<Rightarrow> bucket_request" where
  "fence_read g x = bucket_fetch g ''HEAD'' [] (mo_bucket x) (object_path (fence_of x))"

definition object_read :: "gateway \<Rightarrow> media_request \<Rightarrow> media_object \<Rightarrow> bucket_request" where
  "object_read g r x = bucket_fetch g (mq_method r) (mq_headers r) (mo_bucket x) (object_path x)"

text \<open>The reads of an object: it alone, or it and then the default image of its kind.\<close>

definition object_reads :: "gateway \<Rightarrow> media_request \<Rightarrow> media_object \<Rightarrow> bucket_request list \<Rightarrow> bool" where
  "object_reads g r x reads \<longleftrightarrow> reads = [object_read g r x] \<or>
     mo_area x = AreaPublic \<and> default_name g x \<noteq> [] \<and>
     reads = [object_read g r x, object_read g r (default_of (default_name g x) x)]"

lemma relay_outcome:
  assumes "case a of None \<Rightarrow> resp = media_fail h 502
      | Some p \<Rightarrow> \<exists>dl. resp = media_relay lower mt m p cc dl public h" "body_status (mp_status resp)"
  shows "\<exists>p. a = Some p \<and> mp_status p = mp_status resp \<and> (mp_body resp = mp_body p \<or> mp_body resp = [])"
proof (cases a)
  case None
  then show ?thesis using assms by (simp add: media_fail_def body_status_def)
next
  case (Some p)
  then show ?thesis using assms
    by (auto simp: media_relay_def media_fail_def Let_def body_status_def split: if_splits)
qed

lemma serve_object_reads:
  assumes "serve_object env g r x cc h reads = (resp, reads')"
  shows "\<exists>later. reads' = reads @ later \<and> object_reads g r x later \<and>
    (body_status (mp_status resp) \<longrightarrow>
      (\<exists>p. me_up env (butlast reads') (last reads') = Some p \<and> mp_status p = mp_status resp \<and>
        (mp_body resp = mp_body p \<or> mp_body resp = [])))"
proof -
  let ?q = "object_read g r x" and ?n = "default_name g x"
  let ?d = "object_read g r (default_of ?n x)"
  let ?swap = "\<exists>p. me_up env reads ?q = Some p \<and> missing_status (mp_status p) \<and> mo_area x = AreaPublic \<and> ?n \<noteq> []"
  show ?thesis
  proof (cases ?swap)
    case True
    then have r: "reads' = reads @ [?q, ?d]"
      "(case me_up env (reads @ [?q]) ?d of None \<Rightarrow> resp = media_fail h 502
        | Some p \<Rightarrow> \<exists>dl. resp = media_relay (me_lower env) (me_media_type env) (mq_method r) p public_cache dl (mo_area x = AreaPublic) h)"
      using assms by (auto simp: serve_object_def object_read_def Let_def default_of_def split: option.splits if_splits prod.splits)
    have "object_reads g r x [?q, ?d]" using True by (auto simp: object_reads_def)
    then show ?thesis using relay_outcome [OF r(2)] r(1)
      by (intro exI [of _ "[?q, ?d]"]) (simp add: butlast_append)
  next
    case False
    then have r: "reads' = reads @ [?q]"
      "(case me_up env reads ?q of None \<Rightarrow> resp = media_fail h 502
        | Some p \<Rightarrow> \<exists>dl. resp = media_relay (me_lower env) (me_media_type env) (mq_method r) p cc dl (mo_area x = AreaPublic) h)"
      using assms by (auto simp: serve_object_def object_read_def Let_def split: option.splits if_splits prod.splits)
    have "object_reads g r x [?q]" by (simp add: object_reads_def)
    then show ?thesis using relay_outcome [OF r(2)] r(1)
      by (intro exI [of _ "[?q]"]) simp
  qed
qed

definition opened :: "media_env \<Rightarrow> gateway \<Rightarrow> media_request \<Rightarrow> media_object \<Rightarrow> bool" where
  "opened env g r x \<longleftrightarrow> parse_request (me_lower env) g r = Some x \<and>
     (mo_area x = AreaPublic \<or> authorize_media (me_hmac env) g r (object_path x) (me_now env) = None)"

definition fenced_serve :: "media_env \<Rightarrow> gateway \<Rightarrow> media_request \<Rightarrow> media_object \<Rightarrow> media_response \<times> bucket_request list" where
  "fenced_serve env g r x =
     (let h = cors (me_lower env) g r; q = fence_read g x
      in case me_up env [] q of
           None \<Rightarrow> (media_fail h 502, [q])
         | Some p \<Rightarrow>
             if mp_status p = 404 then serve_object env g r x (cache_control_of x) h [q]
             else if mp_status p = 200 then (media_fail h 404, [q])
             else (media_fail h 502, [q]))"

lemma media_serve_opened:
  assumes "mq_path r \<noteq> ''/healthz'' \<or> mq_raw_path r \<noteq> []" "mq_method r = ''GET'' \<or> mq_method r = ''HEAD''"
    "opened env g r x"
  shows "media_serve env g r = fenced_serve env g r x"
proof -
  have "mq_method r \<noteq> ''OPTIONS''" "mq_method r \<noteq> ''GET'' \<and> mq_method r \<noteq> ''HEAD'' \<longleftrightarrow> False"
    using assms(2) by auto
  moreover have "mq_path r = ''/healthz'' \<and> mq_raw_path r = [] \<longleftrightarrow> False" using assms(1) by blast
  moreover have "parse_request (me_lower env) g r = Some x" using assms(3) by (simp add: opened_def)
  moreover have "mo_area x \<noteq> AreaPublic \<and> authorize_media (me_hmac env) g r (object_path x) (me_now env) \<noteq> None \<longleftrightarrow> False"
    using assms(3) by (auto simp: opened_def)
  ultimately show ?thesis
    unfolding media_serve_def fenced_serve_def fence_read_def Let_def by (simp only: if_False option.case)
qed

lemma media_serve_reads:
  assumes "media_serve env g r = (resp, reads)" "reads \<noteq> []"
  shows "\<exists>x. opened env g r x \<and> (resp, reads) = fenced_serve env g r x"
proof -
  have g: "\<not> (mq_path r = ''/healthz'' \<and> mq_raw_path r = [])" "mq_method r = ''GET'' \<or> mq_method r = ''HEAD''"
    using assms by (auto simp: media_serve_def Let_def split: if_splits)
  obtain x where "opened env g r x"
    using assms by (auto simp: media_serve_def Let_def opened_def split: option.splits if_splits)
  then show ?thesis using media_serve_opened [of r env g x] g assms(1) by auto
qed

text \<open>
  C25: a request that reads from the bucket names an object of a route of its host, public or
  private; it holds a token that opens the object when it is private; its first read is the
  HEAD of the object's fence, and nothing more is read unless the bucket answers that there
  is none. What is read then is the object itself, or it and the default image of a missing
  public one, and the only bytes served are those of the last read.
\<close>

theorem gateway_reads_guarded:
  assumes "media_serve env g r = (resp, reads)" "reads \<noteq> []"
  shows "\<exists>x later. parse_request (me_lower env) g r = Some x \<and>
    (\<exists>rt \<in> set (gw_routes g). mt_host rt = request_host (me_lower env) r \<and> mt_scope rt = mo_scope x \<and>
       mt_bucket rt = mo_bucket x) \<and>
    (mo_area x = AreaPublic \<or>
     mo_area x = AreaPrivate \<and> authorize_media (me_hmac env) g r (object_path x) (me_now env) = None) \<and>
    reads = fence_read g x # later \<and>
    (later = [] \<or> (\<exists>p. me_up env [] (fence_read g x) = Some p \<and> mp_status p = 404) \<and> object_reads g r x later) \<and>
    (body_status (mp_status resp) \<longrightarrow> later \<noteq> [] \<and>
       (\<exists>p. me_up env (butlast reads) (last reads) = Some p \<and> mp_status p = mp_status resp \<and>
          (mp_body resp = mp_body p \<or> mp_body resp = [])))"
proof -
  let ?lower = "me_lower env" and ?h = "cors (me_lower env) g r"
  obtain x where x: "parse_request ?lower g r = Some x"
      "mo_area x = AreaPublic \<or> authorize_media (me_hmac env) g r (object_path x) (me_now env) = None"
    and s: "(resp, reads) = fenced_serve env g r x"
    using media_serve_reads [OF assms] by (auto simp: opened_def)
  note area = parse_request_facts [OF x(1)]
  show ?thesis
  proof (cases "\<exists>p. me_up env [] (fence_read g x) = Some p \<and> mp_status p = 404")
    case True
    then have "serve_object env g r x (cache_control_of x) ?h [fence_read g x] = (resp, reads)"
      using s by (auto simp: fenced_serve_def Let_def)
    from serve_object_reads [OF this] obtain later where "reads = [fence_read g x] @ later" "object_reads g r x later"
      "body_status (mp_status resp) \<longrightarrow>
        (\<exists>p. me_up env (butlast reads) (last reads) = Some p \<and> mp_status p = mp_status resp \<and>
          (mp_body resp = mp_body p \<or> mp_body resp = []))"
      by blast
    moreover have "later \<noteq> []" using \<open>object_reads g r x later\<close> by (auto simp: object_reads_def)
    ultimately show ?thesis using x area True by (intro exI [of _ x] exI [of _ later]) auto
  next
    case False
    then have "reads = [fence_read g x]" "mp_status resp = 404 \<or> mp_status resp = 502"
      using s by (auto simp: fenced_serve_def Let_def media_fail_def split: option.splits if_splits)
    then show ?thesis using x area by (intro exI [of _ x] exI [of _ "[]"]) (auto simp: body_status_def)
  qed
qed

section \<open>Private objects\<close>

text \<open>An object key as the gateway serves it: an item's key below the root of a scope.\<close>

definition served_key :: "object_key \<Rightarrow> bool" where
  "served_key k \<longleftrightarrow> valid_object_key k \<and> ok_scope k \<noteq> no_scope \<and> ok_version k = [] \<and>
     (ok_area k = AreaPrivate \<or> ok_area k = AreaPublic) \<and> \<not> has_prefix ''_'' (ok_id k)"

definition object_of :: "object_key \<Rightarrow> string \<Rightarrow> media_object" where
  "object_of k bucket = \<lparr>mo_ns = ok_namespace k, mo_kind = ok_kind k, mo_id = ok_id k, mo_version = ok_version k,
     mo_area = ok_area k, mo_name = ok_name k, mo_scope = ok_scope k, mo_bucket = bucket\<rparr>"

lemma object_path_key: "served_key k \<Longrightarrow> object_path (object_of k b) = key_string k"
  by (auto simp: served_key_def object_path_def object_of_def key_string_def key_folder_def)

lemma parse_request_served:
  assumes "served_key k" "mq_path r = ''/v1/'' @ key_string k" "mq_raw_path r = []"
    "route_bucket (gw_routes g) (request_host lower r) (ok_scope k) = b" "b \<noteq> []"
  shows "parse_request lower g r = Some (object_of k b)"
proof -
  have "cut_prefix url_prefix_v1 (mq_path r) = Some (key_string k)"
    by (simp add: assms(2) url_prefix_v1_def cut_prefix_Some)
  moreover have "parse_object_key (key_string k) = Some k"
    using assms(1) by (simp add: served_key_def parse_valid_key)
  ultimately show ?thesis
    using assms(1,3,4,5) by (auto simp: parse_request_def served_key_def object_of_def Let_def)
qed

text \<open>A gateway that was configured gives every route a bucket.\<close>

lemma route_checked: "check_media_route parse_url rt seen = Inr seen' \<Longrightarrow> valid_segment (mt_bucket rt)"
  by (simp add: check_media_route_def split: if_splits)

lemma routes_checked:
  "fold_result (check_media_route parse_url) rts seen = Inr seen' \<Longrightarrow> rt \<in> set rts \<Longrightarrow> valid_segment (mt_bucket rt)"
proof (induction rts arbitrary: seen)
  case (Cons r0 rts)
  then obtain s1 where "check_media_route parse_url r0 seen = Inr s1" "fold_result (check_media_route parse_url) rts s1 = Inr seen'"
    by (auto simp: bindr_def split: sum.splits)
  then show ?case using Cons route_checked by (metis set_ConsD)
qed simp

lemma new_gateway_routes:
  assumes "new_gateway parse_url c = Inr g"
  shows "gw_ring g = gc_ring c \<and> (\<forall>rt \<in> set (gw_routes g). mt_bucket rt \<noteq> [])"
proof -
  obtain seen where "fold_result (check_media_route parse_url) (gw_routes g) [] = Inr seen" "gw_ring g = gc_ring c"
    using assms by (auto simp: new_gateway_def split: if_splits option.splits sum.splits)
  then show ?thesis using routes_checked by (fastforce simp: valid_segment_def)
qed

lemma route_bucket_ne:
  assumes "new_gateway parse_url c = Inr g" "rt \<in> set (gw_routes g)" "mt_host rt = host" "mt_scope rt = s"
  shows "route_bucket (gw_routes g) host s \<noteq> []"
proof -
  obtain rt' where f: "List.find (\<lambda>r. mt_host r = host \<and> mt_scope r = s) (gw_routes g) = Some rt'"
    using assms(2-4) by (cases "List.find (\<lambda>r. mt_host r = host \<and> mt_scope r = s) (gw_routes g)") (auto simp: find_None_iff)
  then have "rt' \<in> set (gw_routes g)" by (auto simp: find_Some_iff)
  moreover have "route_bucket (gw_routes g) host s = mt_bucket rt'" by (simp add: route_bucket_def f)
  ultimately show ?thesis using new_gateway_routes [OF assms(1)] by simp
qed

lemma serve_object_found:
  assumes "me_up env reads (object_read g r x) = Some p" "mp_status p = 200"
  shows "\<exists>resp. serve_object env g r x cc h reads = (resp, reads @ [object_read g r x]) \<and>
    mp_status resp = 200 \<and> mp_body resp = (if mq_method r = ''HEAD'' then [] else mp_body p)"
  using assms
  by (simp add: serve_object_def object_read_def Let_def missing_status_def media_relay_def relayed_status_def
      body_status_def)

text \<open>A request is authorized when one of its tokens verifies, whatever the others are.\<close>

lemma first_opening_exact: "first_opening verify ts err = None \<longleftrightarrow> (\<exists>t \<in> set ts. verify t = None)"
  by (induction verify ts err rule: first_opening.induct) (auto split: option.splits)

text \<open>
  C24: of a private object of a route, whatever tokens a request presents: when one of them is
  genuine (made with a key of the ring, not expired) for that file or for its item, an object
  whose fence is absent is served after two reads with the bytes of the bucket; any other
  request, with no token, with several, with forged or expired ones or with ones for something
  else, gets the same refusal as a path that names nothing, before anything is read.
\<close>

theorem gateway_private_exact:
  assumes "new_gateway parse_url c = Inr g" "new_ring cur prev = Inr (gc_ring c)"
    "served_key k" "ok_area k = AreaPrivate"
    "rt \<in> set (gw_routes g)" "mt_host rt = request_host (me_lower env) r" "mt_scope rt = ok_scope k"
    "mq_method r = ''GET'' \<or> mq_method r = ''HEAD''" "mq_path r = ''/v1/'' @ key_string k" "mq_raw_path r = []"
    "x = object_of k (route_bucket (gw_routes g) (request_host (me_lower env) r) (ok_scope k))"
  shows "if \<exists>t \<in> set (request_tokens r).
       genuine_token (me_hmac env) (gc_ring c) t (private_file_scope (key_string k)) (me_now env) \<or>
       genuine_token (me_hmac env) (gc_ring c) t (item_scope k) (me_now env)
     then \<forall>fence p. me_up env [] (fence_read g x) = Some fence \<and> mp_status fence = 404 \<and>
         me_up env [fence_read g x] (object_read g r x) = Some p \<and> mp_status p = 200 \<longrightarrow>
       (\<exists>resp. media_serve env g r = (resp, [fence_read g x, object_read g r x]) \<and> mp_status resp = 200 \<and>
          mp_body resp = (if mq_method r = ''HEAD'' then [] else mp_body p))
     else media_serve env g r = (media_fail (cors (me_lower env) g r) 404, [])"
proof -
  let ?lower = "me_lower env" and ?h = "cors (me_lower env) g r"
  let ?opens = "\<exists>t \<in> set (request_tokens r).
       genuine_token (me_hmac env) (gc_ring c) t (private_file_scope (key_string k)) (me_now env) \<or>
       genuine_token (me_hmac env) (gc_ring c) t (item_scope k) (me_now env)"
  have px: "parse_request ?lower g r = Some x"
    unfolding assms(11) by (rule parse_request_served [OF assms(3,9,10) refl route_bucket_ne [OF assms(1,5-7)]])
  have path: "object_path x = key_string k" and area: "mo_area x = AreaPrivate"
    using object_path_key [OF assms(3)] assms(4) by (simp_all add: assms(11)) (simp add: object_of_def assms(4))
  have v: "valid_object_key k" using assms(3) by (simp add: served_key_def)
  have folder: "folder_of_key (key_string k) = Some (manifest_key k, ''private'')"
    using folder_of_object_key [OF v] assms(4) by (simp add: area_name.simps)
  have ring: "gw_ring g = gc_ring c" "ring_ok (gc_ring c)"
    using new_gateway_routes [OF assms(1)] new_ring_ok [OF assms(2)] by simp_all
  have auth: "authorize_media (me_hmac env) g r (object_path x) (me_now env) = None \<longleftrightarrow> ?opens"
    unfolding authorize_media_def first_opening_exact path ring(1) verify_private_genuine [OF ring(2) folder] item_scope_manifest ..
  have web: "mq_path r \<noteq> ''/healthz''" by (simp add: assms(9))
  show ?thesis
  proof (cases ?opens)
    case True
    then have o: "opened env g r x" using px auth by (simp add: opened_def)
    have s: "media_serve env g r = fenced_serve env g r x" by (rule media_serve_opened [OF _ assms(8) o]) (use web in blast)
    have "\<exists>resp. media_serve env g r = (resp, [fence_read g x, object_read g r x]) \<and> mp_status resp = 200 \<and>
        mp_body resp = (if mq_method r = ''HEAD'' then [] else mp_body p)"
      if up: "me_up env [] (fence_read g x) = Some fence" "mp_status fence = 404"
        "me_up env [fence_read g x] (object_read g r x) = Some p" "mp_status p = 200" for fence p
      using serve_object_found [OF up(3,4), of "cache_control_of x" ?h] up(1,2) by (simp add: s fenced_serve_def Let_def)
    then show ?thesis using True by simp
  next
    case False
    have "mq_method r \<noteq> ''OPTIONS''" "(mq_method r \<noteq> ''GET'' \<and> mq_method r \<noteq> ''HEAD'') = False" using assms(8) by auto
    then have "media_serve env g r = (media_fail ?h 404, [])"
      using web px auth area False unfolding media_serve_def Let_def
      by (cases "mq_method r = ''GET''") simp_all
    then show ?thesis using False by simp
  qed
qed

section \<open>A gateway\<close>

definition sample_url :: "string \<Rightarrow> url_parts option" where
  "sample_url s = (if s = ''https://s3'' then Some \<lparr>up_scheme = ''https'', up_host = ''s3'', up_path = [],
     up_user = False, up_query = [], up_fragment = []\<rparr> else None)"

definition sample_media_route :: media_route where
  "sample_media_route = \<lparr>mt_host = ''m.example'', mt_scope = ok_scope sample_private, mt_bucket = ''media'', mt_origins = []\<rparr>"

definition sample_gateway_config :: gateway_config where
  "sample_gateway_config = \<lparr>gc_routes = [sample_media_route], gc_endpoint = ''https://s3'', gc_region = [],
     gc_access_key = ''a'', gc_secret = ''s'', gc_ring = sample_ring, gc_defaults = []\<rparr>"

definition sample_gateway :: gateway where
  "sample_gateway = \<lparr>gw_routes = [sample_media_route], gw_base = the (sample_url ''https://s3''),
     gw_region = ''us-east-1'', gw_ring = sample_ring, gw_defaults = []\<rparr>"

definition sample_media_request :: media_request where
  "sample_media_request = \<lparr>mq_method = ''GET'', mq_host = ''m.example'', mq_path = ''/v1/'' @ key_string sample_private,
     mq_raw_path = [],
     mq_query = [(''t'', sign sample_hmac sample_old_ring (item_scope sample_private) (3600 * second_ns))],
     mq_cookies = [], mq_headers = []\<rparr>"

text \<open>A bucket without fences in which every object is there.\<close>

definition sample_up :: upstream where
  "sample_up reads q = Some (if bq_method q = ''HEAD'' then \<lparr>mp_status = 404, mp_headers = [], mp_body = []\<rparr>
     else \<lparr>mp_status = 200, mp_headers = [], mp_body = ''bytes''\<rparr>)"

definition sample_env :: media_env where
  "sample_env = \<lparr>me_lower = id, me_media_type = id, me_hmac = sample_hmac, me_up = sample_up, me_now = 0\<rparr>"

lemma sample_scope_valid: "valid_scope (ok_scope sample_private)"
  by code_simp

lemma sample_gateway_new: "new_gateway sample_url sample_gateway_config = Inr sample_gateway"
proof -
  have "trim_right (CHR ''/'') ''https://s3'' = ''https://s3''" by (simp add: trim_right_def)
  moreover have "trim_set (Collect host_char) ''m.example'' = []"
    by (simp add: trim_set_def host_char_def byte_classes less_eq_char_def)
  moreover have "valid_segment ''media''" by code_simp
  ultimately show ?thesis
    by (simp add: new_gateway_def sample_gateway_config_def sample_gateway_def sample_media_route_def
        check_media_route_def sample_url_def compile_defaults_def sample_scope_valid)
qed

lemma sample_host: "request_host id sample_media_request = ''m.example''"
  by code_simp

lemma sample_served: "served_key sample_private"
  by code_simp

abbreviation sample_object :: media_object where
  "sample_object \<equiv> object_of sample_private
     (route_bucket (gw_routes sample_gateway) (request_host id sample_media_request) (ok_scope sample_private))"

text \<open>The token of a rotated key serves its item; without a token the request is refused unread.\<close>

theorem gateway_private_exact_witness:
  "(\<exists>resp. media_serve sample_env sample_gateway sample_media_request =
      (resp, [fence_read sample_gateway sample_object, object_read sample_gateway sample_media_request sample_object]) \<and>
      mp_status resp = 200 \<and> mp_body resp = ''bytes'') \<and>
   (\<exists>resp. media_serve sample_env sample_gateway (sample_media_request\<lparr>mq_query := []\<rparr>) = (resp, []) \<and> mp_status resp = 404)"
proof -
  have u: "me_up sample_env rs (fence_read sample_gateway x) = Some \<lparr>mp_status = 404, mp_headers = [], mp_body = []\<rparr>"
    "me_up sample_env rs (object_read sample_gateway sample_media_request x) = Some \<lparr>mp_status = 200, mp_headers = [], mp_body = ''bytes''\<rparr>"
    for rs x
    by (simp_all add: sample_env_def sample_up_def fence_read_def object_read_def bucket_fetch_def sample_media_request_def)
  have "sign sample_hmac sample_old_ring (item_scope sample_private) (3600 * second_ns) \<noteq> []"
    by (simp add: sign_def Let_def)
  then have t: "request_tokens sample_media_request = [sign (me_hmac sample_env) sample_old_ring (item_scope sample_private) (3600 * second_ns)]"
    by (simp add: request_tokens_def sample_media_request_def query_get_def sample_env_def)
  have no: "request_tokens (sample_media_request\<lparr>mq_query := []\<rparr>) = []"
    by (simp add: request_tokens_def sample_media_request_def query_get_def)
  have ring: "new_ring (sample_token_key (CHR ''b'')) (Some (sample_token_key (CHR ''a''))) = Inr (gc_ring sample_gateway_config)"
    using sample_rings(1) by (simp add: sample_gateway_config_def)
  have e: "me_hmac sample_env = sample_hmac" "me_lower sample_env = id" "me_now sample_env = 0"
    by (simp_all add: sample_env_def)
  have host: "request_host id (sample_media_request\<lparr>mq_query := []\<rparr>) = request_host id sample_media_request"
    by (simp add: request_host_def split: option.split)
  have genuine: "genuine_token (me_hmac sample_env) (gc_ring sample_gateway_config)
      (sign (me_hmac sample_env) sample_old_ring (item_scope sample_private) (3600 * second_ns)) (item_scope sample_private) (me_now sample_env)"
    by (subst signed_genuine [OF ring sample_rings(2)])
       (simp_all add: e int64_range_def unix_def second_ns_def sample_hmac_def)
  have r: "sample_media_route \<in> set (gw_routes sample_gateway)" "mt_scope sample_media_route = ok_scope sample_private"
    "ok_area sample_private = AreaPrivate" "mt_host sample_media_route = request_host id sample_media_request"
    by (simp_all add: sample_gateway_def sample_media_route_def sample_private_def sample_host)
  note serves = gateway_private_exact [OF sample_gateway_new ring sample_served r(3) r(1) _ r(2), where env = sample_env]
  have "\<exists>resp. media_serve sample_env sample_gateway sample_media_request =
      (resp, [fence_read sample_gateway sample_object, object_read sample_gateway sample_media_request sample_object]) \<and>
      mp_status resp = 200 \<and> mp_body resp = ''bytes''"
    using serves [of sample_media_request sample_object] genuine u
    by (simp add: t e r(4) sample_media_request_def [THEN arg_cong [where f = mq_method]]
        sample_media_request_def [THEN arg_cong [where f = mq_path]] sample_media_request_def [THEN arg_cong [where f = mq_raw_path]])
  moreover have "media_serve sample_env sample_gateway (sample_media_request\<lparr>mq_query := []\<rparr>) =
      (media_fail (cors id sample_gateway (sample_media_request\<lparr>mq_query := []\<rparr>)) 404, [])"
    using serves [of "sample_media_request\<lparr>mq_query := []\<rparr>" sample_object]
    by (simp add: no e r(4) host sample_media_request_def [THEN arg_cong [where f = mq_method]]
        sample_media_request_def [THEN arg_cong [where f = mq_path]] sample_media_request_def [THEN arg_cong [where f = mq_raw_path]])
  ultimately show ?thesis by (simp add: media_fail_def)
qed

text \<open>A public object of the same item, asked of a bucket that does not answer.\<close>

definition sample_public :: object_key where
  "sample_public = sample_private\<lparr>ok_area := AreaPublic, ok_name := ''cover.webp''\<rparr>"

definition sample_public_request :: media_request where
  "sample_public_request = sample_media_request\<lparr>mq_path := ''/v1/'' @ key_string sample_public, mq_query := []\<rparr>"

lemma sample_public_served: "served_key sample_public"
  by code_simp

theorem gateway_reads_guarded_witness:
  "\<exists>x. parse_request id sample_gateway sample_public_request = Some x \<and>
     snd (media_serve (sample_env\<lparr>me_up := \<lambda>_ _. None\<rparr>) sample_gateway sample_public_request) = [fence_read sample_gateway x]"
proof -
  let ?env = "sample_env\<lparr>me_up := \<lambda>_ _. None\<rparr>" and ?g = sample_gateway and ?r = sample_public_request
  let ?b = "route_bucket (gw_routes ?g) (request_host id ?r) (ok_scope sample_public)"
  have l: "me_lower ?env = id" by (simp add: sample_env_def)
  have "request_host id ?r = request_host id sample_media_request"
    by (simp add: request_host_def sample_public_request_def split: option.split)
  moreover have "ok_scope sample_public = ok_scope sample_private" by (simp add: sample_public_def)
  ultimately have b: "?b \<noteq> []"
    by (simp add: sample_host route_bucket_def sample_gateway_def sample_media_route_def)
  have p: "parse_request id ?g ?r = Some (object_of sample_public ?b)"
    by (rule parse_request_served [OF sample_public_served _ _ refl b])
      (simp_all add: sample_public_request_def sample_media_request_def)
  moreover have "mo_area (object_of sample_public ?b) = AreaPublic"
    by (simp add: object_of_def sample_public_def)
  ultimately have "opened ?env ?g ?r (object_of sample_public ?b)" by (simp add: opened_def l)
  then have s: "media_serve ?env ?g ?r = fenced_serve ?env ?g ?r (object_of sample_public ?b)"
    by (rule media_serve_opened [rotated 2]) (simp_all add: sample_public_request_def sample_media_request_def)
  then have n: "snd (media_serve ?env ?g ?r) \<noteq> []" by (simp add: fenced_serve_def Let_def)
  obtain resp reads where m: "media_serve ?env ?g ?r = (resp, reads)" by (cases "media_serve ?env ?g ?r")
  from gateway_reads_guarded [OF m] n m l obtain x later where
    "parse_request id ?g ?r = Some x" "reads = fence_read ?g x # later"
    "later = [] \<or> (\<exists>p. me_up ?env [] (fence_read ?g x) = Some p \<and> mp_status p = 404) \<and> object_reads ?g ?r x later"
    by fastforce
  then show ?thesis using m by auto
qed

end
