(* ===== verification/Http_Gate.thy ===== *)
theory Http_Gate
  imports Access_Rules
begin

text \<open>
  Package \<open>internal/gate\<close>: who a request is, whether the route's tier admits it, and whether
  an actor holds a permission.

  The host's authenticator is not part of the program. It is a record of the capabilities
  the code asks for by type assertion (\<open>None\<close>: not implemented); a call of it may return,
  fail, or panic, and the code recovers from a panic where it says so. An actor's
  \<open>Verified\<close> is nothing, the host's own, or the request memo around what the authenticator
  returned; only this package builds one. The memo is shared by the gate and the handlers
  of a request, and is passed along and returned updated.
\<close>

section \<open>Errors and calls\<close>

text \<open>
  An error as \<open>errors.Is\<close> and \<open>errors.As\<close> see it: which sentinels of the auth package it
  matches, and the fault text it carries.
\<close>

record auth_err =
  ae_unauthenticated :: bool
  ae_forbidden :: bool
  ae_unavailable :: bool
  ae_fault :: "string option"

definition err_unauthenticated :: auth_err where
  "err_unauthenticated = \<lparr>ae_unauthenticated = True, ae_forbidden = False, ae_unavailable = False, ae_fault = None\<rparr>"

definition err_forbidden :: auth_err where
  "err_forbidden = \<lparr>ae_unauthenticated = False, ae_forbidden = True, ae_unavailable = False, ae_fault = None\<rparr>"

text \<open>\<open>errors.Join(auth.ErrUnavailable, fault(m))\<close>, and \<open>errors.Join(auth.ErrUnavailable, e)\<close>.\<close>

definition fault_err :: "string \<Rightarrow> auth_err" where
  "fault_err m = \<lparr>ae_unauthenticated = False, ae_forbidden = False, ae_unavailable = True, ae_fault = Some m\<rparr>"

definition unavailable :: "auth_err \<Rightarrow> auth_err" where
  "unavailable e = e\<lparr>ae_unavailable := True\<rparr>"

datatype 'a call = Panics string | Fails auth_err | Returns 'a

definition recovered :: "string \<Rightarrow> 'a call \<Rightarrow> (auth_err, 'a) result" where
  "recovered m c = (case c of
     Panics p \<Rightarrow> Inl (fault_err (m @ '' panicked: '' @ p)) | Fails e \<Rightarrow> Inl e | Returns a \<Rightarrow> Inr a)"

section \<open>The authenticator\<close>

record auth_scope =
  as_authority :: string
  as_id :: string

definition zero_scope :: auth_scope where "zero_scope = \<lparr>as_authority = [], as_id = []\<rparr>"

text \<open>\<open>id_invoker\<close> is \<open>None\<close> for the zero Invoker.\<close>

record identity =
  id_subject :: string
  id_issuer :: string
  id_kind :: subject_kind
  id_invoker :: "string option"
  id_self_invoked :: bool

record verified =
  vf_identity :: "identity call"
  vf_can :: "(auth_scope \<Rightarrow> string \<Rightarrow> bool call) option"
  vf_claims :: "string list option"
  vf_recent :: "auth_err option option"
  vf_bound :: "auth_scope option"

datatype holder = NoVerified | HostVerified | Wrapped verified

text \<open>What the provider is given: the memo is unwrapped before it is handed over.\<close>

record scoped_auth =
  sc_resolve :: "verified \<Rightarrow> string call"
  sc_authorize :: "holder \<Rightarrow> string \<Rightarrow> string \<Rightarrow> bool call"

record http_request =
  rq_method :: string
  rq_host :: string
  rq_remote_addr :: string
  rq_header :: "string \<Rightarrow> string"
  rq_header_values :: "string \<Rightarrow> string list"
  rq_as_host :: bool

record authenticator =
  au_nil :: bool
  au_authenticate :: "http_request \<Rightarrow> verified option call"
  au_root :: "auth_scope call option"
  au_known :: "(string \<Rightarrow> bool) option"
  au_headers :: "string list option"
  au_scoped :: "scoped_auth option"
  au_accounts :: "(verified \<Rightarrow> string \<Rightarrow> (string \<times> bool) call) option"

datatype check_error = NoAuthenticator | NoRootScope | UnknownPermission string

definition check_auth :: "authenticator \<Rightarrow> string list \<Rightarrow> check_error option" where
  "check_auth a perms =
     (if au_nil a then Some NoAuthenticator
      else if perms = [] then None
      else if au_scoped a \<noteq> None then None
      else if au_root a = None then Some NoRootScope
      else (case au_known a of
          None \<Rightarrow> None
        | Some known \<Rightarrow> first_error (map (\<lambda>p. refuse_if (\<not> known p) (UnknownPermission p)) perms)))"

section \<open>The request memo\<close>

type_synonym can_key = "auth_scope \<times> string"

record can_memo =
  cm_can :: "can_key \<rightharpoonup> bool"
  cm_scoped :: "can_key \<rightharpoonup> bool"

definition empty_can_memo :: can_memo where
  "empty_can_memo = \<lparr>cm_can = Map.empty, cm_scoped = Map.empty\<rparr>"

definition memo_put_can :: "can_key \<Rightarrow> bool \<Rightarrow> can_memo \<Rightarrow> can_memo" where
  "memo_put_can k b m = m\<lparr>cm_can := (cm_can m)(k \<mapsto> b)\<rparr>"

definition memo_put_scoped :: "can_key \<Rightarrow> bool \<Rightarrow> can_memo \<Rightarrow> can_memo" where
  "memo_put_scoped k b m = m\<lparr>cm_scoped := (cm_scoped m)(k \<mapsto> b)\<rparr>"

interpretation can_cache: cache cm_can memo_put_can
  by unfold_locales (simp add: memo_put_can_def)

interpretation scoped_cache: cache cm_scoped memo_put_scoped
  by unfold_locales (simp add: memo_put_scoped_def)

type_synonym permit = "bool \<times> auth_err option"

definition memo_can :: "verified \<Rightarrow> auth_scope \<Rightarrow> string \<Rightarrow> can_memo \<Rightarrow> permit \<times> can_memo" where
  "memo_can v s p m =
     (case cm_can m (s, p) of
        Some b \<Rightarrow> ((b, None), m)
      | None \<Rightarrow>
          (case vf_can v of
             None \<Rightarrow> ((False, None), m)
           | Some c \<Rightarrow>
               (case recovered ''Can'' (c s p) of
                  Inl e \<Rightarrow> ((False, Some e), m)
                | Inr b \<Rightarrow> ((b, None), memo_put_can (s, p) b m))))"

definition memo_entitlements :: "verified \<Rightarrow> string list" where
  "memo_entitlements v = (case vf_claims v of Some cs \<Rightarrow> cs | None \<Rightarrow> [])"

definition memo_recent_sign_in :: "verified \<Rightarrow> auth_err option" where
  "memo_recent_sign_in v = (case vf_recent v of None \<Rightarrow> Some err_forbidden | Some r \<Rightarrow> r)"

definition memo_bound_scope :: "verified \<Rightarrow> auth_scope" where
  "memo_bound_scope v = (case vf_bound v of Some s \<Rightarrow> s | None \<Rightarrow> zero_scope)"

section \<open>Actors\<close>

record http_actor = actor +
  ha_invoker :: "string option"
  ha_verified :: holder

definition host_subject :: string where "host_subject = ''contentkit''"

definition host_actor :: http_actor where
  "host_actor = \<lparr>a_id = host_subject, a_account = None, a_kind = SubjectApplication, a_ip = [],
     a_anonymous = False, a_claims = None, ha_invoker = None, ha_verified = HostVerified\<rparr>"

definition is_host :: "http_actor \<Rightarrow> bool" where
  "is_host a \<longleftrightarrow> ha_verified a = HostVerified"

definition client_ip :: "http_request \<Rightarrow> string" where
  "client_ip r = (case split_host_port (rq_remote_addr r) of Some h \<Rightarrow> h | None \<Rightarrow> rq_remote_addr r)"

text \<open>The kind of the zero actor is the empty string.\<close>

definition anonymous_actor :: "http_request \<Rightarrow> http_actor" where
  "anonymous_actor r = \<lparr>a_id = [], a_account = None, a_kind = SubjectOther [], a_ip = client_ip r,
     a_anonymous = True, a_claims = None, ha_invoker = None, ha_verified = NoVerified\<rparr>"

section \<open>Permissions\<close>

text \<open>\<open>Actor.Can\<close>.\<close>

definition actor_can :: "http_actor \<Rightarrow> auth_scope \<Rightarrow> string \<Rightarrow> can_memo \<Rightarrow> permit \<times> can_memo" where
  "actor_can a s p m =
     (if a_anonymous a \<or> ha_verified a = NoVerified \<or> p = [] then ((False, None), m)
      else (case ha_verified a of
          Wrapped v \<Rightarrow> memo_can v s p m
        | _ \<Rightarrow> ((True, None), m)))"

definition authorize :: "scoped_auth \<Rightarrow> holder \<Rightarrow> string \<Rightarrow> string \<Rightarrow> can_memo \<Rightarrow> permit \<times> can_memo" where
  "authorize sc h grp p m =
     (let key = (zero_scope\<lparr>as_id := grp\<rparr>, p);
          cached = (case h of Wrapped v \<Rightarrow> cm_scoped m key | _ \<Rightarrow> None)
      in case cached of
           Some b \<Rightarrow> ((b, None), m)
         | None \<Rightarrow>
             (case recovered ''Authorize'' (sc_authorize sc h grp p) of
                Inl e \<Rightarrow> ((False, Some e), m)
              | Inr b \<Rightarrow> ((b, None),
                  (case h of Wrapped v \<Rightarrow> memo_put_scoped key b m | _ \<Rightarrow> m))))"

definition root_scope :: "authenticator \<Rightarrow> (auth_err, auth_scope) result" where
  "root_scope a = (case au_root a of
     None \<Rightarrow> Inl (fault_err ''names no root scope'')
   | Some c \<Rightarrow> (case c of
        Panics p \<Rightarrow> Inl (fault_err (''RootScope panicked: '' @ p))
      | Fails e \<Rightarrow> Inl (unavailable e)
      | Returns s \<Rightarrow>
          if as_authority s = [] \<or> as_id s = [] then Inl (fault_err ''RootScope returned a zero scope'')
          else Inr s))"

definition can :: "authenticator \<Rightarrow> http_actor \<Rightarrow> string \<Rightarrow> can_memo \<Rightarrow> permit \<times> can_memo" where
  "can au a p m =
     (if p = [] \<or> a_anonymous a then ((False, None), m)
      else if is_host a then ((True, None), m)
      else case au_scoped au of
        Some sc \<Rightarrow> authorize sc (ha_verified a) [] p m
      | None \<Rightarrow> (case root_scope au of
          Inl e \<Rightarrow> ((False, Some e), m)
        | Inr rt \<Rightarrow> actor_can a rt p m))"

text \<open>The loop of \<open>ChannelEditor\<close> over a check: stop at the first grant or error.\<close>

fun any_permission ::
    "(string \<Rightarrow> can_memo \<Rightarrow> permit \<times> can_memo) \<Rightarrow> string list \<Rightarrow> can_memo \<Rightarrow> permit \<times> can_memo" where
  "any_permission chk [] m = ((False, None), m)"
| "any_permission chk (p # ps) m =
     (let ((ok, err), m') = chk p m
      in if err \<noteq> None \<or> ok then ((ok, err), m') else any_permission chk ps m')"

definition channel_editor ::
    "authenticator \<Rightarrow> http_actor \<Rightarrow> string \<Rightarrow> string list \<Rightarrow> can_memo \<Rightarrow> permit \<times> can_memo" where
  "channel_editor au a scope perms m =
     (if a_anonymous a \<or> scope = [] then ((False, None), m)
      else case au_scoped au of
        Some sc \<Rightarrow> any_permission (authorize sc (ha_verified a) scope) perms m
      | None \<Rightarrow> (case root_scope au of
          Inl e \<Rightarrow> ((False, Some e), m)
        | Inr rt \<Rightarrow> any_permission (actor_can a \<lparr>as_authority = as_authority rt, as_id = scope\<rparr>) perms m))"

section \<open>Who a request is\<close>

definition authenticate :: "authenticator \<Rightarrow> http_request \<Rightarrow> (auth_err, verified) result" where
  "authenticate au r =
     bindr (recovered ''Authenticate'' (au_authenticate au r))
       (\<lambda>v. case v of
          None \<Rightarrow> Inl (fault_err ''Authenticate returned neither a Verified nor an error'')
        | Some v \<Rightarrow> Inr v)"

definition presented :: "authenticator \<Rightarrow> http_request \<Rightarrow> bool" where
  "presented au r = list_ex (\<lambda>n. rq_header r n \<noteq> [])
     (case au_headers au of Some ns \<Rightarrow> ns | None \<Rightarrow> [''Authorization''])"

definition blank :: "string \<Rightarrow> bool" where
  "blank s \<longleftrightarrow> trim_space s = []"

definition check_identity :: "identity \<Rightarrow> auth_err option" where
  "check_identity i =
     (if blank (id_subject i) then Some (fault_err ''the Identity names no subject'')
      else if id_kind i \<noteq> SubjectUser \<and> id_kind i \<noteq> SubjectApplication
        then Some (fault_err ''the Identity's subject kind is neither a user nor an application'')
      else None)"

definition scoped_account ::
    "(verified \<Rightarrow> string \<Rightarrow> (string \<times> bool) call) \<Rightarrow> verified \<Rightarrow> http_actor \<Rightarrow> (auth_err, http_actor) result" where
  "scoped_account accounts v a =
     bindr (recovered ''app authorization ResolveTenantAccount'' (accounts v (a_id a)))
       (\<lambda>(account, member).
          if \<not> member then Inr (a\<lparr>a_account := Some []\<rparr>)
          else if blank account then Inl (fault_err ''tenant membership returned an empty account ID'')
          else Inr (a\<lparr>a_account := Some account\<rparr>))"

definition scoped_actor ::
    "authenticator \<Rightarrow> scoped_auth \<Rightarrow> verified \<Rightarrow> identity \<Rightarrow> http_actor \<Rightarrow> (auth_err, http_actor) result" where
  "scoped_actor au sc v i a =
     (if blank (id_issuer i) then Inl (fault_err ''scoped identity names no issuer'')
      else bindr (recovered ''app authorization ResolveActor'' (sc_resolve sc v))
        (\<lambda>aid. if blank aid then Inl (fault_err ''app authorization returned an empty actor ID'')
           else (case au_accounts au of
               None \<Rightarrow> Inr (a\<lparr>a_id := aid\<rparr>)
             | Some accounts \<Rightarrow> scoped_account accounts v (a\<lparr>a_id := aid\<rparr>))))"

definition identified :: "authenticator \<Rightarrow> http_request \<Rightarrow> verified \<Rightarrow> identity \<Rightarrow> (auth_err, http_actor) result" where
  "identified au r v i =
     (case check_identity i of
        Some e \<Rightarrow> Inl e
      | None \<Rightarrow>
          bindr
            (let a = \<lparr>a_id = id_subject i, a_account = None, a_kind = id_kind i, a_ip = client_ip r,
                 a_anonymous = False, a_claims = Some (memo_entitlements v), ha_invoker = None,
                 ha_verified = Wrapped v\<rparr>
             in case au_scoped au of None \<Rightarrow> Inr a | Some sc \<Rightarrow> scoped_actor au sc v i a)
            (\<lambda>a. Inr (if id_invoker i \<noteq> None \<and> \<not> id_self_invoked i
               then a\<lparr>ha_invoker := id_invoker i\<rparr> else a)))"

definition request_actor :: "authenticator \<Rightarrow> http_request \<Rightarrow> (auth_err, http_actor) result" where
  "request_actor au r =
     (if rq_as_host r then Inr host_actor
      else case authenticate au r of
        Inl e \<Rightarrow>
          if ae_unauthenticated e \<and> \<not> presented au r then Inr (anonymous_actor r) else Inl e
      | Inr v \<Rightarrow> bindr (recovered ''Identity'' (vf_identity v)) (identified au r v))"

section \<open>The guard\<close>

datatype tier = Open | Public | User | PersonTier | Staff | Editor | OtherTier string

record route_spec =
  rs_method :: string
  rs_path :: string
  rs_resource :: string
  rs_doc :: string
  rs_auth :: tier
  rs_perm :: string
  rs_responses :: nat
  rs_errors :: "string list"

text \<open>What the handler is served with: the bound actor, the request host, the reader
  preferences of an anonymous caller, and whether the response varies by them.\<close>

record admission =
  ad_actor :: http_actor
  ad_domain :: string
  ad_prefs :: "string list option"
  ad_vary :: bool

definition prefs_header :: string where "prefs_header = ''ContentKit-Reader-Preferences''"

definition admit_tier ::
    "authenticator \<Rightarrow> route_spec \<Rightarrow> http_actor \<Rightarrow> can_memo \<Rightarrow> auth_err option \<times> can_memo" where
  "admit_tier au s a m =
     (if rs_auth s \<in> {User, PersonTier, Staff, Editor} \<and> a_anonymous a then (Some err_unauthenticated, m)
      else case rs_auth s of
        PersonTier \<Rightarrow> (refuse_if (\<not> person (actor.truncate a)) err_forbidden, m)
      | User \<Rightarrow> (refuse_if (\<not> is_member (actor.truncate a)) err_forbidden, m)
      | Staff \<Rightarrow>
          (let ((ok, err), m') = can au a (rs_perm s) m
           in (case err of Some e \<Rightarrow> Some e | None \<Rightarrow> refuse_if (\<not> ok) err_forbidden, m'))
      | _ \<Rightarrow> (None, m))"

definition guard_route ::
    "authenticator \<Rightarrow> route_spec \<Rightarrow> http_request \<Rightarrow> (auth_err, admission) result \<times> can_memo" where
  "guard_route au s r =
     (case (if rs_auth s = Open then Inr (anonymous_actor r) else request_actor au r) of
        Inl e \<Rightarrow> (Inl e, empty_can_memo)
      | Inr a \<Rightarrow>
          (let (err, m) = admit_tier au s a empty_can_memo
           in case err of
                Some e \<Rightarrow> (Inl e, m)
              | None \<Rightarrow>
                  (Inr \<lparr>ad_actor = a, ad_domain = rq_host r,
                     ad_prefs = (if a_anonymous a then Some (rq_header_values r prefs_header) else None),
                     ad_vary = (rs_auth s = Public \<and> (rq_method r = ''GET'' \<or> rq_method r = ''HEAD''))\<rparr>, m)))"

text \<open>The error body of a refusal: \<open>status\<close> is the one \<open>auth.Refuse\<close> gives.\<close>

definition refuse_code :: "int \<Rightarrow> string \<times> string" where
  "refuse_code status =
     (if status = 401 then (''unauthorized'', ''authentication required'')
      else if status = 403 then (''forbidden'', ''forbidden'')
      else (''unavailable'', ''authentication is unavailable; retry''))"

end
