(* ===== verification/Http_Gate_Props.thy ===== *)
theory Http_Gate_Props
  imports Http_Gate
begin

text \<open>
  Properties of the HTTP gate: what a served request has proved, that an error never grants,
  that the request memo changes no answer, and which actors the gate builds.
\<close>

section \<open>Actors\<close>

text \<open>The actors the gate builds.\<close>

definition actor_ok :: "http_actor \<Rightarrow> bool" where
  "actor_ok a \<longleftrightarrow>
     (if a_anonymous a then a_id a = [] \<and> ha_verified a = NoVerified \<and> a_claims a = None
      else \<not> blank (a_id a) \<and> ha_verified a \<noteq> NoVerified \<and> a_kind a \<in> {SubjectUser, SubjectApplication} \<and>
        (\<forall>acc. a_account a = Some acc \<longrightarrow> acc = [] \<or> \<not> blank acc))"

lemma host_subject_not_blank: "\<not> blank host_subject"
proof -
  have "trim_space host_subject = host_subject"
    by (rule trim_space_printable) (simp_all add: host_subject_def)
  then show ?thesis by (simp add: blank_def host_subject_def)
qed

lemma recovered_Inr: "recovered s c = Inr a \<longleftrightarrow> c = Returns a"
  by (cases c) (auto simp: recovered_def)

lemma scoped_account_ok:
  assumes "scoped_account accounts v a = Inr b"
  shows "\<exists>acc. b = a\<lparr>a_account := Some acc\<rparr> \<and> (acc = [] \<or> \<not> blank acc)"
  using assms
  by (auto simp: scoped_account_def bindr_Inr_iff split: if_splits prod.splits)

lemma scoped_actor_ok:
  assumes "scoped_actor au sc v i a = Inr b"
  shows "\<exists>aid acc. b = a\<lparr>a_id := aid, a_account := acc\<rparr> \<and> \<not> blank aid \<and>
    (acc = a_account a \<or> acc = Some [] \<or> (\<exists>x. acc = Some x \<and> \<not> blank x))"
proof -
  obtain aid where aid: "\<not> blank aid" and
    b: "(case au_accounts au of None \<Rightarrow> Inr (a\<lparr>a_id := aid\<rparr>)
         | Some accounts \<Rightarrow> scoped_account accounts v (a\<lparr>a_id := aid\<rparr>)) = Inr b"
    using assms by (auto simp: scoped_actor_def bindr_Inr_iff split: if_splits)
  show ?thesis
  proof (cases "au_accounts au")
    case None
    then have "b = a\<lparr>a_id := aid, a_account := a_account a\<rparr>" using b by (cases a) auto
    with aid show ?thesis by blast
  next
    case (Some accounts)
    then obtain acc where "b = a\<lparr>a_id := aid, a_account := Some acc\<rparr>" "acc = [] \<or> \<not> blank acc"
      using b scoped_account_ok by fastforce
    with aid show ?thesis by blast
  qed
qed

lemma identified_ok:
  assumes "identified au r v i = Inr a"
  shows "actor_ok a \<and> \<not> a_anonymous a \<and> ha_verified a = Wrapped v"
proof -
  let ?a = "\<lparr>a_id = id_subject i, a_account = None, a_kind = id_kind i, a_ip = client_ip r,
     a_anonymous = False, a_claims = Some (memo_entitlements v), ha_invoker = None,
     ha_verified = Wrapped v\<rparr>"
  have chk: "check_identity i = None" using assms by (auto simp: identified_def split: option.splits)
  then have i: "\<not> blank (id_subject i)" "id_kind i \<in> {SubjectUser, SubjectApplication}"
    by (auto simp: check_identity_def split: if_splits)
  obtain b where b: "(case au_scoped au of None \<Rightarrow> Inr ?a | Some sc \<Rightarrow> scoped_actor au sc v i ?a) = Inr b"
    and a: "a = (if id_invoker i \<noteq> None \<and> \<not> id_self_invoked i then b\<lparr>ha_invoker := id_invoker i\<rparr> else b)"
    using assms chk by (auto simp: identified_def Let_def bindr_Inr_iff)
  have "actor_ok b \<and> \<not> a_anonymous b \<and> ha_verified b = Wrapped v"
  proof (cases "au_scoped au")
    case None
    then show ?thesis using b i by (auto simp: actor_ok_def)
  next
    case (Some sc)
    then show ?thesis using b i scoped_actor_ok [of au sc v i ?a b] by (auto simp: actor_ok_def)
  qed
  then show ?thesis unfolding a by (auto simp: actor_ok_def)
qed

text \<open>
  C10: the actor of a request is well-formed: anonymous with nothing, or a person or
  application with an id and a credential. A request that presents a credential is never
  taken for anonymous, and only in-process code acts as the host.
\<close>

theorem request_actor_ok:
  assumes "request_actor au r = Inr a"
  shows "actor_ok a \<and> (is_host a \<longleftrightarrow> rq_as_host r) \<and>
    (a_anonymous a \<longrightarrow> \<not> presented au r \<and> \<not> rq_as_host r \<and>
       (\<exists>e. authenticate au r = Inl e \<and> ae_unauthenticated e))"
proof (cases "rq_as_host r")
  case True
  then show ?thesis
    using assms host_subject_not_blank
    by (auto simp: request_actor_def host_actor_def actor_ok_def is_host_def)
next
  case False
  show ?thesis
  proof (cases "authenticate au r")
    case (Inl e)
    then show ?thesis
      using assms False
      by (auto simp: request_actor_def anonymous_actor_def actor_ok_def is_host_def split: if_splits)
  next
    case (Inr v)
    then obtain i where "identified au r v i = Inr a"
      using assms False by (auto simp: request_actor_def bindr_Inr_iff)
    then show ?thesis using identified_ok False by (auto simp: is_host_def)
  qed
qed

section \<open>Permissions\<close>

text \<open>The provider's own answer, without the memo.\<close>

definition can_source :: "holder \<Rightarrow> can_key \<Rightarrow> bool option" where
  "can_source h k = (case h of
     Wrapped v \<Rightarrow> (case vf_can v of
        Some c \<Rightarrow> (case c (fst k) (snd k) of Returns b \<Rightarrow> Some b | _ \<Rightarrow> None)
      | None \<Rightarrow> None)
   | _ \<Rightarrow> None)"

definition scoped_source :: "authenticator \<Rightarrow> holder \<Rightarrow> can_key \<Rightarrow> bool option" where
  "scoped_source au h k = (case au_scoped au of
     Some sc \<Rightarrow> (if as_authority (fst k) = [] then
        (case sc_authorize sc h (as_id (fst k)) (snd k) of Returns b \<Rightarrow> Some b | _ \<Rightarrow> None) else None)
   | None \<Rightarrow> None)"

definition memo_faithful :: "authenticator \<Rightarrow> holder \<Rightarrow> can_memo \<Rightarrow> bool" where
  "memo_faithful au h m \<longleftrightarrow>
     can_cache.faithful (can_source h) m \<and> scoped_cache.faithful (scoped_source au h) m"

lemma empty_memo_faithful [simp]: "memo_faithful au h empty_can_memo"
  by (simp add: memo_faithful_def can_cache.faithful_def scoped_cache.faithful_def empty_can_memo_def)

lemma put_other:
  "scoped_cache.faithful src (memo_put_can k b m) = scoped_cache.faithful src m"
  "can_cache.faithful src' (memo_put_scoped k b m) = can_cache.faithful src' m"
  by (simp_all add: scoped_cache.faithful_def can_cache.faithful_def memo_put_can_def memo_put_scoped_def)

lemma memo_can_transparent:
  assumes "memo_faithful au (Wrapped v) m"
  shows "fst (memo_can v s p m) = fst (memo_can v s p empty_can_memo) \<and>
    memo_faithful au (Wrapped v) (snd (memo_can v s p m))"
proof (cases "cm_can m (s, p)")
  case None
  show ?thesis
  proof (cases "vf_can v")
    case None
    with \<open>cm_can m (s, p) = None\<close> assms show ?thesis by (simp add: memo_can_def empty_can_memo_def)
  next
    case (Some c)
    have src: "can_source (Wrapped v) (s, p) = (case c s p of Returns b \<Rightarrow> Some b | _ \<Rightarrow> None)"
      by (simp add: can_source_def Some)
    show ?thesis
      using None assms Some src
      by (cases "c s p")
         (simp_all add: memo_can_def empty_can_memo_def recovered_def memo_faithful_def put_other
           can_cache.faithful_put)
  qed
next
  case (Some b)
  then have "can_source (Wrapped v) (s, p) = Some b"
    using assms can_cache.faithfulD unfolding memo_faithful_def by blast
  then obtain c where "vf_can v = Some c" "c s p = Returns b"
    by (auto simp: can_source_def split: option.splits call.splits)
  then show ?thesis using Some assms by (simp add: memo_can_def empty_can_memo_def recovered_def)
qed

lemma authorize_transparent:
  assumes m: "memo_faithful au h m" and sc: "au_scoped au = Some sc"
  shows "fst (authorize sc h g p m) = fst (authorize sc h g p empty_can_memo) \<and>
    memo_faithful au h (snd (authorize sc h g p m))"
proof (cases "\<exists>v. h = Wrapped v")
  case False
  then show ?thesis using m
    by (cases h) (auto simp: authorize_def Let_def recovered_def split: call.splits sum.splits)
next
  case True
  then obtain v where h: "h = Wrapped v" ..
  let ?k = "(zero_scope\<lparr>as_id := g\<rparr>, p)"
  have src: "scoped_source au h ?k = (case sc_authorize sc h g p of Returns b \<Rightarrow> Some b | _ \<Rightarrow> None)"
    by (simp add: scoped_source_def sc zero_scope_def)
  show ?thesis
  proof (cases "cm_scoped m ?k")
    case None
    then show ?thesis
      using m src
      by (cases "sc_authorize sc h g p")
         (simp_all add: h authorize_def Let_def recovered_def empty_can_memo_def memo_faithful_def
           put_other scoped_cache.faithful_put)
  next
    case (Some b)
    then have "scoped_source au h ?k = Some b"
      using m scoped_cache.faithfulD unfolding memo_faithful_def by blast
    then have "sc_authorize sc h g p = Returns b" using src by (auto split: call.splits)
    then show ?thesis
      using Some m by (simp add: h authorize_def Let_def recovered_def empty_can_memo_def)
  qed
qed

lemma actor_can_transparent:
  assumes "memo_faithful au (ha_verified a) m"
  shows "fst (actor_can a s p m) = fst (actor_can a s p empty_can_memo) \<and>
    memo_faithful au (ha_verified a) (snd (actor_can a s p m))"
proof (cases "ha_verified a")
  case (Wrapped v)
  then show ?thesis using assms memo_can_transparent [of au v m s p] by (simp add: actor_can_def)
qed (use assms in \<open>simp_all add: actor_can_def\<close>)

lemma any_permission_transparent:
  assumes "\<And>p m. memo_faithful au h m \<Longrightarrow>
      fst (chk p m) = fst (chk p empty_can_memo) \<and> memo_faithful au h (snd (chk p m))"
    and "memo_faithful au h m"
  shows "fst (any_permission chk ps m) = fst (any_permission chk ps empty_can_memo) \<and>
    memo_faithful au h (snd (any_permission chk ps m))"
  using assms(2)
proof (induction ps arbitrary: m)
  case Nil
  then show ?case by simp
next
  case (Cons p ps)
  obtain ok err m1 where 1: "chk p m = ((ok, err), m1)" by (metis prod.exhaust)
  obtain ok' err' m2 where 2: "chk p empty_can_memo = ((ok', err'), m2)" by (metis prod.exhaust)
  have "ok' = ok" "err' = err" "memo_faithful au h m1" "memo_faithful au h m2"
    using assms(1) [OF Cons.prems, of p] assms(1) [OF empty_memo_faithful, of p] 1 2 by simp_all
  then show ?case
    using Cons.IH [of m1] Cons.IH [of m2] by (simp add: 1 2)
qed

lemma can_transparent:
  assumes "memo_faithful au (ha_verified a) m"
  shows "fst (can au a p m) = fst (can au a p empty_can_memo) \<and>
      memo_faithful au (ha_verified a) (snd (can au a p m))"
  using assms authorize_transparent [OF assms] actor_can_transparent [OF assms]
  by (auto simp: can_def split: option.splits sum.splits)

lemma channel_editor_transparent:
  assumes "memo_faithful au (ha_verified a) m"
  shows "fst (channel_editor au a scope ps m) = fst (channel_editor au a scope ps empty_can_memo) \<and>
      memo_faithful au (ha_verified a) (snd (channel_editor au a scope ps m))"
proof (cases "au_scoped au")
  case None
  then show ?thesis
    using any_permission_transparent [where chk = "actor_can a s" for s, OF actor_can_transparent assms]
      assms
    by (auto simp: channel_editor_def split: sum.splits)
next
  case (Some sc)
  then show ?thesis
    using any_permission_transparent [where chk = "authorize sc (ha_verified a) scope",
        OF authorize_transparent [OF _ Some] assms] assms
    by (auto simp: channel_editor_def)
qed

text \<open>
  the memo of a request changes no answer: with any memo that holds the provider's own
  answers, \<open>Can\<close> and \<open>ChannelEditor\<close> return what they return with an empty one, error
  included, and leave such a memo.
\<close>

theorem permission_memo_transparent:
  assumes "memo_faithful au (ha_verified a) m"
  shows "fst (can au a p m) = fst (can au a p empty_can_memo) \<and>
    memo_faithful au (ha_verified a) (snd (can au a p m)) \<and>
    fst (channel_editor au a scope ps m) = fst (channel_editor au a scope ps empty_can_memo) \<and>
    memo_faithful au (ha_verified a) (snd (channel_editor au a scope ps m))"
  using can_transparent [OF assms] channel_editor_transparent [OF assms] by blast

lemma memo_can_error: "memo_can v s p m = ((ok, Some e), m') \<Longrightarrow> \<not> ok \<and> m' = m"
  by (auto simp: memo_can_def split: option.splits sum.splits)

lemma authorize_error: "authorize sc h g p m = ((ok, Some e), m') \<Longrightarrow> \<not> ok \<and> m' = m"
  by (auto simp: authorize_def Let_def split: option.splits sum.splits)

lemma actor_can_error: "actor_can a s p m = ((ok, Some e), m') \<Longrightarrow> \<not> ok \<and> m' = m"
  by (auto simp: actor_can_def dest: memo_can_error split: if_splits holder.splits)

lemma any_permission_error:
  assumes "\<And>p m ok e m'. chk p m = ((ok, Some e), m') \<Longrightarrow> \<not> ok"
  shows "any_permission chk ps m = ((ok, Some e), m') \<Longrightarrow> \<not> ok"
proof (induction ps arbitrary: m)
  case (Cons p ps)
  obtain ok1 err1 m1 where 1: "chk p m = ((ok1, err1), m1)" by (metis prod.exhaust)
  with Cons assms [of p m] show ?case by (cases err1) (auto split: if_splits)
qed simp

lemma any_actor_can_error: "any_permission (actor_can a s) ps m = ((ok, Some e), m') \<Longrightarrow> \<not> ok"
  by (rule any_permission_error [where chk = "actor_can a s"]) (use actor_can_error in blast)

lemma any_authorize_error: "any_permission (authorize sc h g) ps m = ((ok, Some e), m') \<Longrightarrow> \<not> ok"
  by (rule any_permission_error [where chk = "authorize sc h g"]) (use authorize_error in blast)

text \<open>
  an error never grants: when \<open>Can\<close> or \<open>ChannelEditor\<close> returns an error, a panic of the
  provider included, its answer is no.
\<close>

theorem error_never_grants:
  "(can au a p m = ((ok, Some e), m') \<longrightarrow> \<not> ok) \<and>
   (channel_editor au a scope ps m = ((ok, Some e), m') \<longrightarrow> \<not> ok)"
proof -
  have "can au a p m = ((ok, Some e), m') \<Longrightarrow> \<not> ok"
    by (auto simp: can_def dest: authorize_error actor_can_error split: if_splits option.splits sum.splits)
  moreover have "channel_editor au a scope ps m = ((ok, Some e), m') \<Longrightarrow> \<not> ok"
    using any_actor_can_error any_authorize_error
    by (fastforce simp: channel_editor_def split: if_splits option.splits sum.splits)
  ultimately show ?thesis by blast
qed

section \<open>Served requests\<close>

text \<open>What holding a staff permission means, without memo and without errors.\<close>

definition granted :: "authenticator \<Rightarrow> http_actor \<Rightarrow> string \<Rightarrow> bool" where
  "granted au a p \<longleftrightarrow> p \<noteq> [] \<and> \<not> a_anonymous a \<and>
     (is_host a \<or>
      (case au_scoped au of
         Some sc \<Rightarrow> sc_authorize sc (ha_verified a) [] p = Returns True
       | None \<Rightarrow> (\<exists>s v c. root_scope au = Inr s \<and> ha_verified a = Wrapped v \<and> vf_can v = Some c \<and>
            c s p = Returns True)))"

lemma can_granted: "fst (fst (can au a p empty_can_memo)) \<longleftrightarrow> granted au a p"
proof -
  have auth: "fst (fst (authorize sc h [] p empty_can_memo)) \<longleftrightarrow> sc_authorize sc h [] p = Returns True" for sc h
    by (cases "sc_authorize sc h [] p"; cases h) (simp_all add: authorize_def Let_def recovered_def empty_can_memo_def)
  have mc: "fst (fst (memo_can v s p empty_can_memo)) \<longleftrightarrow> (\<exists>c. vf_can v = Some c \<and> c s p = Returns True)" for v s
    by (auto simp: memo_can_def empty_can_memo_def recovered_def split: option.splits call.splits)
  show ?thesis
    using auth mc
    by (auto simp: can_def granted_def is_host_def actor_can_def split: option.splits sum.splits holder.splits)
qed

text \<open>
  C11: a request that is served has passed its route's tier: a signed-in caller, a tenant
  account, a person, or the route's permission granted by the provider; the bound actor is
  the request's own, and an open route never asks who it is.
\<close>

theorem served_requests_admitted:
  assumes "guard_route au s r = (Inr ad, m)"
  shows "(rs_auth s = Open \<longrightarrow> ad_actor ad = anonymous_actor r) \<and>
    (rs_auth s \<noteq> Open \<longrightarrow> request_actor au r = Inr (ad_actor ad)) \<and>
    (rs_auth s \<in> {User, PersonTier, Staff, Editor} \<longrightarrow> \<not> a_anonymous (ad_actor ad)) \<and>
    (rs_auth s = User \<longrightarrow> is_member (actor.truncate (ad_actor ad))) \<and>
    (rs_auth s = PersonTier \<longrightarrow> person (actor.truncate (ad_actor ad))) \<and>
    (rs_auth s = Staff \<longrightarrow> granted au (ad_actor ad) (rs_perm s)) \<and>
    (ad_prefs ad \<noteq> None \<longrightarrow> a_anonymous (ad_actor ad))"
proof -
  obtain a where a: "(if rs_auth s = Open then Inr (anonymous_actor r) else request_actor au r) = Inr a"
    and adm: "fst (admit_tier au s a empty_can_memo) = None" and ad: "ad_actor ad = a"
      "ad_prefs ad = (if a_anonymous a then Some (rq_header_values r prefs_header) else None)"
    using assms by (auto simp: guard_route_def Let_def split: sum.splits prod.splits option.splits)
  have staff: "rs_auth s = Staff \<Longrightarrow> granted au a (rs_perm s)"
    using adm unfolding can_granted [symmetric]
    by (auto simp: admit_tier_def Let_def split: if_splits prod.splits option.splits)
  have other: "rs_auth s \<in> {User, PersonTier, Staff, Editor} \<Longrightarrow> \<not> a_anonymous a"
    "rs_auth s = User \<Longrightarrow> is_member (actor.truncate a)"
    "rs_auth s = PersonTier \<Longrightarrow> person (actor.truncate a)"
    using adm by (auto simp: admit_tier_def split: if_splits)
  show ?thesis using a ad staff other by (auto split: if_splits)
qed

section \<open>A sample host\<close>

definition sample_verified :: verified where
  "sample_verified = \<lparr>vf_identity = Returns \<lparr>id_subject = ''u1'', id_issuer = [], id_kind = SubjectUser,
       id_invoker = None, id_self_invoked = False\<rparr>,
     vf_can = Some (\<lambda>s p. if p = ''root:content:write'' then Returns True
       else if p = ''root:polls:write'' then Panics ''down'' else Returns False),
     vf_claims = None, vf_recent = None, vf_bound = None\<rparr>"

definition sample_auth :: authenticator where
  "sample_auth = \<lparr>au_nil = False, au_authenticate = (\<lambda>r. if rq_header r ''Authorization'' = ''u1''
       then Returns (Some sample_verified) else Fails err_unauthenticated),
     au_root = Some (Returns \<lparr>as_authority = ''site'', as_id = ''root''\<rparr>), au_known = None,
     au_headers = None, au_scoped = None, au_accounts = None\<rparr>"

definition sample_request :: "string \<Rightarrow> http_request" where
  "sample_request cred = \<lparr>rq_method = ''GET'', rq_host = ''example.org'', rq_remote_addr = ''10.0.0.1:80'',
     rq_header = (\<lambda>n. if n = ''Authorization'' then cred else []), rq_header_values = (\<lambda>_. []),
     rq_as_host = False\<rparr>"

definition sample_route :: route_spec where
  "sample_route = \<lparr>rs_method = ''GET'', rs_path = ''/contents'', rs_resource = ''contents'', rs_doc = ''d'',
     rs_auth = Staff, rs_perm = ''root:content:write'', rs_responses = 1, rs_errors = []\<rparr>"

definition sample_person :: http_actor where
  "sample_person = \<lparr>a_id = ''u1'', a_account = None, a_kind = SubjectUser, a_ip = ''10.0.0.1'',
     a_anonymous = False, a_claims = Some [], ha_invoker = None, ha_verified = Wrapped sample_verified\<rparr>"

lemma sample_client_ip: "client_ip (sample_request cred) = ''10.0.0.1''"
  by (simp add: client_ip_def sample_request_def) code_simp

lemma sample_request_actor: "request_actor sample_auth (sample_request ''u1'') = Inr sample_person"
proof -
  have b: "\<not> blank ''u1''" by (simp add: blank_def trim_space_printable)
  have "authenticate sample_auth (sample_request ''u1'') = Inr sample_verified"
    by (simp add: authenticate_def sample_auth_def sample_request_def recovered_def)
  moreover have "identified sample_auth (sample_request ''u1'') sample_verified
      \<lparr>id_subject = ''u1'', id_issuer = [], id_kind = SubjectUser, id_invoker = None, id_self_invoked = False\<rparr>
      = Inr sample_person"
    using b by (simp add: identified_def check_identity_def Let_def sample_auth_def sample_client_ip
        sample_person_def memo_entitlements_def sample_verified_def)
  ultimately show ?thesis
    by (simp add: request_actor_def recovered_def sample_request_def sample_verified_def)
qed

theorem request_actor_ok_witness:
  "request_actor sample_auth (sample_request ''u1'') = Inr sample_person \<and> actor_ok sample_person"
  using request_actor_ok [OF sample_request_actor] sample_request_actor by blast

theorem permission_memo_transparent_witness:
  "fst (can sample_auth sample_person ''root:content:write''
     (memo_put_can (\<lparr>as_authority = ''site'', as_id = ''root''\<rparr>, ''root:content:write'') True empty_can_memo)) =
   fst (can sample_auth sample_person ''root:content:write'' empty_can_memo)"
proof -
  have "memo_faithful sample_auth (ha_verified sample_person)
      (memo_put_can (\<lparr>as_authority = ''site'', as_id = ''root''\<rparr>, ''root:content:write'') True empty_can_memo)"
    using empty_memo_faithful [of sample_auth "ha_verified sample_person"]
    unfolding memo_faithful_def put_other
    by (auto intro!: can_cache.faithful_put simp: can_source_def sample_person_def sample_verified_def)
  then show ?thesis using permission_memo_transparent by blast
qed

theorem error_never_grants_witness:
  "\<exists>e. can sample_auth sample_person ''root:polls:write'' empty_can_memo = ((False, Some e), empty_can_memo)"
proof -
  have e: "snd (fst (can sample_auth sample_person ''root:polls:write'' empty_can_memo)) \<noteq> None"
    "snd (can sample_auth sample_person ''root:polls:write'' empty_can_memo) = empty_can_memo"
    by (simp_all add: can_def sample_auth_def sample_person_def is_host_def root_scope_def actor_can_def
        memo_can_def sample_verified_def empty_can_memo_def recovered_def)
  obtain ok err m' where r: "can sample_auth sample_person ''root:polls:write'' empty_can_memo = ((ok, err), m')"
    by (metis prod.exhaust)
  then obtain x where x: "err = Some x" "m' = empty_can_memo" using e by auto
  then have "\<not> ok"
    using error_never_grants [of sample_auth sample_person "''root:polls:write''" empty_can_memo ok x m'] r by simp
  then show ?thesis using r x by simp
qed

theorem served_requests_admitted_witness:
  "\<exists>ad m. guard_route sample_auth sample_route (sample_request ''u1'') = (Inr ad, m) \<and>
     granted sample_auth (ad_actor ad) ''root:content:write''"
proof -
  have "fst (admit_tier sample_auth sample_route sample_person empty_can_memo) = None"
    by (simp add: admit_tier_def sample_route_def can_def sample_auth_def sample_person_def is_host_def
        root_scope_def actor_can_def memo_can_def sample_verified_def empty_can_memo_def recovered_def)
  moreover have "rs_auth sample_route = Staff" by (simp add: sample_route_def)
  ultimately have "\<exists>ad m. guard_route sample_auth sample_route (sample_request ''u1'') = (Inr ad, m)"
    by (simp add: guard_route_def sample_request_actor Let_def case_prod_beta)
  then obtain ad m where g: "guard_route sample_auth sample_route (sample_request ''u1'') = (Inr ad, m)" by blast
  then show ?thesis using served_requests_admitted [OF g] by (auto simp: sample_route_def)
qed

end
