(* ===== verification/Kinds_Props.thy ===== *)
theory Kinds_Props
  imports Kinds_Validate "HOL-Library.Multiset"
begin

text \<open>
  What \<open>Config.Validate\<close> guarantees. Its verdict is first characterised without the order
  of the loops: every check passes and the routes are fresh. From this follow the
  uniqueness of routes, the independence of Go's map iteration order, and that the domain
  chosen for a host does not depend on the order of the domains.
\<close>

section \<open>The route loop\<close>

lemma add_route_Inr_iff:
  "add_route owner r rs = Inr rs' \<longleftrightarrow>
     (if r = [] then rs' = rs
      else route_re r \<and> r \<notin> fst ` set rs \<and> rs' = AList.update r owner rs)"
  by (auto simp: add_route_def map_of_eq_None_iff)

lemma keys_update: "fst ` set (AList.update k v al) = insert k (fst ` set al)"
  by (simp add: dom_map_of_conv_image_fst [symmetric] update_conv')

definition route_items :: "('a \<Rightarrow> string) \<Rightarrow> 'a list \<Rightarrow> string list" where
  "route_items r xs = filter (\<lambda>s. s \<noteq> []) (map r xs)"

text \<open>A loop that checks, registers a route and checks again succeeds iff every check of
  every element passes and the non-empty routes are well-formed, distinct and new.\<close>

definition routes_fresh :: "string list \<Rightarrow> route_map \<Rightarrow> bool" where
  "routes_fresh rts rs \<longleftrightarrow> distinct rts \<and> list_all route_re rts \<and> set rts \<inter> fst ` set rs = {}"

lemma routes_fresh_Cons:
  "routes_fresh (x # rts) rs \<longleftrightarrow>
     route_re x \<and> x \<notin> fst ` set rs \<and> routes_fresh rts (AList.update x owner rs)"
  unfolding routes_fresh_def keys_update by auto

lemma route_items_Cons:
  "route_items r (x # xs) = (if r x = [] then route_items r xs else r x # route_items r xs)"
  by (simp add: route_items_def)

lemma route_loop_step:
  "(\<exists>rs1. add_route owner x rs = Inr rs1 \<and> routes_fresh rts rs1) \<longleftrightarrow>
     routes_fresh (if x = [] then rts else x # rts) rs"
  by (cases "x = []") (auto simp: add_route_Inr_iff routes_fresh_Cons [where owner = owner])

lemma route_loop_ok:
  assumes step: "\<And>x rs. f x rs = bindr (guard (pre x) rs)
      (\<lambda>rs. bindr (add_route (own x) (r x) rs) (guard (post x)))"
  shows "(\<exists>rs'. fold_result f xs rs = Inr rs')
     \<longleftrightarrow> (\<forall>x \<in> set xs. list_all no_error (pre x) \<and> list_all no_error (post x)) \<and>
       routes_fresh (route_items r xs) rs"
proof (induction xs arbitrary: rs)
  case Nil
  then show ?case by (simp add: route_items_def routes_fresh_def)
next
  case (Cons x xs)
  let ?C = "\<forall>x \<in> set xs. list_all no_error (pre x) \<and> list_all no_error (post x)"
  have "(\<exists>rs'. fold_result f (x # xs) rs = Inr rs') \<longleftrightarrow>
     (\<exists>rs1. list_all no_error (pre x) \<and> add_route (own x) (r x) rs = Inr rs1 \<and>
        list_all no_error (post x) \<and> (\<exists>rs'. fold_result f xs rs1 = Inr rs'))"
    by (auto simp: step [of x rs] bindr_Inr_iff guard_Inr_iff)
  also have "\<dots> \<longleftrightarrow> list_all no_error (pre x) \<and> list_all no_error (post x) \<and> ?C \<and>
     (\<exists>rs1. add_route (own x) (r x) rs = Inr rs1 \<and> routes_fresh (route_items r xs) rs1)"
    by (simp only: Cons.IH) meson
  also have "\<dots> \<longleftrightarrow> list_all no_error (pre x) \<and> list_all no_error (post x) \<and> ?C \<and>
     routes_fresh (route_items r (x # xs)) rs"
    by (simp only: route_loop_step route_items_Cons)
  finally show ?case by simp
qed

lemma route_loop_keys:
  assumes step: "\<And>x rs. f x rs = bindr (guard (pre x) rs)
      (\<lambda>rs. bindr (add_route (own x) (r x) rs) (guard (post x)))"
  shows "fold_result f xs rs = Inr rs' \<Longrightarrow> fst ` set rs' = fst ` set rs \<union> set (route_items r xs)"
proof (induction xs arbitrary: rs)
  case Nil
  then show ?case by (simp add: route_items_def)
next
  case (Cons x xs)
  then obtain rs1 where "add_route (own x) (r x) rs = Inr rs1" "fold_result f xs rs1 = Inr rs'"
    by (auto simp: step [of x rs] bindr_Inr_iff guard_Inr_iff)
  with Cons.IH [of rs1] show ?case
    by (auto simp: add_route_Inr_iff route_items_def keys_update split: if_splits)
qed

lemma routes_fresh_append:
  assumes "fst ` set rs' = fst ` set rs \<union> set xs"
  shows "routes_fresh xs rs \<and> routes_fresh ys rs' \<longleftrightarrow> routes_fresh (xs @ ys) rs"
  unfolding routes_fresh_def using assms by auto

text \<open>Two such loops in a row behave as one loop over both route lists.\<close>

lemma route_loop_seq:
  assumes "(\<exists>rs'. m = Inr rs') \<longleftrightarrow> P \<and> routes_fresh xs rs"
    and "\<And>rs'. m = Inr rs' \<Longrightarrow> fst ` set rs' = fst ` set rs \<union> set xs"
    and "\<And>rs'. (\<exists>t. k rs' = Inr t) \<longleftrightarrow> Q \<and> routes_fresh ys rs'"
  shows "(\<exists>t. bindr m k = Inr t) \<longleftrightarrow> (P \<and> Q) \<and> routes_fresh (xs @ ys) rs"
proof -
  have "(\<exists>t. bindr m k = Inr t) \<longleftrightarrow> (\<exists>rs'. m = Inr rs' \<and> Q \<and> routes_fresh ys rs')"
    using assms(3) by (auto simp: bindr_Inr_iff)
  also have "\<dots> \<longleftrightarrow> P \<and> Q \<and> routes_fresh xs rs \<and> (\<forall>rs'. m = Inr rs' \<longrightarrow> routes_fresh ys rs')"
    using assms(1) by (metis sum.inject(2))
  also have "\<dots> \<longleftrightarrow> (P \<and> Q) \<and> routes_fresh (xs @ ys) rs"
  proof (cases m)
    case (Inl e)
    then show ?thesis using assms(1) routes_fresh_def by auto
  next
    case (Inr rs')
    then show ?thesis using routes_fresh_append [OF assms(2) [OF Inr], of ys] by auto
  qed
  finally show ?thesis .
qed

section \<open>The verdict without the loops\<close>

definition channel_items :: "config \<Rightarrow> channels list" where
  "channel_items c = (case channels_of c of None \<Rightarrow> [] | Some ch \<Rightarrow> [ch])"

definition channel_route :: "config \<Rightarrow> channels \<Rightarrow> string" where
  "channel_route c ch = (if channel_storage c then [] else ch_route ch)"

text \<open>Every route of the configuration that gets a page: entity kinds, channels, kinds.\<close>

definition all_routes :: "config \<Rightarrow> string list" where
  "all_routes c = route_items (\<lambda>x. ek_route (snd x)) (entity_kinds c)
     @ route_items (channel_route c) (channel_items c)
     @ route_items (\<lambda>x. kind_route (snd x)) (kinds c)"

lemma check_channels_fold:
  "check_channels c rs = fold_result (\<lambda>ch rs. bindr (guard (channels_pre_checks ch) rs)
     (\<lambda>rs. bindr (add_route ''channels'' (channel_route c ch) rs)
     (guard (channels_post_checks c ch)))) (channel_items c) rs"
  by (auto simp: check_channels_def channel_items_def channel_route_def bindr_def
      split: option.splits sum.splits)

lemma entity_loop:
  "(\<exists>rs'. fold_result (check_entity_kind c) xs rs = Inr rs') \<longleftrightarrow>
     (\<forall>x \<in> set xs. list_all no_error (entity_pre_checks c x) \<and>
       list_all no_error (entity_post_checks c x)) \<and>
     routes_fresh (route_items (\<lambda>x. ek_route (snd x)) xs) rs"
  "fold_result (check_entity_kind c) xs rs = Inr rs' \<Longrightarrow>
     fst ` set rs' = fst ` set rs \<union> set (route_items (\<lambda>x. ek_route (snd x)) xs)"
  by (rule route_loop_ok, rule check_entity_kind_def)
     (erule route_loop_keys [rotated], rule check_entity_kind_def)

lemma kind_loop:
  "(\<exists>rs'. fold_result (check_kind pd c) xs rs = Inr rs') \<longleftrightarrow>
     (\<forall>x \<in> set xs. list_all no_error (kind_pre_checks pd c x) \<and>
       list_all no_error (kind_post_checks c x)) \<and>
     routes_fresh (route_items (\<lambda>x. kind_route (snd x)) xs) rs"
  "fold_result (check_kind pd c) xs rs = Inr rs' \<Longrightarrow>
     fst ` set rs' = fst ` set rs \<union> set (route_items (\<lambda>x. kind_route (snd x)) xs)"
  by (rule route_loop_ok, rule check_kind_def)
     (erule route_loop_keys [rotated], rule check_kind_def)

lemma channel_loop:
  "(\<exists>rs'. check_channels c rs = Inr rs') \<longleftrightarrow>
     (\<forall>ch \<in> set (channel_items c). list_all no_error (channels_pre_checks ch) \<and>
       list_all no_error (channels_post_checks c ch)) \<and>
     routes_fresh (route_items (channel_route c) (channel_items c)) rs"
  "check_channels c rs = Inr rs' \<Longrightarrow>
     fst ` set rs' = fst ` set rs \<union> set (route_items (channel_route c) (channel_items c))"
  unfolding check_channels_fold
  by (rule route_loop_ok, rule refl) (erule route_loop_keys [rotated], rule refl)

definition item_checks :: "(string \<Rightarrow> time option) \<Rightarrow> config \<Rightarrow> bool" where
  "item_checks pd c \<longleftrightarrow>
     (\<forall>x \<in> set (entity_kinds c). list_all no_error (entity_pre_checks c x) \<and>
        list_all no_error (entity_post_checks c x)) \<and>
     (\<forall>ch \<in> set (channel_items c). list_all no_error (channels_pre_checks ch) \<and>
        list_all no_error (channels_post_checks c ch)) \<and>
     (\<forall>x \<in> set (kinds c). list_all no_error (kind_pre_checks pd c x) \<and>
        list_all no_error (kind_post_checks c x))"

lemma validate_config_iff:
  "validate_config uni pd c = None \<longleftrightarrow>
     list_all no_error (head_checks c) \<and> item_checks pd c \<and>
     distinct (all_routes c) \<and> list_all route_re (all_routes c) \<and>
     list_all no_error (tail_checks uni c)"
proof -
  let ?E = "fold_result (check_entity_kind c) (entity_kinds c) []"
  let ?K = "\<lambda>rs. fold_result (check_kind pd c) (kinds c) rs"
  let ?T = "guard (tail_checks uni c)"
  have tail: "(\<exists>t. ?T rs = Inr t) \<longleftrightarrow> list_all no_error (tail_checks uni c) \<and> routes_fresh [] rs" for rs
    by (simp add: guard_Inr_iff routes_fresh_def)
  have "validate_config uni pd c = None \<longleftrightarrow>
      list_all no_error (head_checks c) \<and>
      (\<exists>t. bindr ?E (\<lambda>rs. bindr (check_channels c rs) (\<lambda>rs. bindr (?K rs) ?T)) = Inr t)"
    unfolding validate_config_def
    by (cases "first_error (head_checks c)")
       (auto simp: guard_def first_error_None_all [symmetric] split: sum.splits)
  moreover have "(\<exists>t. bindr ?E (\<lambda>rs. bindr (check_channels c rs) (\<lambda>rs. bindr (?K rs) ?T)) = Inr t)
      \<longleftrightarrow> item_checks pd c \<and> list_all no_error (tail_checks uni c) \<and> routes_fresh (all_routes c) []"
    unfolding item_checks_def all_routes_def
    by (subst route_loop_seq [OF entity_loop route_loop_seq [OF channel_loop
          route_loop_seq [OF kind_loop tail]]]) auto
  ultimately show ?thesis by (auto simp: routes_fresh_def)
qed

section \<open>Domains\<close>

definition norm_hosts :: "(string \<Rightarrow> string) \<Rightarrow> domain \<Rightarrow> string list" where
  "norm_hosts uni d = map (domain_host uni) (d_hosts d)"

lemma host_scan:
  "list_all no_error (scan (\<lambda>before. host_checks uni (hs0 @ before)) [] hs) \<longleftrightarrow>
     distinct (map (domain_host uni) hs) \<and>
     (\<forall>h \<in> set hs. domain_host uni h \<noteq> [] \<and> domain_host uni h \<notin> set (map (domain_host uni) hs0))"
  by (rule scan_fresh_key) (auto simp: host_checks_def)

lemma domains_scan:
  "list_all no_error (scan (domain_checks uni) seen ds) \<Longrightarrow>
     distinct (map d_name ds) \<and> set (map d_name seen) \<inter> set (map d_name ds) = {} \<and>
     distinct (concat (map (norm_hosts uni) ds)) \<and>
     set (concat (map (norm_hosts uni) seen)) \<inter> set (concat (map (norm_hosts uni) ds)) = {}"
proof (induction ds arbitrary: seen)
  case Nil
  then show ?case by simp
next
  case (Cons d ds)
  from Cons.prems have
    name: "d_name d \<notin> set (map d_name seen)" and
    hosts: "list_all no_error (scan (\<lambda>before. host_checks uni (concat (map d_hosts seen) @ before)) []
       (d_hosts d))" and
    rest: "list_all no_error (scan (domain_checks uni) (seen @ [d]) ds)"
    by (auto simp: domain_checks_def [of uni seen d])
  from hosts have h: "distinct (norm_hosts uni d)"
    "set (norm_hosts uni d) \<inter> set (concat (map (norm_hosts uni) seen)) = {}"
    unfolding host_scan by (auto simp: norm_hosts_def)
  from Cons.IH [OF rest] name h show ?case by auto
qed

lemma validate_domains_ok:
  assumes "validate_domains uni fs = None"
  shows "distinct (map d_name (domains fs))"
    and "distinct (concat (map (norm_hosts uni) (domains fs)))"
    and "domains fs \<noteq> [] \<Longrightarrow> \<exists>d \<in> set (domains fs). d_name d = ''main''"
proof -
  have "domains fs = [] \<or> list_all no_error (scan (domain_checks uni) [] (domains fs))"
    using assms by (auto simp: validate_domains_def first_error_None_all split: if_splits)
  then show "distinct (map d_name (domains fs))"
    "distinct (concat (map (norm_hosts uni) (domains fs)))"
    using domains_scan [of uni "[]" "domains fs"] by auto
  show "\<exists>d \<in> set (domains fs). d_name d = ''main''" if "domains fs \<noteq> []"
  proof (rule ccontr)
    assume "\<not> ?thesis"
    then have "filter (\<lambda>d. d_name d = ''main'') (domains fs) = []" by (auto simp: filter_empty_conv)
    with that assms show False by (simp add: validate_domains_def)
  qed
qed

lemma distinct_concat_unique:
  "distinct (concat (map f ds)) \<Longrightarrow> d \<in> set ds \<Longrightarrow> e \<in> set ds \<Longrightarrow> h \<in> set (f d) \<Longrightarrow> h \<in> set (f e)
   \<Longrightarrow> d = e"
  by (induction ds) (auto simp: disjoint_iff)

lemma distinct_map_unique:
  "distinct (map f ds) \<Longrightarrow> d \<in> set ds \<Longrightarrow> e \<in> set ds \<Longrightarrow> f d = f e \<Longrightarrow> d = e"
  by (auto simp: distinct_map dest: inj_onD)

definition names_host :: "(string \<Rightarrow> string) \<Rightarrow> string \<Rightarrow> domain \<Rightarrow> bool" where
  "names_host uni h d \<longleftrightarrow> list_ex (\<lambda>alias. domain_host uni alias = h) (d_hosts d)"

lemma names_host_iff: "names_host uni h d \<longleftrightarrow> h \<in> set (norm_hosts uni d)"
  by (auto simp: names_host_def norm_hosts_def list_ex_iff)

lemma domain_for_alt:
  "domain_for uni c host =
     (case (if domain_host uni host \<noteq> []
            then List.find (names_host uni (domain_host uni host)) (domains (filters c)) else None) of
        Some d \<Rightarrow> Some d
      | None \<Rightarrow> List.find (\<lambda>d. d_name d = ''main'') (domains (filters c)))"
  unfolding domain_for_def Let_def names_host_def [abs_def] by simp

lemma tail_domains: "list_all no_error (tail_checks uni c) \<Longrightarrow> validate_domains uni (filters c) = None"
  by (simp add: tail_checks_def no_error_def)

section \<open>A configuration that passes\<close>

definition sample_kind :: kind where
  "sample_kind = \<lparr>title_policy = [], access_levels = [], access_scope = [], comment_modes = [],
     kind_route = ''g'', path_entity = [], presentation = ''reader'',
     versions = \<lparr>vr_languages = ''one'', vr_traits = [], vr_hidden = False\<rparr>, kind_segments = False,
     kind_entities = [], kind_attributes = [], kind_channel = None, kind_sort = [],
     popularity = [], kind_locked = None, kind_download = None\<rparr>"

definition sample_domain :: "string \<Rightarrow> string list \<Rightarrow> domain" where
  "sample_domain name hosts =
     \<lparr>d_name = name, d_hosts = hosts, d_require_entities = [], d_filters = []\<rparr>"

definition sample_config :: config where
  "sample_config = \<lparr>languages = [''en''], tiers = [], token_claims = [], restrictions = [],
     filters = \<lparr>applies_to = [], domains = [sample_domain ''main'' [], sample_domain ''b'' [''h'']]\<rparr>,
     kinds = [(''g'', sample_kind), (''v'', sample_kind\<lparr>kind_route := ''v''\<rparr>)],
     entity_kinds = [], channels_of = None, channel_storage = False\<rparr>"

lemma sample_domain_host: "domain_host uni ''h'' = ''h''"
proof -
  have "trim_space ''h'' = ''h''" by (simp add: trim_space_printable)
  moreover have "split_host_port ''h'' = None"
    by (simp add: split_host_port_def last_colon_def)
  ultimately show ?thesis
    by (simp add: domain_host_def trim_set_def to_lower_def is_ascii_def lower_byte_def
        is_upper_def char_le_iff trim_suffix_def has_suffix_def)
qed

lemma sample_config_valid: "validate_config uni pd sample_config = None"
  unfolding validate_config_iff
proof (intro conjI)
  show "list_all no_error (head_checks sample_config)"
    by (simp add: head_checks_def sample_config_def language_re_def byte_classes char_le_iff)
  show "item_checks pd sample_config"
    by (simp add: item_checks_def sample_config_def channel_items_def sample_kind_def
        kind_pre_checks_def kind_post_checks_def validate_popularity_def ident_re_def byte_classes
        char_le_iff channel_policy_checks_def presentations_def validate_attributes_def wrap_error_def)
  show "distinct (all_routes sample_config)" "list_all route_re (all_routes sample_config)"
    by (simp_all add: all_routes_def sample_config_def route_items_def channel_items_def
        sample_kind_def route_re_def byte_classes char_le_iff)
  show "list_all no_error (tail_checks uni sample_config)"
    by (simp add: tail_checks_def sample_config_def entity_refs_def sample_domain_def
        validate_domains_def domain_checks_def host_checks_def sample_domain_host
        domain_policy_checks_def refuse_if_def)
qed

section \<open>Properties\<close>

text \<open>
  C9: in a configuration that passes \<open>Validate\<close> every page route is a valid path segment and
  no two entity kinds, content kinds or the channels share one, so the first segment of a
  path names at most one of them.
\<close>

theorem validated_routes_unique:
  assumes "validate_config uni pd c = None"
  shows "distinct (all_routes c) \<and> list_all route_re (all_routes c)"
  using assms by (simp add: validate_config_iff)

theorem validated_routes_unique_witness:
  "validate_config id (\<lambda>_. None) sample_config = None \<and>
   distinct (all_routes sample_config) \<and> list_all route_re (all_routes sample_config)"
  using sample_config_valid validated_routes_unique [OF sample_config_valid] by simp

lemma map_of_perm:
  "mset xs = mset ys \<Longrightarrow> distinct (map fst xs) \<Longrightarrow> map_of xs = map_of ys"
proof -
  assume m: "mset xs = mset ys" and d: "distinct (map fst xs)"
  then have "mset (map fst xs) = mset (map fst ys)" by (metis mset_map)
  with d have "distinct (map fst ys)" by (metis mset_eq_imp_distinct_iff)
  with m d show ?thesis by (metis map_of_inject_set mset_eq_setD)
qed

lemma route_items_perm: "mset xs = mset ys \<Longrightarrow> mset (route_items r xs) = mset (route_items r ys)"
  by (metis mset_filter mset_map route_items_def)

text \<open>
  \<open>Validate\<close>'s verdict is independent of the order in which Go iterates the maps of
  kinds and entity kinds: any two orders of the same entries are both accepted or both
  refused (the error of a refusal may differ).
\<close>

theorem validate_order_independent:
  assumes "mset ks = mset (kinds c)" and "distinct (map fst (kinds c))"
    and "mset es = mset (entity_kinds c)" and "distinct (map fst (entity_kinds c))"
  shows "(validate_config uni pd (c\<lparr>kinds := ks, entity_kinds := es\<rparr>) = None)
       = (validate_config uni pd c = None)"
proof -
  let ?c = "c\<lparr>kinds := ks, entity_kinds := es\<rparr>"
  have mk: "map_of ks = map_of (kinds c)" and me: "map_of es = map_of (entity_kinds c)"
    using assms by (metis map_of_perm)+
  have sets: "set ks = set (kinds c)" "set es = set (entity_kinds c)"
    using assms by (metis mset_eq_setD)+
  have nil: "(ks = []) = (kinds c = [])" using sets(1) by (metis set_empty)
  have head: "head_checks ?c = head_checks c" by (simp add: head_checks_def nil)
  have pre_e: "entity_pre_checks ?c = entity_pre_checks c"
    and post_e: "entity_post_checks ?c = entity_post_checks c"
    by (simp_all add: fun_eq_iff entity_pre_checks_def entity_post_checks_def
        entity_ref_checks_def mk me)
  have ch: "channels_post_checks ?c = channels_post_checks c" "channel_items ?c = channel_items c"
    "channel_route ?c = channel_route c"
    by (simp_all add: fun_eq_iff channels_post_checks_def channel_items_def channel_route_def me)
  have pop: "validate_popularity pd ?c = validate_popularity pd c"
    by (simp add: fun_eq_iff validate_popularity_def bucket_checks_def [abs_def]
        scope_checks_def [abs_def])
  have pre_k: "kind_pre_checks pd ?c = kind_pre_checks pd c"
    by (simp add: fun_eq_iff kind_pre_checks_def pop access_level_checks_def [abs_def])
  have policy: "channel_policy_checks ?c = channel_policy_checks c"
    by (auto simp: fun_eq_iff channel_policy_checks_def split: option.splits)
  have post_k: "kind_post_checks ?c = kind_post_checks c"
    by (simp add: fun_eq_iff kind_post_checks_def me policy path_entity_ok_def)
  have tail: "tail_checks uni ?c = tail_checks uni c"
    by (simp add: tail_checks_def mk me entity_refs_def applies_checks_def [abs_def]
        domain_policy_checks_def [abs_def] filter_checks_def [abs_def] entities_of_def
        required_checks_def [abs_def])
  have routes: "mset (all_routes ?c) = mset (all_routes c)"
    using route_items_perm [OF assms(1)] route_items_perm [OF assms(3)]
    by (simp add: all_routes_def ch)
  have dist: "distinct (all_routes ?c) = distinct (all_routes c)"
    using routes by (rule mset_eq_imp_distinct_iff)
  have wf: "list_all route_re (all_routes ?c) = list_all route_re (all_routes c)"
    by (simp only: list_all_iff mset_eq_setD [OF routes])
  show ?thesis
    unfolding validate_config_iff item_checks_def head pre_e post_e ch pre_k post_k tail dist wf
    by (simp add: sets)
qed

theorem validate_order_independent_witness:
  "(validate_config id (\<lambda>_. None) (sample_config\<lparr>kinds := rev (kinds sample_config),
      entity_kinds := entity_kinds sample_config\<rparr>) = None)
   = (validate_config id (\<lambda>_. None) sample_config = None)"
  by (rule validate_order_independent) (simp_all add: sample_config_def)

text \<open>
  The domain chosen for a request host does not depend on the order in which the domains
  are declared, and with domains configured there always is one.
\<close>

theorem domain_for_order:
  assumes "validate_config uni pd c = None" and "mset ds = mset (domains (filters c))"
  shows "domain_for uni (c\<lparr>filters := (filters c)\<lparr>domains := ds\<rparr>\<rparr>) host = domain_for uni c host
     \<and> (domains (filters c) \<noteq> [] \<longrightarrow> domain_for uni c host \<noteq> None)"
proof -
  have v: "validate_domains uni (filters c) = None"
    using assms(1) by (simp add: validate_config_iff tail_domains)
  note names = validate_domains_ok(1) [OF v] and hosts = validate_domains_ok(2) [OF v]
  have sets: "set ds = set (domains (filters c))" using assms(2) by (rule mset_eq_setD)
  have "List.find (names_host uni h) ds = List.find (names_host uni h) (domains (filters c))" for h
    using sets by (rule find_unique_perm)
      (use sets distinct_concat_unique [OF hosts] in \<open>auto simp: names_host_iff\<close>)
  moreover have "List.find (\<lambda>d. d_name d = ''main'') ds
      = List.find (\<lambda>d. d_name d = ''main'') (domains (filters c))"
    using sets by (rule find_unique_perm)
      (use sets distinct_map_unique [OF names] in auto)
  moreover have "domains (filters c) \<noteq> [] \<longrightarrow>
      List.find (\<lambda>d. d_name d = ''main'') (domains (filters c)) \<noteq> None"
    using validate_domains_ok(3) [OF v] by (auto simp: find_None_iff)
  ultimately show ?thesis unfolding domain_for_alt by (auto split: option.splits)
qed

theorem domain_for_order_witness:
  "domain_for id (sample_config\<lparr>filters := (filters sample_config)\<lparr>domains :=
      rev (domains (filters sample_config))\<rparr>\<rparr>) ''h:80'' = domain_for id sample_config ''h:80''
   \<and> domain_for id sample_config ''h:80'' \<noteq> None"
  using domain_for_order [where c = sample_config and ds = "rev (domains (filters sample_config))"
      and uni = id and host = "''h:80''", OF sample_config_valid]
  by (simp add: sample_config_def)

section \<open>Rankings and attribute values\<close>

lemma best_scope_spec:
  assumes "best_scope dm lang ss (sel, best) = (sel', best')"
  shows "best \<le> best' \<and>
    (\<forall>s \<in> set ss. scope_matches dm lang s \<longrightarrow> specificity s \<le> best') \<and>
    (best' > best \<longrightarrow> sel' \<in> set ss \<and> scope_matches dm lang sel' \<and> specificity sel' = best') \<and>
    (best' = best \<longrightarrow> sel' = sel)"
  using assms
proof (induction ss arbitrary: sel best)
  case Nil
  then show ?case by simp
next
  case (Cons s ss)
  show ?case
  proof (cases "scope_matches dm lang s \<and> specificity s > best")
    case True
    with Cons.prems have "best_scope dm lang ss (s, specificity s) = (sel', best')" by simp
    from Cons.IH [OF this] True show ?thesis by (cases "best' = specificity s") auto
  next
    case False
    with Cons.prems have "best_scope dm lang ss (sel, best) = (sel', best')"
      by (auto split: if_splits)
    from Cons.IH [OF this] False show ?thesis by auto
  qed
qed

lemma specificity_nonneg: "0 \<le> specificity s"
  by (simp add: specificity_def)

text \<open>
  a ranking bucket answers for a reader exactly when one of its scopes matches the
  reader's domain and language, with a declared matching scope of maximal specificity.
\<close>

theorem bucket_scope_correct:
  "snd (bucket_scope b dm lang) = list_ex (scope_matches dm lang) (activity_scopes b) \<and>
   (snd (bucket_scope b dm lang) \<longrightarrow>
     fst (bucket_scope b dm lang) \<in> set (activity_scopes b) \<and>
     scope_matches dm lang (fst (bucket_scope b dm lang)) \<and>
     (\<forall>s \<in> set (activity_scopes b). scope_matches dm lang s \<longrightarrow>
        specificity s \<le> specificity (fst (bucket_scope b dm lang))))"
proof -
  obtain sel best where r: "best_scope dm lang (activity_scopes b)
      (\<lparr>ps_domain = [], ps_language = []\<rparr>, -1) = (sel, best)" by fastforce
  then have eq: "bucket_scope b dm lang = (sel, best \<ge> 0)" by (simp add: bucket_scope_def)
  note spec = best_scope_spec [OF r]
  have "best \<ge> 0 \<longleftrightarrow> list_ex (scope_matches dm lang) (activity_scopes b)"
  proof
    assume "best \<ge> 0"
    with spec show "list_ex (scope_matches dm lang) (activity_scopes b)"
      by (auto simp: list_ex_iff)
  next
    assume "list_ex (scope_matches dm lang) (activity_scopes b)"
    then obtain s where "s \<in> set (activity_scopes b)" "scope_matches dm lang s"
      by (auto simp: list_ex_iff)
    with spec have "specificity s \<le> best" by blast
    with specificity_nonneg [of s] show "best \<ge> 0" by linarith
  qed
  with spec show ?thesis unfolding eq by auto
qed

theorem bucket_scope_correct_witness:
  "snd (bucket_scope \<lparr>pb_id = ''top'', pb_label = [], pb_days = 7, pb_from = [], pb_until = [],
     pb_all = False, pb_scopes = [\<lparr>ps_domain = [], ps_language = []\<rparr>,
       \<lparr>ps_domain = ''main'', ps_language = ''en''\<rparr>], pb_refresh_every = 0\<rparr> ''main'' ''en'')"
  unfolding bucket_scope_correct [THEN conjunct1]
  by (simp add: activity_scopes_def scope_matches_def)

lemma normalize_value_stable:
  assumes "\<And>t. parse_time (format_time t) = Some t"
    and "normalize_value parse_time format_time a v = Some n"
  shows "normalize_value parse_time format_time a n = Some n"
  using assms
  by (auto simp: normalize_value_def split: if_splits any_value.splits go_float.splits option.splits)

text \<open>What \<open>ValidateAttributes\<close> returns holds declared attributes only, each normalized.\<close>

definition attributes_normal ::
    "(string \<Rightarrow> time option) \<Rightarrow> (time \<Rightarrow> string) \<Rightarrow> (string \<times> attribute) list \<Rightarrow>
     (string \<times> any_value) list \<Rightarrow> bool" where
  "attributes_normal pt ft declared out \<longleftrightarrow> (\<forall>(name, v) \<in> set out. v \<noteq> VNil \<and>
     (\<exists>a. map_of declared name = Some a \<and> normalize_value pt ft a v = Some v))"

lemma normalize_not_nil: "normalize_value pt ft a v = Some n \<Longrightarrow> n \<noteq> VNil"
  by (auto simp: normalize_value_def split: if_splits any_value.splits go_float.splits option.splits)

lemma set_alist_update: "p \<in> set (AList.update k v al) \<Longrightarrow> p = (k, v) \<or> p \<in> set al"
  by (induction al) (auto split: if_splits)

lemma validate_one_normal:
  assumes "\<And>t. pt (ft t) = Some t"
    and "attributes_normal pt ft declared out" and "validate_one pt ft declared nv out = Inr out'"
  shows "attributes_normal pt ft declared out'"
  using assms(2,3) normalize_value_stable [OF assms(1)] normalize_not_nil
  by (auto simp: validate_one_def attributes_normal_def split: option.splits if_splits
      dest!: set_alist_update) blast+

lemma validate_values_normal:
  assumes "\<And>t. pt (ft t) = Some t"
    and "validate_attribute_values pt ft declared values = Inr out"
  shows "attributes_normal pt ft declared out"
  using assms(2) unfolding validate_attribute_values_def
  by (rule fold_result_invariant)
     (auto simp: attributes_normal_def [of _ _ _ "[]"] intro: validate_one_normal [OF assms(1)])

lemma alist_update_new: "k \<notin> fst ` set al \<Longrightarrow> AList.update k v al = al @ [(k, v)]"
  by (induction al) auto

lemma revalidate:
  assumes "attributes_normal pt ft declared xs" and "distinct (map fst (acc @ xs))"
  shows "fold_result (validate_one pt ft declared) xs acc = Inr (acc @ xs)"
  using assms
proof (induction xs arbitrary: acc)
  case Nil
  then show ?case by simp
next
  case (Cons x xs)
  from Cons.prems(1) obtain a where a: "map_of declared (fst x) = Some a" "snd x \<noteq> VNil"
    "normalize_value pt ft a (snd x) = Some (snd x)"
    by (auto simp: attributes_normal_def)
  have "fst x \<notin> fst ` set acc" using Cons.prems(2) by auto
  with a have "validate_one pt ft declared x acc = Inr (acc @ [x])"
    by (simp add: validate_one_def alist_update_new)
  moreover have "fold_result (validate_one pt ft declared) xs (acc @ [x]) = Inr ((acc @ [x]) @ xs)"
    using Cons.prems by (intro Cons.IH) (auto simp: attributes_normal_def)
  ultimately show ?case by simp
qed

lemma validate_values_distinct:
  assumes "validate_attribute_values pt ft declared values = Inr out"
  shows "distinct (map fst out)"
  using assms unfolding validate_attribute_values_def
  by (rule fold_result_invariant)
     (auto simp: validate_one_def distinct_update split: option.splits if_splits)

text \<open>
  Attribute validation is idempotent: the normalized attributes it returns are accepted
  again and returned unchanged, so stored values revalidate. The rendering of a time
  parses back to it.
\<close>

theorem validate_values_idempotent:
  assumes "\<And>t. pt (ft t) = Some t"
    and "validate_attribute_values pt ft declared values = Inr out"
  shows "validate_attribute_values pt ft declared out = Inr out"
  using revalidate [OF validate_values_normal [OF assms], of "[]"] validate_values_distinct [OF assms(2)]
  unfolding validate_attribute_values_def by simp

definition attr_of_type :: "string \<Rightarrow> attribute" where
  "attr_of_type t = \<lparr>a_type = t, a_values = [], a_filterable = False, a_sortable = False,
     a_required = False\<rparr>"

definition unary_format :: "time \<Rightarrow> string" where
  "unary_format t = (if t < 0 then CHR ''-'' # replicate (nat (- t)) CHR ''1''
     else replicate (nat t) CHR ''1'')"

definition unary_parse :: "string \<Rightarrow> time option" where
  "unary_parse s = (case s of
     [] \<Rightarrow> Some 0 | c # r \<Rightarrow> Some (if c = CHR ''-'' then - int (length r) else int (length s)))"

lemma unary_parse_format: "unary_parse (unary_format t) = Some t"
  by (cases "nat t") (auto simp: unary_parse_def unary_format_def)

theorem validate_values_idempotent_witness:
  "validate_attribute_values unary_parse unary_format
     [(''n'', attr_of_type ''int'')] [(''n'', VFloat (Finite 3))] = Inr [(''n'', VInt64 3)] \<and>
   validate_attribute_values unary_parse unary_format
     [(''n'', attr_of_type ''int'')] [(''n'', VInt64 3)] = Inr [(''n'', VInt64 3)]"
proof -
  have first: "validate_attribute_values unary_parse unary_format
     [(''n'', attr_of_type ''int'')] [(''n'', VFloat (Finite 3))] = Inr [(''n'', VInt64 3)]"
    by (simp add: validate_attribute_values_def validate_one_def normalize_value_def attr_of_type_def)
  show ?thesis
    using first validate_values_idempotent [OF unary_parse_format first] by simp
qed

end
