(* ===== verification/Media_Manifest.thy ===== *)
theory Media_Manifest
  imports Media_Edit Media_Layout Media_Download Kinds
begin

text \<open>
  The manifest of a media item: \<open>media/manifest.go\<close>, \<open>internal/mediastore/manifest.go\<close> and the
  deliveries of \<open>delivery.go\<close> it holds. A manifest is a value here: an edit works on a copy. The
  JSON and gzip libraries and SHA-256 are parameters; the scratch list of a worker, which nothing
  here reads, is left out. Where a nil list differs from an empty one the field is an option.
\<close>

section \<open>Files\<close>

text \<open>
  A value of a meta map, with the Go types a decoded value never has: an \<open>int\<close> and a \<open>[]string\<close>.
\<close>

datatype json = JNull | JBool bool | JNumber string | JInt int | JString string | JStrings "string list" | JList "json list" | JObject "(string \<times> json) list"

record copy_from =
  cf_kind :: string
  cf_id :: string
  cf_version :: string
  cf_path :: string

record frame =
  fm_t :: go_float
  fm_auto :: bool
  fm_of :: string
  fm_from :: "copy_from option"

record error_details =
  er_width :: int
  er_height :: int
  er_min_width :: int
  er_max_pixels :: int
  er_type :: string
  er_allowed :: "string list"
  er_size :: int
  er_max_bytes :: int
  er_frames :: int
  er_max_frames :: int
  er_seconds :: go_float
  er_max_seconds :: go_float
  er_min_aspect :: go_float
  er_max_aspect :: go_float
  er_max :: int

record image_error =
  ie_code :: string
  ie_message :: string
  ie_details :: error_details

record failure =
  fa_of :: string
  fa_message :: string
  fa_code :: string
  fa_details :: "error_details option"

record source_admission =
  sa_generation :: string
  sa_target :: string
  sa_accounting :: bool
  sa_owner :: string
  sa_enforce :: bool
  sa_quota :: int

record editor_image =
  ei_blob :: string
  ei_fp :: string

text \<open>The state is a byte: 0 reserved, 1 ready.\<close>

record publication =
  pb_preset :: string
  pb_source :: string
  pb_fp :: string
  pb_stable :: "bool option"
  pb_generation :: string
  pb_blobs :: "string list"
  pb_names :: "string list"
  pb_state :: nat
  pb_dims :: "dims list"

record track =
  tr_kind :: string
  tr_codec :: string
  tr_codecs :: string
  tr_bandwidth :: int
  tr_average :: int
  tr_id :: string
  tr_lang :: string
  tr_label :: string
  tr_default :: bool
  tr_forced :: bool
  tr_index :: string

record media_file =
  mf_path :: string
  mf_blob :: string
  mf_type :: string
  mf_size :: int
  mf_w :: int
  mf_h :: int
  mf_dur :: go_float
  mf_admission :: "source_admission option"
  mf_staged :: string
  mf_create_id :: string
  mf_edit :: "edit option"
  mf_frame :: "frame option"
  mf_meta :: "(string \<times> json) list"
  mf_unattached :: bool
  mf_gone :: bool
  mf_pending :: "string list option"
  mf_failed :: "failure option"
  mf_public :: "publication list"
  mf_editor :: "editor_image option"
  mf_from :: string
  mf_preset :: string
  mf_fp :: string
  mf_download :: string
  mf_track :: "track option"

definition publication_reserved :: nat where "publication_reserved = 0"
definition publication_ready :: nat where "publication_ready = 1"

definition pub_ready :: "publication \<Rightarrow> bool" where
  "pub_ready p \<longleftrightarrow> pb_state p = publication_ready"

definition names_on_disk :: "publication \<Rightarrow> string list" where
  "names_on_disk p =
     (if pb_generation p = [] then pb_names p
      else map (\<lambda>name. let ext = path_ext name in trim_suffix ext name @ ''-'' @ pb_generation p @ ext) (pb_names p))"

definition find_publication :: "media_file \<Rightarrow> string \<Rightarrow> nat \<Rightarrow> publication option" where
  "find_publication f preset state = List.find (\<lambda>p. pb_preset p = preset \<and> pb_state p = state) (mf_public f)"

definition current_publication :: "media_file \<Rightarrow> string \<Rightarrow> publication option" where
  "current_publication f preset = find_publication f preset publication_ready"

definition latest_publication :: "media_file \<Rightarrow> string \<Rightarrow> publication option" where
  "latest_publication f preset =
     (case find_publication f preset publication_reserved of Some p \<Rightarrow> Some p | None \<Rightarrow> current_publication f preset)"

definition is_upload :: "media_file \<Rightarrow> bool" where
  "is_upload f \<longleftrightarrow> mf_preset f = []"

definition file_source :: "media_file \<Rightarrow> string" where
  "file_source f = (if mf_blob f \<noteq> [] then mf_blob f else mf_staged f)"

definition file_key :: "(string \<Rightarrow> 8 word list) \<Rightarrow> media_file \<Rightarrow> string" where
  "file_key sha f = file_source f @ ''.'' @ edit_hash sha (mf_edit f)"

definition file_failure :: "(string \<Rightarrow> 8 word list) \<Rightarrow> media_file \<Rightarrow> failure option" where
  "file_failure sha f = (case mf_failed f of
     Some x \<Rightarrow> if fa_of x = file_key sha f then Some x else None | None \<Rightarrow> None)"

section \<open>Manifests\<close>

record delivery_file =
  df_source :: string
  df_blob :: string
  df_type :: string
  df_size :: int
  df_receipt :: string

record delivery =
  dl_id :: string
  dl_fingerprint :: string
  dl_files :: "delivery_file list"
  dl_adopted :: bool
  dl_ready :: bool
  dl_withdrawn :: bool

text \<open>\<open>mn_index\<close> is the index of paths, \<open>None\<close> for a nil map.\<close>

record manifest =
  mn_v :: int
  mn_layout :: int
  mn_incarnation :: string
  mn_deleted :: bool
  mn_full :: bool
  mn_deficit :: int
  mn_meta :: "(string \<times> json) list"
  mn_files :: "media_file list"
  mn_deliveries :: "delivery list"
  mn_receipt :: "(string \<times> string) option"
  mn_index :: "(string \<times> nat) list option"
  mn_size :: int

definition manifest_version :: int where "manifest_version = 3"

definition index_of :: "media_file list \<Rightarrow> (string \<times> nat) list" where
  "index_of fs = foldl (\<lambda>ix (i, f). AList.update (mf_path f) i ix) [] (zip [0..<length fs] fs)"

definition reindex :: "manifest \<Rightarrow> manifest" where
  "reindex m = m\<lparr>mn_index := Some (index_of (mn_files m))\<rparr>"

text \<open>\<open>Find\<close> may build the index: the manifest is returned.\<close>

definition find_file :: "manifest \<Rightarrow> string \<Rightarrow> nat option \<times> manifest" where
  "find_file m path =
     (let hit = (case mn_index m of Some ix \<Rightarrow> map_of ix path | None \<Rightarrow> None);
          again = (let m' = reindex m in (map_of (index_of (mn_files m)) path, m'))
      in case hit of
           Some i \<Rightarrow> if i < length (mn_files m) \<and> mf_path (mn_files m ! i) = path then (Some i, m) else again
         | None \<Rightarrow>
             (case mn_index m of
                Some ix \<Rightarrow> if length ix = length (mn_files m) then (None, m) else again
              | None \<Rightarrow> again))"

definition get_file :: "manifest \<Rightarrow> string \<Rightarrow> media_file option \<times> manifest" where
  "get_file m path = (let (i, m) = find_file m path in (map_option (\<lambda>i. mn_files m ! i) i, m))"

definition file_outputs :: "manifest \<Rightarrow> string \<Rightarrow> string \<Rightarrow> media_file list" where
  "file_outputs m from preset = filter (\<lambda>f. mf_preset f = preset \<and> mf_from f = from) (mn_files m)"

definition file_blobs :: "media_file \<Rightarrow> string list" where
  "file_blobs f =
     (if mf_blob f \<noteq> [] \<and> \<not> mf_gone f then [mf_blob f] else []) @
     (case mf_track f of Some t \<Rightarrow> if tr_index t \<noteq> [] then [tr_index t] else [] | None \<Rightarrow> []) @
     (case mf_editor f of Some e \<Rightarrow> if \<not> mf_gone f then [ei_blob e] else [] | None \<Rightarrow> []) @
     concat (map pb_blobs (mf_public f))"

definition delivery_blobs :: "delivery \<Rightarrow> string list" where
  "delivery_blobs d =
     (if dl_withdrawn d then []
      else concat (map (\<lambda>f. (if \<not> dl_ready d \<and> \<not> dl_adopted d then [df_source f] else []) @ [df_blob f]) (dl_files d)))"

definition manifest_blobs :: "manifest \<Rightarrow> string list" where
  "manifest_blobs m = concat (map file_blobs (mn_files m)) @ concat (map delivery_blobs (mn_deliveries m))"

definition staged_names :: "manifest \<Rightarrow> string list" where
  "staged_names m = filter (\<lambda>s. s \<noteq> []) (map mf_staged (mn_files m))"

section \<open>Edits of a manifest\<close>

definition set_file :: "nat \<Rightarrow> (media_file \<Rightarrow> media_file) \<Rightarrow> manifest \<Rightarrow> manifest" where
  "set_file i upd m = m\<lparr>mn_files := (mn_files m)[i := upd (mn_files m ! i)]\<rparr>"

definition set_publication :: "manifest \<Rightarrow> string \<Rightarrow> publication \<Rightarrow> manifest" where
  "set_publication m from p =
     (case find_file m from of
        (None, m) \<Rightarrow> m
      | (Some i, m) \<Rightarrow> set_file i (\<lambda>f. f\<lparr>mf_public := filter (\<lambda>old. \<not> (pb_preset old = pb_preset p \<and>
            (pub_ready p \<or> \<not> pub_ready old \<or> mn_full m))) (mf_public f) @ [p]\<rparr>) m)"

definition pending_of :: "media_file \<Rightarrow> string list" where
  "pending_of f = (case mf_pending f of Some ps \<Rightarrow> ps | None \<Rightarrow> [])"

definition clear_pending :: "manifest \<Rightarrow> string \<Rightarrow> string \<Rightarrow> manifest" where
  "clear_pending m path preset =
     (case find_file m path of
        (None, m) \<Rightarrow> m
      | (Some i, m) \<Rightarrow> if preset \<in> set (pending_of (mn_files m ! i))
          then set_file i (\<lambda>f. f\<lparr>mf_pending := (let ps = filter (\<lambda>p. p \<noteq> preset) (pending_of f)
            in if ps = [] then None else Some ps)\<rparr>) m else m)"

definition add_pending :: "manifest \<Rightarrow> string \<Rightarrow> string list \<Rightarrow> manifest" where
  "add_pending m path presets =
     (case find_file m path of
        (None, m) \<Rightarrow> m
      | (Some i, m) \<Rightarrow> set_file i (\<lambda>f. f\<lparr>mf_pending :=
          foldl (\<lambda>p name. case p of
              None \<Rightarrow> Some [name] | Some ps \<Rightarrow> if name \<in> set ps then p else Some (ps @ [name])) (mf_pending f) presets\<rparr>) m)"

text \<open>
  The loop of \<open>SetOutputs\<close>: a path taken is an error; an output added is indexed at its end.
\<close>

definition add_output :: "string \<Rightarrow> string \<Rightarrow> media_file \<Rightarrow> manifest \<Rightarrow> (string, manifest) result" where
  "add_output from preset out m =
     (case find_file m (mf_path out) of
        (Some _, _) \<Rightarrow> Inl (mf_path out)
      | (None, m) \<Rightarrow> Inr (m\<lparr>mn_files := mn_files m @ [out\<lparr>mf_from := from, mf_preset := preset\<rparr>],
          mn_index := map_option (AList.update (mf_path out) (length (mn_files m))) (mn_index m)\<rparr>))"

definition set_outputs :: "manifest \<Rightarrow> string \<Rightarrow> string \<Rightarrow> media_file list \<Rightarrow> (string, manifest) result" where
  "set_outputs m from preset outs =
     (let zip_set = has_suffix ''/'' from;
          m = m\<lparr>mn_files := filter (\<lambda>f. \<not> (mf_preset f = preset \<and> (zip_set \<or> mf_from f = from))) (mn_files m), mn_index := None\<rparr>
      in bindr (fold_result (add_output from preset) outs m) (\<lambda>m. Inr (clear_pending m from preset)))"

section \<open>Failures\<close>

text \<open>The length of a text in JSON as the encoder writes it.\<close>

definition json_rune_len :: "rune \<Rightarrow> nat" where
  "json_rune_len r =
     (if r = 34 \<or> r = 92 \<or> r = 10 \<or> r = 13 \<or> r = 9 then 2
      else if r < 32 \<or> r = 8232 \<or> r = 8233 \<or> r = rune_error then 6
      else if r < 128 then 1 else if r < 2048 then 2 else if r < 65536 then 3 else 4)"

definition json_len :: "string \<Rightarrow> nat" where
  "json_len s = sum_list (map json_rune_len (runes s))"

text \<open>\<open>strings.ToValidUTF8(s, "")\<close>: bytes that are no rune are dropped.\<close>

definition to_valid_utf8 :: "string \<Rightarrow> string" where
  "to_valid_utf8 s = chunk_text (filter (\<lambda>(c, bs). \<not> (c = rune_error \<and> length bs = 1)) (rune_chunks s))"

definition max_failure_bytes :: nat where "max_failure_bytes = 300"

text \<open>The loop that cuts a message; a cut at a negative length panics, here \<open>None\<close>.\<close>

function cut_message :: "nat \<Rightarrow> string \<Rightarrow> string option" where
  "cut_message n s =
     (if json_len s \<le> max_failure_bytes then Some s
      else if n > max_failure_bytes then None
      else cut_message (Suc n) (to_valid_utf8 (take (min (length s) (max_failure_bytes - n)) s)))"
  by auto
termination
  by (relation "measure (\<lambda>(n, s). Suc max_failure_bytes - n)") auto

declare cut_message.simps [simp del]

text \<open>An error is its message, and the image error it wraps, if any.\<close>

definition new_failure ::
    "(string \<Rightarrow> 8 word list) \<Rightarrow> media_file \<Rightarrow> string \<times> image_error option \<Rightarrow> failure option" where
  "new_failure sha f err =
     map_option (\<lambda>message. \<lparr>fa_of = file_key sha f, fa_message = message,
         fa_code = (case snd err of Some e \<Rightarrow> ie_code e | None \<Rightarrow> []), fa_details = map_option ie_details (snd err)\<rparr>)
       (cut_message 0 (case snd err of Some e \<Rightarrow> ie_message e | None \<Rightarrow> fst err))"

definition set_failed ::
    "(string \<Rightarrow> 8 word list) \<Rightarrow> manifest \<Rightarrow> string \<Rightarrow> string \<times> image_error option \<Rightarrow> manifest option" where
  "set_failed sha m path err =
     (case find_file m path of
        (None, m) \<Rightarrow> Some m
      | (Some i, m) \<Rightarrow> map_option (\<lambda>x. set_file i (\<lambda>f. f\<lparr>mf_failed := Some x, mf_pending := None\<rparr>) m)
          (new_failure sha (mn_files m ! i) err))"

section \<open>Validation\<close>

datatype manifest_error = BadIncarnation | TombstoneNotEmpty | BadReceipt | BadPath | BadStaged | BadBlob | BadTrackIndex |
  BadEditor | DerivedHasUpload | UploadHasProvenance | BadPublication | PreparedCount | PreparedArea | BadRendition |
  BadFileEdit edit_error | DeliveryIdentity | DeliveryFingerprint | DeliveryObject

definition file_problem :: "string list \<Rightarrow> media_file \<Rightarrow> manifest_error option" where
  "file_problem seen f =
     (if mf_path f = [] \<or> mf_path f \<in> set seen then Some BadPath
      else if mf_staged f \<noteq> [] \<and> (\<not> valid_staged_name (mf_staged f) \<or> mf_blob f \<noteq> [] \<or> mf_frame f \<noteq> None \<or> \<not> is_upload f)
      then Some BadStaged
      else if mf_blob f \<noteq> [] \<and> \<not> valid_blob_ref (mf_blob f) \<or>
        mf_blob f = [] \<and> mf_staged f = [] \<and> (mf_frame f = None \<or> \<not> is_upload f) then Some BadBlob
      else if (case mf_track f of Some t \<Rightarrow> tr_index t \<noteq> [] \<and> \<not> valid_blob_ref (tr_index t) | None \<Rightarrow> False) then Some BadTrackIndex
      else if (case mf_editor f of Some e \<Rightarrow> \<not> valid_blob_ref (ei_blob e) \<or> ei_fp e = [] | None \<Rightarrow> False) then Some BadEditor
      else if \<not> is_upload f \<and> (mf_edit f \<noteq> None \<or> mf_frame f \<noteq> None \<or> mf_pending f \<noteq> None \<or> mf_unattached f \<or>
        mf_public f \<noteq> [] \<or> mf_editor f \<noteq> None) then Some DerivedHasUpload
      else if is_upload f \<and> (mf_from f \<noteq> [] \<or> mf_fp f \<noteq> [] \<or> mf_track f \<noteq> None) then Some UploadHasProvenance
      else None)"

definition current_generation :: "media_file \<Rightarrow> string \<Rightarrow> string" where
  "current_generation f preset = (case current_publication f preset of Some p \<Rightarrow> pb_generation p | None \<Rightarrow> [])"

definition publication_problem ::
    "(string \<Rightarrow> 8 word list) \<Rightarrow> media_file \<Rightarrow> (string \<times> nat) list \<Rightarrow> publication \<Rightarrow> manifest_error option" where
  "publication_problem sha f slots p =
     (let generation = (layout_uuid (pb_generation p) \<or> pb_generation p = [] \<and> pub_ready p)
      in if pb_preset p = [] \<or> (pb_preset p, pb_state p) \<in> set slots \<or> pb_source p \<noteq> file_key sha f \<or> pb_fp p = [] \<or>
           \<not> generation \<or> \<not> pub_ready p \<and> current_generation f (pb_preset p) = pb_generation p \<or>
           pb_names p = [] \<or> length (pb_dims p) \<noteq> length (pb_names p) \<or> pb_state p > publication_ready
         then Some BadPublication
         else if pb_blobs p \<noteq> [] \<and> length (pb_blobs p) \<noteq> length (pb_names p) then Some PreparedCount
         else if list_ex (\<lambda>b. case split_blob_ref b of None \<Rightarrow> True
             | Some (a, _) \<Rightarrow> a \<noteq> AreaInternal \<and> a \<noteq> AreaPublic \<and> a \<noteq> AreaPrivate) (pb_blobs p) then Some PreparedArea
         else if list_ex (\<lambda>((name, disk), d). \<not> valid_segment name \<or> \<not> valid_public_name disk \<or>
             pub_ready p \<and> (dm_w d \<le> 0 \<or> dm_h d \<le> 0)) (zip (zip (pb_names p) (names_on_disk p)) (pb_dims p)) then Some BadRendition
         else None)"

definition publications_problem :: "(string \<Rightarrow> 8 word list) \<Rightarrow> media_file \<Rightarrow> manifest_error option" where
  "publications_problem sha f =
     first_error (scan (\<lambda>before p. [publication_problem sha f (map (\<lambda>q. (pb_preset q, pb_state q)) before) p]) [] (mf_public f))"

definition hex_text :: "string \<Rightarrow> bool" where
  "hex_text s \<longleftrightarrow> even (length s) \<and> list_all (\<lambda>c. is_hex (lower_byte c)) s"

text \<open>\<open>receipt\<close> is the digest of a copy's description.\<close>

definition delivery_problem :: "(string \<Rightarrow> delivery_file \<Rightarrow> string) \<Rightarrow> string list \<Rightarrow> delivery \<Rightarrow> manifest_error option" where
  "delivery_problem receipt seen d =
     (if \<not> layout_uuid (dl_id d) \<or> dl_id d \<in> set seen \<or> length (dl_fingerprint d) \<noteq> 64 then Some DeliveryIdentity
      else if \<not> hex_text (dl_fingerprint d) then Some DeliveryFingerprint
      else if list_ex (\<lambda>f. blob_digest (df_source f) = None \<or> blob_digest (df_blob f) \<noteq> blob_digest (df_source f) \<or>
          (case split_blob_ref (df_blob f) of None \<Rightarrow> True
           | Some (a, _) \<Rightarrow> a \<noteq> AreaPublic \<and> a \<noteq> AreaPrivate \<and> a \<noteq> AreaInternal) \<or>
          df_type f = [] \<or> df_size f < 0 \<or> df_receipt f \<noteq> receipt (dl_id d) f) (dl_files d) then Some DeliveryObject
      else None)"

definition deliveries_problem :: "(string \<Rightarrow> delivery_file \<Rightarrow> string) \<Rightarrow> delivery list \<Rightarrow> manifest_error option" where
  "deliveries_problem receipt ds =
     first_error (scan (\<lambda>before d. [delivery_problem receipt (map dl_id before) d]) [] ds)"

definition validate_file :: "(string \<Rightarrow> 8 word list) \<Rightarrow> media_file list \<Rightarrow> media_file \<Rightarrow> manifest_error option list" where
  "validate_file sha before f =
     [file_problem (map mf_path before) f, publications_problem sha f, map_option BadFileEdit (edit_check (mf_edit f) 0 0)]"

definition validate_manifest ::
    "(string \<Rightarrow> 8 word list) \<Rightarrow> (string \<Rightarrow> delivery_file \<Rightarrow> string) \<Rightarrow> manifest \<Rightarrow> manifest_error option" where
  "validate_manifest sha receipt m =
     (if mn_incarnation m \<noteq> [] \<and> \<not> layout_uuid (mn_incarnation m) then Some BadIncarnation
      else if mn_deleted m \<and> (mn_files m \<noteq> [] \<or> mn_meta m \<noteq> [] \<or> mn_deliveries m \<noteq> [] \<or> mn_full m \<or> mn_deficit m \<noteq> 0)
      then Some TombstoneNotEmpty
      else if (case mn_receipt m of Some (op, attempt) \<Rightarrow> \<not> layout_uuid op \<or> \<not> layout_uuid attempt | None \<Rightarrow> False) then Some BadReceipt
      else first_error (scan (validate_file sha) [] (mn_files m) @ [deliveries_problem receipt (mn_deliveries m)]))"

section \<open>Deliveries and the stored form\<close>

definition find_delivery :: "manifest \<Rightarrow> string \<Rightarrow> delivery option" where
  "find_delivery m operation = List.find (\<lambda>d. dl_id d = operation) (mn_deliveries m)"

definition delivered_blob :: "manifest \<Rightarrow> string \<Rightarrow> area \<Rightarrow> string option" where
  "delivered_blob m source a =
     map_option df_blob (List.find (\<lambda>f. df_source f = source \<and> (case split_blob_ref (df_blob f) of Some (b, _) \<Rightarrow> b = a | None \<Rightarrow> False))
       (concat (map dl_files (filter (\<lambda>d. dl_ready d \<and> \<not> dl_withdrawn d) (rev (mn_deliveries m))))))"

datatype stored_error = StoredUnreadable | StoredVersion int | StoredOther string

definition max_manifest_bytes :: int where "max_manifest_bytes = 8388608"

text \<open>
  \<open>stored\<close> is what the gzip and JSON decoders read: the manifest and the bytes of JSON, at most
  one more than the limit.
\<close>

definition decode_manifest :: "(string, manifest) result \<times> int \<Rightarrow> (stored_error, manifest) result" where
  "decode_manifest stored =
     (if snd stored > max_manifest_bytes then Inl StoredUnreadable
      else (case fst stored of
              Inl e \<Rightarrow> Inl (StoredOther e)
            | Inr m \<Rightarrow>
                (let m = (reindex m)\<lparr>mn_size := snd stored\<rparr>
                 in if mn_v m \<noteq> manifest_version then Inl (StoredVersion (mn_v m)) else Inr m)))"

end
