(* ===== verification/Manifest_Props.thy ===== *)
theory Manifest_Props
  imports Media_Manifest Download_Props
begin

text \<open>
  The index of a manifest never hides a file, outputs are replaced as a set, a publication keeps
  a manifest valid and the message of a failure fits.
\<close>

section \<open>The index\<close>

text \<open>A stale index may know too many paths, never too few.\<close>

definition index_covers :: "manifest \<Rightarrow> bool" where
  "index_covers m \<longleftrightarrow> (case mn_index m of None \<Rightarrow> True | Some ix \<Rightarrow> mf_path ` set (mn_files m) \<subseteq> fst ` set ix)"

definition file_paths :: "manifest \<Rightarrow> string list" where
  "file_paths m = map mf_path (mn_files m)"

lemma index_of_snoc: "index_of (fs @ [f]) = AList.update (mf_path f) (length fs) (index_of fs)"
proof -
  have "zip [0..<length (fs @ [f])] (fs @ [f]) = zip ([0..<length fs] @ [length fs]) (fs @ [f])" by simp
  also have "\<dots> = zip [0..<length fs] fs @ [(length fs, f)]" by (subst zip_append) simp_all
  finally show ?thesis unfolding index_of_def by (simp only: foldl_append foldl.simps prod.case)
qed

lemma index_of_keys: "fst ` set (index_of fs) = mf_path ` set fs"
proof (induction fs rule: rev_induct)
  case Nil
  then show ?case by (simp add: index_of_def)
next
  case (snoc f fs)
  then show ?case by (simp add: index_of_snoc update_keys insert_absorb flip: set_map)
qed

lemma index_of_some: "map_of (index_of fs) p = Some i \<Longrightarrow> i < length fs \<and> mf_path (fs ! i) = p"
proof (induction fs arbitrary: i rule: rev_induct)
  case Nil
  then show ?case by (simp add: index_of_def)
next
  case (snoc f fs)
  then show ?case by (cases "p = mf_path f") (auto simp: index_of_snoc update_conv nth_append less_Suc_eq)
qed

lemma index_of_none: "map_of (index_of fs) p = None \<longleftrightarrow> p \<notin> mf_path ` set fs"
  by (simp add: map_of_eq_None_iff index_of_keys)

lemma reindex_covers: "index_covers (reindex m)" "mn_files (reindex m) = mn_files m"
  by (simp_all add: index_covers_def reindex_def index_of_keys)

text \<open>What \<open>Find\<close> answers: the place of a file at the path, or that there is none.\<close>

lemma find_file_exact:
  assumes "index_covers m" "find_file m p = (r, m')"
  shows "m' = m \<or> m' = reindex m"
    and "case r of None \<Rightarrow> p \<notin> set (file_paths m) | Some i \<Rightarrow> i < length (mn_files m) \<and> mf_path (mn_files m ! i) = p"
proof -
  let ?fs = "mn_files m"
  have again: "case map_of (index_of ?fs) p of None \<Rightarrow> p \<notin> set (file_paths m) | Some i \<Rightarrow> i < length ?fs \<and> mf_path (?fs ! i) = p"
    using index_of_some [of ?fs p] index_of_none [of ?fs p]
    by (cases "map_of (index_of ?fs) p") (auto simp: file_paths_def)
  have none: "p \<notin> set (file_paths m)" if "mn_index m = Some ix" "map_of ix p = None" for ix
    using assms(1) that by (auto simp: index_covers_def file_paths_def map_of_eq_None_iff)
  show "m' = m \<or> m' = reindex m"
    using assms(2) by (auto simp: find_file_def Let_def split: option.splits if_splits)
  show "case r of None \<Rightarrow> p \<notin> set (file_paths m) | Some i \<Rightarrow> i < length ?fs \<and> mf_path (?fs ! i) = p"
  proof (cases "mn_index m")
    case None
    then show ?thesis using assms(2) again by (simp add: find_file_def Let_def)
  next
    case (Some ix)
    show ?thesis
    proof (cases "map_of ix p")
      case None
      then show ?thesis
        using Some assms(2) again none [OF Some None] by (auto simp: find_file_def Let_def split: if_splits)
    next
      case hit: (Some i)
      have "r = (if i < length ?fs \<and> mf_path (?fs ! i) = p then Some i else map_of (index_of ?fs) p)"
        using assms(2) Some hit by (auto simp: find_file_def Let_def split: if_splits)
      then show ?thesis using again by simp
    qed
  qed
qed

lemma find_file_frame:
  assumes "index_covers m" "find_file m p = (r, m')"
  shows "index_covers m'" "mn_files m' = mn_files m" "mn_full m' = mn_full m" "m'\<lparr>mn_index := mn_index m\<rparr> = m"
  using find_file_exact(1) [OF assms] assms(1) reindex_covers [of m] by (auto simp: reindex_def)

text \<open>A change of the file at a path.\<close>

definition at_path :: "string \<Rightarrow> (media_file \<Rightarrow> media_file) \<Rightarrow> media_file list \<Rightarrow> media_file list" where
  "at_path p upd fs = map (\<lambda>f. if mf_path f = p then upd f else f) fs"

lemma set_file_at_path:
  assumes "distinct (file_paths m)" "i < length (mn_files m)" "mf_path (mn_files m ! i) = p"
  shows "mn_files (set_file i upd m) = at_path p upd (mn_files m)"
proof (rule nth_equalityI)
  fix j
  assume "j < length (mn_files (set_file i upd m))"
  then show "mn_files (set_file i upd m) ! j = at_path p upd (mn_files m) ! j"
    using assms by (auto simp: set_file_def at_path_def file_paths_def nth_list_update distinct_conv_nth)
qed (simp add: set_file_def at_path_def)

lemma at_path_absent: "p \<notin> set (map mf_path fs) \<Longrightarrow> at_path p upd fs = fs"
  by (auto simp: at_path_def intro!: map_idI)

lemma at_path_paths:
  assumes "\<And>f. mf_path (upd f) = mf_path f"
  shows "map mf_path (at_path p upd fs) = map mf_path fs"
  by (simp add: at_path_def assms comp_def)

lemma set_file_covers:
  assumes "index_covers m" "\<And>f. mf_path (upd f) = mf_path f" "i < length (mn_files m)"
  shows "index_covers (set_file i upd m)"
proof -
  have "map mf_path (mn_files (set_file i upd m)) = map mf_path (mn_files m)"
    using assms(2,3) by (simp add: set_file_def map_update)
      (metis list_update_id nth_map)
  then have "mf_path ` set (mn_files (set_file i upd m)) = mf_path ` set (mn_files m)" by (metis set_map)
  moreover have "mn_index (set_file i upd m) = mn_index m" by (simp add: set_file_def)
  ultimately show ?thesis using assms(1) unfolding index_covers_def by (simp only:)
qed

section \<open>Outputs\<close>

definition drop_pending :: "string \<Rightarrow> media_file \<Rightarrow> media_file" where
  "drop_pending preset f = (if preset \<in> set (pending_of f)
     then f\<lparr>mf_pending := (let ps = filter (\<lambda>p. p \<noteq> preset) (pending_of f) in if ps = [] then None else Some ps)\<rparr> else f)"

lemma drop_pending_path: "mf_path (drop_pending preset f) = mf_path f"
  by (simp add: drop_pending_def)

lemma clear_pending_files:
  assumes "index_covers m" "distinct (file_paths m)"
  shows "mn_files (clear_pending m p preset) = at_path p (drop_pending preset) (mn_files m)"
proof -
  obtain r m' where find: "find_file m p = (r, m')" by force
  have m': "mn_files m' = mn_files m" using find_file_frame(2) [OF assms(1) find] .
  show ?thesis
  proof (cases r)
    case None
    then have "p \<notin> set (map mf_path (mn_files m))"
      using find_file_exact(2) [OF assms(1) find] by (simp add: file_paths_def)
    then show ?thesis using None find m' by (simp add: clear_pending_def at_path_absent)
  next
    case (Some i)
    then have i: "i < length (mn_files m')" "mf_path (mn_files m' ! i) = p"
      using find_file_exact(2) [OF assms(1) find] m' by simp_all
    have d: "distinct (file_paths m')" using assms(2) m' by (simp add: file_paths_def)
    have "mn_files (set_file i (drop_pending preset) m') = at_path p (drop_pending preset) (mn_files m)"
      using set_file_at_path [OF d i] m' by simp
    moreover have "mn_files (clear_pending m p preset) = mn_files (set_file i (drop_pending preset) m')"
      using Some find by (simp add: clear_pending_def set_file_def drop_pending_def)
    ultimately show ?thesis by simp
  qed
qed

definition output_of :: "string \<Rightarrow> string \<Rightarrow> media_file \<Rightarrow> media_file" where
  "output_of from preset out = out\<lparr>mf_from := from, mf_preset := preset\<rparr>"

lemma output_path: "mf_path (output_of from preset out) = mf_path out"
  by (simp add: output_of_def)

lemma add_output_step:
  assumes "index_covers m"
  shows "case add_output src preset out m of
      Inl e \<Rightarrow> e = mf_path out \<and> mf_path out \<in> set (file_paths m)
    | Inr m' \<Rightarrow> mf_path out \<notin> set (file_paths m) \<and> index_covers m' \<and> mn_files m' = mn_files m @ [output_of src preset out]"
proof -
  obtain r m' where find: "find_file m (mf_path out) = (r, m')" by force
  note e = find_file_exact(2) [OF assms find] and f = find_file_frame [OF assms find]
  show ?thesis
  proof (cases r)
    case None
    have "index_covers (m'\<lparr>mn_files := mn_files m' @ [output_of src preset out],
        mn_index := map_option (AList.update (mf_path out) (length (mn_files m'))) (mn_index m')\<rparr>)"
      using f(1) by (cases "mn_index m'")
        (auto simp: index_covers_def output_path update_keys simp flip: set_map)
    then show ?thesis using None find e f(2) by (simp add: add_output_def output_of_def)
  next
    case (Some i)
    then have i: "i < length (file_paths m)" "file_paths m ! i = mf_path out" using e by (auto simp: file_paths_def)
    then have "mf_path out \<in> set (file_paths m)" using nth_mem [OF i(1)] by simp
    then show ?thesis using Some find by (simp add: add_output_def)
  qed
qed

lemma add_outputs:
  assumes "index_covers m"
  shows "case fold_result (add_output src preset) outs m of
      Inl e \<Rightarrow> \<exists>k < length outs. e = mf_path (outs ! k) \<and> e \<in> set (file_paths m @ map mf_path (take k outs))
    | Inr m' \<Rightarrow> distinct (map mf_path outs) \<and> set (map mf_path outs) \<inter> set (file_paths m) = {} \<and>
        index_covers m' \<and> mn_files m' = mn_files m @ map (output_of src preset) outs"
  using assms
proof (induction outs arbitrary: m)
  case Nil
  then show ?case by simp
next
  case (Cons out outs)
  note step = add_output_step [OF Cons.prems, where out = out and preset = preset and src = src]
  show ?case
  proof (cases "add_output src preset out m")
    case (Inl e)
    then show ?thesis using step by (auto intro!: exI [where x = 0])
  next
    case (Inr m1)
    then have s: "mf_path out \<notin> set (file_paths m)" "index_covers m1" "mn_files m1 = mn_files m @ [output_of src preset out]"
      using step by simp_all
    then have paths: "file_paths m1 = file_paths m @ [mf_path out]" by (simp add: file_paths_def output_path)
    note ih = Cons.IH [OF s(2)]
    show ?thesis
    proof (cases "fold_result (add_output src preset) outs m1")
      case (Inl e)
      then obtain k where k: "k < length outs" "e = mf_path (outs ! k)"
        "e \<in> set (file_paths m1 @ map mf_path (take k outs))"
        using ih by auto
      then show ?thesis
        using Inl \<open>add_output src preset out m = Inr m1\<close> s(1) paths by (auto intro!: exI [where x = "Suc k"])
    next
      case (Inr m2)
      then show ?thesis
        using ih \<open>add_output src preset out m = Inr m1\<close> s paths by auto
    qed
  qed
qed

definition kept_files :: "string \<Rightarrow> string \<Rightarrow> media_file list \<Rightarrow> media_file list" where
  "kept_files from preset fs = filter (\<lambda>f. \<not> (mf_preset f = preset \<and> (has_suffix ''/'' from \<or> mf_from f = from))) fs"

text \<open>
  replacing the outputs of a preset keeps every other file, adds exactly the new ones in order
  and clears the preset from the pending work of their upload; paths stay unique, and an output is
  refused exactly when its path is taken.
\<close>

theorem outputs_replaced_exactly:
  assumes "distinct (file_paths m)"
  shows "case set_outputs m src preset outs of
      Inl e \<Rightarrow> e \<in> mf_path ` set outs \<and> \<not> distinct (map mf_path (kept_files src preset (mn_files m) @ outs))
    | Inr m' \<Rightarrow> distinct (map mf_path (kept_files src preset (mn_files m) @ outs)) \<and> distinct (file_paths m') \<and>
        mn_files m' = at_path src (drop_pending preset) (kept_files src preset (mn_files m) @ map (output_of src preset) outs)"
proof -
  define m1 where "m1 = m\<lparr>mn_files := kept_files src preset (mn_files m), mn_index := None\<rparr>"
  have m1: "index_covers m1" "mn_files m1 = kept_files src preset (mn_files m)"
    by (simp_all add: m1_def index_covers_def)
  have d1: "distinct (file_paths m1)"
    using assms distinct_map_filter by (simp add: file_paths_def m1(2) kept_files_def)
  have run: "set_outputs m src preset outs = bindr (fold_result (add_output src preset) outs m1) (\<lambda>m. Inr (clear_pending m src preset))"
    by (simp add: set_outputs_def m1_def kept_files_def)
  note added = add_outputs [OF m1(1), where outs = outs and preset = preset and src = src]
  show ?thesis
  proof (cases "fold_result (add_output src preset) outs m1")
    case (Inl e)
    then obtain k where k: "k < length outs" "e = mf_path (outs ! k)" "e \<in> set (file_paths m1 @ map mf_path (take k outs))"
      using added by auto
    have "outs = take k outs @ outs ! k # drop (Suc k) outs" using k(1) by (simp add: id_take_nth_drop)
    then have "map mf_path outs = map mf_path (take k outs) @ e # map mf_path (drop (Suc k) outs)"
      using k(2) by (metis list.simps(9) map_append)
    then have "\<not> distinct (file_paths m1 @ map mf_path outs)" using k(3) by auto
    then show ?thesis using Inl run k(1,2) m1(2) by (auto simp: file_paths_def)
  next
    case (Inr m2)
    then have m2: "distinct (map mf_path outs)" "set (map mf_path outs) \<inter> set (file_paths m1) = {}"
      "index_covers m2" "mn_files m2 = mn_files m1 @ map (output_of src preset) outs"
      using added by simp_all
    have paths: "file_paths m2 = file_paths m1 @ map mf_path outs"
      by (simp add: file_paths_def m2(4) output_path comp_def)
    then have d2: "distinct (file_paths m2)" using d1 m2(1,2) by auto
    have files: "mn_files (clear_pending m2 src preset) = at_path src (drop_pending preset) (mn_files m2)"
      by (rule clear_pending_files [OF m2(3) d2])
    then have "file_paths (clear_pending m2 src preset) = file_paths m2"
      using at_path_paths [OF drop_pending_path] by (simp add: file_paths_def)
    moreover have "distinct (map mf_path (kept_files src preset (mn_files m) @ outs))"
      using d2 unfolding paths by (simp add: file_paths_def m1(2))
    ultimately show ?thesis using Inr run files d2 m1(2) m2(4) by simp
  qed
qed

section \<open>Publications\<close>

definition slot_of :: "publication \<Rightarrow> string \<times> nat" where
  "slot_of p = (pb_preset p, pb_state p)"

definition publications_ok :: "(string \<Rightarrow> 8 word list) \<Rightarrow> media_file \<Rightarrow> bool" where
  "publications_ok sha f \<longleftrightarrow> distinct (map slot_of (mf_public f)) \<and> (\<forall>p \<in> set (mf_public f). publication_problem sha f [] p = None)"

lemma publication_problem_slots:
  "publication_problem sha f slots p = None \<longleftrightarrow> slot_of p \<notin> set slots \<and> publication_problem sha f [] p = None"
proof (cases "slot_of p \<in> set slots")
  case True
  then show ?thesis by (simp add: publication_problem_def slot_of_def Let_def)
next
  case False
  then have "publication_problem sha f slots p = publication_problem sha f [] p"
    by (simp add: publication_problem_def slot_of_def)
  then show ?thesis using False by simp
qed

lemma publications_problem_iff: "publications_problem sha f = None \<longleftrightarrow> publications_ok sha f"
proof -
  have slot: "(\<lambda>q. (pb_preset q, pb_state q)) = slot_of" by (simp add: fun_eq_iff slot_of_def)
  have "publications_problem sha f = None \<longleftrightarrow>
      (\<forall>i < length (mf_public f). publication_problem sha f (map slot_of (take i (mf_public f))) (mf_public f ! i) = None)"
    using scan_all_iff [of "\<lambda>c. c = None" "\<lambda>before p. [publication_problem sha f (map slot_of before) p]" "[]" "mf_public f"]
    unfolding publications_problem_def first_error_None_iff slot by (simp add: list_all_iff)
  also have "\<dots> \<longleftrightarrow> (\<forall>i < length (mf_public f). slot_of (mf_public f ! i) \<notin> set (take i (map slot_of (mf_public f)))) \<and>
      (\<forall>p \<in> set (mf_public f). publication_problem sha f [] p = None)"
    by (subst publication_problem_slots) (auto simp: take_map all_set_conv_all_nth)
  also have "(\<forall>i < length (mf_public f). slot_of (mf_public f ! i) \<notin> set (take i (map slot_of (mf_public f)))) \<longleftrightarrow>
      distinct (map slot_of (mf_public f))"
    by (auto simp: distinct_conv_nth in_set_conv_nth) (metis length_map linorder_neqE_nat nth_map)+
  finally show ?thesis by (simp add: publications_ok_def)
qed

definition with_publication :: "bool \<Rightarrow> publication \<Rightarrow> media_file \<Rightarrow> media_file" where
  "with_publication full p f = f\<lparr>mf_public := filter (\<lambda>old. \<not> (pb_preset old = pb_preset p \<and>
     (pub_ready p \<or> \<not> pub_ready old \<or> full))) (mf_public f) @ [p]\<rparr>"

lemma find_filter_append:
  "List.find P (filter Q xs @ ys) = (case List.find (\<lambda>x. P x \<and> Q x) xs of Some x \<Rightarrow> Some x | None \<Rightarrow> List.find P ys)"
  by (induction xs) auto

lemma find_nothing: "List.find (\<lambda>x. False) xs = None"
  by (induction xs) auto

lemma current_with:
  "current_publication (with_publication full p f) preset =
     (if preset = pb_preset p then if pub_ready p then Some p else if full then None else current_publication f preset
      else current_publication f preset)"
proof -
  let ?keep = "\<lambda>old. \<not> (pb_preset old = pb_preset p \<and> (pub_ready p \<or> \<not> pub_ready old \<or> full))"
  have keep: "(\<lambda>x. (pb_preset x = preset \<and> pb_state x = publication_ready) \<and> ?keep x) =
      (if preset = pb_preset p \<and> (pub_ready p \<or> full) then (\<lambda>x. False)
       else (\<lambda>x. pb_preset x = preset \<and> pb_state x = publication_ready))"
    by (auto simp: fun_eq_iff pub_ready_def)
  have "mf_public (with_publication full p f) = filter ?keep (mf_public f) @ [p]" by (simp add: with_publication_def)
  then have "current_publication (with_publication full p f) preset =
      (case List.find (\<lambda>x. (pb_preset x = preset \<and> pb_state x = publication_ready) \<and> ?keep x) (mf_public f) of
         Some x \<Rightarrow> Some x | None \<Rightarrow> List.find (\<lambda>x. pb_preset x = preset \<and> pb_state x = publication_ready) [p])"
    unfolding current_publication_def find_publication_def by (simp only: find_filter_append)
  then show ?thesis
    unfolding keep
    by (auto simp: find_nothing pub_ready_def current_publication_def find_publication_def split: option.splits)
qed

lemma latest_with:
  assumes "pb_state p \<le> publication_ready"
  shows "latest_publication (with_publication full p f) (pb_preset p) = Some p"
proof -
  let ?keep = "\<lambda>old. \<not> (pb_preset old = pb_preset p \<and> (pub_ready p \<or> \<not> pub_ready old \<or> full))"
  have keep: "(\<lambda>x. (pb_preset x = pb_preset p \<and> pb_state x = publication_reserved) \<and> ?keep x) = (\<lambda>x. False)"
    by (auto simp: fun_eq_iff pub_ready_def publication_reserved_def publication_ready_def)
  have "mf_public (with_publication full p f) = filter ?keep (mf_public f) @ [p]" by (simp add: with_publication_def)
  then have "find_publication (with_publication full p f) (pb_preset p) publication_reserved =
      List.find (\<lambda>x. pb_preset x = pb_preset p \<and> pb_state x = publication_reserved) [p]"
    unfolding find_publication_def by (simp only: find_filter_append keep find_nothing option.case)
  moreover have "pb_state p = publication_reserved \<or> pub_ready p"
    using assms by (auto simp: pub_ready_def publication_reserved_def publication_ready_def)
  ultimately show ?thesis
    using current_with [of full p f "pb_preset p"] by (auto simp: latest_publication_def)
qed

lemma publication_problem_mono:
  assumes "publication_problem sha f [] q = None" "file_key sha f' = file_key sha f"
    "\<not> pub_ready q \<Longrightarrow> current_generation f' (pb_preset q) \<noteq> pb_generation q"
  shows "publication_problem sha f' [] q = None"
  using assms by (cases "pub_ready q") (auto simp: publication_problem_def Let_def split: if_splits)

lemma publication_problem_reserved:
  "publication_problem sha f [] q = None \<Longrightarrow> \<not> pub_ready q \<Longrightarrow>
     current_generation f (pb_preset q) \<noteq> pb_generation q \<and> pb_generation q \<noteq> []"
  by (auto simp: publication_problem_def Let_def layout_uuid_def uuid_text_def split: if_splits)

lemma publication_problem_state: "publication_problem sha f [] q = None \<Longrightarrow> pb_state q \<le> publication_ready"
  by (auto simp: publication_problem_def Let_def split: if_splits)

lemma with_publication_key: "file_key sha (with_publication full p f) = file_key sha f"
  by (simp add: file_key_def file_source_def with_publication_def)

lemma with_publication_ok:
  assumes ok: "publications_ok sha f" and p: "publication_problem sha f [] p = None"
  shows "publications_ok sha (with_publication full p f)"
proof -
  let ?f = "with_publication full p f"
  let ?kept = "filter (\<lambda>old. \<not> (pb_preset old = pb_preset p \<and> (pub_ready p \<or> \<not> pub_ready old \<or> full))) (mf_public f)"
  have pubs: "mf_public ?f = ?kept @ [p]" by (simp add: with_publication_def)
  have "slot_of q \<noteq> slot_of p" if "q \<in> set ?kept" for q
    using that by (auto simp: slot_of_def pub_ready_def)
  moreover have "distinct (map slot_of ?kept)" by (rule distinct_map_filter) (use ok in \<open>simp add: publications_ok_def\<close>)
  ultimately have "distinct (map slot_of (mf_public ?f))" unfolding pubs by force
  moreover have "publication_problem sha ?f [] q = None" if q: "q \<in> set (mf_public ?f)" for q
  proof (cases "q = p")
    case True
    have "current_generation ?f (pb_preset p) \<noteq> pb_generation p" if "\<not> pub_ready p"
      using publication_problem_reserved [OF p that] that
      by (auto simp: current_generation_def current_with)
    then show ?thesis unfolding True by (rule publication_problem_mono [OF p with_publication_key])
  next
    case False
    then have mem: "q \<in> set (mf_public f)" and k: "pb_preset q = pb_preset p \<Longrightarrow> pub_ready q"
      using q unfolding pubs by auto
    then have old: "publication_problem sha f [] q = None" using ok by (simp add: publications_ok_def)
    have "current_generation ?f (pb_preset q) \<noteq> pb_generation q" if "\<not> pub_ready q"
      using publication_problem_reserved [OF old that] k that by (auto simp: current_generation_def current_with)
    then show ?thesis by (rule publication_problem_mono [OF old with_publication_key])
  qed
  ultimately show ?thesis by (simp add: publications_ok_def)
qed

lemma with_publication_file:
  assumes "is_upload f"
  shows "file_problem seen (with_publication full p f) = file_problem seen f"
    "mf_edit (with_publication full p f) = mf_edit f" "mf_path (with_publication full p f) = mf_path f"
  using assms by (simp_all add: file_problem_def with_publication_def is_upload_def cong: if_cong)

text \<open>What the validation of a manifest asks of its files.\<close>

lemma files_valid_iff:
  "first_error (scan (validate_file sha) [] fs) = None \<longleftrightarrow>
     (\<forall>i < length fs. file_problem (map mf_path (take i fs)) (fs ! i) = None \<and>
        publications_ok sha (fs ! i) \<and> edit_check (mf_edit (fs ! i)) 0 0 = None)"
  using scan_all_iff [of "\<lambda>c. c = None" "validate_file sha" "[]" fs]
  by (simp add: first_error_None_iff list_all_iff validate_file_def publications_problem_iff)

lemma file_problem_path: "file_problem seen f = None \<Longrightarrow> mf_path f \<notin> set seen"
  by (auto simp: file_problem_def split: if_splits)

lemma distinct_from_prefixes:
  "(\<And>i. i < length xs \<Longrightarrow> xs ! i \<notin> set (take i xs)) \<Longrightarrow> distinct xs"
  by (auto simp: distinct_conv_nth in_set_conv_nth) (metis linorder_neqE_nat)

lemma valid_files_distinct:
  assumes "first_error (scan (validate_file sha) [] fs) = None"
  shows "distinct (map mf_path fs)"
proof (rule distinct_from_prefixes)
  fix i
  assume "i < length (map mf_path fs)"
  then have "mf_path (fs ! i) \<notin> set (map mf_path (take i fs))"
    using assms file_problem_path [of "map mf_path (take i fs)" "fs ! i"] by (simp add: files_valid_iff)
  then show "map mf_path fs ! i \<notin> set (take i (map mf_path fs))"
    using \<open>i < length (map mf_path fs)\<close> by (simp add: take_map)
qed

lemma files_valid_at_path:
  assumes "first_error (scan (validate_file sha) [] fs) = None"
    and "\<And>f. f \<in> set fs \<Longrightarrow> mf_path f = path \<Longrightarrow> is_upload f \<and> publication_problem sha f [] p = None"
  shows "first_error (scan (validate_file sha) [] (at_path path (with_publication full p) fs)) = None"
  unfolding files_valid_iff
proof (intro allI impI)
  fix i
  assume "i < length (at_path path (with_publication full p) fs)"
  then have i: "i < length fs" by (simp add: at_path_def)
  then have old: "file_problem (map mf_path (take i fs)) (fs ! i) = None" "publications_ok sha (fs ! i)"
    "edit_check (mf_edit (fs ! i)) 0 0 = None"
    using assms(1) by (simp_all add: files_valid_iff)
  have paths: "map mf_path (take i (at_path path (with_publication full p) fs)) = map mf_path (take i fs)"
    by (simp add: at_path_def take_map comp_def with_publication_def if_distrib [of mf_path])
  have nth: "at_path path (with_publication full p) fs ! i =
      (if mf_path (fs ! i) = path then with_publication full p (fs ! i) else fs ! i)"
    using i by (simp add: at_path_def)
  show "file_problem (map mf_path (take i (at_path path (with_publication full p) fs))) (at_path path (with_publication full p) fs ! i) = None \<and>
      publications_ok sha (at_path path (with_publication full p) fs ! i) \<and>
      edit_check (mf_edit (at_path path (with_publication full p) fs ! i)) 0 0 = None"
  proof (cases "mf_path (fs ! i) = path")
    case True
    then have up: "is_upload (fs ! i)" "publication_problem sha (fs ! i) [] p = None"
      using assms(2) [of "fs ! i"] i by simp_all
    show ?thesis
      unfolding nth paths using True old with_publication_ok [OF old(2) up(2)]
      by (simp add: with_publication_file [OF up(1)])
  next
    case False
    then show ?thesis unfolding nth paths using old by simp
  qed
qed

lemma set_publication_files:
  assumes "index_covers m" "distinct (file_paths m)"
  shows "set_publication m path p = m \<lparr>mn_files := at_path path (with_publication (mn_full m) p) (mn_files m),
     mn_index := mn_index (snd (find_file m path))\<rparr>"
proof -
  obtain r m' where find: "find_file m path = (r, m')" by force
  have frame: "mn_files m' = mn_files m" "mn_full m' = mn_full m" "m' = m \<lparr>mn_index := mn_index m'\<rparr>"
    using find_file_exact(1) [OF assms(1) find] by (auto simp: reindex_def)
  show ?thesis
  proof (cases r)
    case None
    then have "path \<notin> set (map mf_path (mn_files m))"
      using find_file_exact(2) [OF assms(1) find] by (simp add: file_paths_def)
    then show ?thesis
      using None find frame(3) by (simp add: set_publication_def at_path_absent)
  next
    case (Some i)
    then have i: "i < length (mn_files m')" "mf_path (mn_files m' ! i) = path"
      using find_file_exact(2) [OF assms(1) find] frame by simp_all
    have d: "distinct (file_paths m')" using assms(2) frame(1) by (simp add: file_paths_def)
    have "set_publication m path p = set_file i (with_publication (mn_full m') p) m'"
      using Some find by (simp add: set_publication_def set_file_def with_publication_def)
    also have "\<dots> = m'\<lparr>mn_files := at_path path (with_publication (mn_full m) p) (mn_files m)\<rparr>"
      using set_file_at_path [OF d i, of "with_publication (mn_full m') p"] frame(1,2) by (simp add: set_file_def)
    also have "\<dots> = m \<lparr>mn_files := at_path path (with_publication (mn_full m) p) (mn_files m), mn_index := mn_index m'\<rparr>"
      by (subst frame(3)) simp
    finally show ?thesis using find by simp
  qed
qed

text \<open>
  C40: a publication recorded on its upload keeps a valid manifest valid and becomes the latest of
  its preset; a reservation leaves the current generation in place, unless the manifest is full,
  a ready generation replaces it, and every other preset is untouched.
\<close>

theorem publication_keeps_valid:
  assumes "validate_manifest sha receipt m = None" "index_covers m"
    and "f \<in> set (mn_files m)" "mf_path f = path" "is_upload f" "publication_problem sha f [] p = None"
  shows "validate_manifest sha receipt (set_publication m path p) = None \<and>
    mn_files (set_publication m path p) = at_path path (with_publication (mn_full m) p) (mn_files m) \<and>
    latest_publication (with_publication (mn_full m) p f) (pb_preset p) = Some p \<and>
    (\<forall>preset. current_publication (with_publication (mn_full m) p f) preset =
       (if preset \<noteq> pb_preset p then current_publication f preset
        else if pub_ready p then Some p else if mn_full m then None else current_publication f preset))"
proof -
  have valid: "first_error (scan (validate_file sha) [] (mn_files m)) = None"
    using assms(1) by (auto simp: validate_manifest_def first_error_append split: if_splits option.splits)
  note d = valid_files_distinct [OF valid]
  have unique: "g = f" if "g \<in> set (mn_files m)" "mf_path g = path" for g
    using that assms(3,4) d by (auto simp: distinct_map inj_on_def)
  have "first_error (scan (validate_file sha) [] (at_path path (with_publication (mn_full m) p) (mn_files m))) = None"
    by (rule files_valid_at_path [OF valid]) (use unique assms(5,6) in blast)
  moreover have files: "set_publication m path p = m \<lparr>mn_files := at_path path (with_publication (mn_full m) p) (mn_files m),
      mn_index := mn_index (snd (find_file m path))\<rparr>"
    by (rule set_publication_files [OF assms(2)]) (use d in \<open>simp add: file_paths_def\<close>)
  moreover have "\<not> mn_deleted m"
    using assms(1,3) by (auto simp: validate_manifest_def split: if_splits)
  ultimately have "validate_manifest sha receipt (set_publication m path p) = None"
    using assms(1) valid by (auto simp: validate_manifest_def first_error_append split: if_splits option.splits)
  moreover have "latest_publication (with_publication (mn_full m) p f) (pb_preset p) = Some p"
    by (rule latest_with [OF publication_problem_state [OF assms(6)]])
  ultimately show ?thesis using files by (simp add: current_with)
qed

section \<open>Failures\<close>

lemma cut_message_some: "n \<le> 300 \<Longrightarrow> \<exists>r. cut_message n s = Some r \<and> json_len r \<le> 300"
proof (induction n s rule: cut_message.induct)
  case (1 n s)
  show ?case
  proof (cases "json_len s \<le> 300")
    case True
    then show ?thesis by (simp add: cut_message.simps [of n s] max_failure_bytes_def)
  next
    case long: False
    let ?s = "to_valid_utf8 (take (min (length s) (300 - n)) s)"
    show ?thesis
    proof (cases "n = 300")
      case True
      have "json_len s > max_failure_bytes" using long by (simp add: max_failure_bytes_def)
      moreover have "to_valid_utf8 [] = []" by (simp add: to_valid_utf8_def rune_chunks_def chunk_text_def chunks.simps)
      ultimately have "cut_message n s = cut_message (Suc n) []"
        using True by (subst cut_message.simps) (simp add: max_failure_bytes_def)
      moreover have "json_len [] = 0" by (simp add: json_len_def rune_chunks_def runes_def chunks.simps)
      ultimately show ?thesis by (simp add: cut_message.simps [of "Suc n" "[]"])
    next
      case False
      then have "Suc n \<le> 300" using 1 by simp
      then show ?thesis using 1 long by (simp add: cut_message.simps [of n s] max_failure_bytes_def)
    qed
  qed
qed

text \<open>
  recording a failure always ends, and its message takes at most 300 bytes of JSON; a message
  that short is kept as it is, and the image error's code and details are kept.
\<close>

theorem failure_fits:
  "\<exists>x. new_failure sha f err = Some x \<and> json_len (fa_message x) \<le> 300 \<and> fa_of x = file_key sha f \<and>
     (json_len (case snd err of Some e \<Rightarrow> ie_message e | None \<Rightarrow> fst err) \<le> 300 \<longrightarrow>
        fa_message x = (case snd err of Some e \<Rightarrow> ie_message e | None \<Rightarrow> fst err)) \<and>
     fa_details x = map_option ie_details (snd err)"
proof -
  let ?s = "case snd err of Some e \<Rightarrow> ie_message e | None \<Rightarrow> fst err"
  obtain r where r: "cut_message 0 ?s = Some r" "json_len r \<le> 300" using cut_message_some [of 0 ?s] by auto
  moreover have "r = ?s" if "json_len ?s \<le> 300"
    using r(1) that by (simp add: cut_message.simps [of 0 ?s] max_failure_bytes_def)
  ultimately show ?thesis by (simp add: new_failure_def)
qed

section \<open>A manifest\<close>

definition sample_upload :: media_file where
  "sample_upload = \<lparr>mf_path = ''pages/1.png'', mf_blob = [], mf_type = ''image/png'', mf_size = 10, mf_w = 0, mf_h = 0, mf_dur = Finite 0,
     mf_admission = None, mf_staged = ''u-01890a5d-ac96-774b-bcce-b302099a8057'', mf_create_id = [], mf_edit = None, mf_frame = None,
     mf_meta = [], mf_unattached = False, mf_gone = False, mf_pending = Some [''low''], mf_failed = None, mf_public = [],
     mf_editor = None, mf_from = [], mf_preset = [], mf_fp = [], mf_download = [], mf_track = None\<rparr>"

definition sample_output :: media_file where
  "sample_output = sample_upload\<lparr>mf_path := ''low/1.webp'', mf_staged := [], mf_pending := None,
     mf_blob := ''x''\<rparr>"

definition sample_manifest :: "media_file list \<Rightarrow> manifest" where
  "sample_manifest fs = \<lparr>mn_v = 3, mn_layout = 1, mn_incarnation = [], mn_deleted = False, mn_full = False, mn_deficit = 0,
     mn_meta = [], mn_files = fs, mn_deliveries = [], mn_receipt = None, mn_index = None, mn_size = 0\<rparr>"

definition sample_publication :: "(string \<Rightarrow> 8 word list) \<Rightarrow> publication" where
  "sample_publication sha = \<lparr>pb_preset = ''small'', pb_source = file_key sha sample_upload, pb_fp = ''1'', pb_stable = None,
     pb_generation = ''01890a5d-ac96-774b-bcce-b302099a8057'', pb_blobs = [], pb_names = [''small.webp''], pb_state = 0,
     pb_dims = [\<lparr>dm_w = 1, dm_h = 1\<rparr>]\<rparr>"

theorem failure_fits_witness:
  "\<exists>x. new_failure (\<lambda>s. []) sample_upload (''bad'', None) = Some x \<and> fa_message x = ''bad''"
proof -
  have "chunks (map of_char ''bad'') = map (\<lambda>b. (b, [b])) (map of_char ''bad'')" by (rule chunks_ascii) simp
  then have "json_len ''bad'' \<le> 300" by (simp add: json_len_def runes_def rune_chunks_def json_rune_len_def rune_error_def)
  then show ?thesis using failure_fits [of "\<lambda>s. []" sample_upload "(''bad'', None)"] by auto
qed

theorem outputs_replaced_exactly_witness:
  "\<exists>m'. set_outputs (sample_manifest [sample_upload]) ''pages/1.png'' ''low'' [sample_output] = Inr m' \<and>
     mn_files m' = [sample_upload\<lparr>mf_pending := None\<rparr>, output_of ''pages/1.png'' ''low'' sample_output]"
proof -
  have "distinct (file_paths (sample_manifest [sample_upload]))" by (simp add: file_paths_def sample_manifest_def)
  from outputs_replaced_exactly [OF this, where src = "''pages/1.png''" and outs = "[sample_output]" and preset = "''low''"]
  show ?thesis
    by (auto simp: sample_manifest_def kept_files_def sample_upload_def sample_output_def output_of_def at_path_def
        drop_pending_def pending_of_def split: sum.splits)
qed

theorem publication_keeps_valid_witness:
  "latest_publication (with_publication False (sample_publication (\<lambda>s. [])) sample_upload) ''small'' =
     Some (sample_publication (\<lambda>s. []))"
proof -
  let ?sha = "\<lambda>s. [] :: 8 word list"
  have "validate_manifest ?sha (\<lambda>op f. []) (sample_manifest [sample_upload]) = None" by code_simp
  moreover have "publication_problem ?sha sample_upload [] (sample_publication ?sha) = None" by code_simp
  moreover have "index_covers (sample_manifest [sample_upload])" by (simp add: index_covers_def sample_manifest_def)
  ultimately show ?thesis
    using publication_keeps_valid [of ?sha "\<lambda>op f. []" "sample_manifest [sample_upload]" sample_upload "''pages/1.png''" "sample_publication ?sha"]
    by (simp add: sample_manifest_def sample_upload_def is_upload_def sample_publication_def)
qed

end
