(* ===== verification/Media_Paths.thy ===== *)
theory Media_Paths
  imports Media_Manifest
begin

text \<open>
  File \<open>internal/mediastore/paths.go\<close>: clean names, extensions, upload patterns, path templates
  and the natural order of names. Unicode normalization and lower case are parameters.
\<close>

section \<open>Clean names\<close>

definition max_name_bytes :: nat where "max_name_bytes = 200"

definition is_control :: "rune \<Rightarrow> bool" where
  "is_control r \<longleftrightarrow> r < 32 \<or> 127 \<le> r \<and> r < 160"

definition dropped_rune :: "rune \<Rightarrow> bool" where
  "dropped_rune r \<longleftrightarrow> r = 47 \<or> r = 92 \<or> is_control r \<or> r = rune_error"

text \<open>\<open>strings.ReplaceAll(s, "..", "")\<close>.\<close>

fun remove_dots :: "string \<Rightarrow> string" where
  "remove_dots (x # y # s) = (if x = CHR ''.'' \<and> y = CHR ''.'' then remove_dots s else x # remove_dots (y # s))"
| "remove_dots s = s"

fun has_dots :: "string \<Rightarrow> bool" where
  "has_dots (x # y # s) \<longleftrightarrow> x = CHR ''.'' \<and> y = CHR ''.'' \<or> has_dots (y # s)"
| "has_dots s \<longleftrightarrow> False"

lemma remove_dots_length: "length (remove_dots s) \<le> length s"
  by (induction s rule: remove_dots.induct) auto

lemma remove_dots_shorter: "has_dots s \<Longrightarrow> length (remove_dots s) < length s"
proof (induction s rule: remove_dots.induct)
  case (1 x y s)
  then show ?case using remove_dots_length [of s] by auto
qed auto

function strip_dots :: "string \<Rightarrow> string" where
  "strip_dots s = (if has_dots s then strip_dots (remove_dots s) else s)"
  by auto
termination
  by (relation "measure length") (auto simp: remove_dots_shorter)

declare strip_dots.simps [simp del]

text \<open>The runes of a text whose JSON fits.\<close>

fun fit_runes :: "nat \<Rightarrow> (rune \<times> nat list) list \<Rightarrow> (rune \<times> nat list) list" where
  "fit_runes n [] = []"
| "fit_runes n (c # cs) =
     (let n = n + json_rune_len (fst c) in if n > max_name_bytes then [] else c # fit_runes n cs)"

definition clean_name :: "(string \<Rightarrow> string) \<Rightarrow> string \<Rightarrow> string" where
  "clean_name nfc s =
     (let s = chunk_text (filter (\<lambda>c. \<not> dropped_rune (fst c)) (rune_chunks (nfc s)));
          s = trim_space (strip_dots s);
          fits = fit_runes 0 (rune_chunks s)
      in if length fits = length (rune_chunks s) then s else trim_space (chunk_text fits))"

section \<open>Extensions\<close>

definition is_alnum :: "char \<Rightarrow> bool" where
  "is_alnum c \<longleftrightarrow> is_lower c \<or> is_upper c \<or> is_digit c"

definition path_split_ext :: "string \<Rightarrow> string \<times> string" where
  "path_split_ext p =
     (case last_index (CHR ''.'') p of
        None \<Rightarrow> (p, [])
      | Some i \<Rightarrow>
          (let segment = (case last_index (CHR ''/'') p of None \<Rightarrow> 0 | Some s \<Rightarrow> s + 1)
           in if i \<le> segment \<or> length p - i - 1 > 10 \<or> i = length p - 1 then (p, [])
              else if \<not> list_all is_alnum (drop (i + 1) p) then (p, [])
              else (take i p, map lower_byte (drop (i + 1) p))))"

definition type_exts :: "(string \<times> string) list" where
  "type_exts = [(''image/jpeg'', ''jpg''), (''image/svg+xml'', ''svg''), (''video/quicktime'', ''mov''),
     (''video/x-matroska'', ''mkv''), (''audio/mpeg'', ''mp3''), (''audio/mp4'', ''m4a''), (''audio/aac'', ''m4a''),
     (''application/x-subrip'', ''srt''), (''text/x-ssa'', ''ssa''), (''text/x-ass'', ''ass''), (''text/vtt'', ''vtt'')]"

definition type_ext :: "string \<Rightarrow> string" where
  "type_ext content_type =
     (case map_of type_exts content_type of
        Some e \<Rightarrow> e
      | None \<Rightarrow>
          (case str_cut (CHR ''/'') content_type of
             (_, Some sub) \<Rightarrow>
               if valid_segment sub \<and> length sub \<le> 10 \<and> list_all (\<lambda>c. c \<notin> {CHR ''.'', CHR ''-'', CHR ''_''}) sub then sub else ''bin''
           | _ \<Rightarrow> ''bin''))"

section \<open>Patterns and templates\<close>

record pattern =
  pt_dir :: string
  pt_literal :: string

definition name_var :: string where "name_var = ''{name}''"

definition valid_dir :: "string \<Rightarrow> bool" where
  "valid_dir d \<longleftrightarrow> d = [] \<or> list_all valid_segment (split_on (CHR ''/'') (trim_suffix ''/'' d)) \<and> has_suffix ''/'' d"

definition parse_pattern :: "string \<Rightarrow> pattern \<times> bool" where
  "parse_pattern p =
     (if has_suffix name_var p
      then (let dir = trim_suffix name_var p
            in (\<lparr>pt_dir = dir, pt_literal = []\<rparr>, dir = [] \<or> has_suffix ''/'' dir \<and> valid_dir dir))
      else (\<lparr>pt_dir = [], pt_literal = p\<rparr>, valid_dir (p @ ''/'')))"

definition last_segment :: "string \<Rightarrow> string" where
  "last_segment p = (case last_index (CHR ''/'') p of None \<Rightarrow> p | Some i \<Rightarrow> drop (i + 1) p)"

definition pattern_match :: "(string \<Rightarrow> string) \<Rightarrow> pattern \<Rightarrow> string \<Rightarrow> string option" where
  "pattern_match nfc p stem =
     (if pt_literal p \<noteq> [] then if stem = pt_literal p then Some (last_segment (pt_literal p)) else None
      else (case cut_prefix (pt_dir p) stem of
              Some name \<Rightarrow> if name \<noteq> [] \<and> clean_name nfc name = name then Some name else None
            | None \<Rightarrow> None))"

definition pattern_string :: "pattern \<Rightarrow> string" where
  "pattern_string p = (if pt_literal p \<noteq> [] then pt_literal p else pt_dir p @ name_var)"

lemma str_cut_shorter: "str_cut c s = (a, Some b) \<Longrightarrow> length b < length s"
  by (simp add: str_cut_Some_iff)

function fill :: "(string \<times> string) list \<Rightarrow> string \<Rightarrow> string" where
  "fill vars t =
     (case str_cut (CHR ''{'') t of
        (a, None) \<Rightarrow> t
      | (a, Some r) \<Rightarrow>
          (case str_cut (CHR ''}'') r of
             (_, None) \<Rightarrow> t
           | (key, Some rest) \<Rightarrow> a @ (case map_of vars key of Some v \<Rightarrow> v | None \<Rightarrow> []) @ fill vars rest))"
  by pat_completeness auto
termination
  by (relation "measure (\<lambda>(vars, t). length t)") (auto dest!: sym [of _ "str_cut _ _"] str_cut_shorter)

declare fill.simps [simp del]

function placeholders :: "string \<Rightarrow> string list" where
  "placeholders t =
     (case str_cut (CHR ''{'') t of
        (a, None) \<Rightarrow> []
      | (a, Some r) \<Rightarrow>
          (case str_cut (CHR ''}'') r of
             (_, None) \<Rightarrow> [[]]
           | (key, Some rest) \<Rightarrow> key # placeholders rest))"
  by pat_completeness auto
termination
  by (relation "measure length") (auto dest!: sym [of _ "str_cut _ _"] str_cut_shorter)

declare placeholders.simps [simp del]

section \<open>The natural order of names\<close>

definition first_rune :: "string \<Rightarrow> rune \<times> nat" where
  "first_rune s = decode_rune (map of_char s)"

lemma first_rune_width: "1 \<le> snd (first_rune s)"
  by (simp add: first_rune_def decode_rune_width [simplified])

definition digit_count :: "string \<Rightarrow> nat" where
  "digit_count s = length (takeWhile is_digit s)"

text \<open>\<open>lower\<close> is the lower case of a rune.\<close>

function nat_less :: "(rune \<Rightarrow> rune) \<Rightarrow> string \<Rightarrow> string \<Rightarrow> bool" where
  "nat_less lower a b \<longleftrightarrow>
     (if a = [] \<or> b = [] then length a < length b
      else (let da = digit_count a; db = digit_count b
        in if da > 0 \<and> db > 0
           then (let na = dropWhile (\<lambda>c. c = CHR ''0'') (take da a); nb = dropWhile (\<lambda>c. c = CHR ''0'') (take db b)
             in if length na \<noteq> length nb then length na < length nb
                else if na \<noteq> nb then na < nb
                else if da \<noteq> db then da < db
                else nat_less lower (drop da a) (drop db b))
           else (let (ra, sa) = first_rune a; (rb, sb) = first_rune b
             in if lower ra \<noteq> lower rb then lower ra < lower rb
                else if ra \<noteq> rb then ra < rb
                else nat_less lower (drop sa a) (drop sb b))))"
  by pat_completeness auto
termination
proof (relation "measure (\<lambda>(lower, a, b). length a)")
  fix lower :: "rune \<Rightarrow> rune" and a b x y xa xb ra sa rb sb
  assume "\<not> (a = [] \<or> b = [])" "xa = first_rune a" "(ra, sa) = xa"
  then show "((lower, drop sa a, drop sb b), (lower, a, b)) \<in> measure (\<lambda>(lower, a, b). length a)"
    using first_rune_width [of a] by (auto dest: sym)
qed auto

declare nat_less.simps [simp del]

end
