(* ===== verification/Media_Kind.thy ===== *)
theory Media_Kind
  imports Media_Paths
begin

text \<open>
  The kinds of a media registry: their data (\<open>media/config.go\<close>), what they derive from an upload and
  their validation (\<open>internal/mediastore/kind.go\<close>, \<open>media/kind.go\<close>). \<open>nfc\<close> normalizes a text.
\<close>

section \<open>Data\<close>

record video_limits =
  vl_max_seconds :: go_float
  vl_max_fps :: go_float
  vl_max_pixels :: int
  vl_max_work :: go_float

record upload_decl =
  up_path :: string
  up_body :: bool
  up_types :: "string list"
  up_max_bytes :: int
  up_max :: int
  up_frames :: string
  up_named :: bool
  up_video :: "video_limits option"
  up_required :: bool

record publish_decl =
  pu_pages :: string
  pu_renditions :: "string list"
  pu_playback :: string
  pu_import :: string
  pu_download :: string

record shape =
  sh_wider_than :: aspect
  sh_no_wider_than :: aspect
  sh_image :: image_spec

record hls_decl =
  hl_ladder :: "int list"
  hl_min_aspect :: go_float
  hl_max_aspect :: go_float

record private_preset =
  pr_name :: string
  pr_from :: string
  pr_to :: string
  pr_download :: string
  pr_host_only :: bool
  pr_image :: "image_spec option"
  pr_hls :: "hls_decl option"
  pr_mp4 :: "int option"
  pr_zip :: string
  pr_subtitles :: bool
  pr_shapes :: "shape list"

record public_preset =
  pp_name :: string
  pp_from :: string
  pp_to :: string
  pp_widths :: "int list"
  pp_image :: image_spec
  pp_default :: string
  pp_stable :: bool

text \<open>The embedded default images are the predicate of their paths.\<close>

record media_kind =
  mk_name :: string
  mk_namespace :: string
  mk_account :: bool
  mk_versions :: bool
  mk_publish :: "publish_decl option"
  mk_uploads :: "upload_decl list"
  mk_keep_originals :: bool
  mk_download :: string
  mk_private :: "private_preset list"
  mk_public :: "public_preset list"
  mk_defaults :: "(string \<Rightarrow> bool) option"

record registered_kind = media_kind +
  rk_ns :: string
  rk_scope :: scope
  rk_patterns :: "pattern list"

section \<open>Floats and types\<close>

fun fl_less :: "go_float \<Rightarrow> go_float \<Rightarrow> bool" where
  "fl_less (Finite a) (Finite b) \<longleftrightarrow> a < b"
| "fl_less (Finite a) PosInf \<longleftrightarrow> True"
| "fl_less NegInf (Finite b) \<longleftrightarrow> True"
| "fl_less NegInf PosInf \<longleftrightarrow> True"
| "fl_less _ _ \<longleftrightarrow> False"

definition fl_finite :: "go_float \<Rightarrow> bool" where
  "fl_finite v = (case v of Finite q \<Rightarrow> 0 \<le> q | _ \<Rightarrow> False)"

definition is_video_type :: "string \<Rightarrow> bool" where "is_video_type t = has_prefix ''video/'' t"
definition is_image_type :: "string \<Rightarrow> bool" where "is_image_type t = has_prefix ''image/'' t"
definition is_audio_type :: "string \<Rightarrow> bool" where "is_audio_type t = has_prefix ''audio/'' t"

definition image_types :: "string list" where
  "image_types = [''image/jpeg'', ''image/png'', ''image/webp'', ''image/gif'', ''image/avif'', ''image/heic'', ''image/heif'', ''image/tiff'']"

definition default_ladder :: "int list" where "default_ladder = [2160, 1080, 480]"

text \<open>The floats nearest to 1/2.4 and 2.4.\<close>

definition default_min_aspect :: go_float where "default_min_aspect = Finite (7505999378950827 / 18014398509481984)"
definition default_max_aspect :: go_float where "default_max_aspect = Finite (5404319552844595 / 2251799813685248)"

definition rungs :: "hls_decl option \<Rightarrow> int list" where
  "rungs h = (case h of None \<Rightarrow> default_ladder | Some h \<Rightarrow> if hl_ladder h = [] then default_ladder else hl_ladder h)"

definition aspects :: "hls_decl option \<Rightarrow> go_float \<times> go_float" where
  "aspects h = (case h of
     None \<Rightarrow> (default_min_aspect, default_max_aspect)
   | Some h \<Rightarrow> (if fl_less (Finite 0) (hl_min_aspect h) then hl_min_aspect h else default_min_aspect,
       if fl_less (Finite 0) (hl_max_aspect h) then hl_max_aspect h else default_max_aspect))"

definition default_video_limits :: video_limits where
  "default_video_limits = \<lparr>vl_max_seconds = Finite 14400, vl_max_fps = Finite 60, vl_max_pixels = 35389440,
     vl_max_work = Finite 40000000000000\<rparr>"

definition float_or :: "go_float \<Rightarrow> go_float \<Rightarrow> go_float" where
  "float_or a b = (if a = Finite 0 then b else a)"

definition video_limits_of :: "video_limits option \<Rightarrow> video_limits" where
  "video_limits_of l = (case l of
     None \<Rightarrow> default_video_limits
   | Some l \<Rightarrow> \<lparr>vl_max_seconds = float_or (vl_max_seconds l) (vl_max_seconds default_video_limits),
       vl_max_fps = float_or (vl_max_fps l) (vl_max_fps default_video_limits),
       vl_max_pixels = (if vl_max_pixels l = 0 then vl_max_pixels default_video_limits else vl_max_pixels l),
       vl_max_work = float_or (vl_max_work l) (vl_max_work default_video_limits)\<rparr>)"

text \<open>The products of \<open>wider\<close> wrap around.\<close>

definition wider :: "aspect \<Rightarrow> aspect \<Rightarrow> bool" where
  "wider a b \<longleftrightarrow> wrap64 (as_w a * as_h b) > wrap64 (as_w b * as_h a)"

definition spans :: "aspect \<Rightarrow> aspect \<Rightarrow> bool" where
  "spans lo hi \<longleftrightarrow> is_native lo \<or> is_native hi \<or> wider hi lo"

definition shape_contains :: "shape \<Rightarrow> dims \<Rightarrow> bool" where
  "shape_contains s d \<longleftrightarrow> \<not> (dm_w d \<le> 0 \<or> dm_h d \<le> 0) \<and>
     (let a = \<lparr>as_w = dm_w d, as_h = dm_h d\<rparr>
      in (is_native (sh_wider_than s) \<or> wider a (sh_wider_than s)) \<and>
         (is_native (sh_no_wider_than s) \<or> \<not> wider a (sh_no_wider_than s)))"

text \<open>The image of a preset without one panics, here \<open>None\<close>.\<close>

definition image_for :: "private_preset \<Rightarrow> dims \<Rightarrow> image_spec option" where
  "image_for p d = (case List.find (\<lambda>s. shape_contains s d) (pr_shapes p) of Some s \<Rightarrow> Some (sh_image s) | None \<Rightarrow> pr_image p)"

section \<open>Finding declarations\<close>

definition index_where :: "('a \<Rightarrow> bool) \<Rightarrow> 'a list \<Rightarrow> nat option" where
  "index_where P xs = List.find (\<lambda>i. P (xs ! i)) [0..<length xs]"

definition upload_index :: "upload_decl list \<Rightarrow> string \<Rightarrow> nat option" where
  "upload_index us path = index_where (\<lambda>u. up_path u = path) us"

definition find_private :: "private_preset list \<Rightarrow> string \<Rightarrow> private_preset option" where
  "find_private ps name = List.find (\<lambda>p. pr_name p = name) ps"

definition find_public :: "public_preset list \<Rightarrow> string \<Rightarrow> public_preset option" where
  "find_public ps name = List.find (\<lambda>p. pp_name p = name) ps"

text \<open>
  The upload of a path: its place, stem, name and extension. A literal wins over a pattern.
\<close>

definition match_at :: "(string \<Rightarrow> string) \<Rightarrow> pattern list \<Rightarrow> bool \<Rightarrow> string \<Rightarrow> (nat \<times> string) option" where
  "match_at nfc ps literal stem =
     (case List.find (\<lambda>j. (pt_literal (ps ! j) \<noteq> []) = literal \<and> pattern_match nfc (ps ! j) stem \<noteq> None) [0..<length ps] of
        Some j \<Rightarrow> map_option (Pair j) (pattern_match nfc (ps ! j) stem)
      | None \<Rightarrow> None)"

definition kind_upload :: "(string \<Rightarrow> string) \<Rightarrow> pattern list \<Rightarrow> string \<Rightarrow> (nat \<times> string \<times> string \<times> string) option" where
  "kind_upload nfc ps path =
     (let (stem, ext) = path_split_ext path
      in case match_at nfc ps True stem of
           Some (j, n) \<Rightarrow> Some (j, stem, n, ext)
         | None \<Rightarrow> map_option (\<lambda>(j, n). (j, stem, n, ext)) (match_at nfc ps False stem))"

definition upload_of :: "(string \<Rightarrow> string) \<Rightarrow> registered_kind \<Rightarrow> string \<Rightarrow> (nat \<times> string \<times> string \<times> string) option" where
  "upload_of nfc k path = kind_upload nfc (rk_patterns k) path"

definition upload_decl_at :: "(string \<Rightarrow> string) \<Rightarrow> registered_kind \<Rightarrow> string \<Rightarrow> upload_decl option" where
  "upload_decl_at nfc k path = map_option (\<lambda>(i, _). mk_uploads k ! i) (upload_of nfc k path)"

definition name_of :: "(string \<Rightarrow> string) \<Rightarrow> registered_kind \<Rightarrow> string \<Rightarrow> string" where
  "name_of nfc k path = (case upload_of nfc k path of Some (_, _, name, _) \<Rightarrow> name | None \<Rightarrow> [])"

definition private_for :: "(string \<Rightarrow> string) \<Rightarrow> registered_kind \<Rightarrow> string \<Rightarrow> private_preset list" where
  "private_for nfc k path = (case upload_decl_at nfc k path of
     None \<Rightarrow> [] | Some u \<Rightarrow> filter (\<lambda>p. pr_from p \<noteq> [] \<and> pr_from p = up_path u) (mk_private k))"

definition public_for :: "(string \<Rightarrow> string) \<Rightarrow> registered_kind \<Rightarrow> string \<Rightarrow> public_preset list" where
  "public_for nfc k path = (case upload_decl_at nfc k path of
     None \<Rightarrow> [] | Some u \<Rightarrow> filter (\<lambda>p. pp_from p = up_path u) (mk_public k))"

definition presets :: "(string \<Rightarrow> string) \<Rightarrow> registered_kind \<Rightarrow> string \<Rightarrow> bool \<Rightarrow> string list" where
  "presets nfc k path unattached =
     map pr_name (private_for nfc k path) @ (if unattached then [] else map pp_name (public_for nfc k path))"

definition audio_original :: "(string \<Rightarrow> string) \<Rightarrow> registered_kind \<Rightarrow> media_file \<Rightarrow> bool" where
  "audio_original nfc k f \<longleftrightarrow> is_upload f \<and> \<not> mf_gone f \<and> mf_blob f \<noteq> [] \<and> is_audio_type (mf_type f) \<and>
     (case upload_decl_at nfc k (mf_path f) of Some u \<Rightarrow> mf_type f \<in> set (up_types u) | None \<Rightarrow> False)"

definition audio_upload :: "(string \<Rightarrow> string) \<Rightarrow> registered_kind \<Rightarrow> media_file \<Rightarrow> bool" where
  "audio_upload nfc k f \<longleftrightarrow> \<not> mf_unattached f \<and> audio_original nfc k f"

definition output_path :: "(string \<Rightarrow> string) \<Rightarrow> registered_kind \<Rightarrow> private_preset \<Rightarrow> string \<Rightarrow> string" where
  "output_path nfc k p path = fill [(''name'', name_of nfc k path), (''ext'', path_ext path)] (pr_to p)"

definition public_names :: "(string \<Rightarrow> string) \<Rightarrow> registered_kind \<Rightarrow> public_preset \<Rightarrow> string \<Rightarrow> string list" where
  "public_names nfc k p path =
     (let name = (''name'', name_of nfc k path)
      in if pp_widths p = [] then [fill [name] (pp_to p)]
         else map (\<lambda>w. fill [name, (''w'', dec_int w)] (pp_to p)) (pp_widths p))"

definition edit_bounds :: "(string \<Rightarrow> string) \<Rightarrow> registered_kind \<Rightarrow> string \<Rightarrow> image_spec" where
  "edit_bounds nfc k path = (case public_for nfc k path of p # _ \<Rightarrow> pp_image p | [] \<Rightarrow> no_image)"

definition kind_area :: "registered_kind \<Rightarrow> string \<Rightarrow> area" where
  "kind_area k preset = (if mk_versions k then if preset = [] then AreaOriginals else AreaInternal else AreaPrivate)"

section \<open>Publications of a kind\<close>

definition pub_owned :: "(string \<Rightarrow> string) \<Rightarrow> (string \<Rightarrow> 8 word list) \<Rightarrow> registered_kind \<Rightarrow> media_file \<Rightarrow> public_preset \<Rightarrow> publication \<Rightarrow> bool" where
  "pub_owned nfc sha k f p pub \<longleftrightarrow> \<not> mf_unattached f \<and> file_failure sha f = None \<and> pb_source pub = file_key sha f \<and>
     pb_names pub = public_names nfc k p (mf_path f)"

definition owned_publication ::
    "(string \<Rightarrow> string) \<Rightarrow> (string \<Rightarrow> 8 word list) \<Rightarrow> registered_kind \<Rightarrow> media_file \<Rightarrow> public_preset \<Rightarrow> publication option" where
  "owned_publication nfc sha k f p = (case latest_publication f (pp_name p) of
     Some pub \<Rightarrow> if pub_owned nfc sha k f p pub then Some pub else None | None \<Rightarrow> None)"

definition owned_current ::
    "(string \<Rightarrow> string) \<Rightarrow> (string \<Rightarrow> 8 word list) \<Rightarrow> registered_kind \<Rightarrow> media_file \<Rightarrow> public_preset \<Rightarrow> publication option" where
  "owned_current nfc sha k f p = (case current_publication f (pp_name p) of
     Some pub \<Rightarrow> if pub_owned nfc sha k f p pub then Some pub else None | None \<Rightarrow> None)"

definition public_kept :: "(string \<Rightarrow> string) \<Rightarrow> (string \<Rightarrow> 8 word list) \<Rightarrow> registered_kind \<Rightarrow> manifest \<Rightarrow> string list" where
  "public_kept nfc sha k m =
     (if mk_versions k
      then concat (map (\<lambda>b. case split_blob_ref b of Some (AreaPublic, name) \<Rightarrow> [name] | _ \<Rightarrow> []) (manifest_blobs m))
      else concat (map (\<lambda>f. if \<not> is_upload f \<or> mf_unattached f then []
        else concat (map (\<lambda>p. concat (map (\<lambda>pub.
          if pb_preset pub = pp_name p \<and> pub_owned nfc sha k f p pub
          then names_on_disk pub @ (if pp_stable p \<and> pub_ready pub \<and> pb_generation pub \<noteq> [] then pb_names pub else [])
          else []) (mf_public f))) (public_for nfc k (mf_path f)))) (mn_files m)))"

end
