(* ===== verification/Media_Registry.thy ===== *)
theory Media_Registry
  imports Media_Kind
begin

text \<open>
  Validation of kinds (\<open>internal/mediastore/kind.go\<close>), the registry and the items it accepts
  (\<open>registry.go\<close>), and what a kind computes of a manifest. Parsing of URLs is a parameter.
\<close>

section \<open>Validation of a kind\<close>

datatype render_fault = ImageFormatInvalid | ImageInvalid | ShapeBounds nat | ShapeFormat nat | ShapeImage nat render_fault |
  ShapesOverlap nat nat | LadderInvalid | AspectsInvalid | RungInvalid int

datatype upload_fault = UploadPath | UploadTypes | NamedLiteral | NamedNeedsMax | VideoWithoutVideo | VideoLimitsInvalid |
  ImageTypeUndecodable string | FramesNoVideo

datatype private_fault = PrivateName | Producers | ZipPrefix | FromUnknown | ToInvalid | ToNeedsExt | DownloadTemplate |
  ToOverlaps | ShapesNeedImage | PrivateRender render_fault

datatype public_fault = PublicFormat | PublicName | PublicFrom | NameInTo | PublicTo | StableName | DefaultMissing |
  WidthsShape | WidthInvalid int | PublicImage render_fault

datatype version_fault = BodyNeedsVersions | BodyNeedsNamed string | BodyPublic string | PagesUnknown string | NeedsRenditions |
  RenditionUnknown string | PlaybackUnknown string | ImportUnknown string | PublishDownload string

datatype kind_error = KindName | NoUploads | UploadInvalid string upload_fault | PrivateInvalid string private_fault |
  PublicInvalid string public_fault | DownloadUnknown string | VersionInvalid version_fault

definition max_width :: int where "max_width = 8192"

definition validate_image :: "image_spec \<Rightarrow> render_fault option" where
  "validate_image im =
     (if im_format im \<noteq> [] \<and> im_format im \<noteq> ''source'' then Some ImageFormatInvalid
      else if im_width im < 0 \<or> im_height im < 0 \<or> im_width im > 16384 \<or> im_height im > 16384 \<or> im_quality im < 0 \<or> im_quality im > 100 \<or>
        im_min_width im < 0 \<or> \<not> aspect_valid (im_aspect im) \<or>
        im_fit im \<noteq> [] \<and> im_fit im \<noteq> ''cover'' \<or> im_animation im \<noteq> [] \<and> im_animation im \<noteq> ''reject'' then Some ImageInvalid
      else None)"

definition shape_problem :: "image_spec \<Rightarrow> shape list \<Rightarrow> shape \<Rightarrow> render_fault option list" where
  "shape_problem base before s =
     (let i = length before
      in [refuse_if (is_native (sh_wider_than s) \<and> is_native (sh_no_wider_than s) \<or> \<not> aspect_valid (sh_wider_than s) \<or>
            \<not> aspect_valid (sh_no_wider_than s) \<or> \<not> spans (sh_wider_than s) (sh_no_wider_than s)) (ShapeBounds i),
          refuse_if (im_format (sh_image s) \<noteq> im_format base \<or> im_animation (sh_image s) \<noteq> im_animation base) (ShapeFormat i),
          map_option (ShapeImage i) (validate_image (sh_image s))] @
         map (\<lambda>(j, e). refuse_if (spans (sh_wider_than s) (sh_no_wider_than e) \<and> spans (sh_wider_than e) (sh_no_wider_than s)) (ShapesOverlap j i))
           (zip [0..<i] before))"

definition validate_shapes :: "image_spec \<Rightarrow> shape list \<Rightarrow> render_fault option" where
  "validate_shapes base shapes = first_error (scan (shape_problem base) [] shapes)"

definition ladder_ok :: "int list \<Rightarrow> bool" where
  "ladder_ok l \<longleftrightarrow> list_all (\<lambda>i. \<not> (l ! i < 2 \<or> l ! i > 4320 \<or> l ! i smod 2 \<noteq> 0 \<or> i > 0 \<and> l ! i \<ge> l ! (i - 1))) [0..<length l]"

definition validate_hls :: "hls_decl \<Rightarrow> render_fault option" where
  "validate_hls h =
     (if \<not> ladder_ok (hl_ladder h) then Some LadderInvalid
      else (let (lo, hi) = aspects (Some h)
        in if fl_less (hl_min_aspect h) (Finite 0) \<or> fl_less (hl_max_aspect h) (Finite 0) \<or> fl_less (Finite 1) lo \<or> fl_less hi (Finite 1)
           then Some AspectsInvalid else None))"

definition valid_template :: "string \<Rightarrow> bool \<Rightarrow> bool" where
  "valid_template t dir \<longleftrightarrow> t \<noteq> [] \<and> has_suffix ''/'' t = dir \<and> \<not> has_prefix ''/'' t \<and>
     list_all (\<lambda>s. s \<noteq> [] \<and> s \<noteq> ''.'' \<and> s \<noteq> ''..'' \<and> CHR 92 \<notin> set s) (split_on (CHR ''/'') (trim_suffix ''/'' t))"

definition feeds_images :: "registered_kind \<Rightarrow> string \<Rightarrow> bool" where
  "feeds_images k path \<longleftrightarrow> list_ex (\<lambda>p. pr_image p \<noteq> None \<and> pr_from p = path) (mk_private k) \<or>
     list_ex (\<lambda>p. pp_from p = path) (mk_public k)"

definition fl_at_most :: "go_float \<Rightarrow> rat \<Rightarrow> bool" where
  "fl_at_most v q \<longleftrightarrow> \<not> fl_less (Finite q) v"

definition validate_video :: "upload_decl \<Rightarrow> upload_fault option" where
  "validate_video u =
     (case up_video u of
        None \<Rightarrow> None
      | Some l \<Rightarrow>
          if \<not> list_ex is_video_type (up_types u) then Some VideoWithoutVideo
          else if \<not> fl_finite (vl_max_seconds l) \<or> \<not> fl_finite (vl_max_fps l) \<or> \<not> fl_at_most (vl_max_fps l) 60 \<or>
            vl_max_pixels l < 0 \<or> \<not> fl_finite (vl_max_work l) then Some VideoLimitsInvalid
          else None)"

definition upload_problem :: "upload_decl list \<Rightarrow> upload_decl \<Rightarrow> upload_fault option" where
  "upload_problem before u =
     (let (p, ok) = parse_pattern (up_path u)
      in if \<not> ok \<or> list_ex (\<lambda>e. up_path e = up_path u) before then Some UploadPath
         else if up_types u = [] \<or> up_max_bytes u \<le> 0 \<or> up_max u < 0 then Some UploadTypes
         else if up_named u \<and> pt_literal p \<noteq> [] then Some NamedLiteral
         else if up_named u \<and> up_max u = 0 then Some NamedNeedsMax
         else None)"

definition image_upload_problem :: "registered_kind \<Rightarrow> upload_decl \<Rightarrow> upload_fault option" where
  "image_upload_problem k u =
     (case (if feeds_images k (up_path u) then List.find (\<lambda>t. t \<notin> set image_types) (up_types u) else None) of
        Some t \<Rightarrow> Some (ImageTypeUndecodable t)
      | None \<Rightarrow>
          if up_frames u = [] then None
          else (case upload_index (mk_uploads k) (up_frames u) of
              None \<Rightarrow> Some FramesNoVideo
            | Some j \<Rightarrow> refuse_if (pt_literal (rk_patterns k ! j) = [] \<or> \<not> list_ex is_video_type (up_types (mk_uploads k ! j)))
                FramesNoVideo))"

definition producers :: "private_preset \<Rightarrow> nat" where
  "producers p = length (filter id [pr_image p \<noteq> None, pr_hls p \<noteq> None, pr_mp4 p \<noteq> None, pr_zip p \<noteq> [], pr_subtitles p])"

definition source_format :: "private_preset \<Rightarrow> bool" where
  "source_format p = (case pr_image p of Some im \<Rightarrow> im_format im = ''source'' | None \<Rightarrow> False)"

text \<open>\<open>before\<close> are the presets whose names are taken.\<close>

definition private_problem :: "(string \<Rightarrow> string) \<Rightarrow> registered_kind \<Rightarrow> private_preset list \<Rightarrow> private_preset \<Rightarrow> private_fault option" where
  "private_problem nfc k before p =
     (let dir = (pr_hls p \<noteq> None);
          vars = placeholders (pr_to p)
      in if \<not> valid_segment (pr_name p) \<or> pr_name p \<in> set (map pr_name before) then Some PrivateName
         else if producers p \<noteq> 1 then Some Producers
         else if pr_zip p \<noteq> [] \<and> (pr_from p \<noteq> [] \<or> \<not> valid_dir (pr_zip p)) then Some ZipPrefix
         else if pr_zip p = [] \<and> upload_index (mk_uploads k) (pr_from p) = None then Some FromUnknown
         else if \<not> valid_template (pr_to p) dir \<or> list_ex (\<lambda>s. s \<noteq> ''name'' \<and> \<not> (source_format p \<and> s = ''ext'')) vars
           then Some ToInvalid
         else if source_format p \<and> \<not> has_suffix ''{ext}'' (pr_to p) then Some ToNeedsExt
         else if [] \<in> set (placeholders (pr_download p)) then Some DownloadTemplate
         else if kind_upload nfc (rk_patterns k)
             (fill [(''name'', ''x''), (''ext'', ''.png'')] (pr_to p) @ (if dir then ''x'' else [])) \<noteq> None
           then Some ToOverlaps
         else if pr_shapes p \<noteq> [] \<and> pr_image p = None then Some ShapesNeedImage
         else (case pr_image p of
             Some im \<Rightarrow> map_option PrivateRender (case validate_image im of Some e \<Rightarrow> Some e | None \<Rightarrow> validate_shapes im (pr_shapes p))
           | None \<Rightarrow>
               (case pr_hls p of
                  Some h \<Rightarrow> map_option PrivateRender (validate_hls h)
                | None \<Rightarrow>
                    (case pr_mp4 p of
                       Some rung \<Rightarrow> refuse_if (rung < 2 \<or> rung > 4320 \<or> rung smod 2 \<noteq> 0) (PrivateRender (RungInvalid rung))
                     | None \<Rightarrow> None))))"

definition download_problem :: "registered_kind \<Rightarrow> kind_error option" where
  "download_problem k =
     (let d = mk_download k
      in if d = [] then None
         else (case find_private (mk_private k) d of
             None \<Rightarrow> refuse_if (upload_index (mk_uploads k) d = None \<or> sublist name_var d) (DownloadUnknown d)
           | Some p \<Rightarrow> refuse_if (pr_mp4 p = None \<and>
               (pr_zip p = [] \<or> (case mk_publish k of None \<Rightarrow> True | Some pu \<Rightarrow> pu_download pu \<noteq> d))) (DownloadUnknown d)))"

definition width_problem :: "int list \<Rightarrow> public_fault option" where
  "width_problem ws = map_option (\<lambda>j. WidthInvalid (ws ! j))
     (List.find (\<lambda>j. ws ! j \<le> 0 \<or> ws ! j > max_width \<or> j > 0 \<and> ws ! j = ws ! (j - 1)) [0..<length ws])"

definition public_problem ::
    "registered_kind \<Rightarrow> public_preset list \<Rightarrow> public_preset \<Rightarrow> public_fault option" where
  "public_problem k before p =
     (let vars = placeholders (pp_to p)
      in if im_format (pp_image p) \<noteq> [] then Some PublicFormat
         else if \<not> valid_segment (pp_name p) \<or> pp_name p \<in> set (map pr_name (mk_private k) @ map pp_name before) then Some PublicName
         else (case upload_index (mk_uploads k) (pp_from p) of
             None \<Rightarrow> Some PublicFrom
           | Some i \<Rightarrow>
               if ''name'' \<in> set vars \<and> (pt_literal (rk_patterns k ! i) = [] \<and> \<not> up_named (mk_uploads k ! i) \<or> pp_default p \<noteq> [])
               then Some NameInTo
               else if list_ex (\<lambda>s. s \<noteq> ''name'' \<and> s \<noteq> ''w'') vars \<or> (''w'' \<in> set vars) \<noteq> (pp_widths p \<noteq> []) \<or>
                 \<not> valid_segment (fill [(''name'', ''n''), (''w'', ''1'')] (pp_to p)) then Some PublicTo
               else if pp_stable p \<and> ''name'' \<in> set vars then Some StableName
               else if pp_default p \<noteq> [] \<and> (case mk_defaults k of Some exists \<Rightarrow> \<not> exists (pp_default p) | None \<Rightarrow> False)
               then Some DefaultMissing
               else if pp_widths p \<noteq> [] \<and> (im_width (pp_image p) > 0) \<noteq> (im_height (pp_image p) > 0) then Some WidthsShape
               else (case width_problem (sort (pp_widths p)) of Some e \<Rightarrow> Some e | None \<Rightarrow> map_option PublicImage (validate_image (pp_image p)))))"

definition validate_kind :: "(string \<Rightarrow> string) \<Rightarrow> registered_kind \<Rightarrow> (kind_error, registered_kind) result" where
  "validate_kind nfc k =
     (let k' = k\<lparr>rk_patterns := map (fst \<circ> parse_pattern \<circ> up_path) (mk_uploads k)\<rparr>
      in guard (refuse_if (\<not> valid_segment (mk_name k) \<or> has_prefix ''_'' (mk_name k)) KindName #
           refuse_if (mk_uploads k = []) NoUploads #
           scan (\<lambda>before u. [map_option (UploadInvalid (up_path u)) (upload_problem before u)]) [] (mk_uploads k) @
           map (\<lambda>u. map_option (UploadInvalid (up_path u)) (validate_video u)) (mk_uploads k) @
           map (\<lambda>u. map_option (UploadInvalid (up_path u)) (image_upload_problem k' u)) (mk_uploads k) @
           scan (\<lambda>before p. [map_option (PrivateInvalid (pr_name p)) (private_problem nfc k' before p)]) [] (mk_private k) @
           [download_problem k'] @
           scan (\<lambda>before p. [map_option (PublicInvalid (pp_name p)) (public_problem k' before p)]) [] (mk_public k))
         (k'\<lparr>mk_public := map (\<lambda>p. p\<lparr>pp_widths := sort (pp_widths p)\<rparr>) (mk_public k)\<rparr>))"

section \<open>Kinds of versions\<close>

definition rendition_problem :: "registered_kind \<Rightarrow> publish_decl \<Rightarrow> string \<Rightarrow> version_fault option" where
  "rendition_problem k p name =
     (case find_private (mk_private k) name of
        None \<Rightarrow> Some (RenditionUnknown name)
      | Some r \<Rightarrow> refuse_if (pr_image r = None \<or> pr_from r \<noteq> pu_pages p \<or> \<not> has_suffix (name_var @ ''.webp'') (pr_to r)) (RenditionUnknown name))"

definition publish_problems :: "registered_kind \<Rightarrow> publish_decl \<Rightarrow> version_fault option list" where
  "publish_problems k p =
     (let literal = (\<lambda>i. pt_literal (rk_patterns k ! i) \<noteq> []); decl = (\<lambda>i. mk_uploads k ! i)
      in [refuse_if (case upload_index (mk_uploads k) (pu_pages p) of
            None \<Rightarrow> True | Some i \<Rightarrow> literal i \<or> up_named (decl i) \<or> \<not> feeds_images k (pu_pages p)) (PagesUnknown (pu_pages p)),
          refuse_if (pu_renditions p = []) NeedsRenditions] @
         map (rendition_problem k p) (pu_renditions p) @
         [refuse_if (pu_playback p \<noteq> [] \<and> (case upload_index (mk_uploads k) (pu_playback p) of
            None \<Rightarrow> True | Some i \<Rightarrow> literal i \<or> list_ex (\<lambda>t. \<not> is_audio_type t) (up_types (decl i)))) (PlaybackUnknown (pu_playback p)),
          refuse_if (pu_import p \<noteq> [] \<and> (case upload_index (mk_uploads k) (pu_import p) of
            None \<Rightarrow> True | Some i \<Rightarrow> literal i \<or> up_types (decl i) \<noteq> [''application/zip''])) (ImportUnknown (pu_import p)),
          refuse_if (pu_download p \<noteq> [] \<and> (case find_private (mk_private k) (pu_download p) of
            None \<Rightarrow> True | Some z \<Rightarrow> pr_zip z = [] \<or> \<not> pr_host_only z)) (PublishDownload (pu_download p))])"

definition body_problem :: "registered_kind \<Rightarrow> upload_decl \<Rightarrow> version_fault option" where
  "body_problem k u =
     (if \<not> up_body u then None
      else if \<not> up_named u \<or> \<not> list_ex (\<lambda>p. pr_from p = up_path u \<and> pr_image p \<noteq> None \<and> \<not> pr_host_only p) (mk_private k)
      then Some (BodyNeedsNamed (up_path u))
      else if list_ex (\<lambda>p. pp_from p = up_path u) (mk_public k) then Some (BodyPublic (up_path u))
      else None)"

definition kind_levels :: "registered_kind \<Rightarrow> kind_error option" where
  "kind_levels k =
     (if \<not> mk_versions k then refuse_if (list_ex up_body (mk_uploads k) \<or> mk_publish k \<noteq> None) (VersionInvalid BodyNeedsVersions)
      else first_error (download_problem k # map (\<lambda>u. map_option VersionInvalid (body_problem k u)) (mk_uploads k) @
        (case mk_publish k of None \<Rightarrow> [] | Some p \<Rightarrow> map (map_option VersionInvalid) (publish_problems k p))))"

section \<open>The registry\<close>

record media_config =
  mc_namespace :: string
  mc_scope :: scope
  mc_base_url :: string
  mc_kinds :: "media_kind list"
  mc_avatars :: "string \<times> string"
  mc_editor :: image_spec

datatype registry_error = BadScope | BadNamespace | BadBaseURL | BadEditor render_fault | EditorFormat | DuplicateKind string |
  KindNamespace string | KindInvalid string kind_error | ScopedNamespace string | AccountNeedsScope string | BadAvatars string

definition default_editor :: image_spec where
  "default_editor = no_image\<lparr>im_width := 2048, im_height := 2048, im_quality := 82\<rparr>"

definition register :: "media_kind \<Rightarrow> registered_kind" where
  "register k = media_kind.extend k \<lparr>rk_ns = [], rk_scope = no_scope, rk_patterns = []\<rparr>"

text \<open>One kind of the loop: \<open>ns\<close> is the namespace of the registry.\<close>

definition place_kind :: "media_config \<Rightarrow> string \<Rightarrow> registered_kind \<Rightarrow> (registry_error, registered_kind) result" where
  "place_kind c ns k =
     (if mc_scope c \<noteq> no_scope
      then if mk_namespace k \<noteq> [] then Inl (ScopedNamespace (mk_name k))
           else (let s = (if mk_account k then (mc_scope c)\<lparr>sc_app := []\<rparr> else mc_scope c)
                 in Inr (k\<lparr>rk_scope := s, rk_ns := partition_of s\<rparr>))
      else if mk_account k then Inl (AccountNeedsScope (mk_name k))
      else Inr (k\<lparr>rk_ns := (if mk_namespace k \<noteq> [] then mk_namespace k else ns)\<rparr>))"

definition add_kind ::
    "(string \<Rightarrow> string) \<Rightarrow> media_config \<Rightarrow> string \<Rightarrow> media_kind \<Rightarrow> registered_kind list \<Rightarrow> (registry_error, registered_kind list) result" where
  "add_kind nfc c ns decl ks =
     (let k = register decl
      in if mk_name k \<in> set (map mk_name ks) then Inl (DuplicateKind (mk_name k))
         else if mk_namespace k \<noteq> [] \<and> (\<not> valid_segment (mk_namespace k) \<or> mk_namespace k = ns) then Inl (KindNamespace (mk_name k))
         else (case validate_kind nfc k of
             Inl e \<Rightarrow> Inl (KindInvalid (mk_name k) e)
           | Inr k \<Rightarrow> bindr (place_kind c ns k) (\<lambda>k.
               (case kind_levels k of Some e \<Rightarrow> Inl (KindInvalid (mk_name k) e) | None \<Rightarrow> Inr (ks @ [k])))))"

record media_registry =
  mr_config :: media_config
  mr_kinds :: "registered_kind list"

definition registry_namespace :: "media_config \<Rightarrow> string option" where
  "registry_namespace c =
     (if mc_scope c = no_scope then Some (mc_namespace c)
      else if \<not> valid_scope (mc_scope c) \<or> sc_app (mc_scope c) = [] \<or>
        mc_namespace c \<noteq> [] \<and> mc_namespace c \<noteq> partition_of (mc_scope c) then None
      else Some (partition_of (mc_scope c)))"

definition editor_of :: "media_config \<Rightarrow> image_spec" where
  "editor_of c = (if mc_editor c = no_image then default_editor else mc_editor c)"

definition avatars_ok :: "media_config \<Rightarrow> registered_kind list \<Rightarrow> bool" where
  "avatars_ok c ks \<longleftrightarrow> mc_avatars c = ([], []) \<or>
     (case List.find (\<lambda>k. mk_name k = fst (mc_avatars c)) ks of
        None \<Rightarrow> False
      | Some k \<Rightarrow> (case find_public (mk_public k) (snd (mc_avatars c)) of None \<Rightarrow> False | Some p \<Rightarrow> pp_stable p))"

text \<open>\<open>origin\<close> says whether a URL is an http origin.\<close>

definition new_media_registry ::
    "(string \<Rightarrow> string) \<Rightarrow> (string \<Rightarrow> bool) \<Rightarrow> media_config \<Rightarrow> (registry_error, media_registry) result" where
  "new_media_registry nfc origin c =
     (case registry_namespace c of
        None \<Rightarrow> Inl BadScope
      | Some ns \<Rightarrow>
          if \<not> valid_segment ns then Inl BadNamespace
          else if mc_base_url c \<noteq> [] \<and> \<not> origin (mc_base_url c) then Inl BadBaseURL
          else (case validate_image (editor_of c) of
              Some e \<Rightarrow> Inl (BadEditor e)
            | None \<Rightarrow>
                if im_format (editor_of c) \<noteq> [] then Inl EditorFormat
                else bindr (fold_result (add_kind nfc c ns) (mc_kinds c) []) (\<lambda>ks.
                  if \<not> avatars_ok c ks then Inl (BadAvatars (fst (mc_avatars c)))
                  else Inr \<lparr>mr_config = c\<lparr>mc_namespace := ns, mc_editor := editor_of c, mc_kinds := map media_kind.truncate ks\<rparr>, mr_kinds = ks\<rparr>)))"

definition registry_kind :: "media_registry \<Rightarrow> string \<Rightarrow> registered_kind option" where
  "registry_kind r name = List.find (\<lambda>k. mk_name k = name) (mr_kinds r)"

definition registry_namespaces :: "media_registry \<Rightarrow> string list" where
  "registry_namespaces r = foldl (\<lambda>out k. if rk_ns k \<in> set out then out else out @ [rk_ns k]) [mc_namespace (mr_config r)] (mr_kinds r)"

end
