(* ===== verification/Media_Items.thy ===== *)
theory Media_Items
  imports Media_Registry
begin

text \<open>
  Items of the registry and their keys (\<open>registry.go\<close>), and what a kind computes of an item's manifest
  (\<open>kind.go\<close>). Sizes are sums of lengths far below 64 bits.
\<close>

section \<open>Items\<close>

record media_item =
  it_ref :: content_ref
  it_kind :: registered_kind
  it_prefix :: string

definition nested_prefix :: "registered_kind \<Rightarrow> string \<Rightarrow> string \<Rightarrow> string" where
  "nested_prefix k i version =
     (if rk_scope k \<noteq> no_scope then scope_prefix (rk_scope k) (mk_name k) i version
      else layout_prefix (rk_ns k) (mk_name k) i version)"

definition kind_prefix :: "registered_kind \<Rightarrow> string \<Rightarrow> string \<Rightarrow> string" where
  "kind_prefix k i version =
     (if mk_versions k \<and> version \<noteq> [] then nested_prefix k version [] else nested_prefix k i version)"

definition kind_root :: "registered_kind \<Rightarrow> string" where
  "kind_root k = (if rk_scope k \<noteq> no_scope then scope_root (rk_scope k) else rk_ns k @ ''/'')"

datatype item_error = UnknownMediaKind | WrongNamespace | ItemId ref_error | NoVersions | NeedsVersion | VersionId ref_error

definition media_item_of :: "media_registry \<Rightarrow> content_ref \<Rightarrow> (item_error, media_item) result" where
  "media_item_of r ref =
     (case registry_kind r (content_kind ref) of
        None \<Rightarrow> Inl UnknownMediaKind
      | Some k \<Rightarrow>
          if tenant_id ref \<noteq> rk_ns k then Inl WrongNamespace
          else (case validate_id (content_id ref) of
              Some e \<Rightarrow> Inl (ItemId e)
            | None \<Rightarrow>
                if \<not> mk_versions k \<and> content_version_id ref \<noteq> None then Inl NoVersions
                else if mk_versions k \<and> ref_version ref = [] then Inl NeedsVersion
                else (case (if mk_versions k then validate_id (ref_version ref) else None) of
                    Some e \<Rightarrow> Inl (VersionId e)
                  | None \<Rightarrow> Inr \<lparr>it_ref = ref, it_kind = k, it_prefix = kind_prefix k (content_id ref) (ref_version ref)\<rparr>)))"

definition media_version_ref :: "media_registry \<Rightarrow> string \<Rightarrow> string \<Rightarrow> string \<Rightarrow> (item_error, content_ref) result" where
  "media_version_ref r kind i version =
     (case registry_kind r kind of
        None \<Rightarrow> Inl UnknownMediaKind
      | Some k \<Rightarrow> (let ref = with_version (new_ref (rk_ns k) kind i) version
          in case media_item_of r ref of Inl e \<Rightarrow> Inl e | Inr _ \<Rightarrow> Inr ref))"

definition manifest_key_of :: "media_item \<Rightarrow> string" where
  "manifest_key_of i = it_prefix i @ manifest_name"

definition area_prefix :: "media_item \<Rightarrow> area \<Rightarrow> string" where
  "area_prefix i a = it_prefix i @ area_name a @ ''/''"

definition temp_prefix :: "media_item \<Rightarrow> string" where
  "temp_prefix i = area_prefix i (if mk_versions (it_kind i) then AreaTmp else AreaTemp)"

definition item_blob :: "media_item \<Rightarrow> string \<Rightarrow> string option" where
  "item_blob i ref = (case split_blob_ref ref of None \<Rightarrow> None | Some (a, name) \<Rightarrow> Some (it_prefix i @ area_name a @ ''/'' @ name))"

definition item_blob_ref :: "media_item \<Rightarrow> string \<Rightarrow> string option" where
  "item_blob_ref i key =
     (case parse_object_key key of
        None \<Rightarrow> None
      | Some k \<Rightarrow> (let ref = blob_ref (ok_area k) (ok_name k)
          in if key_folder k \<noteq> it_prefix i \<or> \<not> valid_blob_ref ref then None else Some ref))"

definition item_staged :: "media_item \<Rightarrow> string \<Rightarrow> string option" where
  "item_staged i name = (if valid_staged_name name then Some (temp_prefix i @ name) else None)"

definition item_public :: "media_item \<Rightarrow> string \<Rightarrow> string option" where
  "item_public i name = (if valid_public_name name then Some (area_prefix i AreaPublic @ name) else None)"

definition publication_key :: "media_item \<Rightarrow> publication \<Rightarrow> int \<Rightarrow> string option" where
  "publication_key i p index =
     (if index < 0 \<or> index \<ge> int (length (pb_names p)) then None
      else if pb_blobs p \<noteq> [] then item_blob i (pb_blobs p ! nat index)
      else item_public i (names_on_disk p ! nat index))"

definition kind_default_key :: "registered_kind \<Rightarrow> string \<Rightarrow> string" where
  "kind_default_key k name = kind_prefix k default_id [] @ area_name AreaPublic @ ''/'' @ name"

definition trim_right_slashes :: "string \<Rightarrow> string" where
  "trim_right_slashes s = rev (dropWhile (\<lambda>c. c = CHR ''/'') (rev s))"

definition public_url :: "media_registry \<Rightarrow> content_ref \<Rightarrow> string \<Rightarrow> string" where
  "public_url r ref name =
     (case media_item_of r ref of
        Inl _ \<Rightarrow> []
      | Inr i \<Rightarrow> trim_right_slashes (mc_base_url (mr_config r)) @ ''/v1/'' @ area_prefix i AreaPublic @ name)"

definition is_account :: "media_registry \<Rightarrow> content_ref \<Rightarrow> bool" where
  "is_account r ref = (case registry_kind r (content_kind ref) of
     Some k \<Rightarrow> mk_account k \<and> tenant_id ref = rk_ns k | None \<Rightarrow> False)"

section \<open>Rules told to clients\<close>

record upload_rule =
  ur_path :: string
  ur_types :: "string list"
  ur_max_bytes :: int
  ur_max :: int
  ur_named :: bool
  ur_page :: bool
  ur_body :: bool
  ur_frames :: string
  ur_aspect :: aspect
  ur_min_width :: int
  ur_video :: "video_limits option"
  ur_aspects :: "go_float \<times> go_float"

definition narrow_aspects :: "hls_decl \<Rightarrow> go_float \<times> go_float \<Rightarrow> go_float \<times> go_float" where
  "narrow_aspects h b =
     (let (lo, hi) = aspects (Some h)
      in (if fst b = Finite 0 \<or> fl_less (fst b) lo then lo else fst b, if snd b = Finite 0 \<or> fl_less hi (snd b) then hi else snd b))"

definition upload_rule_of :: "registered_kind \<Rightarrow> upload_decl \<Rightarrow> upload_rule" where
  "upload_rule_of k u =
     (let im = (case List.find (\<lambda>p. pp_from p = up_path u) (mk_public k) of Some p \<Rightarrow> pp_image p | None \<Rightarrow> no_image)
      in \<lparr>ur_path = up_path u, ur_types = up_types u, ur_max_bytes = up_max_bytes u, ur_max = up_max u, ur_named = up_named u,
          ur_page = (case mk_publish k of Some p \<Rightarrow> up_path u = pu_pages p | None \<Rightarrow> False), ur_body = up_body u, ur_frames = up_frames u,
          ur_aspect = im_aspect im, ur_min_width = im_min_width im,
          ur_video = (if list_ex is_video_type (up_types u) then Some (video_limits_of (up_video u)) else None),
          ur_aspects = foldl (\<lambda>b p. case pr_hls p of Some h \<Rightarrow> if pr_from p = up_path u then narrow_aspects h b else b | None \<Rightarrow> b)
            (Finite 0, Finite 0) (mk_private k)\<rparr>)"

definition upload_rules :: "registered_kind \<Rightarrow> upload_rule list" where
  "upload_rules k = map (upload_rule_of k) (mk_uploads k)"

definition has_default :: "public_preset \<Rightarrow> bool" where
  "has_default p \<longleftrightarrow> pp_default p \<noteq> [] \<and> \<not> sublist name_var (pp_to p)"

record preset_rule =
  ps_kind :: string
  ps_name :: string
  ps_from :: string
  ps_base :: string
  ps_namespace :: string
  ps_root :: string
  ps_to :: string
  ps_widths :: "int list"
  ps_aspect :: aspect
  ps_min_width :: int
  ps_default :: bool
  ps_stable :: bool

definition preset_rules :: "media_registry \<Rightarrow> preset_rule list" where
  "preset_rules r = concat (map (\<lambda>k. map (\<lambda>p.
     \<lparr>ps_kind = mk_name k, ps_name = pp_name p, ps_from = pp_from p, ps_base = trim_right_slashes (mc_base_url (mr_config r)),
      ps_namespace = rk_ns k, ps_root = kind_root k, ps_to = pp_to p, ps_widths = pp_widths p, ps_aspect = im_aspect (pp_image p),
      ps_min_width = im_min_width (pp_image p), ps_default = has_default p, ps_stable = pp_stable p\<rparr>) (mk_public k)) (mr_kinds r))"

section \<open>Mirrors of stable presets\<close>

record mirror =
  mi_from :: string
  mi_to :: string

text \<open>A key that cannot be made is the empty text, as the code ignores its error.\<close>

definition mirrors :: "(string \<Rightarrow> string) \<Rightarrow> (string \<Rightarrow> 8 word list) \<Rightarrow> media_item \<Rightarrow> manifest \<Rightarrow> manifest \<Rightarrow> mirror list" where
  "mirrors nfc sha i cur next_m =
     (let k = it_kind i; key = (\<lambda>name. case item_public i name of Some s \<Rightarrow> s | None \<Rightarrow> [])
      in if mk_versions k then []
         else concat (map (\<lambda>f. if \<not> is_upload f then [] else concat (map (\<lambda>p.
           (case owned_current nfc sha k f p of
              None \<Rightarrow> []
            | Some pub \<Rightarrow>
                if \<not> pp_stable p \<or> pb_generation pub = [] then []
                else if (case fst (get_file cur (mf_path f)) of
                    None \<Rightarrow> False
                  | Some was \<Rightarrow> (case owned_current nfc sha k was p of Some prev \<Rightarrow> pb_generation prev = pb_generation pub | None \<Rightarrow> False))
                then []
                else map (\<lambda>(disk, name). \<lparr>mi_from = key disk, mi_to = key name\<rparr>) (zip (names_on_disk pub) (pb_names pub))))
           (public_for nfc k (mf_path f)))) (mn_files next_m)))"

section \<open>What processing will write\<close>

definition output_entry_bytes :: int where "output_entry_bytes = 357"
definition track_entry_bytes :: int where "track_entry_bytes = 640 + 24 + 74"
definition blob_fields_bytes :: int where "blob_fields_bytes = 256"
definition measured_bytes :: int where "measured_bytes = 48"
definition failure_entry_bytes :: int where "failure_entry_bytes = 768"
definition max_audio_tracks :: int where "max_audio_tracks = 8"
definition max_subtitle_tracks :: int where "max_subtitle_tracks = 16"

definition written_count :: "manifest \<Rightarrow> string \<Rightarrow> string \<Rightarrow> int" where
  "written_count m from preset =
     int (length (filter (\<lambda>f. \<not> is_upload f \<and> mf_from f = from \<and> mf_preset f = preset) (mn_files m)))"

definition public_left :: "(string \<Rightarrow> string) \<Rightarrow> (string \<Rightarrow> 8 word list) \<Rightarrow> registered_kind \<Rightarrow> media_file \<Rightarrow> public_preset \<Rightarrow> int" where
  "public_left nfc sha k f p =
     (if mf_unattached f \<or> owned_publication nfc sha k f p \<noteq> None then 0
      else 256 + int (length (pp_name p)) + sum_list (map (\<lambda>name. int (json_len name) + 64) (public_names nfc k p (mf_path f))))"

definition private_left :: "(string \<Rightarrow> string) \<Rightarrow> registered_kind \<Rightarrow> manifest \<Rightarrow> media_file \<Rightarrow> private_preset \<Rightarrow> int" where
  "private_left nfc k m f p =
     (let (entries, size) = (case pr_hls p of
          Some h \<Rightarrow> (3 * int (if hl_ladder h = [] then length default_ladder else length (hl_ladder h)) + 1 +
              max_audio_tracks + max_subtitle_tracks, track_entry_bytes)
        | None \<Rightarrow> (1, output_entry_bytes));
          size = (if pr_download p \<noteq> [] then size + int max_name_bytes + 16 else size);
          left = entries - written_count m (mf_path f) (pr_name p)
      in if left > 0 then left * (size + int (json_len (output_path nfc k p (mf_path f)) + json_len (mf_path f) + length (pr_name p))) else 0)"

definition file_unwritten :: "(string \<Rightarrow> string) \<Rightarrow> (string \<Rightarrow> 8 word list) \<Rightarrow> registered_kind \<Rightarrow> manifest \<Rightarrow> media_file \<Rightarrow> int" where
  "file_unwritten nfc sha k m f =
     (if \<not> is_upload f \<or> mf_gone f \<or> file_failure sha f \<noteq> None then 0
      else (let public = public_for nfc k (mf_path f);
                out = (if mf_blob f = [] then blob_fields_bytes else 0) +
                  (if is_image_type (mf_type f) \<and> mf_editor f = None then 256 else 0) +
                  sum_list (map (public_left nfc sha k f) public) +
                  sum_list (map (private_left nfc k m f) (private_for nfc k (mf_path f)));
                out = (if out > 0 \<or> pending_of f \<noteq> []
                  then max (out + (if mf_w f = 0 \<and> mf_dur f = Finite 0 then measured_bytes else 0)) failure_entry_bytes else out)
            in out + (if public = [] then 0
                 else (if pending_of f = [] then 13 else 0) + sum_list (map (\<lambda>p. int (length (pp_name p)) + 3) public))))"

definition unwritten :: "(string \<Rightarrow> string) \<Rightarrow> (string \<Rightarrow> 8 word list) \<Rightarrow> registered_kind \<Rightarrow> manifest \<Rightarrow> int" where
  "unwritten nfc sha k m =
     sum_list (map (file_unwritten nfc sha k m) (mn_files m)) +
     sum_list (map (\<lambda>z. if pr_zip z \<noteq> [] \<and> written_count m (pr_zip z) (pr_name z) = 0
       then output_entry_bytes + int max_name_bytes + 16 + int (json_len (pr_to z) + json_len (pr_zip z) + length (pr_name z)) else 0) (mk_private k))"

section \<open>The download of an item\<close>

datatype download_state = DownloadNone | DownloadPending | DownloadReady

definition download_of_source :: "(string \<Rightarrow> 8 word list) \<Rightarrow> private_preset option \<Rightarrow> manifest \<Rightarrow> media_file \<Rightarrow> media_file \<times> download_state" where
  "download_of_source sha p m f =
     (if file_failure sha f \<noteq> None \<or> mf_gone f then (f, DownloadNone)
      else if mf_blob f = [] then (f, DownloadPending)
      else (case p of
          None \<Rightarrow> (f, DownloadReady)
        | Some p \<Rightarrow>
            if pr_name p \<in> set (pending_of f) then (f, DownloadPending)
            else (case List.find (\<lambda>e. mf_blob e \<noteq> [] \<and> \<not> mf_gone e) (file_outputs m (mf_path f) (pr_name p)) of
                Some e \<Rightarrow> (e, DownloadReady)
              | None \<Rightarrow> (f, DownloadNone))))"

definition download_file ::
    "(string \<Rightarrow> string) \<Rightarrow> (string \<Rightarrow> 8 word list) \<Rightarrow> registered_kind \<Rightarrow> manifest \<Rightarrow> media_file option \<times> download_state" where
  "download_file nfc sha k m =
     (let p = find_private (mk_private k) (mk_download k)
      in if (case p of Some q \<Rightarrow> pr_mp4 q = None | None \<Rightarrow> False) then (None, DownloadNone)
         else (case upload_index (mk_uploads k) (case p of Some q \<Rightarrow> pr_from q | None \<Rightarrow> mk_download k) of
             None \<Rightarrow> (None, DownloadNone)
           | Some g \<Rightarrow>
               (case List.find (\<lambda>f. is_upload f \<and> \<not> mf_unattached f \<and>
                   (case upload_of nfc k (mf_path f) of Some (i, _) \<Rightarrow> i = g | None \<Rightarrow> False)) (mn_files m) of
                  None \<Rightarrow> (None, DownloadNone)
                | Some f \<Rightarrow> apfst Some (download_of_source sha p m f))))"

end
