(* ===== verification/Media_Pages.thy ===== *)
theory Media_Pages
  imports Media_Items
begin

text \<open>
  Pages and their names (\<open>internal/mediastore/page_names.go\<close>), the metadata of a page
  (\<open>page_analysis.go\<close>) and the archives pages come from (\<open>source_admission.go\<close>). Case folding is a
  parameter.
\<close>

section \<open>Metadata\<close>

type_synonym meta = "(string \<times> json) list"

text \<open>Reading a missing key of a map gives nil.\<close>

definition meta_get :: "meta \<Rightarrow> string \<Rightarrow> json" where
  "meta_get m k = (case map_of m k of Some v \<Rightarrow> v | None \<Rightarrow> JNull)"

definition set_missing :: "string \<Rightarrow> json \<Rightarrow> meta \<Rightarrow> meta" where
  "set_missing k v m = (if meta_get m k = JNull then AList.update k v m else m)"

definition meta_string :: "meta \<Rightarrow> string \<Rightarrow> string option" where
  "meta_string m k = (case meta_get m k of JString s \<Rightarrow> Some s | _ \<Rightarrow> None)"

text \<open>The page of a file's metadata; \<open>None\<close> when it is no object.\<close>

definition page_metadata :: "meta \<Rightarrow> meta option" where
  "page_metadata m = (case meta_get m ''page'' of JNull \<Rightarrow> Some [] | JObject o' \<Rightarrow> Some o' | _ \<Rightarrow> None)"

definition page_included :: "media_file \<Rightarrow> bool" where
  "page_included f = (case page_metadata (mf_meta f) of
     None \<Rightarrow> True | Some page \<Rightarrow> (case meta_get page ''included'' of JBool b \<Rightarrow> b | _ \<Rightarrow> True))"

definition archive_state_keys :: "string list" where
  "archive_state_keys = [''archive_complete'', ''archive_completed_sha256'', ''archive_complete_sha256'', ''archive_pages_total'']"

definition clear_archive_state :: "meta \<Rightarrow> meta" where
  "clear_archive_state m = filter (\<lambda>(k, _). k \<notin> set archive_state_keys) m"

section \<open>Paths\<close>

definition path_base :: "string \<Rightarrow> string" where
  "path_base p =
     (if p = [] then ''.''
      else (let p = rev (dropWhile (\<lambda>c. c = CHR ''/'') (rev p)) in if p = [] then ''/'' else last_segment p))"

definition clean_segment :: "bool \<Rightarrow> string list \<Rightarrow> string \<Rightarrow> string list" where
  "clean_segment rooted stack s =
     (if s = [] \<or> s = ''.'' then stack
      else if s = ''..'' then (if stack \<noteq> [] \<and> last stack \<noteq> ''..'' then butlast stack else if rooted then stack else stack @ [s])
      else stack @ [s])"

text \<open>\<open>path.Clean\<close>.\<close>

definition path_clean :: "string \<Rightarrow> string" where
  "path_clean p =
     (let rooted = has_prefix ''/'' p;
          segments = foldl (clean_segment rooted) [] (split_on (CHR ''/'') p)
      in if rooted then ''/'' @ join ''/'' segments else if segments = [] then ''.'' else join ''/'' segments)"

definition path_dir :: "string \<Rightarrow> string" where
  "path_dir p = path_clean (case last_index (CHR ''/'') p of None \<Rightarrow> [] | Some i \<Rightarrow> take (i + 1) p)"

definition path_join :: "string \<Rightarrow> string \<Rightarrow> string" where
  "path_join a b =
     (if a = [] \<and> b = [] then [] else path_clean (join ''/'' (filter (\<lambda>s. s \<noteq> []) [a, b])))"

section \<open>Names of pages\<close>

definition is_page_upload :: "(string \<Rightarrow> string) \<Rightarrow> registered_kind \<Rightarrow> media_file \<Rightarrow> bool" where
  "is_page_upload nfc k f =
     (case mk_publish k of
        None \<Rightarrow> False
      | Some pub \<Rightarrow> is_upload f \<and>
          (let (p, ok) = parse_pattern (pu_pages pub)
           in ok \<and> pattern_match nfc p (fst (path_split_ext (mf_path f))) \<noteq> None))"

definition page_id :: "(string \<Rightarrow> string) \<Rightarrow> registered_kind \<Rightarrow> media_file \<Rightarrow> string" where
  "page_id nfc k f =
     (if \<not> is_page_upload nfc k f then [] else (case blob_digest (mf_blob f) of Some d \<Rightarrow> d | None \<Rightarrow> []))"

definition pad_three :: "int \<Rightarrow> string" where
  "pad_three n = replicate (3 - length (dec_int n)) (CHR ''0'') @ dec_int n"

definition page_number :: "string \<Rightarrow> int option" where
  "page_number part =
     (if part = [] \<or> digit_count part \<noteq> length part then None
      else (case parse_int64 part of
          Some n \<Rightarrow> if n < 0 \<or> n > 1000000000 then None else Some n | None \<Rightarrow> None))"

definition canonical_page_name :: "string \<Rightarrow> (string \<times> int \<times> int) option" where
  "canonical_page_name name =
     (case map page_number (split_on (CHR ''-'') (fst (path_split_ext (path_base name)))) of
        [Some n] \<Rightarrow> Some (pad_three n, n, n)
      | [Some a, Some b] \<Rightarrow> if b \<le> a then None else Some (pad_three a @ ''-'' @ pad_three b, a, b)
      | _ \<Rightarrow> None)"

definition positional_name :: "nat \<Rightarrow> nat \<Rightarrow> string \<Rightarrow> string" where
  "positional_name position pages ext =
     (let s = dec_nat position; width = max 2 (length (dec_nat pages))
      in replicate (width - length s) (CHR ''0'') @ s @ ext)"

definition with_page_source :: "meta \<Rightarrow> string \<Rightarrow> string \<Rightarrow> meta" where
  "with_page_source m name source =
     (case page_metadata m of
        None \<Rightarrow> m
      | Some page \<Rightarrow>
          (let page = set_missing ''name'' (JString name) (set_missing ''source_name'' (JString (path_base source))
                 (set_missing ''schema_version'' (JInt 1) page));
               page = (case canonical_page_name source of
                   Some (_, a, b) \<Rightarrow> set_missing ''span'' (JObject [(''from'', JInt a), (''to'', JInt b)]) page
                 | None \<Rightarrow> set_missing ''flags'' (JStrings [''unusual_source_name'']) page)
           in AList.update ''page'' (JObject page) m))"

definition page_alias :: "media_file \<Rightarrow> string option" where
  "page_alias f = (case page_metadata (mf_meta f) of
     Some page \<Rightarrow> (case meta_string page ''name'' of Some s \<Rightarrow> if s \<noteq> [] then Some s else None | None \<Rightarrow> None)
   | None \<Rightarrow> None)"

definition page_name_used ::
    "(string \<Rightarrow> string) \<Rightarrow> (string \<Rightarrow> string \<Rightarrow> bool) \<Rightarrow> registered_kind \<Rightarrow> manifest \<Rightarrow> string \<Rightarrow> bool" where
  "page_name_used nfc fold_eq k m name =
     list_ex (\<lambda>f. is_page_upload nfc k f \<and>
       fold_eq (case page_alias f of Some s \<Rightarrow> s | None \<Rightarrow> name_of nfc k (mf_path f)) name) (mn_files m)"

text \<open>
  The suffix loop: the stem loses runes until it is clean with the suffix. An empty stem that is
  not would loop for ever, here \<open>None\<close>.
\<close>

function fit_suffix :: "(string \<Rightarrow> string) \<Rightarrow> string \<Rightarrow> string \<Rightarrow> string option" where
  "fit_suffix nfc base sfx =
     (if clean_name nfc (base @ sfx) = base @ sfx then Some (base @ sfx)
      else if base = [] then None
      else (let shorter = chunk_text (butlast (rune_chunks base))
        in if length shorter < length base then fit_suffix nfc shorter sfx else None))"
  by pat_completeness auto
termination
  by (relation "measure (\<lambda>(nfc, base, sfx). length base)") auto

declare fit_suffix.simps [simp del]

fun unique_from ::
    "nat \<Rightarrow> (string \<Rightarrow> string) \<Rightarrow> (string \<Rightarrow> string \<Rightarrow> bool) \<Rightarrow> string \<Rightarrow> string list \<Rightarrow> nat \<Rightarrow> string option" where
  "unique_from 0 nfc fold_eq stem taken n = None"
| "unique_from (Suc fuel) nfc fold_eq stem taken n =
     (case (if n > 1 then fit_suffix nfc stem ('' ('' @ dec_nat n @ '')'') else Some stem) of
        None \<Rightarrow> None
      | Some name \<Rightarrow> if list_ex (\<lambda>e. fold_eq e name) taken then unique_from fuel nfc fold_eq stem taken (Suc n) else Some name)"

text \<open>
  The search for a name, one step for each name taken and one more; \<open>None\<close> when none is found.
\<close>

definition unique_page_name ::
    "(string \<Rightarrow> string) \<Rightarrow> (string \<Rightarrow> string \<Rightarrow> bool) \<Rightarrow> string \<Rightarrow> string list \<Rightarrow> string option" where
  "unique_page_name nfc fold_eq stem taken =
     (let stem = clean_name nfc stem
      in unique_from (Suc (length taken)) nfc fold_eq (if stem = [] then ''page'' else stem) taken 1)"

definition next_page_path ::
    "(string \<Rightarrow> string) \<Rightarrow> (string \<Rightarrow> string \<Rightarrow> bool) \<Rightarrow> registered_kind \<Rightarrow> manifest \<Rightarrow> string \<Rightarrow> string option" where
  "next_page_path nfc fold_eq k m requested =
     (let used = concat (map (\<lambda>f. if is_page_upload nfc k f
          then name_of nfc k (mf_path f) # (case page_alias f of Some s \<Rightarrow> [s] | None \<Rightarrow> []) else []) (mn_files m));
          ext = snd (path_split_ext requested)
      in map_option (\<lambda>name. path_join (path_dir requested) name @ (if ext \<noteq> [] then ''.'' @ ext else []))
           (unique_page_name nfc fold_eq (name_of nfc k requested) (remdups used)))"

definition source_name :: "meta \<Rightarrow> string \<Rightarrow> string" where
  "source_name m fallback = (case page_metadata m of
     Some page \<Rightarrow> (case meta_string page ''source_name'' of
        Some s \<Rightarrow> if s \<noteq> [] then path_base s else path_base fallback | None \<Rightarrow> path_base fallback)
   | None \<Rightarrow> path_base fallback)"

definition preserve_page_meta :: "meta \<Rightarrow> meta \<Rightarrow> meta" where
  "preserve_page_meta next_meta previous = (case map_of previous ''page'' of
     Some page \<Rightarrow> AList.update ''page'' page next_meta | None \<Rightarrow> next_meta)"

text \<open>The flags a page has, as JSON decodes them into texts.\<close>

definition page_flags :: "meta \<Rightarrow> string list" where
  "page_flags page = (case meta_get page ''flags'' of
     JStrings l \<Rightarrow> l | JList l \<Rightarrow> map (\<lambda>j. case j of JString s \<Rightarrow> s | _ \<Rightarrow> []) l | _ \<Rightarrow> [])"

definition page_collision_meta :: "meta \<Rightarrow> string \<Rightarrow> meta" where
  "page_collision_meta m name =
     (case page_metadata m of
        None \<Rightarrow> m
      | Some page \<Rightarrow>
          (let flags = page_flags page;
               flags = (if ''duplicate_source_name'' \<in> set flags then flags else flags @ [''duplicate_source_name''])
           in AList.update ''page'' (JObject (AList.update ''flags'' (JStrings flags) (AList.update ''name'' (JString name) page))) m))"

section \<open>Archives\<close>

definition archive_destination :: "(string \<Rightarrow> string) \<Rightarrow> registered_kind \<Rightarrow> string \<Rightarrow> string" where
  "archive_destination nfc k source =
     (case (upload_decl_at nfc k source, mk_publish k) of
        (Some u, Some p) \<Rightarrow> if up_path u = pu_import p then pu_pages p else []
      | _ \<Rightarrow> [])"

definition source_digest :: "media_file \<Rightarrow> string" where
  "source_digest f = (case blob_digest (mf_blob f) of Some d \<Rightarrow> d | None \<Rightarrow> [])"

definition pending_archives :: "(string \<Rightarrow> string) \<Rightarrow> (string \<Rightarrow> 8 word list) \<Rightarrow> registered_kind \<Rightarrow> manifest \<Rightarrow> bool" where
  "pending_archives nfc sha k m =
     list_ex (\<lambda>f. is_upload f \<and> file_failure sha f = None \<and> archive_destination nfc k (mf_path f) \<noteq> [] \<and>
       (mf_blob f = [] \<or> meta_get (mf_meta f) ''archive_completed_sha256'' \<noteq> JString (source_digest f))) (mn_files m)"

definition archive_batch :: "(string \<Rightarrow> string) \<Rightarrow> registered_kind \<Rightarrow> media_file \<Rightarrow> string \<times> string" where
  "archive_batch nfc k source =
     (if mf_type source \<noteq> ''application/zip'' then ([], [])
      else ((case mf_admission source of
               Some a \<Rightarrow> if sa_target a \<noteq> [] then sa_target a else archive_destination nfc k (mf_path source)
             | None \<Rightarrow> archive_destination nfc k (mf_path source)), source_digest source))"

definition archive_child :: "(string \<Rightarrow> string) \<Rightarrow> registered_kind \<Rightarrow> string \<Rightarrow> string \<Rightarrow> media_file \<Rightarrow> bool" where
  "archive_child nfc k target digest f \<longleftrightarrow> is_upload f \<and> digest \<noteq> [] \<and>
     (case upload_decl_at nfc k (mf_path f) of Some u \<Rightarrow> up_path u = target | None \<Rightarrow> False) \<and>
     (case page_metadata (mf_meta f) of Some page \<Rightarrow> meta_get page ''archive_sha256'' = JString digest | None \<Rightarrow> False)"

definition batch_paths :: "(string \<Rightarrow> string) \<Rightarrow> registered_kind \<Rightarrow> string \<Rightarrow> string \<Rightarrow> manifest \<Rightarrow> string list" where
  "batch_paths nfc k target digest m =
     map mf_path (filter (\<lambda>f. mf_unattached f \<and> archive_child nfc k target digest f) (mn_files m))"

definition cancelled_archive_pages :: "(string \<Rightarrow> string) \<Rightarrow> registered_kind \<Rightarrow> manifest \<Rightarrow> media_file \<Rightarrow> string list" where
  "cancelled_archive_pages nfc k m source =
     (let (target, digest) = archive_batch nfc k source
      in if \<not> mf_unattached source \<or> target = [] \<or> digest = [] then []
         else if list_ex (\<lambda>e. mf_path e \<noteq> mf_path source \<and> is_upload e \<and> archive_batch nfc k e = (target, digest) \<and>
           archive_destination nfc k (mf_path e) \<noteq> []) (mn_files m) then []
         else batch_paths nfc k target digest m)"

end
