(* ===== verification/Media_Ops.thy ===== *)
theory Media_Ops
  imports Media_Pages
begin

text \<open>
  File \<open>internal/mediastore/ops.go\<close> with the admission of archives (\<open>source_admission.go\<close>): the operations of
  a commit on a manifest. What the host, the bucket and the other items answer is in the environment
  of a run. A refusal is its code and details; its wording is not modelled. \<open>Find\<close> answers here
  without keeping the index it may build.
\<close>

section \<open>Operations\<close>

record op =
  op_kind :: string
  op_source_name :: string
  op_path :: string
  op_blob :: string
  op_create_id :: string
  op_replace :: bool
  op_index :: "int option"
  op_meta :: "meta option"
  op_edit :: "edit option"
  op_unattached :: bool
  op_to :: string
  op_from :: "copy_from option"
  op_t :: "go_float option"
  op_auto :: bool
  op_preset :: string
  op_force :: bool
  op_takedown :: bool

definition op_kinds :: "string list" where
  "op_kinds = [''put'', ''edit'', ''move'', ''rename'', ''remove'', ''attach'', ''copy'', ''frame'', ''meta'', ''regenerate'']"

datatype media_code = CodeInvalid | CodeForbidden | CodeNotFound | CodeConflict | CodeNotUploaded | CodeTooManyFiles | CodeTooLarge | CodeType

fun media_status :: "media_code \<Rightarrow> int" where
  "media_status CodeInvalid = 400"
| "media_status CodeForbidden = 403"
| "media_status CodeNotFound = 404"
| "media_status CodeConflict = 409"
| "media_status CodeNotUploaded = 409"
| "media_status CodeTooManyFiles = 409"
| "media_status CodeTooLarge = 413"
| "media_status CodeType = 415"

text \<open>A refusal, an image too small, an error of the host, and a loop that does not end.\<close>

datatype op_error = Refused media_code | TooManyFiles int | TypeRefused string "string list" | SizeRefused string int int |
  ImageRefused int int | HostError string | NoAdmission | Endless

definition max_meta_bytes :: int where "max_meta_bytes = 4 * 1024"
definition max_item_meta_bytes :: int where "max_item_meta_bytes = 16 * 1024"

text \<open>\<open>marshal\<close> is the length of an object in JSON, if it has one.\<close>

definition meta_bytes :: "(meta \<Rightarrow> int option) \<Rightarrow> meta \<Rightarrow> int" where
  "meta_bytes marshal m = (if m = [] then 0 else case marshal m of Some n \<Rightarrow> n | None \<Rightarrow> max_item_meta_bytes + 1)"

definition op_meta_list :: "op \<Rightarrow> meta" where
  "op_meta_list p = (case op_meta p of Some m \<Rightarrow> m | None \<Rightarrow> [])"

definition meta_limit :: "op \<Rightarrow> int" where
  "meta_limit p = (if op_kind p = ''meta'' then max_item_meta_bytes else max_meta_bytes)"

definition op_fields :: "op \<Rightarrow> bool" where
  "op_fields p =
     (if op_kind p = ''put'' then valid_blob_ref (op_blob p) \<or> valid_staged_name (op_blob p)
      else if op_kind p = ''move'' then op_index p \<noteq> None
      else if op_kind p = ''rename'' then op_to p \<noteq> []
      else if op_kind p = ''copy'' then (case op_from p of None \<Rightarrow> False | Some s \<Rightarrow> cf_id s \<noteq> [] \<and> cf_path s \<noteq> [] \<and> cf_kind s = [])
      else if op_kind p = ''frame''
      then \<not> ((op_t p = None) = (\<not> op_auto p) \<or> (case op_t p of Some t \<Rightarrow> fl_less t (Finite 0) | None \<Rightarrow> False)) \<and>
        (case op_from p of None \<Rightarrow> True | Some s \<Rightarrow> cf_id s \<noteq> [] \<and> cf_path s \<noteq> [])
      else op_kind p \<in> {''edit'', ''remove'', ''attach'', ''meta'', ''regenerate''})"

definition validate_op :: "(meta \<Rightarrow> int option) \<Rightarrow> op \<Rightarrow> op_error option" where
  "validate_op marshal p =
     (let kind = op_kind p; put = (kind = ''put'')
      in if op_path p = [] \<and> kind \<notin> {''meta'', ''regenerate'', ''copy''} then Some (Refused CodeInvalid)
         else if \<not> op_fields p then Some (Refused CodeInvalid)
         else if op_edit p \<noteq> None \<and> kind \<notin> {''put'', ''edit'', ''copy'', ''frame''} then Some (Refused CodeInvalid)
         else if op_unattached p \<and> \<not> put then Some (Refused CodeInvalid)
         else if op_takedown p \<and> kind \<noteq> ''remove'' then Some (Refused CodeInvalid)
         else if op_create_id p \<noteq> [] \<and> (\<not> put \<or> \<not> layout_uuid (op_create_id p)) then Some (Refused CodeInvalid)
         else if op_replace p \<and> (\<not> put \<or> op_create_id p \<noteq> []) then Some (Refused CodeInvalid)
         else if meta_bytes marshal (op_meta_list p) > meta_limit p then Some (Refused CodeTooLarge)
         else if edit_check (op_edit p) 0 0 \<noteq> None then Some (Refused CodeInvalid)
         else None)"

section \<open>A run\<close>

record op_env =
  oe_nfc :: "string \<Rightarrow> string"
  oe_fold_eq :: "string \<Rightarrow> string \<Rightarrow> bool"
  oe_lower :: "rune \<Rightarrow> rune"
  oe_sha :: "string \<Rightarrow> 8 word list"
  oe_marshal :: "meta \<Rightarrow> int option"
  oe_kind :: registered_kind
  oe_ref :: content_ref
  oe_copies :: "nat \<Rightarrow> media_file list"
  oe_frames :: "nat \<Rightarrow> media_file option"
  oe_exempt :: bool
  oe_trusted :: bool
  oe_admission :: "(string \<Rightarrow> string \<Rightarrow> (string, source_admission) result) option"
  oe_archive_allowed :: "(string \<Rightarrow> string \<Rightarrow> op_error option) option"
  oe_authorize_path :: "(string \<Rightarrow> op_error option) option"

text \<open>What a run changes: the manifest, the renames so far, the paths removed and the objects checked.\<close>

record op_run =
  or_manifest :: manifest
  or_renames :: "(string \<times> string) list option"
  or_removed :: "string list"
  or_objects :: "(string \<times> string \<times> int) list"

type_synonym ran = "(op_error, op_run) result"

definition set_manifest :: "op_run \<Rightarrow> manifest \<Rightarrow> op_run" where
  "set_manifest s m = s\<lparr>or_manifest := m\<rparr>"

definition set_files :: "op_run \<Rightarrow> media_file list \<Rightarrow> op_run" where
  "set_files s fs = s\<lparr>or_manifest := (or_manifest s)\<lparr>mn_files := fs, mn_index := None\<rparr>\<rparr>"

definition files_of :: "op_run \<Rightarrow> media_file list" where
  "files_of s = mn_files (or_manifest s)"

definition place_of :: "op_run \<Rightarrow> string \<Rightarrow> nat option" where
  "place_of s path = fst (find_file (or_manifest s) path)"

definition group_of :: "op_env \<Rightarrow> string \<Rightarrow> nat option" where
  "group_of e path = map_option fst (upload_of (oe_nfc e) (oe_kind e) path)"

definition kind_presets :: "op_env \<Rightarrow> string \<Rightarrow> string list" where
  "kind_presets e path = presets (oe_nfc e) (oe_kind e) path False"

text \<open>\<open>Presets\<close> of a path without an upload is nil; with one, a list that may be empty is nil too.\<close>

definition pending_presets :: "op_env \<Rightarrow> string \<Rightarrow> string list option" where
  "pending_presets e path = (let ps = kind_presets e path in if ps = [] then None else Some ps)"

definition stem_of :: "string \<Rightarrow> string" where
  "stem_of path = fst (path_split_ext path)"

definition stem_place :: "op_run \<Rightarrow> string \<Rightarrow> nat option" where
  "stem_place s stem = index_where (\<lambda>f. is_upload f \<and> stem_of (mf_path f) = stem) (files_of s)"

definition group_count :: "op_env \<Rightarrow> op_run \<Rightarrow> nat \<Rightarrow> nat" where
  "group_count e s g = length (filter (\<lambda>f. is_upload f \<and> group_of e (mf_path f) = Some g) (files_of s))"

text \<open>\<open>insert\<close>: among the members of the group that are attached, or are not.\<close>

definition insert_place :: "op_env \<Rightarrow> media_file list \<Rightarrow> nat \<Rightarrow> media_file \<Rightarrow> int option \<Rightarrow> bool \<Rightarrow> nat" where
  "insert_place e fs g f index attached =
     (let members = filter (\<lambda>i. is_upload (fs ! i) \<and> group_of e (mf_path (fs ! i)) = Some g \<and> mf_unattached (fs ! i) \<noteq> attached) [0..<length fs];
          end_place = (if members = [] then length fs else last members + 1)
      in case index of
           Some n \<Rightarrow> (let n = nat (max n 0) in if n < length members then members ! n else end_place)
         | None \<Rightarrow>
             if members = [] then end_place
             else foldl (\<lambda>pos i. if nat_less (oe_lower e) (path_base (mf_path (fs ! i))) (path_base (mf_path f)) then i + 1 else pos)
               (hd members) members)"

definition insert_file :: "op_env \<Rightarrow> nat \<Rightarrow> media_file \<Rightarrow> int option \<Rightarrow> bool \<Rightarrow> op_run \<Rightarrow> op_run" where
  "insert_file e g f index attached s =
     (let fs = files_of s; pos = insert_place e fs g f index attached in set_files s (take pos fs @ f # drop pos fs))"

definition delete_at :: "nat \<Rightarrow> 'a list \<Rightarrow> 'a list" where
  "delete_at i xs = take i xs @ drop (Suc i) xs"

definition drop_uploads :: "string list \<Rightarrow> op_run \<Rightarrow> op_run" where
  "drop_uploads paths s =
     (if paths = [] then s
      else (set_files s (filter (\<lambda>f. \<not> (mf_path f \<in> set paths \<or> \<not> is_upload f \<and> mf_from f \<in> set paths)) (files_of s)))
        \<lparr>or_removed := or_removed s @ paths\<rparr>)"

definition drop_zips :: "op_env \<Rightarrow> string \<Rightarrow> op_run \<Rightarrow> op_run" where
  "drop_zips e path s =
     foldl (\<lambda>s z. if pr_zip z = [] \<or> \<not> has_prefix (pr_zip z) path \<and>
            \<not> list_ex (\<lambda>x. mf_from x = path \<and> has_prefix (pr_zip z) (mf_path x)) (files_of s) then s
        else s\<lparr>or_manifest := (or_manifest s)\<lparr>mn_files := filter (\<lambda>x. \<not> (mf_preset x = pr_name z \<and> mf_from x = pr_zip z)) (files_of s)\<rparr>\<rparr>)
       s (mk_private (oe_kind e))"

section \<open>Admission of archives\<close>

definition admit_source :: "op_env \<Rightarrow> op_run \<Rightarrow> media_file \<Rightarrow> nat option \<Rightarrow> (op_error, media_file) result" where
  "admit_source e s f previous =
     (let to = archive_destination (oe_nfc e) (oe_kind e) (mf_path f);
          prior = (case previous of
              None \<Rightarrow> None
            | Some i \<Rightarrow> if file_source (files_of s ! i) = file_source f then mf_admission (files_of s ! i) else None)
      in if to = [] then Inr f
         else (case prior of
             Some old \<Rightarrow>
               (case oe_admission e of
                  None \<Rightarrow> Inr (f\<lparr>mf_admission := Some old\<rparr>)
                | Some admit \<Rightarrow>
                    if oe_trusted e then Inr (f\<lparr>mf_admission := Some old\<rparr>)
                    else (case admit (mf_path f) to of
                        Inl err \<Rightarrow> Inl (HostError err)
                      | Inr fresh \<Rightarrow> Inr (f\<lparr>mf_admission := Some (if sa_owner fresh = sa_owner old
                          then fresh\<lparr>sa_generation := (if sa_generation old \<noteq> [] then sa_generation old else sa_generation fresh)\<rparr>
                          else old)\<rparr>)))
           | None \<Rightarrow>
               (case oe_admission e of
                  None \<Rightarrow> Inl NoAdmission
                | Some admit \<Rightarrow>
                    (case admit (mf_path f) to of
                       Inl err \<Rightarrow> Inl (HostError err)
                     | Inr a \<Rightarrow> if sa_enforce a \<and> sa_owner a = [] then Inl (Refused CodeForbidden)
                         else Inr (f\<lparr>mf_admission := Some a\<rparr>)))))"

text \<open>
  Attaching an upload attaches the pages of its archive first, one by one through the same
  operation. A chain of archives longer than the manifest repeats one and never ends.
\<close>

definition attach_meta :: "op_env \<Rightarrow> meta \<Rightarrow> media_file \<Rightarrow> (op_error, media_file) result" where
  "attach_meta e m f =
     (let f = f\<lparr>mf_unattached := False\<rparr>;
          merged = foldl (\<lambda>old (k, v). AList.update k v old) (mf_meta f) m
      in if m = [] then Inr f
         else if meta_bytes (oe_marshal e) merged > max_meta_bytes then Inl (Refused CodeTooLarge)
         else Inr (f\<lparr>mf_meta := merged\<rparr>))"

fun attach :: "nat \<Rightarrow> op_env \<Rightarrow> string \<Rightarrow> int option \<Rightarrow> meta \<Rightarrow> op_run \<Rightarrow> ran"
  and attach_batch :: "nat \<Rightarrow> op_env \<Rightarrow> media_file \<Rightarrow> op_run \<Rightarrow> ran" where
  "attach 0 e path index m s = Inl Endless"
| "attach (Suc n) e path index m s =
     (case place_of s path of
        None \<Rightarrow> Inl (Refused CodeNotFound)
      | Some i \<Rightarrow>
          (let f = files_of s ! i
           in if \<not> is_upload f then Inl (Refused CodeNotFound)
              else if \<not> mf_unattached f then Inr s
              else bindr (if archive_destination (oe_nfc e) (oe_kind e) (mf_path f) \<noteq> [] then attach_batch n e f s else Inr s) (\<lambda>s.
                bindr (attach_meta e m f) (\<lambda>f.
                  (case place_of s (mf_path f) of
                     None \<Rightarrow> Inl (HostError ''panic'')
                   | Some i \<Rightarrow>
                       (case group_of e (mf_path f) of
                          None \<Rightarrow> Inr (insert_file e (length (rk_patterns (oe_kind e))) f index True (set_files s (delete_at i (files_of s))))
                        | Some g \<Rightarrow> Inr (insert_file e g f index True (set_files s (delete_at i (files_of s))))))))))"
| "attach_batch n e source s =
     (let (target, digest) = archive_batch (oe_nfc e) (oe_kind e) source
      in if target = [] \<or> digest = [] then Inr s
         else (case oe_archive_allowed e of
             None \<Rightarrow> Inl (Refused CodeForbidden)
           | Some allowed \<Rightarrow>
               (case allowed (mf_path source) target of
                  Some err \<Rightarrow> Inl err
                | None \<Rightarrow> fold_result (\<lambda>path s. attach n e path None [] s)
                    (batch_paths (oe_nfc e) (oe_kind e) target digest (or_manifest s)) s)))"

section \<open>Placing an upload\<close>

definition regrab_file :: "op_env \<Rightarrow> string \<Rightarrow> media_file \<Rightarrow> media_file" where
  "regrab_file e video f =
     (case mf_frame f of
        None \<Rightarrow> f
      | Some fr \<Rightarrow>
          if \<not> is_upload f \<or> fm_from fr \<noteq> None then f
          else (case upload_decl_at (oe_nfc e) (oe_kind e) (mf_path f) of
              None \<Rightarrow> f
            | Some u \<Rightarrow>
                if up_frames u = video
                then f\<lparr>mf_blob := [], mf_w := 0, mf_h := 0, mf_size := 0, mf_failed := None,
                  mf_frame := Some \<lparr>fm_t = fm_t fr, fm_auto = fm_auto fr, fm_of = [], fm_from = None\<rparr>,
                  mf_pending := pending_presets e (mf_path f)\<rparr>
                else f))"

definition regrab :: "op_env \<Rightarrow> string \<Rightarrow> media_file list \<Rightarrow> media_file list" where
  "regrab e path fs = (case upload_decl_at (oe_nfc e) (oe_kind e) path of
     None \<Rightarrow> fs | Some u \<Rightarrow> map (regrab_file e (up_path u)) fs)"

definition retired_output :: "op_env \<Rightarrow> string \<Rightarrow> media_file \<Rightarrow> bool" where
  "retired_output e path f \<longleftrightarrow> \<not> is_upload f \<and> mf_from f = path \<and> find_private (mk_private (oe_kind e)) (mf_preset f) = None"

definition place :: "op_env \<Rightarrow> nat \<Rightarrow> nat option \<Rightarrow> media_file \<Rightarrow> int option \<Rightarrow> op_run \<Rightarrow> ran" where
  "place e g i f index s =
     bindr (admit_source e s f i) (\<lambda>f.
       (case i of
          None \<Rightarrow> Inr (insert_file e g f index (\<not> mf_unattached f) s)
        | Some i \<Rightarrow>
            (let old = files_of s ! i;
                 fs = map (\<lambda>x. if \<not> is_upload x \<and> mf_from x = mf_path old then x\<lparr>mf_from := mf_path f\<rparr> else x) ((files_of s)[i := f]);
                 fs = (if file_source old \<noteq> file_source f then filter (\<lambda>x. \<not> retired_output e (mf_path f) x) (regrab e (mf_path old) fs) else fs)
             in Inr (set_files s fs))))"

definition fit_upload_edit :: "op_env \<Rightarrow> edit option \<Rightarrow> media_file \<Rightarrow> (op_error, media_file) result" where
  "fit_upload_edit e ed f =
     (if \<not> is_image_type (mf_type f) then Inl (Refused CodeInvalid)
      else (case fit_edit (edit_bounds (oe_nfc e) (oe_kind e) (mf_path f)) ed (mf_w f) (mf_h f) of
          Inl (ImageTooSmall w least) \<Rightarrow> Inl (ImageRefused w least)
        | Inl _ \<Rightarrow> Inl (Refused CodeInvalid)
        | Inr fitted \<Rightarrow> Inr (f\<lparr>mf_edit := fitted\<rparr>)))"

definition allows :: "upload_decl \<Rightarrow> string \<Rightarrow> int \<Rightarrow> op_error option" where
  "allows u content_type bytes =
     (if content_type \<notin> set (up_types u) then Some (TypeRefused content_type (up_types u))
      else if bytes \<le> 0 \<or> bytes > up_max_bytes u then Some (SizeRefused content_type bytes (up_max_bytes u))
      else None)"

definition check :: "op_error option \<Rightarrow> (op_error, unit) result" where
  "check c = (case c of Some err \<Rightarrow> Inl err | None \<Rightarrow> Inr ())"

definition authorize_moved :: "op_env \<Rightarrow> bool \<Rightarrow> string \<Rightarrow> op_error option" where
  "authorize_moved e moved path = (if moved then (case oe_authorize_path e of Some auth \<Rightarrow> auth path | None \<Rightarrow> None) else None)"

definition valid_named :: "string \<Rightarrow> bool" where
  "valid_named name = (case cut_prefix ''i-'' name of None \<Rightarrow> False | Some i \<Rightarrow> uuid_text i)"

definition room :: "op_env \<Rightarrow> op_run \<Rightarrow> nat \<Rightarrow> op_error option" where
  "room e s g =
     (let limit = up_max (mk_uploads (oe_kind e) ! g)
      in if limit > 0 \<and> int (group_count e s g) \<ge> limit then Some (TooManyFiles limit) else None)"

definition blank_file :: media_file where
  "blank_file = \<lparr>mf_path = [], mf_blob = [], mf_type = [], mf_size = 0, mf_w = 0, mf_h = 0, mf_dur = Finite 0, mf_admission = None,
     mf_staged = [], mf_create_id = [], mf_edit = None, mf_frame = None, mf_meta = [], mf_unattached = False, mf_gone = False,
     mf_pending = None, mf_failed = None, mf_public = [], mf_editor = None, mf_from = [], mf_preset = [], mf_fp = [],
     mf_download = [], mf_track = None\<rparr>"

section \<open>Put\<close>

text \<open>The path, the source name and whether the name of a page was taken.\<close>

definition put_target :: "op_env \<Rightarrow> op \<Rightarrow> op_run \<Rightarrow> (string \<times> string \<times> bool) option" where
  "put_target e p s =
     (let nfc = oe_nfc e; k = oe_kind e; m = or_manifest s;
          source = (if op_source_name p = [] then op_path p else op_source_name p)
      in if \<not> is_page_upload nfc k (blank_file\<lparr>mf_path := op_path p\<rparr>) then Some (op_path p, source, False)
         else (let path = (if op_create_id p \<noteq> []
                 then (case List.find (\<lambda>f. is_page_upload nfc k f \<and> mf_create_id f = op_create_id p) (mn_files m) of
                     Some f \<Rightarrow> mf_path f | None \<Rightarrow> op_path p) else op_path p)
           in case stem_place s (stem_of path) of
                Some i \<Rightarrow>
                  (let old = mn_files m ! i;
                       source = (if op_source_name p = [] \<and> (op_create_id p = [] \<or> op_create_id p = mf_create_id old)
                         then source_name (mf_meta old) (mf_path old) else source);
                       collision = (\<not> op_replace p \<and> (source_name (mf_meta old) (mf_path old) \<noteq> source_name [] source \<or>
                         op_create_id p \<noteq> [] \<and> op_create_id p \<noteq> mf_create_id old))
                   in if collision then map_option (\<lambda>q. (q, source, True)) (next_page_path nfc (oe_fold_eq e) k m path)
                      else Some (path, source, False))
              | None \<Rightarrow>
                  if page_name_used nfc (oe_fold_eq e) k m (name_of nfc k path)
                  then map_option (\<lambda>q. (q, source, True)) (next_page_path nfc (oe_fold_eq e) k m path)
                  else Some (path, source, False)))"

text \<open>The metadata and times a put keeps of the upload it replaces.\<close>

definition keep_old :: "op_env \<Rightarrow> op \<Rightarrow> media_file \<Rightarrow> media_file \<Rightarrow> media_file" where
  "keep_old e p old f =
     (let same = (file_source old = file_source f);
          m = (if op_meta p = None then mf_meta old else mf_meta f);
          m = (if \<not> oe_trusted e then preserve_page_meta m (mf_meta old) else m);
          m = (if \<not> same then clear_archive_state m
            else if archive_destination (oe_nfc e) (oe_kind e) (mf_path f) \<noteq> []
            then foldl (\<lambda>m key. case map_of (mf_meta old) key of Some v \<Rightarrow> AList.update key v m | None \<Rightarrow> m) m archive_state_keys
            else m)
      in f\<lparr>mf_w := (if same then mf_w old else mf_w f), mf_h := (if same then mf_h old else mf_h f),
           mf_dur := (if same then mf_dur old else mf_dur f), mf_meta := m,
           mf_create_id := (if oe_trusted e \<and> op_create_id p = [] \<and> same then mf_create_id old else mf_create_id f),
           mf_unattached := (mf_unattached old \<and> op_unattached p)\<rparr>)"

text \<open>What a new upload says of its page and of its source.\<close>

definition source_meta :: "op_env \<Rightarrow> op \<Rightarrow> string \<Rightarrow> bool \<Rightarrow> bool \<Rightarrow> media_file \<Rightarrow> meta" where
  "source_meta e p source collision legacy f =
     (let name = name_of (oe_nfc e) (oe_kind e) (mf_path f);
          m = (if is_page_upload (oe_nfc e) (oe_kind e) f \<and> \<not> legacy
            then (let m = with_page_source (mf_meta f) name source in if collision then page_collision_meta m name else m) else mf_meta f);
          m = (if op_source_name p \<noteq> [] \<or> meta_get m ''source_name'' = JNull
            then AList.update ''source_name'' (JString (path_base (map (\<lambda>c. if c = CHR 92 then CHR ''/'' else c) source))) m else m)
      in if meta_get m ''auto_cover'' \<noteq> JNull then filter (\<lambda>(k, _). k \<noteq> ''auto_cover'') m else m)"

definition legacy_page :: "media_file \<Rightarrow> bool" where
  "legacy_page f = (case page_metadata (mf_meta f) of
     None \<Rightarrow> True | Some page \<Rightarrow> meta_get page ''schema_version'' = JNull \<and> meta_get page ''name'' = JNull)"

definition strip_pending :: "media_file \<Rightarrow> media_file" where
  "strip_pending f = f\<lparr>mf_pending := None, mf_failed := None\<rparr>"

lemma size_list_member: "x \<in> set xs \<Longrightarrow> f x < Suc (size_list f xs)"
  by (induction xs) auto

text \<open>\<open>reflect.DeepEqual\<close>: a map is equal whatever its order.\<close>

function json_equal :: "json \<Rightarrow> json \<Rightarrow> bool" where
  "json_equal a b =
     (case (a, b) of
        (JObject xs, JObject ys) \<Rightarrow> length xs = length ys \<and>
          list_all (\<lambda>x. case map_of ys (fst x) of Some w \<Rightarrow> json_equal (snd x) w | None \<Rightarrow> False) xs
      | (JList xs, JList ys) \<Rightarrow> length xs = length ys \<and> list_all (\<lambda>(x, y). json_equal x y) (zip xs ys)
      | _ \<Rightarrow> a = b)"
  by pat_completeness auto
termination
  by (relation "measure (\<lambda>(a, b). size a)") (auto dest!: set_zip_leftD dest: size_list_member [where f = size] size_list_member [where f = "size_prod (\<lambda>x. 0) size"])

declare json_equal.simps [simp del]

definition meta_equal :: "meta \<Rightarrow> meta \<Rightarrow> bool" where
  "meta_equal a b = json_equal (JObject a) (JObject b)"

definition same_file :: "media_file \<Rightarrow> media_file \<Rightarrow> bool" where
  "same_file a b \<longleftrightarrow> a\<lparr>mf_meta := []\<rparr> = b\<lparr>mf_meta := []\<rparr> \<and> meta_equal (mf_meta a) (mf_meta b)"

definition put_source :: "op_env \<Rightarrow> op \<Rightarrow> string \<Rightarrow> media_file \<Rightarrow> (op_error, media_file) result" where
  "put_source e p path f =
     (if valid_staged_name (op_blob p) then Inr (f\<lparr>mf_staged := op_blob p\<rparr>)
      else if (case split_blob_ref (op_blob p) of Some (a, _) \<Rightarrow> a \<noteq> kind_area (oe_kind e) [] | None \<Rightarrow> True) then Inl (Refused CodeInvalid)
      else Inr (f\<lparr>mf_blob := op_blob p\<rparr>))"

text \<open>The metadata of a put, its edit and its admission.\<close>

definition put_file ::
    "op_env \<Rightarrow> op \<Rightarrow> string \<Rightarrow> bool \<Rightarrow> nat \<Rightarrow> nat option \<Rightarrow> media_file \<Rightarrow> op_run \<Rightarrow> (op_error, media_file) result" where
  "put_file e p source collision g i f s =
     bindr (check (if i = None then room e s g else None)) (\<lambda>_.
       (let legacy = (case i of Some i \<Rightarrow> legacy_page (files_of s ! i) | None \<Rightarrow> False);
            f = (case i of Some i \<Rightarrow> keep_old e p (files_of s ! i) f | None \<Rightarrow> f);
            f = f\<lparr>mf_meta := source_meta e p source collision legacy f\<rparr>
        in if meta_bytes (oe_marshal e) (mf_meta f) > max_meta_bytes then Inl (Refused CodeTooLarge)
           else bindr (if op_edit p \<noteq> None then fit_upload_edit e (op_edit p) f else Inr f) (\<lambda>f. admit_source e s f i)))"

text \<open>
  The last steps of a put: an unchanged upload only takes the create id; else it is placed, the pages of
  the archive it replaces are dropped, and an attached archive attaches its own.
\<close>

definition put_place :: "op_env \<Rightarrow> op \<Rightarrow> nat \<Rightarrow> nat option \<Rightarrow> media_file \<Rightarrow> op_run \<Rightarrow> ran" where
  "put_place e p g i f s =
     (let k = oe_kind e;
          cancelled = (case i of
              Some i \<Rightarrow> if file_source (files_of s ! i) \<noteq> file_source f then cancelled_archive_pages (oe_nfc e) k (or_manifest s) (files_of s ! i) else []
            | None \<Rightarrow> []);
          old = map_option (\<lambda>i. (strip_pending (files_of s ! i))\<lparr>mf_create_id := mf_create_id f\<rparr>) i;
          f = (case old of Some old \<Rightarrow> if file_key (oe_sha e) old = file_key (oe_sha e) f then f\<lparr>mf_public := mf_public old\<rparr> else f | None \<Rightarrow> f)
      in case (i, old) of
           (Some i, Some old) \<Rightarrow>
             if same_file old f then Inr (set_manifest s ((or_manifest s)\<lparr>mn_files := (files_of s)[i := (files_of s ! i)\<lparr>mf_create_id := mf_create_id f\<rparr>]\<rparr>))
             else bindr (place e g (Some i) (f\<lparr>mf_pending := pending_presets e (mf_path f)\<rparr>) (op_index p) s) (\<lambda>s.
               (let s = drop_uploads cancelled s
                in if \<not> mf_unattached f \<and> archive_destination (oe_nfc e) k (mf_path f) \<noteq> []
                   then attach_batch (Suc (length (files_of s))) e (f\<lparr>mf_pending := pending_presets e (mf_path f)\<rparr>) s else Inr s))
         | _ \<Rightarrow> bindr (place e g i (f\<lparr>mf_pending := pending_presets e (mf_path f)\<rparr>) (op_index p) s) (\<lambda>s.
             if \<not> mf_unattached f \<and> archive_destination (oe_nfc e) k (mf_path f) \<noteq> []
             then attach_batch (Suc (length (files_of s))) e (f\<lparr>mf_pending := pending_presets e (mf_path f)\<rparr>) s else Inr s))"

definition put :: "op_env \<Rightarrow> op \<Rightarrow> op_run \<Rightarrow> ran" where
  "put e p s =
     (case put_target e p s of
        None \<Rightarrow> Inl Endless
      | Some (path, source, collision) \<Rightarrow>
          bindr (check (authorize_moved e (path \<noteq> op_path p) path)) (\<lambda>_.
            (case upload_of (oe_nfc e) (oe_kind e) path of
               None \<Rightarrow> Inl (Refused CodeNotFound)
             | Some (g, stem, name, ext) \<Rightarrow>
                 (let u = mk_uploads (oe_kind e) ! g
                  in if up_named u \<and> \<not> valid_named name then Inl (Refused CodeInvalid)
                     else (case map_of (or_objects s) (op_blob p) of
                         None \<Rightarrow> Inl (Refused CodeNotUploaded)
                       | Some (content_type, bytes) \<Rightarrow>
                           bindr (check (allows u content_type bytes)) (\<lambda>_.
                             (let ext = (if ext = [] then type_ext content_type else ext);
                                  f = blank_file\<lparr>mf_path := stem @ ''.'' @ ext, mf_type := content_type, mf_size := bytes,
                                    mf_meta := op_meta_list p, mf_unattached := op_unattached p, mf_create_id := op_create_id p\<rparr>;
                                  i = stem_place s stem
                              in bindr (put_source e p path f) (\<lambda>f.
                                   bindr (put_file e p source collision g i f s) (\<lambda>f. put_place e p g i f s)))))))))"

section \<open>Frames\<close>

definition frame_late :: "op \<Rightarrow> media_file \<Rightarrow> bool" where
  "frame_late p v \<longleftrightarrow> (case op_t p of Some t \<Rightarrow> fl_less (Finite 0) (mf_dur v) \<and> fl_less (mf_dur v) t | None \<Rightarrow> False)"

definition frame_video :: "op_env \<Rightarrow> media_file option \<Rightarrow> op \<Rightarrow> op_error option" where
  "frame_video e video p =
     (case video of
        None \<Rightarrow> Some (Refused CodeNotFound)
      | Some v \<Rightarrow>
          if \<not> is_upload v \<or> \<not> is_video_type (mf_type v) \<or> mf_gone v \<or> file_failure (oe_sha e) v \<noteq> None then Some (Refused CodeNotFound)
          else if mf_unattached v then Some (Refused CodeConflict)
          else if mf_blob v = [] then Some (Refused CodeConflict)
          else if frame_late p v then Some (Refused CodeInvalid)
          else None)"

definition upload_at :: "op_run \<Rightarrow> string \<Rightarrow> media_file option" where
  "upload_at s path =
     (case place_of s path of
        Some i \<Rightarrow> Some (files_of s ! i)
      | None \<Rightarrow> List.find (\<lambda>f. is_upload f \<and> stem_of (mf_path f) = path) (files_of s))"

definition place_frame :: "op_env \<Rightarrow> nat \<Rightarrow> string \<Rightarrow> op \<Rightarrow> frame \<Rightarrow> op_run \<Rightarrow> ran" where
  "place_frame e g stem p fr s =
     (let i = stem_place s stem; path = stem @ ''.png'';
          f = blank_file\<lparr>mf_path := path, mf_type := ''image/png'', mf_edit := edit_normalize (op_edit p),
            mf_frame := Some (case op_t p of Some t \<Rightarrow> fr\<lparr>fm_t := t\<rparr> | None \<Rightarrow> fr), mf_pending := pending_presets e path\<rparr>;
          f = (case i of Some i \<Rightarrow> f\<lparr>mf_meta := mf_meta (files_of s ! i), mf_unattached := mf_unattached (files_of s ! i)\<rparr> | None \<Rightarrow> f)
      in place e g i f None s)"

definition frame_op :: "op_env \<Rightarrow> nat \<Rightarrow> op \<Rightarrow> op_run \<Rightarrow> ran" where
  "frame_op e n p s =
     (let up = upload_of (oe_nfc e) (oe_kind e) (op_path p); fr = \<lparr>fm_t = Finite 0, fm_auto = op_auto p, fm_of = [], fm_from = None\<rparr>
      in case op_from p of
           Some src \<Rightarrow>
             (case up of
                None \<Rightarrow> Inl (Refused CodeType)
              | Some (g, stem, _) \<Rightarrow>
                  if ''image/png'' \<notin> set (up_types (mk_uploads (oe_kind e) ! g)) then Inl (Refused CodeType)
                  else (let (video, problem) = (case oe_frames e n of
                          Some v \<Rightarrow> (Some v, None)
                        | None \<Rightarrow> (let v = upload_at s (cf_path src) in (v, frame_video e v p)))
                    in bindr (check problem) (\<lambda>_.
                         (case video of
                            None \<Rightarrow> Inl (Refused CodeNotFound)
                          | Some v \<Rightarrow> place_frame e g stem p
                              (fr\<lparr>fm_from := Some \<lparr>cf_kind = (if cf_kind src \<noteq> [] then cf_kind src else mk_name (oe_kind e)), cf_id = cf_id src,
                                cf_version = cf_version src, cf_path = mf_path v\<rparr>\<rparr>) s))))
         | None \<Rightarrow>
             (case up of
                None \<Rightarrow> Inl (Refused CodeInvalid)
              | Some (g, stem, _) \<Rightarrow>
                  (let frames = up_frames (mk_uploads (oe_kind e) ! g)
                   in if frames = [] then Inl (Refused CodeInvalid)
                      else (case List.find (\<lambda>f. is_upload f \<and> stem_of (mf_path f) = frames) (rev (files_of s)) of
                          None \<Rightarrow> Inl (Refused CodeNotFound)
                        | Some v \<Rightarrow>
                            if mf_unattached v then Inl (Refused CodeConflict)
                            else if frame_late p v then Inl (Refused CodeInvalid)
                            else place_frame e g stem p fr s))))"

section \<open>Copy\<close>

definition copy_files :: "op_run \<Rightarrow> string \<Rightarrow> media_file list" where
  "copy_files s path =
     (case place_of s path of
        None \<Rightarrow> []
      | Some i \<Rightarrow>
          (let f = files_of s ! i
           in if \<not> is_upload f \<or> mf_blob f = [] then []
              else f # filter (\<lambda>x. \<not> is_upload x \<and> mf_from x = mf_path f) (files_of s)))"

definition same_item :: "op_env \<Rightarrow> op \<Rightarrow> bool" where
  "same_item e p \<longleftrightarrow> (case op_from p of Some c \<Rightarrow> cf_id c = content_id (oe_ref e) \<and> cf_version c = ref_version (oe_ref e) | None \<Rightarrow> False)"

definition auto_cover :: "meta \<Rightarrow> bool" where
  "auto_cover m \<longleftrightarrow> meta_get m ''auto_cover'' = JBool True"

definition copy_target :: "op_env \<Rightarrow> op \<Rightarrow> media_file \<Rightarrow> op_run \<Rightarrow> string option" where
  "copy_target e p f s =
     (let nfc = oe_nfc e; k = oe_kind e; to = (if op_to p = [] then mf_path f else op_to p)
      in if is_page_upload nfc k (blank_file\<lparr>mf_path := to\<rparr>) \<and>
           (stem_place s (stem_of to) \<noteq> None \<or> page_name_used nfc (oe_fold_eq e) k (or_manifest s) (name_of nfc k to))
         then next_page_path nfc (oe_fold_eq e) k (or_manifest s) to else Some to)"

definition copy_meta :: "op_env \<Rightarrow> op \<Rightarrow> media_file \<Rightarrow> string \<Rightarrow> meta" where
  "copy_meta e p f path =
     (let m = (case op_meta p of Some m \<Rightarrow> m | None \<Rightarrow>
            if meta_get (mf_meta f) ''auto_cover'' \<noteq> JNull then filter (\<lambda>(k, _). k \<noteq> ''auto_cover'') (mf_meta f) else mf_meta f);
          m = (if is_page_upload (oe_nfc e) (oe_kind e) (f\<lparr>mf_path := path\<rparr>) \<or> meta_get m ''page'' \<noteq> JNull
            then with_page_source (filter (\<lambda>(k, _). k \<noteq> ''page'') m) (name_of (oe_nfc e) (oe_kind e) path) (source_name m (mf_path f)) else m)
      in clear_archive_state m)"

text \<open>The copied upload, and whether its outputs come with it.\<close>

definition copy_file :: "op_env \<Rightarrow> op \<Rightarrow> nat \<Rightarrow> string \<Rightarrow> media_file \<Rightarrow> (op_error, media_file \<times> bool) result" where
  "copy_file e p g origin f =
     (let inner = (mk_versions (oe_kind e) \<and> same_item e p);
          fresh = (group_of e origin \<noteq> Some g \<or> op_edit p \<noteq> None);
          f1 = (if inner then f\<lparr>mf_pending := pending_presets e (mf_path f), mf_failed := None, mf_editor := None\<rparr> else f)
      in if mf_gone f \<and> (inner \<or> fresh) then Inl (Refused CodeNotFound)
         else if \<not> fresh then Inr (f1, \<not> inner)
         else (let f2 = f1\<lparr>mf_edit := None, mf_frame := None, mf_failed := None\<rparr>
           in bindr (if op_edit p \<noteq> None then fit_upload_edit e (op_edit p) f2 else Inr f2) (\<lambda>f3.
                Inr (f3\<lparr>mf_pending := pending_presets e (mf_path f)\<rparr>, False))))"

definition with_public_pending :: "op_env \<Rightarrow> media_file \<Rightarrow> media_file" where
  "with_public_pending e f =
     f\<lparr>mf_pending := foldl (\<lambda>pending p. case pending of
         None \<Rightarrow> Some [pp_name p]
       | Some ps \<Rightarrow> if pp_name p \<in> set ps then pending else Some (ps @ [pp_name p])) (mf_pending f)
       (public_for (oe_nfc e) (oe_kind e) (mf_path f))\<rparr>"

definition rebase :: "string \<Rightarrow> string \<Rightarrow> string \<Rightarrow> string" where
  "rebase p old new =
     (if has_suffix ''/'' old then (case cut_prefix old p of Some rest \<Rightarrow> new @ rest | None \<Rightarrow> p)
      else if p = old then new else p)"

definition rebase_output :: "op_env \<Rightarrow> string \<Rightarrow> string \<Rightarrow> media_file \<Rightarrow> media_file" where
  "rebase_output e old new x =
     x\<lparr>mf_from := new, mf_path := (case find_private (mk_private (oe_kind e)) (mf_preset x) of
         Some q \<Rightarrow> rebase (mf_path x) (output_path (oe_nfc e) (oe_kind e) q old) (output_path (oe_nfc e) (oe_kind e) q new)
       | None \<Rightarrow> mf_path x)\<rparr>"

definition copy_output :: "op_env \<Rightarrow> string \<Rightarrow> string \<Rightarrow> media_file \<Rightarrow> op_run \<Rightarrow> ran" where
  "copy_output e origin path x s =
     (let x = rebase_output e origin path x
      in if place_of s (mf_path x) \<noteq> None then Inl (Refused CodeConflict) else Inr (set_files s (files_of s @ [x])))"

definition copy_place :: "op_env \<Rightarrow> op \<Rightarrow> nat \<Rightarrow> string \<Rightarrow> string \<Rightarrow> media_file \<Rightarrow> media_file list \<Rightarrow> op_run \<Rightarrow> ran" where
  "copy_place e p g stem origin f outs s =
     (let i = stem_place s stem;
          cancelled = (case i of
              Some i \<Rightarrow> if file_source (files_of s ! i) \<noteq> file_source f
                then cancelled_archive_pages (oe_nfc e) (oe_kind e) (or_manifest s) (files_of s ! i) else []
            | None \<Rightarrow> [])
      in if auto_cover (op_meta_list p) \<and> (case i of Some i \<Rightarrow> \<not> auto_cover (mf_meta (files_of s ! i)) | None \<Rightarrow> False)
         then Inl (Refused CodeConflict)
         else bindr (check (if i = None then room e s g else None)) (\<lambda>_.
           (let s1 = (case i of
                Some i \<Rightarrow> set_files s (filter (\<lambda>x. \<not> (\<not> is_upload x \<and> mf_from x = mf_path (files_of s ! i))) (files_of s))
              | None \<Rightarrow> s)
            in bindr (place e g (if i = None then None else stem_place s1 stem) (with_public_pending e f) None s1) (\<lambda>s2.
                 fold_result (copy_output e origin (mf_path f)) outs (drop_uploads cancelled s2)))))"

definition copy_op :: "op_env \<Rightarrow> op \<Rightarrow> media_file list \<Rightarrow> op_run \<Rightarrow> ran" where
  "copy_op e p src s =
     (case src of
        [] \<Rightarrow> Inl (Refused CodeNotFound)
      | f0 # outs \<Rightarrow>
          (case copy_target e p f0 s of
             None \<Rightarrow> Inl Endless
           | Some to \<Rightarrow>
               bindr (check (authorize_moved e (to \<noteq> (if op_to p \<noteq> [] then op_to p else mf_path f0)) to)) (\<lambda>_.
                 (case upload_of (oe_nfc e) (oe_kind e) to of
                    None \<Rightarrow> Inl (Refused CodeInvalid)
                  | Some (g, stem, name, ext) \<Rightarrow>
                      (let u = mk_uploads (oe_kind e) ! g
                       in if up_named u \<and> \<not> valid_named name then Inl (Refused CodeInvalid)
                          else bindr (check (allows u (mf_type f0) (mf_size f0))) (\<lambda>_.
                            (let path = stem @ ''.'' @ (if ext = [] then snd (path_split_ext (mf_path f0)) else ext);
                                 f = f0\<lparr>mf_public := [], mf_admission := None, mf_path := path, mf_unattached := False, mf_create_id := [],
                                   mf_meta := copy_meta e p (f0\<lparr>mf_public := [], mf_admission := None\<rparr>) path\<rparr>
                             in bindr (admit_source e s f None) (\<lambda>f.
                                  if meta_bytes (oe_marshal e) (mf_meta f) > max_meta_bytes then Inl (Refused CodeTooLarge)
                                  else bindr (copy_file e p g (mf_path f0) f) (\<lambda>(f, whole).
                                    copy_place e p g stem (mf_path f0) f (if whole then outs else []) s)))))))))"

section \<open>Rename\<close>

definition rename_clash :: "op_env \<Rightarrow> media_file \<Rightarrow> string \<Rightarrow> op_run \<Rightarrow> bool" where
  "rename_clash e f to s \<longleftrightarrow>
     (let nfc = oe_nfc e; k = oe_kind e; name = name_of nfc k to
      in is_page_upload nfc k f \<and> list_ex (\<lambda>x. mf_path x \<noteq> mf_path f \<and> is_page_upload nfc k x \<and>
           (oe_fold_eq e (name_of nfc k (mf_path x)) name \<or>
            (case page_metadata (mf_meta x) of Some page \<Rightarrow>
               (case meta_string page ''name'' of Some prior \<Rightarrow> oe_fold_eq e prior name | None \<Rightarrow> False) | None \<Rightarrow> False))) (files_of s))"

definition renamed_page :: "op_env \<Rightarrow> string \<Rightarrow> media_file \<Rightarrow> media_file" where
  "renamed_page e to x =
     (let x = x\<lparr>mf_path := to\<rparr>
      in if is_page_upload (oe_nfc e) (oe_kind e) x
         then (case page_metadata (mf_meta x) of
             Some page \<Rightarrow> x\<lparr>mf_meta := AList.update ''page'' (JObject (AList.update ''name'' (JString (name_of (oe_nfc e) (oe_kind e) to)) page)) (mf_meta x)\<rparr>
           | None \<Rightarrow> x)
         else x)"

definition rename_file :: "op_env \<Rightarrow> string \<Rightarrow> string \<Rightarrow> media_file \<Rightarrow> media_file" where
  "rename_file e old to x =
     (if mf_path x = old then renamed_page e to x
      else if \<not> is_upload x \<and> mf_from x = old then rebase_output e old to x
      else if is_upload x \<and> meta_get (mf_meta x) ''for'' = JString old then x\<lparr>mf_meta := AList.update ''for'' (JString to) (mf_meta x)\<rparr>
      else x)"

definition record_rename :: "string \<Rightarrow> string \<Rightarrow> op_run \<Rightarrow> op_run" where
  "record_rename old to s =
     (let renames = (case or_renames s of
          Some r \<Rightarrow> r
        | None \<Rightarrow> foldl (\<lambda>r f. if is_upload f then AList.update (mf_path f) (mf_path f) r else r) [] (files_of s))
      in s\<lparr>or_renames := Some (map (\<lambda>(before, after). (before, if after = old then to else after)) renames)\<rparr>)"

definition rename :: "op_env \<Rightarrow> media_file \<Rightarrow> string \<Rightarrow> op_run \<Rightarrow> ran" where
  "rename e f to s =
     (case upload_of (oe_nfc e) (oe_kind e) to of
        None \<Rightarrow> Inl (Refused CodeInvalid)
      | Some (g, stem, _, ext) \<Rightarrow>
          (let to = stem @ ''.'' @ (if ext = [] then snd (path_split_ext (mf_path f)) else ext)
           in if group_of e (mf_path f) \<noteq> Some g then Inl (Refused CodeInvalid)
              else if to = mf_path f then Inr s
              else if stem_place s stem \<noteq> None then Inl (Refused CodeConflict)
              else if rename_clash e f to s then Inl (Refused CodeConflict)
              else if up_named (mk_uploads (oe_kind e) ! g) then Inl (Refused CodeInvalid)
              else (let s = record_rename (mf_path f) to s in Inr (set_files s (map (rename_file e (mf_path f) to) (files_of s))))))"

section \<open>One operation\<close>

definition regenerate_file :: "op_env \<Rightarrow> string \<Rightarrow> media_file \<Rightarrow> media_file" where
  "regenerate_file e preset f =
     (if \<not> is_upload f \<or> mf_gone f \<or> mf_blob f = [] \<and> mf_frame f = None \<or> file_failure (oe_sha e) f = None then f
      else if preset \<noteq> [] \<and> preset \<notin> set (kind_presets e (mf_path f)) then f
      else f\<lparr>mf_failed := None, mf_pending := pending_presets e (mf_path f)\<rparr>)"

definition takedown_frames :: "op_env \<Rightarrow> media_file \<Rightarrow> op_run \<Rightarrow> string list" where
  "takedown_frames e f s =
     map mf_path (filter (\<lambda>x. is_upload x \<and> (case mf_frame x of Some fr \<Rightarrow> fm_from fr = None | None \<Rightarrow> False) \<and>
       (case upload_decl_at (oe_nfc e) (oe_kind e) (mf_path x) of Some u \<Rightarrow> up_frames u = stem_of (mf_path f) | None \<Rightarrow> False)) (files_of s))"

definition remove_op :: "op_env \<Rightarrow> op \<Rightarrow> media_file \<Rightarrow> op_run \<Rightarrow> op_run" where
  "remove_op e p f s =
     (let gone = mf_path f # cancelled_archive_pages (oe_nfc e) (oe_kind e) (or_manifest s) f @ (if op_takedown p then takedown_frames e f s else []);
          s = (if op_takedown p then foldl (\<lambda>s path. drop_zips e path s) s gone else s)
      in drop_uploads gone s)"

definition edit_op :: "op_env \<Rightarrow> op \<Rightarrow> nat \<Rightarrow> op_run \<Rightarrow> ran" where
  "edit_op e p i s =
     (let f = files_of s ! i
      in bindr (fit_upload_edit e (op_edit p) f) (\<lambda>f'.
           if mf_edit f' = mf_edit f then Inr s
           else Inr (set_files s ((files_of s)[i := f'\<lparr>mf_pending := pending_presets e (mf_path f)\<rparr>]))))"

definition move_op :: "op_env \<Rightarrow> op \<Rightarrow> nat \<Rightarrow> op_run \<Rightarrow> op_run" where
  "move_op e p i s =
     (let f = files_of s ! i; g = (case group_of e (mf_path f) of Some g \<Rightarrow> g | None \<Rightarrow> length (rk_patterns (oe_kind e)))
      in insert_file e g f (op_index p) (\<not> mf_unattached f) (set_files s (delete_at i (files_of s))))"

text \<open>The operations on an upload the manifest has.\<close>

definition apply_upload :: "op_env \<Rightarrow> op \<Rightarrow> op_run \<Rightarrow> ran" where
  "apply_upload e p s =
     (case place_of s (op_path p) of
        None \<Rightarrow>
          if op_kind p = ''remove'' \<and> (op_takedown p \<and> oe_exempt e \<or> public_for (oe_nfc e) (oe_kind e) (op_path p) \<noteq> [])
          then Inr s else Inl (Refused CodeNotFound)
      | Some i \<Rightarrow>
          (let f = files_of s ! i
           in if \<not> is_upload f then Inl (Refused CodeNotFound)
              else if op_kind p = ''remove'' \<and> auto_cover (op_meta_list p) \<and> \<not> auto_cover (mf_meta f) then Inl (Refused CodeConflict)
              else if op_kind p = ''edit'' then edit_op e p i s
              else if op_kind p = ''move'' then Inr (move_op e p i s)
              else if op_kind p = ''attach'' then attach (length (files_of s) + 2) e (op_path p) (op_index p) (op_meta_list p) s
              else if op_kind p = ''remove'' then Inr (remove_op e p f s)
              else if op_kind p = ''rename'' then rename e f (op_to p) s
              else Inr (set_files s (files_of s))))"

definition apply_op :: "op_env \<Rightarrow> nat \<Rightarrow> op \<Rightarrow> op_run \<Rightarrow> ran" where
  "apply_op e n p s =
     (if op_kind p = ''meta'' then Inr (set_manifest s ((or_manifest s)\<lparr>mn_meta := op_meta_list p\<rparr>))
      else if op_kind p = ''regenerate''
      then if op_preset p \<noteq> [] \<and> find_private (mk_private (oe_kind e)) (op_preset p) = None \<and> find_public (mk_public (oe_kind e)) (op_preset p) = None
        then Inl (Refused CodeNotFound)
        else Inr (set_manifest s ((or_manifest s)\<lparr>mn_files := map (regenerate_file e (op_preset p)) (files_of s)\<rparr>))
      else if op_kind p = ''put'' then put e p s
      else if op_kind p = ''frame'' then frame_op e n p s
      else if op_kind p = ''copy'' then copy_op e p (if same_item e p then copy_files s (case op_from p of Some c \<Rightarrow> cf_path c | None \<Rightarrow> []) else oe_copies e n) s
      else apply_upload e p s)"

section \<open>The operations of a commit\<close>

text \<open>Whether a put with a create id is a retry.\<close>

definition op_created :: "op_env \<Rightarrow> op \<Rightarrow> op_run \<Rightarrow> (op_error, bool) result" where
  "op_created e p s =
     (let retry = (\<lambda>f. file_failure (oe_sha e) f = None \<or> file_source f = op_blob p)
      in if op_create_id p = [] then Inr False
         else if is_page_upload (oe_nfc e) (oe_kind e) (blank_file\<lparr>mf_path := op_path p\<rparr>)
         then Inr (case List.find (\<lambda>f. is_page_upload (oe_nfc e) (oe_kind e) f \<and> mf_create_id f = op_create_id p) (files_of s) of
           Some f \<Rightarrow> retry f | None \<Rightarrow> False)
         else (case stem_place s (stem_of (op_path p)) of
             None \<Rightarrow> Inr False
           | Some i \<Rightarrow> if mf_create_id (files_of s ! i) \<noteq> op_create_id p then Inl (Refused CodeConflict) else Inr (retry (files_of s ! i))))"

text \<open>\<open>verify\<close> checks an object in the bucket and answers its type and size.\<close>

definition commit_op :: "(string \<Rightarrow> (op_error, string \<times> int) result) \<Rightarrow> op_env \<Rightarrow> nat \<times> op \<Rightarrow> op_run \<Rightarrow> ran" where
  "commit_op verify e np s =
     (let (n, p) = np
      in if op_kind p \<noteq> ''put'' then apply_op e n p s
         else bindr (op_created e p s) (\<lambda>retry.
           if retry then Inr s
           else (case map_of (or_objects s) (op_blob p) of
               Some _ \<Rightarrow> apply_op e n p s
             | None \<Rightarrow> bindr (verify (op_blob p)) (\<lambda>obj. apply_op e n p (s\<lparr>or_objects := (op_blob p, obj) # or_objects s\<rparr>)))))"

definition max_uploads :: int where "max_uploads = 10000"

definition upload_count :: "op_run \<Rightarrow> int" where
  "upload_count s = int (length (filter is_upload (files_of s)))"

definition run_ops :: "(string \<Rightarrow> (op_error, string \<times> int) result) \<Rightarrow> op_env \<Rightarrow> op list \<Rightarrow> op_run \<Rightarrow> ran" where
  "run_ops verify e ops s =
     bindr (fold_result (commit_op verify e) (zip [0..<length ops] ops) s) (\<lambda>s'.
       if upload_count s' > max_uploads \<and> upload_count s' > upload_count s then Inl (TooManyFiles max_uploads) else Inr s')"

end
