(* ===== verification/Path_Props.thy ===== *)
theory Path_Props
  imports Media_Registry Download_Props
begin

text \<open>
  Clean names are one segment, a path is read as its stem and extension, and the natural order of
  names is a strict weak order.
\<close>

section \<open>Clean names\<close>

lemma concat_chunks: "concat (map snd (chunks bs)) = bs"
proof (induction bs rule: chunks.induct)
  case (1 bs)
  show ?case
  proof (cases "bs = []")
    case True
    then show ?thesis by (simp add: chunks.simps [of "[]"])
  next
    case False
    then show ?thesis using 1 by (simp add: chunks.simps [of bs] split: prod.splits)
  qed
qed

lemma chunk_text_chunks: "chunk_text (rune_chunks s) = s"
proof -
  have "map char_of (concat (map snd (chunks (map of_char s)))) = s"
    by (simp add: concat_chunks comp_def)
  then show ?thesis by (simp add: chunk_text_def rune_chunks_def)
qed

lemma slash_rune:
  assumes "decode_rune bs = (c, length bs)" "bs \<noteq> []" "47 \<in> set bs" "\<not> (c = rune_error \<and> length bs = 1)"
  shows "c = 47"
proof -
  obtain n lo hi where l: "utf8_lead (hd bs) = Some (n, lo, hi)"
    using assms(1,4) by (auto simp: decode_rune_def split: option.splits)
  then have lo: "n = 1 \<or> 128 \<le> lo \<and> 128 \<le> hd bs" by (auto simp: utf8_lead_def split: if_splits)
  show ?thesis
  proof (cases "n = 1")
    case True
    then show ?thesis using assms l by (cases bs) (auto simp: decode_rune_def)
  next
    case False
    then have n: "n = length bs" and tail: "\<not> bs ! 1 < lo" "list_all utf8_tail (drop 2 (take n bs))"
      using assms(1,4) l by (auto simp: decode_rune_def split: if_splits)
    have "128 \<le> hd bs" using False lo by simp
    moreover have "\<forall>b \<in> set (tl bs). 128 \<le> b"
    proof (cases bs)
      case (Cons a as)
      then show ?thesis
      proof (cases as)
        case second: (Cons b cs)
        have "128 \<le> b" using tail(1) lo False Cons second by auto
        moreover have "list_all utf8_tail cs" using tail(2) n Cons second by simp
        ultimately show ?thesis using Cons second by (auto simp: list_all_iff utf8_tail_def)
      qed simp
    qed (use assms in simp)
    ultimately have "\<forall>b \<in> set bs. 128 \<le> b" by (cases bs) auto
    then show ?thesis using assms(3) by fastforce
  qed
qed

lemma strip_dots_subset: "set (strip_dots s) \<subseteq> set s"
proof -
  have remove: "set (remove_dots t) \<subseteq> set t" for t by (induction t rule: remove_dots.induct) auto
  show ?thesis
  proof (induction s rule: strip_dots.induct)
    case (1 s)
    then show ?case using remove [of s] by (cases "has_dots s") (auto simp: strip_dots.simps [of s])
  qed
qed

lemma trim_space_subset: "set (trim_space s) \<subseteq> set s"
proof -
  obtain w v where "s = w @ trim_left space_runes s"
    "rev (trim_left space_runes s) = v @ trim_left (map rev space_runes) (rev (trim_left space_runes s))"
    using trim_left_suffix by meson
  then have "set s = set w \<union> set (trim_left space_runes s)"
    "set (trim_left space_runes s) = set v \<union> set (trim_left (map rev space_runes) (rev (trim_left space_runes s)))"
    by (metis set_append, metis set_append set_rev)
  then show ?thesis by (auto simp: trim_space_def)
qed

lemma fit_runes_prefix: "\<exists>ys. cs = fit_runes n cs @ ys"
  by (induction n cs rule: fit_runes.induct) (auto simp: Let_def)

lemma fit_runes_subset: "set (chunk_text (fit_runes n (rune_chunks s))) \<subseteq> set s"
proof -
  obtain ys where "rune_chunks s = fit_runes n (rune_chunks s) @ ys" using fit_runes_prefix by blast
  then have "s = chunk_text (fit_runes n (rune_chunks s)) @ chunk_text ys"
    using chunk_text_chunks [of s] by (metis chunk_text_def concat_append map_append)
  then show ?thesis by (metis Un_upper1 set_append)
qed

lemma clean_name_no_slash: "CHR ''/'' \<notin> set (clean_name nfc s)"
proof -
  define kept where "kept = filter (\<lambda>c. \<not> dropped_rune (fst c)) (rune_chunks (nfc s))"
  have bytes: "list_all (\<lambda>b. b < 256) (map of_char (nfc s) :: nat list)" by (simp add: list_all_iff)
  have no: "47 \<notin> set (snd x)" if "x \<in> set kept" for x
  proof
    assume slash: "47 \<in> set (snd x)"
    have x: "x \<in> set (chunks (map of_char (nfc s)))" "fst x \<noteq> 47" "fst x \<noteq> rune_error"
      using that by (auto simp: kept_def rune_chunks_def dropped_rune_def)
    then have "good_chunk x" using chunks_good [OF bytes] by (auto simp: list_all_iff)
    then have all: "\<forall>t. decode_rune (snd x @ t) = (fst x, length (snd x))" and ne: "snd x \<noteq> []"
      unfolding good_chunk_def by (auto split: prod.splits)
    from spec [OF all, of "[]"] have "decode_rune (snd x) = (fst x, length (snd x))" by simp
    then show False using slash_rune [of "snd x" "fst x"] ne slash x by simp
  qed
  have good: "list_all good_chunk kept"
    using chunks_good [OF bytes] by (auto simp: kept_def rune_chunks_def dropped_rune_def list_all_iff)
  have "CHR ''/'' \<notin> set (chunk_text kept)"
  proof
    assume "CHR ''/'' \<in> set (chunk_text kept)"
    then have "of_char (CHR ''/'') \<in> set (map of_char (chunk_text kept) :: nat list)" unfolding set_map by (rule imageI)
    then have "47 \<in> set (concat (map snd kept))" by (simp add: chunk_text_bytes [OF good])
    then show False using no by auto
  qed
  then have "CHR ''/'' \<notin> set (trim_space (strip_dots (chunk_text kept)))"
    using trim_space_subset strip_dots_subset by blast
  moreover have "set (clean_name nfc s) \<subseteq> set (trim_space (strip_dots (chunk_text kept)))"
    unfolding clean_name_def kept_def [symmetric] Let_def
    using trim_space_subset [THEN subset_trans, OF fit_runes_subset] by (simp del: length_0_conv)
  ultimately show ?thesis by blast
qed

section \<open>Stems\<close>

lemma last_index_append: "c \<notin> set b \<Longrightarrow> last_index c (a @ c # b) = Some (length a)"
  by (simp add: last_index_def)

lemma last_index_absent: "last_index c s = None \<longleftrightarrow> c \<notin> set s"
  using str_cut_None_iff [of c "rev s"] by (auto simp: last_index_def split: prod.splits option.splits)

lemma last_index_skip: "c \<notin> set b \<Longrightarrow> last_index c (a @ b) = last_index c a"
proof (cases "c \<in> set a")
  case True
  then obtain x y where "a = x @ c # y" "c \<notin> set y" by (meson split_list_last)
  then show "c \<notin> set b \<Longrightarrow> last_index c (a @ b) = last_index c a"
    using last_index_append [of c "y @ b" x] last_index_append [of c y x] by simp
next
  case False
  then show "c \<notin> set b \<Longrightarrow> last_index c (a @ b) = last_index c a"
    using last_index_absent [of c "a @ b"] last_index_absent [of c a] by simp
qed

definition good_ext :: "string \<Rightarrow> bool" where
  "good_ext e \<longleftrightarrow> e \<noteq> [] \<and> length e \<le> 10 \<and> list_all is_alnum e"

lemma good_ext_plain: "good_ext e \<Longrightarrow> CHR ''.'' \<notin> set e \<and> CHR ''/'' \<notin> set e"
  by (auto simp: good_ext_def list_all_iff is_alnum_def byte_classes char_le_iff)

lemma split_with_ext:
  assumes "good_ext e" "stem \<noteq> []" "last stem \<noteq> CHR ''/''"
  shows "fst (path_split_ext (stem @ ''.'' @ e)) = stem \<and> snd (path_split_ext (stem @ ''.'' @ e)) \<noteq> []"
proof -
  let ?p = "stem @ CHR ''.'' # e"
  note plain = good_ext_plain [OF assms(1)]
  have dot: "last_index (CHR ''.'') ?p = Some (length stem)" using plain by (simp add: last_index_append)
  have slash: "last_index (CHR ''/'') ?p = last_index (CHR ''/'') stem"
    using last_index_skip [of "CHR ''/''" "CHR ''.'' # e" stem] plain by simp
  have "\<not> length stem \<le> (case last_index (CHR ''/'') stem of None \<Rightarrow> 0 | Some s \<Rightarrow> s + 1)"
  proof (cases "CHR ''/'' \<in> set stem")
    case False
    then have "last_index (CHR ''/'') stem = None" by (simp add: last_index_absent)
    then show ?thesis using assms(2) by simp
  next
    case True
    then obtain x y where s: "stem = x @ CHR ''/'' # y" "CHR ''/'' \<notin> set y" by (meson split_list_last)
    then have "y \<noteq> []" using assms(3) by (cases y) auto
    then show ?thesis using s by (simp add: last_index_append)
  qed
  then show ?thesis
    using dot slash assms(1) by (simp add: path_split_ext_def good_ext_def)
qed

lemma split_ext_good: "snd (path_split_ext p) \<noteq> [] \<Longrightarrow> good_ext (snd (path_split_ext p))"
proof -
  have lower: "is_alnum (lower_byte c)" if "is_alnum c" for c
    using that by (auto simp: is_alnum_def lower_byte_def byte_classes char_le_iff)
  assume "snd (path_split_ext p) \<noteq> []"
  then obtain i where i: "last_index (CHR ''.'') p = Some i" "length p - i - 1 \<le> 10" "list_all is_alnum (drop (i + 1) p)"
    "snd (path_split_ext p) = map lower_byte (drop (i + 1) p)"
    by (auto simp: path_split_ext_def Let_def split: option.splits if_splits)
  then show ?thesis
    using \<open>snd (path_split_ext p) \<noteq> []\<close> lower by (auto simp: good_ext_def list_all_iff)
qed

lemma type_ext_good: "good_ext (type_ext t)"
proof (cases "map_of type_exts t")
  case (Some e)
  then have "(t, e) \<in> set type_exts" by (rule map_of_SomeD)
  then have "e \<in> set (map snd type_exts)" by force
  moreover have "list_all good_ext (map snd type_exts)" by code_simp
  ultimately show ?thesis using Some by (auto simp: type_ext_def list_all_iff)
next
  case None
  have bin: "good_ext ''bin''" by code_simp
  have "good_ext sub" if "valid_segment sub" "length sub \<le> 10" "list_all (\<lambda>c. c \<notin> {CHR ''.'', CHR ''-'', CHR ''_''}) sub" for sub
    using that by (auto simp: good_ext_def valid_segment_def list_all_iff seg_char_def is_alnum_def)
  then show ?thesis using None bin by (auto simp: type_ext_def split: prod.splits option.splits)
qed

section \<open>Patterns of a validated kind\<close>

lemma validated_patterns:
  "validate_kind nfc d = Inr k \<Longrightarrow> rk_patterns k = map (fst \<circ> parse_pattern \<circ> up_path) (mk_uploads k) \<and>
     (\<forall>u \<in> set (mk_uploads k). snd (parse_pattern (up_path u)))"
proof -
  assume "validate_kind nfc d = Inr k"
  then have ok: "list_all no_error (scan (\<lambda>before u. [map_option (UploadInvalid (up_path u)) (upload_problem before u)]) [] (mk_uploads d))"
    and k: "mk_uploads k = mk_uploads d" "rk_patterns k = map (fst \<circ> parse_pattern \<circ> up_path) (mk_uploads d)"
    unfolding validate_kind_def Let_def guard_Inr_iff by auto
  have "snd (parse_pattern (up_path u))" if u: "u \<in> set (mk_uploads d)" for u
  proof -
    obtain i where i: "i < length (mk_uploads d)" "mk_uploads d ! i = u" using u by (auto simp: in_set_conv_nth)
    have "map_option (UploadInvalid (up_path u)) (upload_problem ([] @ take i (mk_uploads d)) u) = None"
      using ok i unfolding scan_all_iff by (auto simp: no_error_def)
    then show ?thesis by (auto simp: upload_problem_def split: prod.splits if_splits)
  qed
  then show ?thesis using k by simp
qed

lemma split_on_trailing: "[] \<in> set (split_on (CHR ''/'') (xs @ ''/''))"
proof -
  have "split_on (CHR ''/'') (xs @ ''/'') = split_on (CHR ''/'') xs @ [[]]"
    by (induction xs) (auto split: list.splits)
  then show ?thesis by simp
qed

lemma literal_last:
  assumes "parse_pattern p = (q, True)" "pt_literal q \<noteq> []"
  shows "last (pt_literal q) \<noteq> CHR ''/''"
proof
  assume slash: "last (pt_literal q) = CHR ''/''"
  have q: "pt_literal q = p" "valid_dir (p @ ''/'')"
    using assms by (auto simp: parse_pattern_def Let_def split: if_splits)
  then have "p = butlast p @ ''/''" using assms(2) slash by (metis append_butlast_last_id)
  then have "split_on (CHR ''/'') p = split_on (CHR ''/'') (butlast p @ ''/'')" by simp
  moreover have "[] \<in> set (split_on (CHR ''/'') (xs @ ''/''))" for xs
    using split_on_trailing .
  ultimately have "[] \<in> set (split_on (CHR ''/'') p)" by metis
  moreover have "list_all valid_segment (split_on (CHR ''/'') p)"
    using q(2) by (simp add: valid_dir_def trim_suffix_append)
  ultimately show False by (auto simp: list_all_iff valid_segment_def)
qed

lemma matched_stem:
  assumes "parse_pattern p = (q, True)" "pattern_match nfc q stem = Some name"
  shows "stem \<noteq> [] \<and> last stem \<noteq> CHR ''/''"
proof (cases "pt_literal q = []")
  case True
  then obtain n where n: "stem = pt_dir q @ n" "n \<noteq> []" "clean_name nfc n = n"
    using assms(2) by (auto simp: pattern_match_def cut_prefix_Some split: option.splits if_splits)
  have "CHR ''/'' \<notin> set n" using clean_name_no_slash [of nfc n] n(3) by simp
  then have "last n \<noteq> CHR ''/''" using last_in_set [OF n(2)] by metis
  then show ?thesis using n(1,2) by simp
next
  case False
  then show ?thesis using assms literal_last [OF assms(1)] by (auto simp: pattern_match_def split: if_splits)
qed

end
