(* ===== verification/Ops_Slots.thy ===== *)
theory Ops_Slots
  imports Media_Ops Path_Props Manifest_Props "HOL-Library.Multiset"
begin

text \<open>
  What a commit keeps of a manifest. Seen from outside, a manifest is a collection of slots: the paths
  of its uploads without their extensions. Operations drop slots, add one where its group has room, or
  rename one inside its group; every run of the code is a run of these steps.
\<close>

section \<open>Slots\<close>

definition stem_group :: "op_env \<Rightarrow> string \<Rightarrow> nat option" where
  "stem_group e stem =
     (case match_at (oe_nfc e) (rk_patterns (oe_kind e)) True stem of
        Some (j, _) \<Rightarrow> Some j
      | None \<Rightarrow> map_option fst (match_at (oe_nfc e) (rk_patterns (oe_kind e)) False stem))"

definition stems :: "media_file list \<Rightarrow> string list" where
  "stems fs = map (stem_of \<circ> mf_path) (filter is_upload fs)"

definition slots :: "op_run \<Rightarrow> string multiset" where
  "slots s = mset (stems (files_of s))"

definition slot_room :: "op_env \<Rightarrow> string multiset \<Rightarrow> nat \<Rightarrow> bool" where
  "slot_room e T g \<longleftrightarrow>
     (let limit = up_max (mk_uploads (oe_kind e) ! g)
      in limit > 0 \<longrightarrow> int (size (filter_mset (\<lambda>t. stem_group e t = Some g) T)) < limit)"

text \<open>\<open>free\<close> lets a slot be added without room, as the grabs of frames do.\<close>

inductive slot_step :: "op_env \<Rightarrow> bool \<Rightarrow> string multiset \<Rightarrow> string multiset \<Rightarrow> bool" for e free where
  drop: "T' \<subseteq># T \<Longrightarrow> slot_step e free T T'"
| add: "t \<notin># T \<Longrightarrow> stem_group e t = Some g \<Longrightarrow> free \<or> slot_room e T g \<Longrightarrow> slot_step e free T (add_mset t T)"
| rename: "t \<in># T \<Longrightarrow> u \<notin># T \<Longrightarrow> stem_group e u = stem_group e t \<Longrightarrow> slot_step e free T (add_mset u (T - {#t#}))"

abbreviation slot_steps :: "op_env \<Rightarrow> bool \<Rightarrow> string multiset \<Rightarrow> string multiset \<Rightarrow> bool" where
  "slot_steps e free \<equiv> (slot_step e free)\<^sup>*\<^sup>*"

lemma slot_step_free: "slot_step e False T U \<Longrightarrow> slot_step e free T U"
  by (auto simp: slot_step.simps)

lemma slot_steps_free: "slot_steps e False T U \<Longrightarrow> slot_steps e free T U"
  by (rule mono_rtranclp [rule_format, of "slot_step e False"]) (rule slot_step_free)

lemma slot_steps_unique:
  assumes "slot_steps e free T U" "\<forall>t. count T t \<le> 1"
  shows "\<forall>t. count U t \<le> 1"
  using assms
proof (induction rule: rtranclp_induct)
  case (step U V)
  from step.hyps(2) show ?case
  proof cases
    case drop
    then show ?thesis using step.IH [OF step.prems] by (meson le_trans mset_subset_eq_count)
  next
    case (add t g)
    then show ?thesis using step.IH [OF step.prems] by (auto simp: not_in_iff)
  next
    case (rename t u)
    then show ?thesis using step.IH [OF step.prems] by (auto simp: not_in_iff)
  qed
qed simp

definition slot_count :: "op_env \<Rightarrow> nat \<Rightarrow> string multiset \<Rightarrow> nat" where
  "slot_count e g T = size (filter_mset (\<lambda>t. stem_group e t = Some g) T)"

lemma slot_steps_limits:
  assumes "slot_steps e False T U" "up_max (mk_uploads (oe_kind e) ! g) = n" "0 < n"
  shows "int (slot_count e g U) \<le> max n (int (slot_count e g T))"
  using assms(1)
proof (induction rule: rtranclp_induct)
  case (step U V)
  from step.hyps(2) show ?case
  proof cases
    case drop
    then have "slot_count e g V \<le> slot_count e g U"
      unfolding slot_count_def by (intro size_mset_mono filter_mset_mono_strong) auto
    then show ?thesis using step.IH by linarith
  next
    case (add t h)
    then show ?thesis using step.IH assms(2,3) by (auto simp: slot_count_def slot_room_def Let_def)
  next
    case (rename t u)
    then obtain R where R: "U = add_mset t R" by (metis multi_member_split)
    then have "slot_count e g V = slot_count e g U" using rename by (simp add: slot_count_def)
    then show ?thesis using step.IH by simp
  qed
qed simp

section \<open>Uploads and outputs\<close>

text \<open>An upload has an extension and a group; an output never lands on the path of an upload.\<close>

definition file_ok :: "op_env \<Rightarrow> media_file \<Rightarrow> bool" where
  "file_ok e f \<longleftrightarrow> (if is_upload f then snd (path_split_ext (mf_path f)) \<noteq> [] \<and> group_of e (mf_path f) \<noteq> None
     else group_of e (mf_path f) = None)"

definition files_ok :: "op_env \<Rightarrow> media_file list \<Rightarrow> bool" where
  "files_ok e fs \<longleftrightarrow> list_all (file_ok e) fs"

definition run_ok :: "op_env \<Rightarrow> op_run \<Rightarrow> bool" where
  "run_ok e s \<longleftrightarrow> files_ok e (files_of s) \<and> distinct (stems (files_of s))"

text \<open>What the host's kind and the other items give.\<close>

definition outputs_apart :: "op_env \<Rightarrow> bool" where
  "outputs_apart e \<longleftrightarrow> (\<forall>q \<in> set (mk_private (oe_kind e)). \<forall>path rest.
     group_of e (output_path (oe_nfc e) (oe_kind e) q path @ rest) = None)"

definition copies_ok :: "op_env \<Rightarrow> bool" where
  "copies_ok e \<longleftrightarrow> (\<forall>n. case oe_copies e n of
     [] \<Rightarrow> True
   | f # outs \<Rightarrow> is_upload f \<and> snd (path_split_ext (mf_path f)) \<noteq> [] \<and> list_all (\<lambda>x. \<not> is_upload x \<and> file_ok e x) outs)"

definition env_ok :: "op_env \<Rightarrow> bool" where
  "env_ok e \<longleftrightarrow> (\<exists>d. validate_kind (oe_nfc e) d = Inr (oe_kind e)) \<and> outputs_apart e \<and> copies_ok e"

text \<open>A run from \<open>s\<close> to \<open>s'\<close> that keeps the manifest well formed and is one of slots.\<close>

definition advance :: "op_env \<Rightarrow> bool \<Rightarrow> op_run \<Rightarrow> op_run \<Rightarrow> bool" where
  "advance e free s s' \<longleftrightarrow> (run_ok e s \<longrightarrow> files_ok e (files_of s') \<and> slot_steps e free (slots s) (slots s'))"

lemma run_ok_count: "run_ok e s \<longleftrightarrow> files_ok e (files_of s) \<and> (\<forall>t. count (slots s) t \<le> 1)"
proof -
  have "distinct xs \<longleftrightarrow> (\<forall>t. count (mset xs) t \<le> 1)" for xs :: "string list"
    by (auto simp: distinct_count_atmost_1 le_Suc_eq not_in_iff [symmetric] split: if_splits)
  then show ?thesis by (simp add: run_ok_def slots_def)
qed

lemma advance_ok: "advance e free s s' \<Longrightarrow> run_ok e s \<Longrightarrow> run_ok e s'"
  unfolding advance_def run_ok_count using slot_steps_unique by blast

lemma advance_refl [simp, intro]: "advance e free s s"
  by (auto simp: advance_def run_ok_def)

lemma advance_trans [trans]: "advance e free s t \<Longrightarrow> advance e free t u \<Longrightarrow> advance e free s u"
  using advance_ok unfolding advance_def by (meson rtranclp_trans)

lemma advance_free: "advance e False s t \<Longrightarrow> advance e free s t"
  unfolding advance_def using slot_steps_free by blast

lemma advance_fold:
  assumes "fold_result f xs s = Inr s'" "\<And>x s s'. x \<in> set xs \<Longrightarrow> f x s = Inr s' \<Longrightarrow> advance e free s s'"
  shows "advance e free s s'"
  using assms
proof (induction xs arbitrary: s)
  case (Cons x xs)
  then obtain t where "f x s = Inr t" "fold_result f xs t = Inr s'" by (auto simp: bindr_Inr_iff)
  then show ?case using Cons.IH [of t] Cons.prems(2) by (meson advance_trans list.set_intros)
qed simp

section \<open>Paths and groups\<close>

lemma group_of_stem: "group_of e path = stem_group e (stem_of path)"
  by (auto simp: group_of_def upload_of_def kind_upload_def stem_group_def stem_of_def option.map_comp comp_def case_prod_unfold Let_def
      split: option.splits)

lemma upload_of_parts:
  "upload_of nfc k path = Some (g, stem, name, ext) \<Longrightarrow> path_split_ext path = (stem, ext) \<and>
     (match_at nfc (rk_patterns k) True stem = Some (g, name) \<or> match_at nfc (rk_patterns k) False stem = Some (g, name))"
  by (auto simp: upload_of_def kind_upload_def split: prod.splits option.splits)

lemma match_at_pattern:
  assumes "match_at nfc ps l stem = Some (g, name)"
  shows "g < length ps \<and> pattern_match nfc (ps ! g) stem = Some name"
  using assms by (auto simp: match_at_def find_Some_iff split: option.splits)

lemma upload_of_place:
  assumes "validate_kind nfc d = Inr k" "upload_of nfc k path = Some (g, stem, name, ext)"
  shows "stem \<noteq> [] \<and> last stem \<noteq> CHR ''/'' \<and> (ext \<noteq> [] \<longrightarrow> good_ext ext)"
proof -
  have "g < length (rk_patterns k)" "pattern_match nfc (rk_patterns k ! g) stem = Some name" "path_split_ext path = (stem, ext)"
    using upload_of_parts [OF assms(2)] by (blast dest: match_at_pattern)+
  moreover from this(1) have "rk_patterns k ! g = fst (parse_pattern (up_path (mk_uploads k ! g)))" "snd (parse_pattern (up_path (mk_uploads k ! g)))"
    using validated_patterns [OF assms(1)] nth_mem [of g "mk_uploads k"] by simp_all
  then have "parse_pattern (up_path (mk_uploads k ! g)) = (rk_patterns k ! g, True)" by (cases "parse_pattern (up_path (mk_uploads k ! g))") simp
  from matched_stem [OF this \<open>pattern_match nfc (rk_patterns k ! g) stem = Some name\<close>]
  show ?thesis using split_ext_good [of path] \<open>path_split_ext path = (stem, ext)\<close> by auto
qed

lemma placed_path:
  assumes "env_ok e" "upload_of (oe_nfc e) (oe_kind e) path = Some (g, stem, name, ext)" "good_ext x"
  shows "stem_of (stem @ ''.'' @ x) = stem" "snd (path_split_ext (stem @ ''.'' @ x)) \<noteq> []"
    "stem_group e stem = Some g" "group_of e (stem @ ''.'' @ x) = Some g"
proof -
  obtain d where d: "validate_kind (oe_nfc e) d = Inr (oe_kind e)" using assms(1) by (auto simp: env_ok_def)
  note s = upload_of_place [OF d assms(2)]
  have "fst (path_split_ext (stem @ ''.'' @ x)) = stem \<and> snd (path_split_ext (stem @ ''.'' @ x)) \<noteq> []"
    using split_with_ext [OF assms(3)] s by blast
  then show a: "stem_of (stem @ ''.'' @ x) = stem" "snd (path_split_ext (stem @ ''.'' @ x)) \<noteq> []" by (auto simp: stem_of_def)
  have "group_of e path = Some g" using assms(2) by (simp add: group_of_def)
  then show b: "stem_group e stem = Some g"
    using upload_of_parts [OF assms(2)] by (simp add: group_of_stem stem_of_def)
  show "group_of e (stem @ ''.'' @ x) = Some g" by (simp only: group_of_stem a b)
qed

section \<open>Changes of the files\<close>

lemma files_of_set [simp]: "files_of (set_files s fs) = fs"
  by (simp add: files_of_def set_files_def)

lemma slots_set [simp]: "slots (set_files s fs) = mset (stems fs)"
  by (simp add: slots_def)

lemma stems_filter_outputs: "(\<And>f. f \<in> set fs \<Longrightarrow> is_upload f \<Longrightarrow> P f) \<Longrightarrow> stems (filter P fs) = stems fs"
  by (induction fs) (auto simp: stems_def)

lemma stems_mset: "mset (stems fs) = image_mset (stem_of \<circ> mf_path) (filter_mset is_upload (mset fs))"
  by (simp add: stems_def)

lemma stems_filter: "mset (stems (filter P fs)) \<subseteq># mset (stems fs)"
  unfolding stems_mset by (intro image_mset_subseteq_mono) (simp only: mset_filter multiset_filter_mono multiset_filter_subset)

lemma stems_map: "(\<And>f. f \<in> set fs \<Longrightarrow> is_upload (h f) = is_upload f \<and> (is_upload f \<longrightarrow> mf_path (h f) = mf_path f)) \<Longrightarrow>
   stems (map h fs) = stems fs"
  by (induction fs) (auto simp: stems_def)

lemma stems_update:
  assumes "i < length fs" "is_upload (fs ! i)" "is_upload f" "stem_of (mf_path f) = stem_of (mf_path (fs ! i))"
  shows "mset (stems (fs[i := f])) = mset (stems fs)"
proof -
  obtain R where R: "mset fs = add_mset (fs ! i) R" using assms(1) by (metis insert_DiffM nth_mem set_mset_mset)
  then have "mset (fs[i := f]) = add_mset f R" using assms(1) by (simp add: mset_update)
  then show ?thesis using R assms by (simp add: stems_mset)
qed

lemma mset_delete_at: "i < length fs \<Longrightarrow> mset fs = add_mset (fs ! i) (mset (delete_at i fs))"
  unfolding delete_at_def by (metis id_take_nth_drop mset_append union_mset_add_mset_right mset.simps(2))

lemma mset_insert_file: "mset (files_of (insert_file e g f index attached s)) = add_mset f (mset (files_of s))"
proof -
  have "mset (take n fs @ f # drop n fs) = add_mset f (mset fs)" for n and fs :: "media_file list"
    by (metis append_take_drop_id mset.simps(2) mset_append union_mset_add_mset_right)
  then show ?thesis by (simp add: insert_file_def Let_def)
qed

lemma files_ok_mset: "files_ok e fs \<longleftrightarrow> (\<forall>f \<in># mset fs. file_ok e f)"
  by (simp add: files_ok_def list_all_iff)

lemma files_ok_update: "files_ok e fs \<Longrightarrow> file_ok e f \<Longrightarrow> files_ok e (fs[i := f])"
  using set_update_subset_insert [of fs i f] by (auto simp: files_ok_def list_all_iff)

lemma files_ok_filter: "files_ok e fs \<Longrightarrow> files_ok e (filter P fs)"
  by (auto simp: files_ok_def list_all_iff)

lemma file_ok_same: "is_upload f' = is_upload f \<Longrightarrow> mf_path f' = mf_path f \<Longrightarrow> file_ok e f' = file_ok e f"
  by (simp add: file_ok_def)

lemma advance_same:
  assumes "\<And>f. f \<in> set (files_of s') \<Longrightarrow> run_ok e s \<Longrightarrow> file_ok e f" "slots s' \<subseteq># slots s"
  shows "advance e free s s'"
  unfolding advance_def using assms by (auto simp: files_ok_def list_all_iff intro: slot_step.drop)

lemma place_of_some: "place_of s path = Some i \<Longrightarrow> i < length (files_of s) \<and> mf_path (files_of s ! i) = path"
  by (auto simp: place_of_def find_file_def files_of_def Let_def dest: index_of_some split: option.splits if_splits)

lemma index_where_some: "index_where P xs = Some i \<Longrightarrow> i < length xs \<and> P (xs ! i)"
  by (auto simp: index_where_def find_Some_iff)

lemma index_where_none: "index_where P xs = None \<longleftrightarrow> (\<forall>x \<in> set xs. \<not> P x)"
  by (auto simp: index_where_def find_None_iff set_conv_nth)

lemma stem_place_some: "stem_place s stem = Some i \<Longrightarrow> i < length (files_of s) \<and> is_upload (files_of s ! i) \<and>
    stem_of (mf_path (files_of s ! i)) = stem"
  unfolding stem_place_def by (drule index_where_some) simp

lemma stem_place_none: "stem_place s stem = None \<longleftrightarrow> stem \<notin># slots s"
  unfolding stem_place_def index_where_none by (auto simp: slots_def stems_def)

lemma stems_member: "f \<in> set fs \<Longrightarrow> is_upload f \<Longrightarrow> stem_of (mf_path f) \<in># mset (stems fs)"
  by (auto simp: stems_def)

section \<open>The helpers of the operations\<close>

lemma advanceI: "(run_ok e s \<Longrightarrow> advance e free s s') \<Longrightarrow> advance e free s s'"
  by (auto simp: advance_def)

lemma advance_files: "files_of s' = files_of s \<Longrightarrow> advance e free s s'"
  by (auto simp: advance_def run_ok_def slots_def)

lemma advance_filter: "files_of s' = filter P (files_of s) \<Longrightarrow> advance e free s s'"
  by (rule advance_same) (auto simp: run_ok_def files_ok_def list_all_iff slots_def stems_filter)

lemma advance_map:
  assumes "files_of s' = map h (files_of s)" "\<And>f. is_upload (h f) = is_upload f" "\<And>f. is_upload f \<Longrightarrow> mf_path (h f) = mf_path f"
    and "\<And>f. run_ok e s \<Longrightarrow> f \<in> set (files_of s) \<Longrightarrow> \<not> is_upload f \<Longrightarrow> file_ok e (h f)"
  shows "advance e free s s'"
proof (rule advance_same)
  have "stems (map h (files_of s)) = stems (files_of s)" by (rule stems_map) (use assms(2,3) in auto)
  then show "slots s' \<subseteq># slots s" using assms(1) by (simp add: slots_def)
  fix f assume f: "f \<in> set (files_of s')" "run_ok e s"
  then obtain x where x: "f = h x" "x \<in> set (files_of s)" using assms(1) by auto
  show "file_ok e f"
  proof (cases "is_upload x")
    case True
    then have "file_ok e x" using x(2) f(2) by (simp add: run_ok_def files_ok_def list_all_iff)
    then show ?thesis using True assms(2,3) x(1) file_ok_same by blast
  next
    case False
    then show ?thesis using assms(4) f(2) x by simp
  qed
qed

lemma advance_update:
  assumes "files_of s' = (files_of s)[i := f]" "i < length (files_of s)" "is_upload (files_of s ! i)" "is_upload f"
    "mf_path f = mf_path (files_of s ! i)"
  shows "advance e free s s'"
proof (rule advance_same)
  show "slots s' \<subseteq># slots s" using assms stems_update [of i "files_of s" f] by (simp add: slots_def)
  fix x assume "x \<in> set (files_of s')" "run_ok e s"
  then show "file_ok e x"
    using assms files_ok_update [of e "files_of s" f i] file_ok_same [of f "files_of s ! i" e]
    by (auto simp: run_ok_def files_ok_def list_all_iff)
qed

lemma advance_reinsert:
  assumes "i < length (files_of s)" "is_upload (files_of s ! i)" "is_upload f" "mf_path f = mf_path (files_of s ! i)"
  shows "advance e free s (insert_file e g f index attached (set_files s (delete_at i (files_of s))))"
proof (rule advance_same)
  let ?s = "insert_file e g f index attached (set_files s (delete_at i (files_of s)))"
  have m: "mset (files_of ?s) = add_mset f (mset (delete_at i (files_of s)))"
    "mset (files_of s) = add_mset (files_of s ! i) (mset (delete_at i (files_of s)))"
    using mset_delete_at [OF assms(1)] by (simp_all add: mset_insert_file)
  show "slots ?s \<subseteq># slots s" unfolding slots_def stems_mset using m assms by simp
  fix x assume "x \<in> set (files_of ?s)" "run_ok e s"
  then have "x \<in># mset (files_of ?s)" "files_ok e (files_of s)" by (simp_all add: run_ok_def)
  then show "file_ok e x" unfolding m(1) files_ok_mset m(2)
    using assms file_ok_same [of f "files_of s ! i" e] by auto
qed

lemma admit_source_keeps: "admit_source e s f i = Inr f' \<Longrightarrow> \<exists>a. f' = f\<lparr>mf_admission := a\<rparr>"
  by (auto simp: admit_source_def Let_def split: if_splits option.splits sum.splits)
     (metis media_file.surjective media_file.update_convs(8))

lemma admit_source_path:
  "admit_source e s f i = Inr f' \<Longrightarrow> mf_path f' = mf_path f \<and> mf_preset f' = mf_preset f \<and> mf_unattached f' = mf_unattached f"
  by (auto dest!: admit_source_keeps)

lemma room_slots: "room e s g = None \<longleftrightarrow> slot_room e (slots s) g"
proof -
  have "size (filter_mset P (mset xs)) = length (filter P xs)" for P and xs :: "string list" by (simp flip: mset_filter)
  then have "group_count e s g = size (filter_mset (\<lambda>t. stem_group e t = Some g) (slots s))"
    unfolding slots_def by (simp add: group_count_def stems_def filter_map comp_def group_of_stem conj_commute del: mset_map)
  then show ?thesis by (auto simp: room_def slot_room_def Let_def)
qed

lemma drop_uploads_advance: "advance e free s (drop_uploads paths s)"
proof (cases "paths = []")
  case False
  then show ?thesis by (intro advance_filter) (simp add: drop_uploads_def files_of_def set_files_def)
qed (simp add: drop_uploads_def)

lemma foldl_advance: "(\<And>s x. advance e free s (h s x)) \<Longrightarrow> advance e free s (foldl h s xs)"
  by (induction xs arbitrary: s) (auto intro: advance_trans)

lemma drop_zips_advance: "advance e free s (drop_zips e path s)"
  unfolding drop_zips_def
proof (rule foldl_advance)
  fix s z
  let ?s = "s\<lparr>or_manifest := (or_manifest s)\<lparr>mn_files := filter (\<lambda>x. \<not> (mf_preset x = pr_name z \<and> mf_from x = pr_zip z)) (files_of s)\<rparr>\<rparr>"
  have "advance e free s ?s" by (rule advance_filter) (simp add: files_of_def)
  then show "advance e free s (if pr_zip z = [] \<or> \<not> has_prefix (pr_zip z) path \<and>
            \<not> list_ex (\<lambda>x. mf_from x = path \<and> has_prefix (pr_zip z) (mf_path x)) (files_of s) then s else ?s)" by simp
qed

lemma check_Inr [simp]: "check c = Inr u \<longleftrightarrow> c = None"
  by (simp add: check_def split: option.splits)

lemma retired_not_upload: "is_upload f \<Longrightarrow> \<not> retired_output e path f"
  by (simp add: retired_output_def)

lemma regrab_files: "\<exists>h. regrab e path fs = map h fs \<and> (\<forall>f. mf_path (h f) = mf_path f \<and> mf_preset (h f) = mf_preset f)"
proof (cases "upload_decl_at (oe_nfc e) (oe_kind e) path")
  case None
  then show ?thesis by (intro exI [of _ id]) (simp add: regrab_def)
next
  case (Some u)
  have "mf_path (regrab_file e v f) = mf_path f \<and> mf_preset (regrab_file e v f) = mf_preset f" for v f
    by (auto simp: regrab_file_def split: option.splits)
  then show ?thesis using Some by (intro exI [of _ "regrab_file e (up_path u)"]) (simp add: regrab_def)
qed

section \<open>Placing and attaching\<close>

lemma place_advance:
  assumes "place e g i f index s = Inr s'" "is_upload f" "file_ok e f" "mf_path f \<noteq> []" "stem_group e (stem_of (mf_path f)) = Some g"
    and "case i of
        None \<Rightarrow> stem_of (mf_path f) \<notin># slots s \<and> (free \<or> slot_room e (slots s) g)
      | Some j \<Rightarrow> j < length (files_of s) \<and> is_upload (files_of s ! j) \<and> stem_of (mf_path (files_of s ! j)) = stem_of (mf_path f)"
  shows "advance e free s s'"
proof -
  obtain f' where f': "admit_source e s f i = Inr f'" using assms(1) by (auto simp: place_def bindr_Inr_iff)
  then have p: "mf_path f' = mf_path f" "mf_preset f' = mf_preset f" using admit_source_path by blast+
  then have up: "is_upload f'" "file_ok e f'" using assms(2,3) file_ok_same [of f' f e] by (simp_all add: is_upload_def)
  show ?thesis
  proof (cases i)
    case None
    then have s': "mset (files_of s') = add_mset f' (mset (files_of s))"
      using assms(1) f' by (auto simp: place_def mset_insert_file)
    then have slots: "slots s' = add_mset (stem_of (mf_path f)) (slots s)" using up p by (simp add: slots_def stems_mset)
    have "slot_step e free (slots s) (slots s')" unfolding slots using assms(5,6) None by (intro slot_step.add) auto
    moreover have "run_ok e s \<Longrightarrow> files_ok e (files_of s')" using up(2) by (auto simp: run_ok_def files_ok_mset s')
    ultimately show ?thesis by (auto simp: advance_def)
  next
    case (Some j)
    then have j: "j < length (files_of s)" "is_upload (files_of s ! j)" "stem_of (mf_path (files_of s ! j)) = stem_of (mf_path f)"
      using assms(6) by auto
    define h where "h = (\<lambda>x. if \<not> is_upload x \<and> mf_from x = mf_path (files_of s ! j) then x\<lparr>mf_from := mf_path f'\<rparr> else x)"
    let ?fs = "map h ((files_of s)[j := f'])"
    have h: "mf_path (h x) = mf_path x \<and> mf_preset (h x) = mf_preset x" for x by (simp add: h_def)
    obtain r where r: "regrab e (mf_path (files_of s ! j)) ?fs = map r ?fs" "\<forall>x. mf_path (r x) = mf_path x \<and> mf_preset (r x) = mf_preset x"
      using regrab_files by blast
    obtain q P where s': "files_of s' = filter P (map q ((files_of s)[j := f']))" "\<forall>x. is_upload x \<longrightarrow> P x"
      "\<forall>x. mf_path (q x) = mf_path x \<and> mf_preset (q x) = mf_preset x"
    proof (cases "file_source (files_of s ! j) = file_source f'")
      case True
      then have "files_of s' = filter (\<lambda>x. True) (map h ((files_of s)[j := f']))"
        using assms(1) f' Some by (auto simp: place_def Let_def h_def)
      then show ?thesis using h that [of "\<lambda>x. True" h] by simp
    next
      case False
      then have "files_of s' = filter (\<lambda>x. \<not> retired_output e (mf_path f') x) (map r ?fs)"
        using assms(1) f' Some r(1) by (auto simp: place_def Let_def h_def)
      moreover have "map r ?fs = map (r \<circ> h) ((files_of s)[j := f'])" by simp
      ultimately have "files_of s' = filter (\<lambda>x. \<not> retired_output e (mf_path f') x) (map (r \<circ> h) ((files_of s)[j := f']))" by metis
      then show ?thesis using h r(2) retired_not_upload that [of "\<lambda>x. \<not> retired_output e (mf_path f') x" "r \<circ> h"] by simp
    qed
    have "stems (files_of s') = stems ((files_of s)[j := f'])"
      unfolding s'(1) using s'(2,3) by (subst stems_filter_outputs) (auto intro!: stems_map simp: is_upload_def)
    then have slots: "slots s' = slots s" using j up p stems_update [of j "files_of s" f'] by (simp add: slots_def)
    show ?thesis
    proof (rule advance_same)
      show "slots s' \<subseteq># slots s" by (simp add: slots)
      fix x assume x: "x \<in> set (files_of s')" "run_ok e s"
      then obtain y where y: "x = q y" "y \<in> set ((files_of s)[j := f'])" using s'(1) by auto
      have "files_ok e ((files_of s)[j := f'])" using x(2) up(2) files_ok_update by (auto simp: run_ok_def)
      then have "file_ok e y" using y(2) by (simp add: files_ok_def list_all_iff)
      then show "file_ok e x" using file_ok_same [of x y e] y(1) s'(3) by (simp add: is_upload_def)
    qed
  qed
qed

lemma attach_meta_path: "attach_meta e m f = Inr f' \<Longrightarrow> mf_path f' = mf_path f \<and> mf_preset f' = mf_preset f"
  by (auto simp: attach_meta_def Let_def split: if_splits)

lemma attach_advance:
  "attach n e path index m s = Inr s' \<Longrightarrow> advance e free s s'"
  "attach_batch n e source s = Inr s' \<Longrightarrow> advance e free s s'"
proof (induction n e path index m s and n e source s arbitrary: s' and s' rule: attach_attach_batch.induct)
  case (2 n e path index m s)
  obtain i where i: "place_of s path = Some i" using "2.prems" by (auto split: option.splits)
  let ?f = "files_of s ! i"
  note at = place_of_some [OF i]
  show ?case
  proof (cases "is_upload ?f \<and> mf_unattached ?f")
    case False
    then show ?thesis using "2.prems" i by (auto simp: Let_def split: if_splits)
  next
    case up: True
    then obtain t f' where t: "(if archive_destination (oe_nfc e) (oe_kind e) (mf_path ?f) \<noteq> [] then attach_batch n e ?f s else Inr s) = Inr t"
      "attach_meta e m ?f = Inr f'" "place_of t (mf_path f') \<noteq> None"
      using "2.prems" i by (auto simp: Let_def bindr_Inr_iff split: option.splits)
    obtain j where j: "place_of t (mf_path f') = Some j" using t(3) by blast
    have s': "\<exists>g. s' = insert_file e g f' index True (set_files t (delete_at j (files_of t)))"
      using "2.prems" i up t(1,2) j by (auto simp: Let_def split: option.splits)
    have batch: "advance e free s t"
      using "2.IH" [OF i refl] up t(1) by (cases "archive_destination (oe_nfc e) (oe_kind e) (mf_path ?f) = []") auto
    note f' = attach_meta_path [OF t(2)]
    show ?thesis
    proof (rule advanceI)
      assume ok: "run_ok e s"
      then have "group_of e (mf_path ?f) \<noteq> None"
        using up at by (auto simp: run_ok_def files_ok_def list_all_iff file_ok_def dest: bspec [OF _ nth_mem])
      then have "group_of e (mf_path (files_of t ! j)) \<noteq> None" using place_of_some [OF j] f' by simp
      moreover have "file_ok e (files_of t ! j)"
        using advance_ok [OF batch ok] place_of_some [OF j] by (simp add: run_ok_def files_ok_def list_all_iff)
      ultimately have "is_upload (files_of t ! j)" by (auto simp: file_ok_def split: if_splits)
      then have "advance e free t s'"
        using s' advance_reinsert [of j t f' e free] place_of_some [OF j] f' up by (auto simp: is_upload_def)
      then show "advance e free s s'" using batch advance_trans by blast
    qed
  qed
next
  case (3 n e source s)
  show ?case
    using "3.prems" "3.IH" by (auto simp: Let_def split: prod.splits if_splits option.splits intro: advance_fold)
qed simp

end
