(* ===== verification/Ops_Props.thy ===== *)
theory Ops_Props
  imports Ops_Slots
begin

text \<open>
  Every operation of a commit is a run of slot steps that keeps the manifest well formed; from it
  follow what a commit and a rename guarantee.
\<close>

section \<open>The operations\<close>

lemma fit_upload_edit_path: "fit_upload_edit e ed f = Inr f' \<Longrightarrow> mf_path f' = mf_path f \<and> mf_preset f' = mf_preset f"
  by (auto simp: fit_upload_edit_def split: if_splits sum.splits edit_error.splits)

text \<open>An upload at a place of its own: what \<open>put\<close>, \<open>frame\<close> and \<open>copy\<close> hand to \<open>place\<close>.\<close>

definition fits_place :: "op_env \<Rightarrow> bool \<Rightarrow> op_run \<Rightarrow> nat \<Rightarrow> nat option \<Rightarrow> media_file \<Rightarrow> bool" where
  "fits_place e free s g i f \<longleftrightarrow> is_upload f \<and> file_ok e f \<and> mf_path f \<noteq> [] \<and> stem_group e (stem_of (mf_path f)) = Some g \<and>
     i = stem_place s (stem_of (mf_path f)) \<and> (i = None \<longrightarrow> free \<or> slot_room e (slots s) g)"

lemma fits_place_same: "mf_path f' = mf_path f \<Longrightarrow> mf_preset f' = mf_preset f \<Longrightarrow> fits_place e free s g i f' = fits_place e free s g i f"
  by (simp add: fits_place_def is_upload_def file_ok_def)

lemma place_fits: "fits_place e free s g i f \<Longrightarrow> place e g i f index s = Inr s' \<Longrightarrow> advance e free s s'"
  unfolding fits_place_def
  by (elim conjE, rule place_advance) (auto split: option.splits dest: stem_place_some simp: stem_place_none [symmetric])

lemma placed_fits:
  assumes "env_ok e" "upload_of (oe_nfc e) (oe_kind e) path = Some (g, stem, name, ext)" "good_ext x"
    and "mf_path f = stem @ ''.'' @ x" "is_upload f" "i = stem_place s stem" "i = None \<Longrightarrow> free \<or> slot_room e (slots s) g"
  shows "fits_place e free s g i f"
  using placed_path [OF assms(1-3)] assms(4-) by (simp add: fits_place_def file_ok_def)

lemma attach_after:
  "(if c then attach_batch n e f s else Inr s) = Inr s' \<Longrightarrow> advance e free s s'"
  by (auto split: if_splits intro: attach_advance)

lemma put_place_advance:
  assumes "fits_place e free s g i f" "put_place e p g i f s = Inr s'"
  shows "advance e free s s'"
proof (cases i)
  case None
  let ?f = "f\<lparr>mf_pending := pending_presets e (mf_path f)\<rparr>"
  obtain t where t: "place e g i ?f (op_index p) s = Inr t"
    "(if \<not> mf_unattached f \<and> archive_destination (oe_nfc e) (oe_kind e) (mf_path f) \<noteq> [] then attach_batch (Suc (length (files_of t))) e ?f t else Inr t) = Inr s'"
    using assms(2) unfolding put_place_def Let_def None option.case option.map prod.case bindr_Inr_iff by blast
  have "fits_place e free s g i ?f" using assms(1) by (subst fits_place_same) simp_all
  then show ?thesis using place_fits [OF _ t(1)] attach_after [OF t(2)] advance_trans by blast
next
  case (Some j)
  define old where "old = (strip_pending (files_of s ! j))\<lparr>mf_create_id := mf_create_id f\<rparr>"
  define f1 where "f1 = (if file_key (oe_sha e) old = file_key (oe_sha e) f then f\<lparr>mf_public := mf_public old\<rparr> else f)"
  let ?f = "f1\<lparr>mf_pending := pending_presets e (mf_path f1)\<rparr>"
  have f1: "mf_path f1 = mf_path f" "mf_preset f1 = mf_preset f" by (simp_all add: f1_def)
  show ?thesis
  proof (cases "same_file old f1")
    case True
    then have "s' = set_manifest s ((or_manifest s)\<lparr>mn_files := (files_of s)[j := (files_of s ! j)\<lparr>mf_create_id := mf_create_id f1\<rparr>]\<rparr>)"
      using assms(2) Some by (simp add: put_place_def Let_def old_def f1_def split: if_splits)
    then have s': "files_of s' = (files_of s)[j := (files_of s ! j)\<lparr>mf_create_id := mf_create_id f1\<rparr>]"
      by (simp add: files_of_def set_manifest_def)
    have "stem_place s (stem_of (mf_path f)) = Some j" using assms(1) Some by (simp add: fits_place_def)
    then show ?thesis using advance_update [OF s'] by (auto dest!: stem_place_some simp: is_upload_def)
  next
    case False
    obtain t cancelled where t: "place e g (Some j) ?f (op_index p) s = Inr t"
      "(if \<not> mf_unattached f1 \<and> archive_destination (oe_nfc e) (oe_kind e) (mf_path f1) \<noteq> []
        then attach_batch (Suc (length (files_of (drop_uploads cancelled t)))) e ?f (drop_uploads cancelled t) else Inr (drop_uploads cancelled t)) = Inr s'"
      using assms(2) unfolding put_place_def Let_def Some option.map option.case prod.case old_def [symmetric] f1_def [symmetric]
        if_not_P [OF False] bindr_Inr_iff by blast
    have "fits_place e free s g (Some j) ?f" using assms(1) f1 Some by (subst fits_place_same) simp_all
    then have "advance e free s t" using place_fits t(1) by blast
    also have "advance e free t (drop_uploads cancelled t)" by (rule drop_uploads_advance)
    also have "advance e free (drop_uploads cancelled t) s'" by (rule attach_after [OF t(2)])
    finally show ?thesis .
  qed
qed

lemma keep_old_path [simp]: "mf_path (keep_old e p old f) = mf_path f \<and> mf_preset (keep_old e p old f) = mf_preset f"
  by (simp add: keep_old_def Let_def)

lemma put_source_path: "put_source e p path f = Inr f' \<Longrightarrow> mf_path f' = mf_path f \<and> mf_preset f' = mf_preset f"
  by (auto simp: put_source_def split: if_splits)

lemma put_file_keeps:
  assumes "put_file e p source collision g i f s = Inr f'"
  shows "mf_path f' = mf_path f \<and> mf_preset f' = mf_preset f \<and> (i = None \<longrightarrow> slot_room e (slots s) g)"
proof -
  define f1 where "f1 = (case i of Some i \<Rightarrow> keep_old e p (files_of s ! i) f | None \<Rightarrow> f)"
  define m where "m = source_meta e p source collision (case i of Some i \<Rightarrow> legacy_page (files_of s ! i) | None \<Rightarrow> False) f1"
  obtain f2 where f2: "(if i = None then room e s g else None) = None"
    "(if op_edit p \<noteq> None then fit_upload_edit e (op_edit p) (f1\<lparr>mf_meta := m\<rparr>) else Inr (f1\<lparr>mf_meta := m\<rparr>)) = Inr f2"
    "admit_source e s f2 i = Inr f'"
    using assms by (auto simp: put_file_def Let_def bindr_Inr_iff f1_def m_def split: if_splits)
  have "mf_path f1 = mf_path f \<and> mf_preset f1 = mf_preset f" by (simp add: f1_def split: option.splits)
  moreover have "mf_path f2 = mf_path f1 \<and> mf_preset f2 = mf_preset f1"
    using f2(2) by (auto dest: fit_upload_edit_path split: if_splits)
  ultimately show ?thesis using f2(1) admit_source_path [OF f2(3)] room_slots by (auto split: if_splits)
qed

lemma put_advance:
  assumes "env_ok e" "put e p s = Inr s'"
  shows "advance e free s s'"
proof -
  let ?file = "\<lambda>stem ext ct bytes. blank_file\<lparr>mf_path := stem @ ''.'' @ (if ext = [] then type_ext ct else ext), mf_type := ct,
      mf_size := bytes, mf_meta := op_meta_list p, mf_unattached := op_unattached p, mf_create_id := op_create_id p\<rparr>"
  obtain path source collision where path: "put_target e p s = Some (path, source, collision)"
    using assms(2) by (auto simp: put_def split: option.splits)
  obtain g stem name ext where u: "upload_of (oe_nfc e) (oe_kind e) path = Some (g, stem, name, ext)"
    using assms(2) by (auto simp: put_def path bindr_Inr_iff split: option.splits)
  obtain ct bytes where obj: "map_of (or_objects s) (op_blob p) = Some (ct, bytes)"
    using assms(2) by (auto simp: put_def path u bindr_Inr_iff Let_def split: option.splits if_splits)
  obtain f1 f2 where f: "put_source e p path (?file stem ext ct bytes) = Inr f1" "put_file e p source collision g (stem_place s stem) f1 s = Inr f2"
    "put_place e p g (stem_place s stem) f2 s = Inr s'"
    using assms(2) by (auto simp: put_def path u obj bindr_Inr_iff Let_def split: if_splits)
  obtain d where "validate_kind (oe_nfc e) d = Inr (oe_kind e)" using assms(1) by (auto simp: env_ok_def)
  then have "good_ext (if ext = [] then type_ext ct else ext)" using upload_of_place [OF _ u] type_ext_good by simp
  then have "fits_place e free s g (stem_place s stem) f2"
    using put_source_path [OF f(1)] put_file_keeps [OF f(2)]
    by (intro placed_fits [OF assms(1) u]) (simp_all add: is_upload_def blank_file_def)
  then show ?thesis using put_place_advance f(3) by blast
qed

lemma png_ext: "good_ext ''png''"
  by code_simp

lemma place_frame_advance:
  assumes "env_ok e" "upload_of (oe_nfc e) (oe_kind e) path = Some (g, stem, name, ext)" "place_frame e g stem p fr s = Inr s'"
  shows "advance e True s s'"
proof -
  obtain f where f: "place e g (stem_place s stem) f None s = Inr s'" "mf_path f = stem @ ''.'' @ ''png''" "is_upload f"
    using assms(3) by (cases "stem_place s stem") (auto simp: place_frame_def Let_def is_upload_def blank_file_def)
  have "fits_place e True s g (stem_place s stem) f" by (rule placed_fits [OF assms(1,2) png_ext f(2,3)]) simp_all
  then show ?thesis using place_fits f(1) by blast
qed

lemma frame_op_advance: "env_ok e \<Longrightarrow> frame_op e n p s = Inr s' \<Longrightarrow> advance e True s s'"
  unfolding frame_op_def Let_def
  by (auto simp: bindr_Inr_iff split: option.splits prod.splits if_splits intro: place_frame_advance)

definition source_ok :: "op_env \<Rightarrow> media_file list \<Rightarrow> bool" where
  "source_ok e src = (case src of [] \<Rightarrow> True
   | f # outs \<Rightarrow> is_upload f \<and> snd (path_split_ext (mf_path f)) \<noteq> [] \<and> list_all (\<lambda>x. \<not> is_upload x \<and> file_ok e x) outs)"

lemma copies_source: "copies_ok e \<Longrightarrow> source_ok e (oe_copies e n)"
  unfolding copies_ok_def source_ok_def by (erule spec)

lemma copy_files_source:
  assumes "run_ok e s"
  shows "source_ok e (copy_files s path)"
proof (cases "place_of s path")
  case (Some i)
  have all: "\<And>x. x \<in> set (files_of s) \<Longrightarrow> file_ok e x" using assms by (simp add: run_ok_def files_ok_def list_all_iff)
  show ?thesis
  proof (cases "\<not> is_upload (files_of s ! i) \<or> mf_blob (files_of s ! i) = []")
    case False
    then have "file_ok e (files_of s ! i)" using all place_of_some [OF Some] by simp
    then have "snd (path_split_ext (mf_path (files_of s ! i))) \<noteq> []" using False by (simp add: file_ok_def)
    then show ?thesis using False Some all by (auto simp: copy_files_def source_ok_def list_all_iff Let_def)
  qed (auto simp: copy_files_def Some source_ok_def)
qed (simp add: copy_files_def source_ok_def)

lemma rebase_cases: "rebase p old new = p \<or> (\<exists>rest. rebase p old new = new @ rest)"
  by (auto simp: rebase_def split: option.splits)

lemma rebase_output_ok:
  assumes "env_ok e" "\<not> is_upload x" "file_ok e x"
  shows "\<not> is_upload (rebase_output e old new x) \<and> file_ok e (rebase_output e old new x)"
proof -
  have out: "\<not> is_upload (rebase_output e old new x)" using assms(2) by (simp add: rebase_output_def is_upload_def)
  have "group_of e (mf_path (rebase_output e old new x)) = None"
  proof (cases "find_private (mk_private (oe_kind e)) (mf_preset x)")
    case None
    then show ?thesis using assms(2,3) by (simp add: rebase_output_def file_ok_def)
  next
    case (Some q)
    then have "q \<in> set (mk_private (oe_kind e))" by (auto simp: find_private_def find_Some_iff)
    then have "group_of e (output_path (oe_nfc e) (oe_kind e) q new @ rest) = None" for rest
      using assms(1) by (simp add: env_ok_def outputs_apart_def)
    then show ?thesis
      using assms(2,3) Some rebase_cases [of "mf_path x" "output_path (oe_nfc e) (oe_kind e) q old" "output_path (oe_nfc e) (oe_kind e) q new"]
      by (auto simp: rebase_output_def file_ok_def)
  qed
  then show ?thesis using out by (simp add: file_ok_def)
qed

lemma copy_output_advance:
  assumes "env_ok e" "\<not> is_upload x" "file_ok e x" "copy_output e origin path x s = Inr s'"
  shows "advance e free s s'"
proof (rule advance_same)
  note r = rebase_output_ok [OF assms(1-3), of origin path]
  have s': "files_of s' = files_of s @ [rebase_output e origin path x]"
    using assms(4) by (auto simp: copy_output_def Let_def split: if_splits)
  show "slots s' \<subseteq># slots s" using r by (simp add: slots_def stems_def s')
  fix f assume "f \<in> set (files_of s')" "run_ok e s"
  then show "file_ok e f" using r by (auto simp: s' run_ok_def files_ok_def list_all_iff)
qed

lemma copy_file_path: "copy_file e p g origin f = Inr (f', w) \<Longrightarrow> mf_path f' = mf_path f \<and> mf_preset f' = mf_preset f"
  unfolding copy_file_def Let_def by (auto simp: bindr_Inr_iff dest!: fit_upload_edit_path split: if_splits)

lemma copy_place_advance:
  assumes "env_ok e" "list_all (\<lambda>x. \<not> is_upload x \<and> file_ok e x) outs" "copy_place e p g stem origin f outs s = Inr s'"
    and f: "mf_path f = stem @ ''.'' @ x" "good_ext x" "is_upload f" "upload_of (oe_nfc e) (oe_kind e) to = Some (g, stem, name, ext)"
  shows "advance e free s s'"
proof -
  let ?i = "stem_place s stem" let ?f = "with_public_pending e f"
  define s1 where "s1 = (case ?i of Some i \<Rightarrow> set_files s (filter (\<lambda>x. \<not> (\<not> is_upload x \<and> mf_from x = mf_path (files_of s ! i))) (files_of s)) | None \<Rightarrow> s)"
  obtain t cancelled where t: "(if ?i = None then room e s g else None) = None"
    "place e g (if ?i = None then None else stem_place s1 stem) ?f None s1 = Inr t"
    "fold_result (copy_output e origin (mf_path f)) outs (drop_uploads cancelled t) = Inr s'"
    using assms(3) unfolding copy_place_def Let_def s1_def by (auto simp: bindr_Inr_iff split: if_splits)
  have slots: "slots s1 = slots s" unfolding s1_def by (auto simp: slots_def stems_filter_outputs split: option.splits)
  have "(if ?i = None then None else stem_place s1 stem) = stem_place s1 stem" using stem_place_none [of s stem] stem_place_none [of s1 stem] slots by auto
  moreover have "fits_place e free s1 g (stem_place s1 stem) ?f"
  proof (rule placed_fits [OF assms(1) f(4,2)])
    assume "stem_place s1 stem = None"
    then have "?i = None" using stem_place_none [of s stem] stem_place_none [of s1 stem] slots by simp
    then show "free \<or> slot_room e (slots s1) g" using t(1) slots by (simp add: room_slots)
  qed (use f(1,3) in \<open>simp_all add: with_public_pending_def is_upload_def\<close>)
  ultimately have "advance e free s1 t" using place_fits t(2) by simp
  moreover have "advance e free s s1" unfolding s1_def by (auto split: option.splits intro: advance_filter)
  moreover have "advance e free t (drop_uploads cancelled t)" by (rule drop_uploads_advance)
  moreover have "advance e free (drop_uploads cancelled t) s'"
    by (rule advance_fold [OF t(3)]) (use assms(1,2) copy_output_advance in \<open>auto simp: list_all_iff\<close>)
  ultimately show ?thesis using advance_trans by meson
qed

lemma copy_op_advance:
  assumes "env_ok e" "source_ok e src" "copy_op e p src s = Inr s'"
  shows "advance e free s s'"
proof -
  obtain f0 outs where src: "src = f0 # outs" using assms(3) by (cases src) (auto simp: copy_op_def)
  then have f0: "is_upload f0" "snd (path_split_ext (mf_path f0)) \<noteq> []" "list_all (\<lambda>x. \<not> is_upload x \<and> file_ok e x) outs"
    using assms(2) by (simp_all add: source_ok_def)
  obtain to where to: "copy_target e p f0 s = Some to" using assms(3) by (auto simp: copy_op_def src split: option.splits)
  obtain g stem name ext where u: "upload_of (oe_nfc e) (oe_kind e) to = Some (g, stem, name, ext)"
    using assms(3) by (auto simp: copy_op_def src to bindr_Inr_iff split: option.splits)
  let ?x = "if ext = [] then snd (path_split_ext (mf_path f0)) else ext"
  let ?f = "f0\<lparr>mf_public := [], mf_admission := None, mf_path := stem @ ''.'' @ ?x, mf_unattached := False, mf_create_id := [],
      mf_meta := copy_meta e p (f0\<lparr>mf_public := [], mf_admission := None\<rparr>) (stem @ ''.'' @ ?x)\<rparr>"
  obtain f1 f2 whole where f: "admit_source e s ?f None = Inr f1" "copy_file e p g (mf_path f0) f1 = Inr (f2, whole)"
    "copy_place e p g stem (mf_path f0) f2 (if whole then outs else []) s = Inr s'"
    using assms(3) by (auto simp: copy_op_def src to u bindr_Inr_iff Let_def split: if_splits)
  obtain d where "validate_kind (oe_nfc e) d = Inr (oe_kind e)" using assms(1) by (auto simp: env_ok_def)
  then have ext: "good_ext ?x" using upload_of_place [OF _ u] split_ext_good [OF f0(2)] by simp
  have "list_all (\<lambda>x. \<not> is_upload x \<and> file_ok e x) (if whole then outs else [])" using f0(3) by simp
  moreover have "mf_path f2 = stem @ ''.'' @ ?x" "is_upload f2"
    using admit_source_path [OF f(1)] copy_file_path [OF f(2)] f0(1) by (simp_all add: is_upload_def)
  ultimately show ?thesis using copy_place_advance [OF assms(1) _ f(3) _ ext _ u] by blast
qed

section \<open>Rename\<close>

lemma rename_file_cases:
  assumes "mf_path x \<noteq> old"
  shows "rename_file e old to x = x \<or> \<not> is_upload x \<and> rename_file e old to x = rebase_output e old to x \<or>
    is_upload x \<and> mf_path (rename_file e old to x) = mf_path x \<and> mf_preset (rename_file e old to x) = mf_preset x"
  using assms by (cases "is_upload x") (auto simp: rename_file_def is_upload_def)

lemma renamed_page_path: "mf_path (renamed_page e to x) = to \<and> mf_preset (renamed_page e to x) = mf_preset x"
  by (auto simp: renamed_page_def Let_def split: option.splits)

lemma unique_path:
  assumes "run_ok e s" "i < length (files_of s)" "is_upload (files_of s ! i)" "j < length (files_of s)"
    "mf_path (files_of s ! j) = mf_path (files_of s ! i)"
  shows "j = i"
proof (rule ccontr)
  assume ne: "j \<noteq> i"
  let ?fs = "files_of s"
  have ok: "file_ok e (?fs ! i)" "file_ok e (?fs ! j)" using assms(1,2,4) by (auto simp: run_ok_def files_ok_def list_all_iff)
  then have up: "is_upload (?fs ! j)" using assms(3,5) by (auto simp: file_ok_def split: if_splits)
  have R: "mset ?fs = add_mset (?fs ! i) (mset (delete_at i ?fs))" using mset_delete_at [OF assms(2)] .
  have "?fs ! j \<in> set (delete_at i ?fs)"
  proof (cases "j < i")
    case True
    then have "?fs ! j \<in> set (take i ?fs)" using assms(2) by (auto simp: in_set_conv_nth intro!: exI [of _ j])
    then show ?thesis by (simp add: delete_at_def)
  next
    case False
    then have "?fs ! j = drop (Suc i) ?fs ! (j - Suc i)" "j - Suc i < length (drop (Suc i) ?fs)" using ne assms(4) by auto
    then have "?fs ! j \<in> set (drop (Suc i) ?fs)" using nth_mem by metis
    then show ?thesis by (simp add: delete_at_def)
  qed
  then have "stem_of (mf_path (?fs ! i)) \<in># mset (stems (delete_at i ?fs))" using stems_member [OF _ up] assms(5) by simp
  moreover have "slots s = add_mset (stem_of (mf_path (?fs ! i))) (mset (stems (delete_at i ?fs)))"
    unfolding slots_def stems_mset R using assms(3) by (simp only: filter_mset_add_mset if_True image_mset_add_mset comp_apply)
  ultimately have "2 \<le> count (slots s) (stem_of (mf_path (?fs ! i)))" by (simp add: Suc_le_eq)
  then show False using assms(1) unfolding run_ok_count by (metis One_nat_def Suc_1 not_less_eq_eq)
qed

lemma record_rename_files [simp]: "files_of (record_rename old to s) = files_of s"
  by (simp add: record_rename_def files_of_def)

lemma rename_files:
  assumes "rename e f to s = Inr s'"
  shows "files_of s' = files_of s \<or> (\<exists>g stem name ext x.
     upload_of (oe_nfc e) (oe_kind e) to = Some (g, stem, name, ext) \<and> x = (if ext = [] then snd (path_split_ext (mf_path f)) else ext) \<and>
     group_of e (mf_path f) = Some g \<and> stem_place s stem = None \<and>
     files_of s' = map (rename_file e (mf_path f) (stem @ ''.'' @ x)) (files_of s))"
proof -
  obtain g stem name ext where u: "upload_of (oe_nfc e) (oe_kind e) to = Some (g, stem, name, ext)"
    using assms by (auto simp: rename_def split: option.splits)
  define x where "x = (if ext = [] then snd (path_split_ext (mf_path f)) else ext)"
  show ?thesis
  proof (cases "stem @ ''.'' @ x = mf_path f")
    case True
    then show ?thesis using assms unfolding rename_def u x_def by (auto simp: Let_def split: if_splits)
  next
    case False
    then have "group_of e (mf_path f) = Some g \<and> stem_place s stem = None \<and>
        files_of s' = map (rename_file e (mf_path f) (stem @ ''.'' @ x)) (files_of s)"
      using assms unfolding rename_def u option.case prod.case Let_def x_def [symmetric] by (simp split: if_splits) auto
    then show ?thesis using u x_def by blast
  qed
qed

lemma renamed_files:
  assumes "env_ok e" "run_ok e s" "i < length (files_of s)" "is_upload (files_of s ! i)" "files_of s ! i = f"
    and to: "stem_of to = stem" "snd (path_split_ext to) \<noteq> []" "group_of e to = Some g" "group_of e (mf_path f) = Some g" "stem \<notin># slots s"
    and s': "files_of s' = map (rename_file e (mf_path f) to) (files_of s)"
  shows "files_ok e (files_of s') \<and> slots s' = add_mset stem (slots s - {#stem_of (mf_path f)#})"
proof -
  let ?h = "rename_file e (mf_path f) to" and ?R = "delete_at i (files_of s)"
  have R: "mset (files_of s) = add_mset f (mset ?R)" using mset_delete_at [OF assms(3)] assms(5) by simp
  have other: "mf_path x \<noteq> mf_path f" if x: "x \<in> set ?R" for x
  proof
    assume same: "mf_path x = mf_path f"
    have "x \<in> set (take i (files_of s)) \<or> x \<in> set (drop (Suc i) (files_of s))" using x by (simp add: delete_at_def)
    then obtain j where "j < length (files_of s)" "j \<noteq> i" "files_of s ! j = x"
    proof (elim disjE)
      assume "x \<in> set (take i (files_of s))"
      then obtain j where "j < i" "files_of s ! j = x" using assms(3) by (auto simp: in_set_conv_nth)
      then show thesis using that [of j] assms(3) by simp
    next
      assume "x \<in> set (drop (Suc i) (files_of s))"
      then obtain j where "j < length (files_of s) - Suc i" "files_of s ! (Suc i + j) = x" by (auto simp: in_set_conv_nth)
      then show thesis using that [of "Suc i + j"] by simp
    qed
    then show False using unique_path [OF assms(2-4)] same assms(5) by auto
  qed
  have up: "is_upload f" using assms(4,5) by simp
  have f': "mf_path (?h f) = to" "is_upload (?h f)" using renamed_page_path up by (auto simp: rename_file_def is_upload_def)
  have ok: "file_ok e x" if "x \<in> set ?R" for x
    using assms(2) that R unfolding run_ok_def files_ok_mset by (metis set_mset_mset union_single_eq_member insert_iff set_mset_add_mset_insert)
  have kept: "file_ok e (?h x) \<and> is_upload (?h x) = is_upload x \<and> (is_upload x \<longrightarrow> mf_path (?h x) = mf_path x)" if x: "x \<in> set ?R" for x
    using rename_file_cases [OF other [OF x], of e to]
  proof (elim disjE conjE)
    assume "?h x = x"
    then show ?thesis using ok [OF x] by simp
  next
    assume r: "\<not> is_upload x" "?h x = rebase_output e (mf_path f) to x"
    then show ?thesis using rebase_output_ok [OF assms(1) r(1) ok [OF x], of "mf_path f" to] by simp
  next
    assume r: "is_upload x" "mf_path (?h x) = mf_path x" "mf_preset (?h x) = mf_preset x"
    then show ?thesis using ok [OF x] file_ok_same [of "?h x" x e] by (simp add: is_upload_def)
  qed
  have m: "mset (files_of s') = add_mset (?h f) (mset (map ?h ?R))" using R by (simp add: s')
  have "stems (map ?h ?R) = stems ?R" by (rule stems_map) (use kept in blast)
  then have slots: "slots s' = add_mset stem (mset (stems ?R))"
    unfolding slots_def stems_mset [of "files_of s'"] m using f' to(1) by (simp add: stems_mset [symmetric] del: mset_map)
  have "slots s = add_mset (stem_of (mf_path f)) (mset (stems ?R))" unfolding slots_def stems_mset R using up by simp
  then have "slots s' = add_mset stem (slots s - {#stem_of (mf_path f)#})" using slots by simp
  moreover have "file_ok e (?h f)" using f' to by (simp add: file_ok_def)
  then have "files_ok e (files_of s')" unfolding files_ok_mset m using kept by auto
  ultimately show ?thesis by blast
qed

lemma rename_advance:
  assumes "env_ok e" "i < length (files_of s)" "is_upload (files_of s ! i)" "rename e (files_of s ! i) to s = Inr s'"
  shows "advance e free s s'"
proof (rule advanceI)
  assume ok: "run_ok e s"
  let ?f = "files_of s ! i"
  show "advance e free s s'"
    using rename_files [OF assms(4)]
  proof (elim disjE exE conjE)
    assume "files_of s' = files_of s"
    then show ?thesis by (rule advance_files)
  next
    fix g stem name ext x
    assume r: "upload_of (oe_nfc e) (oe_kind e) to = Some (g, stem, name, ext)" "x = (if ext = [] then snd (path_split_ext (mf_path ?f)) else ext)"
      "group_of e (mf_path ?f) = Some g" "stem_place s stem = None" "files_of s' = map (rename_file e (mf_path ?f) (stem @ ''.'' @ x)) (files_of s)"
    have "file_ok e ?f" using ok assms(2) by (auto simp: run_ok_def files_ok_def list_all_iff)
    then have e0: "snd (path_split_ext (mf_path ?f)) \<noteq> []" using assms(3) by (simp add: file_ok_def)
    obtain d where "validate_kind (oe_nfc e) d = Inr (oe_kind e)" using assms(1) by (auto simp: env_ok_def)
    then have "good_ext x" using upload_of_place [OF _ r(1)] split_ext_good [OF e0] r(2) by auto
    note p = placed_path [OF assms(1) r(1) this]
    have free: "stem \<notin># slots s" using r(4) stem_place_none by blast
    have res: "files_ok e (files_of s') \<and> slots s' = add_mset stem (slots s - {#stem_of (mf_path ?f)#})"
      by (rule renamed_files [OF assms(1) ok assms(2,3) refl p(1,2,4) r(3) free r(5)])
    have "stem_of (mf_path ?f) \<in># slots s" unfolding slots_def by (rule stems_member) (use assms(2,3) in auto)
    moreover have "stem_group e stem = stem_group e (stem_of (mf_path ?f))" using p(3) r(3) by (simp add: group_of_stem)
    ultimately have "slot_step e free (slots s) (slots s')" using res free by (auto intro: slot_step.rename)
    then show ?thesis using res by (auto simp: advance_def)
  qed
qed

section \<open>A commit\<close>

lemma edit_op_advance:
  assumes "i < length (files_of s)" "is_upload (files_of s ! i)" "edit_op e p i s = Inr s'"
  shows "advance e free s s'"
proof -
  obtain f where f: "fit_upload_edit e (op_edit p) (files_of s ! i) = Inr f"
    "s' = s \<or> s' = set_files s ((files_of s)[i := f\<lparr>mf_pending := pending_presets e (mf_path (files_of s ! i))\<rparr>])"
    using assms(3) by (auto simp: edit_op_def Let_def bindr_Inr_iff split: if_splits)
  from f(2) show ?thesis
  proof
    assume "s' = set_files s ((files_of s)[i := f\<lparr>mf_pending := pending_presets e (mf_path (files_of s ! i))\<rparr>])"
    then have "files_of s' = (files_of s)[i := f\<lparr>mf_pending := pending_presets e (mf_path (files_of s ! i))\<rparr>]" by simp
    then show ?thesis by (rule advance_update) (use assms fit_upload_edit_path [OF f(1)] in \<open>simp_all add: is_upload_def\<close>)
  qed simp
qed

lemma remove_op_advance: "advance e free s (remove_op e p f s)"
proof -
  have "advance e free s (if op_takedown p then foldl (\<lambda>s path. drop_zips e path s) s gone else s)" for gone
    by (simp add: foldl_advance drop_zips_advance)
  then show ?thesis unfolding remove_op_def Let_def using advance_trans drop_uploads_advance by blast
qed

text \<open>A result that, if it is a run, advances.\<close>

definition leads :: "op_env \<Rightarrow> bool \<Rightarrow> op_run \<Rightarrow> ran \<Rightarrow> bool" where
  "leads e free s r \<longleftrightarrow> (\<forall>s'. r = Inr s' \<longrightarrow> advance e free s s')"

lemma leads_Inl: "leads e free s (Inl x)"
  by (simp add: leads_def)

lemma leads_Inr: "advance e free s t \<Longrightarrow> leads e free s (Inr t)"
  by (simp add: leads_def)

lemma leads_if: "leads e free s a \<Longrightarrow> leads e free s b \<Longrightarrow> leads e free s (if c then a else b)"
  by simp

lemma leadsI: "(\<And>s'. r = Inr s' \<Longrightarrow> advance e free s s') \<Longrightarrow> leads e free s r"
  by (simp add: leads_def)

lemma apply_upload_leads:
  assumes "env_ok e"
  shows "leads e free s (apply_upload e p s)"
proof (cases "place_of s (op_path p)")
  case None
  show ?thesis unfolding apply_upload_def None option.case by (intro leads_if leads_Inl leads_Inr advance_refl)
next
  case (Some i)
  note at = place_of_some [OF Some, THEN conjunct1]
  show ?thesis
  proof (cases "is_upload (files_of s ! i)")
    case False
    show ?thesis unfolding apply_upload_def Some option.case Let_def if_P [OF False] by (rule leads_Inl)
  next
    case up: True
    have l: "leads e free s (edit_op e p i s)" "leads e free s (Inr (move_op e p i s))"
      "leads e free s (attach (length (files_of s) + 2) e (op_path p) (op_index p) (op_meta_list p) s)"
      "leads e free s (Inr (remove_op e p (files_of s ! i) s))" "leads e free s (rename e (files_of s ! i) (op_to p) s)"
      "leads e free s (Inr (set_files s (files_of s)))"
    proof -
      show "leads e free s (edit_op e p i s)" by (rule leadsI) (rule edit_op_advance [OF at up])
      show "leads e free s (Inr (move_op e p i s))"
        unfolding move_op_def Let_def by (intro leads_Inr advance_reinsert at up refl)
      show "leads e free s (attach (length (files_of s) + 2) e (op_path p) (op_index p) (op_meta_list p) s)"
        by (rule leadsI) (rule attach_advance)
      show "leads e free s (Inr (remove_op e p (files_of s ! i) s))" by (intro leads_Inr remove_op_advance)
      show "leads e free s (rename e (files_of s ! i) (op_to p) s)" by (rule leadsI) (rule rename_advance [OF assms at up])
      show "leads e free s (Inr (set_files s (files_of s)))" by (intro leads_Inr advance_files files_of_set)
    qed
    show ?thesis unfolding apply_upload_def Some option.case Let_def by (intro leads_if leads_Inl l)
  qed
qed

lemma regenerate_advance: "files_of s' = map (regenerate_file e preset) (files_of s) \<Longrightarrow> advance e free s s'"
  by (erule advance_map) (auto simp: regenerate_file_def is_upload_def run_ok_def files_ok_def list_all_iff)

lemma apply_op_advance:
  assumes "env_ok e" "op_kind p = ''frame'' \<longrightarrow> free" "apply_op e n p s = Inr s'"
  shows "advance e free s s'"
proof (rule advanceI)
  assume ok: "run_ok e s"
  have frame: "leads e free s (frame_op e n p s)" if "op_kind p = ''frame''"
    using assms(2) that frame_op_advance [OF assms(1)] by (auto intro: leadsI)
  have copy: "leads e free s (copy_op e p src s)" if "source_ok e src" for src
    by (rule leadsI) (rule copy_op_advance [OF assms(1) that])
  have source: "source_ok e (if same_item e p then copy_files s path else oe_copies e n)" for path
    using copy_files_source [OF ok] copies_source assms(1) by (simp add: env_ok_def)
  have meta: "leads e free s (Inr (set_manifest s ((or_manifest s)\<lparr>mn_meta := op_meta_list p\<rparr>)))"
    by (intro leads_Inr advance_files) (simp add: files_of_def set_manifest_def)
  have again: "leads e free s (Inr (set_manifest s ((or_manifest s)\<lparr>mn_files := map (regenerate_file e (op_preset p)) (files_of s)\<rparr>)))"
    by (rule leads_Inr, rule regenerate_advance [of _ e "op_preset p"]) (simp add: files_of_def set_manifest_def)
  have put: "leads e free s (put e p s)" by (rule leadsI) (rule put_advance [OF assms(1)])
  have upload: "leads e free s (apply_upload e p s)" by (rule apply_upload_leads [OF assms(1)])
  have "leads e free s (apply_op e n p s)"
  proof (cases "op_kind p = ''frame''")
    case True
    then have "apply_op e n p s = frame_op e n p s" by (simp add: apply_op_def)
    then show ?thesis using frame [OF True] by simp
  next
    case False
    show ?thesis unfolding apply_op_def if_not_P [OF False] by (intro leads_if leads_Inl meta again put upload copy source)
  qed
  then show "advance e free s s'" using assms(3) by (simp add: leads_def)
qed

lemma commit_op_advance:
  assumes "env_ok e" "op_kind p = ''frame'' \<longrightarrow> free" "commit_op verify e (n, p) s = Inr s'"
  shows "advance e free s s'"
proof -
  obtain objs where "s' = s \<or> apply_op e n p (s\<lparr>or_objects := objs\<rparr>) = Inr s' \<or> apply_op e n p s = Inr s'"
    using assms(3) by (auto simp: commit_op_def bindr_Inr_iff split: if_splits option.splits)
  moreover have "advance e free s (s\<lparr>or_objects := objs\<rparr>)" by (rule advance_files) (simp add: files_of_def)
  ultimately show ?thesis using apply_op_advance [OF assms(1,2)] advance_trans by (elim disjE) (simp, blast, blast)
qed

definition is_frame :: "op \<Rightarrow> bool" where
  "is_frame p \<longleftrightarrow> op_kind p = ''frame''"

lemma run_ops_advance:
  assumes "env_ok e" "run_ops verify e ops s = Inr s'"
  shows "advance e (list_ex is_frame ops) s s'"
proof -
  have "fold_result (commit_op verify e) (zip [0..<length ops] ops) s = Inr s'"
    using assms(2) by (auto simp: run_ops_def bindr_Inr_iff split: if_splits)
  then show ?thesis
  proof (rule advance_fold)
    fix x t t' assume x: "x \<in> set (zip [0..<length ops] ops)" "commit_op verify e x t = Inr t'"
    obtain n p where np: "x = (n, p)" by (cases x)
    then have "p \<in> set ops" using x(1) by (auto dest: set_zip_rightD)
    then have "op_kind p = ''frame'' \<longrightarrow> list_ex is_frame ops" unfolding list_ex_iff is_frame_def by blast
    then show "advance e (list_ex is_frame ops) t t'" using commit_op_advance [OF assms(1)] x(2) np by blast
  qed
qed

section \<open>A sample commit\<close>

text \<open>A kind whose only upload is a cover, and the put of one.\<close>

definition sample_kind :: registered_kind where
  "sample_kind = \<lparr>mk_name = ''post'', mk_namespace = [], mk_account = False, mk_versions = False, mk_publish = None,
     mk_uploads = [\<lparr>up_path = ''cover'', up_body = False, up_types = [''image/png''], up_max_bytes = 100, up_max = 1, up_frames = [],
       up_named = False, up_video = None, up_required = False\<rparr>],
     mk_keep_originals = False, mk_download = [], mk_private = [], mk_public = [], mk_defaults = None,
     rk_ns = ''site'', rk_scope = no_scope, rk_patterns = [\<lparr>pt_dir = [], pt_literal = ''cover''\<rparr>]\<rparr>"

definition sample_env :: op_env where
  "sample_env = \<lparr>oe_nfc = (\<lambda>s. s), oe_fold_eq = (=), oe_lower = (\<lambda>r. r), oe_sha = (\<lambda>s. []), oe_marshal = (\<lambda>m. Some 2), oe_kind = sample_kind,
     oe_ref = new_ref ''site'' ''post'' ''p1'', oe_copies = (\<lambda>n. []), oe_frames = (\<lambda>n. None), oe_exempt = False, oe_trusted = False,
     oe_admission = None, oe_archive_allowed = None, oe_authorize_path = None\<rparr>"

definition sample_put :: op where
  "sample_put = \<lparr>op_kind = ''put'', op_source_name = [], op_path = ''cover.png'', op_blob = ''u-01890a5d-ac96-774b-bcce-b302099a8057'',
     op_create_id = [], op_replace = False, op_index = None, op_meta = None, op_edit = None, op_unattached = False, op_to = [],
     op_from = None, op_t = None, op_auto = False, op_preset = [], op_force = False, op_takedown = False\<rparr>"

definition sample_start :: op_run where
  "sample_start = \<lparr>or_manifest = sample_manifest [], or_renames = None, or_removed = [], or_objects = []\<rparr>"

definition sample_verify :: "string \<Rightarrow> (op_error, string \<times> int) result" where
  "sample_verify name = Inr (''image/png'', 10)"

definition sample_end :: op_run where
  "sample_end = (case run_ops sample_verify sample_env [sample_put] sample_start of Inr s \<Rightarrow> s | Inl _ \<Rightarrow> sample_start)"

lemma sample_kind_valid: "validate_kind (\<lambda>s. s) sample_kind = Inr sample_kind"
proof -
  have p: "fst (parse_pattern ''cover'') = \<lparr>pt_dir = [], pt_literal = ''cover''\<rparr>" by code_simp
  let ?k = "sample_kind\<lparr>rk_patterns := map (fst \<circ> parse_pattern \<circ> up_path) (mk_uploads sample_kind)\<rparr>"
  have k: "?k = sample_kind" unfolding sample_kind_def by (simp add: p)
  have none: "mk_public sample_kind = []" "mk_private sample_kind = []" by (simp_all add: sample_kind_def)
  show ?thesis
    unfolding validate_kind_def Let_def guard_Inr_iff k none
    by (intro conjI, code_simp) (simp add: sample_kind_def)
qed

lemma sample_env_ok: "env_ok sample_env"
proof -
  have "oe_nfc sample_env = (\<lambda>s. s)" "oe_kind sample_env = sample_kind" "mk_private sample_kind = []" "oe_copies sample_env = (\<lambda>n. [])"
    by (simp_all add: sample_env_def sample_kind_def)
  then show ?thesis using sample_kind_valid by (auto simp: env_ok_def outputs_apart_def copies_ok_def)
qed

lemma sample_run: "run_ops sample_verify sample_env [sample_put] sample_start = Inr sample_end"
proof -
  have "\<not> isl (run_ops sample_verify sample_env [sample_put] sample_start)" by code_simp
  then show ?thesis unfolding sample_end_def by (auto split: sum.splits)
qed

lemma sample_stems: "stems (files_of sample_end) = [''cover'']" "stems (files_of sample_start) = []"
  by code_simp+

lemma sample_start_ok: "run_ok sample_env sample_start"
  by code_simp

section \<open>Kinds whose outputs stay apart\<close>

text \<open>
  A preset's outputs never match an upload pattern when the text of its template before the first
  placeholder and the fixed text of every pattern differ somewhere.
\<close>

definition texts_apart :: "string \<Rightarrow> string \<Rightarrow> bool" where
  "texts_apart a b \<longleftrightarrow> list_ex (\<lambda>(x, y). x \<noteq> y) (zip a b)"

definition preset_apart :: "registered_kind \<Rightarrow> private_preset \<Rightarrow> bool" where
  "preset_apart k q \<longleftrightarrow> list_all (\<lambda>p. texts_apart (takeWhile (\<lambda>c. c \<noteq> CHR ''{'') (pr_to q))
     (if pt_literal p \<noteq> [] then pt_literal p else pt_dir p)) (rk_patterns k)"

lemma apart_texts: "texts_apart d w \<Longrightarrow> take n (d @ y) \<noteq> w @ z"
proof
  assume "texts_apart d w" and eq: "take n (d @ y) = w @ z"
  then obtain j where j: "j < length d" "j < length w" "d ! j \<noteq> w ! j"
    by (auto simp: texts_apart_def list_ex_iff set_zip)
  have "j < n" using arg_cong [OF eq, of length] j(2) by simp
  then have "take n (d @ y) ! j = d ! j" using j(1) by (simp add: nth_append del: take_append)
  moreover have "(w @ z) ! j = w ! j" using j(2) by (simp add: nth_append)
  ultimately show False using j(3) unfolding eq by simp
qed

lemma takeWhile_notin: "c \<notin> set s \<Longrightarrow> takeWhile (\<lambda>x. x \<noteq> c) s = s"
  by (induction s) auto

lemma fill_starts: "\<exists>rest. fill vars t = takeWhile (\<lambda>c. c \<noteq> CHR ''{'') t @ rest"
proof (cases "str_cut (CHR ''{'') t")
  case (Pair a r)
  show ?thesis
  proof (cases r)
    case None
    then show ?thesis using Pair by (simp add: fill.simps [of vars t] str_cut_None_iff takeWhile_notin)
  next
    case (Some b)
    then have t: "t = a @ CHR ''{'' # b" "CHR ''{'' \<notin> set a" using Pair by (simp_all add: str_cut_Some_iff)
    then have "takeWhile (\<lambda>c. c \<noteq> CHR ''{'') t = a" by (auto simp: takeWhile_append)
    moreover have "\<exists>rest. fill vars t = a @ rest"
      unfolding t(1) fill.simps [of vars "a @ CHR ''{'' # b"] using t(2) by (simp split: prod.split option.split)
    ultimately show ?thesis by simp
  qed
qed

lemma stem_take: "\<exists>n. fst (path_split_ext p) = take n p"
  unfolding path_split_ext_def Let_def by (auto split: option.split intro: exI [of _ "length p"])

lemma no_match: "(\<And>p. p \<in> set ps \<Longrightarrow> pattern_match nfc p stem = None) \<Longrightarrow> match_at nfc ps literal stem = None"
  unfolding match_at_def by (auto simp: find_Some_iff split: option.split)

lemma presets_apart:
  assumes "\<And>q. q \<in> set (mk_private (oe_kind e)) \<Longrightarrow> preset_apart (oe_kind e) q"
  shows "outputs_apart e"
  unfolding outputs_apart_def
proof (intro ballI allI)
  fix q path rest assume q: "q \<in> set (mk_private (oe_kind e))"
  let ?t = "takeWhile (\<lambda>c. c \<noteq> CHR ''{'') (pr_to q)"
  obtain r where "output_path (oe_nfc e) (oe_kind e) q path = ?t @ r" unfolding output_path_def using fill_starts by blast
  then obtain n where stem: "fst (path_split_ext (output_path (oe_nfc e) (oe_kind e) q path @ rest)) = take n (?t @ r @ rest)"
    using stem_take [of "?t @ r @ rest"] by auto
  have none: "pattern_match (oe_nfc e) p (take n (?t @ r @ rest)) = None" if "p \<in> set (rk_patterns (oe_kind e))" for p
  proof -
    have "texts_apart ?t (if pt_literal p \<noteq> [] then pt_literal p else pt_dir p)"
      using assms [OF q] that by (auto simp: preset_apart_def list_all_iff)
    note apart = apart_texts [OF this, of n "r @ rest"]
    show ?thesis
    proof (cases "pt_literal p = []")
      case True
      have "cut_prefix (pt_dir p) (take n (?t @ r @ rest)) = None"
      proof (cases "cut_prefix (pt_dir p) (take n (?t @ r @ rest))")
        case (Some y)
        then have "take n (?t @ r @ rest) = pt_dir p @ y" by (rule cut_prefix_Some [THEN iffD1])
        then show ?thesis using apart [of y] True by (simp del: take_append)
      qed
      then show ?thesis using True by (simp add: pattern_match_def del: take_append)
    next
      case False
      then have "take n (?t @ r @ rest) \<noteq> pt_literal p" using apart [of "[]"] by (simp del: take_append)
      then show ?thesis using False by (simp add: pattern_match_def del: take_append)
    qed
  qed
  show "group_of e (output_path (oe_nfc e) (oe_kind e) q path @ rest) = None"
    using stem no_match [OF none] by (simp add: group_of_def upload_of_def kind_upload_def case_prod_beta')
qed

text \<open>A kind with the outputs of a preset beside its cover.\<close>

definition low_preset :: private_preset where
  "low_preset = \<lparr>pr_name = ''low'', pr_from = ''cover'', pr_to = ''low/{name}.webp'', pr_download = [], pr_host_only = False,
     pr_image = Some no_image, pr_hls = None, pr_mp4 = None, pr_zip = [], pr_subtitles = False, pr_shapes = []\<rparr>"

definition low_kind :: registered_kind where
  "low_kind = sample_kind\<lparr>mk_private := [low_preset]\<rparr>"

text \<open>Another item's cover with its output, and the copy of it.\<close>

definition low_source :: "media_file list" where
  "low_source = [sample_upload\<lparr>mf_path := ''cover.png'', mf_blob := ''b''\<rparr>,
     sample_upload\<lparr>mf_path := ''low/cover.webp'', mf_blob := ''x'', mf_from := ''cover.png'', mf_preset := ''low''\<rparr>]"

definition low_env :: op_env where
  "low_env = sample_env\<lparr>oe_kind := low_kind, oe_copies := (\<lambda>n. low_source)\<rparr>"

definition low_copy :: op where
  "low_copy = sample_put\<lparr>op_kind := ''copy'', op_path := [], op_blob := [],
     op_from := Some \<lparr>cf_kind = [], cf_id = ''p2'', cf_version = [], cf_path = ''cover.png''\<rparr>\<rparr>"

definition low_end :: op_run where
  "low_end = (case run_ops sample_verify low_env [low_copy] sample_start of Inr s \<Rightarrow> s | Inl _ \<Rightarrow> sample_start)"

lemma low_run: "run_ops sample_verify low_env [low_copy] sample_start = Inr low_end"
proof -
  have "\<not> isl (run_ops sample_verify low_env [low_copy] sample_start)" by code_simp
  then show ?thesis unfolding low_end_def by (auto split: sum.splits)
qed

lemma low_kind_valid: "validate_kind (\<lambda>s. s) low_kind = Inr low_kind"
proof -
  have p: "fst (parse_pattern ''cover'') = \<lparr>pt_dir = [], pt_literal = ''cover''\<rparr>" by code_simp
  let ?k = "low_kind\<lparr>rk_patterns := map (fst \<circ> parse_pattern \<circ> up_path) (mk_uploads low_kind)\<rparr>"
  have k: "?k = low_kind" unfolding low_kind_def sample_kind_def by (simp add: p)
  have none: "mk_public low_kind = []" by (simp add: low_kind_def sample_kind_def)
  show ?thesis
    unfolding validate_kind_def Let_def guard_Inr_iff k none
    by (intro conjI, code_simp) (simp add: low_kind_def sample_kind_def)
qed

lemma low_env_ok: "env_ok low_env"
proof -
  have e: "oe_nfc low_env = (\<lambda>s. s)" "oe_kind low_env = low_kind" "oe_copies low_env = (\<lambda>n. low_source)" "mk_private low_kind = [low_preset]"
    by (simp_all add: low_env_def sample_env_def low_kind_def)
  have "preset_apart low_kind low_preset" by code_simp
  then have "outputs_apart low_env" by (intro presets_apart) (simp add: e)
  moreover have "is_upload (low_source ! 0)" "snd (path_split_ext (mf_path (low_source ! 0))) \<noteq> []"
    "\<not> is_upload (low_source ! 1)" "file_ok low_env (low_source ! 1)" by code_simp+
  then have "copies_ok low_env" unfolding copies_ok_def e by (simp add: low_source_def)
  ultimately show ?thesis using low_kind_valid by (auto simp: env_ok_def e)
qed

lemma low_start_ok: "run_ok low_env sample_start"
  by code_simp

lemma low_end_files: "map mf_path (files_of low_end) = [''cover.png'', ''low/cover.webp'']" "map is_upload (files_of low_end) = [True, False]"
  by code_simp+

section \<open>Properties of a commit\<close>

text \<open>
  C27: a commit that is accepted is a run of slot steps: it drops uploads, adds one at a free path whose
  group has room (or that a frame is grabbed into), or renames one to a free path of its own group.
\<close>

theorem commit_refines_slots:
  assumes "env_ok e" "run_ok e s" "run_ops verify e ops s = Inr s'"
  shows "slot_steps e (list_ex is_frame ops) (slots s) (slots s')"
  using run_ops_advance [OF assms(1,3)] assms(2) by (simp add: advance_def)

theorem commit_refines_slots_witness: "slot_steps sample_env (list_ex is_frame [sample_put]) {#} {#''cover''#}"
  using commit_refines_slots [OF sample_env_ok sample_start_ok sample_run] by (simp add: slots_def sample_stems)

text \<open>
  C28: a commit keeps a manifest well formed: no two uploads share a path without its extension, each
  upload has an extension and belongs to a group of the kind, and no output lies on a path of the uploads.
  The kind is validated, and its presets write where no upload pattern matches (\<open>outputs_apart\<close>): the
  validator only samples that, so it is a hypothesis; \<open>presets_apart\<close> gives it for presets whose
  template starts with text of its own. What is copied from other items is well formed too.
\<close>

theorem commit_keeps_uploads_apart:
  assumes "validate_kind (oe_nfc e) d = Inr (oe_kind e)" "outputs_apart e" "copies_ok e"
    and "run_ok e s" "run_ops verify e ops s = Inr s'"
  shows "distinct (stems (files_of s')) \<and>
    (\<forall>f \<in> set (files_of s'). if is_upload f then snd (path_split_ext (mf_path f)) \<noteq> [] \<and> group_of e (mf_path f) \<noteq> None
       else group_of e (mf_path f) = None)"
proof -
  have "env_ok e" using assms(1-3) by (auto simp: env_ok_def)
  then show ?thesis
    using advance_ok [OF run_ops_advance [OF _ assms(5)] assms(4)]
    by (auto simp: run_ok_def files_ok_def list_all_iff file_ok_def split: if_splits)
qed

text \<open>The cover of another item copied with its output: the output is on no path of an upload.\<close>

theorem commit_keeps_uploads_apart_witness:
  "mk_private (oe_kind low_env) = [low_preset] \<and> map mf_path (files_of low_end) = [''cover.png'', ''low/cover.webp''] \<and>
   stems (files_of low_end) = [''cover''] \<and> distinct (stems (files_of low_end)) \<and>
   group_of low_env ''cover.png'' \<noteq> None \<and> group_of low_env ''low/cover.webp'' = None"
proof -
  have e: "oe_nfc low_env = (\<lambda>s. s)" "oe_kind low_env = low_kind" by (simp_all add: low_env_def sample_env_def)
  have "outputs_apart low_env" "copies_ok low_env" using low_env_ok by (simp_all add: env_ok_def)
  from commit_keeps_uploads_apart [OF _ this low_start_ok low_run, of "low_kind"]
  have k: "distinct (stems (files_of low_end))"
    "\<forall>f \<in> set (files_of low_end). if is_upload f then snd (path_split_ext (mf_path f)) \<noteq> [] \<and> group_of low_env (mf_path f) \<noteq> None
       else group_of low_env (mf_path f) = None"
    using low_kind_valid by (simp_all add: e)
  obtain f x where fs: "files_of low_end = [f, x]" "mf_path f = ''cover.png''" "is_upload f" "mf_path x = ''low/cover.webp''" "\<not> is_upload x"
    using low_end_files by (auto simp: map_eq_Cons_conv)
  have "stems (files_of low_end) = [''cover'']" by code_simp
  moreover have "mk_private (oe_kind low_env) = [low_preset]" by (simp add: e low_kind_def)
  ultimately show ?thesis using k low_end_files(1) fs by simp
qed

lemma group_count_slots: "group_count e s g = slot_count e g (slots s)"
proof -
  have "size (filter_mset P (mset xs)) = length (filter P xs)" for P and xs :: "string list" by (simp flip: mset_filter)
  then show ?thesis unfolding slots_def slot_count_def
    by (simp add: group_count_def stems_def filter_map comp_def group_of_stem conj_commute del: mset_map)
qed

text \<open>
  C29: a commit without frames never takes the uploads of a group past the group's limit, unless they
  were past it before; then it does not add to them.
\<close>

theorem commit_keeps_limits:
  assumes "env_ok e" "run_ok e s" "run_ops verify e ops s = Inr s'" "\<not> list_ex is_frame ops" "0 < up_max (mk_uploads (oe_kind e) ! g)"
  shows "int (group_count e s' g) \<le> max (up_max (mk_uploads (oe_kind e) ! g)) (int (group_count e s g))"
  using run_ops_advance [OF assms(1,3)] assms(2,4) slot_steps_limits [OF _ refl assms(5)] unfolding group_count_slots advance_def by simp

theorem commit_keeps_limits_witness: "int (group_count sample_env sample_end 0) \<le> 1"
proof -
  have "\<not> list_ex is_frame [sample_put]" "up_max (mk_uploads (oe_kind sample_env) ! 0) = 1" "group_count sample_env sample_start 0 = 0"
    by code_simp+
  then show ?thesis using commit_keeps_limits [OF sample_env_ok sample_start_ok sample_run, of 0] by simp
qed

text \<open>
  C30: a rename leaves nothing at the old path: no upload or output lies there, and no output is one of it.
\<close>

theorem rename_leaves_nothing:
  assumes "env_ok e" "run_ok e s" "i < length (files_of s)" "is_upload (files_of s ! i)" "rename e (files_of s ! i) to s = Inr s'"
    and "files_of s' \<noteq> files_of s" "x \<in> set (files_of s')"
  shows "mf_path x \<noteq> mf_path (files_of s ! i) \<and> (\<not> is_upload x \<longrightarrow> mf_from x \<noteq> mf_path (files_of s ! i))"
proof -
  let ?f = "files_of s ! i"
  obtain g stem name ext y where r: "upload_of (oe_nfc e) (oe_kind e) to = Some (g, stem, name, ext)"
    "y = (if ext = [] then snd (path_split_ext (mf_path ?f)) else ext)" "group_of e (mf_path ?f) = Some g" "stem_place s stem = None"
    and s': "files_of s' = map (rename_file e (mf_path ?f) (stem @ ''.'' @ y)) (files_of s)"
    using rename_files [OF assms(5)] assms(6) by blast
  let ?to = "stem @ ''.'' @ y"
  have "file_ok e ?f" using assms(2,3) by (auto simp: run_ok_def files_ok_def list_all_iff)
  then have e0: "snd (path_split_ext (mf_path ?f)) \<noteq> []" using assms(4) by (simp add: file_ok_def)
  obtain d where "validate_kind (oe_nfc e) d = Inr (oe_kind e)" using assms(1) by (auto simp: env_ok_def)
  then have "good_ext y" using upload_of_place [OF _ r(1)] split_ext_good [OF e0] r(2) by auto
  note p = placed_path [OF assms(1) r(1) this]
  have free: "stem \<notin># slots s" using r(4) stem_place_none by blast
  have old: "stem_of (mf_path ?f) \<in># slots s" unfolding slots_def by (rule stems_member) (use assms(3,4) in auto)
  have res: "files_ok e (files_of s')" "slots s' = add_mset stem (slots s - {#stem_of (mf_path ?f)#})"
    using renamed_files [OF assms(1-4) refl p(1,2,4) r(3) free s'] by simp_all
  have ne: "stem \<noteq> stem_of (mf_path ?f)" using free old by metis
  have "count (slots s) (stem_of (mf_path ?f)) = 1"
    using assms(2) old unfolding run_ok_count by (metis One_nat_def count_greater_eq_one_iff le_antisym)
  then have gone: "stem_of (mf_path ?f) \<notin># slots s'" using res(2) ne by (simp add: not_in_iff)
  have "mf_path x \<noteq> mf_path ?f"
  proof
    assume same: "mf_path x = mf_path ?f"
    then have "is_upload x" using res(1) assms(7) r(3) by (auto simp: files_ok_def list_all_iff file_ok_def split: if_splits)
    then show False using stems_member [OF assms(7)] same gone by (simp add: slots_def)
  qed
  moreover have "mf_from x \<noteq> mf_path ?f" if out: "\<not> is_upload x"
  proof -
    obtain z where z: "z \<in> set (files_of s)" "x = rename_file e (mf_path ?f) ?to z" using assms(7) s' by auto
    have to: "?to \<noteq> mf_path ?f" using p(1) ne by metis
    show ?thesis
    proof (cases "mf_path z = mf_path ?f")
      case True
      then have "x = renamed_page e ?to z" using z(2) by (simp add: rename_file_def)
      then have "mf_path x = ?to" "is_upload x = is_upload z" using renamed_page_path by (auto simp: is_upload_def)
      moreover have "file_ok e z" using assms(2) z(1) by (simp add: run_ok_def files_ok_def list_all_iff)
      ultimately show ?thesis using out r(3) True by (simp add: file_ok_def)
    next
      case False
      then show ?thesis using z(2) out to by (auto simp: rename_file_def rebase_output_def is_upload_def split: if_splits)
    qed
  qed
  ultimately show ?thesis by blast
qed

text \<open>A kind of pages, with the upload of one.\<close>

definition page_env :: op_env where
  "page_env = sample_env\<lparr>oe_kind := sample_kind\<lparr>mk_uploads := [(hd (mk_uploads sample_kind))\<lparr>up_path := ''pages/{name}''\<rparr>],
     rk_patterns := [\<lparr>pt_dir = ''pages/'', pt_literal = []\<rparr>]\<rparr>\<rparr>"

definition page_start :: op_run where
  "page_start = sample_start\<lparr>or_manifest := sample_manifest [sample_upload\<lparr>mf_path := ''pages/a.png''\<rparr>]\<rparr>"

lemma clean_letters: "clean_name (\<lambda>s. s) ''a'' = ''a''" "clean_name (\<lambda>s. s) ''b'' = ''b''"
proof -
  have c: "rune_chunks ''a'' = [(97, [97])]" "rune_chunks ''b'' = [(98, [98])]"
    using chunks_ascii [of "map of_char ''a''"] chunks_ascii [of "map of_char ''b''"] by (simp_all add: rune_chunks_def)
  have d: "strip_dots ''a'' = ''a''" "strip_dots ''b'' = ''b''" by (simp_all add: strip_dots.simps [of "''a''"] strip_dots.simps [of "''b''"])
  have t: "trim_space ''a'' = ''a''" "trim_space ''b'' = ''b''" by (rule trim_space_printable; simp)+
  have k: "\<not> dropped_rune 97" "\<not> dropped_rune 98" by (simp_all add: dropped_rune_def is_control_def rune_error_def)
  have t': "chunk_text [(97, [97])] = ''a''" "chunk_text [(98, [98])] = ''b''"
    by (simp_all add: chunk_text_def char_of_def bit_iff_odd)
  show "clean_name (\<lambda>s. s) ''a'' = ''a''" "clean_name (\<lambda>s. s) ''b'' = ''b''"
    by (simp_all add: clean_name_def c d t k t' Let_def json_rune_len_def max_name_bytes_def rune_error_def)
qed

lemma page_uploads:
  "upload_of (\<lambda>s. s) (oe_kind page_env) ''pages/a.png'' = Some (0, ''pages/a'', ''a'', ''png'')"
  "upload_of (\<lambda>s. s) (oe_kind page_env) ''pages/b'' = Some (0, ''pages/b'', ''b'', [])"
proof -
  have s: "path_split_ext ''pages/a.png'' = (''pages/a'', ''png'')" "path_split_ext ''pages/b'' = (''pages/b'', [])" by code_simp+
  have p: "rk_patterns (oe_kind page_env) = [\<lparr>pt_dir = ''pages/'', pt_literal = []\<rparr>]" by (simp add: page_env_def)
  have c: "cut_prefix ''pages/'' ''pages/a'' = Some ''a''" "cut_prefix ''pages/'' ''pages/b'' = Some ''b''" by code_simp+
  show "upload_of (\<lambda>s. s) (oe_kind page_env) ''pages/a.png'' = Some (0, ''pages/a'', ''a'', ''png'')"
    "upload_of (\<lambda>s. s) (oe_kind page_env) ''pages/b'' = Some (0, ''pages/b'', ''b'', [])"
    by (simp_all add: upload_of_def kind_upload_def s p match_at_def pattern_match_def c clean_letters)
qed

lemma page_env_ok: "env_ok page_env"
proof -
  have k: "mk_uploads (oe_kind page_env) = [(hd (mk_uploads sample_kind))\<lparr>up_path := ''pages/{name}''\<rparr>]"
    "mk_public (oe_kind page_env) = []" "mk_private (oe_kind page_env) = []" by (simp_all add: page_env_def sample_kind_def)
  have p: "fst (parse_pattern ''pages/{name}'') = \<lparr>pt_dir = ''pages/'', pt_literal = []\<rparr>" by code_simp
  let ?k = "oe_kind page_env\<lparr>rk_patterns := map (fst \<circ> parse_pattern \<circ> up_path) (mk_uploads (oe_kind page_env))\<rparr>"
  have same: "?k = oe_kind page_env" by (simp add: k p) (simp add: page_env_def)
  have "validate_kind (\<lambda>s. s) (oe_kind page_env) = Inr (oe_kind page_env)"
    unfolding validate_kind_def Let_def guard_Inr_iff same k(2,3)
    by (intro conjI, code_simp) (simp add: page_env_def sample_kind_def)
  moreover have "oe_nfc page_env = (\<lambda>s. s)" "oe_copies page_env = (\<lambda>n. [])" by (simp_all add: page_env_def sample_env_def)
  ultimately show ?thesis using k(3) by (auto simp: env_ok_def outputs_apart_def copies_ok_def)
qed

theorem rename_leaves_nothing_witness:
  "\<exists>s'. rename page_env (sample_upload\<lparr>mf_path := ''pages/a.png''\<rparr>) ''pages/b'' page_start = Inr s' \<and>
     map mf_path (files_of s') = [''pages/b.png''] \<and> ''pages/b.png'' \<noteq> ''pages/a.png''"
proof -
  let ?f = "sample_upload\<lparr>mf_path := ''pages/a.png''\<rparr>"
  have fs: "files_of page_start = [?f]" by (simp add: files_of_def page_start_def sample_manifest_def)
  have nfc: "oe_nfc page_env = (\<lambda>s. s)" by (simp add: page_env_def sample_env_def)
  have up: "is_upload ?f" "snd (path_split_ext (mf_path ?f)) = ''png''" by code_simp+
  have g: "group_of page_env (mf_path ?f) = Some 0" using page_uploads(1) by (simp add: group_of_def nfc)
  have ok: "run_ok page_env page_start" using up g by (simp add: run_ok_def fs files_ok_def file_ok_def stems_def)
  have free: "stem_place page_start ''pages/b'' = None" by code_simp
  have named: "\<not> up_named (mk_uploads (oe_kind page_env) ! 0)" by code_simp
  have page: "is_page_upload (\<lambda>s. s) (oe_kind page_env) x = False" for x
    by (simp add: is_page_upload_def page_env_def sample_kind_def)
  then have clash: "\<not> rename_clash page_env ?f ''pages/b.png'' page_start" by (simp add: rename_clash_def nfc Let_def)
  have r: "\<exists>s'. rename page_env ?f ''pages/b'' page_start = Inr s' \<and> files_of s' = [rename_file page_env ''pages/a.png'' ''pages/b.png'' ?f]"
    using page_uploads(2) up(2) g free clash named by (simp add: rename_def nfc fs Let_def)
  then obtain s' where s': "rename page_env ?f ''pages/b'' page_start = Inr s'" "files_of s' = [rename_file page_env ''pages/a.png'' ''pages/b.png'' ?f]"
    by blast
  have new: "mf_path (rename_file page_env ''pages/a.png'' ''pages/b.png'' ?f) = ''pages/b.png''"
    using renamed_page_path by (simp add: rename_file_def)
  have "map mf_path (files_of s') \<noteq> map mf_path (files_of page_start)" using s'(2) new fs by simp
  then have "files_of s' \<noteq> files_of page_start" by metis
  then have "mf_path (rename_file page_env ''pages/a.png'' ''pages/b.png'' ?f) \<noteq> ''pages/a.png''"
    using rename_leaves_nothing [OF page_env_ok ok, of 0 "''pages/b''" s'] s' up fs by simp
  then show ?thesis using s' new by simp
qed

end
