(* ===== verification/Catalog_Access.thy ===== *)
theory Catalog_Access
  imports Http_Gate_Props
begin

text \<open>
  Who may write content: \<open>internal/catalogstore/authz.go\<close>, and the channels of an author of
  \<open>internal/entitystore/content_editors.go\<close>. The request memo of permissions is passed along.
  A query of the database is a parameter: its rows, or its error; the scopes the host's
  directory says an account holds are a parameter too.
\<close>

datatype catalog_error = CatAuth auth_err | CatStore string | CatNotFound | CatForbidden | CatInvalid string

section \<open>Permissions\<close>

definition content_create :: string where "content_create = ''root:content:create''"
definition content_edit_own :: string where "content_edit_own = ''root:content:edit-own''"
definition content_write :: string where "content_write = ''root:content:write''"
definition content_view_restricted :: string where "content_view_restricted = ''root:content:view-restricted''"
definition polls_write :: string where "polls_write = ''root:polls:write''"
definition comments_moderate :: string where "comments_moderate = ''root:comments:moderate''"
definition comments_ban :: string where "comments_ban = ''root:comments:ban''"
definition moderation_review :: string where "moderation_review = ''root:moderation:review''"
definition entities_write :: string where "entities_write = ''root:entities:write''"
definition channels_write :: string where "channels_write = ''root:channels:write''"
definition notifications_publish :: string where "notifications_publish = ''root:notifications:publish''"
definition import_write :: string where "import_write = ''root:import:write''"
definition avatars_write :: string where "avatars_write = ''root:avatars:write''"
definition accounts_lifecycle :: string where "accounts_lifecycle = ''root:accounts:lifecycle''"

definition permissions :: "string list" where
  "permissions = [content_create, content_edit_own, content_write, content_view_restricted, polls_write,
     comments_moderate, comments_ban, moderation_review, entities_write, channels_write, notifications_publish,
     import_write, avatars_write, accounts_lifecycle]"

definition channel_content_create :: string where "channel_content_create = ''channel:content:create''"
definition channel_content_edit_own :: string where "channel_content_edit_own = ''channel:content:edit-own''"
definition channel_content_write :: string where "channel_content_write = ''channel:content:write''"
definition channel_settings_manage :: string where "channel_settings_manage = ''channel:settings:manage''"
definition channel_media_write :: string where "channel_media_write = ''channel:media:write''"
definition channel_comments_moderate :: string where "channel_comments_moderate = ''channel:comments:moderate''"

definition channel_permissions :: "string list" where
  "channel_permissions = [channel_content_create, channel_content_edit_own, channel_content_write,
     channel_settings_manage, channel_media_write, channel_comments_moderate]"

section \<open>Staff\<close>

record staff_rights =
  sr_write :: bool
  sr_view :: bool

definition no_rights :: staff_rights where "no_rights = \<lparr>sr_write = False, sr_view = False\<rparr>"

text \<open>The rights reached are returned with an error; a reader keeps them.\<close>

definition staff_rights_of :: "authenticator \<Rightarrow> http_actor \<Rightarrow> can_memo \<Rightarrow> (staff_rights \<times> auth_err option) \<times> can_memo" where
  "staff_rights_of au a m =
     (if a_anonymous a \<or> a_id a = [] then ((no_rights, None), m)
      else (let ((w, e), m) = can au a content_write m
        in if e \<noteq> None then ((no_rights\<lparr>sr_write := w\<rparr>, e), m)
           else (let ((v, e), m) = can au a content_view_restricted m
             in ((\<lparr>sr_write = w, sr_view = v\<rparr>, e), m))))"

section \<open>Channels\<close>

text \<open>The active channels with a scope among ids: id and scope.\<close>

type_synonym channel_query = "string list \<Rightarrow> (string, (string \<times> string) list) result"

fun allow_channels ::
    "authenticator \<Rightarrow> http_actor \<Rightarrow> string list \<Rightarrow> (string \<times> string) list \<Rightarrow> (string \<times> bool) list \<Rightarrow> can_memo \<Rightarrow>
     (catalog_error, (string \<times> bool) list) result \<times> can_memo" where
  "allow_channels au a perms [] out m = (Inr out, m)"
| "allow_channels au a perms ((i, scope) # rows) out m =
     (if scope = [] then allow_channels au a perms rows out m
      else (let ((ok, e), m) = channel_editor au a scope perms m
        in case e of
             Some e \<Rightarrow> (Inl (CatAuth e), m)
           | None \<Rightarrow> allow_channels au a perms rows (AList.update i ok out) m))"

definition entity_allowed ::
    "authenticator \<Rightarrow> channel_query \<Rightarrow> http_actor \<Rightarrow> string list \<Rightarrow> bool \<Rightarrow> can_memo \<Rightarrow>
     (catalog_error, (string \<times> bool) list) result \<times> can_memo" where
  "entity_allowed au channels a ids creating m =
     (if a_anonymous a \<or> a_id a = [] \<or> ids = [] then (Inr [], m)
      else (case channels ids of
              Inl e \<Rightarrow> (Inl (CatStore e), m)
            | Inr rows \<Rightarrow> allow_channels au a
                (channel_content_write # (if creating then [channel_content_create] else [])) rows [] m))"

definition entity_editor ::
    "authenticator \<Rightarrow> channel_query \<Rightarrow> http_actor \<Rightarrow> string list \<Rightarrow> can_memo \<Rightarrow>
     (catalog_error, (string \<times> bool) list) result \<times> can_memo" where
  "entity_editor au channels a ids m = entity_allowed au channels a ids False m"

text \<open>For reads a check that fails answers that the actor edits nothing.\<close>

definition read_editors ::
    "authenticator \<Rightarrow> channel_query \<Rightarrow> http_actor \<Rightarrow> string list \<Rightarrow> can_memo \<Rightarrow> (string \<times> bool) list \<times> can_memo" where
  "read_editors au channels a ids m =
     (case entity_editor au channels a ids m of (Inl _, m) \<Rightarrow> ([], m) | (Inr out, m) \<Rightarrow> (out, m))"

definition flag :: "(string \<times> bool) list \<Rightarrow> string \<Rightarrow> bool" where
  "flag m k = (map_of m k = Some True)"

section \<open>One's own content\<close>

record own_access =
  ow_app :: bool
  ow_entities :: "string list"

definition no_access :: own_access where "no_access = \<lparr>ow_app = False, ow_entities = []\<rparr>"

definition own_allows :: "own_access \<Rightarrow> string \<Rightarrow> bool" where
  "own_allows x channel = (if channel = [] then ow_app x else channel \<in> set (ow_entities x))"

text \<open>
  The directory of scopes: what an account holds, by scope; and the active channels it owns
  or holds a scope of.
\<close>

record author_source =
  as_held :: "http_actor \<Rightarrow> (auth_err, (string \<times> string list) list) result"
  as_channels :: "string \<Rightarrow> string list \<Rightarrow> (auth_err, (string \<times> string) list) result"

definition http_member :: "http_actor \<Rightarrow> bool" where
  "http_member a = is_member (actor.truncate a)"

definition http_account :: "http_actor \<Rightarrow> string" where
  "http_account a = account_id (actor.truncate a)"

definition content_authority :: "author_source \<Rightarrow> http_actor \<Rightarrow> string list \<Rightarrow> (auth_err, string list) result" where
  "content_authority src a perms =
     (if \<not> http_member a then Inr []
      else bindr (as_held src a) (\<lambda>held.
        bindr (as_channels src (http_account a) (map fst held)) (\<lambda>rows.
          Inr (map fst (filter (\<lambda>(i, scope). list_ex (\<lambda>p. p \<in> set (case map_of held scope of None \<Rightarrow> [] | Some ps \<Rightarrow> ps)) perms) rows)))))"

definition content_editor_entities :: "author_source \<Rightarrow> http_actor \<Rightarrow> (auth_err, string list) result" where
  "content_editor_entities src a = content_authority src a [channel_content_write]"

definition content_author_entities :: "author_source \<Rightarrow> http_actor \<Rightarrow> bool \<Rightarrow> (auth_err, string list) result" where
  "content_author_entities src a editing =
     content_authority src a ([channel_content_edit_own, channel_content_write] @
       (if \<not> editing then [channel_content_create] else []))"

definition own_access_of ::
    "authenticator \<Rightarrow> author_source option \<Rightarrow> http_actor \<Rightarrow> bool \<Rightarrow> can_memo \<Rightarrow> (catalog_error, own_access) result \<times> can_memo" where
  "own_access_of au src a editing m =
     (if \<not> http_member a then (Inr no_access, m)
      else (let ((app, e), m) = can au a content_edit_own m
        in if e \<noteq> None then (Inl (CatAuth (the e)), m)
           else (let ((app, e), m) = (if \<not> editing \<and> \<not> app then can au a content_create m else ((app, None), m))
             in if e \<noteq> None then (Inl (CatAuth (the e)), m)
                else (case src of
                        None \<Rightarrow> (Inr \<lparr>ow_app = app, ow_entities = []\<rparr>, m)
                      | Some s \<Rightarrow>
                          (case content_author_entities s a editing of
                             Inl e \<Rightarrow> (Inl (CatAuth e), m)
                           | Inr ids \<Rightarrow> (Inr \<lparr>ow_app = app, ow_entities = ids\<rparr>, m))))))"

section \<open>Writes\<close>

text \<open>A content item as authorizing a write reads it; \<open>ow_created_by\<close> is its author or empty.\<close>

record owned =
  on_id :: string
  on_kind :: string
  on_state :: string
  on_owner_entity :: string
  on_published :: bool
  on_scheduled :: bool
  on_created_by :: string

record grants =
  gr_staff :: staff_rights
  gr_own :: own_access
  gr_editors :: "(string \<times> bool) list"

text \<open>The owner entities of items, each once.\<close>

definition owners_of :: "owned list \<Rightarrow> string list \<Rightarrow> string list" where
  "owners_of items ids = remdups (filter (\<lambda>g. g \<noteq> []) (map on_owner_entity (filter (\<lambda>x. on_id x \<in> set ids) items)))"

definition grants_for ::
    "authenticator \<Rightarrow> channel_query \<Rightarrow> author_source option \<Rightarrow> (string, owned list) result \<Rightarrow> http_actor \<Rightarrow> string list \<Rightarrow> can_memo \<Rightarrow>
     (catalog_error, grants) result \<times> can_memo" where
  "grants_for au channels src items a ids m =
     (let ((staff, e), m) = staff_rights_of au a m
      in if e \<noteq> None then (Inl (CatAuth (the e)), m)
         else if sr_write staff then (Inr \<lparr>gr_staff = staff, gr_own = no_access, gr_editors = []\<rparr>, m)
         else (case own_access_of au src a True m of
             (Inl e, m) \<Rightarrow> (Inl e, m)
           | (Inr own, m) \<Rightarrow>
               (case items of
                  Inl e \<Rightarrow> (Inl (CatStore e), m)
                | Inr rows \<Rightarrow>
                    (case entity_editor au channels a (owners_of rows ids) m of
                       (Inl e, m) \<Rightarrow> (Inl e, m)
                     | (Inr editors, m) \<Rightarrow> (Inr \<lparr>gr_staff = staff, gr_own = own, gr_editors = editors\<rparr>, m)))))"

definition created_by_viewer :: "http_actor \<Rightarrow> owned \<Rightarrow> bool" where
  "created_by_viewer a x \<longleftrightarrow> on_created_by x = http_account a \<and> http_account a \<noteq> []"

text \<open>
  \<open>locked\<close> are the rows of the write's own transaction; \<open>record_releases\<close> keeps the facts of
  audiences already reached before the edit.
\<close>

definition authorize_write ::
    "(string, owned list) result \<Rightarrow> (string list \<Rightarrow> string option) \<Rightarrow> http_actor \<Rightarrow> string list \<Rightarrow> grants \<Rightarrow>
     (catalog_error, (string \<times> owned) list) result" where
  "authorize_write locked record_releases a ids g =
     (let ids = sorted_keys ids
      in case locked of
           Inl e \<Rightarrow> Inl (CatStore e)
         | Inr items \<Rightarrow>
             (let rows = filter (\<lambda>x. on_id x \<in> set ids) items; out = map (\<lambda>x. (on_id x, x)) rows
              in if \<not> list_all (\<lambda>i. map_of out i \<noteq> None) ids then Inl CatNotFound
                 else if \<not> sr_write (gr_staff g) \<and>
                   list_ex (\<lambda>x. \<not> (created_by_viewer a x \<and> own_allows (gr_own g) (on_owner_entity x)) \<and>
                     \<not> flag (gr_editors g) (on_owner_entity x)) rows
                 then Inl CatForbidden
                 else (case record_releases ids of Some e \<Rightarrow> Inl (CatStore e) | None \<Rightarrow> Inr out)))"

definition authorize_create ::
    "authenticator \<Rightarrow> channel_query \<Rightarrow> http_actor \<Rightarrow> string list \<Rightarrow> can_memo \<Rightarrow> catalog_error option \<times> can_memo" where
  "authorize_create au channels a owners m =
     (let ((rights, e), m) = staff_rights_of au a m
      in if e \<noteq> None then (Some (CatAuth (the e)), m)
         else if sr_write rights then (None, m)
         else if \<not> http_member a then (Some CatForbidden, m)
         else (let ((ok, e), m) = (if [] \<in> set owners then can au a content_create m else ((True, None), m))
           in if e \<noteq> None then (Some (CatAuth (the e)), m)
              else if \<not> ok then (Some CatForbidden, m)
              else (case entity_allowed au channels a owners True m of
                  (Inl e, m) \<Rightarrow> (Some e, m)
                | (Inr allowed, m) \<Rightarrow>
                    (if list_ex (\<lambda>g. g \<noteq> [] \<and> \<not> flag allowed g) owners then Some CatForbidden else None, m))))"

end
