(* ===== verification/Polls.thy ===== *)
theory Polls
  imports Catalog_Access Media_Ops "HOL-Library.Product_Lexorder"
begin

text \<open>
  The polls of a tenant (\<open>internal/contentstore/polls.go\<close>): questions with their options and votes, every staff
  and public operation on them, and what a reader is shown. The table of the tenant is the state; an operation answers
  and leaves the table as its transaction does. The clock is the database's. Ids the database generates, its
  lower case, parsed dates, the projection of images and the rate limit are parameters.
\<close>

section \<open>Rows\<close>

datatype voter = UserVoter string | IpVoter string | ErasedVoter string

record ballot =
  bl_option :: string
  bl_voter :: voter

record poll_option =
  po_id :: string
  po_label :: string
  po_image :: string
  po_position :: int
  po_votes :: int

record poll_row =
  pq_id :: string
  pq_question :: string
  pq_language :: string
  pq_active :: bool
  pq_image :: string
  pq_live :: time
  pq_closes :: "time option"
  pq_deleted :: bool
  pq_options :: "poll_option list"
  pq_ballots :: "ballot list"

record poll_db =
  pd_polls :: "poll_row list"
  pd_erased :: "string list"

section \<open>Environment and errors\<close>

datatype poll_refusal = QuestionRequired | QuestionLong | LanguageRequired | LanguageUnknown | KindUnsupported | OptionsFew | OptionsMany
  | LabelRequired | LabelLong | LabelBlank | ClosesBeforeLive | QuestionBlank | OptionRequired | OptionInvalid | VoterUnknown
  | OptionForeign | PollIsClosed | StateUnknown | ImageRequired | ImageInvalid

datatype poll_error = PollAuth auth_err | PollForbidden | PollUnauthorized | PollNotFound | PollBad poll_refusal | PollVoted | PollErased
  | PollLimited int | PollNoMedia | PollStore | PollMedia string

record polls_env =
  ps_auth :: authenticator
  ps_languages :: "string list"
  ps_media :: bool
  ps_retire :: "string \<Rightarrow> string option"
  ps_images :: "(string \<times> string) list \<Rightarrow> (string, string \<times> string \<Rightarrow> string option) result"
  ps_lower :: "string \<Rightarrow> string"
  ps_day :: "string \<Rightarrow> (time \<times> time) option"
  ps_month :: "string \<Rightarrow> (time \<times> time) option"
  ps_anonymous :: bool
  ps_limit :: "http_actor \<Rightarrow> int option"

definition require_perm :: "authenticator \<Rightarrow> http_actor \<Rightarrow> string \<Rightarrow> poll_error option" where
  "require_perm au a p =
     (case fst (can au a p empty_can_memo) of
        (_, Some e) \<Rightarrow> Some (PollAuth e)
      | (b, None) \<Rightarrow> if \<not> b then Some PollForbidden else None)"

definition uuid_re :: "string \<Rightarrow> bool" where
  "uuid_re s \<longleftrightarrow> uuid_text (map lower_byte s)"

text \<open>What PostgreSQL keeps: times of microseconds, texts without a zero byte, 32-bit integers.\<close>

definition pg_time :: "time \<Rightarrow> time" where
  "pg_time t = t div 1000 * 1000"

definition pg_text :: "string \<Rightarrow> bool" where
  "pg_text s \<longleftrightarrow> CHR 0x00 \<notin> set s"

definition pg_int :: "int \<Rightarrow> bool" where
  "pg_int v \<longleftrightarrow> - 2147483648 \<le> v \<and> v \<le> 2147483647"

definition max_poll_options :: nat where "max_poll_options = 10"
definition max_question_length :: nat where "max_question_length = 300"
definition max_label_length :: nat where "max_label_length = 200"

section \<open>Lookups\<close>

definition poll_at :: "poll_db \<Rightarrow> string \<Rightarrow> poll_row option" where
  "poll_at db i = List.find (\<lambda>q. pq_id q = map lower_byte i \<and> \<not> pq_deleted q) (pd_polls db)"

definition update_poll :: "string \<Rightarrow> (poll_row \<Rightarrow> poll_row) \<Rightarrow> poll_db \<Rightarrow> poll_db" where
  "update_poll i f db = db\<lparr>pd_polls := map (\<lambda>q. if pq_id q = map lower_byte i \<and> \<not> pq_deleted q then f q else q) (pd_polls db)\<rparr>"

definition option_at :: "poll_row \<Rightarrow> string \<Rightarrow> poll_option option" where
  "option_at q i = List.find (\<lambda>x. po_id x = map lower_byte i) (pq_options q)"

definition poll_ids :: "poll_db \<Rightarrow> string list" where
  "poll_ids db = map pq_id (pd_polls db)"

definition option_ids :: "poll_db \<Rightarrow> string list" where
  "option_ids db = concat (map (\<lambda>q. map po_id (pq_options q)) (pd_polls db))"

section \<open>Views\<close>

record poll_view =
  pw_row :: poll_row
  pw_closed :: bool
  pw_total :: int
  pw_voted :: bool
  pw_mine :: string

definition reaction_key :: "http_actor \<Rightarrow> (string \<times> string) option" where
  "reaction_key a =
     (if http_member a then Some (http_account a, a_ip a)
      else if a_anonymous a \<and> a_ip a \<noteq> [] then Some ([], a_ip a)
      else None)"

definition voter_of :: "string \<times> string \<Rightarrow> voter" where
  "voter_of k = (if fst k \<noteq> [] then UserVoter (fst k) else IpVoter (snd k))"

definition past_close :: "time \<Rightarrow> poll_row \<Rightarrow> bool" where
  "past_close now q \<longleftrightarrow> (case pq_closes q of None \<Rightarrow> False | Some t \<Rightarrow> t \<le> now)"

definition vote_for :: "http_actor \<Rightarrow> poll_row \<Rightarrow> string option" where
  "vote_for a q =
     (case reaction_key a of
        None \<Rightarrow> None
      | Some k \<Rightarrow> map_option bl_option (List.find (\<lambda>b. bl_voter b = voter_of k) (pq_ballots q)))"

text \<open>The images of a view, each looked up once.\<close>

definition view_images :: "poll_row list \<Rightarrow> (string \<times> string) list" where
  "view_images qs = rev (remdups (rev (filter (\<lambda>(i, n). n \<noteq> []) (concat (map (\<lambda>q. (pq_id q, pq_image q) # map (\<lambda>x. (pq_id q, po_image x)) (sort_key po_position (pq_options q))) qs)))))"

definition resolve_images :: "polls_env \<Rightarrow> (string \<times> string) list \<Rightarrow> (poll_error, string \<times> string \<Rightarrow> string) result" where
  "resolve_images e keys =
     (if \<not> ps_media e \<or> keys = [] then Inr (\<lambda>_. [])
      else (case ps_images e keys of
          Inl err \<Rightarrow> Inl (PollMedia err)
        | Inr url \<Rightarrow> Inr (\<lambda>k. if k \<in> set keys then (case url k of Some u \<Rightarrow> u | None \<Rightarrow> []) else [])))"

text \<open>The options in the order of their positions; the images are the URLs. Ballots are not shown.\<close>

definition poll_shown :: "time \<Rightarrow> http_actor \<Rightarrow> (string \<times> string \<Rightarrow> string) \<Rightarrow> poll_row \<Rightarrow> poll_view" where
  "poll_shown now a url q =
     (let shown = q\<lparr>pq_image := url (pq_id q, pq_image q), pq_ballots := [],
            pq_options := map (\<lambda>x. x\<lparr>po_image := url (pq_id q, po_image x)\<rparr>) (sort_key po_position (pq_options q))\<rparr>
      in \<lparr>pw_row = shown, pw_closed = (\<not> pq_active q \<or> past_close now q), pw_total = sum_list (map po_votes (pq_options q)),
          pw_voted = (vote_for a q \<noteq> None), pw_mine = (case vote_for a q of Some i \<Rightarrow> i | None \<Rightarrow> [])\<rparr>)"

definition attach_polls :: "polls_env \<Rightarrow> time \<Rightarrow> http_actor \<Rightarrow> poll_row list \<Rightarrow> (poll_error, poll_view list) result" where
  "attach_polls e now a qs = bindr (resolve_images e (view_images qs)) (\<lambda>url. Inr (map (poll_shown now a url) qs))"

text \<open>A poll with whether its start is still ahead.\<close>

definition get_scheduled :: "polls_env \<Rightarrow> time \<Rightarrow> http_actor \<Rightarrow> string \<Rightarrow> poll_db \<Rightarrow> (poll_error, poll_view \<times> bool) result" where
  "get_scheduled e now a i db =
     (if \<not> uuid_re i then Inl PollNotFound
      else (case poll_at db i of
          None \<Rightarrow> Inl PollNotFound
        | Some q \<Rightarrow> bindr (attach_polls e now a [q]) (\<lambda>vs. Inr (hd vs, now < pq_live q))))"

definition get_poll :: "polls_env \<Rightarrow> time \<Rightarrow> http_actor \<Rightarrow> string \<Rightarrow> poll_db \<Rightarrow> (poll_error, poll_view) result" where
  "get_poll e now a i db = bindr (get_scheduled e now a i db) (\<lambda>v. Inr (fst v))"

definition handle_get :: "polls_env \<Rightarrow> time \<Rightarrow> http_actor \<Rightarrow> string \<Rightarrow> poll_db \<Rightarrow> (poll_error, poll_view) result" where
  "handle_get e now a i db =
     bindr (get_scheduled e now a i db) (\<lambda>(v, scheduled).
       if scheduled \<and> require_perm (ps_auth e) a polls_write \<noteq> None then Inl PollNotFound else Inr v)"

section \<open>Lists\<close>

record list_filter =
  lf_language :: string
  lf_month :: string
  lf_date :: string
  lf_state :: string
  lf_query :: string
  lf_admin :: bool
  lf_limit :: nat
  lf_offset :: nat

definition parse_window :: "polls_env \<Rightarrow> string \<Rightarrow> string \<Rightarrow> (time \<times> time) option" where
  "parse_window e month date =
     (case (if date \<noteq> [] then ps_day e date else None) of
        Some w \<Rightarrow> Some w
      | None \<Rightarrow> if month \<noteq> [] then ps_month e month else None)"

definition poll_states :: "time \<Rightarrow> string \<Rightarrow> (poll_row \<Rightarrow> bool) option" where
  "poll_states now s = map_of
     [(''live'', \<lambda>q. pq_active q \<and> pq_live q \<le> now \<and> \<not> past_close now q),
      (''scheduled'', \<lambda>q. pq_active q \<and> now < pq_live q),
      (''closed'', \<lambda>q. pq_active q \<and> pq_live q \<le> now \<and> past_close now q),
      (''inactive'', \<lambda>q. \<not> pq_active q)] s"

definition contains_text :: "string \<Rightarrow> string \<Rightarrow> bool" where
  "contains_text s t \<longleftrightarrow> sublist t s"

definition poll_listed :: "polls_env \<Rightarrow> time \<Rightarrow> list_filter \<Rightarrow> (poll_row \<Rightarrow> bool) \<Rightarrow> poll_row \<Rightarrow> bool" where
  "poll_listed e now f state q \<longleftrightarrow>
     (let w = parse_window e (lf_month f) (lf_date f); text = trim_space (lf_query f)
      in \<not> pq_deleted q \<and>
        (lf_admin f \<or> pq_live q \<le> now \<and> (w \<noteq> None \<or> pq_active q)) \<and>
        (lf_language f = [] \<or> pq_language q = lf_language f) \<and>
        (case w of None \<Rightarrow> True | Some (lo, hi) \<Rightarrow> pg_time lo \<le> pq_live q \<and> pq_live q < pg_time hi) \<and>
        state q \<and>
        (text = [] \<or> contains_text (ps_lower e (pq_question q)) (ps_lower e text)))"

definition list_polls :: "polls_env \<Rightarrow> time \<Rightarrow> http_actor \<Rightarrow> list_filter \<Rightarrow> poll_db \<Rightarrow> (poll_error, poll_view list) result" where
  "list_polls e now a f db =
     bindr (if lf_state f = [] then Inr (\<lambda>_. True) else (case poll_states now (lf_state f) of None \<Rightarrow> Inl (PollBad StateUnknown) | Some c \<Rightarrow> Inr c)) (\<lambda>state.
       if \<not> (pg_text (lf_language f) \<and> pg_text (trim_space (lf_query f))) then Inl PollStore
       else attach_polls e now a (take (lf_limit f) (drop (lf_offset f)
         (rev (sort_key (\<lambda>q. (pq_live q, pq_id q)) (filter (poll_listed e now f state) (pd_polls db)))))))"

definition handle_list :: "polls_env \<Rightarrow> time \<Rightarrow> http_actor \<Rightarrow> list_filter \<Rightarrow> poll_db \<Rightarrow> (poll_error, poll_view list) result" where
  "handle_list e now a f db = list_polls e now a (f\<lparr>lf_admin := False, lf_state := [], lf_query := []\<rparr>) db"

definition handle_admin_list :: "polls_env \<Rightarrow> time \<Rightarrow> http_actor \<Rightarrow> list_filter \<Rightarrow> poll_db \<Rightarrow> (poll_error, poll_view list) result" where
  "handle_admin_list e now a f db =
     (case require_perm (ps_auth e) a polls_write of Some err \<Rightarrow> Inl err | None \<Rightarrow> list_polls e now a (f\<lparr>lf_admin := True\<rparr>) db)"

section \<open>Staff operations on polls\<close>

record poll_input =
  pi_kind :: string
  pi_question :: string
  pi_language :: string
  pi_live :: "time option"
  pi_closes :: "time option"
  pi_options :: "(string \<times> int) list"

definition label_error :: "string \<Rightarrow> poll_refusal option" where
  "label_error l =
     (if trim_space l = [] then Some LabelRequired
      else if length (runes (trim_space l)) > max_label_length then Some LabelLong else None)"

definition input_error :: "polls_env \<Rightarrow> poll_input \<Rightarrow> poll_refusal option" where
  "input_error e p =
     (let q = trim_space (pi_question p)
      in first_error ([
        refuse_if (q = []) QuestionRequired,
        refuse_if (length (runes q) > max_question_length) QuestionLong,
        refuse_if (pi_language p = []) LanguageRequired,
        refuse_if (pi_language p \<notin> set (ps_languages e)) LanguageUnknown,
        refuse_if (pi_kind p \<noteq> [] \<and> pi_kind p \<noteq> ''multiple_choice'') KindUnsupported,
        refuse_if (length (pi_options p) < 2) OptionsFew,
        refuse_if (length (pi_options p) > max_poll_options) OptionsMany] @ map (\<lambda>(l, n). label_error l) (pi_options p)))"

text \<open>The rows of the options; \<open>gen n\<close> is the id the database generates for the \<open>n\<close>-th.\<close>

definition option_rows :: "(nat \<Rightarrow> string) \<Rightarrow> (string \<times> int) list \<Rightarrow> poll_option list" where
  "option_rows gen xs = map (\<lambda>(n, l, p). \<lparr>po_id = map lower_byte (gen n), po_label = trim_space l, po_image = [], po_position = p, po_votes = 0\<rparr>)
     (zip [0..<length xs] xs)"

definition option_storable :: "poll_option \<Rightarrow> bool" where
  "option_storable x \<longleftrightarrow> pg_text (po_label x) \<and> pg_int (po_position x)"

type_synonym 'a polled = "(poll_error, 'a) result \<times> poll_db"

definition create_poll :: "polls_env \<Rightarrow> time \<Rightarrow> http_actor \<Rightarrow> string \<Rightarrow> (nat \<Rightarrow> string) \<Rightarrow> poll_input \<Rightarrow> poll_db \<Rightarrow> poll_view polled" where
  "create_poll e now a new gen p db =
     (case require_perm (ps_auth e) a polls_write of
        Some err \<Rightarrow> (Inl err, db)
      | None \<Rightarrow>
          (case input_error e p of
             Some r \<Rightarrow> (Inl (PollBad r), db)
           | None \<Rightarrow>
               (let live = pg_time (case pi_live p of Some t \<Rightarrow> t | None \<Rightarrow> now); closes = map_option pg_time (pi_closes p);
                    rows = option_rows gen (pi_options p); ids = map po_id rows;
                    q = \<lparr>pq_id = map lower_byte new, pq_question = trim_space (pi_question p), pq_language = pi_language p, pq_active = True, pq_image = [],
                      pq_live = live, pq_closes = closes, pq_deleted = False, pq_options = rows, pq_ballots = []\<rparr>;
                    db' = db\<lparr>pd_polls := pd_polls db @ [q]\<rparr>
                in if \<not> (pg_text (pq_question q) \<and> pg_text (pq_language q) \<and> uuid_re new) then (Inl PollStore, db)
                   else if \<not> (case closes of None \<Rightarrow> True | Some t \<Rightarrow> live < t) then (Inl (PollBad ClosesBeforeLive), db)
                   else if pq_id q \<in> set (poll_ids db) \<or> \<not> distinct ids \<or> list_ex (\<lambda>i. i \<in> set (option_ids db)) ids \<or> \<not> list_all option_storable rows
                   then (Inl PollStore, db)
                   else (get_poll e now a new db', db'))))"

record poll_update =
  pu_question :: "string option"
  pu_active :: "bool option"
  pu_live :: "time option"
  pu_closes :: "time option option"

definition question_error :: "string option \<Rightarrow> poll_refusal option" where
  "question_error q =
     (case q of
        None \<Rightarrow> None
      | Some s \<Rightarrow> if trim_space s = [] then Some QuestionBlank
          else if length (runes (trim_space s)) > max_question_length then Some QuestionLong else None)"

text \<open>The check compares the times as they are given, the statement stores them in microseconds.\<close>

definition update_poll_row :: "poll_update \<Rightarrow> poll_row \<Rightarrow> poll_row" where
  "update_poll_row u q = q\<lparr>
     pq_question := (case pu_question u of Some s \<Rightarrow> trim_space s | None \<Rightarrow> pq_question q),
     pq_active := (case pu_active u of Some b \<Rightarrow> b | None \<Rightarrow> pq_active q),
     pq_live := (case pu_live u of Some t \<Rightarrow> pg_time t | None \<Rightarrow> pq_live q),
     pq_closes := (case pu_closes u of Some c \<Rightarrow> map_option pg_time c | None \<Rightarrow> pq_closes q)\<rparr>"

definition edit_poll :: "polls_env \<Rightarrow> time \<Rightarrow> http_actor \<Rightarrow> string \<Rightarrow> poll_update \<Rightarrow> poll_db \<Rightarrow> poll_view polled" where
  "edit_poll e now a i u db =
     (case require_perm (ps_auth e) a polls_write of
        Some err \<Rightarrow> (Inl err, db)
      | None \<Rightarrow>
          if \<not> uuid_re i then (Inl PollNotFound, db)
          else (case question_error (pu_question u) of
             Some r \<Rightarrow> (Inl (PollBad r), db)
           | None \<Rightarrow>
               (case poll_at db i of
                  None \<Rightarrow> (Inl PollNotFound, db)
                | Some q \<Rightarrow>
                    (let live = (case pu_live u of Some t \<Rightarrow> t | None \<Rightarrow> pq_live q); closes = (case pu_closes u of Some c \<Rightarrow> c | None \<Rightarrow> pq_closes q);
                         db' = update_poll i (update_poll_row u) db
                     in if (pu_live u \<noteq> None \<or> pu_closes u \<noteq> None) \<and> (case closes of None \<Rightarrow> False | Some t \<Rightarrow> \<not> live < t)
                        then (Inl (PollBad ClosesBeforeLive), db)
                        else if \<not> (case pu_question u of None \<Rightarrow> True | Some s \<Rightarrow> pg_text (trim_space s)) then (Inl PollStore, db)
                        else (get_poll e now a i db', db')))))"

definition soft_delete_poll :: "polls_env \<Rightarrow> http_actor \<Rightarrow> string \<Rightarrow> poll_db \<Rightarrow> unit polled" where
  "soft_delete_poll e a i db =
     (case require_perm (ps_auth e) a polls_write of
        Some err \<Rightarrow> (Inl err, db)
      | None \<Rightarrow>
          if \<not> uuid_re i then (Inl PollNotFound, db)
          else (case poll_at db i of
             None \<Rightarrow> (Inl PollNotFound, db)
           | Some q \<Rightarrow>
               (case (if ps_media e then ps_retire e (pq_id q) else None) of
                  Some err \<Rightarrow> (Inl (PollMedia err), db)
                | None \<Rightarrow> (Inr (), update_poll i (\<lambda>q. q\<lparr>pq_deleted := True\<rparr>) db))))"

section \<open>Votes\<close>

definition poll_open :: "time \<Rightarrow> string \<Rightarrow> poll_db \<Rightarrow> (poll_error, poll_row) result" where
  "poll_open now i db =
     (if \<not> uuid_re i then Inl PollNotFound
      else (case poll_at db i of
          None \<Rightarrow> Inl PollNotFound
        | Some q \<Rightarrow> if \<not> pq_live q \<le> now then Inl PollNotFound
            else if \<not> pq_active q \<or> past_close now q then Inl (PollBad PollIsClosed) else Inr q))"

definition count_vote :: "string \<Rightarrow> voter \<Rightarrow> poll_row \<Rightarrow> poll_row" where
  "count_vote oid v q = q\<lparr>
     pq_options := map (\<lambda>x. if po_id x = map lower_byte oid then x\<lparr>po_votes := po_votes x + 1\<rparr> else x) (pq_options q),
     pq_ballots := pq_ballots q @ [\<lparr>bl_option = map lower_byte oid, bl_voter = v\<rparr>]\<rparr>"

definition vote :: "polls_env \<Rightarrow> time \<Rightarrow> http_actor \<Rightarrow> string \<Rightarrow> string \<Rightarrow> poll_db \<Rightarrow> poll_view polled" where
  "vote e now a i oid db =
     (if a_account a \<noteq> None \<and> \<not> http_member a then (Inl PollForbidden, db)
      else if oid = [] then (Inl (PollBad OptionRequired), db)
      else if \<not> uuid_re oid then (Inl (PollBad OptionInvalid), db)
      else (case reaction_key a of
          None \<Rightarrow> (Inl (PollBad VoterUnknown), db)
        | Some k \<Rightarrow>
            if http_account a \<noteq> [] \<and> http_account a \<in> set (pd_erased db) then (Inl PollErased, db)
            else (case poll_open now i db of
                Inl err \<Rightarrow> (Inl err, db)
              | Inr q \<Rightarrow>
                  (case option_at q oid of
                     None \<Rightarrow> (Inl (PollBad OptionForeign), db)
                   | Some x \<Rightarrow>
                       if list_ex (\<lambda>b. bl_voter b = voter_of k) (pq_ballots q) then (get_poll e now a i db, db)
                       else if \<not> pg_int (po_votes x + 1) then (Inl PollStore, db)
                       else (let db' = update_poll i (count_vote oid (voter_of k)) db in (get_poll e now a i db', db'))))))"

text \<open>\<open>participant\<close>: who may interact, anonymous visitors only when \<open>allowed\<close>.\<close>

definition participant :: "http_actor \<Rightarrow> bool \<Rightarrow> poll_error option" where
  "participant a allowed =
     (if http_member a then None
      else if a_anonymous a \<or> a_id a = [] then (if allowed then None else Some PollUnauthorized)
      else Some PollForbidden)"

definition handle_vote :: "polls_env \<Rightarrow> time \<Rightarrow> http_actor \<Rightarrow> string \<Rightarrow> string \<Rightarrow> poll_db \<Rightarrow> poll_view polled" where
  "handle_vote e now a i oid db =
     (case participant a (ps_anonymous e) of
        Some err \<Rightarrow> (Inl err, db)
      | None \<Rightarrow> (case ps_limit e a of Some wait \<Rightarrow> (Inl (PollLimited wait), db) | None \<Rightarrow> vote e now a i oid db))"

text \<open>\<open>AnonymizeAccount\<close>: the votes of an account stay without it, and it cannot vote again.\<close>

definition anonymize_votes :: "string \<Rightarrow> string \<Rightarrow> poll_db \<Rightarrow> poll_db" where
  "anonymize_votes account anon db =
     (if trim_space account = [] then db
      else db\<lparr>pd_erased := (if account \<in> set (pd_erased db) then pd_erased db else pd_erased db @ [account]),
        pd_polls := map (\<lambda>q. q\<lparr>pq_ballots := map (\<lambda>b. if bl_voter b = UserVoter account then b\<lparr>bl_voter := ErasedVoter anon\<rparr> else b) (pq_ballots q)\<rparr>)
          (pd_polls db)\<rparr>)"

section \<open>Options\<close>

definition lock_choices :: "string \<Rightarrow> poll_db \<Rightarrow> (poll_error, poll_row) result" where
  "lock_choices i db =
     (case poll_at db i of
        None \<Rightarrow> Inl PollNotFound
      | Some q \<Rightarrow> if pq_ballots q \<noteq> [] then Inl PollVoted else Inr q)"

record option_patch =
  ot_label :: "string option"
  ot_position :: "int option"

definition next_position :: "poll_row \<Rightarrow> int" where
  "next_position q = (if pq_options q = [] then 0 else Max (set (map po_position (pq_options q))) + 1)"

definition add_option :: "polls_env \<Rightarrow> http_actor \<Rightarrow> string \<Rightarrow> string \<Rightarrow> option_patch \<Rightarrow> poll_db \<Rightarrow> poll_option polled" where
  "add_option e a i gen p db =
     (case require_perm (ps_auth e) a polls_write of
        Some err \<Rightarrow> (Inl err, db)
      | None \<Rightarrow>
          if \<not> uuid_re i then (Inl PollNotFound, db)
          else (case (case ot_label p of None \<Rightarrow> Some LabelRequired | Some l \<Rightarrow> label_error l) of
             Some r \<Rightarrow> (Inl (PollBad r), db)
           | None \<Rightarrow>
               (case lock_choices i db of
                  Inl err \<Rightarrow> (Inl err, db)
                | Inr q \<Rightarrow>
                    if length (pq_options q) \<ge> max_poll_options then (Inl (PollBad OptionsMany), db)
                    else (let x = \<lparr>po_id = map lower_byte gen, po_label = trim_space (case ot_label p of Some l \<Rightarrow> l | None \<Rightarrow> []), po_image = [],
                            po_position = (case ot_position p of Some n \<Rightarrow> n | None \<Rightarrow> next_position q), po_votes = 0\<rparr>
                       in if \<not> option_storable x \<or> po_id x \<in> set (option_ids db) then (Inl PollStore, db)
                          else (Inr x, update_poll i (\<lambda>q. q\<lparr>pq_options := pq_options q @ [x]\<rparr>) db)))))"

text \<open>\<open>handleUpdateOption\<close> refuses a blank label by its own message.\<close>

definition patch_error :: "option_patch \<Rightarrow> poll_refusal option" where
  "patch_error p =
     (case ot_label p of
        None \<Rightarrow> None
      | Some l \<Rightarrow> if trim_space l = [] then Some LabelBlank else if length (runes (trim_space l)) > max_label_length then Some LabelLong else None)"

definition patch_option :: "option_patch \<Rightarrow> poll_option \<Rightarrow> poll_option" where
  "patch_option p x = x\<lparr>po_label := (case ot_label p of Some l \<Rightarrow> trim_space l | None \<Rightarrow> po_label x),
     po_position := (case ot_position p of Some n \<Rightarrow> n | None \<Rightarrow> po_position x)\<rparr>"

definition change_option :: "string \<Rightarrow> (poll_option \<Rightarrow> poll_option) \<Rightarrow> poll_row \<Rightarrow> poll_row" where
  "change_option oid f q = q\<lparr>pq_options := map (\<lambda>x. if po_id x = map lower_byte oid then f x else x) (pq_options q)\<rparr>"

definition update_option :: "polls_env \<Rightarrow> http_actor \<Rightarrow> string \<Rightarrow> string \<Rightarrow> option_patch \<Rightarrow> poll_db \<Rightarrow> poll_option polled" where
  "update_option e a i oid p db =
     (case require_perm (ps_auth e) a polls_write of
        Some err \<Rightarrow> (Inl err, db)
      | None \<Rightarrow>
          if \<not> uuid_re i \<or> \<not> uuid_re oid then (Inl PollNotFound, db)
          else (case patch_error p of
             Some r \<Rightarrow> (Inl (PollBad r), db)
           | None \<Rightarrow>
               (case lock_choices i db of
                  Inl err \<Rightarrow> (Inl err, db)
                | Inr q \<Rightarrow>
                    if \<not> (case ot_label p of None \<Rightarrow> True | Some l \<Rightarrow> pg_text (trim_space l)) \<or> \<not> (case ot_position p of None \<Rightarrow> True | Some n \<Rightarrow> pg_int n)
                    then (Inl PollStore, db)
                    else (case option_at q oid of
                        None \<Rightarrow> (Inl PollNotFound, db)
                      | Some x \<Rightarrow>
                          (let x = patch_option p x; db' = update_poll i (change_option oid (patch_option p)) db
                           in (bindr (resolve_images e (if po_image x = [] then [] else [(pq_id q, po_image x)])) (\<lambda>url.
                                 Inr (x\<lparr>po_image := url (pq_id q, po_image x)\<rparr>)), db'))))))"

definition delete_option :: "polls_env \<Rightarrow> http_actor \<Rightarrow> string \<Rightarrow> string \<Rightarrow> poll_db \<Rightarrow> unit polled" where
  "delete_option e a i oid db =
     (case require_perm (ps_auth e) a polls_write of
        Some err \<Rightarrow> (Inl err, db)
      | None \<Rightarrow>
          if \<not> uuid_re i \<or> \<not> uuid_re oid then (Inl PollNotFound, db)
          else (case lock_choices i db of
             Inl err \<Rightarrow> (Inl err, db)
           | Inr q \<Rightarrow>
               if option_at q oid = None then (Inl PollNotFound, db)
               else if length (pq_options q) < 3 then (Inl (PollBad OptionsFew), db)
               else (Inr (), update_poll i (\<lambda>q. q\<lparr>pq_options := filter (\<lambda>x. po_id x \<noteq> map lower_byte oid) (pq_options q)\<rparr>) db)))"

section \<open>Images\<close>

definition decode_image :: "string option \<Rightarrow> (poll_error, string) result" where
  "decode_image named =
     (case named of
        None \<Rightarrow> Inl (PollBad ImageRequired)
      | Some n \<Rightarrow> if n \<noteq> [] \<and> \<not> valid_named n then Inl (PollBad ImageInvalid) else Inr n)"

text \<open>\<open>setImage\<close>; the URL is that of the image now set.\<close>

definition set_image :: "polls_env \<Rightarrow> http_actor \<Rightarrow> string \<Rightarrow> string option \<Rightarrow> string option \<Rightarrow> poll_db \<Rightarrow> string polled" where
  "set_image e a i oid named db =
     (case require_perm (ps_auth e) a polls_write of
        Some err \<Rightarrow> (Inl err, db)
      | None \<Rightarrow>
          if \<not> uuid_re i then (Inl PollNotFound, db)
          else (case decode_image named of
             Inl err \<Rightarrow> (Inl err, db)
           | Inr name \<Rightarrow>
               (case (if oid \<noteq> None then bindr (lock_choices i db) (\<lambda>_. Inr ()) else Inr ()) of
                  Inl err \<Rightarrow> (Inl err, db)
                | Inr _ \<Rightarrow>
                    if \<not> ps_media e then (Inl PollNoMedia, db)
                    else (case poll_at db i of
                        None \<Rightarrow> (Inl PollNotFound, db)
                      | Some q \<Rightarrow>
                          if (case oid of None \<Rightarrow> False | Some o' \<Rightarrow> option_at q o' = None) then (Inl PollNotFound, db)
                          else (let f = (case oid of None \<Rightarrow> (\<lambda>q. q\<lparr>pq_image := name\<rparr>) | Some o' \<Rightarrow> change_option o' (\<lambda>x. x\<lparr>po_image := name\<rparr>))
                             in (bindr (resolve_images e (if name = [] then [] else [(pq_id q, name)])) (\<lambda>url. Inr (url (pq_id q, name))),
                                 update_poll i f db))))))"

definition set_question_image :: "polls_env \<Rightarrow> http_actor \<Rightarrow> string \<Rightarrow> string option \<Rightarrow> poll_db \<Rightarrow> string polled" where
  "set_question_image e a i named db = set_image e a i None named db"

definition set_option_image :: "polls_env \<Rightarrow> http_actor \<Rightarrow> string \<Rightarrow> string \<Rightarrow> string option \<Rightarrow> poll_db \<Rightarrow> string polled" where
  "set_option_image e a i oid named db =
     (if \<not> uuid_re oid then (Inl PollNotFound, db) else set_image e a i (Some oid) named db)"

section \<open>Sequences of calls\<close>

datatype poll_call = CreatePoll http_actor string "nat \<Rightarrow> string" poll_input | EditPoll http_actor string poll_update | DeletePoll http_actor string
  | VotePoll http_actor string string | AnonymizeVotes string string | AddOption http_actor string string option_patch
  | UpdateOption http_actor string string option_patch | DeleteOption http_actor string string
  | QuestionImage http_actor string "string option" | OptionImage http_actor string string "string option"

fun after_call :: "polls_env \<Rightarrow> time \<Rightarrow> poll_call \<Rightarrow> poll_db \<Rightarrow> poll_db" where
  "after_call e now (CreatePoll a new gen p) db = snd (create_poll e now a new gen p db)"
| "after_call e now (EditPoll a i u) db = snd (edit_poll e now a i u db)"
| "after_call e now (DeletePoll a i) db = snd (soft_delete_poll e a i db)"
| "after_call e now (VotePoll a i oid) db = snd (handle_vote e now a i oid db)"
| "after_call e now (AnonymizeVotes account anon) db = anonymize_votes account anon db"
| "after_call e now (AddOption a i gen p) db = snd (add_option e a i gen p db)"
| "after_call e now (UpdateOption a i oid p) db = snd (update_option e a i oid p db)"
| "after_call e now (DeleteOption a i oid) db = snd (delete_option e a i oid db)"
| "after_call e now (QuestionImage a i named) db = snd (set_question_image e a i named db)"
| "after_call e now (OptionImage a i oid named) db = snd (set_option_image e a i oid named db)"

end
