(* ===== verification/Poll_Props.thy ===== *)
theory Poll_Props
  imports Polls Download_Props
begin

text \<open>
  What the polls of a tenant guarantee. The calls are seen as moves of the table: a new poll, an edit of its texts and times, a change
  of the choices of a poll without votes, a vote and the erasure of an account. Every call is a
  move or changes nothing, and every move keeps the tallies equal to the votes.
\<close>

section \<open>Consistent tables\<close>

definition times_ok :: "poll_row \<Rightarrow> bool" where
  "times_ok q \<longleftrightarrow> pg_time (pq_live q) = pq_live q \<and> (case pq_closes q of None \<Rightarrow> True | Some t \<Rightarrow> pg_time t = t \<and> pq_live q \<le> t)"

definition tally :: "poll_row \<Rightarrow> string \<Rightarrow> int" where
  "tally q i = int (length (filter (\<lambda>b. bl_option b = i) (pq_ballots q)))"

definition erased_voter :: "voter \<Rightarrow> bool" where
  "erased_voter v \<longleftrightarrow> (case v of ErasedVoter _ \<Rightarrow> True | _ \<Rightarrow> False)"

text \<open>The votes of a poll: one of each voter, each for a choice, counted at the choices.\<close>

definition ballots_ok :: "poll_row \<Rightarrow> bool" where
  "ballots_ok q \<longleftrightarrow> list_all (\<lambda>b. bl_option b \<in> po_id ` set (pq_options q)) (pq_ballots q) \<and>
     list_all (\<lambda>x. po_votes x = tally q (po_id x)) (pq_options q) \<and>
     distinct (filter (\<lambda>v. \<not> erased_voter v) (map bl_voter (pq_ballots q)))"

definition choices_ok :: "poll_option list \<Rightarrow> bool" where
  "choices_ok xs \<longleftrightarrow> distinct (map po_id xs) \<and> 2 \<le> length xs \<and> length xs \<le> max_poll_options"

definition poll_ok :: "poll_row \<Rightarrow> bool" where
  "poll_ok q \<longleftrightarrow> times_ok q \<and> choices_ok (pq_options q) \<and> ballots_ok q"

definition no_erased :: "string list \<Rightarrow> poll_row \<Rightarrow> bool" where
  "no_erased erased q \<longleftrightarrow> list_all (\<lambda>b. \<forall>u. bl_voter b = UserVoter u \<longrightarrow> u \<notin> set erased) (pq_ballots q)"

definition polls_ok :: "poll_db \<Rightarrow> bool" where
  "polls_ok db \<longleftrightarrow> distinct (poll_ids db) \<and> distinct (option_ids db) \<and> list_all poll_ok (pd_polls db) \<and> list_all (no_erased (pd_erased db)) (pd_polls db)"

section \<open>Moves\<close>

text \<open>What is kept of the choices of a poll once it has votes: all but the counts.\<close>

inductive poll_move :: "poll_db \<Rightarrow> poll_db \<Rightarrow> bool" where
  stay: "poll_move db db"
| new: "pq_id q \<notin> set (poll_ids db) \<Longrightarrow> set (map po_id (pq_options q)) \<inter> set (option_ids db) = {} \<Longrightarrow> poll_ok q \<Longrightarrow> pq_ballots q = [] \<Longrightarrow>
    poll_move db (db\<lparr>pd_polls := pd_polls db @ [q]\<rparr>)"
| edit: "poll_at db i = Some q \<Longrightarrow> pq_id (f q) = pq_id q \<Longrightarrow> pq_options (f q) = pq_options q \<Longrightarrow> pq_ballots (f q) = pq_ballots q \<Longrightarrow>
    times_ok (f q) \<Longrightarrow> poll_move db (update_poll i f db)"
| choices: "poll_at db i = Some q \<Longrightarrow> pq_ballots q = [] \<Longrightarrow> f q = q\<lparr>pq_options := xs\<rparr> \<Longrightarrow> choices_ok xs \<Longrightarrow> list_all (\<lambda>x. po_votes x = 0) xs \<Longrightarrow>
    po_id ` set xs \<subseteq> po_id ` set (pq_options q) \<union> (- set (option_ids db)) \<Longrightarrow> poll_move db (update_poll i f db)"
| cast: "poll_at db i = Some q \<Longrightarrow> option_at q oid = Some x \<Longrightarrow> v \<notin> bl_voter ` set (pq_ballots q) \<Longrightarrow> \<not> erased_voter v \<Longrightarrow>
    (\<And>u. v = UserVoter u \<Longrightarrow> u \<notin> set (pd_erased db)) \<Longrightarrow> poll_move db (update_poll i (count_vote oid v) db)"
| erase: "poll_move db (anonymize_votes account anon db)"

lemma poll_at_some: "poll_at db i = Some q \<Longrightarrow> q \<in> set (pd_polls db) \<and> pq_id q = map lower_byte i \<and> \<not> pq_deleted q"
  by (auto simp: poll_at_def find_Some_iff)

lemma poll_at_split:
  assumes "distinct (poll_ids db)" "poll_at db i = Some q"
  obtains xs ys where "pd_polls db = xs @ q # ys" "\<And>f. pd_polls (update_poll i f db) = xs @ f q # ys"
proof -
  have q: "q \<in> set (pd_polls db)" "pq_id q = map lower_byte i" "\<not> pq_deleted q" using poll_at_some [OF assms(2)] by blast+
  then obtain xs ys where t: "pd_polls db = xs @ q # ys" by (auto dest: split_list)
  then have "pq_id q \<notin> pq_id ` set xs" "pq_id q \<notin> pq_id ` set ys" using assms(1) by (auto simp: poll_ids_def)
  note out = this
  have m: "map (\<lambda>x. if pq_id x = map lower_byte i \<and> \<not> pq_deleted x then f x else x) zs = zs" if "pq_id q \<notin> pq_id ` set zs" for zs f
    using that q(2) by (induction zs) auto
  have "pd_polls (update_poll i f db) = xs @ f q # ys" for f using q(2,3) m [OF out(1), of f] m [OF out(2), of f] by (simp only: update_poll_def t) simp
  then show thesis using that t by blast
qed

lemma swap_middle:
  assumes "distinct (as @ bs @ cs)" "distinct bs'" "set bs' \<subseteq> set bs \<union> (- set (as @ bs @ cs))"
  shows "distinct (as @ bs' @ cs)"
  using assms by auto

lemma times_ok_kept [simp]:
  "times_ok (q\<lparr>pq_options := xs\<rparr>) = times_ok q"
  "times_ok (q\<lparr>pq_ballots := bs\<rparr>) = times_ok q"
  by (cases "pq_closes q"; simp add: times_ok_def)+

lemma update_poll_ok:
  assumes ok: "polls_ok db" and q: "poll_at db i = Some q" and f: "pq_id (f q) = pq_id q" "poll_ok (f q)" "no_erased (pd_erased db) (f q)"
    and ids: "po_id ` set (pq_options (f q)) \<subseteq> po_id ` set (pq_options q) \<union> (- set (option_ids db))"
  shows "polls_ok (update_poll i f db)"
proof -
  obtain xs ys where t: "pd_polls db = xs @ q # ys" "\<And>f. pd_polls (update_poll i f db) = xs @ f q # ys"
    using poll_at_split [OF _ q] ok by (auto simp: polls_ok_def)
  let ?ids = "\<lambda>qs. concat (map (\<lambda>q. map po_id (pq_options q)) qs)"
  have d1: "distinct (map po_id (pq_options (f q)))" using f(2) by (simp add: poll_ok_def choices_ok_def)
  have d2: "distinct (?ids xs @ map po_id (pq_options q) @ ?ids ys)"
    using ok by (simp only: polls_ok_def option_ids_def t(1) map_append concat_append list.map concat.simps)
  have d3: "set (map po_id (pq_options (f q))) \<subseteq> set (map po_id (pq_options q)) \<union> (- set (?ids xs @ map po_id (pq_options q) @ ?ids ys))"
    using ids by (simp only: option_ids_def t(1) map_append concat_append list.map concat.simps set_map)
  have "distinct (option_ids (update_poll i f db))"
    using swap_middle [OF d2 d1 d3] by (simp only: option_ids_def t(2) map_append concat_append list.map concat.simps)
  moreover have "pd_erased (update_poll i f db) = pd_erased db" by (simp add: update_poll_def)
  ultimately show ?thesis using ok f unfolding polls_ok_def poll_ids_def t(2) by (simp add: t(1))
qed

lemma polls_ok_at: "polls_ok db \<Longrightarrow> poll_at db i = Some q \<Longrightarrow> poll_ok q \<and> no_erased (pd_erased db) q"
  using poll_at_some by (fastforce simp: polls_ok_def list_all_iff)

lemma option_at_some: "option_at q i = Some x \<Longrightarrow> x \<in> set (pq_options q) \<and> po_id x = map lower_byte i"
  by (auto simp: option_at_def find_Some_iff)

lemma count_vote_ids: "map po_id (pq_options (count_vote oid v q)) = map po_id (pq_options q)"
  by (simp add: count_vote_def)

lemma count_vote_ok:
  assumes "poll_ok q" "option_at q oid = Some x" "v \<notin> bl_voter ` set (pq_ballots q)"
  shows "poll_ok (count_vote oid v q)"
proof -
  let ?i = "map lower_byte oid"
  let ?q = "count_vote oid v q"
  have x: "?i \<in> po_id ` set (pq_options q)" using option_at_some [OF assms(2)] by force
  note ids = count_vote_ids [of oid v q]
  then have img: "po_id ` set (pq_options ?q) = po_id ` set (pq_options q)" by (metis set_map)
  have tally: "tally ?q j = tally q j + (if j = ?i then 1 else 0)" for j by (simp add: tally_def count_vote_def)
  have "list_all (\<lambda>b. bl_option b \<in> po_id ` set (pq_options ?q)) (pq_ballots ?q)"
    unfolding img using assms(1) x by (simp add: count_vote_def poll_ok_def ballots_ok_def)
  moreover have "list_all (\<lambda>x. po_votes x = tally ?q (po_id x)) (pq_options ?q)"
    unfolding tally using assms(1) by (auto simp: count_vote_def poll_ok_def ballots_ok_def list_all_iff)
  moreover have "distinct (filter (\<lambda>v. \<not> erased_voter v) (map bl_voter (pq_ballots ?q)))"
    using assms(1,3) by (auto simp: count_vote_def poll_ok_def ballots_ok_def)
  moreover have "length (pq_options ?q) = length (pq_options q)" by (simp add: count_vote_def)
  moreover have "times_ok ?q = times_ok q" by (simp add: count_vote_def)
  ultimately show ?thesis using assms(1) ids by (simp add: poll_ok_def ballots_ok_def choices_ok_def)
qed

lemma anonymize_ok:
  assumes "polls_ok db"
  shows "polls_ok (anonymize_votes account anon db)"
proof (cases "trim_space account = []")
  case False
  let ?h = "\<lambda>b. if bl_voter b = UserVoter account then b\<lparr>bl_voter := ErasedVoter anon\<rparr> else b"
  let ?f = "\<lambda>q. q\<lparr>pq_ballots := map ?h (pq_ballots q)\<rparr>"
  let ?erased = "if account \<in> set (pd_erased db) then pd_erased db else pd_erased db @ [account]"
  have row: "poll_ok (?f q) \<and> no_erased ?erased (?f q)" if "poll_ok q" "no_erased (pd_erased db) q" for q
  proof -
    have "length (filter (\<lambda>b. bl_option b = i) (map ?h bs)) = length (filter (\<lambda>b. bl_option b = i) bs)" for i bs
      by (induction bs) auto
    then have t: "tally (?f q) i = tally q i" for i by (simp add: tally_def del: filter_map length_filter_map)
    have *: "filter (\<lambda>v. \<not> erased_voter v) (map bl_voter (map ?h bs)) = filter (\<lambda>v. v \<noteq> UserVoter account) (filter (\<lambda>v. \<not> erased_voter v) (map bl_voter bs))" for bs
      by (induction bs) (auto simp: erased_voter_def)
    have d: "distinct (filter (\<lambda>v. \<not> erased_voter v) (map bl_voter (map ?h bs)))" if "distinct (filter (\<lambda>v. \<not> erased_voter v) (map bl_voter bs))" for bs
      by (subst *) (rule distinct_filter [OF that])
    have l: "list_all (\<lambda>b. bl_option b \<in> S) (map ?h bs) = list_all (\<lambda>b. bl_option b \<in> S) bs" for S bs
      by (induction bs) auto
    have "ballots_ok q" using that(1) by (simp add: poll_ok_def)
    then have b: "list_all (\<lambda>b. bl_option b \<in> po_id ` set (pq_options q)) (pq_ballots q)" "list_all (\<lambda>x. po_votes x = tally q (po_id x)) (pq_options q)"
      "distinct (filter (\<lambda>v. \<not> erased_voter v) (map bl_voter (pq_ballots q)))" by (simp_all add: ballots_ok_def)
    have "pq_options (?f q) = pq_options q" "pq_ballots (?f q) = map ?h (pq_ballots q)" by simp_all
    then have "ballots_ok (?f q)" unfolding ballots_ok_def t using b(1,2) d [OF b(3)] by (simp only: l simp_thms)
    moreover have "no_erased ?erased (?f q)" using that(2) by (auto simp: no_erased_def list_all_iff)
    ultimately show ?thesis using that(1) by (simp add: poll_ok_def)
  qed
  have "list_all (\<lambda>q. poll_ok q \<and> no_erased ?erased q) (map ?f (pd_polls db))"
    using assms row by (auto simp: polls_ok_def list_all_iff)
  then show ?thesis using assms False
    by (simp add: polls_ok_def anonymize_votes_def poll_ids_def option_ids_def comp_def list_all_iff)
qed (use assms in \<open>simp add: anonymize_votes_def\<close>)

lemma poll_move_ok: "poll_move db db' \<Longrightarrow> polls_ok db \<Longrightarrow> polls_ok db'"
proof (induction rule: poll_move.induct)
  case (new q db)
  then have "no_erased (pd_erased db) q" by (simp add: no_erased_def)
  then show ?case using new by (auto simp: polls_ok_def poll_ids_def option_ids_def poll_ok_def choices_ok_def)
next
  case (edit db i q f)
  have q: "poll_ok q" "no_erased (pd_erased db) q" using polls_ok_at [OF edit.prems edit.hyps(1)] by blast+
  then have "poll_ok (f q)" using edit.hyps by (simp add: poll_ok_def ballots_ok_def tally_def)
  then show ?case using q edit by (intro update_poll_ok [OF edit.prems edit.hyps(1)]) (simp_all add: no_erased_def)
next
  case (choices db i q f xs)
  have q: "poll_ok q" using polls_ok_at [OF choices.prems choices.hyps(1)] by blast
  then have "poll_ok (f q)" using choices.hyps by (simp add: poll_ok_def ballots_ok_def tally_def)
  then show ?case using choices by (intro update_poll_ok [OF choices.prems choices.hyps(1)]) (simp_all add: no_erased_def)
next
  case (cast db i q oid x v)
  have q: "poll_ok q" "no_erased (pd_erased db) q" using polls_ok_at [OF cast.prems cast.hyps(1)] by blast+
  have "no_erased (pd_erased db) (count_vote oid v q)" using q(2) cast.hyps(5) by (simp add: no_erased_def count_vote_def)
  moreover have "po_id ` set (pq_options (count_vote oid v q)) = po_id ` set (pq_options q)"
    using count_vote_ids [of oid v q] by (metis set_map)
  moreover have "pq_id (count_vote oid v q) = pq_id q" by (simp add: count_vote_def)
  ultimately show ?case using count_vote_ok [OF q(1) cast.hyps(2,3)] by (intro update_poll_ok [OF cast.prems cast.hyps(1)]) auto
qed (simp_all add: anonymize_ok)

section \<open>Every call is a move\<close>

lemma pg_time_idem [simp]: "pg_time (pg_time t) = pg_time t"
  by (simp add: pg_time_def)

lemma pg_time_mono: "s \<le> t \<Longrightarrow> pg_time s \<le> pg_time t"
  by (simp add: pg_time_def zdiv_mono1)

lemma option_rows_length [simp]: "length (option_rows gen xs) = length xs"
  by (simp add: option_rows_def)

lemma option_rows_votes: "list_all (\<lambda>x. po_votes x = 0) (option_rows gen xs)"
  by (auto simp: option_rows_def list_all_iff)

lemma new_poll_ok:
  assumes "input_error e p = None" "distinct (map po_id (option_rows gen (pi_options p)))" "pq_options q = option_rows gen (pi_options p)"
    and "pq_ballots q = []" "times_ok q"
  shows "poll_ok q"
proof -
  have "2 \<le> length (pi_options p)" "length (pi_options p) \<le> max_poll_options"
    using assms(1) by (auto simp: input_error_def Let_def first_error_None_iff)
  then have "choices_ok (pq_options q)" using assms(2,3) by (simp add: choices_ok_def)
  moreover have "ballots_ok q" using option_rows_votes [of gen "pi_options p"] assms(3,4) by (simp add: ballots_ok_def tally_def)
  ultimately show ?thesis using assms(5) by (simp add: poll_ok_def)
qed

text \<open>An operation whose branches all keep the table or make a move.\<close>

definition moves :: "poll_db \<Rightarrow> 'a polled \<Rightarrow> bool" where
  "moves db r \<longleftrightarrow> poll_move db (snd r)"

lemma moves_same: "moves db (r, db)"
  by (simp add: moves_def poll_move.stay)

lemma moves_to: "poll_move db db' \<Longrightarrow> moves db (r, db')"
  by (simp add: moves_def)

lemma moves_if: "(b \<Longrightarrow> moves db x) \<Longrightarrow> (\<not> b \<Longrightarrow> moves db y) \<Longrightarrow> moves db (if b then x else y)"
  by simp

lemma moves_option: "(c = None \<Longrightarrow> moves db x) \<Longrightarrow> (\<And>v. c = Some v \<Longrightarrow> moves db (f v)) \<Longrightarrow> moves db (case c of None \<Rightarrow> x | Some v \<Rightarrow> f v)"
  by (cases c) simp_all

lemma moves_sum: "(\<And>v. c = Inl v \<Longrightarrow> moves db (f v)) \<Longrightarrow> (\<And>v. c = Inr v \<Longrightarrow> moves db (g v)) \<Longrightarrow> moves db (case c of Inl v \<Rightarrow> f v | Inr v \<Rightarrow> g v)"
  by (cases c) simp_all

lemmas moves_cases = moves_same moves_if moves_option moves_sum

lemma create_poll_move: "moves db (create_poll e now a new gen p db)"
  unfolding create_poll_def Let_def
proof (intro moves_cases, rule moves_to, rule poll_move.new)
  let ?rows = "option_rows gen (pi_options p)" and ?closes = "map_option pg_time (pi_closes p)"
  let ?live = "pg_time (case pi_live p of None \<Rightarrow> now | Some t \<Rightarrow> t)"
  let ?q = "\<lparr>pq_id = map lower_byte new, pq_question = trim_space (pi_question p), pq_language = pi_language p, pq_active = True, pq_image = [],
    pq_live = ?live, pq_closes = ?closes, pq_deleted = False, pq_options = ?rows, pq_ballots = []\<rparr>"
  assume input: "input_error e p = None" and times: "\<not> \<not> (case ?closes of None \<Rightarrow> True | Some t \<Rightarrow> ?live < t)"
    and ids: "\<not> (pq_id ?q \<in> set (poll_ids db) \<or> \<not> distinct (map po_id ?rows) \<or> list_ex (\<lambda>i. i \<in> set (option_ids db)) (map po_id ?rows) \<or>
      \<not> list_all option_storable ?rows)"
  show "pq_id ?q \<notin> set (poll_ids db)" using ids by blast
  show "set (map po_id (pq_options ?q)) \<inter> set (option_ids db) = {}" using ids by (auto simp: list_ex_iff)
  have "times_ok ?q" using times by (cases "pi_closes p") (auto simp: times_ok_def)
  then show "poll_ok ?q" using ids by (intro new_poll_ok [OF input, of gen]) simp_all
qed simp

lemma edited_times_ok:
  assumes "times_ok q" "\<not> ((pu_live u \<noteq> None \<or> pu_closes u \<noteq> None) \<and> (case (case pu_closes u of None \<Rightarrow> pq_closes q | Some c \<Rightarrow> c) of None \<Rightarrow> False
        | Some t \<Rightarrow> \<not> (case pu_live u of None \<Rightarrow> pq_live q | Some t \<Rightarrow> t) < t))"
  shows "times_ok (update_poll_row u q)"
proof (cases "pu_live u = None \<and> pu_closes u = None")
  case True
  then have "pq_live (update_poll_row u q) = pq_live q" "pq_closes (update_poll_row u q) = pq_closes q" by (simp_all add: update_poll_row_def)
  then show ?thesis using assms(1) by (simp only: times_ok_def)
next
  case False
  define live where "live = (case pu_live u of None \<Rightarrow> pq_live q | Some t \<Rightarrow> t)"
  define closes where "closes = (case pu_closes u of None \<Rightarrow> pq_closes q | Some c \<Rightarrow> c)"
  have l: "pq_live (update_poll_row u q) = pg_time live" using assms(1) by (cases "pu_live u") (simp_all add: update_poll_row_def times_ok_def live_def)
  have c: "pq_closes (update_poll_row u q) = map_option pg_time closes"
    using assms(1) by (cases "pu_closes u"; cases "pq_closes q") (simp_all add: update_poll_row_def times_ok_def closes_def)
  have "case closes of None \<Rightarrow> True | Some t \<Rightarrow> live < t"
    using assms(2) False unfolding live_def [symmetric] closes_def [symmetric] by (cases closes) auto
  then show ?thesis unfolding times_ok_def l c by (cases closes) (auto intro: pg_time_mono)
qed

lemma edit_poll_move:
  assumes "polls_ok db"
  shows "moves db (edit_poll e now a i u db)"
  unfolding edit_poll_def Let_def
proof (intro moves_cases, rule moves_to, rule poll_move.edit, assumption)
  fix q
  assume q: "poll_at db i = Some q" and times: "\<not> ((pu_live u \<noteq> None \<or> pu_closes u \<noteq> None) \<and> (case (case pu_closes u of None \<Rightarrow> pq_closes q | Some c \<Rightarrow> c) of None \<Rightarrow> False
        | Some t \<Rightarrow> \<not> (case pu_live u of None \<Rightarrow> pq_live q | Some t \<Rightarrow> t) < t))"
  have "times_ok q" using polls_ok_at [OF assms q] by (simp add: poll_ok_def)
  then show "times_ok (update_poll_row u q)" using times by (rule edited_times_ok)
qed (simp_all add: update_poll_row_def)

lemma soft_delete_move: "polls_ok db \<Longrightarrow> moves db (soft_delete_poll e a i db)"
  unfolding soft_delete_poll_def
proof (intro moves_cases, rule moves_to, rule poll_move.edit, assumption)
  fix q assume "polls_ok db" "poll_at db i = Some q"
  then have "times_ok q" using polls_ok_at by (simp add: poll_ok_def)
  then show "times_ok (q\<lparr>pq_deleted := True\<rparr>)" by (cases "pq_closes q") (simp_all add: times_ok_def)
qed simp_all

lemma reaction_key_voter:
  assumes "reaction_key a = Some k"
  shows "\<not> erased_voter (voter_of k)" "voter_of k = UserVoter u \<Longrightarrow> http_account a = u \<and> u \<noteq> []"
  using assms by (auto simp: reaction_key_def voter_of_def erased_voter_def split: if_splits)

lemma poll_open_some: "poll_open now i db = Inr q \<Longrightarrow> poll_at db i = Some q \<and> pq_live q \<le> now \<and> pq_active q \<and> \<not> past_close now q"
  by (auto simp: poll_open_def split: if_splits option.splits)

lemma vote_move: "moves db (vote e now a i oid db)"
  unfolding vote_def Let_def
proof (intro moves_cases, rule moves_to)
  fix k q x
  assume k: "reaction_key a = Some k" and erased: "\<not> (http_account a \<noteq> [] \<and> http_account a \<in> set (pd_erased db))"
    and q: "poll_open now i db = Inr q" and x: "option_at q oid = Some x" and v: "\<not> list_ex (\<lambda>b. bl_voter b = voter_of k) (pq_ballots q)"
  show "poll_move db (update_poll i (count_vote oid (voter_of k)) db)"
  proof (rule poll_move.cast [OF _ x])
    show "poll_at db i = Some q" using poll_open_some [OF q] by blast
    show "voter_of k \<notin> bl_voter ` set (pq_ballots q)" using v by (auto simp: list_ex_iff)
    show "\<not> erased_voter (voter_of k)" using reaction_key_voter(1) [OF k] .
    show "u \<notin> set (pd_erased db)" if "voter_of k = UserVoter u" for u using reaction_key_voter(2) [OF k that] erased by simp
  qed
qed

lemma handle_vote_move: "moves db (handle_vote e now a i oid db)"
  unfolding handle_vote_def by (intro moves_cases vote_move)

lemma lock_choices_some: "lock_choices i db = Inr q \<Longrightarrow> poll_at db i = Some q \<and> pq_ballots q = []"
  by (auto simp: lock_choices_def split: option.splits if_splits)

text \<open>The choices of a poll without votes are not counted.\<close>

lemma uncounted:
  assumes "polls_ok db" "poll_at db i = Some q" "pq_ballots q = []"
  shows "list_all (\<lambda>x. po_votes x = 0) (pq_options q)" "choices_ok (pq_options q)"
  using polls_ok_at [OF assms(1,2)] assms(3) by (simp_all add: poll_ok_def ballots_ok_def tally_def)

lemma choices_move:
  assumes "polls_ok db" "lock_choices i db = Inr q" "f q = q\<lparr>pq_options := xs\<rparr>" "choices_ok xs" "list_all (\<lambda>x. po_votes x = 0) xs"
    and "po_id ` set xs \<subseteq> po_id ` set (pq_options q) \<union> (- set (option_ids db))"
  shows "poll_move db (update_poll i f db)"
  using lock_choices_some [OF assms(2)] assms(3-6) by (intro poll_move.choices) auto

lemma add_option_move:
  assumes "polls_ok db"
  shows "moves db (add_option e a i gen p db)"
  unfolding add_option_def Let_def
proof (intro moves_cases, rule moves_to, rule choices_move [OF assms], assumption, rule refl)
  fix q
  let ?x = "\<lparr>po_id = map lower_byte gen, po_label = trim_space (case ot_label p of None \<Rightarrow> [] | Some l \<Rightarrow> l), po_image = [],
    po_position = (case ot_position p of None \<Rightarrow> next_position q | Some n \<Rightarrow> n), po_votes = 0\<rparr>"
  assume q: "lock_choices i db = Inr q" and few: "\<not> max_poll_options \<le> length (pq_options q)"
    and x: "\<not> (\<not> option_storable ?x \<or> po_id ?x \<in> set (option_ids db))"
  note q = lock_choices_some [OF q]
  have old: "list_all (\<lambda>x. po_votes x = 0) (pq_options q)" "choices_ok (pq_options q)" using uncounted [OF assms] q by blast+
  have "po_id ` set (pq_options q) \<subseteq> set (option_ids db)" using poll_at_some q by (fastforce simp: option_ids_def)
  then show "choices_ok (pq_options q @ [?x])" using old(2) few x by (auto simp: choices_ok_def)
  show "list_all (\<lambda>x. po_votes x = 0) (pq_options q @ [?x])" using old(1) by simp
  show "po_id ` set (pq_options q @ [?x]) \<subseteq> po_id ` set (pq_options q) \<union> (- set (option_ids db))" using x by auto
qed

text \<open>A change of one choice that keeps its id and its count.\<close>

lemma change_option_move:
  assumes "polls_ok db" "lock_choices i db = Inr q" "\<And>x. po_id (g x) = po_id x \<and> po_votes (g x) = po_votes x"
  shows "poll_move db (update_poll i (change_option oid g) db)"
proof (rule choices_move [OF assms(1,2)])
  let ?xs = "map (\<lambda>x. if po_id x = map lower_byte oid then g x else x) (pq_options q)"
  have old: "list_all (\<lambda>x. po_votes x = 0) (pq_options q)" "choices_ok (pq_options q)" using uncounted [OF assms(1)] lock_choices_some [OF assms(2)] by blast+
  have ids: "map po_id ?xs = map po_id (pq_options q)" using assms(3) by auto
  show "change_option oid g q = q\<lparr>pq_options := ?xs\<rparr>" by (simp add: change_option_def)
  show "choices_ok ?xs" using old(2) ids by (simp add: choices_ok_def del: map_map)
  show "list_all (\<lambda>x. po_votes x = 0) ?xs" using old(1) assms(3) by (auto simp: list_all_iff)
  have "po_id ` set ?xs = po_id ` set (pq_options q)" using ids by (metis set_map)
  then show "po_id ` set ?xs \<subseteq> po_id ` set (pq_options q) \<union> (- set (option_ids db))" by blast
qed

lemma update_option_move: "polls_ok db \<Longrightarrow> moves db (update_option e a i oid p db)"
  unfolding update_option_def Let_def
  by (intro moves_cases, rule moves_to, rule change_option_move) (simp_all add: patch_option_def)

lemma delete_option_move:
  assumes "polls_ok db"
  shows "moves db (delete_option e a i oid db)"
  unfolding delete_option_def
proof (intro moves_cases, rule moves_to, rule choices_move [OF assms], assumption, rule refl)
  fix q :: poll_row
  let ?xs = "filter (\<lambda>x. po_id x \<noteq> map lower_byte oid) (pq_options q)"
  assume q: "lock_choices i db = Inr q" and many: "\<not> length (pq_options q) < 3"
  have old: "list_all (\<lambda>x. po_votes x = 0) (pq_options q)" "choices_ok (pq_options q)" using uncounted [OF assms] lock_choices_some [OF q] by blast+
  have "length xs \<le> Suc (length (filter (\<lambda>x. po_id x \<noteq> j) xs))" if "distinct (map po_id xs)" for xs and j :: string
    using that
  proof (induction xs)
    case (Cons x xs)
    show ?case
    proof (cases "po_id x = j")
      case True
      then have "filter (\<lambda>x. po_id x \<noteq> j) xs = xs" using Cons.prems by (auto simp: filter_id_conv image_iff)
      then show ?thesis using True by simp
    qed (use Cons in simp)
  qed simp
  from this [of "pq_options q" "map lower_byte oid"] have "2 \<le> length ?xs" using old(2) many by (simp add: choices_ok_def)
  moreover have "length ?xs \<le> length (pq_options q)" by (rule length_filter_le)
  moreover have "distinct (map po_id ?xs)" using old(2) by (simp add: choices_ok_def distinct_map_filter)
  ultimately show "choices_ok ?xs" using old(2) unfolding choices_ok_def by linarith
  show "list_all (\<lambda>x. po_votes x = 0) ?xs" using old(1) by (auto simp: list_all_iff)
  show "po_id ` set ?xs \<subseteq> po_id ` set (pq_options q) \<union> (- set (option_ids db))" by auto
qed

lemma set_image_move:
  assumes "polls_ok db"
  shows "moves db (set_image e a i oid named db)"
proof (cases oid)
  case None
  show ?thesis
    unfolding set_image_def Let_def None
  proof (intro moves_cases, rule moves_to)
    fix name q assume q: "poll_at db i = Some q"
    then have "times_ok q" using polls_ok_at [OF assms] by (simp add: poll_ok_def)
    then have "times_ok (q\<lparr>pq_image := name\<rparr>)" by (cases "pq_closes q") (simp_all add: times_ok_def)
    then show "poll_move db (update_poll i (case None of None \<Rightarrow> \<lambda>q. q\<lparr>pq_image := name\<rparr> | Some o' \<Rightarrow> change_option o' (\<lambda>x. x\<lparr>po_image := name\<rparr>)) db)"
      by (intro poll_move.edit [OF q]) simp_all
  qed
next
  case (Some o')
  show ?thesis
    unfolding set_image_def Let_def Some
  proof (intro moves_cases, rule moves_to)
    fix name q and u :: unit
    assume lock: "(if Some o' \<noteq> None then bindr (lock_choices i db) (\<lambda>_. Inr ()) else Inr ()) = Inr u"
    then obtain q' where "lock_choices i db = Inr q'" by (auto simp: bindr_Inr_iff)
    then show "poll_move db (update_poll i (case Some o' of None \<Rightarrow> \<lambda>q. q\<lparr>pq_image := name\<rparr> | Some o' \<Rightarrow> change_option o' (\<lambda>x. x\<lparr>po_image := name\<rparr>)) db)"
      using change_option_move [OF assms] by simp
  qed
qed

lemma after_call_move: "polls_ok db \<Longrightarrow> poll_move db (after_call e now c db)"
proof (cases c)
  case (AnonymizeVotes account anon)
  then show ?thesis by (simp add: poll_move.erase)
next
  case (OptionImage a i oid named)
  assume "polls_ok db"
  then have "moves db (set_option_image e a i oid named db)" unfolding set_option_image_def by (intro moves_cases set_image_move)
  then show ?thesis using OptionImage by (simp add: moves_def)
qed (use create_poll_move edit_poll_move soft_delete_move handle_vote_move add_option_move update_option_move delete_option_move set_image_move in
  \<open>simp_all add: moves_def set_question_image_def\<close>)

section \<open>What calls keep\<close>

inductive polls_reached :: "poll_db \<Rightarrow> bool" where
  empty: "polls_reached \<lparr>pd_polls = [], pd_erased = []\<rparr>"
| call: "polls_reached db \<Longrightarrow> polls_reached (after_call e now c db)"

lemma reached_polls_ok: "polls_reached db \<Longrightarrow> polls_ok db"
proof (induction rule: polls_reached.induct)
  case (call db e now c)
  then show ?case using poll_move_ok after_call_move by blast
qed (simp add: polls_ok_def poll_ids_def option_ids_def)

text \<open>What stays of a vote: its choice, and its voter unless it is erased.\<close>

definition ballot_kept :: "ballot \<Rightarrow> ballot \<Rightarrow> bool" where
  "ballot_kept b b' \<longleftrightarrow> bl_option b' = bl_option b \<and> (bl_voter b' = bl_voter b \<or> erased_voter (bl_voter b'))"

definition poll_kept :: "poll_row \<Rightarrow> poll_row \<Rightarrow> bool" where
  "poll_kept q q' \<longleftrightarrow> pq_id q' = pq_id q \<and>
     list_all2 ballot_kept (pq_ballots q) (take (length (pq_ballots q)) (pq_ballots q')) \<and>
     (pq_ballots q \<noteq> [] \<longrightarrow> map (\<lambda>x. x\<lparr>po_votes := 0\<rparr>) (pq_options q') = map (\<lambda>x. x\<lparr>po_votes := 0\<rparr>) (pq_options q))"

lemma ballots_kept_refl: "list_all2 ballot_kept bs bs"
  by (rule list.rel_refl) (simp add: ballot_kept_def)

lemma poll_kept_refl: "poll_kept q q"
  by (simp add: poll_kept_def ballots_kept_refl)

lemma update_poll_kept:
  assumes "distinct (poll_ids db)" "poll_at db i = Some q" "poll_kept q (f q)"
  shows "list_all2 poll_kept (pd_polls db) (take (length (pd_polls db)) (pd_polls (update_poll i f db)))"
proof -
  obtain xs ys where t: "pd_polls db = xs @ q # ys" "\<And>f. pd_polls (update_poll i f db) = xs @ f q # ys"
    by (rule poll_at_split [OF assms(1,2)]) (rule that)
  have "length (pd_polls db) = length (pd_polls (update_poll i f db))" by (simp add: update_poll_def)
  then have "take (length (pd_polls db)) (pd_polls (update_poll i f db)) = xs @ f q # ys" by (simp only: t(2) take_all)
  moreover have "list_all2 poll_kept (xs @ q # ys) (xs @ f q # ys)"
    using assms(3) by (auto intro!: list_all2_appendI list.rel_refl poll_kept_refl)
  ultimately show ?thesis by (simp only: t(1))
qed

lemma poll_move_kept:
  "poll_move db db' \<Longrightarrow> polls_ok db \<Longrightarrow> list_all2 poll_kept (pd_polls db) (take (length (pd_polls db)) (pd_polls db'))"
proof (induction rule: poll_move.induct)
  case (stay db)
  then show ?case by (simp add: list.rel_refl poll_kept_refl)
next
  case (new q db)
  then show ?case by (simp add: list.rel_refl poll_kept_refl)
next
  case (edit db i q f)
  then have "poll_kept q (f q)" by (simp add: poll_kept_def ballots_kept_refl)
  then show ?case using edit by (intro update_poll_kept) (simp_all add: polls_ok_def)
next
  case (choices db i q f xs)
  have "poll_kept q (f q)" unfolding choices.hyps(3) using choices.hyps(2) by (simp add: poll_kept_def)
  moreover have "distinct (poll_ids db)" using choices.prems by (simp add: polls_ok_def)
  ultimately show ?case by (intro update_poll_kept [OF _ choices.hyps(1)])
next
  case (cast db i q oid x v)
  have "map (\<lambda>x. x\<lparr>po_votes := 0\<rparr>) (pq_options (count_vote oid v q)) = map (\<lambda>x. x\<lparr>po_votes := 0\<rparr>) (pq_options q)"
    by (simp add: count_vote_def comp_def if_distrib cong: if_cong)
  then have "poll_kept q (count_vote oid v q)" by (simp add: poll_kept_def ballots_kept_refl count_vote_def)
  then show ?case using cast by (intro update_poll_kept) (simp_all add: polls_ok_def)
next
  case (erase db account anon)
  have "list_all2 ballot_kept bs (map (\<lambda>b. if bl_voter b = UserVoter account then b\<lparr>bl_voter := ErasedVoter anon\<rparr> else b) bs)" for bs
    by (induction bs) (auto simp: ballot_kept_def erased_voter_def)
  then show ?case
    by (auto simp: anonymize_votes_def poll_kept_def list.rel_map comp_def intro!: list.rel_refl ballots_kept_refl)
qed

text \<open>
  C32: the polls of a tenant stay consistent through any sequence of calls: ids are unique, a poll has two to ten choices, closes after
  it goes live, each choice counts exactly the votes given to it, each vote is for a choice of its
  poll, and no account and no address has two votes in one poll.
\<close>

theorem polls_consistent:
  assumes "polls_reached db"
  shows "distinct (poll_ids db) \<and> distinct (option_ids db) \<and> list_all (\<lambda>q.
    2 \<le> length (pq_options q) \<and> length (pq_options q) \<le> 10 \<and>
    (case pq_closes q of None \<Rightarrow> True | Some t \<Rightarrow> pq_live q \<le> t) \<and>
    list_all (\<lambda>x. po_votes x = int (length (filter (\<lambda>b. bl_option b = po_id x) (pq_ballots q)))) (pq_options q) \<and>
    list_all (\<lambda>b. bl_option b \<in> po_id ` set (pq_options q)) (pq_ballots q) \<and>
    distinct (filter (\<lambda>v. \<not> erased_voter v) (map bl_voter (pq_ballots q)))) (pd_polls db)"
proof -
  have ok: "polls_ok db" using assms by (rule reached_polls_ok)
  have "case pq_closes q of None \<Rightarrow> True | Some t \<Rightarrow> pq_live q \<le> t" if "times_ok q" for q
    using that by (cases "pq_closes q") (simp_all add: times_ok_def)
  then show ?thesis using ok
    by (auto simp: polls_ok_def list_all_iff poll_ok_def choices_ok_def ballots_ok_def tally_def max_poll_options_def)
qed

text \<open>
  C34: votes are final and the choices of a poll are frozen by its first vote: whatever call is made, every poll stays in
  the table, its votes stay in order with their choices, each with its voter or anonymized, and a poll
  with a vote keeps the ids, labels, positions and images of its choices.
\<close>

theorem votes_final:
  assumes "polls_reached db"
  shows "list_all2 (\<lambda>q q'. pq_id q' = pq_id q \<and>
     list_all2 (\<lambda>b b'. bl_option b' = bl_option b \<and> (bl_voter b' = bl_voter b \<or> erased_voter (bl_voter b')))
       (pq_ballots q) (take (length (pq_ballots q)) (pq_ballots q')) \<and>
     (pq_ballots q = [] \<or> map (\<lambda>x. (po_id x, po_label x, po_image x, po_position x)) (pq_options q') =
       map (\<lambda>x. (po_id x, po_label x, po_image x, po_position x)) (pq_options q)))
   (pd_polls db) (take (length (pd_polls db)) (pd_polls (after_call e now c db)))"
proof -
  have ok: "polls_ok db" using assms by (rule reached_polls_ok)
  have "map (\<lambda>x. (po_id x, po_label x, po_image x, po_position x)) xs = map (\<lambda>x. (po_id x, po_label x, po_image x, po_position x)) ys"
    if "map (\<lambda>x. x\<lparr>po_votes := 0\<rparr>) xs = map (\<lambda>x. x\<lparr>po_votes := 0\<rparr>) ys" for xs ys :: "poll_option list"
    using arg_cong [OF that, of "map (\<lambda>x. (po_id x, po_label x, po_image x, po_position x))"] by (simp add: comp_def)
  then have kept: "pq_id q' = pq_id q \<and>
     list_all2 (\<lambda>b b'. bl_option b' = bl_option b \<and> (bl_voter b' = bl_voter b \<or> erased_voter (bl_voter b')))
       (pq_ballots q) (take (length (pq_ballots q)) (pq_ballots q')) \<and>
     (pq_ballots q = [] \<or> map (\<lambda>x. (po_id x, po_label x, po_image x, po_position x)) (pq_options q') =
       map (\<lambda>x. (po_id x, po_label x, po_image x, po_position x)) (pq_options q))" if "poll_kept q q'" for q q'
    using that unfolding poll_kept_def ballot_kept_def by blast
  show ?thesis by (rule list.rel_mono_strong [OF poll_move_kept [OF after_call_move [OF ok] ok]]) (rule kept)
qed

section \<open>Votes\<close>

lemma poll_at_update:
  assumes "\<And>q. pq_id (f q) = pq_id q \<and> pq_deleted (f q) = pq_deleted q"
  shows "poll_at (update_poll i f db) i = map_option f (poll_at db i)"
proof -
  have "List.find (\<lambda>q. pq_id q = map lower_byte i \<and> \<not> pq_deleted q) (map (\<lambda>q. if pq_id q = map lower_byte i \<and> \<not> pq_deleted q then f q else q) qs) =
      map_option f (List.find (\<lambda>q. pq_id q = map lower_byte i \<and> \<not> pq_deleted q) qs)" for qs
    using assms by (induction qs) auto
  then show ?thesis by (simp add: poll_at_def update_poll_def)
qed

lemma get_poll_some:
  assumes "get_poll e now a i db = Inr v"
  obtains q url where "poll_at db i = Some q" "v = poll_shown now a url q"
proof -
  obtain w where "get_scheduled e now a i db = Inr w" "v = fst w" using assms by (auto simp: get_poll_def bindr_Inr_iff)
  then obtain q vs where "poll_at db i = Some q" "attach_polls e now a [q] = Inr vs" "v = hd vs"
    by (auto simp: get_scheduled_def bindr_Inr_iff split: if_splits option.splits)
  then show thesis using that by (auto simp: attach_polls_def bindr_Inr_iff)
qed

lemma votes_total:
  assumes "poll_ok q"
  shows "sum_list (map po_votes (pq_options q)) = int (length (pq_ballots q))"
proof -
  have one: "sum_list (map (\<lambda>i. int (length (filter (\<lambda>b. bl_option b = i) bs))) js) = int (length bs)"
    if "distinct js" "list_all (\<lambda>b. bl_option b \<in> set js) bs" for js :: "string list" and bs
    using that(2)
  proof (induction bs)
    case (Cons b bs)
    have "int (length (filter (\<lambda>b. bl_option b = i) (b # bs))) = (if bl_option b = i then 1 else 0) + int (length (filter (\<lambda>b. bl_option b = i) bs))" for i
      by simp
    then have "sum_list (map (\<lambda>i. int (length (filter (\<lambda>b. bl_option b = i) (b # bs)))) js) =
        sum_list (map (\<lambda>i. if bl_option b = i then 1 else 0) js) + sum_list (map (\<lambda>i. int (length (filter (\<lambda>b. bl_option b = i) bs))) js)"
      by (simp only: sum_list_addf)
    moreover have "sum_list (map (\<lambda>i. if k = i then 1 else 0) js) = (if k \<in> set js then 1 else (0 :: int))" for k
      using that(1) by (induction js) auto
    ultimately show ?case using Cons by simp
  qed simp
  have b: "list_all (\<lambda>x. po_votes x = tally q (po_id x)) (pq_options q)" "list_all (\<lambda>b. bl_option b \<in> po_id ` set (pq_options q)) (pq_ballots q)"
    "distinct (map po_id (pq_options q))" using assms by (simp_all add: poll_ok_def ballots_ok_def choices_ok_def)
  have "map po_votes (pq_options q) = map (\<lambda>i. tally q i) (map po_id (pq_options q))" using b(1) by (simp add: list_all_iff)
  then have "sum_list (map po_votes (pq_options q)) = sum_list (map (\<lambda>i. tally q i) (map po_id (pq_options q)))" by (simp only:)
  also have "\<dots> = int (length (pq_ballots q))" unfolding tally_def by (rule one [OF b(3)]) (use b(2) in simp)
  finally show ?thesis .
qed

lemma vote_for_cast:
  assumes "reaction_key a = Some k" "\<not> list_ex (\<lambda>b. bl_voter b = voter_of k) (pq_ballots q)"
  shows "vote_for a q = None" "vote_for a (count_vote oid (voter_of k) q) = Some (map lower_byte oid)"
proof -
  have "List.find (\<lambda>b. bl_voter b = voter_of k) (pq_ballots q) = None" using assms(2) by (simp add: find_None_iff list_ex_iff)
  then show "vote_for a q = None" "vote_for a (count_vote oid (voter_of k) q) = Some (map lower_byte oid)"
    using assms(1) by (simp_all add: vote_for_def count_vote_def find_snoc)
qed

text \<open>An actor who has voted in a poll changes nothing by voting again.\<close>

lemma vote_again:
  assumes "reaction_key a = Some k" "\<And>q. poll_at db i = Some q \<Longrightarrow> list_ex (\<lambda>b. bl_voter b = voter_of k) (pq_ballots q)"
  shows "snd (vote e now a i oid db) = db"
proof -
  have "list_ex (\<lambda>b. bl_voter b = voter_of k) (pq_ballots q)" if "poll_open now i db = Inr q" for q
    using assms(2) poll_open_some [OF that] by blast
  then show ?thesis using assms(1) by (simp add: vote_def Let_def split: option.splits sum.splits)
qed

lemma vote_inv:
  assumes "vote e now a i oid db = (Inr v, db')"
  obtains k q where "reaction_key a = Some k" "poll_at db i = Some q" "get_poll e now a i db' = Inr v"
    "if list_ex (\<lambda>b. bl_voter b = voter_of k) (pq_ballots q) then db' = db
     else db' = update_poll i (count_vote oid (voter_of k)) db \<and> option_at q oid \<noteq> None"
proof -
  obtain k where k: "reaction_key a = Some k" using assms by (cases "reaction_key a") (auto simp: vote_def split: if_splits)
  then obtain q where q: "poll_open now i db = Inr q"
    using assms by (cases "poll_open now i db") (auto simp: vote_def split: if_splits)
  then obtain x where x: "option_at q oid = Some x" using assms k by (cases "option_at q oid") (auto simp: vote_def split: if_splits)
  have "get_poll e now a i db' = Inr v \<and> (if list_ex (\<lambda>b. bl_voter b = voter_of k) (pq_ballots q) then db' = db
     else db' = update_poll i (count_vote oid (voter_of k)) db \<and> option_at q oid \<noteq> None)"
    using assms k q x by (auto simp: vote_def Let_def split: if_splits)
  then show thesis using that k poll_open_some [OF q] by blast
qed

text \<open>
  C33: an account or an address votes once in a poll: the first accepted vote is counted for its choice and shown as the
  caller's, a later one answers with the choice already made and counts nothing, whenever it comes and
  whatever choice it names; the total shown is the number of votes.
\<close>

theorem vote_once:
  assumes "polls_reached db" "vote e now a i oid db = (Inr v, db')"
  shows "pw_voted v \<and> (\<exists>q q'. poll_at db i = Some q \<and> poll_at db' i = Some q' \<and> pw_total v = int (length (pq_ballots q')) \<and>
    (case vote_for a q of Some mine \<Rightarrow> db' = db \<and> pw_mine v = mine
     | None \<Rightarrow> length (pq_ballots q') = Suc (length (pq_ballots q)) \<and> pw_mine v = map lower_byte oid \<and> map lower_byte oid \<in> po_id ` set (pq_options q))) \<and>
    snd (vote e later a i other db') = db'"
proof -
  obtain k q where k: "reaction_key a = Some k" and q: "poll_at db i = Some q" and v: "get_poll e now a i db' = Inr v"
    and d: "if list_ex (\<lambda>b. bl_voter b = voter_of k) (pq_ballots q) then db' = db
     else db' = update_poll i (count_vote oid (voter_of k)) db \<and> option_at q oid \<noteq> None"
    by (rule vote_inv [OF assms(2)])
  obtain q' url where q': "poll_at db' i = Some q'" "v = poll_shown now a url q'" by (rule get_poll_some [OF v])
  have "poll_move db db'" using vote_move [of db e now a i oid] assms(2) by (simp add: moves_def)
  then have ok: "polls_ok db'" using poll_move_ok reached_polls_ok [OF assms(1)] by blast
  then have "pw_total v = int (length (pq_ballots q'))"
    using votes_total [of q'] polls_ok_at [OF ok q'(1)] q'(2) by (simp add: poll_shown_def Let_def)
  moreover have shown: "pw_voted v = (vote_for a q' \<noteq> None)" "pw_mine v = (case vote_for a q' of Some m \<Rightarrow> m | None \<Rightarrow> [])"
    using q'(2) by (simp_all add: poll_shown_def Let_def)
  moreover have "snd (vote e later a i other db') = db' \<and> vote_for a q' \<noteq> None \<and>
    (case vote_for a q of Some mine \<Rightarrow> db' = db \<and> vote_for a q' = Some mine
     | None \<Rightarrow> length (pq_ballots q') = Suc (length (pq_ballots q)) \<and> vote_for a q' = Some (map lower_byte oid) \<and> map lower_byte oid \<in> po_id ` set (pq_options q))"
  proof (cases "list_ex (\<lambda>b. bl_voter b = voter_of k) (pq_ballots q)")
    case True
    then have same: "db' = db" "q' = q" using d q q'(1) by auto
    have "List.find (\<lambda>b. bl_voter b = voter_of k) (pq_ballots q) \<noteq> None" using True by (auto simp: find_None_iff list_ex_iff)
    then have "vote_for a q \<noteq> None" using k by (simp add: vote_for_def)
    moreover have "snd (vote e later a i other db') = db'" using True q same by (intro vote_again [OF k]) simp
    ultimately show ?thesis using same by auto
  next
    case False
    then have db': "db' = update_poll i (count_vote oid (voter_of k)) db" and opt: "option_at q oid \<noteq> None" using d by auto
    have "q' = count_vote oid (voter_of k) q" using q'(1) q unfolding db' by (subst (asm) poll_at_update) (auto simp: count_vote_def)
    moreover have "map lower_byte oid \<in> po_id ` set (pq_options q)" using opt option_at_some by force
    moreover have "snd (vote e later a i other db') = db'"
      using q'(1) \<open>q' = count_vote oid (voter_of k) q\<close> by (intro vote_again [OF k]) (auto simp: count_vote_def)
    ultimately show ?thesis using vote_for_cast [OF k False] by (simp add: count_vote_def)
  qed
  ultimately show ?thesis using q q'(1) by (cases "vote_for a q") auto
qed

section \<open>What is hidden\<close>

definition started_polls :: "time \<Rightarrow> poll_db \<Rightarrow> poll_db" where
  "started_polls now db = db\<lparr>pd_polls := filter (\<lambda>q. \<not> pq_deleted q \<and> pq_live q \<le> now) (pd_polls db)\<rparr>"

lemma find_unique:
  assumes "\<And>y. y \<in> set xs \<Longrightarrow> P y \<Longrightarrow> y = x" "x \<in> set xs" "P x"
  shows "List.find P xs = Some x"
proof -
  obtain y where y: "List.find P xs = Some y" using assms(2,3) by (cases "List.find P xs") (auto simp: find_None_iff)
  then have "y \<in> set xs" "P y" by (auto simp: find_Some_iff)
  then show ?thesis using y assms(1) by blast
qed

lemma poll_at_started:
  assumes "distinct (poll_ids db)"
  shows "poll_at (started_polls now db) i = (case poll_at db i of None \<Rightarrow> None | Some q \<Rightarrow> if pq_live q \<le> now then Some q else None)"
proof (cases "poll_at db i")
  case None
  then have "poll_at (started_polls now db) i = None" by (auto simp: poll_at_def find_None_iff started_polls_def)
  then show ?thesis using None by simp
next
  case (Some q)
  note q = poll_at_some [OF Some]
  have d: "distinct (map pq_id (pd_polls db))" using assms by (simp add: poll_ids_def)
  have same: "x = q" if "x \<in> set (pd_polls db)" "pq_id x = map lower_byte i" for x using d q that by (auto simp: distinct_map inj_on_def)
  show ?thesis
  proof (cases "pq_live q \<le> now")
    case True
    have "poll_at (started_polls now db) i = Some q"
      unfolding poll_at_def started_polls_def by (rule find_unique) (use q True same in auto)
    then show ?thesis using Some True by simp
  next
    case False
    then have "poll_at (started_polls now db) i = None" using same by (auto simp: poll_at_def started_polls_def find_None_iff)
    then show ?thesis using Some False by simp
  qed
qed

lemma get_poll_same: "poll_at db i = poll_at db' i \<Longrightarrow> get_poll e now a i db = get_poll e now a i db'"
  by (simp add: get_poll_def get_scheduled_def)

lemma vote_started:
  assumes "distinct (poll_ids db)"
  shows "fst (vote e now a i oid (started_polls now db)) = fst (vote e now a i oid db)"
proof -
  have o: "poll_open now i (started_polls now db) = poll_open now i db"
    using poll_at_started [OF assms] by (auto simp: poll_open_def split: option.split)
  show ?thesis
  proof (cases "poll_open now i db")
    case (Inl err)
    then show ?thesis using o by (simp add: vote_def started_polls_def split: option.split)
  next
    case (Inr q)
    then have at_: "poll_at db i = Some q" "poll_at (started_polls now db) i = Some q"
      using poll_open_some [OF Inr] poll_at_started [OF assms, of now i] by auto
    have f: "poll_at (update_poll i (count_vote oid v) db) i = poll_at (update_poll i (count_vote oid v) (started_polls now db)) i" for v
      using at_ by (subst (1 2) poll_at_update) (auto simp: count_vote_def)
    have g: "get_poll e now a i (update_poll i (count_vote oid v) (started_polls now db)) = get_poll e now a i (update_poll i (count_vote oid v) db)" for v
      by (rule get_poll_same [OF f [symmetric]])
    have h: "get_poll e now a i (started_polls now db) = get_poll e now a i db" by (rule get_poll_same) (simp add: at_)
    have "pd_erased (started_polls now db) = pd_erased db" by (simp add: started_polls_def)
    then show ?thesis using o Inr g h by (simp add: vote_def Let_def split: option.split)
  qed
qed

text \<open>
  C35: a poll that is deleted or has not started is hidden: to anyone who may not write polls, the list, a poll by its
  id and a vote answer as if it were not in the table, but for a failure of the image lookup of the poll asked for.
\<close>

theorem unstarted_polls_hidden:
  assumes "polls_reached db" "require_perm (ps_auth e) a polls_write \<noteq> None"
  shows "handle_list e now a f db = handle_list e now a f (started_polls now db) \<and>
    fst (vote e now a i oid db) = fst (vote e now a i oid (started_polls now db)) \<and>
    (handle_get e now a i db = handle_get e now a i (started_polls now db) \<or> (\<exists>err. handle_get e now a i db = Inl (PollMedia err)))"
proof (intro conjI)
  have ids: "distinct (poll_ids db)" using reached_polls_ok [OF assms(1)] by (simp add: polls_ok_def)
  show "fst (vote e now a i oid db) = fst (vote e now a i oid (started_polls now db))" using vote_started [OF ids] by simp
  have "filter (poll_listed e now (f\<lparr>lf_admin := False, lf_state := [], lf_query := []\<rparr>) st) (pd_polls (started_polls now db)) =
      filter (poll_listed e now (f\<lparr>lf_admin := False, lf_state := [], lf_query := []\<rparr>) st) (pd_polls db)" for st
    by (auto simp: started_polls_def poll_listed_def Let_def intro!: filter_cong)
  then show "handle_list e now a f db = handle_list e now a f (started_polls now db)" by (simp add: handle_list_def list_polls_def)
  show "handle_get e now a i db = handle_get e now a i (started_polls now db) \<or> (\<exists>err. handle_get e now a i db = Inl (PollMedia err))"
  proof (cases "poll_at db i")
    case None
    then show ?thesis using poll_at_started [OF ids, of now i] by (simp add: handle_get_def get_scheduled_def)
  next
    case (Some q)
    have err: "\<exists>m. x = PollMedia m" if "attach_polls e now a [q] = Inl x" for x
      using that by (auto simp: attach_polls_def resolve_images_def bindr_def split: sum.splits if_splits)
    show ?thesis
    proof (cases "pq_live q \<le> now")
      case True
      then have "poll_at (started_polls now db) i = poll_at db i" using poll_at_started [OF ids, of now i] Some by simp
      then show ?thesis by (simp add: handle_get_def get_scheduled_def)
    next
      case False
      then have "poll_at (started_polls now db) i = None" using poll_at_started [OF ids, of now i] Some by simp
      then show ?thesis using Some False assms(2) err
        by (cases "attach_polls e now a [q]") (auto simp: handle_get_def get_scheduled_def)
    qed
  qed
qed

section \<open>A poll with two choices\<close>

definition sample_uuid :: "char \<Rightarrow> string" where
  "sample_uuid c = ''00000000-0000-0000-0000-00000000000'' @ [c]"

definition sample_choice_id :: "nat \<Rightarrow> string" where
  "sample_choice_id n = sample_uuid (if n = 0 then CHR ''a'' else CHR ''b'')"

definition sample_polls_env :: polls_env where
  "sample_polls_env = \<lparr>ps_auth = \<lparr>au_nil = False, au_authenticate = (\<lambda>_. Returns None), au_root = None, au_known = None, au_headers = None,
      au_scoped = None, au_accounts = None\<rparr>, ps_languages = [''en''], ps_media = False, ps_retire = (\<lambda>_. None), ps_images = (\<lambda>_. Inr (\<lambda>_. None)),
     ps_lower = id, ps_day = (\<lambda>_. None), ps_month = (\<lambda>_. None), ps_anonymous = True, ps_limit = (\<lambda>_. None)\<rparr>"

definition sample_poll_input :: poll_input where
  "sample_poll_input = \<lparr>pi_kind = [], pi_question = ''Q'', pi_language = ''en'', pi_live = None, pi_closes = None, pi_options = [(''A'', 0), (''B'', 1)]\<rparr>"

definition sample_visitor :: http_actor where
  "sample_visitor = \<lparr>a_id = [], a_account = None, a_kind = SubjectUser, a_ip = ''1'', a_anonymous = True, a_claims = None, ha_invoker = None,
     ha_verified = NoVerified\<rparr>"

definition sample_polls :: poll_db where
  "sample_polls = \<lparr>pd_polls = [\<lparr>pq_id = sample_uuid (CHR ''1''), pq_question = ''Q'', pq_language = ''en'', pq_active = True, pq_image = [], pq_live = 1000,
     pq_closes = None, pq_deleted = False, pq_options =
       [\<lparr>po_id = sample_choice_id 0, po_label = ''A'', po_image = [], po_position = 0, po_votes = 0\<rparr>,
        \<lparr>po_id = sample_choice_id 1, po_label = ''B'', po_image = [], po_position = 1, po_votes = 0\<rparr>], pq_ballots = []\<rparr>], pd_erased = []\<rparr>"

lemma sample_perms:
  "require_perm (ps_auth sample_polls_env) host_actor polls_write = None"
  "require_perm (ps_auth sample_polls_env) sample_visitor polls_write = Some PollForbidden"
  by (simp_all add: require_perm_def can_def host_actor_def is_host_def Catalog_Access.polls_write_def sample_visitor_def)

lemma sample_created:
  "after_call sample_polls_env 1000 (CreatePoll host_actor (sample_uuid (CHR ''1'')) sample_choice_id sample_poll_input) \<lparr>pd_polls = [], pd_erased = []\<rparr> = sample_polls"
proof -
  have t: "trim_space ''Q'' = ''Q''" "trim_space ''A'' = ''A''" "trim_space ''B'' = ''B''" by (rule trim_space_printable; simp)+
  have r: "length (runes ''Q'') = 1" "length (runes ''A'') = 1" "length (runes ''B'') = 1"
    using chunks_ascii [of "map of_char ''Q''"] chunks_ascii [of "map of_char ''A''"] chunks_ascii [of "map of_char ''B''"]
    by (simp_all add: runes_def rune_chunks_def)
  have input: "input_error sample_polls_env sample_poll_input = None"
    by (simp add: input_error_def sample_poll_input_def sample_polls_env_def label_error_def first_error_None_iff t r max_question_length_def max_label_length_def max_poll_options_def Let_def)
  have rows: "option_rows sample_choice_id (pi_options sample_poll_input) = pq_options (hd (pd_polls sample_polls))"
    by (simp add: option_rows_def sample_poll_input_def sample_polls_def t sample_choice_id_def sample_uuid_def lower_byte_def is_upper_def)
  have id: "map lower_byte (sample_uuid (CHR ''1'')) = sample_uuid (CHR ''1'')" "uuid_re (sample_uuid (CHR ''1''))" by code_simp+
  have stored: "list_all option_storable (pq_options (hd (pd_polls sample_polls)))" "distinct (map po_id (pq_options (hd (pd_polls sample_polls))))"
    "pg_text ''Q''" "pg_text ''en''" "pg_time 1000 = 1000" by code_simp+
  have empty: "poll_ids \<lparr>pd_polls = [], pd_erased = []\<rparr> = []" "option_ids \<lparr>pd_polls = [], pd_erased = []\<rparr> = []" by (simp_all add: poll_ids_def option_ids_def)
  have q: "pi_question sample_poll_input = ''Q''" "pi_language sample_poll_input = ''en''" "pi_live sample_poll_input = None" "pi_closes sample_poll_input = None"
    by (simp_all add: sample_poll_input_def)
  show ?thesis
    unfolding after_call.simps create_poll_def sample_perms option.case input Let_def rows id(1) q t(1) stored(5) poll_row.simps empty
    using stored id(2) by (simp add: sample_polls_def list_ex_iff)
qed

lemma sample_polls_reached: "polls_reached sample_polls"
  using polls_reached.call [OF polls_reached.empty] sample_created by metis

definition sample_voted :: poll_db where
  "sample_voted = snd (vote sample_polls_env 2000 sample_visitor (sample_uuid (CHR ''1'')) (sample_choice_id 1) sample_polls)"

lemma sample_voted_reached: "polls_reached sample_voted"
proof -
  have "participant sample_visitor True = None" by code_simp
  then have "handle_vote sample_polls_env 2000 sample_visitor i oid db = vote sample_polls_env 2000 sample_visitor i oid db" for i oid db
    by (simp add: handle_vote_def sample_polls_env_def)
  then show ?thesis
    using polls_reached.call [OF sample_polls_reached, of sample_polls_env 2000 "VotePoll sample_visitor (sample_uuid (CHR ''1'')) (sample_choice_id 1)"]
    by (simp add: sample_voted_def)
qed

theorem polls_consistent_witness:
  "map (\<lambda>q. map po_votes (pq_options q)) (pd_polls sample_voted) = [[0, 1]] \<and> distinct (poll_ids sample_voted) \<and> list_all (\<lambda>q.
    2 \<le> length (pq_options q) \<and> length (pq_options q) \<le> 10 \<and>
    list_all (\<lambda>x. po_votes x = int (length (filter (\<lambda>b. bl_option b = po_id x) (pq_ballots q)))) (pq_options q)) (pd_polls sample_voted)"
proof
  show "map (\<lambda>q. map po_votes (pq_options q)) (pd_polls sample_voted) = [[0, 1]]" by code_simp
qed (use polls_consistent [OF sample_voted_reached] in \<open>simp add: list_all_iff\<close>)

text \<open>The deletion of a choice by staff, after a vote.\<close>

theorem votes_final_witness:
  "map (\<lambda>q. length (pq_ballots q)) (pd_polls sample_voted) = [1] \<and>
   list_all2 (\<lambda>q q'. pq_id q' = pq_id q \<and> (pq_ballots q = [] \<or> map (\<lambda>x. (po_id x, po_label x, po_image x, po_position x)) (pq_options q') =
       map (\<lambda>x. (po_id x, po_label x, po_image x, po_position x)) (pq_options q)))
   (pd_polls sample_voted) (take (length (pd_polls sample_voted)) (pd_polls (after_call sample_polls_env 3000
     (DeleteOption host_actor (sample_uuid (CHR ''1'')) (sample_choice_id 0)) sample_voted)))"
proof
  show "map (\<lambda>q. length (pq_ballots q)) (pd_polls sample_voted) = [1]" by code_simp
qed (rule list.rel_mono_strong [OF votes_final [OF sample_voted_reached]], blast)

definition sample_list :: list_filter where
  "sample_list = \<lparr>lf_language = [], lf_month = [], lf_date = [], lf_state = [], lf_query = [], lf_admin = False, lf_limit = 20, lf_offset = 0\<rparr>"

theorem unstarted_polls_hidden_witness:
  "pd_polls sample_polls \<noteq> [] \<and> pd_polls (started_polls 500 sample_polls) = [] \<and>
   handle_list sample_polls_env 500 sample_visitor sample_list sample_polls = handle_list sample_polls_env 500 sample_visitor sample_list (started_polls 500 sample_polls) \<and>
   fst (vote sample_polls_env 500 sample_visitor (sample_uuid (CHR ''1'')) (sample_choice_id 1) sample_polls) =
     fst (vote sample_polls_env 500 sample_visitor (sample_uuid (CHR ''1'')) (sample_choice_id 1) (started_polls 500 sample_polls))"
proof (intro conjI)
  have "require_perm (ps_auth sample_polls_env) sample_visitor polls_write \<noteq> None" by (simp add: sample_perms)
  note hidden = unstarted_polls_hidden [OF sample_polls_reached this, of 500 sample_list "sample_uuid (CHR ''1'')" "sample_choice_id 1"]
  show "handle_list sample_polls_env 500 sample_visitor sample_list sample_polls = handle_list sample_polls_env 500 sample_visitor sample_list (started_polls 500 sample_polls)"
    using hidden by blast
  show "fst (vote sample_polls_env 500 sample_visitor (sample_uuid (CHR ''1'')) (sample_choice_id 1) sample_polls) =
     fst (vote sample_polls_env 500 sample_visitor (sample_uuid (CHR ''1'')) (sample_choice_id 1) (started_polls 500 sample_polls))"
    using hidden by blast
qed (simp_all add: sample_polls_def started_polls_def)

text \<open>
  An edit compares the times it is given to the nanosecond, and the table keeps microseconds: a poll
  can be left closing when it goes live, which \<open>create_poll\<close> refuses.
\<close>

theorem edit_closes_at_start:
  "pg_time 2500 = 2000 \<and>
   (case edit_poll sample_polls_env 1500 host_actor (sample_uuid (CHR ''1'')) \<lparr>pu_question = None, pu_active = None, pu_live = Some 2000, pu_closes = Some (Some 2500)\<rparr>
     sample_polls of (r, db) \<Rightarrow> (case r of Inl _ \<Rightarrow> False | Inr _ \<Rightarrow> True) \<and> map pq_live (pd_polls db) = [2000] \<and> map pq_closes (pd_polls db) = [Some 2000])"
  unfolding edit_poll_def sample_perms option.case by code_simp

theorem vote_once_witness:
  "\<exists>v db. vote sample_polls_env 2000 sample_visitor (sample_uuid (CHR ''1'')) (sample_choice_id 1) sample_polls = (Inr v, db) \<and>
     pw_voted v \<and> pw_mine v = sample_choice_id 1 \<and> pw_total v = 1 \<and>
     snd (vote sample_polls_env 3000 sample_visitor (sample_uuid (CHR ''1'')) (sample_choice_id 0) db) = db"
proof -
  let ?vote = "vote sample_polls_env 2000 sample_visitor (sample_uuid (CHR ''1'')) (sample_choice_id 1) sample_polls"
  have r: "case fst ?vote of Inl _ \<Rightarrow> False | Inr v \<Rightarrow> pw_mine v = sample_choice_id 1 \<and> pw_total v = 1" by code_simp
  then obtain v where v: "fst ?vote = Inr v" by (cases "fst ?vote") auto
  then have eq: "?vote = (Inr v, snd ?vote)" by (metis prod.collapse)
  show ?thesis
    using vote_once [OF sample_polls_reached eq, of 3000 "sample_choice_id 0"] r v eq by auto
qed

end
