(* ===== verification/Rate_Limit.thy ===== *)
theory Rate_Limit
  imports Prelude "HOL-Library.Word" "HOL-Library.Product_Lexorder" "HOL-Library.Multiset"
begin

text \<open>
  Package \<open>internal/ratelimit\<close>: sliding-window limits, counted in process or in Redis. Times
  are milliseconds since the epoch, as integers; the process's clock is the argument \<open>t\<close> of a
  call. The memory store is a list of shards, each the map of its keys in the order Go's
  iteration gives. Redis is a service: its sorted sets are the parameter \<open>zset_ops\<close> of what
  uses them, with the documented behaviour of the commands as the predicate \<open>zset_laws\<close>.
\<close>

unbundle bit_operations_syntax

section \<open>Windows and their logs\<close>

record window_option =
  wo_limit :: int
  wo_per :: int

record rate_window =
  rw_limit :: nat
  rw_per :: int

datatype limit_error = NoWindows | BadWindow int int

definition check_window :: "window_option \<Rightarrow> rate_window list \<Rightarrow> (limit_error, rate_window list) result" where
  "check_window w ws =
     (if wo_limit w \<le> 0 \<or> wo_per w < 1000000 then Inl (BadWindow (wo_limit w) (wo_per w))
      else Inr (ws @ [\<lparr>rw_limit = nat (wo_limit w), rw_per = wo_per w div 1000000\<rparr>]))"

definition new_limiter :: "window_option list \<Rightarrow> (limit_error, rate_window list) result" where
  "new_limiter os = (if os = [] then Inl NoWindows else fold_result check_window os [])"

record rate_event =
  ev_at :: int
  ev_member :: string

type_synonym event_log = "rate_event list"

definition expire_log :: "event_log \<Rightarrow> int \<Rightarrow> event_log" where
  "expire_log log cutoff = dropWhile (\<lambda>e. ev_at e \<le> cutoff) log"

definition has_member :: "string \<Rightarrow> event_log \<Rightarrow> bool" where
  "has_member member log \<longleftrightarrow> member \<noteq> [] \<and> list_ex (\<lambda>e. ev_member e = member) log"

text \<open>The wait one window asks for, 0 when the event fits it.\<close>

definition window_wait :: "rate_window \<Rightarrow> event_log \<Rightarrow> string \<Rightarrow> int \<Rightarrow> int" where
  "window_wait w log member t =
     (if \<not> has_member member log \<and> rw_limit w \<le> length log
      then max (ev_at (log ! (length log - rw_limit w)) + rw_per w - t) 1 else 0)"

definition log_event :: "string \<Rightarrow> int \<Rightarrow> event_log \<Rightarrow> event_log" where
  "log_event member t log =
     (if has_member member log then log else log @ [\<lparr>ev_at = t, ev_member = member\<rparr>])"

text \<open>What a call does to the logs of its key: \<open>Inl\<close> the wait of a refusal.\<close>

definition key_allow ::
    "rate_window list \<Rightarrow> event_log list \<Rightarrow> string \<Rightarrow> int \<Rightarrow> event_log list \<times> int option" where
  "key_allow ws logs member t =
     (let logs = map2 (\<lambda>w log. expire_log log (t - rw_per w)) ws logs;
          wait = fold max (map2 (\<lambda>w log. window_wait w log member t) ws logs) 0
      in if wait > 0 then (logs, Some wait)
         else (map (log_event member t) logs, None))"

section \<open>The memory store\<close>

definition shard_count :: nat where "shard_count = 32"
definition max_keys :: nat where "max_keys = 65536"

type_synonym shard = "(string \<times> event_log list) list"

definition fnv32 :: "string \<Rightarrow> 32 word" where
  "fnv32 s = fold (\<lambda>c h. (h XOR of_nat (of_char c)) * 16777619) s 2166136261"

definition shard_of :: "string \<Rightarrow> nat" where
  "shard_of key = unat (fnv32 key) mod shard_count"

definition live_logs :: "rate_window list \<Rightarrow> event_log list \<Rightarrow> int \<Rightarrow> bool" where
  "live_logs ws logs t \<longleftrightarrow>
     list_ex (\<lambda>(w, log). log \<noteq> [] \<and> ev_at (last log) > t - rw_per w) (zip ws logs)"

definition prune_shard :: "rate_window list \<Rightarrow> shard \<Rightarrow> int \<Rightarrow> shard" where
  "prune_shard ws s t =
     (let s = filter (\<lambda>(k, logs). live_logs ws logs t) s
      in if length s \<ge> max_keys then drop (max_keys div 2) s else s)"

definition shard_allow ::
    "rate_window list \<Rightarrow> shard \<Rightarrow> string \<Rightarrow> string \<Rightarrow> int \<Rightarrow> shard \<times> int option" where
  "shard_allow ws s key member t =
     (let (s, logs) = (case map_of s key of
          Some logs \<Rightarrow> (s, logs)
        | None \<Rightarrow> (if length s \<ge> max_keys then prune_shard ws s t else s, map (\<lambda>_. []) ws));
        (logs', wait) = key_allow ws logs member t
      in (AList.update key logs' s, wait))"

definition memory_allow ::
    "rate_window list \<Rightarrow> shard list \<Rightarrow> string \<Rightarrow> string \<Rightarrow> int \<Rightarrow> shard list \<times> int option" where
  "memory_allow ws m key member t =
     (let i = shard_of key; (s, wait) = shard_allow ws (m ! i) key member t
      in (m[i := s], wait))"

definition new_memory :: "shard list" where
  "new_memory = replicate shard_count []"

section \<open>The Redis store\<close>

text \<open>
  The commands on one sorted set. \<open>zentries\<close> is what \<open>ZRANGE 0 -1 WITHSCORES\<close> lists, in the
  order of the set: by score, then by member.
\<close>

record 'z zset_ops =
  zentries :: "'z \<Rightarrow> (int \<times> string) list"
  zrem_below :: "int \<Rightarrow> 'z \<Rightarrow> 'z"
  zadd_nx :: "int \<Rightarrow> string \<Rightarrow> 'z \<Rightarrow> 'z"
  zrem :: "string \<Rightarrow> 'z \<Rightarrow> 'z"

definition zset_laws :: "'z zset_ops \<Rightarrow> bool" where
  "zset_laws z \<longleftrightarrow>
     (\<forall>s. sorted (zentries z s) \<and> distinct (map snd (zentries z s))) \<and>
     (\<forall>s c. zentries z (zrem_below z c s) = filter (\<lambda>e. \<not> fst e \<le> c) (zentries z s)) \<and>
     (\<forall>s at m. zentries z (zadd_nx z at m s) =
        (if m \<in> snd ` set (zentries z s) then zentries z s else insort (at, m) (zentries z s))) \<and>
     (\<forall>s m. zentries z (zrem z m s) = filter (\<lambda>e. snd e \<noteq> m) (zentries z s))"

text \<open>
  The commands on the sorted set of one window: drop what the window no longer covers, add the
  event, count, and read the entry \<open>limit + 1\<close> places from the newest. The result is the set,
  whether the event was added, and the wait the window asks for.
\<close>

definition zset_window ::
    "'z zset_ops \<Rightarrow> rate_window \<Rightarrow> 'z \<Rightarrow> string \<Rightarrow> int \<Rightarrow> 'z \<times> bool \<times> int" where
  "zset_window z w s member t =
     (let s1 = zrem_below z (t - rw_per w) s;
          s2 = zadd_nx z t member s1;
          added = member \<notin> snd ` set (zentries z s1);
          n = length (zentries z s2);
          wait = (if \<not> added \<or> n \<le> rw_limit w then 0
            else max (if rw_limit w + 1 \<le> n
                then fst (zentries z s2 ! (n - (rw_limit w + 1))) + rw_per w - t else 0) 1)
      in (s2, added, wait))"

text \<open>
  The sets of a key of the limiter: one for every period, named by it. Windows of the same
  period share their set, in the order of the pipeline. \<open>PExpire\<close> is left out: it removes a set
  only after every event in it has left its window.
\<close>

type_synonym 'z redis_sets = "int \<Rightarrow> 'z"

definition redis_window ::
    "'z zset_ops \<Rightarrow> rate_window \<Rightarrow> 'z redis_sets \<Rightarrow> string \<Rightarrow> int \<Rightarrow> 'z redis_sets \<times> bool \<times> int" where
  "redis_window z w sets member t =
     (let (s, added, wait) = zset_window z w (sets (rw_per w)) member t in (sets(rw_per w := s), added, wait))"

fun redis_transaction ::
    "'z zset_ops \<Rightarrow> rate_window list \<Rightarrow> 'z redis_sets \<Rightarrow> string \<Rightarrow> int \<Rightarrow> 'z redis_sets \<times> (rate_window \<times> bool \<times> int) list" where
  "redis_transaction z [] sets member t = (sets, [])"
| "redis_transaction z (w # ws) sets member t =
     (let (sets, added, wait) = redis_window z w sets member t;
          (sets, rs) = redis_transaction z ws sets member t
      in (sets, (w, added, wait) # rs))"

text \<open>An event without a member gets one made of its time and a random number.\<close>

definition digit36 :: "nat \<Rightarrow> char" where
  "digit36 d = char_of (if d < 10 then 48 + d else 87 + d)"

fun base36 :: "nat \<Rightarrow> string" where
  "base36 n = (if n < 36 then [digit36 n] else base36 (n div 36) @ [digit36 (n mod 36)])"

declare base36.simps [simp del]

definition redis_member :: "string \<Rightarrow> int \<Rightarrow> 64 word \<Rightarrow> string" where
  "redis_member member t random =
     (if member = [] then (if t < 0 then ''-'' else []) @ base36 (nat (abs t)) @ '':'' @ base36 (unat random) else member)"

text \<open>A refusal takes the event back out of the sets it was added to.\<close>

definition redis_allow ::
    "'z zset_ops \<Rightarrow> rate_window list \<Rightarrow> 'z redis_sets \<Rightarrow> string \<Rightarrow> int \<Rightarrow> 64 word \<Rightarrow> 'z redis_sets \<times> int option" where
  "redis_allow z ws sets member t random =
     (let m = redis_member member t random;
          (sets, rs) = redis_transaction z ws sets m t;
          wait = fold max (map (\<lambda>(w, added, wait). wait) rs) 0
      in if wait = 0 then (sets, None)
         else (fold (\<lambda>(w, added, wait) sets. if added then sets(rw_per w := zrem z m (sets (rw_per w))) else sets) rs sets,
           Some wait))"

text \<open>
  \<open>Limiter.allow\<close>: the local store while Redis is absent or backed off; a failing Redis backs
  off for a second and the event is counted locally. \<open>redis\<close> is the answer of the round trip.
\<close>

record limiter =
  li_windows :: "rate_window list"
  li_redis :: bool
  li_down :: int
  li_local :: "shard list"

definition redis_backoff :: int where "redis_backoff = 1000"

definition limiter_allow ::
    "limiter \<Rightarrow> string \<Rightarrow> string \<Rightarrow> int \<Rightarrow> int option option \<Rightarrow> limiter \<times> int option" where
  "limiter_allow l key member t redis =
     (if \<not> li_redis l \<or> t < li_down l
      then (let (m, wait) = memory_allow (li_windows l) (li_local l) key member t
            in (l\<lparr>li_local := m\<rparr>, wait))
      else case redis of
        Some wait \<Rightarrow> (l, wait)
      | None \<Rightarrow>
          (let (m, wait) = memory_allow (li_windows l) (li_local l) key member t
           in (l\<lparr>li_down := t + redis_backoff, li_local := m\<rparr>, wait)))"

end
