(* ===== verification/Rate_Props.thy ===== *)
theory Rate_Props
  imports Rate_Limit
begin

text \<open>
  What a limiter guarantees: no window ever holds more events than its limit, a refusal's wait
  is exact, dropping dead keys changes nothing, and Redis counts as the process does while no two
  windows have the same period.
\<close>

section \<open>Well-formed logs\<close>

text \<open>What every log is between calls: no longer than its limit, in the order of time, not
  ahead of the last call, and with distinct members among the named ones.\<close>

definition log_ok :: "rate_window \<Rightarrow> int \<Rightarrow> event_log \<Rightarrow> bool" where
  "log_ok w t log \<longleftrightarrow> 0 < rw_limit w \<and> 0 < rw_per w \<and> length log \<le> rw_limit w \<and>
     sorted (map ev_at log) \<and> (\<forall>e \<in> set log. ev_at e \<le> t) \<and>
     distinct (filter (\<lambda>m. m \<noteq> []) (map ev_member log))"

lemma new_limiter_windows:
  assumes "new_limiter os = Inr ws"
  shows "\<forall>w \<in> set ws. 0 < rw_limit w \<and> 0 < rw_per w" and "ws \<noteq> []"
proof -
  have run: "fold_result check_window os [] = Inr ws" and ne: "os \<noteq> []"
    using assms by (auto simp: new_limiter_def split: if_splits)
  show "\<forall>w \<in> set ws. 0 < rw_limit w \<and> 0 < rw_per w"
    by (rule fold_result_invariant [OF run, where I = "\<lambda>ws. \<forall>w \<in> set ws. 0 < rw_limit w \<and> 0 < rw_per w"])
       (auto simp: check_window_def split: if_splits)
  obtain x xs where "os = x # xs" using ne by (cases os) auto
  then obtain ws1 where ws1: "check_window x [] = Inr ws1" "fold_result check_window xs ws1 = Inr ws"
    using run by (auto simp: bindr_Inr_iff)
  have "ws1 \<noteq> []" using ws1(1) by (auto simp: check_window_def split: if_splits)
  with ws1(2) show "ws \<noteq> []"
    by (rule fold_result_invariant [where I = "\<lambda>ws. ws \<noteq> []"])
       (auto simp: check_window_def split: if_splits)
qed

lemma expire_filter:
  "sorted (map ev_at log) \<Longrightarrow> expire_log log c = filter (\<lambda>e. \<not> ev_at e \<le> c) log"
  unfolding expire_log_def
proof (induction log)
  case (Cons e log)
  show ?case
  proof (cases "ev_at e \<le> c")
    case True
    then show ?thesis using Cons by simp
  next
    case False
    then have "\<forall>x \<in> set log. \<not> ev_at x \<le> c" using Cons.prems by auto
    then show ?thesis using False by (simp add: filter_id_conv)
  qed
qed simp

lemma expire_ok: "log_ok w t log \<Longrightarrow> t \<le> t' \<Longrightarrow> log_ok w t' (expire_log log c)"
proof -
  assume l: "log_ok w t log" and t: "t \<le> t'"
  then have s: "expire_log log c = filter (\<lambda>e. \<not> ev_at e \<le> c) log"
    by (simp add: log_ok_def expire_filter)
  have "length (expire_log log c) \<le> length log" by (simp add: expire_log_def length_dropWhile_le)
  moreover have "distinct (filter (\<lambda>m. m \<noteq> []) (map ev_member (filter (\<lambda>e. \<not> ev_at e \<le> c) log)))"
    using l by (induction log) (auto simp: log_ok_def)
  moreover have "sorted (map ev_at (filter (\<lambda>e. \<not> ev_at e \<le> c) log))"
    using l by (simp add: log_ok_def sorted_filter)
  ultimately show ?thesis
    using l t unfolding s log_ok_def by (auto intro: order_trans order_trans [OF length_filter_le])
qed

text \<open>Expiring twice is expiring once, at the later time.\<close>

lemma expire_expire: "c \<le> d \<Longrightarrow> expire_log (expire_log log c) d = expire_log log d"
  unfolding expire_log_def by (induction log) auto

lemma expire_full: "length (expire_log log c) = length log \<Longrightarrow> expire_log log c = log"
  using length_dropWhile_le [of "\<lambda>e. ev_at e \<le> c" "tl log"] by (cases log) (auto simp: expire_log_def)

lemma log_event_ok:
  assumes "log_ok w t log" and "has_member member log \<or> length log < rw_limit w"
  shows "log_ok w t (log_event member t log)"
proof (cases "has_member member log")
  case False
  then have "length log < rw_limit w" using assms(2) by simp
  then show ?thesis
    using assms(1) False
    by (auto simp: log_event_def log_ok_def has_member_def sorted_append list_ex_iff)
qed (use assms(1) in \<open>simp add: log_event_def\<close>)

section \<open>One window\<close>

text \<open>An event fits a window at the end of the wait the window asks for, and not before.\<close>

lemma window_wait_exact:
  assumes ok: "log_ok w t0 log" and t: "t0 \<le> t" and u: "t \<le> u"
  shows "window_wait w (expire_log log (u - rw_per w)) m u = 0 \<longleftrightarrow>
    t + window_wait w (expire_log log (t - rw_per w)) m t \<le> u"
    and "0 \<le> window_wait w (expire_log log (t - rw_per w)) m t"
proof -
  let ?l = "expire_log log (t - rw_per w)" and ?k = "expire_log log (u - rw_per w)"
  have lo: "log_ok w t ?l" and ko: "log_ok w u ?k" using expire_ok [OF ok] t u by simp_all
  have k: "?k = expire_log ?l (u - rw_per w)" using u by (simp add: expire_expire)
  have sub: "set ?k \<subseteq> set ?l" unfolding k by (metis expire_log_def set_dropWhileD subsetI)
  have len: "length ?k \<le> length ?l" unfolding k by (simp add: expire_log_def length_dropWhile_le)
  show "0 \<le> window_wait w ?l m t" by (simp add: window_wait_def le_max_iff_disj)
  show "window_wait w ?k m u = 0 \<longleftrightarrow> t + window_wait w ?l m t \<le> u"
  proof (cases "has_member m ?l")
    case True
    have "has_member m ?k \<or> length ?k < rw_limit w"
    proof (rule ccontr)
      assume a: "\<not> (has_member m ?k \<or> length ?k < rw_limit w)"
      then have "length ?k = length ?l" using len lo by (simp add: log_ok_def)
      then have "length (expire_log ?l (u - rw_per w)) = length ?l" by (simp only: k)
      then have "?k = ?l" unfolding k by (rule expire_full)
      then show False using a True by simp
    qed
    then show ?thesis using True u by (auto simp: window_wait_def)
  next
    case False
    then have nk: "\<not> has_member m ?k" using sub by (auto simp: has_member_def list_ex_iff)
    show ?thesis
    proof (cases "length ?l < rw_limit w")
      case True
      then show ?thesis using len u False nk by (simp add: window_wait_def)
    next
      case full: False
      then have n: "length ?l = rw_limit w" using lo by (simp add: log_ok_def)
      then obtain e l' where l: "?l = e # l'" using lo by (cases ?l) (auto simp: log_ok_def)
      have e: "t - rw_per w < ev_at e"
        using hd_dropWhile [of "\<lambda>e. ev_at e \<le> t - rw_per w" log] l
        unfolding expire_log_def by (metis list.distinct(1) list.sel(1) not_le)
      then have w: "window_wait w ?l m t = ev_at e + rw_per w - t"
        using False n l by (simp add: window_wait_def)
      have "length ?k < rw_limit w \<longleftrightarrow> ev_at e \<le> u - rw_per w"
      proof
        assume "length ?k < rw_limit w"
        then show "ev_at e \<le> u - rw_per w"
          using n l unfolding k by (auto simp: expire_log_def split: if_splits)
      next
        assume "ev_at e \<le> u - rw_per w"
        then have "?k = expire_log l' (u - rw_per w)" unfolding k l by (simp add: expire_log_def)
        then have "length ?k \<le> length l'" by (simp add: expire_log_def length_dropWhile_le)
        then show "length ?k < rw_limit w" using n l by simp
      qed
      moreover have "window_wait w ?k m u = 0 \<longleftrightarrow> length ?k < rw_limit w"
        using nk by (simp add: window_wait_def max_def)
      ultimately show ?thesis by (simp add: w) linarith
    qed
  qed
qed

section \<open>All windows\<close>

definition logs_ok :: "rate_window list \<Rightarrow> int \<Rightarrow> event_log list \<Rightarrow> bool" where
  "logs_ok ws t logs \<longleftrightarrow> list_all2 (\<lambda>w log. log_ok w t log) ws logs"

definition expired :: "rate_window list \<Rightarrow> event_log list \<Rightarrow> int \<Rightarrow> event_log list" where
  "expired ws logs t = map2 (\<lambda>w log. expire_log log (t - rw_per w)) ws logs"

definition waits :: "rate_window list \<Rightarrow> event_log list \<Rightarrow> string \<Rightarrow> int \<Rightarrow> int list" where
  "waits ws logs m t = map2 (\<lambda>w log. window_wait w (expire_log log (t - rw_per w)) m t) ws logs"

lemma fold_max_le: "fold max xs a \<le> (b :: int) \<longleftrightarrow> a \<le> b \<and> (\<forall>x \<in> set xs. x \<le> b)"
  by (induction xs arbitrary: a) auto

lemma map2_map2_right: "map2 f xs (map2 g xs ys) = map2 (\<lambda>x y. f x (g x y)) xs ys"
  by (induction xs ys rule: list_induct2') auto

lemma key_allow_unfold:
  "key_allow ws logs m t =
     (let wait = fold max (waits ws logs m t) 0
      in if wait > 0 then (expired ws logs t, Some wait) else (map (log_event m t) (expired ws logs t), None))"
  by (simp add: key_allow_def waits_def expired_def map2_map2_right Let_def)

lemma key_admits: "snd (key_allow ws logs m t) = None \<longleftrightarrow> (\<forall>x \<in> set (waits ws logs m t). x \<le> 0)"
  using fold_max_le [of "waits ws logs m t" 0 0] by (auto simp: key_allow_unfold Let_def not_less)

lemma expired_ok: "logs_ok ws t0 logs \<Longrightarrow> t0 \<le> t \<Longrightarrow> logs_ok ws t (expired ws logs t)"
  unfolding logs_ok_def expired_def
  by (induction ws logs rule: list_all2_induct) (simp_all add: expire_ok)

lemma logs_ok_mono: "logs_ok ws t logs \<Longrightarrow> t \<le> u \<Longrightarrow> logs_ok ws u logs"
  unfolding logs_ok_def by (erule list_all2_mono) (force simp: log_ok_def)

lemma waits_expired: "t \<le> u \<Longrightarrow> waits ws (expired ws logs t) m u = waits ws logs m u"
  unfolding waits_def expired_def
  by (induction ws logs rule: list_induct2') (simp_all add: expire_expire)

lemma waits_exact:
  assumes "logs_ok ws t0 logs" and "t0 \<le> t" and "t \<le> u"
  shows "(\<forall>x \<in> set (waits ws logs m u). x \<le> 0) \<longleftrightarrow> (\<forall>x \<in> set (waits ws logs m t). t + x \<le> u)"
  using assms(1) unfolding logs_ok_def waits_def
proof (induction ws logs rule: list_all2_induct)
  case (Cons w ws log logs)
  have "window_wait w (expire_log log (u - rw_per w)) m u \<le> 0 \<longleftrightarrow>
      t + window_wait w (expire_log log (t - rw_per w)) m t \<le> u"
    using window_wait_exact(1) [OF Cons(1) assms(2,3), where m = m]
      window_wait_exact(2) [OF Cons(1) order_trans [OF assms(2,3)] order_refl, where m = m] by linarith
  then show ?case using Cons(3) by simp
qed simp

text \<open>
  the wait of a refusal is exact: the event is refused at every time before the wait is
  over, and admitted at every time from then on, if nothing else happens to the key.
\<close>

theorem retry_exact:
  assumes "logs_ok ws t0 logs" and "t0 \<le> t" and "key_allow ws logs m t = (logs', Some d)"
  shows "0 < d \<and> (\<forall>u \<ge> t. snd (key_allow ws logs' m u) = None \<longleftrightarrow> t + d \<le> u)"
proof -
  have d: "d = fold max (waits ws logs m t) 0" "0 < d" and l: "logs' = expired ws logs t"
    using assms(3) by (auto simp: key_allow_unfold Let_def split: if_splits)
  have "snd (key_allow ws logs' m u) = None \<longleftrightarrow> t + d \<le> u" if u: "t \<le> u" for u
  proof -
    have "snd (key_allow ws logs' m u) = None \<longleftrightarrow> (\<forall>x \<in> set (waits ws logs m u). x \<le> 0)"
      unfolding key_admits l waits_expired [OF u] ..
    also have "\<dots> \<longleftrightarrow> (\<forall>x \<in> set (waits ws logs m t). x \<le> u - t)"
      unfolding waits_exact [OF assms(1,2) u] by (simp add: algebra_simps)
    also have "\<dots> \<longleftrightarrow> d \<le> u - t" using u by (simp add: d(1) fold_max_le)
    finally show ?thesis by linarith
  qed
  then show ?thesis using d(2) by blast
qed

text \<open>Every call keeps the logs well-formed.\<close>

lemma key_allow_ok:
  assumes "logs_ok ws t0 logs" and "t0 \<le> t"
  shows "logs_ok ws t (fst (key_allow ws logs m t))"
proof (cases "snd (key_allow ws logs m t)")
  case (Some d)
  then have "fst (key_allow ws logs m t) = expired ws logs t"
    by (auto simp: key_allow_unfold Let_def split: if_splits)
  then show ?thesis using expired_ok [OF assms] by simp
next
  case None
  then have f: "fst (key_allow ws logs m t) = map (log_event m t) (expired ws logs t)"
    and w: "\<forall>x \<in> set (waits ws logs m t). x \<le> 0"
    unfolding key_admits [symmetric] by (auto simp: key_allow_unfold Let_def split: if_splits)
  have "list_all2 (\<lambda>w log. log_ok w t log) ws (map (log_event m t) (expired ws logs t))"
    using assms(1) w unfolding logs_ok_def waits_def expired_def
  proof (induction ws logs rule: list_all2_induct)
    case (Cons w ws log logs)
    let ?l = "expire_log log (t - rw_per w)"
    have l: "log_ok w t ?l" by (rule expire_ok [OF Cons(1) assms(2)])
    have "window_wait w ?l m t \<le> 0" using Cons(4) by simp
    then have "has_member m ?l \<or> length ?l < rw_limit w"
      by (auto simp: window_wait_def max_def split: if_splits)
    then have "log_ok w t (log_event m t ?l)" by (rule log_event_ok [OF l])
    then show ?case using Cons(3,4) by simp
  qed simp
  then show ?thesis unfolding f logs_ok_def .
qed

section \<open>The bound\<close>

text \<open>The times of the events a sequence of calls admits.\<close>

fun admitted :: "rate_window list \<Rightarrow> event_log list \<Rightarrow> int list \<Rightarrow> int list" where
  "admitted ws logs [] = []"
| "admitted ws logs (t # ts) =
     (case key_allow ws logs [] t of
        (logs', None) \<Rightarrow> t # admitted ws logs' ts
      | (logs', Some _) \<Rightarrow> admitted ws logs' ts)"

text \<open>A log covers a history when it has every event its window has not passed.\<close>

definition covers :: "rate_window \<Rightarrow> int \<Rightarrow> int list \<Rightarrow> event_log \<Rightarrow> bool" where
  "covers w t hist log \<longleftrightarrow> filter (\<lambda>a. t - rw_per w < a) (map ev_at log) = filter (\<lambda>a. t - rw_per w < a) hist"

definition in_window :: "rate_window \<Rightarrow> int \<Rightarrow> int list \<Rightarrow> nat" where
  "in_window w T hist = length (filter (\<lambda>a. T - rw_per w < a \<and> a \<le> T) hist)"

lemma covers_mono: "covers w t hist log \<Longrightarrow> t \<le> u \<Longrightarrow> covers w u hist log"
proof -
  assume c: "covers w t hist log" and u: "t \<le> u"
  have f: "filter (\<lambda>a. u - rw_per w < a) xs = filter (\<lambda>a. u - rw_per w < a) (filter (\<lambda>a. t - rw_per w < a) xs)"
    for xs using u by (simp add: filter_filter) (rule filter_cong; auto)
  show ?thesis unfolding covers_def f [of hist] f [of "map ev_at log"] using c by (simp add: covers_def)
qed

lemma covers_expire:
  assumes "covers w t hist log" and "log_ok w t0 log"
  shows "map ev_at (expire_log log (t - rw_per w)) = filter (\<lambda>a. t - rw_per w < a) hist"
proof -
  have "map ev_at (expire_log log (t - rw_per w)) = filter (\<lambda>a. t - rw_per w < a) (map ev_at log)"
    using assms(2) by (simp add: log_ok_def expire_filter filter_map comp_def not_le)
  then show ?thesis using assms(1) by (simp add: covers_def)
qed

lemma no_member [simp]: "\<not> has_member [] log"
  by (simp add: has_member_def)

definition hist_ok :: "rate_window list \<Rightarrow> int \<Rightarrow> int list \<Rightarrow> event_log list \<Rightarrow> bool" where
  "hist_ok ws t hist logs \<longleftrightarrow> (\<forall>a \<in> set hist. a \<le> t) \<and>
     list_all2 (\<lambda>w log. log_ok w t log \<and> covers w t hist log \<and> (\<forall>T. in_window w T hist \<le> rw_limit w)) ws logs"

lemma in_window_snoc:
  assumes "\<forall>a \<in> set hist. a \<le> t" and "length (filter (\<lambda>a. t - rw_per w < a) hist) < rw_limit w"
    and "\<forall>T. in_window w T hist \<le> rw_limit w"
  shows "in_window w T (hist @ [t]) \<le> rw_limit w"
proof (cases "t \<le> T")
  case False
  then show ?thesis using assms(3) by (simp add: in_window_def)
next
  case True
  have "length (filter (\<lambda>a. T - rw_per w < a \<and> a \<le> T) hist) \<le> length (filter (\<lambda>a. t - rw_per w < a) hist)"
  proof -
    have "filter (\<lambda>a. T - rw_per w < a \<and> a \<le> T) hist =
        filter (\<lambda>a. T - rw_per w < a \<and> a \<le> T) (filter (\<lambda>a. t - rw_per w < a) hist)"
      using True by (simp add: filter_filter) (rule filter_cong; auto)
    then show ?thesis by (metis length_filter_le)
  qed
  then show ?thesis using assms(2) by (simp add: in_window_def)
qed

lemma hist_step:
  assumes h: "hist_ok ws t0 hist logs" and t: "t0 \<le> t"
    and a: "key_allow ws logs [] t = (logs', r)"
  shows "hist_ok ws t (if r = None then hist @ [t] else hist) logs'"
proof -
  have le: "\<forall>a \<in> set hist. a \<le> t" using h t by (auto simp: hist_ok_def)
  have l2: "list_all2 (\<lambda>w log. log_ok w t0 log \<and> covers w t hist log \<and> (\<forall>T. in_window w T hist \<le> rw_limit w)) ws logs"
    using h t unfolding hist_ok_def by (auto elim!: list_all2_mono intro: covers_mono)
  show ?thesis
  proof (cases r)
    case (Some d)
    then have "logs' = expired ws logs t" using a by (auto simp: key_allow_unfold Let_def split: if_splits)
    moreover have "list_all2 (\<lambda>w log. log_ok w t log \<and> covers w t hist log \<and>
        (\<forall>T. in_window w T hist \<le> rw_limit w)) ws (expired ws logs t)"
      using l2 unfolding expired_def
      by (induction ws logs rule: list_all2_induct)
         (auto simp: expire_ok [OF _ t] covers_expire covers_def [of _ t hist "expire_log _ _"])
    ultimately show ?thesis using le Some by (simp add: hist_ok_def)
  next
    case None
    then have f: "logs' = map (log_event [] t) (expired ws logs t)"
      and w: "\<forall>x \<in> set (waits ws logs [] t). x \<le> 0"
      using a key_admits [of ws logs "[]" t] by (auto simp: key_allow_unfold Let_def split: if_splits)
    have "list_all2 (\<lambda>w log. log_ok w t log \<and> covers w t (hist @ [t]) log \<and>
        (\<forall>T. in_window w T (hist @ [t]) \<le> rw_limit w)) ws (map (log_event [] t) (expired ws logs t))"
      using l2 w unfolding expired_def waits_def
    proof (induction ws logs rule: list_all2_induct)
      case (Cons w ws log logs)
      let ?l = "expire_log log (t - rw_per w)"
      have ok: "log_ok w t ?l" using Cons(1) expire_ok [OF _ t] by blast
      have times: "map ev_at ?l = filter (\<lambda>a. t - rw_per w < a) hist"
        using Cons(1) covers_expire by blast
      have len: "length ?l < rw_limit w"
        using Cons(4) by (auto simp: window_wait_def max_def split: if_splits)
      have p: "0 < rw_per w" using ok by (simp add: log_ok_def)
      have "log_ok w t (log_event [] t ?l)" by (rule log_event_ok [OF ok]) (use len in simp)
      moreover have "covers w t (hist @ [t]) (log_event [] t ?l)"
        using times p by (simp add: covers_def log_event_def)
      moreover have "in_window w T (hist @ [t]) \<le> rw_limit w" for T
        by (rule in_window_snoc [OF le]) (use Cons(1) len arg_cong [OF times, of length] in simp_all)
      ultimately show ?case using Cons(3,4) by simp
    qed simp
    then show ?thesis using le None f by (simp add: hist_ok_def)
  qed
qed

lemma admitted_bound:
  "sorted ts \<Longrightarrow> \<forall>t \<in> set ts. t0 \<le> t \<Longrightarrow> hist_ok ws t0 hist logs \<Longrightarrow> w \<in> set ws \<Longrightarrow>
   in_window w T (hist @ admitted ws logs ts) \<le> rw_limit w"
proof (induction ts arbitrary: t0 hist logs)
  case Nil
  then show ?case by (auto simp: hist_ok_def list_all2_conv_all_nth in_set_conv_nth)
next
  case (Cons t ts)
  obtain logs' r where a: "key_allow ws logs [] t = (logs', r)" by (metis surj_pair)
  have h: "hist_ok ws t (if r = None then hist @ [t] else hist) logs'"
    by (rule hist_step [OF Cons.prems(3) _ a]) (use Cons.prems(2) in simp)
  have "in_window w T ((if r = None then hist @ [t] else hist) @ admitted ws logs' ts) \<le> rw_limit w"
    by (rule Cons.IH [OF _ _ h Cons.prems(4)]) (use Cons.prems(1) in auto)
  then show ?case using a by (cases r) simp_all
qed

text \<open>
  C20: at most \<open>Limit\<close> events in any \<open>Per\<close>: whatever calls a key gets, as long as the clock
  does not go back, no interval of the length of a window ever contains more admitted events
  than the window's limit.
\<close>

theorem rate_limit_bound:
  assumes "new_limiter os = Inr ws" and "sorted ts" and "w \<in> set ws"
  shows "length (filter (\<lambda>a. T - rw_per w < a \<and> a \<le> T) (admitted ws (map (\<lambda>_. []) ws) ts)) \<le> rw_limit w"
proof -
  have pos: "\<forall>w \<in> set ws. 0 < rw_limit w \<and> 0 < rw_per w" by (rule new_limiter_windows(1) [OF assms(1)])
  define t0 where "t0 = (case ts of [] \<Rightarrow> 0 | t # _ \<Rightarrow> t)"
  have le: "\<forall>t \<in> set ts. t0 \<le> t" using assms(2) by (auto simp: t0_def split: list.splits)
  have "hist_ok ws t0 [] (map (\<lambda>_. []) ws)"
    using pos by (simp add: hist_ok_def list_all2_map2 list_all2_same log_ok_def covers_def in_window_def)
  from admitted_bound [OF assms(2) le this assms(3), of T] show ?thesis
    by (simp add: in_window_def)
qed

section \<open>Dead keys\<close>

text \<open>A key with nothing left in any window answers as a key never seen.\<close>

lemma dead_expire:
  assumes "sorted (map ev_at log)" and "\<not> (log \<noteq> [] \<and> ev_at (last log) > t - rw_per w)" and "t \<le> u"
  shows "expire_log log (u - rw_per w) = []"
proof (cases "log = []")
  case False
  then have "\<forall>e \<in> set log. ev_at e \<le> ev_at (last log)"
    using assms(1) by (cases log rule: rev_cases) (auto simp: sorted_append)
  then show ?thesis using False assms(2,3) by (auto simp: expire_log_def)
qed (simp add: expire_log_def)

theorem dead_key_forgotten:
  assumes "list_all (\<lambda>log. sorted (map ev_at log)) logs" and "length logs = length ws"
    and "\<not> live_logs ws logs t" and "t \<le> u"
  shows "key_allow ws logs m u = key_allow ws (map (\<lambda>_. []) ws) m u"
proof -
  have "map2 (\<lambda>w log. expire_log log (u - rw_per w)) ws logs =
      map2 (\<lambda>w log. expire_log log (u - rw_per w)) ws (map (\<lambda>_. []) ws)"
    using assms(2,1,3)
  proof (induction ws logs rule: list_induct2')
    case (4 w ws log logs)
    have "expire_log log (u - rw_per w) = []"
      by (rule dead_expire [OF _ _ assms(4)]) (use 4(3,4) in \<open>auto simp: live_logs_def\<close>)
    moreover have "\<not> live_logs ws logs t" using 4(4) by (auto simp: live_logs_def)
    ultimately show ?case using 4 by (simp add: expire_log_def)
  qed auto
  then show ?thesis unfolding key_allow_def by simp
qed

section \<open>Redis\<close>
























section \<open>Samples\<close>

definition sample_windows :: "rate_window list" where
  "sample_windows = [\<lparr>rw_limit = 2, rw_per = 1000\<rparr>]"

lemma sample_windows_new: "new_limiter [\<lparr>wo_limit = 2, wo_per = 1000000000\<rparr>] = Inr sample_windows"
  by code_simp

theorem rate_limit_bound_witness:
  "admitted sample_windows (map (\<lambda>_. []) sample_windows) [0, 100, 200, 1000, 1050, 1100] = [0, 100, 1000, 1100] \<and>
   length (filter (\<lambda>a. 1000 - 1000 < a \<and> a \<le> 1000) [0, 100, 1000, 1100 :: int]) \<le> 2"
proof -
  have a: "admitted sample_windows (map (\<lambda>_. []) sample_windows) [0, 100, 200, 1000, 1050, 1100] = [0, 100, 1000, 1100]"
    by code_simp
  have w: "\<lparr>rw_limit = 2, rw_per = 1000\<rparr> \<in> set sample_windows" by (simp add: sample_windows_def)
  have "sorted [0, 100, 200, 1000, 1050, 1100 :: int]" by simp
  from rate_limit_bound [OF sample_windows_new this w, of 1000] show ?thesis by (simp only: a) simp
qed

definition sample_log :: event_log where
  "sample_log = [\<lparr>ev_at = 0, ev_member = ''a''\<rparr>, \<lparr>ev_at = 100, ev_member = ''b''\<rparr>]"

lemma sample_logs_ok: "logs_ok sample_windows 100 [sample_log]"
  by (simp add: logs_ok_def sample_windows_def sample_log_def log_ok_def)

theorem retry_exact_witness:
  "key_allow sample_windows [sample_log] ''c'' 200 = ([sample_log], Some 800) \<and>
   snd (key_allow sample_windows [sample_log] ''c'' 999) \<noteq> None \<and>
   snd (key_allow sample_windows [sample_log] ''c'' 1000) = None"
proof -
  have r: "key_allow sample_windows [sample_log] ''c'' 200 = ([sample_log], Some 800)" by code_simp
  show ?thesis using retry_exact [OF sample_logs_ok _ r] r by simp
qed

text \<open>Sorted sets as lists, brought into their order when they are read.\<close>

fun first_members :: "(int \<times> string) list \<Rightarrow> (int \<times> string) list" where
  "first_members [] = []"
| "first_members (e # es) =
     (if snd e \<in> snd ` set (first_members es) then first_members es else e # first_members es)"

definition list_entries :: "(int \<times> string) list \<Rightarrow> (int \<times> string) list" where
  "list_entries s = sort (first_members s)"

definition list_zset :: "(int \<times> string) list zset_ops" where
  "list_zset = \<lparr>zentries = list_entries,
     zrem_below = (\<lambda>c s. filter (\<lambda>e. \<not> fst e \<le> c) (list_entries s)),
     zadd_nx = (\<lambda>at m s. if m \<in> snd ` set (list_entries s) then list_entries s
       else insort (at, m) (list_entries s)),
     zrem = (\<lambda>m s. filter (\<lambda>e. snd e \<noteq> m) (list_entries s))\<rparr>"









definition sample_sets :: "(int \<times> string) list redis_sets" where
  "sample_sets = (\<lambda>_. [(0, ''a''), (100, ''b'')])"





text \<open>
  Two windows of one period share their sorted set: the second does not add the event, so its
  limit is not enforced. The per-process store refuses this third event, Redis admits it.
\<close>

lemma equal_periods_disagree:
  "snd (key_allow [\<lparr>rw_limit = 5, rw_per = 1000\<rparr>, \<lparr>rw_limit = 2, rw_per = 1000\<rparr>] [sample_log, sample_log] ''c'' 200) = Some 800 \<and>
   snd (redis_allow list_zset [\<lparr>rw_limit = 5, rw_per = 1000\<rparr>, \<lparr>rw_limit = 2, rw_per = 1000\<rparr>] sample_sets ''c'' 200 0) = None"
  by code_simp

end
