(* ===== verification/Write_Props.thy ===== *)
theory Write_Props
  imports Catalog_Access
begin

text \<open>
  Who may write content and who may create it, exactly, and what an answered check of rights
  means.
\<close>

section \<open>Rights\<close>

text \<open>Holding a permission inside a channel's scope, and holding one of several.\<close>

definition granted_in :: "authenticator \<Rightarrow> http_actor \<Rightarrow> string \<Rightarrow> string list \<Rightarrow> bool" where
  "granted_in au a scope ps \<longleftrightarrow> fst (fst (channel_editor au a scope ps empty_can_memo))"

definition real_actor :: "http_actor \<Rightarrow> bool" where
  "real_actor a \<longleftrightarrow> \<not> a_anonymous a \<and> a_id a \<noteq> []"

lemma can_run:
  assumes "can au a p m = ((ok, e), m')" "memo_faithful au (ha_verified a) m"
  shows "ok = granted au a p \<and> memo_faithful au (ha_verified a) m'"
  using can_transparent [OF assms(2), of p] can_granted [of au a p] assms(1) by (metis fst_conv snd_conv)

lemma editor_run:
  assumes "channel_editor au a scope ps m = ((ok, e), m')" "memo_faithful au (ha_verified a) m"
  shows "ok = granted_in au a scope ps \<and> memo_faithful au (ha_verified a) m'"
  using channel_editor_transparent [OF assms(2), of scope ps] assms(1)
  unfolding granted_in_def by (metis fst_conv snd_conv)

lemma staff_sound:
  assumes run: "staff_rights_of au a m = ((r, e), m')" and m: "memo_faithful au (ha_verified a) m"
  shows "(sr_write r \<longrightarrow> real_actor a \<and> granted au a content_write) \<and>
    (sr_view r \<longrightarrow> real_actor a \<and> granted au a content_view_restricted) \<and>
    (e = None \<longrightarrow> sr_write r = (real_actor a \<and> granted au a content_write) \<and>
       sr_view r = (real_actor a \<and> granted au a content_view_restricted)) \<and> memo_faithful au (ha_verified a) m'"
proof (cases "real_actor a")
  case True
  obtain w e1 m1 where 1: "can au a content_write m = ((w, e1), m1)" by (metis prod.exhaust)
  obtain v e2 m2 where 2: "can au a content_view_restricted m1 = ((v, e2), m2)" by (metis prod.exhaust)
  note w = can_run [OF 1 m]
  then have m1: "memo_faithful au (ha_verified a) m1" by simp
  show ?thesis
  proof (cases e1)
    case None
    then have "((\<lparr>sr_write = w, sr_view = v\<rparr>, e2), m2) = ((r, e), m')"
      using run True by (simp add: staff_rights_of_def real_actor_def 1 2)
    then have "r = \<lparr>sr_write = w, sr_view = v\<rparr>" "m' = m2" by simp_all
    then show ?thesis using w can_run [OF 2 m1] True by simp
  next
    case (Some x)
    then have "((no_rights\<lparr>sr_write := w\<rparr>, Some x), m1) = ((r, e), m')"
      using run True by (simp add: staff_rights_of_def real_actor_def 1)
    then have "r = no_rights\<lparr>sr_write := w\<rparr>" "m' = m1" "e = Some x" by simp_all
    then show ?thesis using w True by (simp add: no_rights_def)
  qed
next
  case False
  then show ?thesis using run m by (auto simp: staff_rights_of_def real_actor_def no_rights_def)
qed

lemma staff_run:
  assumes "staff_rights_of au a m = ((r, None), m')" "memo_faithful au (ha_verified a) m"
  shows "sr_write r = (real_actor a \<and> granted au a content_write) \<and>
    sr_view r = (real_actor a \<and> granted au a content_view_restricted) \<and> memo_faithful au (ha_verified a) m'"
  using staff_sound [OF assms] by blast

lemma flag_simps [simp]:
  "flag (AList.update i b out) g = (if g = i then b else flag out g)" "flag [] g = False"
  by (simp_all add: flag_def update_conv')

lemma allow_channels_run:
  assumes "allow_channels au a ps rows out m = (Inr out', m')" "memo_faithful au (ha_verified a) m"
  shows "memo_faithful au (ha_verified a) m' \<and>
    (\<forall>g. distinct (map fst rows) \<longrightarrow> (flag out' g \<longleftrightarrow>
       (\<exists>scope. map_of rows g = Some scope \<and> scope \<noteq> [] \<and> granted_in au a scope ps) \<or>
       flag out g \<and> map_of rows g \<in> {None, Some []}))"
  using assms
proof (induction rows arbitrary: out m)
  case Nil
  then show ?case by simp
next
  case (Cons row rows)
  obtain i scope where row: "row = (i, scope)" by force
  have fresh: "map_of rows i = None" if "distinct (map fst (row # rows))"
    using that by (simp add: row map_of_eq_None_iff)
  show ?case
  proof (cases "scope = []")
    case True
    then show ?thesis
      using Cons.IH [of out m] Cons.prems fresh by (auto simp: row)
  next
    case False
    obtain ok e m1 where 1: "channel_editor au a scope ps m = ((ok, e), m1)" by (metis prod.exhaust)
    with Cons.prems False have e: "e = None" and
      run: "allow_channels au a ps rows (AList.update i ok out) m1 = (Inr out', m')"
      by (auto simp: row split: option.splits)
    have ok: "ok = granted_in au a scope ps" and m1: "memo_faithful au (ha_verified a) m1"
      using editor_run [OF 1 Cons.prems(2)] by auto
    show ?thesis
      using Cons.IH [OF run m1] False ok fresh by (auto simp: row)
  qed
qed

text \<open>What an answered check of channels flags: the channels whose scope permits it.\<close>

lemma entity_allowed_run:
  assumes run: "entity_allowed au channels a ids creating m = (Inr out, m')"
    and m: "memo_faithful au (ha_verified a) m"
    and keyed: "\<And>rows. channels ids = Inr rows \<Longrightarrow> distinct (map fst rows) \<and> fst ` set rows \<subseteq> set ids"
  shows "memo_faithful au (ha_verified a) m' \<and>
    (flag out g \<longleftrightarrow> g \<in> set ids \<and> real_actor a \<and> (\<exists>rows scope. channels ids = Inr rows \<and> (g, scope) \<in> set rows \<and> scope \<noteq> [] \<and>
       granted_in au a scope (channel_content_write # (if creating then [channel_content_create] else []))))"
proof (cases "real_actor a \<and> ids \<noteq> []")
  case True
  let ?ps = "channel_content_write # (if creating then [channel_content_create] else [])"
  obtain rows where rows: "channels ids = Inr rows" and
    run': "allow_channels au a ?ps rows [] m = (Inr out, m')"
    using run True by (auto simp: entity_allowed_def real_actor_def split: sum.splits)
  note k = keyed [OF rows]
  have "flag out g \<longleftrightarrow> (\<exists>scope. map_of rows g = Some scope \<and> scope \<noteq> [] \<and> granted_in au a scope ?ps)"
    using allow_channels_run [OF run' m] k by simp
  moreover have "\<dots> \<longleftrightarrow> (\<exists>scope. (g, scope) \<in> set rows \<and> scope \<noteq> [] \<and> granted_in au a scope ?ps)"
    using k by (simp add: map_of_eq_Some_iff)
  moreover have "g \<in> set ids" if "(g, scope) \<in> set rows" for scope
    using k that by force
  ultimately show ?thesis
    using allow_channels_run [OF run' m] True unfolding rows sum.inject by blast
next
  case False
  then show ?thesis using run m by (auto simp: entity_allowed_def real_actor_def)
qed

lemma entity_allowed_errors:
  "entity_allowed au channels a ids creating m = (Inl e, m') \<Longrightarrow> (\<exists>x. e = CatAuth x) \<or> (\<exists>x. e = CatStore x)"
proof -
  have "allow_channels au a ps rows out m = (Inl e, m') \<Longrightarrow> \<exists>x. e = CatAuth x" for ps rows out m
    by (induction au a ps rows out m rule: allow_channels.induct) (auto split: if_splits option.splits prod.splits)
  then show "entity_allowed au channels a ids creating m = (Inl e, m') \<Longrightarrow> ?thesis"
    by (auto simp: entity_allowed_def split: if_splits sum.splits)
qed

lemma own_run:
  assumes run: "own_access_of au src a editing m = (Inr x, m')" and m: "memo_faithful au (ha_verified a) m"
  shows "memo_faithful au (ha_verified a) m' \<and>
    ow_app x = (http_member a \<and> (granted au a content_edit_own \<or> \<not> editing \<and> granted au a content_create)) \<and>
    set (ow_entities x) = {c. http_member a \<and> (\<exists>s ids. src = Some s \<and> content_author_entities s a editing = Inr ids \<and> c \<in> set ids)}"
proof (cases "http_member a")
  case True
  obtain o1 e1 m1 where 1: "can au a content_edit_own m = ((o1, e1), m1)" by (metis prod.exhaust)
  obtain o2 e2 m2 where 2: "can au a content_create m1 = ((o2, e2), m2)" by (metis prod.exhaust)
  have m1: "o1 = granted au a content_edit_own" "memo_faithful au (ha_verified a) m1" using can_run [OF 1 m] by auto
  have m2: "o2 = granted au a content_create" "memo_faithful au (ha_verified a) m2" using can_run [OF 2 m1(2)] by auto
  have "e1 = None" using run True by (cases e1) (auto simp: own_access_of_def 1)
  then show ?thesis
    using run True m1 m2
    by (auto simp: own_access_of_def 1 2 split: if_splits option.splits sum.splits)
next
  case False
  then show ?thesis using run m by (auto simp: own_access_of_def no_access_def)
qed

section \<open>Writes\<close>

text \<open>
  The channels of an author: an active channel whose scope the directory says holds one of the
  permissions.
\<close>

definition authored_channel :: "author_source option \<Rightarrow> http_actor \<Rightarrow> string list \<Rightarrow> string \<Rightarrow> bool" where
  "authored_channel src a perms c \<longleftrightarrow> http_member a \<and> (\<exists>s held rows scope ps. src = Some s \<and> as_held s a = Inr held \<and>
     as_channels s (http_account a) (map fst held) = Inr rows \<and> (c, scope) \<in> set rows \<and>
     map_of held scope = Some ps \<and> set ps \<inter> set perms \<noteq> {})"

lemma authority_exact:
  "(\<exists>s ids. src = Some s \<and> content_authority s a perms = Inr ids \<and> c \<in> set ids) \<longleftrightarrow> authored_channel src a perms c"
proof (cases src)
  case (Some s)
  have held: "list_ex (\<lambda>p. p \<in> set (case map_of held scope of None \<Rightarrow> [] | Some ps \<Rightarrow> ps)) perms \<longleftrightarrow>
      (\<exists>ps. map_of held scope = Some ps \<and> set ps \<inter> set perms \<noteq> {})" for held scope
    by (cases "map_of held scope") (auto simp: list_ex_iff)
  have some: "list_ex (\<lambda>p. \<exists>ps. Some ps = h \<and> p \<in> set ps) perms \<longleftrightarrow> (\<exists>ps. h = Some ps \<and> set ps \<inter> set perms \<noteq> {})" for h
    by (auto simp: list_ex_iff)
  show ?thesis
  proof (cases "as_held s a")
    case (Inr held)
    show ?thesis
    proof (cases "as_channels s (http_account a) (map fst held)")
      case (Inr rows)
      show ?thesis
        unfolding Some authored_channel_def content_authority_def
        by (cases "http_member a") (auto simp: \<open>as_held s a = Inr held\<close> Inr held some image_iff Bex_def)
    qed (auto simp: Some \<open>as_held s a = Inr held\<close> content_authority_def authored_channel_def)
  qed (auto simp: Some content_authority_def authored_channel_def)
qed (simp add: authored_channel_def)

text \<open>
  Who may write an item: staff, its author with the right to edit their own (in a channel, the
  channel's), or an editor of the channel that owned it when the grants were read.
\<close>

definition channel_permits ::
    "authenticator \<Rightarrow> channel_query \<Rightarrow> http_actor \<Rightarrow> string list \<Rightarrow> string list \<Rightarrow> string \<Rightarrow> bool" where
  "channel_permits au channels a ids ps c \<longleftrightarrow> c \<in> set ids \<and> real_actor a \<and>
     (\<exists>rows scope. channels ids = Inr rows \<and> (c, scope) \<in> set rows \<and> scope \<noteq> [] \<and> granted_in au a scope ps)"

definition writes_own :: "authenticator \<Rightarrow> author_source option \<Rightarrow> http_actor \<Rightarrow> string \<Rightarrow> bool" where
  "writes_own au src a channel \<longleftrightarrow>
     (if channel = [] then http_member a \<and> granted au a content_edit_own
      else authored_channel src a [channel_content_edit_own, channel_content_write] channel)"

definition may_write ::
    "authenticator \<Rightarrow> channel_query \<Rightarrow> author_source option \<Rightarrow> http_actor \<Rightarrow> string list \<Rightarrow> owned \<Rightarrow> bool" where
  "may_write au channels src a owners x \<longleftrightarrow>
     real_actor a \<and> granted au a content_write \<or>
     created_by_viewer a x \<and> writes_own au src a (on_owner_entity x) \<or>
     channel_permits au channels a owners [channel_content_write] (on_owner_entity x)"

text \<open>The query of channels answers for each id once, and only for the ids asked for.\<close>

definition keyed_channels :: "channel_query \<Rightarrow> bool" where
  "keyed_channels channels \<longleftrightarrow>
     (\<forall>ids rows. channels ids = Inr rows \<longrightarrow> distinct (map fst rows) \<and> fst ` set rows \<subseteq> set ids)"

lemma grants_run:
  assumes run: "grants_for au channels src (Inr seen) a ids m = (Inr g, m')"
    and m: "memo_faithful au (ha_verified a) m" and k: "keyed_channels channels"
  shows "sr_write (gr_staff g) \<or> created_by_viewer a x \<and> own_allows (gr_own g) (on_owner_entity x) \<or>
      flag (gr_editors g) (on_owner_entity x) \<longleftrightarrow> may_write au channels src a (owners_of seen ids) x"
proof -
  obtain staff e1 m1 where 1: "staff_rights_of au a m = ((staff, e1), m1)" by (metis prod.exhaust)
  have e1: "e1 = None" using run by (cases e1) (auto simp: grants_for_def 1)
  note staff = staff_run [OF 1 [unfolded e1] m]
  show ?thesis
  proof (cases "sr_write staff")
    case True
    then have "gr_staff g = staff" using run by (auto simp: grants_for_def 1 e1)
    with True staff show ?thesis by (simp add: may_write_def)
  next
    case False
    obtain ro m2 where 2: "own_access_of au src a True m1 = (ro, m2)" by (metis prod.exhaust)
    obtain own where ro: "ro = Inr own" using run False by (cases ro) (auto simp: grants_for_def 1 e1 2)
    obtain re m3 where 3: "entity_editor au channels a (owners_of seen ids) m2 = (re, m3)" by (metis prod.exhaust)
    obtain editors where re: "re = Inr editors"
      using run False by (cases re) (auto simp: grants_for_def 1 e1 2 ro 3)
    have g: "g = \<lparr>gr_staff = staff, gr_own = own, gr_editors = editors\<rparr>"
      using run False by (auto simp: grants_for_def 1 e1 2 ro 3 re)
    have m1: "memo_faithful au (ha_verified a) m1" using staff by simp
    note own = own_run [OF 2 [unfolded ro] m1]
    have ed: "flag editors c \<longleftrightarrow> channel_permits au channels a (owners_of seen ids) [channel_content_write] c" for c
      using entity_allowed_run [OF 3 [unfolded entity_editor_def re], of c] own k
      by (auto simp: channel_permits_def keyed_channels_def)
    have "own_allows own c \<longleftrightarrow> writes_own au src a c" for c
      using own authority_exact [of src a _ c]
      by (auto simp: own_allows_def writes_own_def content_author_entities_def authored_channel_def)
    then show ?thesis using False staff ed by (auto simp: g may_write_def)
  qed
qed

lemma channel_permits_owner: "channel_permits au channels a (owners_of seen ids) ps c \<Longrightarrow> c \<noteq> []"
  by (auto simp: channel_permits_def owners_of_def)

text \<open>
  C7: a write is authorized exactly when every id names an item and the actor may write each:
  staff, the item's author with a current grant to edit their own there, or an editor of the
  channel that owned the item when the grants were read; a missing item is reported as not
  found whatever the grants, and the items returned are those of the transaction.
\<close>

theorem writes_authorized:
  assumes g: "grants_for au channels src (Inr seen) a ids m = (Inr g, m')"
    and m: "memo_faithful au (ha_verified a) m" and k: "keyed_channels channels"
    and rows: "distinct (map on_id rows)" and rec: "record_releases (sorted_keys ids) = None"
  shows "authorize_write (Inr rows) record_releases a ids g =
     (if \<not> set ids \<subseteq> on_id ` set rows then Inl CatNotFound
      else if \<forall>x \<in> set rows. on_id x \<in> set ids \<longrightarrow> may_write au channels src a (owners_of seen ids) x
      then Inr (map (\<lambda>x. (on_id x, x)) (filter (\<lambda>x. on_id x \<in> set ids) rows))
      else Inl CatForbidden)"
proof -
  let ?rows = "filter (\<lambda>x. on_id x \<in> set ids) rows"
  have missing: "list_all (\<lambda>i. map_of (map (\<lambda>x. (on_id x, x)) ?rows) i \<noteq> None) (sorted_keys ids) \<longleftrightarrow>
      set ids \<subseteq> on_id ` set rows"
    by (auto simp: list_all_iff map_of_eq_None_iff image_image)
  have refused: "\<not> sr_write (gr_staff g) \<and>
      list_ex (\<lambda>x. \<not> (created_by_viewer a x \<and> own_allows (gr_own g) (on_owner_entity x)) \<and>
        \<not> flag (gr_editors g) (on_owner_entity x)) ?rows \<longleftrightarrow>
      \<not> (\<forall>x \<in> set rows. on_id x \<in> set ids \<longrightarrow> may_write au channels src a (owners_of seen ids) x)"
    unfolding grants_run [OF g m k, symmetric] by (auto simp: list_ex_iff)
  show ?thesis
    unfolding authorize_write_def Let_def sum.case set_sorted_keys missing refused rec by auto
qed

text \<open>
  creating is authorized exactly for staff, and for a member who may create content of
  their own (when an item has no channel) and whom every channel named lets create or write;
  everyone else is refused, when no check fails.
\<close>

theorem creates_authorized:
  assumes run: "authorize_create au channels a owners m = (e, m')"
    and ok: "\<forall>x. e \<noteq> Some (CatAuth x)" "\<forall>x. e \<noteq> Some (CatStore x)"
    and m: "memo_faithful au (ha_verified a) m" and k: "keyed_channels channels"
  shows "e = (if real_actor a \<and> granted au a content_write \<or>
      http_member a \<and> ([] \<in> set owners \<longrightarrow> granted au a content_create) \<and>
      (\<forall>c \<in> set owners. c \<noteq> [] \<longrightarrow> channel_permits au channels a owners [channel_content_write, channel_content_create] c)
      then None else Some CatForbidden)"
proof -
  obtain staff e1 m1 where 1: "staff_rights_of au a m = ((staff, e1), m1)" by (metis prod.exhaust)
  have e1: "e1 = None" using run ok by (cases e1) (auto simp: authorize_create_def 1)
  note staff = staff_run [OF 1 [unfolded e1] m]
  have m1: "memo_faithful au (ha_verified a) m1" using staff by simp
  show ?thesis
  proof (cases "sr_write staff \<or> \<not> http_member a")
    case True
    then show ?thesis using run staff by (auto simp: authorize_create_def 1 e1)
  next
    case False
    obtain c e2 m2 where 2: "(if [] \<in> set owners then can au a content_create m1 else ((True, None), m1)) = ((c, e2), m2)"
      by (metis prod.exhaust)
    have e2: "e2 = None" using run ok False by (cases e2) (auto simp: authorize_create_def 1 e1 2)
    have c: "c = ([] \<in> set owners \<longrightarrow> granted au a content_create)" and m2: "memo_faithful au (ha_verified a) m2"
      using 2 can_run [of au a content_create m1] m1 by (auto split: if_splits)
    obtain r m3 where 3: "entity_allowed au channels a owners True m2 = (r, m3)" by (metis prod.exhaust)
    show ?thesis
    proof (cases c)
      case True
      then obtain allowed where r: "r = Inr allowed"
        using run ok False entity_allowed_errors [of au channels a owners True m2]
        by (cases r) (auto simp: authorize_create_def 1 e1 2 e2 3)
      have "flag allowed g \<longleftrightarrow> channel_permits au channels a owners [channel_content_write, channel_content_create] g" for g
        using entity_allowed_run [OF 3 [unfolded r] m2, of g] k by (auto simp: channel_permits_def keyed_channels_def)
      then have all: "list_ex (\<lambda>g. g \<noteq> [] \<and> \<not> flag allowed g) owners \<longleftrightarrow> \<not> (\<forall>c \<in> set owners. c \<noteq> [] \<longrightarrow>
          channel_permits au channels a owners [channel_content_write, channel_content_create] c)"
        by (auto simp: list_ex_iff)
      have "e = (if list_ex (\<lambda>g. g \<noteq> [] \<and> \<not> flag allowed g) owners then Some CatForbidden else None)"
        using run False True by (simp add: authorize_create_def 1 e1 2 e2 3 r split: if_splits)
      then show ?thesis
        unfolding all using False True c staff by (simp split: if_splits)
    next
      case False2: False
      then have "e = Some CatForbidden" using run False by (simp add: authorize_create_def 1 e1 2 e2)
      then show ?thesis using False False2 c staff by simp
    qed
  qed
qed

section \<open>Samples\<close>

definition sample_channels :: channel_query where
  "sample_channels ids = Inr (filter (\<lambda>(c, _). c \<in> set ids) [(''c1'', ''s1'')])"

lemma sample_keyed: "keyed_channels sample_channels"
  by (auto simp: keyed_channels_def sample_channels_def)

definition sample_owned :: owned where
  "sample_owned = \<lparr>on_id = ''i'', on_kind = ''post'', on_state = ''draft'', on_owner_entity = [], on_published = False,
     on_scheduled = False, on_created_by = ''u2''\<rparr>"

lemma sample_staff:
  obtains m where "staff_rights_of sample_auth sample_person empty_can_memo = ((\<lparr>sr_write = True, sr_view = False\<rparr>, None), m)"
proof -
  have "fst (staff_rights_of sample_auth sample_person empty_can_memo) = (\<lparr>sr_write = True, sr_view = False\<rparr>, None)"
    by (simp add: staff_rights_of_def sample_person_def can_def is_host_def sample_auth_def root_scope_def actor_can_def memo_can_def
        sample_verified_def empty_can_memo_def recovered_def content_write_def content_view_restricted_def memo_put_can_def)
  then show thesis using that by (metis prod.collapse)
qed

lemma sample_rights: "real_actor sample_person \<and> granted sample_auth sample_person content_write"
  by (rule sample_staff) (use staff_run [OF _ empty_memo_faithful] in fastforce)

theorem writes_authorized_witness:
  "\<exists>g m. grants_for sample_auth sample_channels None (Inr [sample_owned]) sample_person [''i''] empty_can_memo = (Inr g, m) \<and>
     authorize_write (Inr [sample_owned]) (\<lambda>_. None) sample_person [''i''] g = Inr [(''i'', sample_owned)]"
proof -
  obtain g m where g: "grants_for sample_auth sample_channels None (Inr [sample_owned]) sample_person [''i''] empty_can_memo = (Inr g, m)"
    by (rule sample_staff) (simp add: grants_for_def)
  note p = sample_rights
  have "authorize_write (Inr [sample_owned]) (\<lambda>_. None) sample_person [''i''] g = Inr [(''i'', sample_owned)]"
    unfolding writes_authorized [OF g empty_memo_faithful sample_keyed, of "[sample_owned]" "\<lambda>_. None", simplified]
    using p by (simp add: may_write_def sample_owned_def)
  with g show ?thesis by blast
qed

theorem creates_authorized_witness:
  "\<exists>m. authorize_create sample_auth sample_channels sample_person [[]] empty_can_memo = (None, m) \<and>
     real_actor sample_person \<and> granted sample_auth sample_person content_write"
proof -
  obtain m where m: "authorize_create sample_auth sample_channels sample_person [[]] empty_can_memo = (None, m)"
    by (rule sample_staff) (simp add: authorize_create_def)
  note p = sample_rights
  show ?thesis using creates_authorized [OF m _ _ empty_memo_faithful sample_keyed] m p by auto
qed

end
