(* ===== verification/Catalog_Visibility.thy ===== *)
theory Catalog_Visibility
  imports Catalog_Access Domain_Policy Entitlement_SQL "HOL-Library.Product_Lexorder"
begin

text \<open>
  The visibility rule: \<open>internal/catalogstore/visibility.go\<close>, with \<open>effectiveRule\<close> of
  \<open>facets.go\<close> and the verdicts of \<open>internal/resolve\<close>. A list runs the rule as SQL over
  \<open>content_facets\<close>; a direct read runs it in Go. The SQL is a predicate on the row it reads,
  clause by clause; the rows of a query are parameters, in the order of its \<open>ORDER BY\<close>. The
  memo of permissions and the memo of entitlements are passed along. Where the code iterates
  over a map the model takes the order of the rows.
\<close>

section \<open>Rows\<close>

text \<open>
  A facets row joined with its content, version and owner entity. \<open>vr_facet\<close> are its access
  columns, \<open>vr_rule\<close> and \<open>vr_override\<close> what the JSON decoder makes of the rules of the content
  and of the version; \<open>vr_deleted\<close> is the column of the facets and the two after it are read
  from the content and the version. \<open>vr_author\<close> and \<open>vr_item_owner\<close> are columns of the content.
\<close>

record home_entity =
  he_kind :: string
  he_state :: string
  he_scope :: "string option"

record view_row =
  vr_content :: string
  vr_version :: string
  vr_kind :: string
  vr_live_from :: "time option"
  vr_deleted :: bool
  vr_content_deleted :: bool
  vr_version_deleted :: bool
  vr_languages :: "string list"
  vr_entities :: "string list"
  vr_owner :: "string option"
  vr_position :: int
  vr_facet :: facet_row
  vr_rule :: "(string, rule) result"
  vr_override :: "(string, rule) result option"
  vr_author :: string
  vr_item_owner :: "string option"
  vr_home :: "home_entity option"

definition vr_owner_text :: "view_row \<Rightarrow> string" where
  "vr_owner_text r = (case vr_owner r of Some g \<Rightarrow> g | None \<Rightarrow> [])"

definition effective_rule :: "(string, rule) result \<Rightarrow> (string, rule) result option \<Rightarrow> (string, rule) result" where
  "effective_rule content override =
     bindr content (\<lambda>c. case override of None \<Rightarrow> Inr c | Some o' \<Rightarrow> bindr o' (\<lambda>r. Inr (effective c (Some r))))"

section \<open>Viewers\<close>

record viewer =
  vw_actor :: http_actor
  vw_domain :: "domain option"
  vw_language :: string
  vw_mode :: string
  vw_now :: time
  vw_staff :: bool
  vw_staff_write :: bool
  vw_own_read :: own_access
  vw_own_write :: own_access
  vw_management :: bool
  vw_filter :: access_filter
  vw_policies :: policies
  vw_hidden :: hidden_filters
  vw_editors :: "string list"
  vw_asked :: "(string \<times> bool) list option"

record viewer_options =
  vo_actor :: http_actor
  vo_host :: string
  vo_language :: string
  vo_mode :: string
  vo_editors :: "string list"
  vo_requested :: "string list"

text \<open>
  What a store has: its authenticator, gate, configuration and clock (the gate reads its own), and its queries: of
  channels, of an author's channels, of the entity table, and of the preferences of an account
  (the decoded overrides, if it has a row). \<open>cs_guest\<close> are the choices a request presents and
  \<open>cs_decode\<close> the JSON decoder of them.
\<close>

record catalog_store =
  cs_auth :: authenticator
  cs_tenant :: string
  cs_gate :: gate
  cs_gate_now :: time
  cs_config :: config
  cs_unicode :: "string \<Rightarrow> string"
  cs_now :: time
  cs_channels :: channel_query
  cs_authors :: "author_source option"
  cs_entities :: entity_query
  cs_prefs :: "string \<Rightarrow> (string, (string \<times> string) list option) result"
  cs_guest :: "string list"
  cs_decode :: "string \<Rightarrow> guest_filter list option"

definition zero_domain :: domain where
  "zero_domain = \<lparr>d_name = [], d_hosts = [], d_require_entities = [], d_filters = []\<rparr>"

text \<open>The reader's own choices: stored for a member, presented for a guest.\<close>

definition viewer_choices ::
    "catalog_store \<Rightarrow> http_actor \<Rightarrow> policies \<Rightarrow> (catalog_error, (string \<times> string) list) result" where
  "viewer_choices s a ps =
     (if http_member a
      then (case cs_prefs s (http_account a) of
              Inl e \<Rightarrow> Inl (CatStore e)
            | Inr None \<Rightarrow> Inr []
            | Inr (Some values) \<Rightarrow> Inr values)
      else if a_anonymous a
      then (case guest_overrides (cs_decode s) (cs_guest s) (\<lambda>i. list_ex (\<lambda>(_, p). i \<in> fst ` set (py_toggles p)) ps) of
              Inl e \<Rightarrow> Inl (CatInvalid ''preferences'')
            | Inr choices \<Rightarrow> Inr choices)
      else Inr [])"

definition hidden_of :: "(string \<times> string) list \<Rightarrow> string list \<Rightarrow> policies \<Rightarrow> hidden_filters" where
  "hidden_of values requested ps =
     filter (\<lambda>h. snd h \<noteq> [])
       (map (\<lambda>(kind, p). (kind, map fst (filter (\<lambda>(i, default).
          \<not> (let (visible, overridden) = stored_pref values i in if overridden then visible else default) \<and>
          i \<notin> set requested) (py_toggles p)))) ps)"

text \<open>An error of a check of rights is logged; what a right the viewer has then is nothing.\<close>

definition read_own :: "catalog_store \<Rightarrow> http_actor \<Rightarrow> bool \<Rightarrow> can_memo \<Rightarrow> own_access \<times> can_memo" where
  "read_own s a editing m =
     (case own_access_of (cs_auth s) (cs_authors s) a editing m of (Inl _, m) \<Rightarrow> (no_access, m) | (Inr x, m) \<Rightarrow> (x, m))"

definition viewer_for ::
    "catalog_store \<Rightarrow> viewer_options \<Rightarrow> can_memo \<Rightarrow> memo \<Rightarrow> (catalog_error, viewer) result \<times> can_memo \<times> memo" where
  "viewer_for s opt cm em =
     (let a = vo_actor opt; mode = (if vo_mode opt = [] then lock_mode else vo_mode opt)
      in if mode \<noteq> lock_mode \<and> mode \<noteq> hide_mode then (Inl (CatInvalid ''mode''), cm, em)
         else if vo_language opt \<noteq> [] \<and> vo_language opt \<notin> set (languages (cs_config s))
         then (Inl (CatInvalid ''language''), cm, em)
         else
           (let d = domain_for (cs_unicode s) (cs_config s) (vo_host opt);
                ((rights, _), cm) = staff_rights_of (cs_auth s) a cm;
                staff = (sr_view rights \<or> sr_write rights);
                (own_read, cm) = (if sr_write rights then (no_access, cm) else read_own s a False cm);
                (own_write, cm) = (if sr_write rights then (no_access, cm) else read_own s a True cm);
                (f, _, _, em) = gate_filter (cs_gate s) (actor.truncate a) em
            in case resolve_policies (cs_entities s) (case d of Some d \<Rightarrow> d | None \<Rightarrow> zero_domain) (applies_to (filters (cs_config s))) of
                 Inl e \<Rightarrow> (Inl (CatStore e), cm, em)
               | Inr ps \<Rightarrow>
                   (case viewer_choices s a ps of
                      Inl e \<Rightarrow> (Inl e, cm, em)
                    | Inr values \<Rightarrow>
                        (let ask = (vo_editors opt \<noteq> [] \<and> \<not> staff);
                             (got, cm) = (if ask then read_editors (cs_auth s) (cs_channels s) a (vo_editors opt) cm else ([], cm))
                         in (Inr \<lparr>vw_actor = a, vw_domain = d, vw_language = vo_language opt, vw_mode = mode,
                               vw_now = cs_now s, vw_staff = staff, vw_staff_write = sr_write rights,
                               vw_own_read = own_read, vw_own_write = own_write, vw_management = False,
                               vw_filter = f, vw_policies = ps, vw_hidden = hidden_of values (vo_requested opt) ps,
                               vw_editors = (if ask then sort (filter (flag got) (vo_editors opt)) else []),
                               vw_asked = (if ask then Some (foldl (\<lambda>m g. AList.update g (flag got g) m) [] (vo_editors opt)) else None)\<rparr>,
                             cm, em)))))"

definition editable :: "viewer \<Rightarrow> string \<Rightarrow> bool" where
  "editable v entity \<longleftrightarrow> entity \<in> set (vw_editors v)"

text \<open>The loop of \<open>Editors\<close>: the flags known and the entities to ask of.\<close>

definition editors_step :: "viewer \<Rightarrow> (string \<times> bool) list \<times> string list \<Rightarrow> string \<Rightarrow> (string \<times> bool) list \<times> string list" where
  "editors_step v st g =
     (if g = [] then st
      else if vw_staff_write v \<or> editable v g then (AList.update g True (fst st), snd st)
      else (case vw_asked v of
              Some asked \<Rightarrow>
                (case map_of asked g of
                   Some True \<Rightarrow> (AList.update g True (fst st), snd st)
                 | Some False \<Rightarrow> st
                 | None \<Rightarrow> if g \<in> set (snd st) then st else (fst st, snd st @ [g]))
            | None \<Rightarrow> if g \<in> set (snd st) then st else (fst st, snd st @ [g])))"

definition viewer_editors ::
    "catalog_store \<Rightarrow> viewer \<Rightarrow> string list \<Rightarrow> can_memo \<Rightarrow> (string \<times> bool) list \<times> viewer \<times> can_memo" where
  "viewer_editors s v entities m =
     (let (out, ask) = foldl (editors_step v) ([], []) entities
      in if ask = [] \<or> a_anonymous (vw_actor v) \<or> a_id (vw_actor v) = [] then (out, v, m)
         else (let (got, m) = read_editors (cs_auth s) (cs_channels s) (vw_actor v) ask m;
                   asked = (case vw_asked v of Some x \<Rightarrow> x | None \<Rightarrow> [])
               in (foldl (\<lambda>o' g. AList.update g (flag got g) o') out ask,
                   v\<lparr>vw_asked := Some (foldl (\<lambda>x g. AList.update g (flag got g) x) asked ask)\<rparr>, m)))"

definition can_post_to_channel ::
    "catalog_store \<Rightarrow> viewer \<Rightarrow> string \<Rightarrow> can_memo \<Rightarrow> (catalog_error, bool) result \<times> can_memo" where
  "can_post_to_channel s v i m =
     (if vw_staff_write v then (Inr True, m)
      else (case entity_allowed (cs_auth s) (cs_channels s) (vw_actor v) [i] True m of
              (Inl e, m) \<Rightarrow> (Inl e, m) | (Inr got, m) \<Rightarrow> (Inr (flag got i), m)))"

definition hidden_content_filters :: "viewer \<Rightarrow> hidden_filters" where
  "hidden_content_filters v = map (\<lambda>(k, ids). (k, sort ids)) (vw_hidden v)"

definition without_content_filters :: "viewer \<Rightarrow> viewer" where
  "without_content_filters v = v\<lparr>vw_hidden := []\<rparr>"

section \<open>Lists\<close>

definition channel_ready :: "view_row \<Rightarrow> bool" where
  "channel_ready r \<longleftrightarrow> vr_owner r = None \<or>
     (case vr_home r of
        None \<Rightarrow> False
      | Some h \<Rightarrow> he_kind h = ''channel'' \<and>
          (he_state h = ''active'' \<and> he_scope h \<noteq> None \<or> he_state h = ''deleted'' \<and> vr_deleted r))"

definition privileged :: "viewer \<Rightarrow> view_row \<Rightarrow> bool" where
  "privileged v r \<longleftrightarrow>
     (case vr_owner r of None \<Rightarrow> False | Some g \<Rightarrow> g \<in> set (vw_editors v)) \<or>
     http_account (vw_actor v) \<noteq> [] \<and> vr_author r = http_account (vw_actor v) \<and>
       (case vr_item_owner r of None \<Rightarrow> ow_app (vw_own_read v) | Some c \<Rightarrow> c \<in> set (ow_entities (vw_own_read v)))"

definition sql_live :: "viewer \<Rightarrow> view_row \<Rightarrow> bool" where
  "sql_live v r \<longleftrightarrow> (case vr_live_from r of None \<Rightarrow> False | Some t \<Rightarrow> t \<le> vw_now v)"

text \<open>\<open>opens\<close> is the predicate of the viewer's filter in hide mode, with the database's clock.\<close>

definition row_opens :: "viewer \<Rightarrow> (time \<Rightarrow> time) \<Rightarrow> time \<Rightarrow> string \<Rightarrow> view_row \<Rightarrow> bool" where
  "row_opens v pg now alias r = (case filter_sql (vw_filter v) alias hide_mode of
     Inl _ \<Rightarrow> False | Inr p \<Rightarrow> sql_admits pg now p (vr_facet r))"

definition listed_rows :: "viewer \<Rightarrow> (time \<Rightarrow> time) \<Rightarrow> time \<Rightarrow> string \<Rightarrow> bool \<Rightarrow> view_row \<Rightarrow> bool" where
  "listed_rows v pg now alias language r \<longleftrightarrow>
     (let scope = policy_admits (policies_sql (vw_policies v)) (vr_kind r) (vr_entities r);
          soft = hidden_admits (hidden_sql (vw_hidden v)) (vr_kind r) (vr_entities r);
          kept = (language \<longrightarrow> \<not> vr_deleted r)
      in if vw_staff v
         then if vw_management v then scope else scope \<and> soft \<and> channel_ready r \<and> kept
         else
           (let public = (\<not> vr_deleted r \<and> sql_live v r \<and> scope \<and> soft \<and>
                  (vw_mode v = hide_mode \<longrightarrow> row_opens v pg now alias r));
                public = (if language then public \<and> (vw_language v = [] \<or> vw_language v \<in> set (vr_languages r)) else public)
            in scope \<and> channel_ready r \<and> kept \<and> (public \<or> privileged v r)))"

definition listed :: "viewer \<Rightarrow> (time \<Rightarrow> time) \<Rightarrow> time \<Rightarrow> string \<Rightarrow> view_row \<Rightarrow> bool" where
  "listed v pg now alias r = listed_rows v pg now alias True r"

definition shown_rows :: "viewer \<Rightarrow> (time \<Rightarrow> time) \<Rightarrow> time \<Rightarrow> string \<Rightarrow> view_row \<Rightarrow> bool" where
  "shown_rows v pg now alias r = listed_rows v pg now alias False r"

definition indexable :: "viewer \<Rightarrow> view_row \<Rightarrow> bool" where
  "indexable v r \<longleftrightarrow> \<not> vr_deleted r \<and> sql_live v r \<and>
     policy_admits (policies_sql (vw_policies v)) (vr_kind r) (vr_entities r) \<and> channel_ready r"

section \<open>Direct reads\<close>

definition row_live :: "viewer \<Rightarrow> view_row \<Rightarrow> bool" where
  "row_live v r \<longleftrightarrow> (case vr_live_from r of None \<Rightarrow> False | Some t \<Rightarrow> \<not> vw_now v < t)"

definition in_scope :: "viewer \<Rightarrow> view_row \<Rightarrow> bool" where
  "in_scope v r = policies_allow (vw_policies v) (vr_kind r) (vr_entities r)"

text \<open>The decision of the catalog: keys as texts.\<close>

record cat_decision =
  cd_allowed :: bool
  cd_unknown :: bool
  cd_sell :: "string list"
  cd_requires :: string
  cd_preview :: "preview option"
  cd_releases :: "release list"

definition allow_all :: cat_decision where
  "allow_all = \<lparr>cd_allowed = True, cd_unknown = False, cd_sell = [], cd_requires = [], cd_preview = None, cd_releases = []\<rparr>"

definition cat_decision_of :: "decision \<Rightarrow> cat_decision" where
  "cat_decision_of d = \<lparr>cd_allowed = dc_allowed d, cd_unknown = dc_unknown d, cd_sell = map key_string (dc_sell d),
     cd_requires = (case dc_requires d of Some k \<Rightarrow> key_string k | None \<Rightarrow> []),
     cd_preview = dc_preview d, cd_releases = dc_releases d\<rparr>"

record item_view =
  iv_visible :: bool
  iv_editor :: bool
  iv_read_restricted :: bool
  iv_versions :: "view_row list"
  iv_decisions :: "(string \<times> cat_decision) list"

text \<open>The rows of a direct read with their effective rule, previewed for their kind.\<close>

definition scanned_rules ::
    "catalog_store \<Rightarrow> view_row list \<Rightarrow> (catalog_error, (view_row \<times> rule) list) result" where
  "scanned_rules s rows =
     fold_result (\<lambda>r out. case effective_rule (vr_rule r) (vr_override r) of
        Inl e \<Rightarrow> Inl (CatStore e)
      | Inr rule \<Rightarrow> Inr (out @ [(r, case map_of (kinds (cs_config s)) (vr_kind r) of
          Some k \<Rightarrow> previewed rule k | None \<Rightarrow> rule)])) rows []"

definition gate_decides ::
    "catalog_store \<Rightarrow> viewer \<Rightarrow> item list \<Rightarrow> memo \<Rightarrow> decision list \<times> memo" where
  "gate_decides s v its em =
     (if its = [] then ([], em)
      else (let (ds, _, _, em) = gate_decide (cs_gate s) (actor.truncate (vw_actor v)) its (cs_gate_now s) em in (ds, em)))"

definition rows_of :: "(view_row \<times> rule) list \<Rightarrow> string \<Rightarrow> (view_row \<times> rule) list" where
  "rows_of rows i = filter (\<lambda>x. vr_content (fst x) = i) rows"

definition content_ids :: "(view_row \<times> rule) list \<Rightarrow> string list" where
  "content_ids rows = remdups (map (vr_content \<circ> fst) rows)"

text \<open>Whether the viewer created an item, and the owner entity of its first row.\<close>

definition created :: "viewer \<Rightarrow> (view_row \<times> rule) list \<Rightarrow> string \<Rightarrow> bool" where
  "created v rows i = list_ex (\<lambda>x. vr_author (fst x) = http_account (vw_actor v) \<and> http_account (vw_actor v) \<noteq> []) (rows_of rows i)"

definition owner_of :: "(view_row \<times> rule) list \<Rightarrow> string \<Rightarrow> string" where
  "owner_of rows i = (case rows_of rows i of [] \<Rightarrow> [] | x # _ \<Rightarrow> vr_owner_text (fst x))"

definition personal_read :: "viewer \<Rightarrow> (view_row \<times> rule) list \<Rightarrow> string \<Rightarrow> bool" where
  "personal_read v rows i \<longleftrightarrow> created v rows i \<and> own_allows (vw_own_read v) (owner_of rows i)"

definition personal_write :: "viewer \<Rightarrow> (view_row \<times> rule) list \<Rightarrow> string \<Rightarrow> bool" where
  "personal_write v rows i \<longleftrightarrow> created v rows i \<and> own_allows (vw_own_write v) (owner_of rows i)"

definition known_reader :: "viewer \<Rightarrow> (view_row \<times> rule) list \<Rightarrow> string \<Rightarrow> bool" where
  "known_reader v rows i \<longleftrightarrow> vw_staff v \<or> personal_read v rows i \<or> editable v (owner_of rows i)"

definition open_row :: "viewer \<Rightarrow> view_row \<Rightarrow> bool" where
  "open_row v r \<longleftrightarrow> row_live v r \<and> in_scope v r \<and> \<not> vr_version_deleted r \<and> \<not> vr_content_deleted r"

definition live_rows :: "viewer \<Rightarrow> (view_row \<times> rule) list \<Rightarrow> (view_row \<times> rule) list" where
  "live_rows v rows = filter (\<lambda>x. \<not> known_reader v rows (vr_content (fst x)) \<and> open_row v (fst x)) rows"

definition item_of :: "view_row \<times> rule \<Rightarrow> item" where
  "item_of x = \<lparr>it_content = vr_content (fst x), it_version = vr_version (fst x), it_rule = snd x\<rparr>"

text \<open>
  The owner entities whose editors are asked for: of every item, or of those the rule does not
  show whole and open. \<open>ds\<close> are the decisions of the live rows.
\<close>

definition asked_owners ::
    "viewer \<Rightarrow> bool \<Rightarrow> (view_row \<times> rule) list \<Rightarrow> (view_row \<times> decision) list \<Rightarrow> string list" where
  "asked_owners v every rows ds =
     remdups (map (owner_of rows) (filter (\<lambda>i. owner_of rows i \<noteq> [] \<and> \<not> known_reader v rows i \<and>
       (every \<or> list_ex (\<lambda>(r, d). vr_content r = i \<and> \<not> dc_allowed d) ds \<or>
        list_all (\<lambda>(r, _). vr_content r \<noteq> i) ds \<or>
        list_ex (\<lambda>x. \<not> open_row v (fst x)) (rows_of rows i))) (content_ids rows)))"

definition version_order :: "view_row list \<Rightarrow> view_row list" where
  "version_order rs = sort_key (\<lambda>r. (vr_position r, vr_version r)) rs"

definition view_of ::
    "viewer \<Rightarrow> (view_row \<times> rule) list \<Rightarrow> (view_row \<times> decision) list \<Rightarrow> (string \<times> bool) list \<Rightarrow> string \<Rightarrow> item_view" where
  "view_of v rows ds editors i =
     (let g = owner_of rows i;
          reads = (known_reader v rows i \<or> flag editors g);
          versions = (if reads then filter (\<lambda>r. vw_management v \<or> in_scope v r) (map fst (rows_of rows i))
            else filter (\<lambda>r. vr_content r = i) (map fst ds));
          decisions = (if reads then map (\<lambda>r. (vr_version r, allow_all)) versions
            else map (\<lambda>(r, d). (vr_version r, cat_decision_of d)) (filter (\<lambda>(r, _). vr_content r = i) ds))
      in \<lparr>iv_visible = (versions \<noteq> []),
          iv_editor = (vw_staff_write v \<or> personal_write v rows i \<or> editable v g \<or> flag editors g),
          iv_read_restricted = reads, iv_versions = version_order versions, iv_decisions = decisions\<rparr>)"

text \<open>\<open>table\<close> answers the query of a direct read: the joined rows, in order.\<close>

definition viewer_decide ::
    "catalog_store \<Rightarrow> (string, view_row list) result \<Rightarrow> viewer \<Rightarrow> string list \<Rightarrow> bool \<Rightarrow> can_memo \<Rightarrow> memo \<Rightarrow>
     (catalog_error, (string \<times> item_view) list) result \<times> can_memo \<times> memo" where
  "viewer_decide s table v ids every cm em =
     (if ids = [] then (Inr [], cm, em)
      else (case table of
          Inl e \<Rightarrow> (Inl (CatStore e), cm, em)
        | Inr t \<Rightarrow>
            (case scanned_rules s (filter (\<lambda>r. vr_content r \<in> set ids \<and> (vw_management v \<and> vw_staff v \<or> channel_ready r)) t) of
               Inl e \<Rightarrow> (Inl e, cm, em)
             | Inr rows \<Rightarrow>
                 (let live = live_rows v rows;
                      (ds, em) = gate_decides s v (map item_of live) em;
                      decided = zip (map fst live) ds;
                      (editors, _, cm) = viewer_editors s v (asked_owners v every rows decided) cm
                  in (Inr (map (\<lambda>i. (i, view_of v rows decided editors i)) (content_ids rows)), cm, em)))))"

definition direct_views ::
    "catalog_store \<Rightarrow> (string, view_row list) result \<Rightarrow> string \<Rightarrow> bool \<Rightarrow> http_actor \<Rightarrow> string list \<Rightarrow> can_memo \<Rightarrow> memo \<Rightarrow>
     (catalog_error, (string \<times> item_view) list) result \<times> can_memo \<times> memo" where
  "direct_views s table host editor_read a ids cm em =
     (if ids = [] then (Inr [], cm, em)
      else (case viewer_for s \<lparr>vo_actor = a, vo_host = host, vo_language = [], vo_mode = [], vo_editors = [], vo_requested = []\<rparr> cm em of
          (Inl e, cm, em) \<Rightarrow> (Inl e, cm, em)
        | (Inr v, cm, em) \<Rightarrow> viewer_decide s table (v\<lparr>vw_management := editor_read\<rparr>) ids False cm em))"

section \<open>Resolutions\<close>

record channel_ref =
  nr_kind :: string
  nr_id :: string
  nr_owner :: string
  nr_scope :: string

record resolution =
  rs_ref :: "content_ref option"
  rs_visible :: bool
  rs_accessible :: bool
  rs_read_restricted :: bool
  rs_editor :: bool
  rs_owner :: string
  rs_comments :: string
  rs_channel :: "channel_ref option"

definition zero_resolution :: resolution where
  "zero_resolution = \<lparr>rs_ref = None, rs_visible = False, rs_accessible = False, rs_read_restricted = False,
     rs_editor = False, rs_owner = [], rs_comments = [], rs_channel = None\<rparr>"

definition resolution_full :: "resolution \<Rightarrow> bool" where
  "resolution_full x \<longleftrightarrow> rs_visible x \<and> rs_accessible x"

text \<open>A row of the query of owners; the entity is all empty when there is no active one.\<close>

record owner_row =
  wr_content :: string
  wr_comments :: string
  wr_creator :: string
  wr_entity :: channel_ref

record ownership =
  ws_creator :: string
  ws_comments :: string
  ws_entity :: "channel_ref option"

definition ownership_of :: "owner_row \<Rightarrow> ownership" where
  "ownership_of w =
     \<lparr>ws_creator = wr_creator w, ws_comments = wr_comments w,
      ws_entity = (if nr_id (wr_entity w) \<noteq> [] \<and> nr_kind (wr_entity w) = ''channel''
        then Some (if nr_scope (wr_entity w) = [] then (wr_entity w)\<lparr>nr_owner := []\<rparr> else wr_entity w) else None)\<rparr>"

definition zero_ownership :: ownership where
  "zero_ownership = \<lparr>ws_creator = [], ws_comments = [], ws_entity = None\<rparr>"

definition resolution_of :: "item_view \<Rightarrow> ownership \<Rightarrow> content_ref \<Rightarrow> resolution" where
  "resolution_of iv w r =
     (let want = ref_version r; mine = filter (\<lambda>x. want = [] \<or> vr_version x = want) (iv_versions iv)
      in \<lparr>rs_ref = Some r, rs_visible = (mine \<noteq> []),
          rs_accessible = list_ex (\<lambda>x. case map_of (iv_decisions iv) (vr_version x) of Some d \<Rightarrow> cd_allowed d | None \<Rightarrow> False) mine,
          rs_read_restricted = iv_read_restricted iv, rs_editor = iv_editor iv,
          rs_owner = ws_creator w, rs_comments = ws_comments w, rs_channel = ws_entity w\<rparr>)"

definition resolve_ref ::
    "string \<Rightarrow> (string \<times> item_view) list \<Rightarrow> (string \<times> ownership) list \<Rightarrow> content_ref \<Rightarrow> resolution option" where
  "resolve_ref tenant views owners r =
     (case map_of views (content_id r) of
        None \<Rightarrow> None
      | Some iv \<Rightarrow>
          if tenant_id r \<noteq> tenant \<or> \<not> iv_visible iv \<or> iv_versions iv = [] \<or> vr_kind (hd (iv_versions iv)) \<noteq> content_kind r
          then None
          else (let x = resolution_of iv (case map_of owners (content_id r) of Some w \<Rightarrow> w | None \<Rightarrow> zero_ownership) r
                in if rs_visible x then Some x else None))"

definition resolve_refs ::
    "catalog_store \<Rightarrow> (string, view_row list) result \<Rightarrow> (string, owner_row list) result \<Rightarrow> string \<Rightarrow> bool \<Rightarrow>
     content_ref list \<Rightarrow> http_actor \<Rightarrow> can_memo \<Rightarrow> memo \<Rightarrow>
     (catalog_error, (content_key \<times> resolution) list) result \<times> can_memo \<times> memo" where
  "resolve_refs s table owners host editor_read refs a cm em =
     (let tenant = cs_tenant s;
          ids = remdups (map content_id (filter (\<lambda>r. map_of (kinds (cs_config s)) (content_kind r) \<noteq> None \<and> tenant_id r = tenant) refs))
      in case direct_views s table host editor_read a ids cm em of
           (Inl e, cm, em) \<Rightarrow> (Inl e, cm, em)
         | (Inr views, cm, em) \<Rightarrow>
             if views = [] then (Inr [], cm, em)
             else (case owners of
                 Inl e \<Rightarrow> (Inl (CatStore e), cm, em)
               | Inr ws \<Rightarrow>
                   (Inr (foldl (\<lambda>out r. case resolve_ref tenant views (map (\<lambda>w. (wr_content w, ownership_of w)) ws) r of
                      None \<Rightarrow> out | Some x \<Rightarrow> AList.update (ref_key r) x out) [] refs), cm, em)))"

definition resolve_one ::
    "(catalog_error, (content_key \<times> resolution) list) result \<Rightarrow> content_ref \<Rightarrow> (catalog_error, resolution) result" where
  "resolve_one got r = bindr got (\<lambda>m. Inr (case map_of m (ref_key r) of Some x \<Rightarrow> x | None \<Rightarrow> zero_resolution))"

end
