(* ===== verification/Read_Props.thy ===== *)
theory Read_Props
  imports Write_Props Catalog_Visibility Domain_Props Entitlement_Props
begin

text \<open>
  What a viewer is shown: direct reads decide exactly by the visibility rule, and the lists show
  what direct reads show.
\<close>

section \<open>The rows of a direct read\<close>

text \<open>
  Facets in step with what they are made from: a row is deleted when its content or its version
  is, it copies its content's owner, the rows of an item agree on owner and author, and a
  version has one row.
\<close>

definition facets_current :: "view_row list \<Rightarrow> bool" where
  "facets_current t \<longleftrightarrow> distinct (map vr_version t) \<and>
     (\<forall>r \<in> set t. vr_deleted r = (vr_content_deleted r \<or> vr_version_deleted r) \<and>
        vr_item_owner r = vr_owner r \<and> vr_owner r \<noteq> Some [] \<and>
        (\<forall>r' \<in> set t. vr_content r' = vr_content r \<longrightarrow> vr_owner r' = vr_owner r \<and> vr_author r' = vr_author r))"

lemma current_agree:
  assumes "facets_current t" "r \<in> set t" "r' \<in> set t" "vr_content r' = vr_content r"
  shows "vr_owner r' = vr_owner r \<and> vr_author r' = vr_author r"
  using assms unfolding facets_current_def by blast

lemma current_row:
  assumes "facets_current t" "r \<in> set t"
  shows "vr_deleted r = (vr_content_deleted r \<or> vr_version_deleted r)" "vr_item_owner r = vr_owner r" "vr_owner r \<noteq> Some []"
  using assms unfolding facets_current_def by blast+

lemma current_version:
  assumes "facets_current t" "r \<in> set t" "r' \<in> set t" "vr_version r' = vr_version r"
  shows "r' = r"
  using assms unfolding facets_current_def distinct_map inj_on_def by blast

definition read_rule :: "catalog_store \<Rightarrow> view_row \<Rightarrow> rule \<Rightarrow> bool" where
  "read_rule s r x \<longleftrightarrow> (\<exists>e. effective_rule (vr_rule r) (vr_override r) = Inr e \<and>
     x = (case map_of (kinds (cs_config s)) (vr_kind r) of Some k \<Rightarrow> previewed e k | None \<Rightarrow> e))"

lemma scanned_run:
  assumes "scanned_rules s rs = Inr rows"
  shows "map fst rows = rs \<and> (\<forall>x \<in> set rows. read_rule s (fst x) (snd x))"
proof -
  let ?step = "\<lambda>r out. case effective_rule (vr_rule r) (vr_override r) of
        Inl e \<Rightarrow> Inl (CatStore e)
      | Inr rule \<Rightarrow> Inr (out @ [(r, case map_of (kinds (cs_config s)) (vr_kind r) of
          Some k \<Rightarrow> previewed rule k | None \<Rightarrow> rule)])"
  have "fold_result ?step rs out = Inr rows \<Longrightarrow> \<exists>new. rows = out @ new \<and> map fst new = rs \<and>
      (\<forall>x \<in> set new. read_rule s (fst x) (snd x))" for out
  proof (induction rs arbitrary: out)
    case (Cons r rs)
    then obtain e where e: "effective_rule (vr_rule r) (vr_override r) = Inr e"
      by (cases "effective_rule (vr_rule r) (vr_override r)") auto
    let ?x = "(r, case map_of (kinds (cs_config s)) (vr_kind r) of Some k \<Rightarrow> previewed e k | None \<Rightarrow> e)"
    obtain new where "rows = (out @ [?x]) @ new" "map fst new = rs" "\<forall>x \<in> set new. read_rule s (fst x) (snd x)"
      using Cons.IH [of "out @ [?x]"] Cons.prems by (auto simp: e)
    moreover have "read_rule s r (snd ?x)" unfolding read_rule_def by (simp add: e)
    ultimately show ?case by (intro exI [of _ "?x # new"]) simp
  qed simp
  from this [of "[]"] show ?thesis using assms by (auto simp: scanned_rules_def)
qed

text \<open>The rows a direct read sees: those of the ids, ready unless staff manage them.\<close>

definition seen_rows :: "viewer \<Rightarrow> view_row list \<Rightarrow> string list \<Rightarrow> view_row list" where
  "seen_rows v t ids = filter (\<lambda>r. vr_content r \<in> set ids \<and> (vw_management v \<and> vw_staff v \<or> channel_ready r)) t"

lemma seen_in: "r \<in> set (seen_rows v t ids) \<Longrightarrow> r \<in> set t" by (simp add: seen_rows_def)

text \<open>The scanned rows of a direct read over current facets.\<close>

definition read_of :: "viewer \<Rightarrow> view_row list \<Rightarrow> string list \<Rightarrow> (view_row \<times> rule) list \<Rightarrow> bool" where
  "read_of v t ids rows \<longleftrightarrow> facets_current t \<and> map fst rows = seen_rows v t ids"

lemma row_seen: "read_of v t ids rows \<Longrightarrow> x \<in> set rows \<Longrightarrow> fst x \<in> set t"
  unfolding read_of_def by (metis image_eqI list.set_map seen_in)

lemma rows_agree: "read_of v t ids rows \<Longrightarrow> x \<in> set rows \<Longrightarrow> y \<in> set rows \<Longrightarrow> vr_content (fst x) = vr_content (fst y) \<Longrightarrow>
    vr_owner (fst x) = vr_owner (fst y) \<and> vr_author (fst x) = vr_author (fst y)"
  by (rule current_agree [of t]) (auto simp: read_of_def row_seen)

lemma owner_row:
  assumes read: "read_of v t ids rows" and x: "x \<in> set rows"
  shows "owner_of rows (vr_content (fst x)) = vr_owner_text (fst x)"
proof -
  have "x \<in> set (rows_of rows (vr_content (fst x)))" using x by (simp add: rows_of_def)
  then obtain y ys where y: "rows_of rows (vr_content (fst x)) = y # ys" by (cases "rows_of rows (vr_content (fst x))") auto
  then have "y \<in> set (rows_of rows (vr_content (fst x)))" by simp
  then have "y \<in> set rows" "vr_content (fst y) = vr_content (fst x)" by (auto simp: rows_of_def)
  then show ?thesis using rows_agree [OF read _ x] y by (simp add: owner_of_def vr_owner_text_def)
qed

lemma created_row: "read_of v t ids rows \<Longrightarrow> x \<in> set rows \<Longrightarrow> created v rows (vr_content (fst x)) \<longleftrightarrow>
    vr_author (fst x) = http_account (vw_actor v) \<and> http_account (vw_actor v) \<noteq> []"
  unfolding created_def list_ex_iff
proof -
  assume read: "read_of v t ids rows" and x: "x \<in> set rows"
  have "vr_author (fst y) = vr_author (fst x)" if "y \<in> set (rows_of rows (vr_content (fst x)))" for y
    using rows_agree [OF read x, of y] that by (auto simp: rows_of_def)
  moreover have "x \<in> set (rows_of rows (vr_content (fst x)))" using x by (simp add: rows_of_def)
  ultimately show "(\<exists>y \<in> set (rows_of rows (vr_content (fst x))). vr_author (fst y) = http_account (vw_actor v) \<and>
      http_account (vw_actor v) \<noteq> []) \<longleftrightarrow> vr_author (fst x) = http_account (vw_actor v) \<and> http_account (vw_actor v) \<noteq> []"
    by metis
qed


lemma own_row:
  assumes "read_of v t ids rows" "x \<in> set rows"
  shows "own_allows o' (vr_owner_text (fst x)) \<longleftrightarrow>
    (case vr_item_owner (fst x) of None \<Rightarrow> ow_app o' | Some c \<Rightarrow> c \<in> set (ow_entities o'))"
  using current_row(2,3) [of t "fst x"] assms row_seen [OF assms]
  by (auto simp: read_of_def own_allows_def vr_owner_text_def split: option.splits)

text \<open>What a direct read knows without asking is what the SQL of a list tests.\<close>

lemma known_privileged:
  assumes read: "read_of v t ids rows" and x: "x \<in> set rows" and eds: "[] \<notin> set (vw_editors v)"
  shows "known_reader v rows (vr_content (fst x)) \<longleftrightarrow> vw_staff v \<or> privileged v (fst x)"
proof -
  have "editable v (vr_owner_text (fst x)) \<longleftrightarrow> (case vr_owner (fst x) of None \<Rightarrow> False | Some g \<Rightarrow> g \<in> set (vw_editors v))"
    using eds by (auto simp: editable_def vr_owner_text_def split: option.splits)
  then show ?thesis
    unfolding known_reader_def personal_read_def privileged_def owner_row [OF read x] created_row [OF read x] own_row [OF read x]
    by auto
qed

lemma open_row_sql:
  assumes "read_of v t ids rows" "x \<in> set rows"
  shows "open_row v (fst x) \<longleftrightarrow> \<not> vr_deleted (fst x) \<and> sql_live v (fst x) \<and> in_scope v (fst x)"
  using current_row(1) [of t "fst x"] assms row_seen [OF assms]
  by (auto simp: read_of_def open_row_def row_live_def sql_live_def split: option.splits)

lemma version_unique:
  assumes "read_of v t ids rows" "x \<in> set rows" "y \<in> set rows" "vr_version (fst x) = vr_version (fst y)"
  shows "fst x = fst y"
  using current_version [of t "fst y" "fst x"] row_seen [OF assms(1,2)] row_seen [OF assms(1,3)] assms
  by (simp add: read_of_def)

lemma set_version_order [simp]: "set (version_order rs) = set rs" by (simp add: version_order_def)

section \<open>Direct reads\<close>

lemma gate_decides_run:
  assumes run: "gate_decides s v its em = (ds, em')"
    and g: "gate_ok (cs_gate s)" and a: "a = actor.truncate (vw_actor v)"
    and b: "truthful (cs_gate s) (account_subject a) owned" and m: "memo_true (cs_gate s) a owned em"
  shows "list_all2 (\<lambda>it d. if dc_unknown d then \<not> dc_allowed d
     else dc_allowed d = may_open (cs_gate s) a owned it (cs_gate_now s)) its ds"
proof (cases "its = []")
  case True
  then show ?thesis using run by (simp add: gate_decides_def)
next
  case False
  then obtain e qs where "gate_decide (cs_gate s) a its (cs_gate_now s) em = (ds, e, qs, em')"
    using run a by (auto simp: gate_decides_def split: prod.splits)
  from gate_decide_verdicts [OF g b m this] show ?thesis
    by (rule list_all2_mono) (auto simp: denied_def split: if_splits)
qed

text \<open>Checks that fail keep the memo faithful too.\<close>

lemma allow_channels_memo:
  "memo_faithful au (ha_verified a) m \<Longrightarrow> memo_faithful au (ha_verified a) (snd (allow_channels au a ps rows out m))"
proof (induction rows arbitrary: out m)
  case (Cons row rows)
  obtain i scope where row: "row = (i, scope)" by force
  obtain ok e m1 where 1: "channel_editor au a scope ps m = ((ok, e), m1)" by (metis prod.exhaust)
  have "memo_faithful au (ha_verified a) m1" using editor_run [OF 1 Cons.prems] by simp
  then show ?case using Cons.IH Cons.prems by (cases e) (simp_all add: row 1)
qed simp

lemma entity_allowed_memo:
  "memo_faithful au (ha_verified a) m \<Longrightarrow> memo_faithful au (ha_verified a) (snd (entity_allowed au channels a ids creating m))"
  using allow_channels_memo by (simp add: entity_allowed_def split: sum.splits)

lemma own_access_memo:
  assumes m: "memo_faithful au (ha_verified a) m"
  shows "memo_faithful au (ha_verified a) (snd (own_access_of au src a editing m))"
proof -
  obtain o1 e1 m1 where 1: "can au a content_edit_own m = ((o1, e1), m1)" by (metis prod.exhaust)
  obtain o2 e2 m2 where 2: "can au a content_create m1 = ((o2, e2), m2)" by (metis prod.exhaust)
  have m1: "memo_faithful au (ha_verified a) m1" using can_run [OF 1 m] by simp
  have m2: "memo_faithful au (ha_verified a) m2" using can_run [OF 2 m1] by simp
  show ?thesis
    using m m1 m2 by (auto simp: own_access_of_def 1 2 split: option.splits sum.splits)
qed

text \<open>An account edits a channel: its scope lets it write there.\<close>

definition edits :: "catalog_store \<Rightarrow> http_actor \<Rightarrow> string \<Rightarrow> bool" where
  "edits s a c \<longleftrightarrow> real_actor a \<and> (\<exists>ids rows scope. cs_channels s ids = Inr rows \<and> (c, scope) \<in> set rows \<and>
     scope \<noteq> [] \<and> granted_in (cs_auth s) a scope [channel_content_write])"

definition named_channels :: "channel_query \<Rightarrow> bool" where
  "named_channels channels \<longleftrightarrow> keyed_channels channels \<and> (\<forall>ids rows scope. channels ids = Inr rows \<longrightarrow> ([], scope) \<notin> set rows)"

lemma read_editors_run:
  assumes run: "read_editors (cs_auth s) (cs_channels s) a ids m = (got, m')"
    and m: "memo_faithful (cs_auth s) (ha_verified a) m" and k: "named_channels (cs_channels s)"
  shows "memo_faithful (cs_auth s) (ha_verified a) m' \<and> (flag got g \<longrightarrow> g \<noteq> [] \<and> edits s a g)"
proof -
  obtain r m1 where r: "entity_allowed (cs_auth s) (cs_channels s) a ids False m = (r, m1)" by force
  have m1: "memo_faithful (cs_auth s) (ha_verified a) m1"
    using entity_allowed_memo [OF m, of "cs_channels s" ids False] r by simp
  show ?thesis
  proof (cases r)
    case (Inl e)
    then show ?thesis using run m1 by (simp add: read_editors_def entity_editor_def r)
  next
    case (Inr out)
    then have "got = out" "m' = m1" using run by (simp_all add: read_editors_def entity_editor_def r)
    then show ?thesis
      using entity_allowed_run [OF r [unfolded Inr] m, of g] k m1
      unfolding named_channels_def keyed_channels_def edits_def by (metis (no_types, lifting))
  qed
qed

text \<open>What a viewer knows of editors is true.\<close>

definition viewer_true :: "catalog_store \<Rightarrow> viewer \<Rightarrow> bool" where
  "viewer_true s v \<longleftrightarrow> (\<forall>g \<in> set (vw_editors v). g \<noteq> [] \<and> edits s (vw_actor v) g) \<and>
     (\<forall>known g. vw_asked v = Some known \<longrightarrow> flag known g \<longrightarrow> g \<noteq> [] \<and> edits s (vw_actor v) g)"

lemma editors_steps:
  assumes "foldl (editors_step v) (out, ask) entities = (out', ask')" "viewer_true s v" "flag out' g"
  shows "flag out g \<or> g \<noteq> [] \<and> (vw_staff_write v \<or> edits s (vw_actor v) g)"
  using assms
proof (induction entities arbitrary: out ask)
  case (Cons c entities)
  obtain out1 ask1 where 1: "editors_step v (out, ask) c = (out1, ask1)" by force
  have "flag out1 g \<Longrightarrow> flag out g \<or> g \<noteq> [] \<and> (vw_staff_write v \<or> edits s (vw_actor v) g)"
    using 1 Cons.prems(2)
    by (auto simp: editors_step_def viewer_true_def editable_def flag_def update_conv' split: if_splits option.splits bool.splits)
  then show ?case using Cons.IH [of out1 ask1] Cons.prems 1 by auto
qed simp

lemma flags_updated: "flag (foldl (\<lambda>o' g. AList.update g (flag got g) o') out ask) g = (if g \<in> set ask then flag got g else flag out g)"
  by (induction ask arbitrary: out) auto

lemma viewer_editors_run:
  assumes run: "viewer_editors s v entities m = (editors, v', m')"
    and m: "memo_faithful (cs_auth s) (ha_verified (vw_actor v)) m" and k: "named_channels (cs_channels s)"
    and v: "viewer_true s v"
  shows "flag editors g \<longrightarrow> g \<noteq> [] \<and> (vw_staff_write v \<or> edits s (vw_actor v) g)"
proof -
  obtain out ask where 1: "foldl (editors_step v) ([], []) entities = (out, ask)" by force
  obtain got m1 where 2: "read_editors (cs_auth s) (cs_channels s) (vw_actor v) ask m = (got, m1)" by force
  have "editors = out \<or> editors = foldl (\<lambda>o' g. AList.update g (flag got g) o') out ask"
    using run by (auto simp: viewer_editors_def Let_def 1 2 split: if_splits)
  then show ?thesis
    using editors_steps [OF 1 v, of g] read_editors_run [OF 2 m k, of g] by (auto simp: flags_updated split: if_splits)
qed

text \<open>
  Who reads an item whatever its state: staff with a content permission, its author with a
  current right over their own content there, or an editor of its channel.
\<close>

definition reads_own :: "catalog_store \<Rightarrow> http_actor \<Rightarrow> string option \<Rightarrow> bool" where
  "reads_own s a channel \<longleftrightarrow>
     (case channel of
        None \<Rightarrow> http_member a \<and> (granted (cs_auth s) a content_edit_own \<or> granted (cs_auth s) a content_create)
      | Some c \<Rightarrow> authored_channel (cs_authors s) a
          [channel_content_edit_own, channel_content_write, channel_content_create] c)"

definition may_read :: "catalog_store \<Rightarrow> http_actor \<Rightarrow> view_row \<Rightarrow> bool" where
  "may_read s a r \<longleftrightarrow>
     real_actor a \<and> (granted (cs_auth s) a content_write \<or> granted (cs_auth s) a content_view_restricted) \<or>
     http_account a \<noteq> [] \<and> vr_author r = http_account a \<and> reads_own s a (vr_item_owner r) \<or>
     (case vr_owner r of None \<Rightarrow> False | Some c \<Rightarrow> edits s a c)"

definition own_true :: "catalog_store \<Rightarrow> http_actor \<Rightarrow> own_access \<Rightarrow> bool" where
  "own_true s a x \<longleftrightarrow> (ow_app x \<longrightarrow> reads_own s a None) \<and> (\<forall>c \<in> set (ow_entities x). reads_own s a (Some c))"

lemma read_own_run:
  assumes run: "read_own s a editing m = (x, m')" and m: "memo_faithful (cs_auth s) (ha_verified a) m"
  shows "memo_faithful (cs_auth s) (ha_verified a) m' \<and> own_true s a x"
proof -
  obtain r m1 where r: "own_access_of (cs_auth s) (cs_authors s) a editing m = (r, m1)" by force
  have m1: "memo_faithful (cs_auth s) (ha_verified a) m1"
    using own_access_memo [OF m, of "cs_authors s" editing] r by simp
  show ?thesis
  proof (cases r)
    case (Inl e)
    then show ?thesis using run m1 by (auto simp: read_own_def r own_true_def no_access_def)
  next
    case (Inr y)
    then have x: "x = y" "m' = m1" using run by (simp_all add: read_own_def r)
    note own = own_run [OF r [unfolded Inr] m]
    have "authored_channel (cs_authors s) a ([channel_content_edit_own, channel_content_write] @
        (if \<not> editing then [channel_content_create] else [])) c"
      if "c \<in> set (ow_entities y)" for c
      using own that unfolding content_author_entities_def authority_exact [symmetric] by blast
    then have "authored_channel (cs_authors s) a [channel_content_edit_own, channel_content_write, channel_content_create] c"
      if "c \<in> set (ow_entities y)" for c
      using that unfolding authored_channel_def by (fastforce split: if_splits)
    then show ?thesis using own m1 by (auto simp: x own_true_def reads_own_def)
  qed
qed

definition viewer_sound :: "catalog_store \<Rightarrow> viewer \<Rightarrow> bool" where
  "viewer_sound s v \<longleftrightarrow> viewer_true s v \<and> own_true s (vw_actor v) (vw_own_read v) \<and>
     (vw_staff v \<longrightarrow> real_actor (vw_actor v) \<and>
       (granted (cs_auth s) (vw_actor v) content_write \<or> granted (cs_auth s) (vw_actor v) content_view_restricted)) \<and>
     (vw_staff_write v \<longrightarrow> vw_staff v)"

lemma no_access_true [simp]: "own_true s a no_access"
  by (simp add: own_true_def no_access_def)

lemma asked_flags: "flag (foldl (\<lambda>m g. AList.update g (flag got g) m) [] ids) g \<Longrightarrow> flag got g"
  using flags_updated [of got "[]" ids g] by (simp split: if_splits)

lemma viewer_for_sound:
  assumes run: "viewer_for s opt cm em = (Inr v, cm', em')"
    and m: "memo_faithful (cs_auth s) (ha_verified (vo_actor opt)) cm" and k: "named_channels (cs_channels s)"
    and g: "gate_ok (cs_gate s)" and a: "a = actor.truncate (vo_actor opt)"
    and b: "truthful (cs_gate s) (account_subject a) owned" and em: "memo_true (cs_gate s) a owned em"
  shows "viewer_sound s v \<and> vw_actor v = vo_actor opt \<and>
    memo_faithful (cs_auth s) (ha_verified (vo_actor opt)) cm' \<and> memo_true (cs_gate s) a owned em'"
proof -
  let ?a = "vo_actor opt" and ?au = "cs_auth s"
  obtain rights e1 m1 where 1: "staff_rights_of ?au ?a cm = ((rights, e1), m1)" by (metis prod.exhaust)
  note staff = staff_sound [OF 1 m]
  let ?no = "\<lambda>editing m. if sr_write rights then (no_access, m) else read_own s ?a editing m"
  obtain own m2 where 2: "?no False m1 = (own, m2)" by force
  obtain ownw m3 where 3: "?no True m2 = (ownw, m3)" by force
  obtain f fe qs em1 where 4: "gate_filter (cs_gate s) (actor.truncate ?a) em = (f, fe, qs, em1)" by (metis prod.exhaust)
  let ?staff = "sr_view rights \<or> sr_write rights"
  let ?ask = "vo_editors opt \<noteq> [] \<and> \<not> ?staff"
  obtain got m4 where 5: "(if ?ask then read_editors ?au (cs_channels s) ?a (vo_editors opt) m3 else ([], m3)) = (got, m4)" by force
  have m1: "memo_faithful ?au (ha_verified ?a) m1" using staff by blast
  have m2: "memo_faithful ?au (ha_verified ?a) m2" and own: "own_true s ?a own"
    using 2 read_own_run [OF _ m1] m1 by (auto split: if_splits)
  have m3: "memo_faithful ?au (ha_verified ?a) m3"
    using 3 read_own_run [OF _ m2] m2 by (auto split: if_splits)
  have m4: "memo_faithful ?au (ha_verified ?a) m4" and got: "flag got g \<Longrightarrow> g \<noteq> [] \<and> edits s ?a g" for g
    using 5 read_editors_run [OF _ m3 k] m3 by (auto split: if_splits)
  have em1: "memo_true (cs_gate s) a owned em1"
    using gate_filter_true [OF g b em] 4 a by auto
  have v: "vw_actor v = ?a" "vw_own_read v = own" "vw_staff v = ?staff" "vw_staff_write v = sr_write rights"
      "vw_editors v = (if ?ask then sort (filter (flag got) (vo_editors opt)) else [])"
      "vw_asked v = (if ?ask then Some (foldl (\<lambda>m g. AList.update g (flag got g) m) [] (vo_editors opt)) else None)"
      "cm' = m4" "em' = em1"
    using run unfolding viewer_for_def Let_def 1 prod.case 2 3 4 5
    by (auto simp: Let_def 5 split: if_splits sum.splits)
  have "viewer_true s v"
    unfolding viewer_true_def v using got asked_flags [of got "vo_editors opt"] by (auto split: if_splits)
  then show ?thesis
    unfolding viewer_sound_def using own staff m4 em1 by (auto simp: v)
qed

lemma decide_run:
  assumes run: "viewer_decide s (Inr t) v ids every cm em = (Inr views, cm', em')" and i: "(i, iv) \<in> set views"
    and current: "facets_current t"
  obtains rows ds em1 editors v' where "read_of v t ids rows" "\<forall>x \<in> set rows. read_rule s (fst x) (snd x)"
    "gate_decides s v (map item_of (live_rows v rows)) em = (ds, em1)"
    "viewer_editors s v (asked_owners v every rows (zip (map fst (live_rows v rows)) ds)) cm = (editors, v', cm')"
    "i \<in> set (content_ids rows)" "iv = view_of v rows (zip (map fst (live_rows v rows)) ds) editors i"
proof -
  have ids: "ids \<noteq> []" using run i by (auto simp: viewer_decide_def)
  obtain rows where rows: "scanned_rules s (seen_rows v t ids) = Inr rows"
    using run ids by (cases "scanned_rules s (seen_rows v t ids)") (auto simp: viewer_decide_def seen_rows_def)
  obtain ds em1 where 1: "gate_decides s v (map item_of (live_rows v rows)) em = (ds, em1)" by force
  let ?decided = "zip (map fst (live_rows v rows)) ds"
  obtain editors v' cm1 where 2: "viewer_editors s v (asked_owners v every rows ?decided) cm = (editors, v', cm1)"
    by (metis prod.exhaust)
  have "views = map (\<lambda>i. (i, view_of v rows ?decided editors i)) (content_ids rows)" "cm' = cm1"
    using run ids rows unfolding viewer_decide_def seen_rows_def by (auto simp: Let_def 1 2)
  then show thesis
    using that [of rows ds em1 editors v'] scanned_run [OF rows] current 1 2 i by (auto simp: read_of_def)
qed

lemma read_restricted_may_read:
  assumes v: "viewer_sound s v" and read: "read_of v t ids rows" and x: "x \<in> set rows"
    and eds: "\<And>g. flag editors g \<Longrightarrow> g \<noteq> [] \<and> (vw_staff_write v \<or> edits s (vw_actor v) g)"
    and r: "known_reader v rows (vr_content (fst x)) \<or> flag editors (owner_of rows (vr_content (fst x)))"
  shows "may_read s (vw_actor v) (fst x)"
proof -
  have ne: "[] \<notin> set (vw_editors v)" using v by (auto simp: viewer_sound_def viewer_true_def)
  have staff: "vw_staff v \<Longrightarrow> may_read s (vw_actor v) (fst x)"
    using v by (auto simp: viewer_sound_def may_read_def)
  have "privileged v (fst x) \<Longrightarrow> may_read s (vw_actor v) (fst x)"
    using v by (auto simp: viewer_sound_def viewer_true_def own_true_def privileged_def may_read_def split: option.splits)
  moreover have "may_read s (vw_actor v) (fst x)" if "flag editors (vr_owner_text (fst x))"
  proof (cases "vw_staff_write v")
    case True
    then show ?thesis using staff v by (simp add: viewer_sound_def)
  next
    case False
    then show ?thesis
      using eds [OF that] by (auto simp: vr_owner_text_def may_read_def split: option.splits)
  qed
  ultimately show ?thesis
    using r staff unfolding known_privileged [OF read x ne] owner_row [OF read x] by blast
qed

lemma zip_live:
  assumes "list_all2 P (map item_of live) ds" "(r, d) \<in> set (zip (map fst live) ds)"
  shows "\<exists>x \<in> set live. fst x = r \<and> P (item_of x) d"
  using assms by (induction live ds rule: list_induct2') auto

lemma zip_live_rows: "list_all2 P (map item_of live) ds \<Longrightarrow> fst ` set (zip (map fst live) ds) = fst ` set live"
  by (induction live ds rule: list_induct2') auto

lemma map_of_all: "r \<in> set rs \<Longrightarrow> map_of (map (\<lambda>r. (vr_version r, c)) rs) (vr_version r) = Some c"
  by (induction rs) auto

lemma map_of_versions:
  assumes d: "(r, d) \<in> set z" and z: "distinct (map (vr_version \<circ> fst) z)"
  shows "map_of (map (\<lambda>(r, d). (vr_version r, f d)) z) (vr_version r) = Some (f d)"
proof (rule map_of_is_SomeI)
  have "map fst (map (\<lambda>(r, d). (vr_version r, f d)) z) = map (vr_version \<circ> fst) z" by (simp add: comp_def case_prod_beta')
  then show "distinct (map fst (map (\<lambda>(r, d). (vr_version r, f d)) z))" using z by metis
  show "(vr_version r, f d) \<in> set (map (\<lambda>(r, d). (vr_version r, f d)) z)" using d by force
qed

lemma live_distinct:
  assumes "read_of v t ids rows"
  shows "distinct (map (vr_version \<circ> fst) (live_rows v rows))"
proof -
  have "distinct (map vr_version (map fst rows))"
    using assms unfolding read_of_def facets_current_def seen_rows_def by (metis distinct_map_filter)
  then show ?thesis unfolding live_rows_def map_map [symmetric] by (simp add: distinct_map_filter comp_def)
qed

lemma direct_read:
  assumes v0: "viewer_for s opt cm0 em0 = (Inr v0, cm, em)" and v: "v = v0\<lparr>vw_management := management\<rparr>"
    and run: "viewer_decide s (Inr t) v ids every cm em = (Inr views, cm', em')" and i: "(i, iv) \<in> set views"
    and current: "facets_current t" and k: "named_channels (cs_channels s)"
    and m: "memo_faithful (cs_auth s) (ha_verified (vo_actor opt)) cm0"
    and g: "gate_ok (cs_gate s)" and a: "a = actor.truncate (vo_actor opt)"
    and b: "truthful (cs_gate s) (account_subject a) owned" and em: "memo_true (cs_gate s) a owned em0"
  shows "iv_read_restricted iv \<longrightarrow> (\<forall>r \<in> set (seen_rows v t ids). vr_content r = i \<longrightarrow> may_read s (vo_actor opt) r)"
    and "r \<in> set (iv_versions iv) \<longleftrightarrow> r \<in> set (seen_rows v t ids) \<and> vr_content r = i \<and>
       (if iv_read_restricted iv then management \<or> in_scope v r else open_row v r)"
    and "r \<in> set (iv_versions iv) \<longrightarrow> (\<exists>d rule. map_of (iv_decisions iv) (vr_version r) = Some d \<and> read_rule s r rule \<and>
       (if iv_read_restricted iv then d = allow_all
        else if cd_unknown d then \<not> cd_allowed d
        else cd_allowed d = may_open (cs_gate s) a owned (item_of (r, rule)) (cs_gate_now s)))"
proof -
  note vs = viewer_for_sound [OF v0 m k g a b em]
  have sound: "viewer_sound s v" and actor: "vw_actor v = vo_actor opt"
    using vs by (auto simp: v viewer_sound_def viewer_true_def)
  obtain rows ds em1 editors v' where read: "read_of v t ids rows"
    and rules: "\<forall>x \<in> set rows. read_rule s (fst x) (snd x)"
    and ds: "gate_decides s v (map item_of (live_rows v rows)) em = (ds, em1)"
    and eds: "viewer_editors s v (asked_owners v every rows (zip (map fst (live_rows v rows)) ds)) cm = (editors, v', cm')"
    and iv: "iv = view_of v rows (zip (map fst (live_rows v rows)) ds) editors i"
    by (rule decide_run [OF run i current])
  let ?live = "live_rows v rows" and ?z = "zip (map fst (live_rows v rows)) ds"
  let ?reads = "known_reader v rows i \<or> flag editors (owner_of rows i)"
  have seen: "set (seen_rows v t ids) = fst ` set rows" using read by (simp add: read_of_def flip: list.set_map)
  have z: "list_all2 (\<lambda>it d. if dc_unknown d then \<not> dc_allowed d
     else dc_allowed d = may_open (cs_gate s) a owned it (cs_gate_now s)) (map item_of ?live) ds"
    by (rule gate_decides_run [OF ds g _ b]) (use vs a actor in auto)
  have live: "fst ` set ?z = fst ` set ?live" by (rule zip_live_rows [OF z])
  have restricted: "iv_read_restricted iv \<longleftrightarrow> ?reads" by (simp add: iv view_of_def Let_def)
  have flags: "flag editors c \<Longrightarrow> c \<noteq> [] \<and> (vw_staff_write v \<or> edits s (vw_actor v) c)" for c
    using viewer_editors_run [OF eds _ k, of c] vs sound actor by (auto simp: viewer_sound_def)
  show "iv_read_restricted iv \<longrightarrow> (\<forall>r \<in> set (seen_rows v t ids). vr_content r = i \<longrightarrow> may_read s (vo_actor opt) r)"
    using read_restricted_may_read [OF sound read _ flags, of _ editors] unfolding restricted seen actor by blast
  have versions: "set (iv_versions iv) = (if ?reads then {r \<in> fst ` set rows. vr_content r = i \<and> (management \<or> in_scope v r)}
      else {r \<in> fst ` set ?live. vr_content r = i})"
    using live by (force simp: iv view_of_def Let_def rows_of_def v)
  have mem: "r \<in> set (iv_versions iv) \<longleftrightarrow> r \<in> set (seen_rows v t ids) \<and> vr_content r = i \<and>
       (if iv_read_restricted iv then management \<or> in_scope v r else open_row v r)" for r
    unfolding versions restricted seen by (auto simp: live_rows_def)
  show "r \<in> set (iv_versions iv) \<longleftrightarrow> r \<in> set (seen_rows v t ids) \<and> vr_content r = i \<and>
       (if iv_read_restricted iv then management \<or> in_scope v r else open_row v r)" by (rule mem)
  show "r \<in> set (iv_versions iv) \<longrightarrow> (\<exists>d rule. map_of (iv_decisions iv) (vr_version r) = Some d \<and> read_rule s r rule \<and>
       (if iv_read_restricted iv then d = allow_all
        else if cd_unknown d then \<not> cd_allowed d
        else cd_allowed d = may_open (cs_gate s) a owned (item_of (r, rule)) (cs_gate_now s)))"
  proof
    assume r: "r \<in> set (iv_versions iv)"
    then obtain rule where rule: "(r, rule) \<in> set rows" using mem unfolding seen by auto
    show "\<exists>d rule. map_of (iv_decisions iv) (vr_version r) = Some d \<and> read_rule s r rule \<and>
       (if iv_read_restricted iv then d = allow_all
        else if cd_unknown d then \<not> cd_allowed d
        else cd_allowed d = may_open (cs_gate s) a owned (item_of (r, rule)) (cs_gate_now s))"
    proof (cases "?reads")
      case True
      then have "iv_decisions iv = map (\<lambda>r. (vr_version r, allow_all)) (filter (\<lambda>r. vw_management v \<or> in_scope v r) (map fst (rows_of rows i)))"
        by (simp add: iv view_of_def Let_def)
      moreover have "r \<in> set (filter (\<lambda>r. vw_management v \<or> in_scope v r) (map fst (rows_of rows i)))"
        using r True by (force simp: versions rows_of_def v)
      ultimately have "map_of (iv_decisions iv) (vr_version r) = Some allow_all"
        by (simp only: map_of_all)
      then show ?thesis using True rules rule unfolding restricted by (metis fst_conv snd_conv)
    next
      case False
      then have "r \<in> fst ` set ?live" "vr_content r = i" using r by (simp_all add: versions)
      then obtain d where d: "(r, d) \<in> set ?z" using live by (metis imageE prod.collapse)
      let ?z' = "filter (\<lambda>(r, _). vr_content r = i) ?z"
      have "distinct (map (vr_version \<circ> fst) ?z)"
        using live_distinct [OF read] list_all2_lengthD [OF z]
        by (simp flip: map_map add: map_fst_zip)
      then have dz: "distinct (map (vr_version \<circ> fst) ?z')" by (rule distinct_map_filter)
      have dec: "map_of (iv_decisions iv) (vr_version r) = Some (cat_decision_of d)"
        using False d \<open>vr_content r = i\<close> map_of_versions [OF _ dz, of r d cat_decision_of]
        by (simp add: iv view_of_def Let_def)
      obtain x where x: "x \<in> set ?live" "fst x = r" and
        verdict: "if dc_unknown d then \<not> dc_allowed d else dc_allowed d = may_open (cs_gate s) a owned (item_of x) (cs_gate_now s)"
        using zip_live [OF z d] by blast
      have "read_rule s r (snd x)" using rules x by (auto simp: live_rows_def)
      then show ?thesis
        using False dec verdict x(2) unfolding restricted
        by (intro exI [of _ "cat_decision_of d"] exI [of _ "snd x"]) (auto simp: cat_decision_of_def)
    qed
  qed
qed

section \<open>Rights that are answered\<close>

text \<open>
  A check of rights that fails takes the right away, so who is shown everything is exact only
  while every check of the viewer's rights is answered: the channels come from one table of
  active channels, and neither the permissions nor the directory of scopes answer an error.
\<close>

definition channel_table :: "channel_query \<Rightarrow> (string \<times> string) list \<Rightarrow> bool" where
  "channel_table channels tbl \<longleftrightarrow> (\<forall>ids. channels ids = Inr (filter (\<lambda>(c, _). c \<in> set ids) tbl))"

definition rights_answer :: "catalog_store \<Rightarrow> http_actor \<Rightarrow> bool" where
  "rights_answer s a \<longleftrightarrow> (\<exists>tbl. channel_table (cs_channels s) tbl) \<and>
     (\<forall>m. memo_faithful (cs_auth s) (ha_verified a) m \<longrightarrow>
        snd (fst (staff_rights_of (cs_auth s) a m)) = None \<and>
        (\<exists>x. fst (own_access_of (cs_auth s) (cs_authors s) a False m) = Inr x) \<and>
        (\<forall>scope. snd (fst (channel_editor (cs_auth s) a scope [channel_content_write] m)) = None))"

lemma allow_channels_answers:
  assumes "\<And>m scope. memo_faithful au (ha_verified a) m \<Longrightarrow> snd (fst (channel_editor au a scope ps m)) = None"
    and "memo_faithful au (ha_verified a) m"
  shows "\<exists>out' m'. allow_channels au a ps rows out m = (Inr out', m')"
  using assms(2)
proof (induction rows arbitrary: out m)
  case (Cons row rows)
  obtain i scope where row: "row = (i, scope)" by force
  obtain ok e m1 where 1: "channel_editor au a scope ps m = ((ok, e), m1)" by (metis prod.exhaust)
  have "memo_faithful au (ha_verified a) m1" using editor_run [OF 1 Cons.prems] by simp
  then show ?case using Cons.IH Cons.prems assms(1) [OF Cons.prems, of scope] by (simp add: row 1)
qed simp

lemma read_editors_complete:
  assumes run: "read_editors (cs_auth s) (cs_channels s) a ids m = (got, m')"
    and m: "memo_faithful (cs_auth s) (ha_verified a) m" and k: "named_channels (cs_channels s)"
    and answers: "rights_answer s a" and g: "g \<in> set ids" "edits s a g"
  shows "flag got g"
proof -
  obtain tbl where tbl: "\<And>ids. cs_channels s ids = Inr (filter (\<lambda>(c, _). c \<in> set ids) tbl)"
    using answers by (auto simp: rights_answer_def channel_table_def)
  obtain scope where scope: "(g, scope) \<in> set tbl" "scope \<noteq> []" "real_actor a"
      "granted_in (cs_auth s) a scope [channel_content_write]"
    using g(2) by (auto simp: edits_def tbl)
  have "\<exists>out' m'. allow_channels (cs_auth s) a [channel_content_write] rows out m = (Inr out', m')" for rows out
    by (rule allow_channels_answers [OF _ m]) (use answers in \<open>auto simp: rights_answer_def\<close>)
  then obtain out m1 where r: "entity_allowed (cs_auth s) (cs_channels s) a ids False m = (Inr out, m1)"
    using tbl by (fastforce simp: entity_allowed_def)
  then have "got = out" using run by (simp add: read_editors_def entity_editor_def)
  then show ?thesis
    using entity_allowed_run [OF r m, of g] k scope g(1)
    by (auto simp: named_channels_def keyed_channels_def tbl)
qed

text \<open>A viewer forgets no editorship: who was found not to edit a channel does not edit it.\<close>

definition viewer_complete :: "catalog_store \<Rightarrow> viewer \<Rightarrow> bool" where
  "viewer_complete s v \<longleftrightarrow>
     (\<forall>known g. vw_asked v = Some known \<longrightarrow> map_of known g = Some False \<longrightarrow> \<not> edits s (vw_actor v) g)"

lemma editors_steps_complete:
  assumes "foldl (editors_step v) (out, ask) entities = (out', ask')" "viewer_complete s v"
    and "g \<noteq> []" "edits s (vw_actor v) g" "g \<in> set entities \<or> flag out g \<or> g \<in> set ask"
  shows "flag out' g \<or> g \<in> set ask'"
  using assms
proof (induction entities arbitrary: out ask)
  case (Cons c entities)
  obtain out1 ask1 where 1: "editors_step v (out, ask) c = (out1, ask1)" by force
  have "g \<in> set entities \<or> flag out1 g \<or> g \<in> set ask1"
    using 1 Cons.prems(2-5)
    by (auto simp: editors_step_def viewer_complete_def split: if_splits option.splits bool.splits)
  then show ?case using Cons.IH [of out1 ask1] Cons.prems 1 by auto
qed simp

lemma viewer_editors_complete:
  assumes run: "viewer_editors s v entities m = (editors, v', m')"
    and m: "memo_faithful (cs_auth s) (ha_verified (vw_actor v)) m" and k: "named_channels (cs_channels s)"
    and v: "viewer_complete s v" and answers: "rights_answer s (vw_actor v)"
    and g: "g \<in> set entities" "g \<noteq> []" "edits s (vw_actor v) g"
  shows "flag editors g"
proof -
  obtain out ask where 1: "foldl (editors_step v) ([], []) entities = (out, ask)" by force
  obtain got m1 where 2: "read_editors (cs_auth s) (cs_channels s) (vw_actor v) ask m = (got, m1)" by force
  have real: "real_actor (vw_actor v)" using g(3) by (simp add: edits_def)
  have "flag out g \<or> g \<in> set ask" using editors_steps_complete [OF 1 v g(2,3)] g(1) by simp
  moreover have "g \<in> set ask \<Longrightarrow> flag got g" using read_editors_complete [OF 2 m k answers _ g(3)] by simp
  ultimately show ?thesis
    using run real by (auto simp: viewer_editors_def Let_def 1 2 real_actor_def flags_updated split: if_splits)
qed

text \<open>Who may read an item whatever its state without being asked for: staff and its author.\<close>

definition reads_unasked :: "catalog_store \<Rightarrow> http_actor \<Rightarrow> view_row \<Rightarrow> bool" where
  "reads_unasked s a r \<longleftrightarrow>
     real_actor a \<and> (granted (cs_auth s) a content_write \<or> granted (cs_auth s) a content_view_restricted) \<or>
     http_account a \<noteq> [] \<and> vr_author r = http_account a \<and> reads_own s a (vr_item_owner r)"

lemma may_read_cases:
  "may_read s a r \<longleftrightarrow> reads_unasked s a r \<or> (case vr_owner r of None \<Rightarrow> False | Some c \<Rightarrow> edits s a c)"
  by (simp add: may_read_def reads_unasked_def)

lemma read_own_complete:
  assumes m: "memo_faithful (cs_auth s) (ha_verified a) m" and answers: "rights_answer s a"
    and run: "read_own s a False m = (x, m')"
  shows "(reads_own s a None \<longrightarrow> ow_app x) \<and> (reads_own s a (Some c) \<longrightarrow> c \<in> set (ow_entities x))"
proof -
  obtain y m1 where r: "own_access_of (cs_auth s) (cs_authors s) a False m = (Inr y, m1)"
    using answers m by (metis rights_answer_def prod.collapse)
  then have x: "x = y" using run by (simp add: read_own_def)
  note own = own_run [OF r m]
  have "c \<in> set (ow_entities y)" if "authored_channel (cs_authors s) a [channel_content_edit_own, channel_content_write, channel_content_create] c"
  proof -
    have "\<exists>sr ids. cs_authors s = Some sr \<and> content_author_entities sr a False = Inr ids \<and> c \<in> set ids"
      using that unfolding content_author_entities_def authority_exact [symmetric] by simp
    moreover have "http_member a" using that by (simp add: authored_channel_def)
    ultimately show ?thesis using own by auto
  qed
  then show ?thesis using own by (auto simp: reads_own_def x)
qed

lemma asked_false: "map_of (foldl (\<lambda>m g. AList.update g (flag got g) m) acc ids) g = Some False \<Longrightarrow>
    g \<in> set ids \<and> \<not> flag got g \<or> map_of acc g = Some False"
  by (induction ids arbitrary: acc) (fastforce simp: update_conv' split: if_splits)+

lemma viewer_for_complete:
  assumes run: "viewer_for s opt cm em = (Inr v, cm', em')"
    and m: "memo_faithful (cs_auth s) (ha_verified (vo_actor opt)) cm" and k: "named_channels (cs_channels s)"
    and answers: "rights_answer s (vo_actor opt)"
  shows "viewer_complete s v \<and> (reads_unasked s (vo_actor opt) r \<longrightarrow> vw_staff v \<or> privileged v r) \<and>
    (edits s (vo_actor opt) g \<and> g \<in> set (vo_editors opt) \<longrightarrow> vw_staff v \<or> g \<in> set (vw_editors v))"
proof -
  let ?a = "vo_actor opt" and ?au = "cs_auth s"
  obtain rights e1 m1 where 1: "staff_rights_of ?au ?a cm = ((rights, e1), m1)" by (metis prod.exhaust)
  have "e1 = None" using answers m 1 by (auto simp: rights_answer_def)
  note staff = staff_run [OF 1 [unfolded this] m]
  let ?no = "\<lambda>editing m. if sr_write rights then (no_access, m) else read_own s ?a editing m"
  obtain own m2 where 2: "?no False m1 = (own, m2)" by force
  obtain ownw m3 where 3: "?no True m2 = (ownw, m3)" by force
  obtain f fe qs em1 where 4: "gate_filter (cs_gate s) (actor.truncate ?a) em = (f, fe, qs, em1)" by (metis prod.exhaust)
  let ?staff = "sr_view rights \<or> sr_write rights"
  let ?ask = "vo_editors opt \<noteq> [] \<and> \<not> ?staff"
  obtain got m4 where 5: "(if ?ask then read_editors ?au (cs_channels s) ?a (vo_editors opt) m3 else ([], m3)) = (got, m4)" by force
  have m1: "memo_faithful ?au (ha_verified ?a) m1" using staff by blast
  have m2: "memo_faithful ?au (ha_verified ?a) m2" using 2 read_own_run [OF _ m1] m1 by (auto split: if_splits)
  have m3: "memo_faithful ?au (ha_verified ?a) m3" using 3 read_own_run [OF _ m2] m2 by (auto split: if_splits)
  have got: "flag got g" if "g \<in> set (vo_editors opt)" "edits s ?a g" "?ask" for g
    using 5 that read_editors_complete [OF _ m3 k answers that(1,2)] by auto
  have v: "vw_actor v = ?a" "vw_own_read v = own" "vw_staff v = ?staff"
      "vw_editors v = (if ?ask then sort (filter (flag got) (vo_editors opt)) else [])"
      "vw_asked v = (if ?ask then Some (foldl (\<lambda>m g. AList.update g (flag got g) m) [] (vo_editors opt)) else None)"
    using run unfolding viewer_for_def Let_def 1 prod.case 2 3 4 5
    by (auto simp: Let_def 5 split: if_splits sum.splits)
  have "viewer_complete s v"
    unfolding viewer_complete_def v using got by (auto split: if_splits dest!: asked_false)
  moreover have "vw_staff v \<or> privileged v r" if "reads_unasked s ?a r"
  proof (cases ?staff)
    case False
    then have "read_own s ?a False m1 = (own, m2)" using 2 by simp
    note own = read_own_complete [OF m1 answers this]
    have "http_account ?a \<noteq> [] \<and> vr_author r = http_account ?a \<and> reads_own s ?a (vr_item_owner r)"
      using that staff False by (auto simp: reads_unasked_def)
    then show ?thesis using own by (auto simp: privileged_def v split: option.splits)
  qed (simp add: v)
  moreover have "vw_staff v \<or> g \<in> set (vw_editors v)" if "edits s ?a g" "g \<in> set (vo_editors opt)"
    using got [OF that(2,1)] that(2) by (cases "vo_editors opt") (auto simp: v)
  ultimately show ?thesis by blast
qed

lemma direct_read_complete:
  assumes v0: "viewer_for s opt cm0 em0 = (Inr v0, cm, em)" and v: "v = v0\<lparr>vw_management := management\<rparr>"
    and run: "viewer_decide s (Inr t) v ids every cm em = (Inr views, cm', em')" and i: "(i, iv) \<in> set views"
    and current: "facets_current t" and k: "named_channels (cs_channels s)"
    and m: "memo_faithful (cs_auth s) (ha_verified (vo_actor opt)) cm0"
    and g: "gate_ok (cs_gate s)" and a: "a = actor.truncate (vo_actor opt)"
    and b: "truthful (cs_gate s) (account_subject a) owned" and em: "memo_true (cs_gate s) a owned em0"
    and answers: "rights_answer s (vo_actor opt)" and r: "r \<in> set (seen_rows v t ids)" "vr_content r = i"
  shows "reads_unasked s (vo_actor opt) r \<or> (\<exists>c \<in> set (vo_editors opt). vr_owner r = Some c \<and> edits s (vo_actor opt) c) \<Longrightarrow>
      iv_read_restricted iv"
    and "may_read s (vo_actor opt) r \<Longrightarrow> iv_read_restricted iv \<or> \<not> every \<and> r \<in> set (iv_versions iv) \<and>
      (\<exists>d. map_of (iv_decisions iv) (vr_version r) = Some d \<and> cd_allowed d)"
proof -
  let ?a = "vo_actor opt"
  note vs = viewer_for_sound [OF v0 m k g a b em]
  have actor: "vw_actor v = ?a" and ne: "[] \<notin> set (vw_editors v)"
    using vs by (auto simp: v viewer_sound_def viewer_true_def)
  have complete: "viewer_complete s v" using viewer_for_complete [OF v0 m k answers] by (simp add: viewer_complete_def v)
  have priv: "privileged v0 r = privileged v r" by (simp add: privileged_def v split: option.split)
  obtain rows ds em1 editors v' where read: "read_of v t ids rows"
    and ds: "gate_decides s v (map item_of (live_rows v rows)) em = (ds, em1)"
    and eds: "viewer_editors s v (asked_owners v every rows (zip (map fst (live_rows v rows)) ds)) cm = (editors, v', cm')"
    and ids: "i \<in> set (content_ids rows)"
    and iv: "iv = view_of v rows (zip (map fst (live_rows v rows)) ds) editors i"
    by (rule decide_run [OF run i current])
  let ?z = "zip (map fst (live_rows v rows)) ds"
  have restricted: "iv_read_restricted iv \<longleftrightarrow> known_reader v rows i \<or> flag editors (owner_of rows i)"
    by (simp add: iv view_of_def Let_def)
  have "r \<in> set (map fst rows)" using r read by (simp add: read_of_def)
  then obtain x where x: "x \<in> set rows" "fst x = r" by auto
  have known: "known_reader v rows i \<longleftrightarrow> vw_staff v \<or> privileged v r"
    using known_privileged [OF read x(1) ne] x(2) r(2) by simp
  show unasked: "iv_read_restricted iv"
    if "reads_unasked s ?a r \<or> (\<exists>c \<in> set (vo_editors opt). vr_owner r = Some c \<and> edits s ?a c)"
    using that viewer_for_complete [OF v0 m k answers, of r] priv
    unfolding restricted known by (auto simp: v privileged_def)
  show "iv_read_restricted iv \<or> \<not> every \<and> r \<in> set (iv_versions iv) \<and>
      (\<exists>d. map_of (iv_decisions iv) (vr_version r) = Some d \<and> cd_allowed d)" if may: "may_read s ?a r"
  proof (cases "iv_read_restricted iv")
    case False
    obtain c where c: "vr_owner r = Some c" "edits s ?a c"
      using may unasked False unfolding may_read_cases by (auto split: option.splits)
    have "c \<noteq> []" using c(2) k by (auto simp: edits_def named_channels_def)
    moreover have owner: "owner_of rows i = c"
      using owner_row [OF read x(1)] x(2) r(2) c by (simp add: vr_owner_text_def)
    ultimately have "c \<notin> set (asked_owners v every rows ?z)"
      using viewer_editors_complete [OF eds _ k complete _ _ \<open>c \<noteq> []\<close>] c(2) vs answers actor False
      unfolding restricted by auto
    then have unasked: "\<not> every" "list_all (\<lambda>(q, d). vr_content q = i \<longrightarrow> dc_allowed d) ?z" "\<forall>y \<in> set (rows_of rows i). open_row v (fst y)"
      using ids owner \<open>c \<noteq> []\<close> False unfolding restricted asked_owners_def by (force simp: list_ex_iff list_all_iff)+
    moreover have "x \<in> set (rows_of rows i)" using x r(2) by (simp add: rows_of_def)
    ultimately have "open_row v r" using x(2) by blast
    then have seen: "r \<in> set (iv_versions iv)"
      using direct_read(2) [OF v0 v run i current k m g a b em, of r] r False by simp
    have "list_all2 (\<lambda>it d. True) (map item_of (live_rows v rows)) ds"
      using gate_decides_run [OF ds g _ b] vs a actor by (auto simp: list_all2_conv_all_nth)
    note live = zip_live_rows [OF this]
    have "x \<in> set (live_rows v rows)"
      using x \<open>open_row v r\<close> False r(2) by (simp add: live_rows_def restricted)
    then have "r \<in> fst ` set ?z" unfolding live using x(2) by blast
    then obtain d where d: "(r, d) \<in> set ?z" by auto
    have "length (map fst (live_rows v rows)) = length ds"
      using \<open>list_all2 _ (map item_of (live_rows v rows)) ds\<close> by (auto dest: list_all2_lengthD)
    then have "distinct (map (vr_version \<circ> fst) ?z)"
      using live_distinct [OF read] by (simp flip: map_map add: map_fst_zip)
    then have "distinct (map (vr_version \<circ> fst) (filter (\<lambda>(r, _). vr_content r = i) ?z))" by (rule distinct_map_filter)
    then have "map_of (iv_decisions iv) (vr_version r) = Some (cat_decision_of d)"
      using False d r(2) map_of_versions [of r d "filter (\<lambda>(r, _). vr_content r = i) ?z" cat_decision_of]
      by (simp add: iv view_of_def Let_def)
    moreover have "cd_allowed (cat_decision_of d)"
      using unasked(2) d r(2) by (auto simp: list_all_iff cat_decision_of_def)
    ultimately show ?thesis using seen unasked(1) by blast
  qed simp
qed

text \<open>
  C5: a direct read decides exactly by the rule. Whoever is shown an item whatever its state is
  staff, its author with a current right there, or an editor of its channel, and sees all its rows
  in the domain, open. Conversely, while the checks of the viewer's rights are answered, staff, the
  author and the editors of the channels the viewer was asked about are shown the item so, and any
  other editor of its channel is too, unless a read that does not ask for every item's editors
  found every row of it open to them already. Anyone else sees exactly the rows in the domain that
  are live and not deleted, of items whose channel is ready, and opens a version exactly when its
  effective rule opens to them, unless the decision says it is unknown, which is closed.
\<close>

theorem direct_reads_exact:
  assumes v0: "viewer_for s opt cm0 em0 = (Inr v0, cm, em)" and v: "v = v0\<lparr>vw_management := management\<rparr>"
    and run: "viewer_decide s (Inr t) v ids every cm em = (Inr views, cm', em')" and i: "(i, iv) \<in> set views"
    and current: "facets_current t" and k: "named_channels (cs_channels s)"
    and m: "memo_faithful (cs_auth s) (ha_verified (vo_actor opt)) cm0"
    and g: "gate_ok (cs_gate s)" and a: "a = actor.truncate (vo_actor opt)"
    and b: "truthful (cs_gate s) (account_subject a) owned" and em: "memo_true (cs_gate s) a owned em0"
  shows "(iv_read_restricted iv \<longrightarrow> (\<forall>r \<in> set (seen_rows v t ids). vr_content r = i \<longrightarrow> may_read s (vo_actor opt) r)) \<and>
    (rights_answer s (vo_actor opt) \<and> r \<in> set (seen_rows v t ids) \<and> vr_content r = i \<longrightarrow>
       (reads_unasked s (vo_actor opt) r \<or> (\<exists>c \<in> set (vo_editors opt). vr_owner r = Some c \<and> edits s (vo_actor opt) c) \<longrightarrow>
          iv_read_restricted iv) \<and>
       (may_read s (vo_actor opt) r \<longrightarrow> iv_read_restricted iv \<or> \<not> every \<and> r \<in> set (iv_versions iv) \<and>
          (\<exists>d. map_of (iv_decisions iv) (vr_version r) = Some d \<and> cd_allowed d))) \<and>
    (r \<in> set (iv_versions iv) \<longleftrightarrow> r \<in> set (seen_rows v t ids) \<and> vr_content r = i \<and>
       (if iv_read_restricted iv then management \<or> in_scope v r else open_row v r)) \<and>
    (r \<in> set (iv_versions iv) \<longrightarrow> (\<exists>d rule. map_of (iv_decisions iv) (vr_version r) = Some d \<and> read_rule s r rule \<and>
       (if iv_read_restricted iv then d = allow_all
        else if cd_unknown d then \<not> cd_allowed d
        else cd_allowed d = may_open (cs_gate s) a owned (item_of (r, rule)) (cs_gate_now s))))"
  by (rule conjI, rule direct_read(1) [OF assms], rule conjI, use direct_read_complete [OF assms] in blast,
      rule conjI, rule direct_read(2) [OF assms], rule direct_read(3) [OF assms])

section \<open>Lists and direct reads\<close>

lemma viewer_for_policies:
  assumes "viewer_for s opt cm em = (Inr v, cm', em')"
  shows "distinct (map fst (vw_policies v)) \<and> \<not> vw_management v"
proof -
  obtain d where "resolve_policies (cs_entities s) d (applies_to (filters (cs_config s))) = Inr (vw_policies v)"
    and m: "\<not> vw_management v"
    using assms unfolding viewer_for_def Let_def
    by (auto split: if_splits sum.splits prod.splits)
  then have "map fst (vw_policies v) = policy_targets d (applies_to (filters (cs_config s)))"
    by (auto simp: resolve_policies_def bindr_Inr_iff comp_def dest!: sym [of _ "vw_policies v"])
  then show ?thesis using m by (simp add: policy_targets_def)
qed

lemma without_filters_simps [simp]:
  "privileged (without_content_filters v) r = privileged v r" "sql_live (without_content_filters v) r = sql_live v r"
  "in_scope (without_content_filters v) r = in_scope v r" "vw_hidden (without_content_filters v) = []"
  "vw_mode (without_content_filters v) = vw_mode v" "vw_staff (without_content_filters v) = vw_staff v"
  by (simp_all add: without_content_filters_def privileged_def sql_live_def in_scope_def split: option.split)

lemma no_hidden [simp]: "hidden_admits (hidden_sql []) kind entities"
  by (simp add: hidden_admits_def hidden_sql_def)

lemma shown_iff:
  assumes "distinct (map fst (vw_policies v))" "\<not> vw_management v"
  shows "shown_rows v pg now alias r \<longleftrightarrow> in_scope v r \<and> channel_ready r \<and>
    (if vw_staff v then hidden_admits (hidden_sql (vw_hidden v)) (vr_kind r) (vr_entities r)
     else privileged v r \<or> \<not> vr_deleted r \<and> sql_live v r \<and>
       hidden_admits (hidden_sql (vw_hidden v)) (vr_kind r) (vr_entities r) \<and>
       (vw_mode v = hide_mode \<longrightarrow> row_opens v pg now alias r))"
  unfolding shown_rows_def listed_rows_def Let_def policy_sql_rows [OF assms(1)] in_scope_def
  using assms(2) by auto

lemma lists_match:
  assumes v: "viewer_for s opt cm0 em0 = (Inr v, cm, em)"
    and run: "viewer_decide s (Inr t) v ids every cm em = (Inr views, cm', em')" and i: "(i, iv) \<in> set views"
    and current: "facets_current t" and k: "named_channels (cs_channels s)"
    and m: "memo_faithful (cs_auth s) (ha_verified (vo_actor opt)) cm0"
    and g: "gate_ok (cs_gate s)" and a: "a = actor.truncate (vo_actor opt)"
    and b: "truthful (cs_gate s) (account_subject a) owned" and em: "memo_true (cs_gate s) a owned em0"
    and r: "r \<in> set t" "vr_content r = i"
  shows "listed v pg now tbl r \<or> shown_rows v pg now tbl r \<Longrightarrow> r \<in> set (iv_versions iv)"
    and "r \<in> set (iv_versions iv) \<Longrightarrow> vw_mode v = lock_mode \<Longrightarrow>
      shown_rows (without_content_filters v) pg now tbl r \<or>
      (\<exists>c. vr_owner r = Some c \<and> edits s (vo_actor opt) c \<and> c \<notin> set (vw_editors v) \<and>
         (rights_answer s (vo_actor opt) \<longrightarrow> c \<notin> set (vo_editors opt)))"
proof -
  note vp = viewer_for_policies [OF v]
  have vm: "v = v\<lparr>vw_management := False\<rparr>" using vp by simp
  note sound = viewer_for_sound [OF v m k g a b em]
  obtain rows ds em1 editors v' where read: "read_of v t ids rows" and ids: "i \<in> set (content_ids rows)"
    and eds: "viewer_editors s v (asked_owners v every rows (zip (map fst (live_rows v rows)) ds)) cm = (editors, v', cm')"
    and iv: "iv = view_of v rows (zip (map fst (live_rows v rows)) ds) editors i"
    by (rule decide_run [OF run i current])
  have vers: "r \<in> set (iv_versions iv) \<longleftrightarrow> r \<in> set (seen_rows v t ids) \<and>
       (if iv_read_restricted iv then in_scope v r else open_row v r)"
    using direct_read(2) [OF v vm run i current k m g a b em, of r] r(2) by simp
  obtain y where y: "y \<in> set rows" "vr_content (fst y) = i" using ids by (auto simp: content_ids_def)
  then have "fst y \<in> set (seen_rows v t ids)" using read unfolding read_of_def by (metis image_eqI list.set_map)
  then have "i \<in> set ids" using y by (simp add: seen_rows_def)
  then have seen: "r \<in> set (seen_rows v t ids) \<longleftrightarrow> channel_ready r" using r vp by (simp add: seen_rows_def)
  have restricted: "iv_read_restricted iv \<longleftrightarrow> known_reader v rows i \<or> flag editors (owner_of rows i)"
    by (simp add: iv view_of_def Let_def)
  have ne: "[] \<notin> set (vw_editors v)" using sound by (auto simp: viewer_sound_def viewer_true_def)
  have row: "(known_reader v rows i \<longleftrightarrow> vw_staff v \<or> privileged v r) \<and> (vw_staff v \<or> privileged v r \<longrightarrow> iv_read_restricted iv) \<and>
      (open_row v r \<longleftrightarrow> \<not> vr_deleted r \<and> sql_live v r \<and> in_scope v r)" if "channel_ready r"
  proof -
    have "r \<in> set (map fst rows)" using read that seen by (simp add: read_of_def)
    then obtain x where x: "x \<in> set rows" "fst x = r" by auto
    then show ?thesis
      using known_privileged [OF read x(1) ne] open_row_sql [OF read x(1)] r(2) unfolding restricted by auto
  qed
  have shown: "shown_rows v pg now tbl r \<Longrightarrow> r \<in> set (iv_versions iv)"
    unfolding shown_iff [OF conjunct1 [OF vp] conjunct2 [OF vp]] vers seen using row by auto
  moreover have "listed v pg now tbl r \<Longrightarrow> shown_rows v pg now tbl r"
    using vp by (auto simp: listed_def shown_rows_def listed_rows_def Let_def)
  ultimately show "listed v pg now tbl r \<or> shown_rows v pg now tbl r \<Longrightarrow> r \<in> set (iv_versions iv)" by blast
  have asked: "\<exists>c. vr_owner r = Some c \<and> edits s (vo_actor opt) c" if "flag editors (owner_of rows i)" "\<not> vw_staff v" "channel_ready r"
  proof -
    have "r \<in> set (map fst rows)" using read that(3) seen by (simp add: read_of_def)
    then obtain x where x: "x \<in> set rows" "fst x = r" by auto
    then have "owner_of rows i = vr_owner_text r" using owner_row [OF read x(1)] r(2) by simp
    moreover have "owner_of rows i \<noteq> [] \<and> (vw_staff_write v \<or> edits s (vo_actor opt) (owner_of rows i))"
      using viewer_editors_run [OF eds _ k, of "owner_of rows i"] sound that(1) by (auto simp: viewer_sound_def)
    ultimately show ?thesis
      using sound that(2) by (auto simp: viewer_sound_def vr_owner_text_def split: option.splits)
  qed
  have found: "c \<in> set (vw_editors v)" if "rights_answer s (vo_actor opt)" "c \<in> set (vo_editors opt)" "edits s (vo_actor opt) c"
      "\<not> vw_staff v" for c
    using viewer_for_complete [OF v m k that(1), of r c] that by blast
  show "shown_rows (without_content_filters v) pg now tbl r \<or>
      (\<exists>c. vr_owner r = Some c \<and> edits s (vo_actor opt) c \<and> c \<notin> set (vw_editors v) \<and>
         (rights_answer s (vo_actor opt) \<longrightarrow> c \<notin> set (vo_editors opt)))"
    if in_iv: "r \<in> set (iv_versions iv)" and mode: "vw_mode v = lock_mode"
  proof (cases "iv_read_restricted iv \<longrightarrow> vw_staff v \<or> privileged v r")
    case True
    have w: "distinct (map fst (vw_policies (without_content_filters v)))" "\<not> vw_management (without_content_filters v)"
      using vp by (simp_all add: without_content_filters_def)
    have "lock_mode \<noteq> hide_mode" by (simp add: lock_mode_def hide_mode_def)
    then have "shown_rows (without_content_filters v) pg now tbl r"
      using in_iv mode True row unfolding shown_iff [OF w] vers seen by (auto split: if_splits)
    then show ?thesis by blast
  next
    case False
    have ready: "channel_ready r" using in_iv unfolding vers seen by blast
    have "\<not> known_reader v rows i" using row ready False by blast
    then obtain c where c: "vr_owner r = Some c" "edits s (vo_actor opt) c"
      using asked ready False unfolding restricted by blast
    moreover have "c \<notin> set (vw_editors v)" using False c(1) by (auto simp: privileged_def)
    ultimately show ?thesis using found False by blast
  qed
qed

text \<open>
  C6: the SQL of lists and the Go of direct reads are one rule. Every version a list or a
  content page shows a viewer is among the versions a direct read of its item shows them,
  whatever the mode, the language and the filters. Conversely, in lock mode and without the
  optional filters a content page shows every version a direct read shows, with one exception:
  versions of a channel the viewer edits and the list was not told they edit. A list does not ask
  who edits a channel; with the channel among those the viewer was made for, and its rights
  answered, there is no exception.
\<close>

theorem lists_match_reads:
  assumes v: "viewer_for s opt cm0 em0 = (Inr v, cm, em)"
    and run: "viewer_decide s (Inr t) v ids every cm em = (Inr views, cm', em')" and i: "(i, iv) \<in> set views"
    and current: "facets_current t" and k: "named_channels (cs_channels s)"
    and m: "memo_faithful (cs_auth s) (ha_verified (vo_actor opt)) cm0"
    and g: "gate_ok (cs_gate s)" and a: "a = actor.truncate (vo_actor opt)"
    and b: "truthful (cs_gate s) (account_subject a) owned" and em: "memo_true (cs_gate s) a owned em0"
    and r: "r \<in> set t" "vr_content r = i"
  shows "(listed v pg now tbl r \<or> shown_rows v pg now tbl r \<longrightarrow> r \<in> set (iv_versions iv)) \<and>
    (r \<in> set (iv_versions iv) \<and> vw_mode v = lock_mode \<longrightarrow>
      shown_rows (without_content_filters v) pg now tbl r \<or>
      (\<exists>c. vr_owner r = Some c \<and> edits s (vo_actor opt) c \<and> c \<notin> set (vw_editors v) \<and>
         (rights_answer s (vo_actor opt) \<longrightarrow> c \<notin> set (vo_editors opt))))"
  using lists_match(1) [OF assms] lists_match(2) [OF assms] by blast

section \<open>A sample store\<close>

definition sample_catalog :: catalog_store where
  "sample_catalog = \<lparr>cs_auth = sample_auth, cs_tenant = ''acme'', cs_gate = sample_gate (sample_billing []), cs_gate_now = 10,
     cs_config = \<lparr>languages = [''en''], tiers = [], token_claims = [], restrictions = [],
       filters = \<lparr>applies_to = [], domains = []\<rparr>, kinds = [], entity_kinds = [], channels_of = None, channel_storage = False\<rparr>,
     cs_unicode = id, cs_now = 10, cs_channels = sample_channels,
     cs_authors = None, cs_entities = (\<lambda>_. Inr []), cs_prefs = (\<lambda>_. Inr None), cs_guest = [], cs_decode = (\<lambda>_. None)\<rparr>"

definition sample_guest :: http_actor where
  "sample_guest = \<lparr>a_id = [], a_account = None, a_kind = SubjectOther [], a_ip = [], a_anonymous = True,
     a_claims = None, ha_invoker = None, ha_verified = NoVerified\<rparr>"

definition sample_view_row :: "string \<Rightarrow> time option \<Rightarrow> view_row" where
  "sample_view_row version live = \<lparr>vr_content = ''i'', vr_version = version, vr_kind = ''post'', vr_live_from = live,
     vr_deleted = False, vr_content_deleted = False, vr_version_deleted = False, vr_languages = [''en''], vr_entities = [],
     vr_owner = Some ''c1'', vr_position = 0, vr_facet = row_of (sample_item public_level), vr_rule = Inr (it_rule (sample_item public_level)),
     vr_override = None, vr_author = ''u2'', vr_item_owner = Some ''c1'',
     vr_home = Some \<lparr>he_kind = ''channel'', he_state = ''active'', he_scope = Some ''s1''\<rparr>\<rparr>"

lemma sample_row_content [simp]: "vr_content (sample_view_row x y) = ''i''"
  by (simp add: sample_view_row_def)

definition sample_rows :: "view_row list" where
  "sample_rows = [sample_view_row ''v1'' (Some 5), sample_view_row ''v2'' None]"

definition sample_options :: viewer_options where
  "sample_options = \<lparr>vo_actor = sample_guest, vo_host = [], vo_language = [], vo_mode = [], vo_editors = [], vo_requested = []\<rparr>"

definition sample_guest_view :: viewer where
  "sample_guest_view = \<lparr>vw_actor = sample_guest, vw_domain = None, vw_language = [], vw_mode = lock_mode, vw_now = 10,
     vw_staff = False, vw_staff_write = False, vw_own_read = no_access, vw_own_write = no_access, vw_management = False,
     vw_filter = anon_filter (cs_gate sample_catalog), vw_policies = [], vw_hidden = [], vw_editors = [], vw_asked = None\<rparr>"

lemma sample_viewer_for:
  "viewer_for sample_catalog sample_options empty_can_memo None = (Inr sample_guest_view, empty_can_memo, None)"
proof -
  have h: "domain_for id (cs_config sample_catalog) [] = None" by code_simp
  have a: "anonymous_viewer (actor.truncate sample_guest)" by code_simp
  have o1: "own_access_of sample_auth None sample_guest b m = (Inr no_access, m)" for b m
    by (cases b) (simp_all add: own_access_of_def http_member_def is_member_def account_id_def person_def sample_guest_def actor.defs)
  show ?thesis
    using h a
    by (simp add: viewer_for_def sample_options_def Let_def sample_catalog_def staff_rights_of_def sample_guest_def
        no_rights_def read_own_def o1 [unfolded sample_guest_def] gate_filter_def resolve_policies_def policy_refs_def zero_domain_def
        policy_targets_def viewer_choices_def http_member_def is_member_def account_id_def person_def actor.defs
        guest_overrides_def hidden_of_def sample_guest_view_def lock_mode_def hide_mode_def)
qed

lemma sample_named: "named_channels (cs_channels sample_catalog)"
  using sample_keyed by (auto simp: named_channels_def sample_catalog_def sample_channels_def)

lemma sample_current: "facets_current sample_rows"
  by (simp add: facets_current_def sample_rows_def sample_view_row_def)

lemma sample_read:
  obtains iv cm em where "viewer_decide sample_catalog (Inr sample_rows) sample_guest_view [''i''] False empty_can_memo None =
     (Inr [(''i'', iv)], cm, em)"
proof -
  let ?rule = "it_rule (sample_item public_level)"
  have k: "kinds (cs_config sample_catalog) = []" by (simp add: sample_catalog_def)
  have "scanned_rules sample_catalog sample_rows =
      Inr [(sample_view_row ''v1'' (Some 5), ?rule), (sample_view_row ''v2'' None, ?rule)]"
    by (simp add: scanned_rules_def sample_rows_def k effective_rule_def sample_view_row_def)
  moreover have "filter (\<lambda>r. vr_content r \<in> set [''i''] \<and> (vw_management sample_guest_view \<and> vw_staff sample_guest_view \<or> channel_ready r))
      sample_rows = sample_rows"
    by (simp add: sample_rows_def sample_view_row_def channel_ready_def)
  moreover have "content_ids [(sample_view_row ''v1'' (Some 5), ?rule), (sample_view_row ''v2'' None, ?rule)] = [''i'']"
    by (simp add: content_ids_def sample_view_row_def)
  ultimately have "\<exists>iv cm em. viewer_decide sample_catalog (Inr sample_rows) sample_guest_view [''i''] False empty_can_memo None =
     (Inr [(''i'', iv)], cm, em)"
    by (simp add: viewer_decide_def Let_def case_prod_beta)
  then show thesis using that by blast
qed

lemma sample_catalog_gate:
  "gate_ok (cs_gate sample_catalog)" "truthful (cs_gate sample_catalog) s {}" "cs_auth sample_catalog = sample_auth"
  using sample_gate_ok sample_truthful [of "[]"] by (simp_all add: sample_catalog_def)

text \<open>An author of the site, who may edit what they created there, and a draft of theirs.\<close>

definition sample_writer :: http_actor where
  "sample_writer = \<lparr>a_id = ''u2'', a_account = None, a_kind = SubjectUser, a_ip = [], a_anonymous = False, a_claims = Some [],
     ha_invoker = None, ha_verified = Wrapped (sample_verified\<lparr>vf_can := Some (\<lambda>_ p. Returns (p = content_edit_own))\<rparr>)\<rparr>"

definition sample_draft :: view_row where
  "sample_draft = (sample_view_row ''v1'' None)\<lparr>vr_owner := None, vr_item_owner := None, vr_home := None\<rparr>"

lemma sample_can:
  assumes "memo_faithful sample_auth (ha_verified sample_writer) m"
  shows "snd (fst (can sample_auth sample_writer p m)) = None"
    and "snd (fst (actor_can sample_writer sc p m)) = None"
  by (simp_all add: can_def is_host_def sample_auth_def root_scope_def actor_can_def memo_can_def sample_writer_def recovered_def
      split: option.split)

lemma sample_rights_answer: "rights_answer sample_catalog sample_writer"
proof -
  let ?au = sample_auth and ?a = sample_writer
  have au: "cs_auth sample_catalog = ?au" "cs_authors sample_catalog = None" "cs_channels sample_catalog = sample_channels"
    by (simp_all add: sample_catalog_def)
  have tbl: "channel_table sample_channels [(''c1'', ''s1'')]" by (simp add: channel_table_def sample_channels_def)
  have "snd (fst (staff_rights_of ?au ?a m)) = None \<and> (\<exists>x. fst (own_access_of ?au None ?a False m) = Inr x) \<and>
      snd (fst (channel_editor ?au ?a scope [channel_content_write] m)) = None"
    if m: "memo_faithful ?au (ha_verified ?a) m" for m scope
  proof -
    obtain w e1 m1 where 1: "can ?au ?a content_write m = ((w, e1), m1)" by (metis prod.exhaust)
    obtain v e2 m2 where 2: "can ?au ?a content_view_restricted m1 = ((v, e2), m2)" by (metis prod.exhaust)
    obtain o1 e3 m3 where 3: "can ?au ?a content_edit_own m = ((o1, e3), m3)" by (metis prod.exhaust)
    obtain o2 e4 m4 where 4: "can ?au ?a content_create m3 = ((o2, e4), m4)" by (metis prod.exhaust)
    have "memo_faithful ?au (ha_verified ?a) m1" "memo_faithful ?au (ha_verified ?a) m3"
      using can_run [OF 1 m] can_run [OF 3 m] by simp_all
    then have "e1 = None" "e2 = None" "e3 = None" "e4 = None"
      using sample_can(1) [of m content_write] sample_can(1) [of m1 content_view_restricted] sample_can(1) [of m content_edit_own]
        sample_can(1) [of m3 content_create] m by (simp_all add: 1 2 3 4)
    moreover have "snd (fst (channel_editor ?au ?a scope [channel_content_write] m)) = None"
      using sample_can(2) [OF m, of "\<lparr>as_authority = ''site'', as_id = scope\<rparr>" channel_content_write]
      by (auto simp: channel_editor_def sample_auth_def root_scope_def split: prod.splits)
    ultimately show ?thesis by (simp add: staff_rights_of_def own_access_of_def 1 2 3 4)
  qed
  then show ?thesis using tbl by (auto simp: rights_answer_def au)
qed

lemma sample_reads_unasked: "reads_unasked sample_catalog sample_writer sample_draft"
  by (simp add: reads_unasked_def sample_draft_def reads_own_def http_account_def account_id_def person_def http_member_def
      is_member_def granted_def is_host_def sample_auth_def root_scope_def sample_writer_def sample_catalog_def actor.defs
      sample_view_row_def content_edit_own_def)

definition sample_writer_options :: viewer_options where
  "sample_writer_options = sample_options\<lparr>vo_actor := sample_writer\<rparr>"

lemma sample_writer_viewer:
  obtains v cm em where "viewer_for sample_catalog sample_writer_options empty_can_memo None = (Inr v, cm, em)"
    "vw_policies v = []" "\<not> vw_management v" "vw_domain v = None"
proof -
  have h: "domain_for id (cs_config sample_catalog) [] = None" by code_simp
  have "viewer_choices sample_catalog sample_writer ps = Inr []" for ps
    by (simp add: viewer_choices_def sample_catalog_def http_member_def is_member_def account_id_def person_def sample_writer_def actor.defs)
  then have "\<exists>v cm em. viewer_for sample_catalog sample_writer_options empty_can_memo None = (Inr v, cm, em) \<and>
      vw_policies v = [] \<and> \<not> vw_management v \<and> vw_domain v = None"
    using h by (simp add: viewer_for_def sample_writer_options_def sample_options_def Let_def sample_catalog_def resolve_policies_def
        policy_refs_def zero_domain_def policy_targets_def lock_mode_def hide_mode_def split: prod.split)
  then show thesis using that by blast
qed

lemma sample_draft_run:
  assumes "\<not> vw_management v"
  obtains iv cm' em' where "viewer_decide sample_catalog (Inr [sample_draft]) v [''i''] False cm em = (Inr [(''i'', iv)], cm', em')"
proof -
  have k: "kinds (cs_config sample_catalog) = []" by (simp add: sample_catalog_def)
  have "scanned_rules sample_catalog [sample_draft] = Inr [(sample_draft, it_rule (sample_item public_level))]"
    by (simp add: scanned_rules_def k effective_rule_def sample_draft_def sample_view_row_def)
  moreover have "vr_content sample_draft = ''i''" "channel_ready sample_draft"
    by (simp_all add: sample_draft_def channel_ready_def)
  ultimately have "\<exists>iv cm' em'. viewer_decide sample_catalog (Inr [sample_draft]) v [''i''] False cm em = (Inr [(''i'', iv)], cm', em')"
    using assms by (simp add: viewer_decide_def Let_def content_ids_def case_prod_beta)
  then show thesis using that by blast
qed

text \<open>
  A guest reads the live public version and not the draft beside it; the author of a draft reads
  it, open to them.
\<close>

theorem direct_reads_exact_witness:
  "(\<exists>iv cm em. viewer_decide sample_catalog (Inr sample_rows) sample_guest_view [''i''] False empty_can_memo None =
     (Inr [(''i'', iv)], cm, em) \<and>
     \<not> iv_read_restricted iv \<and> set (iv_versions iv) = {sample_view_row ''v1'' (Some 5)}) \<and>
   (\<exists>v cm em iv cm' em'. viewer_for sample_catalog sample_writer_options empty_can_memo None = (Inr v, cm, em) \<and>
     viewer_decide sample_catalog (Inr [sample_draft]) v [''i''] False cm em = (Inr [(''i'', iv)], cm', em') \<and>
     iv_read_restricted iv \<and> sample_draft \<in> set (iv_versions iv) \<and>
     map_of (iv_decisions iv) ''v1'' = Some allow_all)"
proof (rule conjI)
  obtain iv cm em where run: "viewer_decide sample_catalog (Inr sample_rows) sample_guest_view [''i''] False empty_can_memo None =
     (Inr [(''i'', iv)], cm, em)" by (rule sample_read)
  have v: "sample_guest_view = sample_guest_view\<lparr>vw_management := False\<rparr>" by (simp add: sample_guest_view_def)
  have "r \<in> set (iv_versions iv) \<longleftrightarrow> r \<in> set (seen_rows sample_guest_view sample_rows [''i'']) \<and> vr_content r = ''i'' \<and>
       (if iv_read_restricted iv then False \<or> in_scope sample_guest_view r else open_row sample_guest_view r)" for r
    by (rule direct_reads_exact [where owned = "{}", THEN conjunct2, THEN conjunct2, THEN conjunct1, OF sample_viewer_for v run _ sample_current sample_named _ _ refl])
       (simp_all add: sample_catalog_gate)
  moreover have seen: "set (seen_rows sample_guest_view sample_rows [''i'']) = set sample_rows"
    by (auto simp: seen_rows_def sample_rows_def sample_view_row_def channel_ready_def)
  moreover have "open_row sample_guest_view (sample_view_row ''v1'' (Some 5))" "\<not> open_row sample_guest_view (sample_view_row ''v2'' None)"
    by (simp_all add: sample_view_row_def open_row_def row_live_def in_scope_def sample_guest_view_def policies_allow_def)
  moreover have "\<not> iv_read_restricted iv"
  proof
    assume "iv_read_restricted iv"
    moreover have "iv_read_restricted iv \<longrightarrow> (\<forall>r \<in> set (seen_rows sample_guest_view sample_rows [''i'']).
        vr_content r = ''i'' \<longrightarrow> may_read sample_catalog (vo_actor sample_options) r)"
      by (rule direct_reads_exact [where owned = "{}", THEN conjunct1, OF sample_viewer_for v run _ sample_current sample_named _ _ refl])
         (simp_all add: sample_catalog_gate)
    ultimately have "may_read sample_catalog sample_guest (sample_view_row ''v1'' (Some 5))"
      unfolding seen by (simp add: sample_rows_def sample_options_def)
    then show False
      by (simp add: may_read_def edits_def real_actor_def sample_guest_def http_account_def account_id_def person_def actor.defs
          sample_view_row_def)
  qed
  ultimately have "\<not> iv_read_restricted iv \<and> set (iv_versions iv) = {sample_view_row ''v1'' (Some 5)}"
    unfolding sample_rows_def set_eq_iff by auto
  with run show "\<exists>iv cm em. viewer_decide sample_catalog (Inr sample_rows) sample_guest_view [''i''] False empty_can_memo None =
     (Inr [(''i'', iv)], cm, em) \<and> \<not> iv_read_restricted iv \<and> set (iv_versions iv) = {sample_view_row ''v1'' (Some 5)}"
    by blast
next
  obtain v cm em where vf: "viewer_for sample_catalog sample_writer_options empty_can_memo None = (Inr v, cm, em)"
    and vp: "vw_policies v = []" "\<not> vw_management v" "vw_domain v = None" by (rule sample_writer_viewer)
  obtain iv cm' em' where run: "viewer_decide sample_catalog (Inr [sample_draft]) v [''i''] False cm em = (Inr [(''i'', iv)], cm', em')"
    by (rule sample_draft_run [OF vp(2)])
  have v: "v = v\<lparr>vw_management := False\<rparr>" using vp(2) by simp
  have w: "vo_actor sample_writer_options = sample_writer" by (simp add: sample_writer_options_def)
  have seen: "seen_rows v [sample_draft] [''i''] = [sample_draft]"
    using vp(2) by (simp add: seen_rows_def sample_draft_def channel_ready_def)
  have current: "facets_current [sample_draft]" by (simp add: facets_current_def sample_draft_def sample_view_row_def)
  note reads = direct_reads_exact [where owned = "{}" and i = "''i''" and iv = iv and r = sample_draft,
      OF vf v run _ current sample_named _ _ refl]
  have restricted: "iv_read_restricted iv"
    by (rule reads [THEN conjunct2, THEN conjunct1, THEN mp, THEN conjunct1, THEN mp])
       (simp_all add: sample_catalog_gate seen w sample_rights_answer sample_reads_unasked, simp add: sample_draft_def)
  have "in_scope v sample_draft" by (simp add: in_scope_def policies_allow_def vp)
  then have draft: "sample_draft \<in> set (iv_versions iv)"
    by (subst reads [THEN conjunct2, THEN conjunct2, THEN conjunct1])
       (simp_all add: sample_catalog_gate seen restricted, simp add: sample_draft_def)
  have "\<exists>d rule. map_of (iv_decisions iv) (vr_version sample_draft) = Some d \<and> read_rule sample_catalog sample_draft rule \<and>
       (if iv_read_restricted iv then d = allow_all
        else if cd_unknown d then \<not> cd_allowed d
        else cd_allowed d = may_open (cs_gate sample_catalog) (actor.truncate (vo_actor sample_writer_options)) {}
          (item_of (sample_draft, rule)) (cs_gate_now sample_catalog))"
    by (rule reads [THEN conjunct2, THEN conjunct2, THEN conjunct2, THEN mp]) (simp_all add: sample_catalog_gate draft)
  then have "map_of (iv_decisions iv) ''v1'' = Some allow_all"
    using restricted by (auto simp: sample_draft_def sample_view_row_def)
  with vf run restricted draft show "\<exists>v cm em iv cm' em'. viewer_for sample_catalog sample_writer_options empty_can_memo None = (Inr v, cm, em) \<and>
     viewer_decide sample_catalog (Inr [sample_draft]) v [''i''] False cm em = (Inr [(''i'', iv)], cm', em') \<and>
     iv_read_restricted iv \<and> sample_draft \<in> set (iv_versions iv) \<and>
     map_of (iv_decisions iv) ''v1'' = Some allow_all" by blast
qed

theorem lists_match_reads_witness:
  "\<exists>iv cm em. viewer_decide sample_catalog (Inr sample_rows) sample_guest_view [''i''] False empty_can_memo None =
     (Inr [(''i'', iv)], cm, em) \<and> listed sample_guest_view id 10 ''f'' (sample_view_row ''v1'' (Some 5)) \<and>
     sample_view_row ''v1'' (Some 5) \<in> set (iv_versions iv)"
proof -
  obtain iv cm em where run: "viewer_decide sample_catalog (Inr sample_rows) sample_guest_view [''i''] False empty_can_memo None =
     (Inr [(''i'', iv)], cm, em)" by (rule sample_read)
  have l: "listed sample_guest_view id 10 ''f'' (sample_view_row ''v1'' (Some 5))"
    by (simp add: listed_def listed_rows_def sample_guest_view_def sample_view_row_def policies_sql_def policy_admits_def
        channel_ready_def sql_live_def lock_mode_def hide_mode_def Let_def)
  have "sample_view_row ''v1'' (Some 5) \<in> set (iv_versions iv)"
    by (rule lists_match_reads [where owned = "{}" and pg = id and now = 10 and tbl = "''f''", THEN conjunct1, THEN mp, OF sample_viewer_for run _ sample_current sample_named _ _ refl])
       (use l in \<open>simp_all add: sample_catalog_gate sample_rows_def\<close>)
  with run l show ?thesis by blast
qed


end
