(* ===== verification/Http_Routes.thy ===== *)
theory Http_Routes
  imports Http_Gate
begin

text \<open>
  Package \<open>internal/httpapi\<close>: the error codes, the table of routes every module registers, and
  the match of a request against it. A reply, a query parameter and a request body are counted,
  not modelled; what an error code means to a developer is left out.
\<close>

section \<open>Error codes\<close>

record error_code =
  ec_code :: string
  ec_status :: int
  ec_message :: string

definition code_invalid_request :: string where "code_invalid_request = ''invalid_request''"
definition code_unauthorized :: string where "code_unauthorized = ''unauthorized''"
definition code_forbidden :: string where "code_forbidden = ''forbidden''"
definition code_not_found :: string where "code_not_found = ''not_found''"
definition code_conflict :: string where "code_conflict = ''conflict''"
definition code_rate_limited :: string where "code_rate_limited = ''rate_limited''"
definition code_unavailable :: string where "code_unavailable = ''unavailable''"
definition code_upgrade_required :: string where "code_upgrade_required = ''upgrade_required''"
definition code_internal_error :: string where "code_internal_error = ''internal_error''"
definition code_tenant_mismatch :: string where "code_tenant_mismatch = ''tenant_mismatch''"
definition code_limit_reached :: string where "code_limit_reached = ''limit_reached''"
definition code_event_cursor_expired :: string where "code_event_cursor_expired = ''event_cursor_expired''"

definition error_codes :: "error_code list" where
  "error_codes = [
     \<lparr>ec_code = ''event_cursor_expired'', ec_status = 410, ec_message = ''Event history expired; resync current state.''\<rparr>,
     \<lparr>ec_code = ''invalid_request'', ec_status = 400, ec_message = ''The request is invalid.''\<rparr>,
     \<lparr>ec_code = ''unauthorized'', ec_status = 401, ec_message = ''Sign in to do this.''\<rparr>,
     \<lparr>ec_code = ''forbidden'', ec_status = 403, ec_message = ''You may not do this.''\<rparr>,
     \<lparr>ec_code = ''download_unavailable'', ec_status = 403, ec_message = ''This isn't available to download right now.''\<rparr>,
     \<lparr>ec_code = ''comment_banned'', ec_status = 403, ec_message = ''You are banned from commenting here.''\<rparr>,
     \<lparr>ec_code = ''comments_closed'', ec_status = 403, ec_message = ''Comments are closed here.''\<rparr>,
     \<lparr>ec_code = ''comments_locked'', ec_status = 403, ec_message = ''Open the content to see and write its comments.''\<rparr>,
     \<lparr>ec_code = ''comment_moderated'', ec_status = 403, ec_message = ''A held or rejected comment can't be edited.''\<rparr>,
     \<lparr>ec_code = ''duplicate_comment'', ec_status = 422, ec_message = ''Duplicate comment.''\<rparr>,
     \<lparr>ec_code = ''comment_too_long'', ec_status = 422, ec_message = ''The comment is too long.''\<rparr>,
     \<lparr>ec_code = ''not_found'', ec_status = 404, ec_message = ''Not found.''\<rparr>,
     \<lparr>ec_code = ''conflict'', ec_status = 409, ec_message = ''This changed meanwhile or is already taken; reload and try again.''\<rparr>,
     \<lparr>ec_code = ''not_ready'', ec_status = 409, ec_message = ''Files are still processing; publish when they're done.''\<rparr>,
     \<lparr>ec_code = ''incomplete'', ec_status = 409, ec_message = ''The upload is missing parts.''\<rparr>,
     \<lparr>ec_code = ''not_joinable'', ec_status = 409, ec_message = ''This group isn't open to join right now.''\<rparr>,
     \<lparr>ec_code = ''limit_reached'', ec_status = 409, ec_message = ''You already have as many of these as the site allows.''\<rparr>,
     \<lparr>ec_code = ''no_download'', ec_status = 409, ec_message = ''This version has nothing to download.''\<rparr>,
     \<lparr>ec_code = ''not_uploaded'', ec_status = 409, ec_message = ''A file did not finish uploading; upload it again.''\<rparr>,
     \<lparr>ec_code = ''too_many_files'', ec_status = 409, ec_message = ''Too many files.''\<rparr>,
     \<lparr>ec_code = ''gone'', ec_status = 410, ec_message = ''This content was removed.''\<rparr>,
     \<lparr>ec_code = ''too_large'', ec_status = 413, ec_message = ''The file is too large.''\<rparr>,
     \<lparr>ec_code = ''quota_exceeded'', ec_status = 413, ec_message = ''Your storage is full.''\<rparr>,
     \<lparr>ec_code = ''image_too_large'', ec_status = 413, ec_message = ''The image is too large to process.''\<rparr>,
     \<lparr>ec_code = ''type_not_allowed'', ec_status = 415, ec_message = ''This file type is not allowed here.''\<rparr>,
     \<lparr>ec_code = ''animation_unsupported'', ec_status = 415, ec_message = ''Animated AVIF and HEIF images are not supported.''\<rparr>,
     \<lparr>ec_code = ''moderation_rejected'', ec_status = 422, ec_message = ''The text was rejected.''\<rparr>,
     \<lparr>ec_code = ''checksum_mismatch'', ec_status = 422, ec_message = ''The file changed on the way; upload it again.''\<rparr>,
     \<lparr>ec_code = ''image_too_small'', ec_status = 422, ec_message = ''The image is too small.''\<rparr>,
     \<lparr>ec_code = ''image_unreadable'', ec_status = 422, ec_message = ''The file is not a readable image.''\<rparr>,
     \<lparr>ec_code = ''animation_not_allowed'', ec_status = 422, ec_message = ''Animated images are not allowed here.''\<rparr>,
     \<lparr>ec_code = ''animation_too_long'', ec_status = 422, ec_message = ''The animation is too long.''\<rparr>,
     \<lparr>ec_code = ''video_too_long'', ec_status = 422, ec_message = ''The video is too long.''\<rparr>,
     \<lparr>ec_code = ''video_too_large'', ec_status = 422, ec_message = ''The video's frames are too large.''\<rparr>,
     \<lparr>ec_code = ''video_over_budget'', ec_status = 422, ec_message = ''The video would cost too much to encode.''\<rparr>,
     \<lparr>ec_code = ''video_aspect_unsupported'', ec_status = 422, ec_message = ''The video's shape is not supported here.''\<rparr>,
     \<lparr>ec_code = ''rate_limited'', ec_status = 429, ec_message = ''Too many requests; try again later.''\<rparr>,
     \<lparr>ec_code = ''internal_error'', ec_status = 500, ec_message = ''Internal error.''\<rparr>,
     \<lparr>ec_code = ''tenant_mismatch'', ec_status = 500, ec_message = ''Internal error.''\<rparr>,
     \<lparr>ec_code = ''not_configured'', ec_status = 501, ec_message = ''This site does not offer this.''\<rparr>,
     \<lparr>ec_code = ''unavailable'', ec_status = 503, ec_message = ''Temporarily unavailable; try again.''\<rparr>,
     \<lparr>ec_code = ''upgrade_required'', ec_status = 503, ec_message = ''This media is temporarily unavailable.''\<rparr>]"

definition lookup_error_code :: "string \<Rightarrow> error_code option" where
  "lookup_error_code code = List.find (\<lambda>c. ec_code c = code) error_codes"

definition error_message :: "string \<Rightarrow> string" where
  "error_message code = (case lookup_error_code code of
     Some c \<Rightarrow> ec_message c
   | None \<Rightarrow> (case lookup_error_code code_internal_error of Some c \<Rightarrow> ec_message c | None \<Rightarrow> []))"

definition error_codes_sorted :: "error_code list" where
  "error_codes_sorted = sort_key ec_code error_codes"

section \<open>Modules\<close>

definition api_version :: string where "api_version = ''/v1''"

definition mod_content :: string where "mod_content = ''content''"
definition mod_contents :: string where "mod_contents = ''contents''"
definition mod_upload :: string where "mod_upload = ''upload''"
definition mod_media :: string where "mod_media = ''media''"
definition mod_codes :: string where "mod_codes = ''codes''"
definition mod_entities :: string where "mod_entities = ''entities''"
definition mod_channels :: string where "mod_channels = ''channels''"
definition mod_kinds :: string where "mod_kinds = ''kinds''"
definition mod_versions :: string where "mod_versions = ''versions''"
definition mod_discovery :: string where "mod_discovery = ''discovery''"
definition mod_import :: string where "mod_import = ''import''"

definition modules :: "string list" where
  "modules = [mod_kinds, mod_content, mod_contents, mod_upload, mod_media, mod_codes, mod_entities,
     mod_channels, mod_versions, mod_discovery, mod_import]"

definition module_prefix :: "string \<Rightarrow> string" where
  "module_prefix m =
     (if m = mod_upload then api_version @ ''/media/upload''
      else if m = mod_media then api_version @ ''/media''
      else if m = mod_codes then api_version @ ''/codes''
      else api_version)"

definition reserved_segments :: "string list" where
  "reserved_segments = [''media'', ''codes'', ''entities'', ''channels'', ''contents'', ''kinds'', ''me'', ''catalog'',
     ''events'', ''notifications'', ''accounts'', ''search'', ''typeahead'', ''recommendations'', ''release-dates'',
     ''releases'', ''signals'', ''exposures'', ''import'', ''sitemap'', ''stats'', ''content-filters'']"

section \<open>Routes\<close>

text \<open>
  A specification with what the gate does not read: the number of its query parameters, whether
  it has a request body, its module and whether it has a handler.
\<close>

record route = route_spec +
  rt_query :: nat
  rt_request :: bool
  rt_module :: string
  rt_serve :: bool

definition route_key :: "route \<Rightarrow> string" where
  "route_key r = rs_method r @ '' '' @ rs_path r"

definition full_path :: "route \<Rightarrow> string" where
  "full_path r = module_prefix (rt_module r) @ rs_path r"

text \<open>\<open>Mount\<close>: the keys handled and whether each is behind the guard; an ungated route panics.\<close>

definition mount_route :: "bool \<Rightarrow> route \<Rightarrow> (string \<times> bool) list \<Rightarrow> (string, (string \<times> bool) list) result" where
  "mount_route guarded r mux =
     (if guarded then Inr (mux @ [(route_key r, True)])
      else if rs_auth r \<noteq> Open then Inl (route_key r)
      else Inr (mux @ [(route_key r, False)]))"

definition mount_routes :: "bool \<Rightarrow> route list \<Rightarrow> (string \<times> bool) list \<Rightarrow> (string, (string \<times> bool) list) result" where
  "mount_routes guarded routes mux = fold_result (mount_route guarded) routes mux"

datatype route_error = PathSlash | NeedsDoc | NeedsResponse | PermTier | PermForm | UnknownTier | UnknownCode string |
  NoServe | DeclaredTwice

definition tier_ok :: "tier \<Rightarrow> bool" where
  "tier_ok t \<longleftrightarrow> (case t of OtherTier _ \<Rightarrow> False | _ \<Rightarrow> True)"

definition route_check :: "route \<Rightarrow> route_error option" where
  "route_check r =
     (if \<not> has_prefix ''/'' (rs_path r) then Some PathSlash
      else if rs_resource r = [] \<or> rs_doc r = [] then Some NeedsDoc
      else if rs_responses r = 0 then Some NeedsResponse
      else if (rs_auth r = Staff \<or> rs_auth r = Editor) \<noteq> (rs_perm r \<noteq> []) then Some PermTier
      else if rs_perm r \<noteq> [] \<and> (\<not> has_prefix ''root:'' (rs_perm r) \<or> length (filter (\<lambda>c. c = CHR '':'') (rs_perm r)) \<noteq> 2)
      then Some PermForm
      else if \<not> tier_ok (rs_auth r) then Some UnknownTier
      else map_option UnknownCode (List.find (\<lambda>c. lookup_error_code c = None) (rs_errors r)))"

text \<open>The routes registered so far, by module.\<close>

type_synonym route_table = "string \<Rightarrow> route list"

definition register_route :: "string \<Rightarrow> route \<Rightarrow> route_table \<Rightarrow> (route_error, route_table) result" where
  "register_route m r t =
     (let s = r\<lparr>rt_module := m\<rparr>
      in case route_check s of
           Some e \<Rightarrow> Inl e
         | None \<Rightarrow>
             if \<not> rt_serve s then Inl NoServe
             else if list_ex (\<lambda>o'. route_key o' = route_key s) (t m) then Inl DeclaredTwice
             else Inr (t(m := t m @ [s])))"

definition register_routes :: "string \<Rightarrow> route list \<Rightarrow> route_table \<Rightarrow> (route_error, route_table) result" where
  "register_routes m routes t = fold_result (register_route m) routes t"

definition route_catalog :: "route_table \<Rightarrow> route list" where
  "route_catalog t = concat (map t modules)"

section \<open>Matching\<close>

text \<open>A shift by a negative count panics: a literal segment after the seventeenth.\<close>

datatype path_match = ShiftPanics | Differs | Score int

fun match_segments :: "nat \<Rightarrow> int \<Rightarrow> string list \<Rightarrow> string list \<Rightarrow> path_match" where
  "match_segments i score [] rest = (if rest = [] then Score score else Differs)"
| "match_segments i score (p # ps) rest =
     (if has_suffix ''...}'' p then (if rest \<noteq> [] then Score score else Differs)
      else (case rest of
              [] \<Rightarrow> Differs
            | s # rest' \<Rightarrow>
                if has_prefix ''{'' p then match_segments (Suc i) score ps rest'
                else if p \<noteq> s then Differs
                else if 16 < i then ShiftPanics
                else match_segments (Suc i) (score + 2 ^ (16 - i)) ps rest'))"

definition match_path :: "string list \<Rightarrow> string list \<Rightarrow> path_match" where
  "match_path pattern path = match_segments 0 0 pattern path"

definition url_segments :: "string \<Rightarrow> string list" where
  "url_segments p = split_on (CHR ''/'') (trim_set {CHR ''/''} p)"

definition method_serves :: "string \<Rightarrow> route \<Rightarrow> bool" where
  "method_serves m r \<longleftrightarrow> rs_method r = m \<or> m = ''HEAD'' \<and> rs_method r = ''GET''"

text \<open>The loop of \<open>Match\<close>: the best route so far with its score; a panic stops it.\<close>

definition match_step :: "string \<Rightarrow> string list \<Rightarrow> route \<Rightarrow> (route \<times> int) option \<Rightarrow> (unit, (route \<times> int) option) result" where
  "match_step m segs r best =
     (if \<not> method_serves m r then Inr best
      else (case match_path (url_segments (full_path r)) segs of
              ShiftPanics \<Rightarrow> Inl ()
            | Differs \<Rightarrow> Inr best
            | Score n \<Rightarrow> Inr (if n > (case best of None \<Rightarrow> -1 | Some (_, b) \<Rightarrow> b) then Some (r, n) else best)))"

definition match_route :: "route_table \<Rightarrow> string \<Rightarrow> string \<Rightarrow> (unit, route option) result" where
  "match_route t m path =
     map_sum id (map_option fst) (fold_result (match_step m (url_segments path)) (route_catalog t) None)"

definition match_module :: "route_table \<Rightarrow> string \<Rightarrow> string \<Rightarrow> (unit, string option) result" where
  "match_module t m path =
     fold_result (\<lambda>m' found. if found \<noteq> None then Inr found
       else map_sum id (map_option rt_module) (match_route t m' path))
       [m, ''GET'', ''POST'', ''PUT'', ''PATCH'', ''DELETE''] None"

section \<open>Shared codes\<close>

definition error_sets :: "route \<Rightarrow> string list" where
  "error_sets r =
     [''module:'' @ rt_module r] @ (if rs_auth r \<noteq> Open then [''auth''] else []) @
     (if rt_request r \<or> rt_query r > 0 \<or> CHR ''{'' \<in> set (rs_path r) then [''request''] else [])"

definition error_set :: "string \<Rightarrow> string list" where
  "error_set name =
     (if name = ''request'' then [code_invalid_request]
      else if name = ''auth'' then [code_forbidden, code_unauthorized, code_unavailable]
      else if name = ''module:content'' then [code_internal_error, code_tenant_mismatch]
      else if name = ''module:upload'' then [code_internal_error, code_unavailable]
      else if name = ''module:media'' then [code_internal_error, code_not_found, code_rate_limited, code_unavailable, code_upgrade_required]
      else if name = ''module:contents'' then [code_internal_error, code_unavailable]
      else if name \<in> {''module:codes'', ''module:entities'', ''module:notifications'', ''module:kinds''} then [code_internal_error]
      else if name = ''module:versions'' then [code_internal_error, code_not_found, code_unavailable]
      else if name \<in> {''module:discovery'', ''module:import''} then [code_internal_error, code_unavailable]
      else [])"

end
