(* ===== verification/Route_Props.thy ===== *)
theory Route_Props
  imports Http_Routes
begin

text \<open>
  The table of routes: what registering keeps, and that a match is the route whose literal
  segments come first.
\<close>

section \<open>Registration\<close>

definition table_ok :: "route_table \<Rightarrow> bool" where
  "table_ok t \<longleftrightarrow> (\<forall>m. distinct (map route_key (t m)) \<and>
     (\<forall>r \<in> set (t m). rt_module r = m \<and> rt_serve r \<and> route_check r = None))"

lemma register_route_Inr:
  "register_route m r t = Inr t' \<longleftrightarrow> (let s = r\<lparr>rt_module := m\<rparr> in route_check s = None \<and> rt_serve s \<and>
     route_key s \<notin> route_key ` set (t m) \<and> t' = t(m := t m @ [s]))"
proof -
  have "list_ex (\<lambda>o'. route_key o' = k) rs \<longleftrightarrow> k \<in> route_key ` set rs" for k rs
    by (induction rs) auto
  then show ?thesis by (auto simp: register_route_def Let_def split: option.splits)
qed

lemma register_route_ok: "register_route m r t = Inr t' \<Longrightarrow> table_ok t \<Longrightarrow> table_ok t'"
  by (auto simp: register_route_Inr Let_def table_ok_def)

text \<open>
  Registering routes keeps the table well-formed: in every module the keys are distinct and
  every route names its module, has a handler and passes the checks, its error codes registered
  ones; the routes are added in order to their module and no other changes.
\<close>

lemma registered_routes_ok:
  assumes "register_routes m routes t = Inr t'" "table_ok t"
  shows "table_ok t' \<and> t' = t(m := t m @ map (\<lambda>r. r\<lparr>rt_module := m\<rparr>) routes) \<and>
    (\<forall>r \<in> set (t' m). \<forall>c \<in> set (rs_errors r). lookup_error_code c \<noteq> None)"
proof -
  have "table_ok t' \<and> t' = t(m := t m @ map (\<lambda>r. r\<lparr>rt_module := m\<rparr>) routes)"
    using assms unfolding register_routes_def
  proof (induction routes arbitrary: t)
    case (Cons r routes)
    then obtain t1 where t1: "register_route m r t = Inr t1" and
      run: "fold_result (register_route m) routes t1 = Inr t'" by (auto simp: bindr_Inr_iff)
    have "t1 = t(m := t m @ [r\<lparr>rt_module := m\<rparr>])" using t1 by (simp add: register_route_Inr Let_def)
    moreover have ok: "table_ok t'" and eq: "t' = t1(m := t1 m @ map (\<lambda>r. r\<lparr>rt_module := m\<rparr>) routes)"
      using Cons.IH [OF run register_route_ok [OF t1 Cons.prems(2)]] by auto
    ultimately have "t' = t(m := t m @ map (\<lambda>r. r\<lparr>rt_module := m\<rparr>) (r # routes))"
      unfolding eq by simp
    with ok show ?case by blast
  qed simp
  moreover have "route_check r = None \<Longrightarrow> \<forall>c \<in> set (rs_errors r). lookup_error_code c \<noteq> None" for r
    by (auto simp: route_check_def find_None_iff split: if_splits)
  ultimately show ?thesis unfolding table_ok_def by blast
qed

section \<open>What a pattern matches\<close>

text \<open>
  Segment by segment: a literal segment its own text, a variable one anything, and a last
  variable ending in dots whatever is left, which is not empty.
\<close>

definition rest_segment :: "string \<Rightarrow> bool" where "rest_segment p = has_suffix ''...}'' p"
definition variable_segment :: "string \<Rightarrow> bool" where "variable_segment p = has_prefix ''{'' p"

definition fixed_part :: "string list \<Rightarrow> string list" where
  "fixed_part ps = takeWhile (\<lambda>p. \<not> rest_segment p) ps"

definition pattern_matches :: "string list \<Rightarrow> string list \<Rightarrow> bool" where
  "pattern_matches ps path \<longleftrightarrow>
     (if fixed_part ps = ps then length path = length ps else length (fixed_part ps) < length path) \<and>
     (\<forall>k < length (fixed_part ps). variable_segment (ps ! k) \<or> ps ! k = path ! k)"

text \<open>The literal segments of a pattern.\<close>

definition literals :: "string list \<Rightarrow> bool list" where
  "literals ps = map (\<lambda>p. \<not> variable_segment p) (fixed_part ps)"

fun literal_value :: "nat \<Rightarrow> bool list \<Rightarrow> int" where
  "literal_value i [] = 0"
| "literal_value i (b # bs) = (if b then 2 ^ (16 - i) else 0) + literal_value (Suc i) bs"

fun literals_short :: "nat \<Rightarrow> bool list \<Rightarrow> bool" where
  "literals_short i [] = True"
| "literals_short i (b # bs) = ((b \<longrightarrow> i \<le> 16) \<and> literals_short (Suc i) bs)"

lemma fixed_part_simps [simp]:
  "fixed_part [] = []" "fixed_part (p # ps) = (if rest_segment p then [] else p # fixed_part ps)"
  by (simp_all add: fixed_part_def)

lemma literals_simps [simp]:
  "literals [] = []" "literals (p # ps) = (if rest_segment p then [] else (\<not> variable_segment p) # literals ps)"
  by (simp_all add: literals_def)

lemma pattern_matches_Nil: "pattern_matches [] path \<longleftrightarrow> path = []"
  by (simp add: pattern_matches_def)

lemma pattern_matches_Cons:
  "pattern_matches (p # ps) path \<longleftrightarrow>
     (if rest_segment p then path \<noteq> []
      else (\<exists>s rest. path = s # rest \<and> (variable_segment p \<or> p = s) \<and> pattern_matches ps rest))"
proof (cases "rest_segment p")
  case False
  then show ?thesis
    by (cases path) (auto simp: pattern_matches_def less_Suc_eq_0_disj All_less_Suc2 split: if_splits)
qed (auto simp: pattern_matches_def)

lemma match_segments_Score:
  "match_segments i score ps path = Score n \<Longrightarrow>
     pattern_matches ps path \<and> n = score + literal_value i (literals ps) \<and> literals_short i (literals ps)"
proof (induction i score ps path rule: match_segments.induct)
  case (1 i score rest)
  then show ?case by (auto simp: pattern_matches_Nil split: if_splits)
next
  case (2 i score p ps rest)
  then show ?case
    by (auto simp: pattern_matches_Cons rest_segment_def variable_segment_def split: if_splits list.splits)
qed

lemma match_segments_Differs: "match_segments i score ps path = Differs \<Longrightarrow> \<not> pattern_matches ps path"
proof (induction i score ps path rule: match_segments.induct)
  case (1 i score rest)
  then show ?case by (auto simp: pattern_matches_Nil split: if_splits)
next
  case (2 i score p ps rest)
  then show ?case
    by (auto simp: pattern_matches_Cons rest_segment_def variable_segment_def split: if_splits list.splits)
qed

section \<open>The score\<close>

lemma literal_value_nonneg: "0 \<le> literal_value i bs"
  by (induction i bs rule: literal_value.induct) auto

lemma literal_value_bound:
  "literals_short i bs \<Longrightarrow> literal_value i bs < 2 ^ (17 - i)"
proof (induction i bs rule: literal_value.induct)
  case (2 i b bs)
  then show ?case
  proof (cases "i \<le> 16")
    case True
    then have "(2::int) ^ (17 - i) = 2 * 2 ^ (16 - i)" by (simp add: Suc_diff_le flip: power_Suc)
    moreover have "literal_value (Suc i) bs < 2 ^ (16 - i)" "(0::int) < 2 ^ (16 - i)" using 2 by simp_all
    moreover have "literal_value i (b # bs) \<le> 2 ^ (16 - i) + literal_value (Suc i) bs" by simp
    ultimately show ?thesis by linarith
  qed (use 2 in auto)
qed simp

text \<open>A literal where the other pattern has none, after the same segments.\<close>

definition literal_at :: "bool list \<Rightarrow> nat \<Rightarrow> bool" where
  "literal_at bs k \<longleftrightarrow> k < length bs \<and> bs ! k"

definition outranks :: "bool list \<Rightarrow> bool list \<Rightarrow> bool" where
  "outranks a b \<longleftrightarrow> (\<exists>k. literal_at a k \<and> \<not> literal_at b k \<and> (\<forall>j < k. literal_at a j = literal_at b j))"

lemma literal_at_simps [simp]:
  "\<not> literal_at [] k" "literal_at (b # bs) 0 = b" "literal_at (b # bs) (Suc k) = literal_at bs k"
  by (simp_all add: literal_at_def)

lemma outranks_Cons: "outranks (a # as) (b # bs) \<longleftrightarrow> a \<and> \<not> b \<or> a = b \<and> outranks as bs"
proof
  assume "outranks (a # as) (b # bs)"
  then obtain k where k: "literal_at (a # as) k" "\<not> literal_at (b # bs) k"
    "\<forall>j < k. literal_at (a # as) j = literal_at (b # bs) j" by (auto simp: outranks_def)
  show "a \<and> \<not> b \<or> a = b \<and> outranks as bs"
  proof (cases k)
    case (Suc l)
    then have "a = b" using k(3) by (metis literal_at_simps(2) zero_less_Suc)
    moreover have "\<forall>j < l. literal_at as j = literal_at bs j" using k(3) Suc by (metis Suc_less_eq literal_at_simps(3))
    ultimately show ?thesis using k Suc by (auto simp: outranks_def)
  qed (use k in simp)
next
  assume "a \<and> \<not> b \<or> a = b \<and> outranks as bs"
  then show "outranks (a # as) (b # bs)"
  proof (elim disjE conjE)
    assume "a = b" "outranks as bs"
    then obtain k where "literal_at as k" "\<not> literal_at bs k" "\<forall>j < k. literal_at as j = literal_at bs j"
      by (auto simp: outranks_def)
    with \<open>a = b\<close> show ?thesis
      unfolding outranks_def by (intro exI [of _ "Suc k"]) (auto simp: less_Suc_eq_0_disj)
  qed (auto simp: outranks_def intro!: exI [of _ 0])
qed

lemma outranks_Nil: "outranks [] bs = False" "outranks (a # as) [] \<longleftrightarrow> a \<or> outranks as []"
proof -
  show "outranks [] bs = False" by (simp add: outranks_def)
  have "outranks as [] \<longleftrightarrow> (\<exists>k. literal_at as k)" for as
  proof
    assume "\<exists>k. literal_at as k"
    then have "\<exists>k. literal_at as k \<and> (\<forall>j < k. \<not> literal_at as j)" by (rule exists_least_iff [THEN iffD1])
    then show "outranks as []" by (auto simp: outranks_def)
  qed (auto simp: outranks_def)
  note all = this
  show "outranks (a # as) [] \<longleftrightarrow> a \<or> outranks as []"
    unfolding all by (metis literal_at_simps(2,3) not0_implies_Suc)
qed

lemma value_outranks:
  "literals_short i as \<Longrightarrow> literals_short i bs \<Longrightarrow> literal_value i bs < literal_value i as \<longleftrightarrow> outranks as bs"
proof (induction as arbitrary: i bs)
  case Nil
  then show ?case using literal_value_nonneg [of i bs] by (simp add: outranks_Nil)
next
  case (Cons a as)
  note pos = literal_value_nonneg [of "Suc i" as]
  show ?case
  proof (cases bs)
    case Nil
    have "0 < literal_value (Suc i) as \<longleftrightarrow> outranks as []"
      using Cons.IH [of "Suc i" "[]"] Cons.prems by simp
    then show ?thesis using Nil pos by (auto simp: outranks_Nil add_pos_nonneg)
  next
    case (Cons b bs')
    have short: "literals_short (Suc i) as" "literals_short (Suc i) bs'" using Cons.prems Cons by auto
    have bound: "literal_value (Suc i) as < 2 ^ (16 - i)" "literal_value (Suc i) bs' < 2 ^ (16 - i)"
      using literal_value_bound [OF short(1)] literal_value_bound [OF short(2)] by simp_all
    show ?thesis
      using bound pos literal_value_nonneg [of "Suc i" bs'] Cons.IH [OF short]
      by (cases a; cases b) (auto simp: Cons outranks_Cons)
  qed
qed

section \<open>Matching\<close>

definition served_by :: "string \<Rightarrow> string list \<Rightarrow> route \<Rightarrow> bool" where
  "served_by m segs r \<longleftrightarrow> method_serves m r \<and> pattern_matches (url_segments (full_path r)) segs"

abbreviation route_literals :: "route \<Rightarrow> bool list" where
  "route_literals r \<equiv> literals (url_segments (full_path r))"

text \<open>What the loop has found among the routes before: the first of the best.\<close>

definition best_of :: "string \<Rightarrow> string list \<Rightarrow> route list \<Rightarrow> (route \<times> int) option \<Rightarrow> bool" where
  "best_of m segs rs best \<longleftrightarrow>
     (\<forall>r \<in> set rs. served_by m segs r \<longrightarrow> literals_short 0 (route_literals r)) \<and>
     (case best of
        None \<Rightarrow> \<forall>r \<in> set rs. \<not> served_by m segs r
      | Some (s, n) \<Rightarrow> n = literal_value 0 (route_literals s) \<and> literals_short 0 (route_literals s) \<and>
          (\<exists>before after. rs = before @ s # after \<and> served_by m segs s \<and>
             (\<forall>r \<in> set before. served_by m segs r \<longrightarrow> outranks (route_literals s) (route_literals r)) \<and>
             (\<forall>r \<in> set after. served_by m segs r \<longrightarrow> \<not> outranks (route_literals r) (route_literals s))))"

lemma match_step_best:
  assumes step: "match_step m segs r best = Inr best'" and b: "best_of m segs rs best"
  shows "best_of m segs (rs @ [r]) best'"
proof (cases "match_path (url_segments (full_path r)) segs")
  case ShiftPanics
  then have "\<not> method_serves m r" "best' = best" using step by (auto simp: match_step_def split: if_splits)
  then show ?thesis using b by (fastforce simp: best_of_def served_by_def split: option.splits)
next
  case Differs
  then have "\<not> served_by m segs r" "best' = best"
    using step match_segments_Differs by (auto simp: match_step_def match_path_def served_by_def split: if_splits)
  then show ?thesis using b by (fastforce simp: best_of_def split: option.splits)
next
  case (Score n)
  note sc = match_segments_Score [OF Score [unfolded match_path_def]]
  show ?thesis
  proof (cases "method_serves m r")
    case False
    then have "best' = best" using step by (simp add: match_step_def)
    then show ?thesis using b False by (fastforce simp: best_of_def served_by_def split: option.splits)
  next
    case True
    then have r: "served_by m segs r" and n: "n = literal_value 0 (route_literals r)" "literals_short 0 (route_literals r)"
      using sc by (simp_all add: served_by_def)
    show ?thesis
    proof (cases best)
      case None
      have "best' = Some (r, n)"
        using step True None literal_value_nonneg [of 0 "route_literals r"] by (simp add: match_step_def Score n)
      then show ?thesis using b None r n by (fastforce simp: best_of_def)
    next
      case (Some sn)
      obtain s k where s: "sn = (s, k)" by force
      have k: "k = literal_value 0 (route_literals s)" "literals_short 0 (route_literals s)"
        using b Some s by (auto simp: best_of_def)
      have better: "n > k \<longleftrightarrow> outranks (route_literals r) (route_literals s)"
        unfolding n(1) k(1) by (rule value_outranks [OF n(2) k(2)])
      show ?thesis
      proof (cases "n > k")
        case True2: True
        then have best': "best' = Some (r, n)" using step True Some s by (simp add: match_step_def Score)
        have "outranks (route_literals r) (route_literals x)" if "x \<in> set rs" "served_by m segs x" for x
        proof -
          have x: "literals_short 0 (route_literals x)" using b that by (simp add: best_of_def)
          obtain before after where rs: "rs = before @ s # after"
            "\<forall>r \<in> set before. served_by m segs r \<longrightarrow> outranks (route_literals s) (route_literals r)"
            "\<forall>r \<in> set after. served_by m segs r \<longrightarrow> \<not> outranks (route_literals r) (route_literals s)"
            using b Some s by (auto simp: best_of_def)
          then consider "outranks (route_literals s) (route_literals x)" | "x = s" | "\<not> outranks (route_literals x) (route_literals s)"
            using \<open>x \<in> set rs\<close> \<open>served_by m segs x\<close> by fastforce
          then have "literal_value 0 (route_literals x) \<le> k"
            using value_outranks [OF k(2) x] value_outranks [OF x k(2)] k(1) by cases auto
          then show ?thesis using True2 value_outranks [OF n(2) x] n(1) by simp
        qed
        moreover have "\<forall>x \<in> set (rs @ [r]). served_by m segs x \<longrightarrow> literals_short 0 (route_literals x)"
          using b n by (auto simp: best_of_def)
        moreover have "rs @ [r] = rs @ r # []" by simp
        ultimately show ?thesis
          using r n unfolding best' best_of_def option.case prod.case by (metis empty_iff empty_set)
      next
        case False
        then have "best' = best" using step True Some s by (simp add: match_step_def Score)
        obtain before after where rs: "rs = before @ s # after" "served_by m segs s"
            "\<forall>r \<in> set before. served_by m segs r \<longrightarrow> outranks (route_literals s) (route_literals r)"
            "\<forall>r \<in> set after. served_by m segs r \<longrightarrow> \<not> outranks (route_literals r) (route_literals s)"
            using b Some s by (auto simp: best_of_def)
        have "rs @ [r] = before @ s # (after @ [r])" using rs(1) by simp
        moreover have "\<forall>x \<in> set (after @ [r]). served_by m segs x \<longrightarrow> \<not> outranks (route_literals x) (route_literals s)"
          using rs(4) False better by auto
        moreover have "\<forall>x \<in> set (rs @ [r]). served_by m segs x \<longrightarrow> literals_short 0 (route_literals x)"
          using b n by (auto simp: best_of_def)
        ultimately show ?thesis
          using rs(2,3) k unfolding \<open>best' = best\<close> Some s best_of_def option.case prod.case by blast
      qed
    qed
  qed
qed

text \<open>
  C8: a match is the first route of the best: when no comparison panics, \<open>Match\<close> finds a route
  exactly when a registered one serves the method and its pattern matches the path, and the
  one it returns is outranked by none: at the first segment where another matching pattern
  differs in having a literal, the literal is the returned one's. Of equals the earliest
  registered is returned.
\<close>

theorem match_prefers_literals:
  assumes "match_route t m path = Inr found"
  shows "case found of
     None \<Rightarrow> \<forall>r \<in> set (route_catalog t). \<not> served_by m (url_segments path) r
   | Some s \<Rightarrow> (\<exists>before after. route_catalog t = before @ s # after \<and> served_by m (url_segments path) s \<and>
       (\<forall>r \<in> set before. served_by m (url_segments path) r \<longrightarrow> outranks (route_literals s) (route_literals r)) \<and>
       (\<forall>r \<in> set after. served_by m (url_segments path) r \<longrightarrow> \<not> outranks (route_literals r) (route_literals s)))"
proof -
  have fold: "fold_result (match_step m segs) rs best = Inr best' \<Longrightarrow> best_of m segs seen best \<Longrightarrow> best_of m segs (seen @ rs) best'"
    for segs rs best best' seen
  proof (induction rs arbitrary: best seen)
    case (Cons r rs)
    then obtain b1 where b1: "match_step m segs r best = Inr b1" and
      run: "fold_result (match_step m segs) rs b1 = Inr best'" by (auto simp: bindr_Inr_iff)
    show ?case using Cons.IH [OF run match_step_best [OF b1 Cons.prems(2)]] by simp
  qed simp
  obtain best where best: "fold_result (match_step m (url_segments path)) (route_catalog t) None = Inr best"
    and found: "found = map_option fst best"
    using assms by (cases "fold_result (match_step m (url_segments path)) (route_catalog t) None") (auto simp: match_route_def)
  have "best_of m (url_segments path) [] None" by (simp add: best_of_def)
  from fold [OF best this] show ?thesis
    by (auto simp: found best_of_def split: option.splits)
qed

section \<open>A sample table\<close>

definition sample_spec :: "string \<Rightarrow> route" where
  "sample_spec path = \<lparr>rs_method = ''GET'', rs_path = path, rs_resource = ''contents'', rs_doc = ''d'', rs_auth = Public,
     rs_perm = [], rs_responses = 1, rs_errors = [''not_found''], rt_query = 0, rt_request = False,
     rt_module = [], rt_serve = True\<rparr>"

definition sample_routes_table :: route_table where
  "sample_routes_table = (\<lambda>m. if m = mod_contents
     then map (\<lambda>p. (sample_spec p)\<lparr>rt_module := mod_contents\<rparr>) [''/contents/{id}'', ''/contents/search''] else [])"

theorem match_prefers_literals_witness:
  "match_route sample_routes_table ''GET'' ''/v1/contents/search'' =
     Inr (Some ((sample_spec ''/contents/search'')\<lparr>rt_module := mod_contents\<rparr>)) \<and>
   served_by ''GET'' (url_segments ''/v1/contents/search'') ((sample_spec ''/contents/search'')\<lparr>rt_module := mod_contents\<rparr>)"
proof -
  have m: "match_route sample_routes_table ''GET'' ''/v1/contents/search'' =
     Inr (Some ((sample_spec ''/contents/search'')\<lparr>rt_module := mod_contents\<rparr>))" by code_simp
  then show ?thesis using match_prefers_literals [OF m] by auto
qed

end
