(* ===== verification/Video_Plan.thy ===== *)
theory Video_Plan
  imports Media_Items "HOL-Library.Product_Lexorder"
begin

text \<open>
  The plan of a video: the frames of its rungs (\<open>internal/media/video/frame.go\<close>), the chunks of a run
  (\<open>plan.go\<close>) and the state of its outputs (\<open>outputs.go\<close>). What floating point computes from the
  source is a parameter: the scaled sides of a frame, the product of a rate, the seconds a chunk may take.
\<close>

section \<open>Frames and rungs\<close>

definition max_side :: int where "max_side = 4096"
definition max_area :: int where "max_area = 3840 * 2160"
definition native_below :: int where "native_below = 1080"

record rung =
  ru_n :: int
  ru_w :: int
  ru_h :: int
  ru_level :: string

text \<open>\<open>short\<close> and \<open>long\<close> are the sides of the source.\<close>

partial_function (option) shrink_frame :: "int \<Rightarrow> int \<Rightarrow> int \<times> int \<Rightarrow> (int \<times> int) option" where
  "shrink_frame short long sl =
     (let (s, l) = sl
      in if \<not> (l > max_side \<or> s * l > max_area) then Some (s, l)
         else if l > max_side \<or> l * short \<ge> s * long then shrink_frame short long (s, l - 2)
         else shrink_frame short long (s - 2, l))"

text \<open>\<open>even v\<close>: \<open>half\<close> is \<open>math.Round(v/2)\<close>.\<close>

definition even_side :: "int \<Rightarrow> int" where
  "even_side half = max 2 (2 * half)"

text \<open>
  \<open>scaled n\<close> are the rounded halves of the sides of rung \<open>n\<close>, the float part of \<open>frame\<close>. \<open>None\<close> is a loop
  that does not end.
\<close>

definition frame_of :: "(int \<Rightarrow> int \<times> int) \<Rightarrow> int \<Rightarrow> int \<Rightarrow> int \<Rightarrow> (int \<times> int) option" where
  "frame_of scaled w h n =
     (let short = min w h; long = max w h; (hs, hl) = scaled n
      in map_option (\<lambda>(s, l). if w < h then (s, l) else (l, s))
           (shrink_frame short long (min (even_side hs) (short - short mod 2), min (even_side hl) (long - long mod 2))))"

text \<open>\<open>mul\<close> is the float product.\<close>

definition level_of :: "(rat \<Rightarrow> rat \<Rightarrow> rat) \<Rightarrow> int \<Rightarrow> int \<Rightarrow> rat \<Rightarrow> string" where
  "level_of mul w h fps =
     (let mbs = ((w + 15) div 16) * ((h + 15) div 16)
      in if mbs \<le> 8192 then []
         else if mbs \<le> 22080 \<and> mul (of_int mbs) fps \<le> 589824 then ''5.0''
         else if mbs \<le> 36864 \<and> mul (of_int mbs) fps \<le> 983040 then ''5.1''
         else ''5.2'')"

definition rung_labels :: "int list \<Rightarrow> int \<Rightarrow> int list" where
  "rung_labels steps short =
     (let ns = filter (\<lambda>n. n \<le> short) steps; own = max 2 (short - short mod 2)
      in rev (sort (if short < native_below \<and> own \<notin> set ns then ns @ [own] else ns)))"

fun rungs_of :: "(int \<Rightarrow> (int \<times> int) option) \<Rightarrow> (int \<Rightarrow> int \<Rightarrow> string) \<Rightarrow> int list \<Rightarrow> rung list option" where
  "rungs_of fr lv [] = Some []"
| "rungs_of fr lv (n # ns) =
     (case fr n of
        None \<Rightarrow> None
      | Some (w, h) \<Rightarrow>
          (case (case ns of [] \<Rightarrow> Some False | m # _ \<Rightarrow> map_option (\<lambda>x. x = (w, h)) (fr m)) of
             None \<Rightarrow> None
           | Some same \<Rightarrow> map_option (\<lambda>rs. if same then rs else \<lparr>ru_n = n, ru_w = w, ru_h = h, ru_level = lv w h\<rparr> # rs) (rungs_of fr lv ns)))"

section \<open>Sources\<close>

text \<open>What a probe gives of a source: its displayed size, its duration and its rate.\<close>

record video_plan =
  vp_duration :: rat
  vp_width :: int
  vp_height :: int
  vp_fps :: rat

record video_env =
  ve_codecs :: "string list"
  ve_scaled :: "video_plan \<Rightarrow> int \<Rightarrow> int \<times> int"
  ve_mul :: "rat \<Rightarrow> rat \<Rightarrow> rat"
  ve_aspect_ok :: "video_plan \<Rightarrow> hls_decl \<Rightarrow> bool"
  ve_fp :: "private_preset \<Rightarrow> media_file \<Rightarrow> string"
  ve_subs_fp :: "hls_decl \<Rightarrow> media_file \<Rightarrow> string"

datatype video_error = AspectUnsupported | NoRung | VideoTooLong | VideoTooLarge | VideoOverBudget | DurationRange | TooManyChunks int | PlanEndless

definition plan_frame :: "video_env \<Rightarrow> video_plan \<Rightarrow> int \<Rightarrow> (int \<times> int) option" where
  "plan_frame e pl = frame_of (ve_scaled e pl) (vp_width pl) (vp_height pl)"

definition plan_ladder :: "video_env \<Rightarrow> video_plan \<Rightarrow> hls_decl \<Rightarrow> (video_error, rung list) result" where
  "plan_ladder e pl h =
     (if \<not> ve_aspect_ok e pl h then Inl AspectUnsupported
      else (case rungs_of (plan_frame e pl) (\<lambda>w h. level_of (ve_mul e) w h (vp_fps pl))
                   (rung_labels (rungs (Some h)) (min (vp_width pl) (vp_height pl))) of
          None \<Rightarrow> Inl PlanEndless
        | Some rs \<Rightarrow> if rs = [] then Inl NoRung else Inr rs))"

text \<open>The rung of an MP4 preset: none above the source.\<close>

definition plan_rung :: "video_env \<Rightarrow> video_plan \<Rightarrow> int \<Rightarrow> (video_error, rung option) result" where
  "plan_rung e pl n =
     (if n > min (vp_width pl) (vp_height pl) then Inr None
      else (case plan_frame e pl n of
          None \<Rightarrow> Inl PlanEndless
        | Some (w, h) \<Rightarrow> Inr (Some \<lparr>ru_n = n, ru_w = w, ru_h = h, ru_level = level_of (ve_mul e) w h (vp_fps pl)\<rparr>)))"

definition is_encode :: "private_preset \<Rightarrow> bool" where
  "is_encode p \<longleftrightarrow> pr_hls p \<noteq> None \<or> pr_mp4 p \<noteq> None"

definition video_family :: "private_preset \<Rightarrow> bool" where
  "video_family p \<longleftrightarrow> is_encode p \<or> pr_subtitles p"

text \<open>The runs of a preset, smallest rung first.\<close>

definition preset_stages :: "video_env \<Rightarrow> private_preset \<Rightarrow> video_plan \<Rightarrow> (video_error, rung list) result" where
  "preset_stages e p pl =
     (case pr_mp4 p of
        Some n \<Rightarrow> bindr (plan_rung e pl n) (\<lambda>r. Inr (case r of Some r \<Rightarrow> [r] | None \<Rightarrow> []))
      | None \<Rightarrow> (case pr_hls p of
          Some h \<Rightarrow> bindr (plan_ladder e pl h) (\<lambda>rs. Inr (rev rs))
        | None \<Rightarrow> Inl NoRung))"

section \<open>Limits\<close>

definition codecs_of :: "video_env \<Rightarrow> private_preset \<Rightarrow> string list" where
  "codecs_of e p = (if pr_mp4 p \<noteq> None then [''h264''] else ve_codecs e)"

definition preset_pixels :: "video_env \<Rightarrow> video_plan \<Rightarrow> private_preset \<Rightarrow> int" where
  "preset_pixels e pl p =
     (if \<not> is_encode p then 0
      else (case preset_stages e p pl of
          Inl _ \<Rightarrow> 0
        | Inr st \<Rightarrow> sum_list (map (\<lambda>r. ru_w r * ru_h r * int (length (codecs_of e p))) st)))"

definition plan_work :: "video_env \<Rightarrow> video_plan \<Rightarrow> private_preset list \<Rightarrow> rat" where
  "plan_work e pl ps =
     ve_mul e (ve_mul e (of_int (sum_list (map (preset_pixels e pl) ps))) (vp_duration pl)) (vp_fps pl)"

definition check_limits :: "video_env \<Rightarrow> video_plan \<Rightarrow> private_preset list \<Rightarrow> video_limits \<Rightarrow> video_error option" where
  "check_limits e pl ps l =
     (if fl_less (vl_max_seconds l) (Finite (vp_duration pl)) then Some VideoTooLong
      else if vp_width pl * vp_height pl > vl_max_pixels l then Some VideoTooLarge
      else if fl_less (vl_max_work l) (Finite (plan_work e pl ps)) then Some VideoOverBudget
      else None)"

section \<open>Chunks\<close>

definition segment_seconds :: int where "segment_seconds = 4"
definition max_video_chunks :: int where "max_video_chunks = 5000"

text \<open>
  \<open>share\<close> is the target's seconds over the cost of a second. A conversion of a float at the end of
  the range wraps.
\<close>

definition chunk_step :: "rat \<Rightarrow> int" where
  "chunk_step share =
     (let seconds = min 240 (max 8 share)
      in max (segment_seconds * 1000) (\<lfloor>seconds / of_int segment_seconds\<rfloor> * segment_seconds * 1000))"

function cut_chunks :: "int \<Rightarrow> int \<Rightarrow> int \<Rightarrow> (int \<times> int) list" where
  "cut_chunks step ending start =
     (if start < ending \<and> 0 < step then (start, min (start + step) ending) # cut_chunks step ending (start + step) else [])"
  by pat_completeness auto
termination
  by (relation "measure (\<lambda>(step, ending, start). nat (ending - start))") auto

declare cut_chunks.simps [simp del]

definition chunk_end :: "video_env \<Rightarrow> video_plan \<Rightarrow> int" where
  "chunk_end e pl = max 1 (wrap64 \<lceil>ve_mul e (vp_duration pl) 1000\<rceil>)"

definition chunk_bounds :: "video_env \<Rightarrow> video_plan \<Rightarrow> rat \<Rightarrow> (video_error, (int \<times> int) list) result" where
  "chunk_bounds e pl share =
     (if vp_duration pl > 9223372036854776 then Inl DurationRange
      else (let step = chunk_step share; ending = chunk_end e pl; count = (ending - 1) div step + 1
        in if count > max_video_chunks then Inl (TooManyChunks count) else Inr (cut_chunks step ending 0)))"

section \<open>Outputs\<close>

definition rendition_path :: "string \<Rightarrow> int \<Rightarrow> string \<Rightarrow> string" where
  "rendition_path to n codec = to @ dec_int n @ ''-'' @ codec @ ''.mp4''"

definition rendition_name :: "int \<Rightarrow> string \<Rightarrow> string" where
  "rendition_name n codec = ''v'' @ dec_int n @ ''-'' @ codec"

definition run_spec :: "private_preset \<Rightarrow> string \<Rightarrow> string" where
  "run_spec p fp = pr_name p @ ''@'' @ fp"

definition run_preset :: "video_env \<Rightarrow> private_preset list \<Rightarrow> media_file \<Rightarrow> string \<Rightarrow> (private_preset \<times> string) option" where
  "run_preset e ps f spec =
     (let (name, fp) = str_cut (CHR ''@'') spec; fp = (case fp of Some x \<Rightarrow> x | None \<Rightarrow> [])
      in map_option (\<lambda>p. (p, fp)) (List.find (\<lambda>p. pr_name p = name \<and> is_encode p \<and> ve_fp e p f = fp) ps))"

definition stage_done :: "media_file list \<Rightarrow> string \<Rightarrow> string \<Rightarrow> string list \<Rightarrow> rung \<Rightarrow> bool" where
  "stage_done outs to fp codecs s \<longleftrightarrow> list_all (\<lambda>c. list_ex (\<lambda>x. mf_path x = rendition_path to (ru_n s) c \<and> mf_fp x = fp) outs) codecs"

definition stages_done :: "media_file list \<Rightarrow> string \<Rightarrow> string \<Rightarrow> rung list \<Rightarrow> string list \<Rightarrow> nat" where
  "stages_done outs to fp stages codecs = length (takeWhile (stage_done outs to fp codecs) stages)"

definition track_kind :: "media_file \<Rightarrow> string" where
  "track_kind f = (case mf_track f of None \<Rightarrow> [] | Some t \<Rightarrow> tr_kind t)"

definition output_todo :: "video_env \<Rightarrow> manifest \<Rightarrow> media_file \<Rightarrow> private_preset \<Rightarrow> bool" where
  "output_todo e m f p =
     (if pr_name p \<in> set (pending_of f) then True
      else (let outs = file_outputs m (mf_path f) (pr_name p); fp = ve_fp e p f
        in case (pr_mp4 p, outs) of
             (Some n, []) \<Rightarrow> mf_w f = 0 \<or> n \<le> min (mf_w f) (mf_h f)
           | (_, []) \<Rightarrow> True
           | _ \<Rightarrow> (case pr_hls p of
               Some h \<Rightarrow> list_ex (\<lambda>x. if track_kind x = ''subs'' then mf_fp x \<noteq> ve_subs_fp e h f else mf_track x = None \<or> mf_fp x \<noteq> fp) outs
             | None \<Rightarrow> list_ex (\<lambda>x. mf_fp x \<noteq> fp) outs)))"

definition place_in :: "string list \<Rightarrow> string \<Rightarrow> int" where
  "place_in xs x = (case index_where (\<lambda>y. y = x) xs of Some i \<Rightarrow> int i | None \<Rightarrow> -1)"

definition order_hls :: "string list \<Rightarrow> media_file list \<Rightarrow> media_file list" where
  "order_hls codecs outs =
     sort_key (\<lambda>x. (place_in [''video'', ''audio'', ''subs'', ''sprite''] (track_kind x),
       if track_kind x = ''video'' then (place_in codecs (case mf_track x of Some t \<Rightarrow> tr_codec t | None \<Rightarrow> []), - (mf_w x * mf_h x)) else (0, 0))) outs"

end
