(* ===== verification/Video_Runs.thy ===== *)
theory Video_Runs
  imports Video_Plan
begin

text \<open>
  The durable encode runs of one item's videos (\<open>internal/media/video/plan.go\<close>, \<open>chunk.go\<close>, \<open>assemble.go\<close>,
  \<open>river.go\<close>). A table of runs with their chunks stands for the rows of the item; a statement is a
  function of the table and a transaction one step. ffmpeg, the bucket, the manifest and the job queue
  answer through the environment of a pass; a failed pass keeps what it wrote.
\<close>

section \<open>Rows\<close>

datatype run_state = RunPlanned | RunEncoding | RunAssembling | RunComplete | RunCancelled

type_synonym chunk_output = "(string \<times> string) list"

record encode_chunk =
  ec_ordinal :: nat
  ec_start :: int
  ec_end :: int
  ec_done :: bool
  ec_output :: "chunk_output option"

text \<open>What is unique among the runs of an item.\<close>

record run_key =
  rk_file :: string
  rk_source :: string
  rk_etag :: string
  rk_spec :: string
  rk_rung :: int

record encode_run =
  rn_id :: string
  rn_key :: run_key
  rn_source_key :: string
  rn_class :: string
  rn_probe :: string
  rn_passthrough :: string
  rn_state :: run_state
  rn_created :: int
  rn_chunks :: "encode_chunk list"

type_synonym runs = "encode_run list"

definition run_of_id :: "runs \<Rightarrow> string \<Rightarrow> encode_run option" where
  "run_of_id t i = List.find (\<lambda>r. rn_id r = i) t"

definition update_run :: "string \<Rightarrow> (encode_run \<Rightarrow> encode_run) \<Rightarrow> runs \<Rightarrow> runs" where
  "update_run i f t = map (\<lambda>r. if rn_id r = i then f r else r) t"

section \<open>Planning\<close>

record run_plan =
  rp_file :: string
  rp_source :: string
  rp_source_key :: string
  rp_etag :: string
  rp_spec :: string
  rp_class :: string
  rp_probe :: string
  rp_stages :: "rung list"
  rp_bounds :: "(int \<times> int) list list"
  rp_done :: nat
  rp_passthrough :: string

definition planned_chunks :: "(int \<times> int) list \<Rightarrow> encode_chunk list" where
  "planned_chunks bs = map (\<lambda>(i, a, b). \<lparr>ec_ordinal = i, ec_start = a, ec_end = b, ec_done = False, ec_output = None\<rparr>) (zip [0..<length bs] bs)"

definition replanned :: "encode_chunk \<Rightarrow> encode_chunk" where
  "replanned c = c\<lparr>ec_done := False, ec_output := None\<rparr>"

text \<open>A stage whose outputs exist is complete; one that does not is opened again if it was closed.\<close>

definition reopen_run :: "run_plan \<Rightarrow> nat \<Rightarrow> encode_run \<Rightarrow> encode_run" where
  "reopen_run p i r =
     (if i < rp_done p then (if rn_state r \<noteq> RunComplete then r\<lparr>rn_state := RunComplete\<rparr> else r)
      else if rn_state r \<in> {RunCancelled, RunComplete}
      then r\<lparr>rn_chunks := map replanned (if rn_chunks r = [] then planned_chunks (rp_bounds p ! i) else rn_chunks r),
             rn_state := RunPlanned, rn_class := rp_class p\<rparr>
      else r)"

definition stage_key :: "run_plan \<Rightarrow> rung \<Rightarrow> run_key" where
  "stage_key p s = \<lparr>rk_file = rp_file p, rk_source = rp_source p, rk_etag = rp_etag p, rk_spec = rp_spec p, rk_rung = ru_n s\<rparr>"

text \<open>\<open>fresh\<close> generates an id; \<open>now\<close> is the time of the transaction.\<close>

definition insert_stage :: "(runs \<Rightarrow> string) \<Rightarrow> int \<Rightarrow> run_plan \<Rightarrow> nat \<times> rung \<Rightarrow> runs \<Rightarrow> runs" where
  "insert_stage fresh now p is t =
     (let (i, s) = is; key = stage_key p s;
          t = (if list_ex (\<lambda>r. rn_key r = key) t then t
            else t @ [\<lparr>rn_id = fresh t, rn_key = key, rn_source_key = rp_source_key p, rn_class = rp_class p, rn_probe = rp_probe p,
              rn_passthrough = (if i = length (rp_stages p) - 1 then rp_passthrough p else []), rn_state = RunPlanned, rn_created = now,
              rn_chunks = (if i \<ge> rp_done p then planned_chunks (rp_bounds p ! i) else [])\<rparr>])
      in map (\<lambda>r. if rn_key r = key then reopen_run p i r else r) t)"

definition insert_runs :: "(runs \<Rightarrow> string) \<Rightarrow> int \<Rightarrow> run_plan \<Rightarrow> runs \<Rightarrow> runs" where
  "insert_runs fresh now p t = fold (insert_stage fresh now p) (zip [0..<length (rp_stages p)] (rp_stages p)) t"

text \<open>
  What \<open>planRuns\<close> records for a preset: chunks of every stage and whether the top one is copied.
  \<open>share\<close> gives the target over the cost of a second of a stage; \<open>copyable\<close> is the codec in which the source
  may be copied.
\<close>

definition plan_runs ::
    "video_env \<Rightarrow> (rung \<Rightarrow> int \<Rightarrow> rat) \<Rightarrow> string \<Rightarrow> (rung \<Rightarrow> string option) \<Rightarrow> private_preset \<Rightarrow> video_plan \<Rightarrow> rung list \<Rightarrow> nat \<Rightarrow> run_plan \<Rightarrow>
     (video_error, run_plan) result" where
  "plan_runs e share source_codec copyable p pl st finished base =
     (let codecs = codecs_of e p
      in bindr (fold_result (\<lambda>s bs. bindr (chunk_bounds e pl (share s (int (length codecs)))) (\<lambda>b. Inr (bs @ [b]))) st []) (\<lambda>bounds.
           Inr (base\<lparr>rp_stages := st, rp_bounds := bounds, rp_done := finished,
             rp_passthrough := (if pr_hls p \<noteq> None \<and> length st > 1 \<and> length (last bounds) = 1 \<and> source_codec = ''h264'' \<and> source_codec \<in> set codecs
               then (case copyable (last st) of Some c \<Rightarrow> if c \<in> set codecs then c else [] | None \<Rightarrow> []) else [])\<rparr>)))"

section \<open>Statements of a worker\<close>

definition next_chunk :: "encode_run \<Rightarrow> encode_chunk option" where
  "next_chunk r = List.find (\<lambda>c. \<not> ec_done c) (sort_key ec_ordinal (rn_chunks r))"

definition start_encoding :: "string \<Rightarrow> runs \<Rightarrow> runs" where
  "start_encoding i = update_run i (\<lambda>r. if rn_state r \<noteq> RunCancelled then r\<lparr>rn_state := RunEncoding\<rparr> else r)"

definition start_assembling :: "string \<Rightarrow> runs \<Rightarrow> runs" where
  "start_assembling i = update_run i (\<lambda>r. if rn_state r \<noteq> RunCancelled then r\<lparr>rn_state := RunAssembling\<rparr> else r)"

definition cancel_run :: "string \<Rightarrow> runs \<Rightarrow> runs" where
  "cancel_run i = update_run i (\<lambda>r. if rn_state r \<noteq> RunComplete then r\<lparr>rn_state := RunCancelled\<rparr> else r)"

definition finish_run :: "string \<Rightarrow> runs \<Rightarrow> runs" where
  "finish_run i = update_run i (\<lambda>r. if rn_state r \<noteq> RunCancelled then r\<lparr>rn_state := RunComplete\<rparr> else r)"

definition complete_chunk :: "string \<Rightarrow> nat \<Rightarrow> chunk_output \<Rightarrow> runs \<Rightarrow> runs" where
  "complete_chunk i n out =
     update_run i (\<lambda>r. if rn_state r \<in> {RunPlanned, RunEncoding}
       then r\<lparr>rn_chunks := map (\<lambda>c. if ec_ordinal c = n then c\<lparr>ec_done := True, ec_output := Some out\<rparr> else c) (rn_chunks r)\<rparr> else r)"

definition restore_chunks :: "string \<Rightarrow> nat list \<Rightarrow> runs \<Rightarrow> runs" where
  "restore_chunks i missing =
     update_run i (\<lambda>r. if rn_state r \<noteq> RunAssembling then r
       else r\<lparr>rn_chunks := map (\<lambda>c. if ec_ordinal c \<in> set missing then replanned c else c) (rn_chunks r), rn_state := RunEncoding\<rparr>)"

section \<open>A pass of the conversion\<close>

text \<open>
  What a pass meets: the plans it records before an error, if any, whether another tenant waits, whether a run is still
  current at its checks, the encoder, the bucket, the assembly and the slice. \<open>current\<close> answers False when
  the upload, the preset or the rung is gone.
\<close>

datatype assembled = Published | Stale | AssembleError string

record pass_env =
  pe_plans :: "run_plan list \<times> string option"
  pe_fair :: "(string, bool) result"
  pe_current :: "nat \<Rightarrow> encode_run \<Rightarrow> (string, bool) result"
  pe_encode :: "encode_run \<Rightarrow> encode_chunk \<Rightarrow> (string, chunk_output) result"
  pe_codecs :: "run_key \<Rightarrow> string list"
  pe_exists :: "string \<Rightarrow> (string, bool) result"
  pe_published :: "encode_run \<Rightarrow> bool"
  pe_assemble :: "encode_run \<Rightarrow> encode_chunk list \<Rightarrow> assembled"
  pe_grab :: "string option"
  pe_settle :: "encode_run \<Rightarrow> string option"
  pe_slice :: "(string, bool) result"
  pe_fresh :: "runs \<Rightarrow> string"
  pe_now :: int

text \<open>The error a step ends with, and the table it leaves.\<close>

type_synonym stepped = "string option \<times> runs"

definition encode_step :: "pass_env \<Rightarrow> encode_run \<Rightarrow> encode_chunk \<Rightarrow> runs \<Rightarrow> stepped" where
  "encode_step e r c t =
     (if ec_output c \<noteq> None then (None, t)
      else (case pe_current e 1 r of
          Inl err \<Rightarrow> (Some err, t)
        | Inr False \<Rightarrow> (None, cancel_run (rn_id r) t)
        | Inr True \<Rightarrow>
            (case pe_encode e r c of
               Inl err \<Rightarrow> (Some err, t)
             | Inr out \<Rightarrow> (None, complete_chunk (rn_id r) (ec_ordinal c) out t))))"

text \<open>The chunks that lack an output or whose object is gone.\<close>

fun lacks_object :: "pass_env \<Rightarrow> encode_run \<Rightarrow> chunk_output \<Rightarrow> string list \<Rightarrow> (string, bool) result" where
  "lacks_object e r out [] = Inr False"
| "lacks_object e r out (c # cs) =
     (case map_of out (rendition_name (rk_rung (rn_key r)) c) of
        None \<Rightarrow> Inr True
      | Some key \<Rightarrow>
          if key = [] then Inr True
          else (case pe_exists e key of Inl err \<Rightarrow> Inl err | Inr False \<Rightarrow> Inr True | Inr True \<Rightarrow> lacks_object e r out cs))"

definition missing_chunks :: "pass_env \<Rightarrow> encode_run \<Rightarrow> encode_chunk list \<Rightarrow> (string, nat list) result" where
  "missing_chunks e r cs =
     fold_result (\<lambda>c ns. bindr (lacks_object e r (case ec_output c of Some x \<Rightarrow> x | None \<Rightarrow> []) (pe_codecs e (rn_key r))) (\<lambda>lost.
       Inr (if lost then ns @ [ec_ordinal c] else ns))) cs []"

text \<open>After the outputs of a stage are published.\<close>

definition finish_stage :: "pass_env \<Rightarrow> encode_run \<Rightarrow> bool \<Rightarrow> runs \<Rightarrow> stepped" where
  "finish_stage e r published t =
     (case pe_grab e of
        Some err \<Rightarrow> (Some err, t)
      | None \<Rightarrow> (case (if published then pe_settle e r else None) of
          Some err \<Rightarrow> (Some err, t)
        | None \<Rightarrow> (None, finish_run (rn_id r) t)))"

definition assemble_step :: "pass_env \<Rightarrow> encode_run \<Rightarrow> runs \<Rightarrow> stepped" where
  "assemble_step e r t =
     (case pe_current e 2 r of
        Inl err \<Rightarrow> (Some err, t)
      | Inr False \<Rightarrow> (None, cancel_run (rn_id r) t)
      | Inr True \<Rightarrow>
          if pe_published e r then finish_stage e r True t
          else (let chunks = (case run_of_id t (rn_id r) of Some x \<Rightarrow> sort_key ec_ordinal (rn_chunks x) | None \<Rightarrow> [])
            in if chunks = [] then (Some ''no chunks'', t)
               else (case missing_chunks e r chunks of
                   Inl err \<Rightarrow> (Some err, t)
                 | Inr (n # ns) \<Rightarrow> (None, restore_chunks (rn_id r) (n # ns) t)
                 | Inr [] \<Rightarrow>
                     (case pe_assemble e r chunks of
                        AssembleError err \<Rightarrow> (Some err, t)
                      | Stale \<Rightarrow> (None, cancel_run (rn_id r) t)
                      | Published \<Rightarrow> finish_stage e r False t))))"

text \<open>One step of a run: its next chunk, and its assembly when no chunk is left.\<close>

definition run_step :: "pass_env \<Rightarrow> encode_run \<Rightarrow> runs \<Rightarrow> stepped" where
  "run_step e r t =
     (let (err, t, pending) = (case next_chunk r of
          None \<Rightarrow> (None, t, False)
        | Some c \<Rightarrow>
            (let (err, t) = encode_step e r c (start_encoding (rn_id r) t)
             in (err, t, case run_of_id t (rn_id r) of Some x \<Rightarrow> list_ex (\<lambda>c. \<not> ec_done c) (rn_chunks x) | None \<Rightarrow> False)))
      in if err \<noteq> None \<or> pending then (err, t) else assemble_step e r (start_assembling (rn_id r) t))"

definition active_state :: "run_state \<Rightarrow> bool" where
  "active_state s \<longleftrightarrow> s \<in> {RunPlanned, RunEncoding, RunAssembling}"

definition active_ids :: "runs \<Rightarrow> string list" where
  "active_ids t = map rn_id (sort_key (\<lambda>r. (rn_created r, rk_file (rn_key r), rk_rung (rn_key r))) (filter (\<lambda>r. active_state (rn_state r)) t))"

text \<open>What a pass ends with: nothing left, an error, a wait, or a step of the run named.\<close>

datatype pass_end = Idle | PassError string | SnoozeLocked | Stepped string

fun try_runs :: "pass_env \<Rightarrow> string \<Rightarrow> string list \<Rightarrow> runs \<Rightarrow> pass_end \<times> runs" where
  "try_runs e preset [] t = (Idle, t)"
| "try_runs e preset (i # is) t =
     (case run_of_id t i of
        None \<Rightarrow> (PassError ''no rows'', t)
      | Some r \<Rightarrow>
          if preset \<noteq> [] \<and> \<not> has_prefix (preset @ ''@'') (rk_spec (rn_key r)) then try_runs e preset is t
          else (case pe_current e 0 r of
              Inl err \<Rightarrow> (PassError err, t)
            | Inr False \<Rightarrow> try_runs e preset is (cancel_run i t)
            | Inr True \<Rightarrow>
                (let (err, t) = run_step e r t in case err of Some x \<Rightarrow> (PassError x, t) | None \<Rightarrow> (Stepped i, t))))"

definition convert_pass :: "pass_env \<Rightarrow> string \<Rightarrow> runs \<Rightarrow> pass_end \<times> runs" where
  "convert_pass e preset t =
     (let t = fold (insert_runs (pe_fresh e) (pe_now e)) (fst (pe_plans e)) t
      in case snd (pe_plans e) of
           Some err \<Rightarrow> (PassError err, t)
         | None \<Rightarrow>
             (case pe_fair e of
                Inl err \<Rightarrow> (PassError err, t)
              | Inr True \<Rightarrow> (SnoozeLocked, t)
              | Inr False \<Rightarrow> try_runs e preset (active_ids t) t))"

text \<open>
  The passes of an attempt, \<open>envs n\<close> what the \<open>n\<close>-th meets. The first playback of a video yields to the others; an
  attempt goes on while its slice lasts. \<open>None\<close> when the passes given are not enough.
\<close>

datatype attempt_end = Finished | AttemptError string | Snoozed

fun convert :: "nat \<Rightarrow> (nat \<Rightarrow> pass_env) \<Rightarrow> string \<Rightarrow> nat \<Rightarrow> nat \<times> runs \<Rightarrow> (attempt_end \<times> nat \<times> runs) option" where
  "convert 0 envs preset n (priority, t) = None"
| "convert (Suc fuel) envs preset n (priority, t) =
     (let (ended, t) = convert_pass (envs n) preset t
      in case ended of
           Idle \<Rightarrow> Some (Finished, priority, t)
         | PassError err \<Rightarrow> Some (AttemptError err, priority, t)
         | SnoozeLocked \<Rightarrow> Some (Snoozed, priority, t)
         | Stepped i \<Rightarrow>
             if priority = 1 \<and> (case run_of_id t i of Some r \<Rightarrow> rn_state r = RunComplete | None \<Rightarrow> False) then Some (Snoozed, 2, t)
             else (case pe_slice (envs n) of
                 Inl err \<Rightarrow> Some (AttemptError err, priority, t)
               | Inr True \<Rightarrow> convert fuel envs preset (Suc n) (priority, t)
               | Inr False \<Rightarrow> Some (Snoozed, priority, t)))"

end
