(* ===== verification/Video_Props.thy ===== *)
theory Video_Props
  imports Video_Runs
begin

text \<open>
  What the plan and the runs of videos guarantee: frames fit, chunks tile a video, the rows of the runs
  stay consistent whatever fails, and an undisturbed conversion ends with every chunk encoded once.
\<close>

section \<open>Frames\<close>

lemma shrink_frame_step:
  "shrink_frame short long (s, l) =
     (if \<not> (l > max_side \<or> s * l > max_area) then Some (s, l)
      else if l > max_side \<or> l * short \<ge> s * long then shrink_frame short long (s, l - 2)
      else shrink_frame short long (s - 2, l))"
  by (subst shrink_frame.simps) simp

lemma big_side:
  fixes a b :: int
  assumes "a \<le> 4096" "0 < b" "a * b > 3840 * 2160"
  shows "2025 < b"
proof (rule ccontr)
  assume "\<not> 2025 < b"
  then have "a * b \<le> 4096 * 2025" using assms(1,2) by (intro order_trans [OF mult_right_mono [OF assms(1)]] mult_left_mono) auto
  then show False using assms(3) by simp
qed

text \<open>The shrinking loop: what it keeps and that it ends.\<close>

lemma shrink_frame_ends:
  assumes "0 < short" "short \<le> long" "2 \<le> s" "2 \<le> l" "even s" "even l"
  shows "\<exists>s' l'. shrink_frame short long (s, l) = Some (s', l') \<and> even s' \<and> even l' \<and> 2 \<le> s' \<and> s' \<le> s \<and> 2 \<le> l' \<and> l' \<le> l \<and>
    l' \<le> max_side \<and> s' * l' \<le> max_area"
  using assms(3-6)
proof (induction "nat (s + l)" arbitrary: s l rule: less_induct)
  case less
  consider (stop) "l \<le> max_side" "s * l \<le> max_area"
    | (long) "l > max_side \<or> s * l > max_area" "l > max_side \<or> l * short \<ge> s * long"
    | (short) "l \<le> max_side" "s * l > max_area" "l * short < s * long"
    by linarith
  then show ?case
  proof cases
    case stop
    then show ?thesis using less.prems by (subst shrink_frame_step) simp
  next
    case long
    have "4 \<le> l"
    proof (cases "l > max_side")
      case False
      then have big: "2025 < s" using long big_side [of l s] less.prems by (simp add: max_side_def max_area_def mult.commute)
      have "s * short \<le> s * long" using assms(1,2) less.prems by (intro mult_left_mono) auto
      then have "s * short \<le> l * short" using long False by simp
      then have "s \<le> l" using assms(1) by simp
      then show ?thesis using big by simp
    qed (simp add: max_side_def)
    then have "\<exists>s' l'. shrink_frame short long (s, l - 2) = Some (s', l') \<and> even s' \<and> even l' \<and> 2 \<le> s' \<and> s' \<le> s \<and> 2 \<le> l' \<and> l' \<le> l - 2 \<and>
        l' \<le> max_side \<and> s' * l' \<le> max_area"
      using less.prems by (intro less.hyps) auto
    moreover have "shrink_frame short long (s, l) = shrink_frame short long (s, l - 2)"
      using long by (subst shrink_frame_step) simp
    ultimately show ?thesis by fastforce
  next
    case short
    then have "2025 < s" using big_side [of l s] less.prems by (simp add: max_side_def max_area_def mult.commute)
    then have "\<exists>s' l'. shrink_frame short long (s - 2, l) = Some (s', l') \<and> even s' \<and> even l' \<and> 2 \<le> s' \<and> s' \<le> s - 2 \<and> 2 \<le> l' \<and> l' \<le> l \<and>
        l' \<le> max_side \<and> s' * l' \<le> max_area"
      using less.prems by (intro less.hyps) auto
    moreover have "shrink_frame short long (s, l) = shrink_frame short long (s - 2, l)"
      using short by (subst shrink_frame_step) simp
    ultimately show ?thesis by fastforce
  qed
qed

text \<open>
  C39: the frame of a rung always exists: the loop ends, its sides are even and at least 2, it is no larger than the
  source, its long side is at most 4096 and its area at most that of 3840 by 2160.
\<close>

theorem frame_fits:
  assumes "2 \<le> w" "2 \<le> h"
  shows "\<exists>x y. frame_of scaled w h n = Some (x, y) \<and> even x \<and> even y \<and> 2 \<le> x \<and> x \<le> w \<and> 2 \<le> y \<and> y \<le> h \<and>
    (if w < h then y else x) \<le> max_side \<and> x * y \<le> max_area"
proof -
  obtain hs hl where sc: "scaled n = (hs, hl)" by (cases "scaled n")
  let ?short = "min w h" and ?long = "max w h"
  have down: "2 \<le> a - a mod 2 \<and> even (a - a mod 2) \<and> a - a mod 2 \<le> a" if "2 \<le> a" for a :: int
    using that by presburger
  have ev: "2 \<le> even_side x \<and> even (even_side x)" for x by (auto simp: even_side_def max_def)
  let ?s = "min (even_side hs) (?short - ?short mod 2)" and ?l = "min (even_side hl) (?long - ?long mod 2)"
  have s: "2 \<le> ?s" "even ?s" "?s \<le> ?short" using down [of ?short] ev [of hs] assms by (auto simp: min_def)
  have l: "2 \<le> ?l" "even ?l" "?l \<le> ?long" using down [of ?long] ev [of hl] assms by (auto simp: min_def)
  have pos: "0 < ?short" and le: "?short \<le> ?long" using assms by auto
  obtain s' l' where r: "shrink_frame ?short ?long (?s, ?l) = Some (s', l')" "even s'" "even l'" "2 \<le> s'" "s' \<le> ?s" "2 \<le> l'" "l' \<le> ?l"
    "l' \<le> max_side" "s' * l' \<le> max_area"
    using shrink_frame_ends [OF pos le s(1) l(1) s(2) l(2)] by (elim exE conjE) (rule that)
  have "frame_of scaled w h n = Some (if w < h then (s', l') else (l', s'))"
    unfolding frame_of_def Let_def sc prod.case r(1) by simp
  then show ?thesis using r s(3) l(3) by (cases "w < h") (auto simp: mult.commute min_def max_def split: if_splits)
qed

theorem frame_fits_witness:
  "frame_of (\<lambda>n. (n div 2, n)) 4000 2000 1200 = Some (2400, 1200) \<and>
   (\<exists>x y. frame_of (\<lambda>n. (n div 2, n)) 4000 2000 3000 = Some (x, y) \<and> even x \<and> even y \<and> 2 \<le> x \<and> x \<le> 4000 \<and> 2 \<le> y \<and> y \<le> 2000 \<and>
    (if (4000 :: int) < 2000 then y else x) \<le> max_side \<and> x * y \<le> max_area)"
proof
  show "frame_of (\<lambda>n. (n div 2, n)) 4000 2000 1200 = Some (2400, 1200)"
    by (simp add: frame_of_def shrink_frame_step even_side_def max_side_def max_area_def)
qed (rule frame_fits; simp)

section \<open>Chunks\<close>

fun tiled :: "int \<Rightarrow> (int \<times> int) list \<Rightarrow> int \<Rightarrow> bool" where
  "tiled a [] b \<longleftrightarrow> a = b"
| "tiled a ((x, y) # cs) b \<longleftrightarrow> a = x \<and> x < y \<and> tiled y cs b"

lemma cut_chunks_tiled:
  assumes "0 < step" "start \<le> ending"
  shows "tiled start (cut_chunks step ending start) ending"
  using assms
proof (induction step ending start rule: cut_chunks.induct)
  case (1 step ending start)
  show ?case
  proof (cases "start < ending")
    case True
    show ?thesis
    proof (cases "start + step < ending")
      case True
      then show ?thesis using "1.IH" "1.prems" \<open>start < ending\<close> by (subst cut_chunks.simps) (simp add: min_def)
    next
      case False
      then have "cut_chunks step ending (start + step) = []" by (subst cut_chunks.simps) simp
      then show ?thesis using False "1.prems" \<open>start < ending\<close> by (subst cut_chunks.simps) (simp add: min_def)
    qed
  next
    case False
    then show ?thesis using "1.prems" by (subst cut_chunks.simps) simp
  qed
qed

lemma cut_chunks_steps:
  assumes "(x, y) \<in> set (cut_chunks step ending start)"
  shows "step dvd x - start \<and> y - x \<le> step \<and> (y = ending \<or> step dvd y - start)"
  using assms
proof (induction step ending start rule: cut_chunks.induct)
  case (1 step ending start)
  then have run: "start < ending \<and> 0 < step" by (subst (asm) cut_chunks.simps) (simp split: if_splits)
  have "(x, y) = (start, min (start + step) ending) \<or> (x, y) \<in> set (cut_chunks step ending (start + step))"
    using "1.prems" run by (subst (asm) cut_chunks.simps) simp
  then show ?case
  proof
    assume "(x, y) = (start, min (start + step) ending)"
    then show ?thesis by (auto simp: min_def)
  next
    assume "(x, y) \<in> set (cut_chunks step ending (start + step))"
    then have "step dvd x - (start + step) \<and> y - x \<le> step \<and> (y = ending \<or> step dvd y - (start + step))"
      using "1.IH" run by blast
    moreover have "step dvd z - start" if "step dvd z - (start + step)" for z
      using dvd_add [OF that dvd_refl] by simp
    ultimately show ?thesis by blast
  qed
qed

lemma cut_chunks_length:
  assumes "0 < step" "start < ending"
  shows "int (length (cut_chunks step ending start)) = (ending - start - 1) div step + 1"
  using assms
proof (induction step ending start rule: cut_chunks.induct)
  case (1 step ending start)
  have unfold: "cut_chunks step ending start = (start, min (start + step) ending) # cut_chunks step ending (start + step)"
    using "1.prems" by (subst cut_chunks.simps) simp
  show ?case
  proof (cases "start + step < ending")
    case True
    have "(ending - start - 1) div step = (ending - (start + step) - 1) div step + 1"
      using "1.prems"(1) div_add_self2 [of step "ending - (start + step) - 1"] by (simp add: algebra_simps)
    then show ?thesis using "1.IH" "1.prems" True unfold by simp
  next
    case False
    then have "cut_chunks step ending (start + step) = []" by (subst cut_chunks.simps) simp
    moreover have "(ending - start - 1) div step = 0" using False "1.prems" by (intro div_pos_pos_trivial) auto
    ultimately show ?thesis using unfold by simp
  qed
qed

lemma chunk_step_range: "4000 \<le> chunk_step share \<and> chunk_step share \<le> 240000 \<and> 4000 dvd chunk_step share"
proof -
  let ?seconds = "min 240 (max 8 share)"
  have "\<lfloor>?seconds / 4\<rfloor> \<le> \<lfloor>240 / 4 :: rat\<rfloor>" by (intro floor_mono divide_right_mono) auto
  moreover have "\<lfloor>8 / 4 :: rat\<rfloor> \<le> \<lfloor>?seconds / 4\<rfloor>" by (intro floor_mono divide_right_mono) auto
  moreover have "chunk_step share = max 4000 (\<lfloor>?seconds / 4\<rfloor> * 4 * 1000)" by (simp add: chunk_step_def segment_seconds_def Let_def)
  ultimately show ?thesis by (auto simp: max_def)
qed

text \<open>
  C38: the chunks of a stage tile the video: they start at 0, each begins where the one before ends, the last ends with the
  video, none is longer than four minutes, every inner bound is one of a four second segment and there are
  at most 5000; a video is refused for its chunks exactly when it needs more.
\<close>

theorem chunks_tile:
  assumes "0 \<le> vp_duration pl" "vp_duration pl \<le> 9223372036854776"
  shows "case chunk_bounds e pl share of
      Inl err \<Rightarrow> \<exists>n > max_video_chunks. err = TooManyChunks n \<and> n = int (length (cut_chunks (chunk_step share) (chunk_end e pl) 0))
    | Inr bs \<Rightarrow> tiled 0 bs (chunk_end e pl) \<and> bs \<noteq> [] \<and> length bs \<le> 5000 \<and>
        list_all (\<lambda>(x, y). y - x \<le> 240000 \<and> 4000 dvd x \<and> (y = chunk_end e pl \<or> 4000 dvd y)) bs"
proof -
  let ?step = "chunk_step share" and ?finish = "chunk_end e pl"
  have step: "4000 \<le> ?step" "?step \<le> 240000" "4000 dvd ?step" using chunk_step_range by blast+
  have pos: "0 < ?finish" by (simp add: chunk_end_def)
  have len: "int (length (cut_chunks ?step ?finish 0)) = (?finish - 1) div ?step + 1" using cut_chunks_length [of ?step 0 ?finish] step pos by simp
  have tiles: "tiled 0 (cut_chunks ?step ?finish 0) ?finish" using cut_chunks_tiled [of ?step 0 ?finish] step pos by simp
  have each: "list_all (\<lambda>(x, y). y - x \<le> 240000 \<and> 4000 dvd x \<and> (y = ?finish \<or> 4000 dvd y)) (cut_chunks ?step ?finish 0)"
    unfolding list_all_iff using cut_chunks_steps [of _ _ ?step ?finish 0] step by (fastforce intro: dvd_trans)
  have ne: "cut_chunks ?step ?finish 0 \<noteq> []" using tiles pos by (cases "cut_chunks ?step ?finish 0") auto
  show ?thesis
  proof (cases "(?finish - 1) div ?step + 1 > max_video_chunks")
    case True
    then show ?thesis using len assms(2) by (simp add: chunk_bounds_def Let_def)
  next
    case False
    then show ?thesis using len assms(2) tiles each ne by (simp add: chunk_bounds_def Let_def max_video_chunks_def)
  qed
qed

text \<open>A source of 30 seconds in full HD, and an encoder whose products are exact.\<close>

definition sample_source :: video_plan where
  "sample_source = \<lparr>vp_duration = 30, vp_width = 1920, vp_height = 1080, vp_fps = 30\<rparr>"

definition sample_videos :: video_env where
  "sample_videos = \<lparr>ve_codecs = [''h264''], ve_scaled = (\<lambda>_ n. (n div 2, n)), ve_mul = (*), ve_aspect_ok = (\<lambda>_ _. True),
     ve_fp = (\<lambda>_ _. ''fp''), ve_subs_fp = (\<lambda>_ _. ''sub'')\<rparr>"

theorem chunks_tile_witness:
  "chunk_bounds sample_videos sample_source 13 = Inr [(0, 12000), (12000, 24000), (24000, 30000)] \<and>
   tiled 0 [(0, 12000), (12000, 24000), (24000, 30000)] (chunk_end sample_videos sample_source)"
proof -
  have b: "chunk_bounds sample_videos sample_source 13 = Inr [(0, 12000), (12000, 24000), (24000, 30000)]" by code_simp
  have "0 \<le> vp_duration sample_source" "vp_duration sample_source \<le> 9223372036854776" by (simp_all add: sample_source_def)
  from chunks_tile [OF this, where e = sample_videos and share = 13] b show ?thesis by (simp add: tiled.simps)
qed

end
