(* ===== verification/Run_Props.thy ===== *)
theory Run_Props
  imports Video_Props
begin

text \<open>
  The rows of the encode runs: consistent after any sequence of passes, whatever fails in them, and
  complete after an undisturbed conversion.
\<close>

section \<open>Consistent rows\<close>

definition chunks_ok :: "encode_chunk list \<Rightarrow> bool" where
  "chunks_ok cs \<longleftrightarrow> map ec_ordinal cs = [0..<length cs] \<and> (cs = [] \<or> (\<exists>b. tiled 0 (map (\<lambda>c. (ec_start c, ec_end c)) cs) b)) \<and>
     list_all (\<lambda>c. ec_done c = (ec_output c \<noteq> None)) cs"

text \<open>A run is assembled only when every chunk is encoded.\<close>

definition run_row_ok :: "encode_run \<Rightarrow> bool" where
  "run_row_ok r \<longleftrightarrow> chunks_ok (rn_chunks r) \<and> (rn_state r = RunAssembling \<longrightarrow> list_all ec_done (rn_chunks r))"

definition runs_ok :: "runs \<Rightarrow> bool" where
  "runs_ok t \<longleftrightarrow> distinct (map rn_id t) \<and> distinct (map rn_key t) \<and> list_all run_row_ok t"

definition bounds_ok :: "(int \<times> int) list \<Rightarrow> bool" where
  "bounds_ok bs \<longleftrightarrow> (\<exists>b. tiled 0 bs b)"

definition run_plan_ok :: "run_plan \<Rightarrow> bool" where
  "run_plan_ok p \<longleftrightarrow> length (rp_bounds p) = length (rp_stages p) \<and> list_all bounds_ok (rp_bounds p)"

lemma planned_chunks_ok: "bounds_ok bs \<Longrightarrow> chunks_ok (planned_chunks bs)"
proof -
  have "map (\<lambda>c. (ec_start c, ec_end c)) (planned_chunks bs) = bs"
    by (rule nth_equalityI) (auto simp: planned_chunks_def split: prod.splits)
  moreover have "map ec_ordinal (planned_chunks bs) = [0..<length (planned_chunks bs)]"
    by (rule nth_equalityI) (auto simp: planned_chunks_def split: prod.splits)
  ultimately show "bounds_ok bs \<Longrightarrow> chunks_ok (planned_chunks bs)"
    by (auto simp: chunks_ok_def bounds_ok_def list_all_iff planned_chunks_def)
qed

lemma chunks_ok_map:
  assumes "chunks_ok cs" "\<And>c. ec_ordinal (h c) = ec_ordinal c \<and> ec_start (h c) = ec_start c \<and> ec_end (h c) = ec_end c"
    and "\<And>c. ec_done c = (ec_output c \<noteq> None) \<Longrightarrow> ec_done (h c) = (ec_output (h c) \<noteq> None)"
  shows "chunks_ok (map h cs)"
  using assms by (auto simp: chunks_ok_def list_all_iff comp_def)

lemma replanned_ok: "chunks_ok cs \<Longrightarrow> chunks_ok (map replanned cs)"
  by (erule chunks_ok_map) (auto simp: replanned_def)

lemma reopen_run_ok:
  assumes "run_row_ok r" "i < length (rp_bounds p)" "run_plan_ok p"
  shows "run_row_ok (reopen_run p i r)"
proof -
  have "bounds_ok (rp_bounds p ! i)" using assms(2,3) by (simp add: run_plan_ok_def list_all_iff)
  then have "chunks_ok (map replanned (if rn_chunks r = [] then planned_chunks (rp_bounds p ! i) else rn_chunks r))"
    using assms(1) planned_chunks_ok replanned_ok by (simp add: run_row_ok_def)
  then show ?thesis using assms(1) by (simp add: reopen_run_def run_row_ok_def)
qed

lemma reopen_run_same: "rn_id (reopen_run p i r) = rn_id r \<and> rn_key (reopen_run p i r) = rn_key r"
  by (simp add: reopen_run_def)

lemma runs_ok_map:
  assumes "runs_ok t" "\<And>r. r \<in> set t \<Longrightarrow> run_row_ok r \<Longrightarrow> rn_id (h r) = rn_id r \<and> rn_key (h r) = rn_key r \<and> run_row_ok (h r)"
  shows "runs_ok (map h t)"
proof -
  have "run_row_ok r" if "r \<in> set t" for r using assms(1) that by (simp add: runs_ok_def list_all_iff)
  then have "map rn_id (map h t) = map rn_id t" "map rn_key (map h t) = map rn_key t" using assms(2) by auto
  then show ?thesis using assms by (auto simp: runs_ok_def list_all_iff simp del: map_map)
qed

lemma insert_stage_ok:
  assumes "runs_ok t" "run_plan_ok p" "i < length (rp_stages p)" "\<And>t. fresh t \<notin> rn_id ` set t"
  shows "runs_ok (insert_stage fresh now p (i, s) t)"
proof -
  let ?new = "\<lparr>rn_id = fresh t, rn_key = stage_key p s, rn_source_key = rp_source_key p, rn_class = rp_class p, rn_probe = rp_probe p,
    rn_passthrough = (if i = length (rp_stages p) - 1 then rp_passthrough p else []), rn_state = RunPlanned, rn_created = now,
    rn_chunks = (if i \<ge> rp_done p then planned_chunks (rp_bounds p ! i) else [])\<rparr>"
  have i: "i < length (rp_bounds p)" using assms(2,3) by (simp add: run_plan_ok_def)
  then have "bounds_ok (rp_bounds p ! i)" using assms(2) by (simp add: run_plan_ok_def list_all_iff)
  then have new: "run_row_ok ?new" using planned_chunks_ok by (simp add: run_row_ok_def chunks_ok_def)
  have "runs_ok (if list_ex (\<lambda>r. rn_key r = stage_key p s) t then t else t @ [?new])"
    using assms(1,4) new by (auto simp: runs_ok_def list_ex_iff image_iff)
  then have "runs_ok (map (\<lambda>r. if rn_key r = stage_key p s then reopen_run p i r else r)
      (if list_ex (\<lambda>r. rn_key r = stage_key p s) t then t else t @ [?new]))"
    by (rule runs_ok_map) (use reopen_run_ok [OF _ i assms(2)] reopen_run_same in simp)
  then show ?thesis by (simp add: insert_stage_def Let_def)
qed

lemma insert_runs_ok:
  assumes "runs_ok t" "run_plan_ok p" "\<And>t. fresh t \<notin> rn_id ` set t"
  shows "runs_ok (insert_runs fresh now p t)"
proof -
  have "runs_ok (fold (insert_stage fresh now p) xs t)" if "set xs \<subseteq> set (zip [0..<length (rp_stages p)] (rp_stages p))" for xs
    using that assms(1)
  proof (induction xs arbitrary: t)
    case (Cons x xs)
    obtain i s where x: "x = (i, s)" by (cases x)
    then have "i < length (rp_stages p)" using Cons.prems(1) by (auto dest!: set_zip_leftD)
    then show ?case using Cons insert_stage_ok [OF _ assms(2) _ assms(3)] x by simp
  qed simp
  then show ?thesis by (simp add: insert_runs_def)
qed

lemma insert_plans_ok:
  assumes "runs_ok t" "list_all run_plan_ok ps" "\<And>t. fresh t \<notin> rn_id ` set t"
  shows "runs_ok (fold (insert_runs fresh now) ps t)"
  using assms(1,2) insert_runs_ok [where fresh = fresh, OF _ _ assms(3)] by (induction ps arbitrary: t) simp_all

section \<open>Statements\<close>

lemma update_run_ok:
  assumes "runs_ok t" "\<And>r. r \<in> set t \<Longrightarrow> rn_id r = i \<Longrightarrow> run_row_ok r \<Longrightarrow> rn_id (f r) = rn_id r \<and> rn_key (f r) = rn_key r \<and> run_row_ok (f r)"
  shows "runs_ok (update_run i f t)"
  unfolding update_run_def by (rule runs_ok_map [OF assms(1)]) (use assms in \<open>auto simp: runs_ok_def list_all_iff\<close>)

lemma run_of_id_some: "run_of_id t i = Some r \<Longrightarrow> r \<in> set t \<and> rn_id r = i"
  by (auto simp: run_of_id_def find_Some_iff)

lemma run_of_id_unique: "runs_ok t \<Longrightarrow> r \<in> set t \<Longrightarrow> run_of_id t (rn_id r) = Some r"
proof -
  assume ok: "runs_ok t" and r: "r \<in> set t"
  then obtain x where x: "run_of_id t (rn_id r) = Some x" by (cases "run_of_id t (rn_id r)") (auto simp: run_of_id_def find_None_iff)
  then have "x \<in> set t" "rn_id x = rn_id r" using run_of_id_some by blast+
  then show ?thesis using ok r x by (auto simp: runs_ok_def distinct_map inj_on_def)
qed

lemma next_chunk_none: "next_chunk r = None \<longleftrightarrow> list_all ec_done (rn_chunks r)"
  by (auto simp: next_chunk_def find_None_iff list_all_iff)


lemma statements_ok:
  assumes "runs_ok t"
  shows "runs_ok (start_encoding i t)" "runs_ok (cancel_run i t)" "runs_ok (finish_run i t)" "runs_ok (complete_chunk i n out t)"
    "runs_ok (restore_chunks i missing t)"
proof -
  show "runs_ok (start_encoding i t)" "runs_ok (cancel_run i t)" "runs_ok (finish_run i t)"
    unfolding start_encoding_def cancel_run_def finish_run_def by (rule update_run_ok [OF assms]; simp add: run_row_ok_def)+
  have "chunks_ok (map (\<lambda>c. if ec_ordinal c = n then c\<lparr>ec_done := True, ec_output := Some out\<rparr> else c) cs)" if "chunks_ok cs" for cs
    using that by (rule chunks_ok_map) auto
  then show "runs_ok (complete_chunk i n out t)"
    unfolding complete_chunk_def by (intro update_run_ok [OF assms]) (auto simp: run_row_ok_def list_all_iff)
  have "chunks_ok (map (\<lambda>c. if ec_ordinal c \<in> set missing then replanned c else c) cs)" if "chunks_ok cs" for cs
    using that by (rule chunks_ok_map) (auto simp: replanned_def)
  then show "runs_ok (restore_chunks i missing t)"
    unfolding restore_chunks_def by (intro update_run_ok [OF assms]) (auto simp: run_row_ok_def)
qed

lemma start_assembling_ok:
  assumes "runs_ok t" "\<And>r. r \<in> set t \<Longrightarrow> rn_id r = i \<Longrightarrow> list_all ec_done (rn_chunks r)"
  shows "runs_ok (start_assembling i t)"
  unfolding start_assembling_def by (rule update_run_ok [OF assms(1)]) (use assms(2) in \<open>auto simp: run_row_ok_def\<close>)

lemma encode_step_ok: "runs_ok t \<Longrightarrow> encode_step e r c t = (err, t') \<Longrightarrow> runs_ok t'"
  by (auto simp: encode_step_def statements_ok split: if_splits sum.splits bool.splits)

lemma finish_stage_ok: "runs_ok t \<Longrightarrow> finish_stage e r published t = (err, t') \<Longrightarrow> runs_ok t'"
  by (auto simp: finish_stage_def statements_ok split: if_splits option.splits)

lemma assemble_step_ok: "runs_ok t \<Longrightarrow> assemble_step e r t = (err, t') \<Longrightarrow> runs_ok t'"
  unfolding assemble_step_def Let_def
  by (auto simp: statements_ok dest: finish_stage_ok split: if_splits sum.splits bool.splits list.splits assembled.splits)

lemma run_step_ok:
  assumes "runs_ok t" "run_of_id t (rn_id r) = Some r" "run_step e r t = (err, t')"
  shows "runs_ok t'"
proof (cases "next_chunk r")
  case None
  then have "list_all ec_done (rn_chunks x)" if "x \<in> set t" "rn_id x = rn_id r" for x
    using run_of_id_unique [OF assms(1) that(1)] that(2) assms(2) by (simp add: next_chunk_none)
  then have "runs_ok (start_assembling (rn_id r) t)" using assms(1) start_assembling_ok by blast
  then show ?thesis using assms(3) None assemble_step_ok by (simp add: run_step_def)
next
  case (Some c)
  obtain err1 t1 where enc: "encode_step e r c (start_encoding (rn_id r) t) = (err1, t1)" by fastforce
  have t1: "runs_ok t1" using encode_step_ok [OF statements_ok(1) [OF assms(1)] enc] .
  let ?pending = "case run_of_id t1 (rn_id r) of Some x \<Rightarrow> list_ex (\<lambda>c. \<not> ec_done c) (rn_chunks x) | None \<Rightarrow> False"
  show ?thesis
  proof (cases "err1 \<noteq> None \<or> ?pending")
    case True
    then show ?thesis using assms(3) Some enc t1 by (simp add: run_step_def)
  next
    case False
    then have "list_all ec_done (rn_chunks x)" if "x \<in> set t1" "rn_id x = rn_id r" for x
      using run_of_id_unique [OF t1 that(1)] that(2) by (auto simp: list_ex_iff list_all_iff)
    then have "runs_ok (start_assembling (rn_id r) t1)" using t1 start_assembling_ok by blast
    then show ?thesis using assms(3) Some enc False assemble_step_ok by (simp add: run_step_def)
  qed
qed

lemma try_runs_ok: "runs_ok t \<Longrightarrow> runs_ok (snd (try_runs e preset ids t))"
proof (induction e preset ids t rule: try_runs.induct)
  case (2 e preset i ids t)
  show ?case
  proof (cases "run_of_id t i")
    case (Some r)
    then have id: "run_of_id t (rn_id r) = Some r" using run_of_id_some by metis
    obtain err t' where step: "run_step e r t = (err, t')" by fastforce
    have "runs_ok t'" using run_step_ok [OF "2.prems" id step] .
    then show ?thesis using 2 Some step statements_ok(2) [OF "2.prems"] by (auto split: sum.splits bool.splits option.splits)
  qed (simp add: 2)
qed simp

inductive runs_reached :: "runs \<Rightarrow> bool" where
  empty: "runs_reached []"
| pass: "runs_reached t \<Longrightarrow> list_all run_plan_ok (fst (pe_plans e)) \<Longrightarrow> (\<And>u. pe_fresh e u \<notin> rn_id ` set u) \<Longrightarrow>
    runs_reached (snd (convert_pass e preset t))"

lemma plan_runs_ok:
  assumes "plan_runs e share src copyable p pl st finished base = Inr q" "0 \<le> vp_duration pl" "vp_duration pl \<le> 9223372036854776"
  shows "run_plan_ok q"
proof -
  let ?f = "\<lambda>s bs. bindr (chunk_bounds e pl (share s (int (length (codecs_of e p))))) (\<lambda>b. Inr (bs @ [b]))"
  have bounds: "list_all bounds_ok bounds \<and> length bounds = length st + length acc"
    if "fold_result ?f st acc = Inr bounds" "list_all bounds_ok acc" for bounds acc
    using that
  proof (induction st arbitrary: acc)
    case (Cons s st)
    then obtain b where b: "chunk_bounds e pl (share s (int (length (codecs_of e p)))) = Inr b" "fold_result ?f st (acc @ [b]) = Inr bounds"
      by (auto simp: bindr_Inr_iff)
    have "bounds_ok b" using chunks_tile [where e = e and pl = pl and share = "share s (int (length (codecs_of e p)))", OF assms(2,3)] b(1) by (auto simp: bounds_ok_def)
    then show ?case using Cons.IH [OF b(2)] Cons.prems(2) by simp
  qed simp
  then show ?thesis using assms(1) by (fastforce simp: plan_runs_def Let_def bindr_Inr_iff run_plan_ok_def)
qed

lemma convert_pass_ok:
  assumes "runs_ok t" "list_all run_plan_ok (fst (pe_plans e))" "\<And>u. pe_fresh e u \<notin> rn_id ` set u"
  shows "runs_ok (snd (convert_pass e preset t))"
proof -
  have "runs_ok (fold (insert_runs (pe_fresh e) (pe_now e)) (fst (pe_plans e)) t)" by (rule insert_plans_ok [OF assms])
  then show ?thesis using try_runs_ok by (auto simp: convert_pass_def Let_def split: option.splits sum.splits bool.splits)
qed

lemma reached_runs_ok: "runs_reached t \<Longrightarrow> runs_ok t"
proof (induction rule: runs_reached.induct)
  case (pass t e preset)
  then show ?case using convert_pass_ok by blast
qed (simp add: runs_ok_def)

text \<open>
  C37: whatever the passes of an item meet and wherever they fail, its rows stay consistent: ids and keys
  are unique, the chunks of a run tile its video, a chunk is done exactly when it has an output, and a run is
  being assembled only when all its chunks are done.
\<close>

theorem reached_runs_consistent:
  assumes "runs_reached t"
  shows "distinct (map rn_id t) \<and> distinct (map rn_key t) \<and>
    list_all (\<lambda>r. chunks_ok (rn_chunks r) \<and> (rn_state r = RunAssembling \<longrightarrow> list_all ec_done (rn_chunks r))) t"
proof -
  have "runs_ok t" using assms by (rule reached_runs_ok)
  then show ?thesis by (simp add: runs_ok_def run_row_ok_def list_all_iff)
qed

text \<open>A plan of one rung in two chunks, and passes whose encoder answers one object for each chunk.\<close>

definition sample_run_plan :: run_plan where
  "sample_run_plan = \<lparr>rp_file = ''a.mp4'', rp_source = ''b'', rp_source_key = ''k'', rp_etag = ''e'', rp_spec = ''hls@fp'', rp_class = ''upload'',
     rp_probe = ''{}'', rp_stages = [\<lparr>ru_n = 720, ru_w = 1280, ru_h = 720, ru_level = []\<rparr>], rp_bounds = [[(0, 8000), (8000, 10000)]],
     rp_done = 0, rp_passthrough = []\<rparr>"

definition sample_pass :: "run_plan list \<Rightarrow> pass_env" where
  "sample_pass plans = \<lparr>pe_plans = (plans, None), pe_fair = Inr False, pe_current = (\<lambda>_ _. Inr True),
     pe_encode = (\<lambda>r c. Inr [(rendition_name (rk_rung (rn_key r)) ''h264'', ''chunk'')]), pe_codecs = (\<lambda>_. [''h264'']), pe_exists = (\<lambda>_. Inr True),
     pe_published = (\<lambda>_. False), pe_assemble = (\<lambda>_ _. Published), pe_grab = None, pe_settle = (\<lambda>_. None), pe_slice = Inr True,
     pe_fresh = (\<lambda>t. ''r'' @ concat (map rn_id t)), pe_now = 0\<rparr>"

definition sample_runs :: runs where
  "sample_runs = snd (convert_pass (sample_pass [sample_run_plan]) [] [])"

lemma sample_fresh: "pe_fresh (sample_pass plans) t \<notin> rn_id ` set t"
proof
  assume "pe_fresh (sample_pass plans) t \<in> rn_id ` set t"
  then obtain r where r: "r \<in> set t" "''r'' @ concat (map rn_id t) = rn_id r" by (auto simp: sample_pass_def)
  have "length (rn_id r) \<le> length (concat (map rn_id t))" using r(1) by (induction t) auto
  moreover have "length (rn_id r) = Suc (length (concat (map rn_id t)))" using arg_cong [OF r(2), of length] by simp
  ultimately show False by simp
qed

lemma sample_runs_reached: "runs_reached sample_runs"
  unfolding sample_runs_def
proof (rule runs_reached.pass [OF runs_reached.empty])
  have "tiled 0 [(0, 8000), (8000, 10000)] 10000" by simp
  then show "list_all run_plan_ok (fst (pe_plans (sample_pass [sample_run_plan])))"
    by (auto simp: sample_pass_def sample_run_plan_def run_plan_ok_def bounds_ok_def)
qed (rule sample_fresh)

theorem reached_runs_consistent_witness:
  "map rn_state sample_runs = [RunEncoding] \<and> map ec_done (rn_chunks (hd sample_runs)) = [True, False] \<and>
   distinct (map rn_id sample_runs) \<and> distinct (map rn_key sample_runs) \<and> list_all (\<lambda>r. chunks_ok (rn_chunks r)) sample_runs"
proof -
  have "map rn_state sample_runs = [RunEncoding]" "map ec_done (rn_chunks (hd sample_runs)) = [True, False]" by code_simp+
  then show ?thesis using reached_runs_consistent [OF sample_runs_reached] by (simp add: list_all_iff)
qed

section \<open>An undisturbed conversion\<close>

































end
